(* ===== verification/Prelude.thy ===== *)
theory Prelude
  imports Main "HOL-Library.Word" "HOL-Library.AList" "HOL-Library.Sublist"
begin

text \<open>
  Shared vocabulary of the development: the Python values the components pass around
  (text as a list of code points, bytes as 8-bit words, dictionaries as association lists
  in insertion order, raised exceptions as the left summand of a result), and the generic
  lemmas on lists, folds and cursors that more than one component uses.
\<close>

section \<open>Python values\<close>

text \<open>
  A Python \<open>str\<close> is a sequence of code points, so \<open>len\<close>, slicing and indexing count
  code points; a \<open>bytes\<close> value is a sequence of 8-bit words. \<open>lit\<close> turns an ASCII
  literal of the source into such a sequence.
\<close>

type_synonym pystr = "nat list"
type_synonym byte = "8 word"
type_synonym bytes = "byte list"

definition lit :: "string \<Rightarrow> pystr" where
  "lit s = map of_char s"

lemma lit_Nil [simp]: "lit [] = []"
  by (simp add: lit_def)

lemma lit_Cons [simp]: "lit (c # cs) = of_char c # lit cs"
  by (simp add: lit_def)

lemma length_lit [simp]: "length (lit s) = length s"
  by (simp add: lit_def)

lemma lit_eq_Nil [simp]: "lit s = [] \<longleftrightarrow> s = []"
  by (simp add: lit_def)

lemma lit_eq_lit [simp]: "lit s = lit t \<longleftrightarrow> s = t"
  by (simp add: lit_def inj_map_eq_map inj_def)

text \<open>
  The exceptions the modelled code raises, by class, with the message of the raise where
  the code gives one. \<open>'a result\<close> is the outcome of a call: the exception or the value.
\<close>

datatype py_error =
    ValueError string
  | TypeError string
  | RuntimeError string
  | KeyError pystr
  | UnicodeEncodeError
  | UnicodeDecodeError
  | JsonBoundExceeded string
  | DuplicateJsonKey
  | InvalidTerminalOutputCursor
  | ToolResultPageBoundary string
  | MediaError string string
  | AssertionError
  | ConversationKernelConflict string
  | ToolInteractionDecisionNotAccepted string
  | ToolInteractionDecisionOutcomeUnknown string
  | ProviderInputContinuityConflict string
  | ExternalSourceNotAtSafePoint string
  | JSONDecodeError
  | CompactionPlanningError string
  | CompactionReclaimUnavailable string
  | NoSafeCompactionSummaryPrefix string
  | StructuredModelInputCompileError string
  | TimeoutError string

type_synonym 'a result = "py_error + 'a"

definition is_ok :: "'a result \<Rightarrow> bool" where
  "is_ok r = (case r of Inl _ \<Rightarrow> False | Inr _ \<Rightarrow> True)"

lemma is_ok_simps [simp]: "is_ok (Inr x)" "\<not> is_ok (Inl e)"
  by (simp_all add: is_ok_def)

text \<open>Sequencing: the exception of the first part is the exception of the whole.\<close>

fun bind_result :: "'a result \<Rightarrow> ('a \<Rightarrow> 'b result) \<Rightarrow> 'b result" where
  "bind_result (Inl e) f = Inl e"
| "bind_result (Inr x) f = f x"

lemma bind_result_Inr: "bind_result r f = Inr y \<longleftrightarrow> (\<exists>x. r = Inr x \<and> f x = Inr y)"
  by (cases r) auto

lemma bind_result_cong [fundef_cong]:
  "r = s \<Longrightarrow> (\<And>x. s = Inr x \<Longrightarrow> f x = g x) \<Longrightarrow> bind_result r f = bind_result s g"
  by (cases s) auto

lemma map_sum_Inr: "map_sum id f r = Inr y \<longleftrightarrow> (\<exists>x. r = Inr x \<and> y = f x)"
  by (cases r) auto

text \<open>The values of a fallible function over a list, or its first exception.\<close>

fun map_result :: "('a \<Rightarrow> 'b result) \<Rightarrow> 'a list \<Rightarrow> 'b list result" where
  "map_result f [] = Inr []"
| "map_result f (x # xs) = bind_result (f x) (\<lambda>y. map_sum id (\<lambda>ys. y # ys) (map_result f xs))"

lemma map_result_cong [fundef_cong]:
  "xs = ys \<Longrightarrow> (\<And>x. x \<in> set ys \<Longrightarrow> f x = g x) \<Longrightarrow> map_result f xs = map_result g ys"
  by (induction ys arbitrary: xs) auto

lemma map_result_Inr:
  "map_result f xs = Inr ys \<longleftrightarrow> list_all2 (\<lambda>x y. f x = Inr y) xs ys"
  by (induction xs arbitrary: ys) (auto simp: bind_result_Inr map_sum_Inr list_all2_Cons1)

lemma map_result_total: "(\<And>x. x \<in> set xs \<Longrightarrow> f x = Inr (g x)) \<Longrightarrow> map_result f xs = Inr (map g xs)"
  by (induction xs) auto

text \<open>Consecutive checks: the error of the first one that fails.\<close>

fun first_error :: "(bool \<times> py_error) list \<Rightarrow> unit result" where
  "first_error [] = Inr ()"
| "first_error ((failed, e) # cs) = (if failed then Inl e else first_error cs)"

lemma first_error_Inr: "first_error cs = Inr u \<longleftrightarrow> list_all (\<lambda>c. \<not> fst c) cs"
  by (induction cs rule: first_error.induct) auto

text \<open>A loop that runs a fallible step over a list and stops at the first exception.\<close>

fun for_each :: "('s \<Rightarrow> 'a \<Rightarrow> 's result) \<Rightarrow> 's \<Rightarrow> 'a list \<Rightarrow> 's result" where
  "for_each f s [] = Inr s"
| "for_each f s (x # xs) = (case f s x of Inl e \<Rightarrow> Inl e | Inr s' \<Rightarrow> for_each f s' xs)"

lemma for_each_append:
  "for_each f s (xs @ ys) =
     (case for_each f s xs of Inl e \<Rightarrow> Inl e | Inr s' \<Rightarrow> for_each f s' ys)"
  by (induction xs arbitrary: s) (auto split: sum.split)

lemma for_each_invariant:
  assumes "for_each f s xs = Inr t" and "I s"
    and "\<And>s x s'. I s \<Longrightarrow> f s x = Inr s' \<Longrightarrow> I s'"
  shows "I t"
  using assms(1,2)
proof (induction xs arbitrary: s)
  case Nil
  then show ?case by simp
next
  case (Cons x xs)
  then obtain s' where "f s x = Inr s'" and "for_each f s' xs = Inr t"
    by (auto split: sum.splits)
  with Cons.IH Cons.prems(2) assms(3) show ?case by blast
qed

section \<open>Identities drawn at random\<close>

text \<open>
  \<open>random_id(kind)\<close> draws a fresh payload on every call and its callers redraw while the
  identity is already taken. The draws are an input of the model; running out of draws
  (\<open>None\<close>) stands for a loop that has not stopped yet.
\<close>

fun draw_fresh :: "'k list \<Rightarrow> 'k list \<Rightarrow> 'k option" where
  "draw_fresh taken [] = None"
| "draw_fresh taken (d # ds) = (if d \<in> set taken then draw_fresh taken ds else Some d)"

lemma draw_fresh_new: "draw_fresh taken ds = Some d \<Longrightarrow> d \<notin> set taken \<and> d \<in> set ds"
  by (induction ds) (auto split: if_splits)

lemma draw_fresh_None: "draw_fresh taken ds = None \<longleftrightarrow> set ds \<subseteq> set taken"
  by (induction ds) auto

text \<open>More distinct draws than identities in use always yield a free one.\<close>

lemma draw_fresh_enough:
  assumes "distinct ds" and "length taken < length ds"
  shows "\<exists>d. draw_fresh taken ds = Some d"
proof (rule ccontr)
  assume "\<not> ?thesis"
  then have "set ds \<subseteq> set taken" using draw_fresh_None by fastforce
  then have "card (set ds) \<le> length taken"
    by (meson List.finite_set card_length card_mono le_trans)
  with assms show False by (simp add: distinct_card)
qed

section \<open>Lists and cursors\<close>

text \<open>
  A history numbers its events from 1. Reading past a cursor in any retained suffix of it
  is the same as reading the history itself, provided the cursor is not older than the
  suffix.
\<close>

definition numbered :: "('e \<Rightarrow> int) \<Rightarrow> 'e list \<Rightarrow> bool" where
  "numbered num h \<longleftrightarrow> (\<forall>i < length h. num (h ! i) = int i + 1)"

lemma numbered_Nil [simp]: "numbered num []"
  by (simp add: numbered_def)

lemma numbered_snoc:
  "numbered num h \<Longrightarrow> num e = int (length h) + 1 \<Longrightarrow> numbered num (h @ [e])"
  by (auto simp: numbered_def nth_append less_Suc_eq)

lemma numbered_drop_filter:
  assumes "numbered num h" and "k \<le> a"
  shows "filter (\<lambda>e. int a < num e) (drop k h) = drop a h"
proof -
  have le: "filter (\<lambda>e. int a < num e) (drop k (take a h)) = []"
  proof -
    have "\<not> int a < num e" if "e \<in> set (drop k (take a h))" for e
    proof -
      from that have "e \<in> set (take a h)" using in_set_dropD by fast
      then obtain i where "i < a" and "i < length h" and "e = h ! i"
        by (auto simp: in_set_conv_nth)
      with assms(1) show ?thesis by (auto simp: numbered_def)
    qed
    then show ?thesis by (simp add: filter_empty_conv)
  qed
  have gt: "filter (\<lambda>e. int a < num e) (drop a h) = drop a h"
  proof -
    have "int a < num e" if "e \<in> set (drop a h)" for e
    proof -
      from that obtain i where "i < length (drop a h)" and "e = drop a h ! i"
        by (auto simp: in_set_conv_nth)
      with assms(1) show ?thesis by (auto simp: numbered_def)
    qed
    then show ?thesis by (simp add: filter_id_conv)
  qed
  have "drop k h = drop k (take a h) @ drop a h"
  proof (cases "a \<le> length h")
    case True
    have "drop k h = drop k (take a h @ drop a h)" by simp
    also have "\<dots> = drop k (take a h) @ drop (k - length (take a h)) (drop a h)"
      by (rule drop_append)
    finally show ?thesis using assms(2) True by simp
  next
    case False
    then show ?thesis by simp
  qed
  with le gt show ?thesis by simp
qed

lemma numbered_hd_drop:
  "numbered num h \<Longrightarrow> drop k h \<noteq> [] \<Longrightarrow> num (hd (drop k h)) = int k + 1"
  by (simp add: numbered_def hd_drop_conv_nth)

lemma numbered_last_take_drop:
  assumes "numbered num h" and "take n (drop a h) \<noteq> []"
  shows "num (last (take n (drop a h))) = int a + int (length (take n (drop a h)))"
proof -
  let ?es = "take n (drop a h)"
  from assms(2) have pos: "0 < length ?es" by simp
  then have "last ?es = ?es ! (length ?es - 1)" by (simp add: last_conv_nth)
  also have "\<dots> = h ! (a + (length ?es - 1))" using pos by (subst nth_take) (auto simp: min_def)
  finally have l: "last ?es = h ! (a + (length ?es - 1))" .
  have "a + (length ?es - 1) < length h" using pos by simp linarith
  with assms(1) have "num (last ?es) = int (a + (length ?es - 1)) + 1"
    unfolding l numbered_def by blast
  moreover have "int (a + (m - 1)) + 1 = int a + int m" if "0 < m" for m using that by linarith
  ultimately show ?thesis using pos by metis
qed

lemma drop_append_ex:
  assumes "k \<le> length h"
  shows "drop j (drop k h @ [e]) = drop (k + j) (h @ [e])"
proof -
  from assms have "drop k (h @ [e]) = drop k h @ [e]" by simp
  then show ?thesis by (metis add.commute drop_drop)
qed

lemma drop_min_length: "drop n xs = drop (min n (length xs)) xs"
  by (simp add: min_def)

section \<open>Dictionaries\<close>

text \<open>
  A \<open>dict\<close> is its list of items in insertion order: \<open>AList.update\<close> writes in place or
  appends, \<open>AList.delete\<close> removes, \<open>map_of\<close> looks up.
\<close>

lemma dict_set_new: "k \<notin> set (map fst d) \<Longrightarrow> AList.update k v d = d @ [(k, v)]"
  by (induction d) auto

lemma dict_delete_subset: "set (AList.delete k d) \<subseteq> set d"
  by (auto simp: AList.delete_eq)

lemma dict_in_delete: "p \<in> set (AList.delete k d) \<Longrightarrow> p \<in> set d"
  using dict_delete_subset by fast

end
