(* ===== verification/Cursor_Log.thy ===== *)
theory Cursor_Log
  imports Prelude
begin

text \<open>
  The interface between an event owner and its observers. An owner keeps a bounded suffix
  of everything it has published and answers reads that carry the reader's own cursor; an
  observer repeats such reads, feeding each answer's cursor into the next one. The laws
  say what one answered read promises; the lemmas of the locale are what an observer can
  conclude about all of its reads together.
\<close>

section \<open>The bounded ring\<close>

text \<open>
  The loop both owners run after an append: drop the oldest entry while there are too many
  entries or too many bytes. Each entry carries its byte charge.
\<close>

fun trim_ring :: "int \<Rightarrow> int \<Rightarrow> ('e \<times> int) list \<Rightarrow> int \<Rightarrow> ('e \<times> int) list \<times> int" where
  "trim_ring maxe maxb [] b = ([], b)"
| "trim_ring maxe maxb (x # xs) b =
     (if maxe < int (length (x # xs)) \<or> maxb < b then trim_ring maxe maxb xs (b - snd x)
      else (x # xs, b))"

definition ring_charge :: "('e \<times> int) list \<Rightarrow> int" where
  "ring_charge r = sum_list (map snd r)"

lemma ring_charge_simps [simp]:
  "ring_charge [] = 0" "ring_charge (x # xs) = snd x + ring_charge xs"
  "ring_charge (xs @ ys) = ring_charge xs + ring_charge ys"
  by (simp_all add: ring_charge_def)

lemma ring_charge_nonneg: "\<forall>x \<in> set r. 0 \<le> snd x \<Longrightarrow> 0 \<le> ring_charge r"
  by (auto simp: ring_charge_def intro!: sum_list_nonneg)

text \<open>What is left is a suffix, its charge is exact, and both bounds hold.\<close>

lemma trim_ring_suffix: "\<exists>k. fst (trim_ring maxe maxb r b) = drop k r"
proof (induction r arbitrary: b)
  case Nil
  show ?case by simp
next
  case (Cons x xs)
  from Cons.IH [of "b - snd x"] obtain k
    where "fst (trim_ring maxe maxb xs (b - snd x)) = drop (Suc k) (x # xs)" by auto
  moreover have "\<exists>k'. x # xs = drop k' (x # xs)" by (rule exI [of _ 0]) simp
  ultimately show ?case by (auto simp del: drop_Suc_Cons)
qed

lemma trim_ring_charge:
  "b = ring_charge r \<Longrightarrow> snd (trim_ring maxe maxb r b) = ring_charge (fst (trim_ring maxe maxb r b))"
  by (induction r arbitrary: b) auto

lemma trim_ring_events: "0 \<le> maxe \<Longrightarrow> int (length (fst (trim_ring maxe maxb r b))) \<le> maxe"
  by (induction r arbitrary: b) auto

lemma trim_ring_bytes:
  "b = ring_charge r \<Longrightarrow> 0 \<le> maxb \<Longrightarrow> snd (trim_ring maxe maxb r b) \<le> maxb"
  by (induction r arbitrary: b) auto

text \<open>The newest entry survives whenever it fits the bounds on its own.\<close>

lemma trim_ring_keeps_last:
  assumes "1 \<le> maxe" and "snd e \<le> maxb" and "\<forall>x \<in> set r. 0 \<le> snd x"
    and "b = ring_charge (r @ [e])"
  shows "fst (trim_ring maxe maxb (r @ [e]) b) \<noteq> []"
  using assms(3,4)
proof (induction r arbitrary: b)
  case Nil
  with assms(1,2) show ?case by simp
next
  case (Cons x xs)
  have "fst (trim_ring maxe maxb (xs @ [e]) (b - snd x)) \<noteq> []"
    using Cons.prems by (intro Cons.IH) auto
  then show ?case by simp
qed

text \<open>
  What an owner keeps of a history \<open>h\<close>: a suffix of it, with an exact byte charge, within
  both bounds, and never without the newest event.
\<close>

definition ring_holds :: "('e \<times> int) list \<Rightarrow> int \<Rightarrow> int \<Rightarrow> int \<Rightarrow> 'e list \<Rightarrow> bool" where
  "ring_holds r b maxe maxb h \<longleftrightarrow>
     (\<exists>k \<le> length h. map fst r = drop k h) \<and> b = ring_charge r \<and> (\<forall>x \<in> set r. 0 \<le> snd x) \<and>
     int (length r) \<le> maxe \<and> b \<le> maxb \<and> (h \<noteq> [] \<longrightarrow> r \<noteq> [])"

lemma ring_holds_Nil [simp]: "ring_holds [] b maxe maxb [] \<longleftrightarrow> b = 0 \<and> 0 \<le> maxe \<and> 0 \<le> maxb"
  by (auto simp: ring_holds_def)

lemma map_fst_trim_ring:
  "\<exists>k. map fst (fst (trim_ring me mb r b)) = drop k (map fst r) \<and> k \<le> length r"
proof -
  obtain k where "fst (trim_ring me mb r b) = drop k r" using trim_ring_suffix by blast
  then have "map fst (fst (trim_ring me mb r b)) = drop (min k (length r)) (map fst r)"
    by (simp add: drop_map min_def)
  then show ?thesis by (intro exI [of _ "min k (length r)"]) simp
qed

text \<open>Appending an entry whose charge fits the byte bound keeps the ring's invariant.\<close>

lemma ring_holds_append:
  assumes "ring_holds r b maxe maxb h" and "0 \<le> n" and "n \<le> maxb" and "1 \<le> maxe"
    and t: "t = trim_ring maxe maxb (r @ [(e, n)]) (b + n)"
  shows "ring_holds (fst t) (snd t) maxe maxb (h @ [e])"
proof -
  let ?r = "r @ [(e, n)]" and ?b = "b + n"
  from assms(1) obtain k where k: "k \<le> length h" "map fst r = drop k h"
    and b: "?b = ring_charge ?r" and nn: "\<forall>x \<in> set r. 0 \<le> snd x"
    by (auto simp: ring_holds_def)
  have "map fst ?r = drop k (h @ [e])" using k by simp
  with map_fst_trim_ring [of maxe maxb ?r ?b]
  obtain j where "map fst (fst t) = drop j (drop k (h @ [e]))" unfolding t by metis
  then have "map fst (fst t) = drop (j + k) (h @ [e])" by (simp only: drop_drop)
  then have "map fst (fst t) = drop (min (j + k) (length (h @ [e]))) (h @ [e])"
    by (subst drop_min_length [symmetric])
  moreover have "\<forall>x \<in> set (fst t). 0 \<le> snd x"
  proof -
    obtain i where "fst t = drop i ?r" unfolding t using trim_ring_suffix by blast
    then have "set (fst t) \<subseteq> set ?r" using set_drop_subset by metis
    with nn assms(2) show ?thesis by auto
  qed
  moreover have "fst t \<noteq> []"
    using trim_ring_keeps_last [OF assms(4), of "(e, n)"] assms(2,3) nn b by (simp add: t)
  moreover have "int (length (fst t)) \<le> maxe"
    unfolding t using assms(4) by (intro trim_ring_events) simp
  ultimately show ?thesis
    using trim_ring_charge [OF b, of maxe maxb] trim_ring_bytes [OF b, of maxb maxe] assms(2-4)
    by (auto simp: ring_holds_def t intro!: exI [of _ "min (j + k) (length (h @ [e]))"])
qed

text \<open>
  Reading a ring whose events are numbered from 1: the number of the oldest retained event,
  the events after a cursor the ring still covers, and the cursor an answer ends at.
\<close>

lemma ring_oldest:
  assumes "map fst r = drop k h" and "k \<le> length h" and "numbered num h"
  shows "(if r \<noteq> [] then num (fst (hd r)) else int (length h) + 1) = int k + 1"
proof (cases "r = []")
  case True
  with assms have "drop k h = []" by simp
  with assms(2) True show ?thesis by simp
next
  case False
  then have "fst (hd r) = hd (drop k h)" using assms(1) by (metis hd_map)
  moreover have "drop k h \<noteq> []" using False assms(1) by (metis map_is_Nil_conv)
  ultimately show ?thesis using numbered_hd_drop [OF assms(3)] False by simp
qed

lemma ring_after:
  assumes "numbered num h" and "int k \<le> a"
  shows "filter (\<lambda>e. a < num e) (drop k h) = drop (nat a) h"
  using numbered_drop_filter [OF assms(1), of k "nat a"] assms(2) by simp

lemma ring_through:
  assumes "numbered num h" and "0 \<le> a"
  shows "(if take n (drop (nat a) h) \<noteq> [] then num (last (take n (drop (nat a) h))) else a)
      = a + int (length (take n (drop (nat a) h)))"
  using numbered_last_take_drop [OF assms(1), of n "nat a"] assms(2) by auto

section \<open>Reads with a cursor\<close>

text \<open>
  \<open>follow\<close> is an observer's session: one read per visited state, each from the cursor the
  previous one returned. It stops at the first read that is not answered with events.
\<close>

fun follow ::
  "('s \<Rightarrow> int \<Rightarrow> int \<Rightarrow> ('e list \<times> int) option) \<Rightarrow> int \<Rightarrow> ('s \<times> int) list \<Rightarrow> ('e list \<times> int) option"
where
  "follow read a [] = Some ([], a)"
| "follow read a ((s, n) # ss) =
     (case read s a n of
        None \<Rightarrow> None
      | Some (es, a') \<Rightarrow>
          (case follow read a' ss of
             None \<Rightarrow> None
           | Some (fs, b) \<Rightarrow> Some (es @ fs, b)))"

text \<open>The states of a session represent histories that only grow.\<close>

fun grows :: "('s \<Rightarrow> 'e list \<Rightarrow> bool) \<Rightarrow> 'e list \<Rightarrow> ('s \<times> int) list \<Rightarrow> 'e list \<Rightarrow> bool" where
  "grows repr h [] g \<longleftrightarrow> h = g"
| "grows repr h ((s, n) # ss) g \<longleftrightarrow>
     (\<exists>h'. repr s h' \<and> prefix h h' \<and> grows repr h' ss g)"

lemma grows_prefix: "grows repr h ss g \<Longrightarrow> prefix h g"
proof (induction ss arbitrary: h)
  case Nil
  then show ?case by simp
next
  case (Cons p ss)
  then show ?case by (cases p) (fastforce intro: prefix_order.trans)
qed

locale cursor_log =
  fixes repr :: "'s \<Rightarrow> 'e list \<Rightarrow> bool"
    and read :: "'s \<Rightarrow> int \<Rightarrow> int \<Rightarrow> ('e list \<times> int) option"
  assumes read_exact: "repr s h \<Longrightarrow> read s a n = Some (es, a') \<Longrightarrow>
      es = take (nat n) (drop (nat a) h) \<and> a' = a + int (length es)"
    and read_bounds: "repr s h \<Longrightarrow> read s a n = Some (es, a') \<Longrightarrow>
      0 \<le> a \<and> a \<le> int (length h)"
begin

lemma read_is_slice:
  assumes "repr s h" and "read s a n = Some (es, a')"
  shows "es = take (nat (a' - a)) (drop (nat a) h)" and "0 \<le> a" and "a \<le> a'"
    and "a' \<le> int (length h)"
proof -
  from read_exact [OF assms] have es: "es = take (nat n) (drop (nat a) h)"
    and a': "a' = a + int (length es)" by auto
  from read_bounds [OF assms] have b: "0 \<le> a" "a \<le> int (length h)" by auto
  have "length es \<le> length h - nat a" unfolding es by simp
  with a' b show "a' \<le> int (length h)" by linarith
  from a' b show "0 \<le> a" "a \<le> a'" by auto
  from a' have "nat (a' - a) = length es" by simp
  moreover have "take (length es) (drop (nat a) h) = es" unfolding es by (simp add: min_def)
  ultimately show "es = take (nat (a' - a)) (drop (nat a) h)" by simp
qed

text \<open>
  An observer that is never told of a gap has received every event published after its
  first cursor, once and in order, up to its last cursor.
\<close>

lemma follow_lossless:
  assumes "grows repr h ss g" and "follow read a ss = Some (es, b)" and "0 \<le> a"
    and "a \<le> int (length h)"
  shows "es = take (nat (b - a)) (drop (nat a) g) \<and> a \<le> b \<and> b \<le> int (length g)"
  using assms
proof (induction ss arbitrary: h a es)
  case Nil
  then show ?case by simp
next
  case (Cons p ss)
  obtain s n where p: "p = (s, n)" by (cases p)
  from Cons.prems(1) p obtain h' where h': "repr s h'" "prefix h h'" "grows repr h' ss g"
    by auto
  from Cons.prems(2) p obtain es1 a1 es2 where r: "read s a n = Some (es1, a1)"
    and f: "follow read a1 ss = Some (es2, b)" and es: "es = es1 @ es2"
    by (auto split: option.splits)
  note sl = read_is_slice [OF h'(1) r]
  have IH: "es2 = take (nat (b - a1)) (drop (nat a1) g) \<and> a1 \<le> b \<and> b \<le> int (length g)"
    using Cons.IH [OF h'(3) f] sl by linarith
  from grows_prefix [OF h'(3)] obtain t where g: "g = h' @ t" by (auto elim: prefixE)
  have n1: "nat a + nat (a1 - a) = nat a1" using sl by linarith
  have "es1 = take (nat (a1 - a)) (drop (nat a) g)"
    using sl n1 unfolding g by simp
  moreover have "es2 = take (nat (b - a1)) (drop (nat (a1 - a)) (drop (nat a) g))"
    using IH n1 by (simp add: add.commute)
  ultimately have "es = take (nat (a1 - a) + nat (b - a1)) (drop (nat a) g)"
    unfolding es by (simp add: take_add)
  moreover have "nat (a1 - a) + nat (b - a1) = nat (b - a)" using sl IH by linarith
  ultimately show ?case using IH sl by simp
qed

end

end
