(* ===== verification/Limits.thy ===== *)
theory Limits
  imports Prelude
begin

text \<open>
  The finite activation limits of the kernel (\<open>conversation_kernel/limits.py\<close>): the
  dataclass as its fields in declaration order with their default values, read by name as
  \<open>getattr\<close> does, and the validation its constructor runs.
\<close>

section \<open>Stage 2 runtime limits\<close>

type_synonym limits = "(string \<times> int) list"

definition maximum_prompt_text_utf8_bytes :: int where
  "maximum_prompt_text_utf8_bytes = push_bit 20 1"

definition stage2_defaults :: limits where
  "stage2_defaults =
    [(''committed_observation_default_events'', 128),
     (''committed_observation_hard_events'', 256),
     (''committed_observation_default_bytes'', push_bit 20 2),
     (''committed_observation_hard_bytes'', push_bit 20 4),
     (''committed_observation_default_wait_ms'', 1000),
     (''committed_observation_hard_wait_ms'', 30000),
     (''committed_payload_hard_bytes'', push_bit 10 64),
     (''audit_page_default_concurrency'', 2),
     (''audit_page_hard_concurrency'', 8),
     (''audit_query_default_concurrency'', 2),
     (''audit_query_hard_concurrency'', 8),
     (''snapshot_default_entries'', 200),
     (''snapshot_hard_entries'', 256),
     (''snapshot_default_control_items'', 64),
     (''snapshot_hard_control_items'', 128),
     (''snapshot_hard_bytes'', push_bit 20 7),
     (''history_page_default_entries'', 128),
     (''history_page_hard_entries'', 256),
     (''history_page_hard_bytes'', push_bit 20 7),
     (''pending_prompt_hard_items'', 128),
     (''nonterminal_subagent_hard_items'', 4),
     (''subagent_objective_hard_bytes'', push_bit 10 64),
     (''active_tool_control_hard_items'', 128),
     (''live_observer_default_count'', 16),
     (''live_observer_hard_count'', 64),
     (''live_ring_hard_events'', 512),
     (''live_ring_hard_bytes'', push_bit 20 1),
     (''live_snapshot_default_events'', 128),
     (''live_snapshot_hard_events'', 256),
     (''live_snapshot_default_bytes'', push_bit 10 512),
     (''live_snapshot_hard_bytes'', push_bit 20 1),
     (''live_control_hard_events'', 64),
     (''live_control_hard_bytes'', push_bit 10 256),
     (''level_read_debounce_ms'', 50),
     (''diagnostic_sample_every'', 1000),
     (''tool_argument_display_hard_bytes'', push_bit 10 32),
     (''hook_callback_timeout_ms'', 2000),
     (''content_chunk_hard_bytes'', push_bit 20 1),
     (''content_hydrate_default_concurrency'', 4),
     (''content_hydrate_hard_concurrency'', 8),
     (''content_hydrate_timeout_ms'', 12000),
     (''foreground_io_hard_concurrency'', 8),
     (''foreground_io_timeout_ms'', 30000),
     (''memory_index_lag_warning_generations'', 2),
     (''memory_index_lag_error_generations'', 10),
     (''prompt_hard_bytes'', maximum_prompt_text_utf8_bytes),
     (''tool_result_hard_bytes'', push_bit 20 4),
     (''canonical_blob_hard_bytes'', push_bit 20 16),
     (''inline_content_hard_bytes'', push_bit 10 64),
     (''blob_orphan_grace_seconds'', 24 * 60 * 60),
     (''blob_gc_batch_hard_items'', 128),
     (''blob_gc_interval_ms'', 5 * 60 * 1000)]"

text \<open>\<open>getattr(self, name)\<close> of a field the dataclass declares.\<close>

definition limit_of :: "limits \<Rightarrow> string \<Rightarrow> int" where
  "limit_of l name = (case map_of l name of Some v \<Rightarrow> v | None \<Rightarrow> 0)"

definition stage2_limit :: "string \<Rightarrow> int" where
  "stage2_limit = limit_of stage2_defaults"

definition stage2_pairs :: "(string \<times> string) list" where
  "stage2_pairs =
    [(''committed_observation_default_events'', ''committed_observation_hard_events''),
     (''committed_observation_default_bytes'', ''committed_observation_hard_bytes''),
     (''committed_observation_default_wait_ms'', ''committed_observation_hard_wait_ms''),
     (''audit_page_default_concurrency'', ''audit_page_hard_concurrency''),
     (''audit_query_default_concurrency'', ''audit_query_hard_concurrency''),
     (''snapshot_default_entries'', ''snapshot_hard_entries''),
     (''snapshot_default_control_items'', ''snapshot_hard_control_items''),
     (''history_page_default_entries'', ''history_page_hard_entries''),
     (''live_observer_default_count'', ''live_observer_hard_count''),
     (''live_snapshot_default_events'', ''live_snapshot_hard_events''),
     (''live_snapshot_default_bytes'', ''live_snapshot_hard_bytes''),
     (''content_hydrate_default_concurrency'', ''content_hydrate_hard_concurrency'')]"

text \<open>The checks of \<open>__post_init__\<close>, in the code's order.\<close>

definition stage2_post_init :: "limits \<Rightarrow> unit result" where
  "stage2_post_init l =
     (case for_each (\<lambda>_ (name, v). if v \<le> 0
             then Inl (ValueError (''Stage 2 limit '' @ name @ '' must be finite and positive''))
             else Inr ()) () l of
        Inl e \<Rightarrow> Inl e
      | Inr _ \<Rightarrow>
          for_each (\<lambda>_ (d, h). if limit_of l d > limit_of l h
             then Inl (ValueError (''Stage 2 '' @ d @ '' exceeds '' @ h)) else Inr ()) () stage2_pairs)"

lemma stage2_values [simp]:
  "stage2_limit ''live_observer_hard_count'' = 64"
  "stage2_limit ''live_ring_hard_events'' = 512"
  "stage2_limit ''live_ring_hard_bytes'' = 1048576"
  "stage2_limit ''live_snapshot_default_events'' = 128"
  "stage2_limit ''live_snapshot_hard_events'' = 256"
  "stage2_limit ''live_snapshot_default_bytes'' = 524288"
  "stage2_limit ''live_snapshot_hard_bytes'' = 1048576"
  "stage2_limit ''live_control_hard_events'' = 64"
  "stage2_limit ''live_control_hard_bytes'' = 262144"
  by code_simp+

text \<open>A set of limits the constructor accepts: all positive, every default within its bound.\<close>

lemma stage2_post_init_sound:
  assumes "stage2_post_init l = Inr ()"
  shows "\<forall>(name, v) \<in> set l. 0 < v" and "\<forall>(d, h) \<in> set stage2_pairs. limit_of l d \<le> limit_of l h"
proof -
  have all: "for_each (\<lambda>_ x. if P x then Inl (E x) else Inr ()) () xs = Inr () \<Longrightarrow>
      \<forall>x \<in> set xs. \<not> P x" for P :: "'x \<Rightarrow> bool" and E and xs
    by (induction xs) (auto split: if_splits)
  show "\<forall>(name, v) \<in> set l. 0 < v"
    using assms all [of "\<lambda>(name, v). v \<le> 0" _ l]
    by (fastforce simp: stage2_post_init_def case_prod_beta' split: sum.splits)
  show "\<forall>(d, h) \<in> set stage2_pairs. limit_of l d \<le> limit_of l h"
    using assms all [of "\<lambda>(d, h). limit_of l d > limit_of l h" _ stage2_pairs]
    by (fastforce simp: stage2_post_init_def case_prod_beta' split: sum.splits)
qed

text \<open>
  The limits the kernel runs with are accepted by their own constructor, so no bound is
  zero or negative and no default exceeds its hard bound.
\<close>

theorem stage2_defaults_valid: "stage2_post_init stage2_defaults = Inr ()"
  by code_simp

end
