(* ===== verification/Utf8.thy ===== *)
theory Utf8
  imports Prelude
begin

unbundle bit_operations_syntax

text \<open>
  UTF-8 as Python's codecs use it: \<open>str.encode("utf-8")\<close>, the strict \<open>bytes.decode\<close>,
  and the incremental decoder with the \<open>replace\<close> error handler, written as a machine that
  reads one byte at a time. The lemmas relate the three and locate code point boundaries
  in encoded bytes.
\<close>

section \<open>Encoding\<close>

definition is_scalar :: "nat \<Rightarrow> bool" where
  "is_scalar c \<longleftrightarrow> c < 0x110000 \<and> \<not> (0xD800 \<le> c \<and> c < 0xE000)"

definition utf8_values :: "nat \<Rightarrow> nat list" where
  "utf8_values c =
     (if c < 0x80 then [c]
      else if c < 0x800 then [0xC0 + c div 64, 0x80 + c mod 64]
      else if c < 0x10000 then
        [0xE0 + c div 4096, 0x80 + c div 64 mod 64, 0x80 + c mod 64]
      else
        [0xF0 + c div 262144, 0x80 + c div 4096 mod 64, 0x80 + c div 64 mod 64,
         0x80 + c mod 64])"

definition utf8_char :: "nat \<Rightarrow> bytes" where
  "utf8_char c = map of_nat (utf8_values c)"

definition utf8_bytes :: "pystr \<Rightarrow> bytes" where
  "utf8_bytes t = concat (map utf8_char t)"

text \<open>\<open>value.encode("utf-8")\<close> raises on a lone surrogate.\<close>

definition utf8_encode :: "pystr \<Rightarrow> bytes result" where
  "utf8_encode t = (if list_all is_scalar t then Inr (utf8_bytes t) else Inl UnicodeEncodeError)"

text \<open>\<open>len(value.encode("utf-8"))\<close>\<close>

definition utf8_size :: "pystr \<Rightarrow> int result" where
  "utf8_size t = map_sum id (\<lambda>bs. int (length bs)) (utf8_encode t)"

text \<open>\<open>sum(len(value.encode("utf-8")) for value in values)\<close>\<close>

definition utf8_total :: "pystr list \<Rightarrow> int result" where
  "utf8_total ts =
     for_each (\<lambda>n t. case utf8_size t of Inl e \<Rightarrow> Inl e | Inr k \<Rightarrow> Inr (n + k)) 0 ts"

lemma utf8_bytes_simps [simp]:
  "utf8_bytes [] = []" "utf8_bytes (c # t) = utf8_char c @ utf8_bytes t"
  "utf8_bytes (s @ t) = utf8_bytes s @ utf8_bytes t"
  by (simp_all add: utf8_bytes_def)

lemma utf8_char_nonempty [simp]: "utf8_char c \<noteq> []"
  by (simp add: utf8_char_def utf8_values_def)

lemma utf8_size_nonneg: "utf8_size t = Inr n \<Longrightarrow> 0 \<le> n"
  by (auto simp: utf8_size_def utf8_encode_def split: if_splits)

lemma utf8_total_from:
  "for_each (\<lambda>n t. case utf8_size t of Inl e \<Rightarrow> Inl e | Inr k \<Rightarrow> Inr (n + k)) m ts = Inr n \<Longrightarrow>
   n = m + (\<Sum>t\<leftarrow>ts. int (length (utf8_bytes t)))"
proof (induction ts arbitrary: m)
  case Nil
  then show ?case by simp
next
  case (Cons t ts)
  from Cons.prems obtain k where "utf8_size t = Inr k"
    and "for_each (\<lambda>n t. case utf8_size t of Inl e \<Rightarrow> Inl e | Inr k \<Rightarrow> Inr (n + k)) (m + k) ts = Inr n"
    by (auto split: sum.splits)
  from this(1) Cons.IH [OF this(2)] show ?case
    by (auto simp: utf8_size_def utf8_encode_def split: if_splits)
qed

lemma utf8_total_eq: "utf8_total ts = Inr n \<Longrightarrow> n = (\<Sum>t\<leftarrow>ts. int (length (utf8_bytes t)))"
  using utf8_total_from [of 0 ts n] by (simp add: utf8_total_def)

lemma utf8_total_nonneg: "utf8_total ts = Inr n \<Longrightarrow> 0 \<le> n"
  by (drule utf8_total_eq) (auto intro!: sum_list_nonneg)

lemma utf8_total_member_le:
  assumes "utf8_total ts = Inr n" and "t \<in> set ts"
  shows "int (length (utf8_bytes t)) \<le> n"
proof -
  have "(\<Sum>t\<leftarrow>us. int (length (utf8_bytes t))) \<ge> int (length (utf8_bytes t))" if "t \<in> set us" for us
    using that
  proof (induction us)
    case Nil
    then show ?case by simp
  next
    case (Cons u us)
    have "0 \<le> (\<Sum>t\<leftarrow>us. int (length (utf8_bytes t)))" by (auto intro!: sum_list_nonneg)
    with Cons show ?case by auto
  qed
  with utf8_total_eq [OF assms(1)] assms(2) show ?thesis by simp
qed

section \<open>Decoding\<close>

text \<open>
  Reading the bytes of one code point: a sequence is complete, a proper prefix of some
  well-formed sequence, or neither. The second byte's range depends on the first, which
  excludes overlong forms, surrogates and values past \<open>U+10FFFF\<close>.
\<close>

datatype utf8_verdict = Complete nat | Partial | Invalid

definition is_cont :: "nat \<Rightarrow> bool" where
  "is_cont v \<longleftrightarrow> 0x80 \<le> v \<and> v < 0xC0"

definition second_ok :: "nat \<Rightarrow> nat \<Rightarrow> bool" where
  "second_ok a b \<longleftrightarrow>
     (if a = 0xE0 then 0xA0 \<le> b \<and> b < 0xC0
      else if a = 0xED then 0x80 \<le> b \<and> b < 0xA0
      else if a = 0xF0 then 0x90 \<le> b \<and> b < 0xC0
      else if a = 0xF4 then 0x80 \<le> b \<and> b < 0x90
      else is_cont b)"

fun utf8_classify :: "nat list \<Rightarrow> utf8_verdict" where
  "utf8_classify [a] =
     (if a < 0x80 then Complete a else if 0xC2 \<le> a \<and> a < 0xF5 then Partial else Invalid)"
| "utf8_classify [a, b] =
     (if \<not> second_ok a b then Invalid
      else if a < 0xE0 then Complete ((a - 0xC0) * 64 + (b - 0x80)) else Partial)"
| "utf8_classify [a, b, c] =
     (if \<not> is_cont c then Invalid
      else if a < 0xF0 then
        Complete ((a - 0xE0) * 4096 + (b - 0x80) * 64 + (c - 0x80)) else Partial)"
| "utf8_classify [a, b, c, d] =
     (if \<not> is_cont d then Invalid
      else Complete ((a - 0xF0) * 262144 + (b - 0x80) * 4096 + (c - 0x80) * 64 + (d - 0x80)))"
| "utf8_classify _ = Invalid"

text \<open>
  One byte of the incremental decoder with \<open>errors="replace"\<close>: the pending bytes are a
  proper prefix of a code point; a byte that cannot extend it replaces the prefix by
  \<open>U+FFFD\<close> and is read again on its own.
\<close>

definition decode_step :: "bytes \<Rightarrow> byte \<Rightarrow> bytes \<times> pystr" where
  "decode_step pending b =
     (case utf8_classify (map unat (pending @ [b])) of
        Complete c \<Rightarrow> ([], [c])
      | Partial \<Rightarrow> (pending @ [b], [])
      | Invalid \<Rightarrow>
          (if pending = [] then ([], [0xFFFD])
           else case utf8_classify [unat b] of
                  Complete c \<Rightarrow> ([], [0xFFFD, c])
                | Partial \<Rightarrow> ([b], [0xFFFD])
                | Invalid \<Rightarrow> ([], [0xFFFD, 0xFFFD])))"

text \<open>\<open>bytes.decode("utf-8")\<close> with the default strict handler.\<close>

fun decode_strict_from :: "bytes \<Rightarrow> bytes \<Rightarrow> pystr result" where
  "decode_strict_from pending [] = (if pending = [] then Inr [] else Inl UnicodeDecodeError)"
| "decode_strict_from pending (b # bs) =
     (case utf8_classify (map unat (pending @ [b])) of
        Complete c \<Rightarrow> map_sum id (\<lambda>t. c # t) (decode_strict_from [] bs)
      | Partial \<Rightarrow> decode_strict_from (pending @ [b]) bs
      | Invalid \<Rightarrow> Inl UnicodeDecodeError)"

definition utf8_decode :: "bytes \<Rightarrow> pystr result" where
  "utf8_decode bs = decode_strict_from [] bs"

text \<open>The encoder's bytes classify as the code point they came from, and no prefix does.\<close>

lemma utf8_values_less: "c < 0x110000 \<Longrightarrow> v \<in> set (utf8_values c) \<Longrightarrow> v < 256"
  by (auto simp: utf8_values_def split: if_splits)

lemma unat_utf8_char:
  assumes "c < 0x110000"
  shows "map unat (utf8_char c) = utf8_values c"
proof -
  have "map (unat \<circ> (of_nat :: nat \<Rightarrow> byte)) (utf8_values c) = map id (utf8_values c)"
    using utf8_values_less [OF assms] by (intro map_cong) (auto simp: unat_of_nat)
  then show ?thesis by (simp add: utf8_char_def)
qed

lemma split3: "c = c div 4096 * 4096 + c div 64 mod 64 * 64 + c mod (64::nat)"
proof -
  have "c div 4096 = c div 64 div 64" using div_mult2_eq [of c 64 64] by simp
  then show ?thesis using div_mult_mod_eq [of c 64] div_mult_mod_eq [of "c div 64" 64] by linarith
qed

lemma split4: "c = c div 262144 * 262144 + c div 4096 mod 64 * 4096 + c div 64 mod 64 * 64 + c mod (64::nat)"
proof -
  have "c div 262144 = c div 4096 div 64" using div_mult2_eq [of c 4096 64] by simp
  then show ?thesis using split3 [of c] div_mult_mod_eq [of "c div 4096" 64] by linarith
qed

lemma classify_three:
  "h < 16 \<Longrightarrow> m < 64 \<Longrightarrow> l < 64 \<Longrightarrow> second_ok (0xE0 + h) (0x80 + m) \<Longrightarrow>
   utf8_classify [0xE0 + h, 0x80 + m, 0x80 + l] = Complete (h * 4096 + m * 64 + l)"
  by (simp add: is_cont_def)

lemma classify_four:
  "h < 5 \<Longrightarrow> n < 64 \<Longrightarrow> m < 64 \<Longrightarrow> l < 64 \<Longrightarrow>
   utf8_classify [0xF0 + h, 0x80 + n, 0x80 + m, 0x80 + l] =
     Complete (h * 262144 + n * 4096 + m * 64 + l)"
  by (simp add: is_cont_def)

lemma second_ok_three:
  assumes "is_scalar c" and "0x800 \<le> c" and "c < 0x10000"
  shows "second_ok (0xE0 + c div 4096) (0x80 + c div 64 mod 64)"
proof -
  have m: "c div 64 mod 64 < 64" "c mod 64 < 64" by auto
  have b: "c div 4096 < 16" using assms(3) by auto
  have "32 \<le> c div 64 mod 64" if "c div 4096 = 0"
    using that assms(2) split3 [of c] m by linarith
  moreover have "c div 64 mod 64 < 32" if "c div 4096 = 13"
    using that assms split3 [of c] m unfolding is_scalar_def by linarith
  ultimately show ?thesis using m b by (auto simp: second_ok_def is_cont_def)
qed

lemma second_ok_four:
  assumes "0x10000 \<le> c" and "c < 0x110000"
  shows "second_ok (0xF0 + c div 262144) (0x80 + c div 4096 mod 64)"
proof -
  have m: "c div 4096 mod 64 < 64" "c div 64 mod 64 < 64" "c mod 64 < 64" by auto
  have b: "c div 262144 < 5" using assms(2) by auto
  have "16 \<le> c div 4096 mod 64" if "c div 262144 = 0"
    using that assms(1) split4 [of c] m by linarith
  moreover have "c div 4096 mod 64 < 16" if "c div 262144 = 4"
    using that assms(2) split4 [of c] m by linarith
  ultimately show ?thesis using m b by (auto simp: second_ok_def is_cont_def)
qed

lemma utf8_values_cases:
  assumes "is_scalar c"
  obtains (one) "c < 0x80" "utf8_values c = [c]"
  | (two) "2 \<le> c div 64" "c div 64 < 32" "utf8_values c = [0xC0 + c div 64, 0x80 + c mod 64]"
  | (three) "c div 4096 < 16" "second_ok (0xE0 + c div 4096) (0x80 + c div 64 mod 64)"
      "utf8_values c = [0xE0 + c div 4096, 0x80 + c div 64 mod 64, 0x80 + c mod 64]"
  | (four) "c div 262144 < 5" "second_ok (0xF0 + c div 262144) (0x80 + c div 4096 mod 64)"
      "utf8_values c = [0xF0 + c div 262144, 0x80 + c div 4096 mod 64, 0x80 + c div 64 mod 64,
         0x80 + c mod 64]"
proof -
  consider "c < 0x80" | "0x80 \<le> c" "c < 0x800" | "0x800 \<le> c" "c < 0x10000"
    | "0x10000 \<le> c" "c < 0x110000"
    using assms by (auto simp: is_scalar_def) linarith+
  then show thesis
  proof cases
    case 1
    then show thesis by (intro one) (simp_all add: utf8_values_def)
  next
    case 2
    then have "2 \<le> c div 64" "c div 64 < 32" by auto
    with 2 show thesis by (intro two) (simp_all add: utf8_values_def)
  next
    case 3
    then have "c div 4096 < 16" by auto
    with 3 second_ok_three [OF assms 3] show thesis by (intro three) (simp_all add: utf8_values_def)
  next
    case 4
    then have "c div 262144 < 5" by auto
    with 4 second_ok_four [OF 4] show thesis by (intro four) (simp_all add: utf8_values_def)
  qed
qed

lemma classify_utf8_values:
  assumes "is_scalar c"
  shows "utf8_classify (utf8_values c) = Complete c"
  using assms
proof (cases rule: utf8_values_cases)
  case one
  then show ?thesis by simp
next
  case two
  then show ?thesis
    using div_mult_mod_eq [of c 64] mod_less_divisor [of 64 c]
    by (simp add: second_ok_def is_cont_def)
next
  case three
  then show ?thesis using classify_three [of "c div 4096" "c div 64 mod 64" "c mod 64"]
    by (simp only: split3 [symmetric])
next
  case four
  then show ?thesis
    using classify_four [of "c div 262144" "c div 4096 mod 64" "c div 64 mod 64" "c mod 64"]
    by (simp only: split4 [symmetric])
qed

lemma classify_utf8_prefix:
  assumes "is_scalar c" and "0 < n" and "n < length (utf8_values c)"
  shows "utf8_classify (take n (utf8_values c)) = Partial"
  using assms(1)
proof (cases rule: utf8_values_cases)
  case one
  with assms show ?thesis by simp
next
  case two
  with assms have "n = 1" by simp
  with two show ?thesis by simp
next
  case three
  with assms have "n = 1 \<or> n = 2" by auto
  with three show ?thesis by auto
next
  case four
  with assms have "n = 1 \<or> n = 2 \<or> n = 3" by auto
  with four show ?thesis by (auto simp: is_cont_def numeral_3_eq_3)
qed

text \<open>Reading an encoded code point byte by byte: partial until the last byte.\<close>

lemma classify_char_step:
  assumes "is_scalar c" and "p @ b # q = utf8_char c"
  shows "utf8_classify (map unat (p @ [b])) = (if q = [] then Complete c else Partial)"
proof -
  have c: "map unat (utf8_char c) = utf8_values c"
    using assms(1) by (simp add: unat_utf8_char is_scalar_def)
  show ?thesis
  proof (cases "q = []")
    case True
    with assms(2) have "map unat (p @ [b]) = utf8_values c" using c by simp
    with assms(1) True show ?thesis by (simp add: classify_utf8_values)
  next
    case False
    have "map unat (p @ [b]) = take (length p + 1) (utf8_values c)"
      using assms(2) unfolding c [symmetric] by (simp add: take_map flip: assms(2))
    moreover have "length p + 1 < length (utf8_values c)"
      using False assms(2) unfolding c [symmetric] by (cases q) (simp_all flip: assms(2))
    ultimately show ?thesis
      using classify_utf8_prefix [OF assms(1), of "length p + 1"] False by simp
  qed
qed

text \<open>Decoding strictly what was encoded gives the text back.\<close>

lemma decode_strict_char:
  assumes "is_scalar c" and "p @ q = utf8_char c" and "q \<noteq> []"
  shows "decode_strict_from p (q @ bs) = map_sum id (\<lambda>t. c # t) (decode_strict_from [] bs)"
  using assms(2,3)
proof (induction q arbitrary: p)
  case (Cons b q)
  note step = classify_char_step [OF assms(1) Cons.prems(1)]
  show ?case
  proof (cases "q = []")
    case True
    with step show ?thesis by (simp add: id_def flip: Cons.prems(1))
  next
    case False
    with step Cons.IH [of "p @ [b]"] Cons.prems(1) show ?thesis by simp
  qed
qed simp

lemma decode_strict_bytes:
  "list_all is_scalar t \<Longrightarrow>
   decode_strict_from [] (utf8_bytes t @ bs) = map_sum id (\<lambda>s. t @ s) (decode_strict_from [] bs)"
proof (induction t)
  case Nil
  then show ?case by (cases "decode_strict_from [] bs") auto
next
  case (Cons c t)
  have "decode_strict_from [] (utf8_char c @ utf8_bytes t @ bs)
      = map_sum id (\<lambda>s. c # s) (decode_strict_from [] (utf8_bytes t @ bs))"
    using Cons.prems by (intro decode_strict_char) auto
  with Cons show ?case by (cases "decode_strict_from [] bs") auto
qed

lemma utf8_decode_encode: "utf8_encode t = Inr bs \<Longrightarrow> utf8_decode bs = Inr t"
  using decode_strict_bytes [of t "[]"]
  by (auto simp: utf8_encode_def utf8_decode_def split: if_splits)

text \<open>A prefix of encoded text decodes exactly when it ends where a character ends.\<close>

lemma decode_strict_partial:
  assumes "is_scalar c" and "p @ q @ r = utf8_char c" and "r \<noteq> []" and "p @ q \<noteq> []"
  shows "decode_strict_from p q = Inl UnicodeDecodeError"
  using assms(2,4)
proof (induction q arbitrary: p)
  case (Cons b q)
  have "utf8_classify (map unat (p @ [b])) = Partial"
    using classify_char_step [OF assms(1), of p b "q @ r"] Cons.prems(1) assms(3) by simp
  with Cons.IH [of "p @ [b]"] Cons.prems(1) show ?case by simp
qed simp

lemma utf8_decode_take:
  assumes "list_all is_scalar t"
  shows "(\<exists>s. utf8_decode (take n (utf8_bytes t)) = Inr s) \<longleftrightarrow>
     (\<exists>j \<le> length t. take n (utf8_bytes t) = utf8_bytes (take j t))"
  using assms
proof (induction t arbitrary: n)
  case Nil
  then show ?case by (simp add: utf8_decode_def)
next
  case (Cons c t)
  then have c: "is_scalar c" and t: "list_all is_scalar t" by simp_all
  show ?case
  proof (cases "n < length (utf8_char c)")
    case True
    show ?thesis
    proof (cases "n = 0")
      case n0: True
      then show ?thesis by (auto simp: utf8_decode_def intro: exI [of _ 0])
    next
      case False
      have "decode_strict_from [] (take n (utf8_char c)) = Inl UnicodeDecodeError"
        using True False by (intro decode_strict_partial [OF c, of _ _ "drop n (utf8_char c)"]) auto
      moreover have "take n (utf8_char c) \<noteq> utf8_bytes (take j (c # t))" for j
      proof
        assume e: "take n (utf8_char c) = utf8_bytes (take j (c # t))"
        show False
        proof (cases j)
          case 0
          with e True False show False by simp
        next
          case (Suc i)
          with e have "length (take n (utf8_char c)) = length (utf8_char c @ utf8_bytes (take i t))"
            by simp
          with True show False by simp
        qed
      qed
      ultimately show ?thesis using True by (auto simp: utf8_decode_def)
    qed
  next
    case False
    let ?m = "n - length (utf8_char c)"
    have split: "take n (utf8_bytes (c # t)) = utf8_char c @ take ?m (utf8_bytes t)"
      using False by simp
    have "utf8_decode (utf8_char c @ take ?m (utf8_bytes t)) =
        map_sum id (\<lambda>s. c # s) (utf8_decode (take ?m (utf8_bytes t)))"
      using decode_strict_char [OF c, of "[]" "utf8_char c" "take ?m (utf8_bytes t)"]
      by (simp add: utf8_decode_def)
    then have "(\<exists>s. utf8_decode (take n (utf8_bytes (c # t))) = Inr s) \<longleftrightarrow>
        (\<exists>s. utf8_decode (take ?m (utf8_bytes t)) = Inr s)"
      unfolding split by (cases "utf8_decode (take ?m (utf8_bytes t))") auto
    also have "\<dots> \<longleftrightarrow> (\<exists>j \<le> length t. take ?m (utf8_bytes t) = utf8_bytes (take j t))"
      by (rule Cons.IH [OF t])
    also have "\<dots> \<longleftrightarrow> (\<exists>j \<le> length (c # t). take n (utf8_bytes (c # t)) = utf8_bytes (take j (c # t)))"
    proof
      assume "\<exists>j \<le> length t. take ?m (utf8_bytes t) = utf8_bytes (take j t)"
      then obtain j where "j \<le> length t" "take ?m (utf8_bytes t) = utf8_bytes (take j t)" by blast
      then show "\<exists>j \<le> length (c # t). take n (utf8_bytes (c # t)) = utf8_bytes (take j (c # t))"
        unfolding split by (intro exI [of _ "Suc j"]) simp
    next
      assume "\<exists>j \<le> length (c # t). take n (utf8_bytes (c # t)) = utf8_bytes (take j (c # t))"
      then obtain j where j: "j \<le> length (c # t)"
        "utf8_char c @ take ?m (utf8_bytes t) = utf8_bytes (take j (c # t))"
        unfolding split by blast
      then show "\<exists>j \<le> length t. take ?m (utf8_bytes t) = utf8_bytes (take j t)"
        by (cases j) auto
    qed
    finally show ?thesis .
  qed
qed

lemma utf8_char_size: "length (utf8_char c) \<le> 4"
  by (simp add: utf8_char_def utf8_values_def)

text \<open>Every code point the incremental decoder emits can be encoded again.\<close>

fun good_prefix :: "nat list \<Rightarrow> bool" where
  "good_prefix [] \<longleftrightarrow> True"
| "good_prefix [a] \<longleftrightarrow> utf8_classify [a] = Partial"
| "good_prefix [a, b] \<longleftrightarrow> utf8_classify [a] = Partial \<and> utf8_classify [a, b] = Partial"
| "good_prefix [a, b, c] \<longleftrightarrow>
     utf8_classify [a] = Partial \<and> utf8_classify [a, b] = Partial \<and> utf8_classify [a, b, c] = Partial"
| "good_prefix _ \<longleftrightarrow> False"

definition pending_ok :: "bytes \<Rightarrow> bool" where
  "pending_ok p \<longleftrightarrow> good_prefix (map unat p)"

lemma classify_Complete_scalar:
  "good_prefix vs \<Longrightarrow> v < 256 \<Longrightarrow> utf8_classify (vs @ [v]) = Complete c \<Longrightarrow> is_scalar c"
proof (induction vs rule: good_prefix.induct)
  case (3 a b)
  then show ?case
    by (auto simp: is_scalar_def second_ok_def is_cont_def split: if_splits)
next
  case (4 a b c)
  then show ?case
    by (auto simp: is_scalar_def second_ok_def is_cont_def split: if_splits)
qed (auto simp: is_scalar_def second_ok_def is_cont_def split: if_splits)

lemma classify_Partial_prefix:
  "good_prefix vs \<Longrightarrow> utf8_classify (vs @ [v]) = Partial \<Longrightarrow> good_prefix (vs @ [v])"
  by (induction vs rule: good_prefix.induct) (auto split: if_splits)

lemma unat_byte: "unat (b :: byte) < 256"
proof -
  have "unat b < 2 ^ LENGTH(8)" by (rule unsigned_less)
  then show ?thesis by simp
qed

lemma decode_step_ok:
  assumes "pending_ok p" and "decode_step p b = (p', out)"
  shows "pending_ok p'" and "list_all is_scalar out"
proof -
  have v: "unat b < 256" by (rule unat_byte)
  have s: "is_scalar 0xFFFD" by (simp add: is_scalar_def)
  note c = classify_Complete_scalar [OF _ v] classify_Partial_prefix
  have g: "good_prefix (map unat p)" using assms(1) by (simp add: pending_ok_def)
  show "pending_ok p'"
    using assms(2) c(2) [OF g, of "unat b"] c(2) [of "[]" "unat b"]
    by (auto simp: decode_step_def pending_ok_def split: utf8_verdict.splits if_splits)
  show "list_all is_scalar out"
    using assms(2) c(1) [OF g] c(1) [of "[]"] s
    by (auto simp: decode_step_def split: utf8_verdict.splits if_splits)
qed

text \<open>A byte whose two top bits are 10 continues a code point; every other byte starts one.\<close>

lemma byte_all: "(\<forall>n \<in> set [0..<256]. P (of_nat n)) \<Longrightarrow> P (b :: byte)"
proof -
  assume "\<forall>n \<in> set [0..<256]. P (of_nat n)"
  moreover have "unat b < 256" by (rule unat_byte)
  ultimately have "P (of_nat (unat b))" by (intro bspec [where P = "\<lambda>n. P (of_nat n)"]) auto
  then show "P b" by simp
qed

lemma cont_mask: "((b :: byte) AND 0xC0 = 0x80) \<longleftrightarrow> is_cont (unat b)"
  by (rule byte_all [of _ b]) code_simp

lemma utf8_char_shape:
  assumes "is_scalar c"
  obtains h q where "utf8_char c = h # q" and "\<not> is_cont (unat h)"
    and "\<forall>b \<in> set q. is_cont (unat b)"
proof -
  have m: "map unat (utf8_char c) = utf8_values c"
    using assms by (simp add: unat_utf8_char is_scalar_def)
  then obtain h q where hq: "utf8_char c = h # q" by (cases "utf8_char c") auto
  have "\<not> is_cont (unat h) \<and> list_all is_cont (map unat q)"
    using assms
  proof (cases rule: utf8_values_cases)
    case one
    with m hq show ?thesis by (simp add: is_cont_def)
  next
    case two
    with m hq show ?thesis by (auto simp: is_cont_def)
  next
    case three
    with m hq show ?thesis by (auto simp: is_cont_def)
  next
    case four
    with m hq show ?thesis by (auto simp: is_cont_def)
  qed
  with that hq show thesis by (auto simp: list_all_iff)
qed

text \<open>
  Skipping forward from any byte offset to the next byte that is not a continuation byte
  reaches a code point boundary: what remains is the encoding of a suffix of the text.
\<close>

fun skip_cont :: "bytes \<Rightarrow> bytes" where
  "skip_cont [] = []"
| "skip_cont (b # bs) = (if b AND 0xC0 = 0x80 then skip_cont bs else b # bs)"

lemma skip_cont_all:
  "\<forall>b \<in> set q. is_cont (unat b) \<Longrightarrow> skip_cont (q @ bs) = skip_cont bs"
  by (induction q) (auto simp: cont_mask)

lemma skip_cont_start:
  "list_all is_scalar t \<Longrightarrow> skip_cont (utf8_bytes t) = utf8_bytes t"
proof (cases t)
  case (Cons c u)
  assume "list_all is_scalar t"
  with Cons have "is_scalar c" by simp
  then obtain h q where "utf8_char c = h # q" "\<not> is_cont (unat h)" by (rule utf8_char_shape)
  with Cons show ?thesis by (simp add: cont_mask)
qed simp

lemma skip_cont_drop:
  "list_all is_scalar t \<Longrightarrow> \<exists>j. skip_cont (drop n (utf8_bytes t)) = utf8_bytes (drop j t)"
proof (induction t arbitrary: n)
  case Nil
  then show ?case by simp
next
  case (Cons c t)
  then have c: "is_scalar c" by simp
  obtain h q where hq: "utf8_char c = h # q" and q: "\<forall>b \<in> set q. is_cont (unat b)"
    using utf8_char_shape [OF c] by metis
  show ?case
  proof (cases n)
    case 0
    with skip_cont_start [OF Cons.prems] show ?thesis by (intro exI [of _ 0]) simp
  next
    case (Suc m)
    have d: "drop n (utf8_bytes (c # t)) = drop m q @ drop (m - length q) (utf8_bytes t)"
      using hq Suc by simp
    have "\<forall>b \<in> set (drop m q). is_cont (unat b)" using q in_set_dropD by fast
    then have "skip_cont (drop n (utf8_bytes (c # t))) = skip_cont (drop (m - length q) (utf8_bytes t))"
      unfolding d by (rule skip_cont_all)
    with Cons.IH [of "m - length q"] Cons.prems obtain j
      where "skip_cont (drop n (utf8_bytes (c # t))) = utf8_bytes (drop j t)" by auto
    then show ?thesis by (intro exI [of _ "Suc j"]) simp
  qed
qed

end
