(* ===== verification/Live_Control.thy ===== *)
theory Live_Control
  imports Cursor_Log Limits Utf8
begin

text \<open>
  The process-local interaction control plane (\<open>conversation_kernel/live_control.py\<close>):
  the current public interaction of a session, a bounded ring of its transitions, and the
  subscribers that read the ring with their own cursor. Each operation is one function from
  the owner's state; a raised exception leaves the state as it was, as in the code, which
  raises before it mutates. The lock of the owner makes every operation atomic.
\<close>

section \<open>Values\<close>

datatype live_control_event_kind =
    INTERACTION_OPENED | INTERACTION_REPLACED | INTERACTION_CLOSED

datatype live_control_observation_kind = LC_EVENTS | LC_GAP | LC_DETACHED

record interaction_view =
  iv_interaction_id :: pystr
  iv_interaction_kind :: pystr
  iv_public_prompt :: pystr
  iv_public_options :: "pystr list"
  iv_expires_at_utc :: pystr
  iv_decision_in_progress :: bool

record live_control_event =
  lce_owner_epoch :: int
  lce_revision :: int
  lce_kind :: live_control_event_kind
  lce_interaction :: "interaction_view option"
  lce_closed_interaction_id :: "pystr option"

record live_control_snapshot =
  lcs_session_id :: pystr
  lcs_owner_epoch :: int
  lcs_revision :: int
  lcs_current_interaction :: "interaction_view option"

record live_control_observation =
  lco_kind :: live_control_observation_kind
  lco_owner_epoch :: int
  lco_after_revision :: int
  lco_through_revision :: int
  lco_latest_revision :: int
  lco_events :: "live_control_event list"

record live_control =
  lc_session_id :: pystr
  lc_maximum_events :: int
  lc_maximum_public_bytes :: int
  lc_owner_epoch :: int
  lc_revision :: int
  lc_current :: "interaction_view option"
  lc_ring :: "(live_control_event \<times> int) list"
  lc_ring_bytes :: int
  lc_subscribers :: "(pystr \<times> int) list"
  lc_closed :: bool

section \<open>Operations\<close>

definition live_control_init :: "pystr \<Rightarrow> int \<Rightarrow> int \<Rightarrow> int \<Rightarrow> live_control result" where
  "live_control_init session_id owner_epoch maximum_events maximum_public_bytes =
     (if session_id = [] \<or> owner_epoch < 1 \<or> maximum_events < 1 \<or> maximum_public_bytes < 1
      then Inl (ValueError ''live-control owner bounds are invalid'')
      else Inr \<lparr>lc_session_id = session_id, lc_maximum_events = maximum_events,
                lc_maximum_public_bytes = maximum_public_bytes, lc_owner_epoch = owner_epoch,
                lc_revision = 0, lc_current = None, lc_ring = [], lc_ring_bytes = 0,
                lc_subscribers = [], lc_closed = False\<rparr>)"

definition live_control_open :: "pystr \<Rightarrow> live_control result" where
  "live_control_open session_id =
     live_control_init session_id 1 (stage2_limit ''live_control_hard_events'')
       (stage2_limit ''live_control_hard_bytes'')"

definition lc_snapshot :: "live_control \<Rightarrow> live_control_snapshot" where
  "lc_snapshot s =
     \<lparr>lcs_session_id = lc_session_id s, lcs_owner_epoch = lc_owner_epoch s,
      lcs_revision = lc_revision s, lcs_current_interaction = lc_current s\<rparr>"

text \<open>
  \<open>draws\<close> are the successive values of \<open>random_id("subscription")\<close>; the code redraws
  while the identity is taken. \<open>None\<close>: every given draw was taken.
\<close>

definition lc_snapshot_and_subscribe ::
  "pystr list \<Rightarrow> live_control \<Rightarrow> (pystr \<times> live_control_snapshot \<times> live_control) result option"
where
  "lc_snapshot_and_subscribe draws s =
     (if lc_closed s then Some (Inl (RuntimeError ''live-control owner is closed''))
      else if int (length (lc_subscribers s)) \<ge> stage2_limit ''live_observer_hard_count''
      then Some (Inl (RuntimeError ''live-control observer capacity is exhausted''))
      else case draw_fresh (map fst (lc_subscribers s)) draws of
             None \<Rightarrow> None
           | Some subscriber_id \<Rightarrow>
               Some (Inr (subscriber_id, lc_snapshot s,
                 s\<lparr>lc_subscribers :=
                     AList.update subscriber_id (lc_owner_epoch s) (lc_subscribers s)\<rparr>)))"

definition lc_require_open :: "live_control \<Rightarrow> unit result" where
  "lc_require_open s =
     (if lc_closed s then Inl (RuntimeError ''live-control owner is closed'') else Inr ())"

definition lc_current_snapshot :: "live_control \<Rightarrow> live_control_snapshot result" where
  "lc_current_snapshot s =
     (case lc_require_open s of Inl e \<Rightarrow> Inl e | Inr _ \<Rightarrow> Inr (lc_snapshot s))"

definition lc_gap :: "int \<Rightarrow> live_control \<Rightarrow> live_control_observation" where
  "lc_gap after_revision s =
     \<lparr>lco_kind = LC_GAP, lco_owner_epoch = lc_owner_epoch s, lco_after_revision = after_revision,
      lco_through_revision = after_revision, lco_latest_revision = lc_revision s, lco_events = []\<rparr>"

definition lc_observe ::
  "pystr \<Rightarrow> int \<Rightarrow> int \<Rightarrow> int \<Rightarrow> live_control \<Rightarrow> live_control_observation result"
where
  "lc_observe subscriber_id owner_epoch after_revision maximum_events s =
     (if after_revision < 0 \<or> \<not> (1 \<le> maximum_events \<and> maximum_events \<le> lc_maximum_events s)
      then Inl (ValueError ''live-control observation bound is invalid'')
      else case (map_of (lc_subscribers s) subscriber_id, lc_closed s) of
             (Some subscriber_epoch, False) \<Rightarrow>
               (if owner_epoch \<noteq> lc_owner_epoch s \<or> subscriber_epoch \<noteq> lc_owner_epoch s
                   \<or> after_revision > lc_revision s
                then Inr (lc_gap after_revision s)
                else
                  let oldest = (if lc_ring s \<noteq> [] then lce_revision (fst (hd (lc_ring s)))
                                else lc_revision s + 1)
                  in if after_revision + 1 < oldest then Inr (lc_gap after_revision s)
                     else
                       let events = take (nat maximum_events)
                             (filter (\<lambda>event. after_revision < lce_revision event)
                                (map fst (lc_ring s)));
                           through = (if events \<noteq> [] then lce_revision (last events)
                                      else after_revision)
                       in Inr \<lparr>lco_kind = LC_EVENTS, lco_owner_epoch = lc_owner_epoch s,
                               lco_after_revision = after_revision,
                               lco_through_revision = through,
                               lco_latest_revision = lc_revision s, lco_events = events\<rparr>)
           | _ \<Rightarrow>
               Inr \<lparr>lco_kind = LC_DETACHED, lco_owner_epoch = lc_owner_epoch s,
                    lco_after_revision = after_revision, lco_through_revision = after_revision,
                    lco_latest_revision = lc_revision s, lco_events = []\<rparr>)"

definition lc_append ::
  "live_control_event_kind \<Rightarrow> interaction_view option \<Rightarrow> pystr option \<Rightarrow> int \<Rightarrow> live_control \<Rightarrow>
   live_control_event \<times> live_control"
where
  "lc_append kind interaction closed_interaction_id nbytes s =
     (let revision = lc_revision s + 1;
          event = \<lparr>lce_owner_epoch = lc_owner_epoch s, lce_revision = revision, lce_kind = kind,
                   lce_interaction = interaction,
                   lce_closed_interaction_id = closed_interaction_id\<rparr>;
          trimmed = trim_ring (lc_maximum_events s) (lc_maximum_public_bytes s)
                      (lc_ring s @ [(event, nbytes)]) (lc_ring_bytes s + nbytes)
      in (event, s\<lparr>lc_revision := revision, lc_ring := fst trimmed,
                   lc_ring_bytes := snd trimmed\<rparr>))"

definition interaction_size :: "interaction_view \<Rightarrow> live_control \<Rightarrow> int result" where
  "interaction_size v s =
     (case utf8_total ([iv_interaction_id v, iv_interaction_kind v, iv_public_prompt v]
                       @ iv_public_options v @ [iv_expires_at_utc v]) of
        Inl e \<Rightarrow> Inl e
      | Inr nbytes \<Rightarrow>
          if nbytes > lc_maximum_public_bytes s
          then Inl (ValueError ''live-control public view exceeds its physical bound'')
          else Inr nbytes)"

definition lc_install_interaction ::
  "interaction_view \<Rightarrow> pystr option \<Rightarrow> live_control \<Rightarrow> (live_control_event \<times> live_control) result"
where
  "lc_install_interaction interaction replace_expected_interaction_id s =
     (case interaction_size interaction s of
        Inl e \<Rightarrow> Inl e
      | Inr nbytes \<Rightarrow>
          (case lc_require_open s of
             Inl e \<Rightarrow> Inl e
           | Inr _ \<Rightarrow>
               let current = lc_current s
               in if current = None \<and> replace_expected_interaction_id \<noteq> None
                  then Inl (RuntimeError ''live-control replacement subject is absent'')
                  else if current \<noteq> None
                       \<and> replace_expected_interaction_id \<noteq> map_option iv_interaction_id current
                  then Inl (RuntimeError ''live-control replacement subject is stale'')
                  else Inr (lc_append
                              (if current = None then INTERACTION_OPENED else INTERACTION_REPLACED)
                              (Some interaction) (map_option iv_interaction_id current) nbytes
                              (s\<lparr>lc_current := Some interaction\<rparr>))))"

definition lc_close_interaction ::
  "pystr \<Rightarrow> live_control \<Rightarrow> (live_control_event \<times> live_control) result"
where
  "lc_close_interaction expected_interaction_id s =
     (case lc_require_open s of
        Inl e \<Rightarrow> Inl e
      | Inr _ \<Rightarrow>
          if map_option iv_interaction_id (lc_current s) \<noteq> Some expected_interaction_id
          then Inl (RuntimeError ''live-control close subject is stale'')
          else (case utf8_size expected_interaction_id of
                  Inl e \<Rightarrow> Inl e
                | Inr nbytes \<Rightarrow>
                    Inr (lc_append INTERACTION_CLOSED None (Some expected_interaction_id) nbytes
                           (s\<lparr>lc_current := None\<rparr>))))"

definition lc_detach :: "pystr \<Rightarrow> live_control \<Rightarrow> live_control" where
  "lc_detach subscriber_id s =
     s\<lparr>lc_subscribers := AList.delete subscriber_id (lc_subscribers s)\<rparr>"

definition lc_close :: "live_control \<Rightarrow> live_control" where
  "lc_close s = s\<lparr>lc_closed := True, lc_subscribers := [], lc_ring := [], lc_ring_bytes := 0,
                  lc_current := None\<rparr>"


section \<open>Runs and the invariant\<close>

text \<open>
  \<open>lc_run s h\<close>: some sequence of successful operations leads from a constructed owner to
  \<open>s\<close>, and \<open>h\<close> lists the events those operations have published.
\<close>

inductive lc_run :: "live_control \<Rightarrow> live_control_event list \<Rightarrow> bool" where
  lc_run_init: "live_control_init i ep me mb = Inr s \<Longrightarrow> lc_run s []"
| lc_run_subscribe: "lc_run s h \<Longrightarrow> lc_snapshot_and_subscribe ds s = Some (Inr (i, snap, s')) \<Longrightarrow>
    lc_run s' h"
| lc_run_install: "lc_run s h \<Longrightarrow> lc_install_interaction v x s = Inr (e, s') \<Longrightarrow> lc_run s' (h @ [e])"
| lc_run_close_interaction: "lc_run s h \<Longrightarrow> lc_close_interaction x s = Inr (e, s') \<Longrightarrow>
    lc_run s' (h @ [e])"
| lc_run_detach: "lc_run s h \<Longrightarrow> lc_run (lc_detach i s) h"
| lc_run_close: "lc_run s h \<Longrightarrow> lc_run (lc_close s) h"

text \<open>The ring is a charged suffix of the history and always holds the newest event.\<close>

definition ring_inv :: "live_control \<Rightarrow> live_control_event list \<Rightarrow> bool" where
  "ring_inv s h \<longleftrightarrow>
     ring_holds (lc_ring s) (lc_ring_bytes s) (lc_maximum_events s) (lc_maximum_public_bytes s) h"

definition current_of :: "live_control_event list \<Rightarrow> interaction_view option" where
  "current_of h = (if h = [] then None else lce_interaction (last h))"

definition lc_inv :: "live_control \<Rightarrow> live_control_event list \<Rightarrow> bool" where
  "lc_inv s h \<longleftrightarrow>
     1 \<le> lc_maximum_events s \<and> 1 \<le> lc_maximum_public_bytes s \<and>
     numbered lce_revision h \<and> lc_revision s = int (length h) \<and>
     (\<forall>v. lc_current s = Some v \<longrightarrow> is_ok (interaction_size v s)) \<and>
     distinct (map fst (lc_subscribers s)) \<and> length (lc_subscribers s) \<le> 64 \<and>
     (\<forall>p \<in> set (lc_subscribers s). snd p = lc_owner_epoch s) \<and>
     (if lc_closed s
      then lc_ring s = [] \<and> lc_ring_bytes s = 0 \<and> lc_subscribers s = [] \<and> lc_current s = None
      else ring_inv s h \<and> lc_current s = current_of h)"

text \<open>What the transitions of a session look like: each event follows from the one before.\<close>

fun lc_trace_ok :: "interaction_view option \<Rightarrow> live_control_event list \<Rightarrow> bool" where
  "lc_trace_ok cur [] \<longleftrightarrow> True"
| "lc_trace_ok cur (e # es) \<longleftrightarrow>
     (case lce_kind e of
        INTERACTION_OPENED \<Rightarrow>
          cur = None \<and> lce_interaction e \<noteq> None \<and> lce_closed_interaction_id e = None
      | INTERACTION_REPLACED \<Rightarrow>
          cur \<noteq> None \<and> lce_interaction e \<noteq> None \<and>
          lce_closed_interaction_id e = map_option iv_interaction_id cur
      | INTERACTION_CLOSED \<Rightarrow>
          cur \<noteq> None \<and> lce_interaction e = None \<and>
          lce_closed_interaction_id e = map_option iv_interaction_id cur) \<and>
     lc_trace_ok (lce_interaction e) es"

lemma lc_trace_ok_snoc:
  "lc_trace_ok cur (es @ [e]) \<longleftrightarrow>
     lc_trace_ok cur es \<and> lc_trace_ok (if es = [] then cur else lce_interaction (last es)) [e]"
  by (induction es arbitrary: cur) auto

lemma lc_append_fields [simp]:
  "lc_closed (snd (lc_append kd v c n s)) = lc_closed s"
  "lc_current (snd (lc_append kd v c n s)) = lc_current s"
  "lc_subscribers (snd (lc_append kd v c n s)) = lc_subscribers s"
  "lc_owner_epoch (snd (lc_append kd v c n s)) = lc_owner_epoch s"
  "lc_maximum_events (snd (lc_append kd v c n s)) = lc_maximum_events s"
  "lc_maximum_public_bytes (snd (lc_append kd v c n s)) = lc_maximum_public_bytes s"
  "lc_revision (snd (lc_append kd v c n s)) = lc_revision s + 1"
  "lce_revision (fst (lc_append kd v c n s)) = lc_revision s + 1"
  "lce_interaction (fst (lc_append kd v c n s)) = v"
  "lce_kind (fst (lc_append kd v c n s)) = kd"
  "lce_closed_interaction_id (fst (lc_append kd v c n s)) = c"
  by (simp_all add: lc_append_def Let_def)

lemma lc_append_ring:
  assumes "ring_inv s h" and "0 \<le> n" and "n \<le> lc_maximum_public_bytes s"
    and "1 \<le> lc_maximum_events s" and "lc_append kd v c n s = (e, s')"
  shows "ring_inv s' (h @ [e])"
  using ring_holds_append [OF assms(1) [unfolded ring_inv_def] assms(2-4) refl, of e] assms(5)
  by (auto simp: ring_inv_def lc_append_def Let_def)

lemma interaction_size_cong:
  "lc_maximum_public_bytes s = lc_maximum_public_bytes t \<Longrightarrow>
   interaction_size v s = interaction_size v t"
  unfolding interaction_size_def by (simp only:)

lemma interaction_size_update [simp]:
  "interaction_size v (s\<lparr>lc_subscribers := x\<rparr>) = interaction_size v s"
  "interaction_size v (s\<lparr>lc_current := c\<rparr>) = interaction_size v s"
  by (rule interaction_size_cong, simp)+

lemma interaction_size_bounds:
  assumes "interaction_size v s = Inr n"
  shows "0 \<le> n" and "n \<le> lc_maximum_public_bytes s"
    and "\<exists>m. utf8_size (iv_interaction_id v) = Inr m \<and> 0 \<le> m \<and> m \<le> n"
proof -
  let ?ts = "[iv_interaction_id v, iv_interaction_kind v, iv_public_prompt v]
      @ iv_public_options v @ [iv_expires_at_utc v]"
  from assms have n: "utf8_total ?ts = Inr n" and "n \<le> lc_maximum_public_bytes s"
    by (auto simp: interaction_size_def split: sum.splits if_splits)
  then show "0 \<le> n" "n \<le> lc_maximum_public_bytes s" using utf8_total_nonneg by auto
  from n have "list_all is_scalar (iv_interaction_id v)"
    by (auto simp: utf8_total_def utf8_size_def utf8_encode_def split: if_splits)
  moreover from utf8_total_member_le [OF n, of "iv_interaction_id v"]
  have "int (length (utf8_bytes (iv_interaction_id v))) \<le> n" by simp
  ultimately show "\<exists>m. utf8_size (iv_interaction_id v) = Inr m \<and> 0 \<le> m \<and> m \<le> n"
    by (simp add: utf8_size_def utf8_encode_def)
qed

lemma lc_append_inv:
  assumes inv: "lc_inv (s\<lparr>lc_current := c\<rparr>) h" and open_s: "\<not> lc_closed s"
    and n: "0 \<le> n" "n \<le> lc_maximum_public_bytes s"
    and v: "\<And>w. v = Some w \<Longrightarrow> is_ok (interaction_size w s)"
    and app: "lc_append kd v x n (s\<lparr>lc_current := v\<rparr>) = (e, s')"
  shows "lc_inv s' (h @ [e])"
proof -
  from inv open_s have r: "ring_inv (s\<lparr>lc_current := v\<rparr>) h"
    by (simp add: lc_inv_def ring_inv_def)
  from inv have m: "1 \<le> lc_maximum_events s" "1 \<le> lc_maximum_public_bytes s"
    by (auto simp: lc_inv_def)
  have "ring_inv s' (h @ [e])"
    using lc_append_ring [OF r n(1) _ _ app] n m by simp
  moreover have "e = fst (lc_append kd v x n (s\<lparr>lc_current := v\<rparr>))"
    and s': "s' = snd (lc_append kd v x n (s\<lparr>lc_current := v\<rparr>))" using app by simp_all
  then have "lce_revision e = lc_revision s + 1" "lce_interaction e = v" by simp_all
  moreover have "numbered lce_revision (h @ [e])"
    using inv calculation by (intro numbered_snoc) (auto simp: lc_inv_def)
  moreover have "interaction_size w s' = interaction_size w s" for w
    by (rule interaction_size_cong) (simp add: s')
  ultimately show ?thesis
    using inv open_s m v unfolding s' by (auto simp: lc_inv_def current_of_def)
qed

lemma lc_inv_init: "live_control_init i ep me mb = Inr s \<Longrightarrow> lc_inv s []"
  by (auto simp: live_control_init_def lc_inv_def ring_inv_def current_of_def split: if_splits)

lemma lc_inv_install:
  assumes "lc_inv s h" and "lc_install_interaction v x s = Inr (e, s')"
  shows "lc_inv s' (h @ [e])"
proof -
  from assms(2) obtain n kd y where n: "interaction_size v s = Inr n" and "\<not> lc_closed s"
    and app: "lc_append kd (Some v) y n (s\<lparr>lc_current := Some v\<rparr>) = (e, s')"
    by (auto simp: lc_install_interaction_def lc_require_open_def Let_def
        split: sum.splits if_splits)
  with assms(1) interaction_size_bounds [OF n] show ?thesis
    by (intro lc_append_inv [where c = "lc_current s", OF _ _ _ _ _ app]) (auto simp: n)
qed

lemma lc_inv_close_interaction:
  assumes "lc_inv s h" and "lc_close_interaction x s = Inr (e, s')"
  shows "lc_inv s' (h @ [e])"
proof -
  from assms(2) obtain v m where v: "lc_current s = Some v" "iv_interaction_id v = x"
    and m: "utf8_size x = Inr m" and "\<not> lc_closed s"
    and app: "lc_append INTERACTION_CLOSED None (Some x) m (s\<lparr>lc_current := None\<rparr>) = (e, s')"
    by (auto simp: lc_close_interaction_def lc_require_open_def split: sum.splits if_splits)
  from assms(1) v obtain n where n: "interaction_size v s = Inr n"
    by (cases "interaction_size v s") (auto simp: lc_inv_def)
  from interaction_size_bounds [OF n] v m have "0 \<le> m" "m \<le> lc_maximum_public_bytes s" by auto
  with assms(1) \<open>\<not> lc_closed s\<close> show ?thesis
    by (intro lc_append_inv [where c = "lc_current s", OF _ _ _ _ _ app]) auto
qed

lemma lc_inv_subscribe:
  assumes "lc_inv s h" and "lc_snapshot_and_subscribe ds s = Some (Inr (i, snap, s'))"
  shows "lc_inv s' h"
proof -
  from assms(2) have "\<not> lc_closed s" and cap: "length (lc_subscribers s) < 64"
    and i: "i \<notin> set (map fst (lc_subscribers s))"
    and s': "s' = s\<lparr>lc_subscribers := AList.update i (lc_owner_epoch s) (lc_subscribers s)\<rparr>"
    using draw_fresh_new [of "map fst (lc_subscribers s)" ds i]
    by (simp_all add: lc_snapshot_and_subscribe_def split: if_splits option.splits)
  note dict_set_new [OF i, of "lc_owner_epoch s"]
  with assms(1) cap i \<open>\<not> lc_closed s\<close> show ?thesis
    by (auto simp: lc_inv_def s' ring_inv_def)
qed

lemma lc_inv_detach: "lc_inv s h \<Longrightarrow> lc_inv (lc_detach i s) h"
  by (auto simp: lc_inv_def lc_detach_def ring_inv_def distinct_delete
      length_delete_le [THEN le_trans] dest: dict_in_delete split: if_splits)

lemma lc_inv_close: "lc_inv s h \<Longrightarrow> lc_inv (lc_close s) h"
  by (auto simp: lc_inv_def lc_close_def)

lemma lc_run_inv: "lc_run s h \<Longrightarrow> lc_inv s h"
  by (induction rule: lc_run.induct)
    (auto intro: lc_inv_init lc_inv_install lc_inv_close_interaction lc_inv_subscribe
      lc_inv_detach lc_inv_close)

lemma lc_run_trace: "lc_run s h \<Longrightarrow> lc_trace_ok None h"
proof (induction rule: lc_run.induct)
  case (lc_run_install s h v x e s')
  have "lc_current s = current_of h" "\<not> lc_closed s"
    using lc_run_inv [OF lc_run_install.hyps(1)] lc_run_install.hyps(2)
    by (auto simp: lc_inv_def lc_install_interaction_def lc_require_open_def split: sum.splits if_splits)
  moreover obtain kd c n where "e = fst (lc_append kd (Some v) c n (s\<lparr>lc_current := Some v\<rparr>))"
    and "kd = (if lc_current s = None then INTERACTION_OPENED else INTERACTION_REPLACED)"
    and "c = map_option iv_interaction_id (lc_current s)"
    using lc_run_install.hyps(2)
    by (auto simp: lc_install_interaction_def Let_def split: sum.splits if_splits)
      (metis fst_conv)+
  ultimately show ?case using lc_run_install.IH
    by (auto simp: lc_trace_ok_snoc current_of_def split: if_splits)
next
  case (lc_run_close_interaction s h x e s')
  have "lc_current s = current_of h"
    using lc_run_inv [OF lc_run_close_interaction.hyps(1)] lc_run_close_interaction.hyps(2)
    by (auto simp: lc_inv_def lc_close_interaction_def lc_require_open_def split: sum.splits if_splits)
  moreover obtain n where "e = fst (lc_append INTERACTION_CLOSED None (Some x) n (s\<lparr>lc_current := None\<rparr>))"
    and "map_option iv_interaction_id (lc_current s) = Some x"
    using lc_run_close_interaction.hyps(2)
    by (auto simp: lc_close_interaction_def split: sum.splits if_splits) (metis fst_conv)
  ultimately show ?case using lc_run_close_interaction.IH
    by (auto simp: lc_trace_ok_snoc current_of_def split: if_splits)
qed auto

section \<open>What an observer sees\<close>

text \<open>The answer of a read, as the cursor interface has it: the delivered events and the new cursor.\<close>

definition lc_read ::
  "pystr \<Rightarrow> int \<Rightarrow> live_control \<Rightarrow> int \<Rightarrow> int \<Rightarrow> (live_control_event list \<times> int) option"
where
  "lc_read i epoch s a n =
     (case lc_observe i epoch a n s of
        Inr ob \<Rightarrow> if lco_kind ob = LC_EVENTS then Some (lco_events ob, lco_through_revision ob) else None
      | Inl _ \<Rightarrow> None)"

text \<open>
  In a state reached with history \<open>h\<close>, an admitted read of an attached subscriber returns
  exactly the slice of \<open>h\<close> after its cursor when the ring still holds it, and a gap
  otherwise.
\<close>

lemma lc_observe_cases:
  assumes "lc_inv s h" and "0 \<le> a" and "1 \<le> n" and "n \<le> lc_maximum_events s"
    and "map_of (lc_subscribers s) i = Some ep'" and "\<not> lc_closed s"
  shows "\<exists>k \<le> length h. map fst (lc_ring s) = drop k h \<and>
    lc_observe i ep a n s =
      (if ep = lc_owner_epoch s \<and> int k \<le> a \<and> a \<le> int (length h)
       then let es = take (nat n) (drop (nat a) h)
            in Inr \<lparr>lco_kind = LC_EVENTS, lco_owner_epoch = lc_owner_epoch s,
                    lco_after_revision = a, lco_through_revision = a + int (length es),
                    lco_latest_revision = lc_revision s, lco_events = es\<rparr>
       else Inr (lc_gap a s))"
proof -
  from assms(1,6) obtain k where k: "k \<le> length h" "map fst (lc_ring s) = drop k h"
    and num: "numbered lce_revision h" and rv: "lc_revision s = int (length h)"
    by (auto simp: lc_inv_def ring_inv_def ring_holds_def)
  from assms(5) have "ep' = lc_owner_epoch s"
    using assms(1) by (auto simp: lc_inv_def dest!: map_of_SomeD)
  then have "lc_observe i ep a n s =
      (if ep = lc_owner_epoch s \<and> int k \<le> a \<and> a \<le> int (length h)
       then let es = take (nat n) (drop (nat a) h)
            in Inr \<lparr>lco_kind = LC_EVENTS, lco_owner_epoch = lc_owner_epoch s,
                    lco_after_revision = a, lco_through_revision = a + int (length es),
                    lco_latest_revision = lc_revision s, lco_events = es\<rparr>
       else Inr (lc_gap a s))"
    unfolding lc_observe_def rv ring_oldest [OF k(2,1) num] k(2) Let_def
    using assms(2-6) ring_after [OF num, of k a] ring_through [OF num assms(2), of "nat n"] rv
    by auto
  with k show ?thesis by blast
qed

interpretation lcq: cursor_log lc_inv "lc_read i ep"
  for i ep
proof
  fix s h a n es a'
  assume inv: "lc_inv s h" and r: "lc_read i ep s a n = Some (es, a')"
  from r have adm: "0 \<le> a" "1 \<le> n" "n \<le> lc_maximum_events s" "\<not> lc_closed s"
    and "\<exists>ep'. map_of (lc_subscribers s) i = Some ep'"
    by (auto simp: lc_read_def lc_observe_def split: sum.splits if_splits option.splits bool.splits)
  then obtain ep' where "map_of (lc_subscribers s) i = Some ep'" by blast
  from lc_observe_cases [OF inv adm(1-3) this adm(4), of ep] r
  have "a \<le> int (length h) \<and> es = take (nat n) (drop (nat a) h) \<and> a' = a + int (length es)"
    by (auto simp: lc_read_def Let_def lc_gap_def split: if_splits)
  with adm show "es = take (nat n) (drop (nat a) h) \<and> a' = a + int (length es)"
    and "0 \<le> a \<and> a \<le> int (length h)" by auto
qed

section \<open>Properties\<close>

text \<open>A small owner with one open interaction and one subscriber, for the witnesses.\<close>

definition demo_view :: interaction_view where
  "demo_view = \<lparr>iv_interaction_id = lit ''a'', iv_interaction_kind = lit ''k'',
     iv_public_prompt = lit ''p'', iv_public_options = [], iv_expires_at_utc = lit ''x'',
     iv_decision_in_progress = False\<rparr>"

definition demo_opened :: live_control_event where
  "demo_opened = \<lparr>lce_owner_epoch = 1, lce_revision = 1, lce_kind = INTERACTION_OPENED,
     lce_interaction = Some demo_view, lce_closed_interaction_id = None\<rparr>"

definition demo_control :: live_control where
  "demo_control = \<lparr>lc_session_id = lit ''s'', lc_maximum_events = 2, lc_maximum_public_bytes = 9,
     lc_owner_epoch = 1, lc_revision = 1, lc_current = Some demo_view,
     lc_ring = [(demo_opened, 4)], lc_ring_bytes = 4,
     lc_subscribers = [(lit ''u'', 1)], lc_closed = False\<rparr>"

lemma demo_control_run: "lc_run demo_control [demo_opened]"
proof -
  let ?s0 = "\<lparr>lc_session_id = lit ''s'', lc_maximum_events = 2, lc_maximum_public_bytes = 9,
     lc_owner_epoch = 1, lc_revision = 0, lc_current = None, lc_ring = [], lc_ring_bytes = 0,
     lc_subscribers = [], lc_closed = False\<rparr>"
  let ?s1 = "?s0\<lparr>lc_subscribers := [(lit ''u'', 1)]\<rparr>"
  have "live_control_init (lit ''s'') 1 2 9 = Inr ?s0" by (simp add: live_control_init_def)
  then have 0: "lc_run ?s0 []" by (rule lc_run_init)
  have "lc_snapshot_and_subscribe [lit ''u''] ?s0 = Some (Inr (lit ''u'', lc_snapshot ?s0, ?s1))"
    by (simp add: lc_snapshot_and_subscribe_def)
  with 0 have 1: "lc_run ?s1 []" by (rule lc_run_subscribe)
  have "interaction_size demo_view ?s1 = Inr 4"
    by (simp add: interaction_size_def demo_view_def utf8_total_def utf8_size_def
        utf8_encode_def is_scalar_def utf8_char_def utf8_values_def)
  then have "lc_install_interaction demo_view None ?s1 = Inr (demo_opened, demo_control)"
    by (simp add: lc_install_interaction_def lc_require_open_def lc_append_def
        Let_def demo_opened_def demo_control_def)
  with 1 have "lc_run demo_control ([] @ [demo_opened])" by (rule lc_run_install)
  then show ?thesis by simp
qed

text \<open>
  In every reachable state of an owner its bounds hold: the ring is a suffix of the
  published events whose byte charge is exact and within both limits, it always retains the
  newest event, revisions number the published events from 1, the current interaction fits
  the byte bound, and no more than 64 subscribers of the owner's epoch are attached.
\<close>

theorem live_control_invariant: "lc_run s h \<Longrightarrow> lc_inv s h"
  by (rule lc_run_inv)

theorem live_control_invariant_witness: "lc_inv demo_control [demo_opened]"
  by (rule live_control_invariant [OF demo_control_run])

text \<open>
  An admitted read in a reachable open state is answered exactly: the published events
  after the cursor, at most as many as asked for, if the epoch matches and the ring still
  holds them all, and a gap carrying no event otherwise.
\<close>

theorem live_control_observe_exact:
  assumes "lc_run s h" and "\<not> lc_closed s" and "map_of (lc_subscribers s) i \<noteq> None"
    and "0 \<le> a" and "1 \<le> n" and "n \<le> lc_maximum_events s"
  shows "\<exists>k \<le> length h. map fst (lc_ring s) = drop k h \<and>
    lc_observe i ep a n s =
      (if ep = lc_owner_epoch s \<and> int k \<le> a \<and> a \<le> int (length h)
       then let es = take (nat n) (drop (nat a) h)
            in Inr \<lparr>lco_kind = LC_EVENTS, lco_owner_epoch = lc_owner_epoch s,
                    lco_after_revision = a, lco_through_revision = a + int (length es),
                    lco_latest_revision = lc_revision s, lco_events = es\<rparr>
       else Inr (lc_gap a s))"
  using lc_observe_cases [OF lc_run_inv [OF assms(1)] assms(4-6) _ assms(2)] assms(3) by blast

theorem live_control_observe_exact_witness:
  "\<exists>k \<le> length [demo_opened]. map fst (lc_ring demo_control) = drop k [demo_opened] \<and>
    lc_observe (lit ''u'') 1 0 2 demo_control =
      (if 1 = lc_owner_epoch demo_control \<and> int k \<le> 0 \<and> 0 \<le> int (length [demo_opened])
       then let es = take (nat 2) (drop (nat 0) [demo_opened])
            in Inr \<lparr>lco_kind = LC_EVENTS, lco_owner_epoch = lc_owner_epoch demo_control,
                    lco_after_revision = 0, lco_through_revision = 0 + int (length es),
                    lco_latest_revision = lc_revision demo_control, lco_events = es\<rparr>
       else Inr (lc_gap 0 demo_control))"
  by (rule live_control_observe_exact [OF demo_control_run]) (simp_all add: demo_control_def)

text \<open>
  A subscriber that repeats its read from the cursor of the previous answer, across any
  later states of the owner, and is never told of a gap or a detachment, has received every
  event published after its first cursor exactly once and in order.
\<close>

theorem live_control_lossless:
  assumes "grows lc_inv h ss g" and "follow (lc_read i ep) a ss = Some (es, b)"
    and "0 \<le> a" and "a \<le> int (length h)"
  shows "es = take (nat (b - a)) (drop (nat a) g) \<and> a \<le> b \<and> b \<le> int (length g)"
  by (rule lcq.follow_lossless [OF assms])

theorem live_control_lossless_witness:
  "follow (lc_read (lit ''u'') 1) 0 [(demo_control, 1)] = Some ([demo_opened], 1) \<and>
   [demo_opened] = take (nat (1 - 0)) (drop (nat 0) [demo_opened]) \<and> (0::int) \<le> 1 \<and>
   1 \<le> int (length [demo_opened])"
proof -
  have f: "follow (lc_read (lit ''u'') 1) 0 [(demo_control, 1)] = Some ([demo_opened], 1)"
    by (simp add: lc_read_def lc_observe_def demo_control_def demo_opened_def)
  have g: "grows lc_inv [] [(demo_control, 1)] [demo_opened]"
    using lc_run_inv [OF demo_control_run] by auto
  show ?thesis using live_control_lossless [OF g f] f by simp
qed

text \<open>
  The events a session publishes form a consistent history: an interaction is opened
  only when none is current, replaced or closed only when one is, each replacement and
  closing names the interaction it ends, and the owner's current interaction is always the
  one the last event carries.
\<close>

theorem live_control_trace:
  assumes "lc_run s h"
  shows "lc_trace_ok None h \<and> (\<not> lc_closed s \<longrightarrow> lc_current s = current_of h)"
  using lc_run_trace [OF assms] lc_run_inv [OF assms] by (auto simp: lc_inv_def)

theorem live_control_trace_witness:
  "lc_trace_ok None [demo_opened] \<and> lc_current demo_control = current_of [demo_opened]"
  using live_control_trace [OF demo_control_run] by (simp add: demo_control_def)

text \<open>
  Installing an interaction succeeds exactly when the owner is open, the view fits the
  byte bound and the caller names the current interaction (or none when there is none);
  every other call raises and publishes nothing.
\<close>

theorem live_control_install_guard:
  "is_ok (lc_install_interaction v x s) \<longleftrightarrow>
     \<not> lc_closed s \<and> is_ok (interaction_size v s) \<and> x = map_option iv_interaction_id (lc_current s)"
  by (cases "lc_current s"; cases x)
    (auto simp: lc_install_interaction_def lc_require_open_def Let_def split: sum.splits)

end
