(* ===== verification/Json.thy ===== *)
theory Json
  imports Prelude "HOL-Library.List_Lexorder"
begin

text \<open>
  JSON values and their canonical text, as the code obtains it from
  \<open>json.dumps(value, ensure_ascii=False, separators=(",", ":"), sort_keys=..., allow_nan=False)\<close>.
  A float carries the text the encoder prints for it; \<open>None\<close> stands for a value that is
  not finite, which \<open>allow_nan=False\<close> refuses.
\<close>

section \<open>Values\<close>

datatype json =
    JNull
  | JBool bool
  | JInt int
  | JFloat "pystr option"
  | JStr pystr
  | JList "json list"
  | JObj "(pystr \<times> json) list"

text \<open>Decimal text of an integer.\<close>

fun nat_digits :: "nat \<Rightarrow> pystr" where
  "nat_digits n = (if n < 10 then [48 + n] else nat_digits (n div 10) @ [48 + n mod 10])"

declare nat_digits.simps [simp del]

definition int_text :: "int \<Rightarrow> pystr" where
  "int_text i = (if i < 0 then 45 # nat_digits (nat (- i)) else nat_digits (nat i))"

text \<open>String literals: the two-character escapes, and \<open>\u00XX\<close> for other control characters.\<close>

definition hex_digit :: "nat \<Rightarrow> nat" where
  "hex_digit n = (if n < 10 then 48 + n else 87 + n)"

definition json_char :: "nat \<Rightarrow> pystr" where
  "json_char c =
     (if c = 34 then [92, 34] else if c = 92 then [92, 92]
      else if c = 8 then [92, 98] else if c = 12 then [92, 102] else if c = 10 then [92, 110]
      else if c = 13 then [92, 114] else if c = 9 then [92, 116]
      else if c < 32 then [92, 117, 48, 48, hex_digit (c div 16), hex_digit (c mod 16)]
      else [c])"

definition json_string :: "pystr \<Rightarrow> pystr" where
  "json_string t = [34] @ concat (map json_char t) @ [34]"

fun join_with :: "pystr \<Rightarrow> pystr list \<Rightarrow> pystr" where
  "join_with sep [] = []"
| "join_with sep [t] = t"
| "join_with sep (t # ts) = t @ sep @ join_with sep ts"

text \<open>The text of a value; \<open>sort_keys\<close> orders the members of every object by key.\<close>

definition json_items :: "bool \<Rightarrow> (pystr \<times> 'a) list \<Rightarrow> (pystr \<times> 'a) list" where
  "json_items srt kvs = (if srt then sort_key fst kvs else kvs)"

lemma set_json_items [simp]: "set (json_items srt kvs) = set kvs"
  by (simp add: json_items_def)

lemma json_items_cong [fundef_cong]:
  "srt = srt' \<Longrightarrow> kvs = kvs' \<Longrightarrow> json_items srt kvs = json_items srt' kvs'"
  by simp

function (sequential) json_text :: "bool \<Rightarrow> json \<Rightarrow> pystr" where
  "json_text srt JNull = lit ''null''"
| "json_text srt (JBool b) = (if b then lit ''true'' else lit ''false'')"
| "json_text srt (JInt i) = int_text i"
| "json_text srt (JFloat t) = (case t of Some s \<Rightarrow> s | None \<Rightarrow> lit ''NaN'')"
| "json_text srt (JStr t) = json_string t"
| "json_text srt (JList xs) = [91] @ join_with [44] (map (json_text srt) xs) @ [93]"
| "json_text srt (JObj kvs) =
     [123] @ join_with [44]
       (map (\<lambda>p. json_string (fst p) @ [58] @ json_text srt (snd p)) (json_items srt kvs)) @ [125]"
  by pat_completeness auto

lemma size_json_member: "p \<in> set kvs \<Longrightarrow> size (snd p) < size (JObj kvs)"
  by (induction kvs) (auto simp: prod.size)

termination json_text
  by (relation "measure (\<lambda>(_, v). size v)")
    (auto simp: size_json_member size_list_estimation' intro: less_Suc_eq_le [THEN iffD2])

fun json_finite :: "json \<Rightarrow> bool" where
  "json_finite (JFloat t) \<longleftrightarrow> t \<noteq> None"
| "json_finite (JList xs) \<longleftrightarrow> (\<forall>x \<in> set xs. json_finite x)"
| "json_finite (JObj kvs) \<longleftrightarrow> (\<forall>p \<in> set kvs. json_finite (snd p))"
| "json_finite _ \<longleftrightarrow> True"

definition json_dumps :: "bool \<Rightarrow> json \<Rightarrow> pystr result" where
  "json_dumps srt v =
     (if json_finite v then Inr (json_text srt v)
      else Inl (ValueError ''Out of range float values are not JSON compliant''))"

end
