(* ===== verification/Json_Scalar.thy ===== *)
theory Json_Scalar
  imports Json Utf8
begin

text \<open>
  The canonical text of a JSON value has an encoding whenever every string in the value has
  one: what the digests and fingerprints of the code rest on.
\<close>

text \<open>JSON text is encodable when every string in the value is.\<close>

definition scalar_text :: "pystr \<Rightarrow> bool" where
  "scalar_text t \<longleftrightarrow> (\<forall>c \<in> set t. is_scalar c)"

lemma scalar_text_simps [simp]:
  "scalar_text []" "scalar_text (c # t) \<longleftrightarrow> is_scalar c \<and> scalar_text t"
  "scalar_text (s @ t) \<longleftrightarrow> scalar_text s \<and> scalar_text t"
  by (auto simp: scalar_text_def)

lemma scalar_lit: "list_all is_scalar (lit s)"
proof -
  have "is_scalar (of_char c)" for c
    using nat_of_char_less_256 [of c] unfolding is_scalar_def by linarith
  then show ?thesis by (simp add: lit_def list_all_iff)
qed

lemma scalar_text_iff: "scalar_text t \<longleftrightarrow> list_all is_scalar t"
  by (simp add: scalar_text_def list_all_iff)

lemma scalar_text_lit [simp]: "scalar_text (lit s)"
  by (simp add: scalar_text_iff scalar_lit)

fun json_scalar :: "json \<Rightarrow> bool" where
  "json_scalar (JStr t) \<longleftrightarrow> scalar_text t"
| "json_scalar (JFloat t) \<longleftrightarrow> (case t of None \<Rightarrow> True | Some x \<Rightarrow> scalar_text x)"
| "json_scalar (JList xs) \<longleftrightarrow> (\<forall>x \<in> set xs. json_scalar x)"
| "json_scalar (JObj kvs) \<longleftrightarrow> (\<forall>p \<in> set kvs. scalar_text (fst p) \<and> json_scalar (snd p))"
| "json_scalar _ \<longleftrightarrow> True"

lemma scalar_join: "scalar_text sep \<Longrightarrow> \<forall>t \<in> set ts. scalar_text t \<Longrightarrow> scalar_text (join_with sep ts)"
  by (induction sep ts rule: join_with.induct) simp_all

lemma scalar_nat_digits: "scalar_text (nat_digits n)"
proof (induction n rule: nat_digits.induct)
  case (1 n)
  have "n mod 10 < 10" by simp
  with 1 show ?case by (subst nat_digits.simps) (auto simp: is_scalar_def)
qed

lemma scalar_json_string: "scalar_text t \<Longrightarrow> scalar_text (json_string t)"
  by (induction t) (auto simp: json_string_def json_char_def hex_digit_def is_scalar_def)

lemma scalar_json_text: "json_scalar v \<Longrightarrow> scalar_text (json_text srt v)"
proof (induction srt v rule: json_text.induct)
  case (6 srt xs)
  then show ?case by (auto intro!: scalar_join simp: is_scalar_def)
next
  case (7 srt kvs)
  then show ?case by (fastforce intro!: scalar_join scalar_json_string simp: is_scalar_def)
qed (auto simp: int_text_def scalar_nat_digits scalar_json_string is_scalar_def
    split: option.splits)

end
