(* ===== verification/Identity.thy ===== *)
theory Identity
  imports Json_Scalar
begin

text \<open>
  Canonical identities (\<open>identity.py\<close>): the closed vocabulary of kinds, the base32 payload
  of 16 random or derived bytes, its validation, and content revisions. \<open>hashlib.sha256\<close>
  is an argument: nothing here depends on which 32-byte digest it computes.
\<close>

section \<open>Kinds\<close>

definition identity_kinds :: "string list" where
  "identity_kinds =
    [''workspace'', ''session'', ''blob'', ''image'', ''command'', ''queue'', ''turn'', ''entry'',
     ''snapshot'', ''binding'', ''history'', ''block'', ''replay'', ''attempt'', ''result'',
     ''call'', ''batch'', ''task'', ''agent-result'', ''agent-message'', ''decision'', ''plan'',
     ''plan-interaction'', ''permission'', ''schedule'', ''memory'', ''relation'', ''event'',
     ''connection'', ''package'', ''process'', ''cell'', ''stream'', ''subscription'',
     ''terminal-decision'', ''observation'', ''todo-run'', ''todo-settlement'', ''borrow'',
     ''interaction'', ''host'', ''launch'', ''attachment'', ''transport'', ''request'',
     ''operation'', ''compact-attempt'', ''epoch'', ''permit'', ''planning'', ''bootstrap'',
     ''preparation'', ''replay-reservation'', ''extension'', ''observer'', ''generation'',
     ''terminal-owner'', ''mcp-candidate'', ''mcpref'', ''slot'', ''settlement'', ''fence'',
     ''context'', ''segment'', ''page'', ''tab'', ''browser-instance'', ''presentation'',
     ''mcp-tool'', ''reasoning-block'', ''search-document'', ''draft-node'', ''draft-import'',
     ''draft-asset'', ''skill'', ''mcp-server'', ''view'', ''asr-cache'']"

definition is_kind :: "pystr \<Rightarrow> bool" where
  "is_kind kind \<longleftrightarrow> kind \<in> set (map lit identity_kinds)"

section \<open>Base32 payloads\<close>

text \<open>
  \<open>base64.b32encode(value).decode("ascii").rstrip("=").lower()\<close>: the bits of the value, most
  significant first, in groups of five; a last short group is filled with zero bits.
\<close>

definition byte_bits :: "byte \<Rightarrow> bool list" where
  "byte_bits b = map (bit b) [7, 6, 5, 4, 3, 2, 1, 0]"

fun bits_value :: "bool list \<Rightarrow> nat" where
  "bits_value [] = 0"
| "bits_value (b # bs) = (if b then 2 ^ length bs else 0) + bits_value bs"

definition base32_digit :: "nat \<Rightarrow> nat" where
  "base32_digit v = (if v < 26 then 97 + v else 50 + (v - 26))"

fun base32_groups :: "bool list \<Rightarrow> nat list" where
  "base32_groups (a # b # c # d # e # bs) = bits_value [a, b, c, d, e] # base32_groups bs"
| "base32_groups [] = []"
| "base32_groups bs = [bits_value (bs @ replicate (5 - length bs) False)]"

definition base32 :: "bytes \<Rightarrow> pystr" where
  "base32 value = map base32_digit (base32_groups (concat (map byte_bits value)))"

section \<open>Allocation, derivation and validation\<close>

definition check_kind :: "pystr \<Rightarrow> unit result" where
  "check_kind kind =
     (if is_kind kind then Inr () else Inl (ValueError ''INVALID_ID: unknown identity kind''))"

text \<open>\<open>token\<close> is the value of \<open>secrets.token_bytes(16)\<close>.\<close>

definition random_id :: "pystr \<Rightarrow> bytes \<Rightarrow> pystr result" where
  "random_id kind token =
     (case check_kind kind of Inl e \<Rightarrow> Inl e | Inr _ \<Rightarrow> Inr (kind @ lit '':'' @ base32 token))"

definition derive_id :: "(bytes \<Rightarrow> bytes) \<Rightarrow> pystr \<Rightarrow> pystr \<Rightarrow> pystr list \<Rightarrow> pystr result" where
  "derive_id sha kind role parts =
     (case check_kind kind of
        Inl e \<Rightarrow> Inl e
      | Inr _ \<Rightarrow>
          if role = []
          then Inl (ValueError ''identity derivation requires a role and string parts'')
          else
            (case utf8_encode (json_text False
                    (JList (map JStr ([lit ''pulsara-id-v1'', kind, role] @ parts)))) of
               Inl e \<Rightarrow> Inl e
             | Inr encoded \<Rightarrow> Inr (kind @ lit '':'' @ base32 (take 16 (sha encoded)))))"

text \<open>\<open>re.fullmatch("[a-z2-7]{25}[aeimquy4]", payload)\<close> and the revision pattern.\<close>

definition is_base32_char :: "nat \<Rightarrow> bool" where
  "is_base32_char c \<longleftrightarrow> (97 \<le> c \<and> c \<le> 122) \<or> (50 \<le> c \<and> c \<le> 55)"

definition id_payload :: "pystr \<Rightarrow> bool" where
  "id_payload p \<longleftrightarrow> length p = 26 \<and> list_all is_base32_char (take 25 p) \<and>
     last p \<in> set (lit ''aeimquy4'')"

definition revision_payload :: "pystr \<Rightarrow> bool" where
  "revision_payload p \<longleftrightarrow> length p = 52 \<and> list_all is_base32_char (take 51 p) \<and>
     last p \<in> set (lit ''aq'')"

definition id_of_kind :: "pystr \<Rightarrow> pystr \<Rightarrow> bool" where
  "id_of_kind value kind \<longleftrightarrow>
     take (length kind + 1) value = kind @ lit '':'' \<and> id_payload (drop (length kind + 1) value)"

definition is_valid_id :: "pystr \<Rightarrow> pystr list \<Rightarrow> bool result" where
  "is_valid_id value kinds =
     (if kinds = [] \<or> list_ex (\<lambda>k. \<not> is_kind k) kinds
      then Inl (ValueError ''identity validation requires explicit canonical kinds'')
      else Inr (list_ex (id_of_kind value) kinds))"

definition require_id :: "pystr \<Rightarrow> pystr list \<Rightarrow> pystr result" where
  "require_id value kinds =
     (case is_valid_id value kinds of
        Inl e \<Rightarrow> Inl e
      | Inr ok \<Rightarrow> if ok then Inr value
                  else Inl (ValueError ''INVALID_ID: noncanonical identity or wrong kind''))"

definition content_revision :: "(bytes \<Rightarrow> bytes) \<Rightarrow> bytes \<Rightarrow> pystr" where
  "content_revision sha content = lit ''revision:'' @ base32 (sha content)"

section \<open>Payloads are canonical\<close>

lemma length_base32_groups: "length (base32_groups bs) = (length bs + 4) div 5"
  by (induction bs rule: base32_groups.induct) auto

lemma length_byte_bits [simp]: "length (byte_bits b) = 8"
  by (simp add: byte_bits_def)

lemma length_bits_of_bytes [simp]: "length (concat (map byte_bits bs)) = 8 * length bs"
  by (induction bs) auto

lemma bits_value_less: "bits_value bs < 2 ^ length bs"
  by (induction bs) auto

lemma bits_value_zeros [simp]: "bits_value (replicate n False) = 0"
  by (induction n) auto

lemma base32_groups_less: "v \<in> set (base32_groups bs) \<Longrightarrow> v < 32"
proof (induction bs rule: base32_groups.induct)
  case (1 a b c d e bs)
  then show ?case using bits_value_less [of "[a, b, c, d, e]"] by auto
qed auto

lemma base32_digit_char: "v < 32 \<Longrightarrow> is_base32_char (base32_digit v)"
  by (auto simp: base32_digit_def is_base32_char_def)

lemma base32_chars: "list_all is_base32_char (base32 bs)"
  unfolding base32_def list_all_iff
  by (auto intro: base32_digit_char dest: base32_groups_less)

text \<open>The bits past the last full group decide the last character.\<close>

lemma base32_groups_last:
  "bs \<noteq> [] \<Longrightarrow> length bs mod 5 = r \<Longrightarrow> 0 < r \<Longrightarrow>
   last (base32_groups bs) = bits_value (drop (length bs - r) bs @ replicate (5 - r) False)"
proof (induction bs rule: base32_groups.induct)
  case (1 a b c d e bs)
  then have "bs \<noteq> []" and m: "length bs mod 5 = r" by auto
  then have "r \<le> length bs" using mod_less_eq_dividend by metis
  then have "length (a # b # c # d # e # bs) - r = Suc (Suc (Suc (Suc (Suc (length bs - r)))))"
    by simp
  then have "drop (length (a # b # c # d # e # bs) - r) (a # b # c # d # e # bs) = drop (length bs - r) bs"
    by (simp only: drop_Suc_Cons)
  moreover have "base32_groups bs \<noteq> []" using \<open>bs \<noteq> []\<close> by (cases bs rule: base32_groups.cases) auto
  ultimately show ?case using 1 \<open>bs \<noteq> []\<close> m by simp
qed auto

lemma last_base32:
  assumes "bs \<noteq> []"
  shows "last (base32 bs) = base32_digit (last (base32_groups (concat (map byte_bits bs))))"
proof -
  have "length (base32_groups (concat (map byte_bits bs))) \<noteq> 0"
    using assms by (simp add: length_base32_groups) (cases bs; simp)
  then show ?thesis by (simp add: base32_def last_map)
qed

lemma length_three: "length xs = 3 \<Longrightarrow> \<exists>x y z. xs = [x, y, z]"
  by (auto simp: numeral_3_eq_3 length_Suc_conv)

lemma length_one: "length xs = 1 \<Longrightarrow> \<exists>x. xs = [x]"
  by (auto simp: length_Suc_conv)

lemma id_payload_base32:
  assumes "length bs = 16"
  shows "id_payload (base32 bs)"
proof -
  let ?bits = "concat (map byte_bits bs)"
  have len: "length ?bits = 128" using assms by simp
  obtain x y z where xyz: "drop 125 ?bits = [x, y, z]"
  proof -
    have "length (drop 125 ?bits) = 3" using len by simp
    then show thesis using length_three that by blast
  qed
  have "last (base32_groups ?bits) = bits_value ([x, y, z] @ replicate 2 False)"
  proof -
    have "?bits \<noteq> []" using len by (metis list.size(3) zero_neq_numeral)
    from base32_groups_last [OF this, of 3] len
    have "last (base32_groups ?bits) = bits_value (drop 125 ?bits @ replicate 2 False)"
      by (simp del: concat_map_singleton)
    then show ?thesis by (simp only: xyz)
  qed
  moreover have "base32_digit (bits_value ([x, y, z] @ replicate 2 False)) \<in> set (lit ''aeimquy4'')"
    by (cases x; cases y; cases z) (simp_all add: base32_digit_def numeral_2_eq_2)
  moreover have "bs \<noteq> []" using assms by auto
  ultimately have "last (base32 bs) \<in> set (lit ''aeimquy4'')" by (metis last_base32)
  moreover have "length (base32 bs) = 26"
    using len by (simp add: base32_def length_base32_groups)
  moreover have "list_all is_base32_char (take 25 (base32 bs))"
    using base32_chars [of bs] in_set_takeD unfolding list_all_iff by fast
  ultimately show ?thesis by (simp add: id_payload_def)
qed

lemma revision_payload_base32:
  assumes "length bs = 32"
  shows "revision_payload (base32 bs)"
proof -
  let ?bits = "concat (map byte_bits bs)"
  have len: "length ?bits = 256" using assms by simp
  obtain x where x: "drop 255 ?bits = [x]"
  proof -
    have "length (drop 255 ?bits) = 1" using len by simp
    then show thesis using length_one that by blast
  qed
  have "last (base32_groups ?bits) = bits_value ([x] @ replicate 4 False)"
  proof -
    have "?bits \<noteq> []" using len by (metis list.size(3) zero_neq_numeral)
    from base32_groups_last [OF this, of 1] len
    have "last (base32_groups ?bits) = bits_value (drop 255 ?bits @ replicate 4 False)"
      by (simp del: concat_map_singleton)
    then show ?thesis by (simp only: x)
  qed
  moreover have "base32_digit (bits_value ([x] @ replicate 4 False)) \<in> set (lit ''aq'')"
    by (cases x) (simp_all add: base32_digit_def numeral_eq_Suc)
  moreover have "bs \<noteq> []" using assms by auto
  ultimately have "last (base32 bs) \<in> set (lit ''aq'')" by (metis last_base32)
  moreover have "length (base32 bs) = 52"
    using len by (simp add: base32_def length_base32_groups)
  moreover have "list_all is_base32_char (take 51 (base32 bs))"
    using base32_chars [of bs] in_set_takeD unfolding list_all_iff by fast
  ultimately show ?thesis by (simp add: revision_payload_def)
qed

lemma id_of_kind_built: "length bs = 16 \<Longrightarrow> id_of_kind (kind @ lit '':'' @ base32 bs) kind"
  by (simp add: id_of_kind_def id_payload_base32)

lemma random_id_shape:
  "random_id kind token = Inr i \<Longrightarrow> is_kind kind \<and> i = kind @ lit '':'' @ base32 token"
  by (auto simp: random_id_def check_kind_def split: if_splits)

lemma derive_id_shape:
  "derive_id sha kind role parts = Inr i \<Longrightarrow>
   \<exists>bs. is_kind kind \<and> i = kind @ lit '':'' @ base32 (take 16 (sha bs))"
  unfolding derive_id_def check_kind_def by (auto simp del: lit_Cons split: sum.splits if_splits)

section \<open>Derivation never fails on well-formed text\<close>

lemma derive_id_total:
  assumes "is_kind kind" and "role \<noteq> []" and "list_all is_scalar kind" and "list_all is_scalar role"
    and "\<forall>p \<in> set parts. list_all is_scalar p"
  shows "\<exists>i. derive_id sha kind role parts = Inr i"
proof -
  have "json_scalar (JList (map JStr ([lit ''pulsara-id-v1'', kind, role] @ parts)))"
    using assms by (auto simp: scalar_text_iff scalar_lit simp del: lit_Cons)
  note scalar_json_text [OF this, of False, unfolded scalar_text_iff]
  then show ?thesis using assms(1,2)
    by (auto simp: derive_id_def check_kind_def utf8_encode_def simp del: lit_Cons)
qed

lemma random_id_text:
  assumes "random_id kind token = Inr i" and "list_all is_scalar kind"
  shows "i \<noteq> []" and "list_all is_scalar i"
proof -
  from random_id_shape [OF assms(1)] have "i = kind @ lit '':'' @ base32 token"
    by (simp add: random_id_def check_kind_def split: if_splits)
  moreover have "list_all is_scalar (base32 token)"
    using base32_chars [of token] by (auto simp: list_all_iff is_base32_char_def is_scalar_def)
  ultimately show "i \<noteq> []" and "list_all is_scalar i"
    using assms(2) by (auto simp: is_scalar_def)
qed

section \<open>Properties\<close>

text \<open>
  Every identity the allocator or the derivation returns is accepted by the validator
  for its own kind, whatever the random bytes or the digest are, provided the digest has at
  least 16 bytes.
\<close>

theorem identities_are_valid:
  assumes "length token = 16" and "\<And>bs. 16 \<le> length (sha bs)"
    and "random_id kind token = Inr i \<or> derive_id sha kind role parts = Inr i"
  shows "require_id i [kind] = Inr i"
proof -
  from assms(3) obtain bs where "is_kind kind" and "length bs = 16"
    and "i = kind @ lit '':'' @ base32 bs"
  proof
    assume "random_id kind token = Inr i"
    then show thesis using random_id_shape assms(1) that by blast
  next
    assume "derive_id sha kind role parts = Inr i"
    then obtain bs where "is_kind kind" and "i = kind @ lit '':'' @ base32 (take 16 (sha bs))"
      using derive_id_shape by blast
    moreover have "length (take 16 (sha bs)) = 16" using assms(2) by simp
    ultimately show thesis using that by blast
  qed
  then show ?thesis using id_of_kind_built [of bs kind] by (simp add: require_id_def is_valid_id_def)
qed

theorem identities_are_valid_witness:
  "require_id (lit ''turn:aaaaaaaaaaaaaaaaaaaaaaaaaa'') [lit ''turn''] =
     Inr (lit ''turn:aaaaaaaaaaaaaaaaaaaaaaaaaa'')"
proof -
  let ?token = "[0, 0, 0, 0, 0, 0, 0, 0, 0, 0, 0, 0, 0, 0, 0, 0] :: bytes"
  have "random_id (lit ''turn'') ?token = Inr (lit ''turn:aaaaaaaaaaaaaaaaaaaaaaaaaa'')"
    by (simp add: random_id_def check_kind_def is_kind_def identity_kinds_def base32_def
        byte_bits_def base32_digit_def)
  then show ?thesis
    by (intro identities_are_valid [where token = ?token and sha = "\<lambda>_. replicate 32 0"]) auto
qed

text \<open>
  An identity is valid for one kind only: two kinds that both accept it are equal.
\<close>

theorem identity_kind_unique:
  assumes "require_id i [k] = Inr i" and "require_id i [k'] = Inr i"
  shows "k = k'"
proof -
  from assms have k: "id_of_kind i k" "id_of_kind i k'"
    by (auto simp: require_id_def is_valid_id_def split: if_splits)
  then have "length i = length k + 27" "length i = length k' + 27"
    by (auto simp: id_of_kind_def id_payload_def)
  then have "length k = length k'" by simp
  with k show ?thesis by (auto simp: id_of_kind_def)
qed

theorem identity_kind_unique_witness:
  "lit ''turn'' = lit ''turn'' \<and>
   require_id (lit ''turn:aaaaaaaaaaaaaaaaaaaaaaaaaa'') [lit ''turn''] =
     Inr (lit ''turn:aaaaaaaaaaaaaaaaaaaaaaaaaa'')"
proof -
  have v: "require_id (lit ''turn:aaaaaaaaaaaaaaaaaaaaaaaaaa'') [lit ''turn''] =
     Inr (lit ''turn:aaaaaaaaaaaaaaaaaaaaaaaaaa'')"
    by (simp add: require_id_def is_valid_id_def is_kind_def identity_kinds_def id_of_kind_def
        id_payload_def is_base32_char_def)
  from identity_kind_unique [OF v v] v show ?thesis by simp
qed

text \<open>
  A content revision is \<open>revision:\<close> followed by the canonical 52-character payload of a
  32-byte digest.
\<close>

lemma content_revision_pattern:
  "length (sha c) = 32 \<Longrightarrow>
   \<exists>p. content_revision sha c = lit ''revision:'' @ p \<and> revision_payload p"
  by (simp add: content_revision_def revision_payload_base32)

end
