(* ===== verification/Live_Payload.thy ===== *)
theory Live_Payload
  imports Json Utf8
begin

text \<open>
  The payload vocabulary of the live events (\<open>ports/live_agent_event.py\<close>) with the event
  types of \<open>conversation_kernel/vocabulary.py\<close>: one constructor per payload class, the
  validation each constructor runs, and the mapping a payload is serialised from.
  \<open>sha\<close> is \<open>hashlib.sha256(...).hexdigest()\<close> and \<open>loads\<close> is \<open>json.loads\<close> on text.
\<close>

section \<open>Event types\<close>

datatype live_event_type =
    TEXT_START | TEXT_DELTA | TEXT_END
  | THINKING_START | THINKING_DELTA | THINKING_END
  | DATA_START | DATA_DELTA | DATA_END
  | TOOL_CALL_START | TOOL_CALL_DELTA | TOOL_CALL_END
  | TOOL_RESULT_START | TOOL_RESULT_DELTA | TOOL_RESULT_END
  | LIVE_INTERACTION_OPENED | LIVE_INTERACTION_REPLACED | LIVE_INTERACTION_CLOSED
  | TERMINAL_PROCESS_COMPLETED | CURRENT_WORK_SNAPSHOT_UPDATED

fun live_event_value :: "live_event_type \<Rightarrow> string" where
  "live_event_value TEXT_START = ''TextStart''"
| "live_event_value TEXT_DELTA = ''TextDelta''"
| "live_event_value TEXT_END = ''TextEnd''"
| "live_event_value THINKING_START = ''ThinkingStart''"
| "live_event_value THINKING_DELTA = ''ThinkingDelta''"
| "live_event_value THINKING_END = ''ThinkingEnd''"
| "live_event_value DATA_START = ''DataStart''"
| "live_event_value DATA_DELTA = ''DataDelta''"
| "live_event_value DATA_END = ''DataEnd''"
| "live_event_value TOOL_CALL_START = ''ToolCallStart''"
| "live_event_value TOOL_CALL_DELTA = ''ToolCallDelta''"
| "live_event_value TOOL_CALL_END = ''ToolCallEnd''"
| "live_event_value TOOL_RESULT_START = ''ToolResultStart''"
| "live_event_value TOOL_RESULT_DELTA = ''ToolResultDelta''"
| "live_event_value TOOL_RESULT_END = ''ToolResultEnd''"
| "live_event_value LIVE_INTERACTION_OPENED = ''InteractionOpened''"
| "live_event_value LIVE_INTERACTION_REPLACED = ''InteractionReplaced''"
| "live_event_value LIVE_INTERACTION_CLOSED = ''InteractionClosed''"
| "live_event_value TERMINAL_PROCESS_COMPLETED = ''TerminalProcessCompleted''"
| "live_event_value CURRENT_WORK_SNAPSHOT_UPDATED = ''CurrentWorkSnapshotUpdated''"

section \<open>Payloads\<close>

datatype reasoning_presentation_kind = FULL | SUMMARY

datatype live_payload =
    TextStartPayload pystr
  | TextDeltaPayload pystr pystr
  | TextEndPayload pystr pystr int pystr
  | ThinkingStartPayload pystr reasoning_presentation_kind
  | ThinkingDeltaPayload pystr pystr
  | ThinkingEndPayload pystr pystr int pystr
  | DataStartPayload pystr pystr
  | DataDeltaPayload pystr pystr
  | DataEndPayload pystr pystr pystr int pystr
  | ToolCallStartPayload pystr pystr pystr
  | ToolCallDeltaPayload pystr pystr pystr
  | ToolCallEndPayload pystr pystr pystr pystr int pystr
  | ToolResultStartPayload pystr pystr pystr "pystr option" "pystr option" "pystr option"
  | ToolResultDeltaPayload pystr pystr
  | ToolResultEndPayload pystr pystr pystr int pystr
  | InteractionOpenedPayload pystr pystr pystr "pystr list" pystr
  | InteractionReplacedPayload pystr pystr pystr pystr "pystr list" pystr
  | InteractionClosedPayload pystr pystr
  | TerminalProcessCompletedPayload pystr pystr "int option" int pystr
  | CurrentWorkSnapshotUpdatedPayload pystr "pystr option"

text \<open>
  \<open>LIVE_PAYLOAD_TYPE_BY_EVENT\<close> is a bijection between event types and payload classes; this
  is its inverse, so \<open>isinstance(payload, LIVE_PAYLOAD_TYPE_BY_EVENT[t])\<close> reads
  \<open>payload_event payload = t\<close>.
\<close>

fun payload_event :: "live_payload \<Rightarrow> live_event_type" where
  "payload_event (TextStartPayload _) = TEXT_START"
| "payload_event (TextDeltaPayload _ _) = TEXT_DELTA"
| "payload_event (TextEndPayload _ _ _ _) = TEXT_END"
| "payload_event (ThinkingStartPayload _ _) = THINKING_START"
| "payload_event (ThinkingDeltaPayload _ _) = THINKING_DELTA"
| "payload_event (ThinkingEndPayload _ _ _ _) = THINKING_END"
| "payload_event (DataStartPayload _ _) = DATA_START"
| "payload_event (DataDeltaPayload _ _) = DATA_DELTA"
| "payload_event (DataEndPayload _ _ _ _ _) = DATA_END"
| "payload_event (ToolCallStartPayload _ _ _) = TOOL_CALL_START"
| "payload_event (ToolCallDeltaPayload _ _ _) = TOOL_CALL_DELTA"
| "payload_event (ToolCallEndPayload _ _ _ _ _ _) = TOOL_CALL_END"
| "payload_event (ToolResultStartPayload _ _ _ _ _ _) = TOOL_RESULT_START"
| "payload_event (ToolResultDeltaPayload _ _) = TOOL_RESULT_DELTA"
| "payload_event (ToolResultEndPayload _ _ _ _ _) = TOOL_RESULT_END"
| "payload_event (InteractionOpenedPayload _ _ _ _ _) = LIVE_INTERACTION_OPENED"
| "payload_event (InteractionReplacedPayload _ _ _ _ _ _) = LIVE_INTERACTION_REPLACED"
| "payload_event (InteractionClosedPayload _ _) = LIVE_INTERACTION_CLOSED"
| "payload_event (TerminalProcessCompletedPayload _ _ _ _ _) = TERMINAL_PROCESS_COMPLETED"
| "payload_event (CurrentWorkSnapshotUpdatedPayload _ _) = CURRENT_WORK_SNAPSHOT_UPDATED"

section \<open>Validation\<close>

definition live_digest :: "(bytes \<Rightarrow> pystr) \<Rightarrow> pystr \<Rightarrow> pystr result" where
  "live_digest sha v = map_sum id (\<lambda>bs. lit ''sha256:'' @ sha bs) (utf8_encode v)"

text \<open>Any falsy argument, an empty string or \<open>None\<close>, is refused.\<close>

definition require_identity :: "pystr option list \<Rightarrow> unit result" where
  "require_identity values =
     (if values = [] \<or> list_ex (\<lambda>v. v = None \<or> v = Some []) values
      then Inl (ValueError ''live payload identity is empty'') else Inr ())"

definition validate_frozen_text :: "(bytes \<Rightarrow> pystr) \<Rightarrow> pystr \<Rightarrow> int \<Rightarrow> pystr \<Rightarrow> unit result" where
  "validate_frozen_text sha v nbytes digest =
     (case utf8_encode v of
        Inl e \<Rightarrow> Inl e
      | Inr encoded \<Rightarrow>
          if nbytes \<noteq> int (length encoded) \<or> Inr digest \<noteq> live_digest sha v
          then Inl (ValueError ''live terminal payload integrity mismatch'') else Inr ())"

definition and_then :: "unit result \<Rightarrow> unit result \<Rightarrow> unit result" where
  "and_then a b = (case a of Inl e \<Rightarrow> Inl e | Inr _ \<Rightarrow> b)"

definition require_nonempty :: "pystr \<Rightarrow> string \<Rightarrow> unit result" where
  "require_nonempty v message = (if v = [] then Inl (ValueError message) else Inr ())"

fun payload_post_init ::
  "(bytes \<Rightarrow> pystr) \<Rightarrow> (pystr \<Rightarrow> json result) \<Rightarrow> live_payload \<Rightarrow> unit result"
where
  "payload_post_init sha loads (TextStartPayload block_identity) =
     require_identity [Some block_identity]"
| "payload_post_init sha loads (TextDeltaPayload block_identity delta) =
     and_then (require_identity [Some block_identity]) (require_nonempty delta ''text delta is empty'')"
| "payload_post_init sha loads (TextEndPayload block_identity final_text utf8 digest) =
     and_then (require_identity [Some block_identity]) (validate_frozen_text sha final_text utf8 digest)"
| "payload_post_init sha loads (ThinkingStartPayload block_identity kind) =
     require_identity [Some block_identity]"
| "payload_post_init sha loads (ThinkingDeltaPayload block_identity delta) =
     and_then (require_identity [Some block_identity])
       (require_nonempty delta ''thinking delta is empty'')"
| "payload_post_init sha loads (ThinkingEndPayload block_identity final_text utf8 digest) =
     and_then (require_identity [Some block_identity]) (validate_frozen_text sha final_text utf8 digest)"
| "payload_post_init sha loads (DataStartPayload block_identity media_type) =
     require_identity [Some block_identity, Some media_type]"
| "payload_post_init sha loads (DataDeltaPayload block_identity dat) =
     and_then (require_identity [Some block_identity]) (require_nonempty dat ''data delta is empty'')"
| "payload_post_init sha loads (DataEndPayload block_identity media_type final_data utf8 digest) =
     and_then (require_identity [Some block_identity, Some media_type])
       (validate_frozen_text sha final_data utf8 digest)"
| "payload_post_init sha loads (ToolCallStartPayload block_identity tool_call_id tool_name) =
     require_identity [Some block_identity, Some tool_call_id, Some tool_name]"
| "payload_post_init sha loads (ToolCallDeltaPayload block_identity tool_call_id delta) =
     and_then (require_identity [Some block_identity, Some tool_call_id])
       (require_nonempty delta ''tool-call delta is empty'')"
| "payload_post_init sha loads
     (ToolCallEndPayload block_identity tool_call_id tool_name arguments_json utf8 digest) =
     and_then (require_identity [Some block_identity, Some tool_call_id, Some tool_name])
       (and_then (validate_frozen_text sha arguments_json utf8 digest)
          (case loads (if arguments_json = [] then lit ''{}'' else arguments_json) of
             Inl e \<Rightarrow> Inl e
           | Inr (JObj _) \<Rightarrow> Inr ()
           | Inr _ \<Rightarrow> Inl (ValueError ''tool-call terminal arguments are not an object'')))"
| "payload_post_init sha loads
     (ToolResultStartPayload block_identity tool_call_id attempt_id assistant_entry_id
        invocation_id source_exec_attempt_id) =
     and_then (require_identity [Some block_identity, Some tool_call_id, Some attempt_id])
       (if assistant_entry_id = None then require_identity [invocation_id, source_exec_attempt_id]
        else if source_exec_attempt_id \<noteq> None
        then Inl (ValueError ''model tool result cannot have a code source'') else Inr ())"
| "payload_post_init sha loads (ToolResultDeltaPayload block_identity txt) =
     and_then (require_identity [Some block_identity])
       (require_nonempty txt ''tool-result delta is empty'')"
| "payload_post_init sha loads
     (ToolResultEndPayload block_identity result_state final_text utf8 digest) =
     and_then (require_identity [Some block_identity, Some result_state])
       (validate_frozen_text sha final_text utf8 digest)"
| "payload_post_init sha loads
     (InteractionOpenedPayload interaction_id interaction_kind public_prompt options expires) =
     require_identity
       [Some interaction_id, Some interaction_kind, Some public_prompt, Some expires]"
| "payload_post_init sha loads
     (InteractionReplacedPayload replaced interaction_id interaction_kind public_prompt options
        expires) =
     require_identity
       [Some replaced, Some interaction_id, Some interaction_kind, Some public_prompt, Some expires]"
| "payload_post_init sha loads (InteractionClosedPayload interaction_id reason) =
     require_identity [Some interaction_id, Some reason]"
| "payload_post_init sha loads
     (TerminalProcessCompletedPayload process_id status exit_code output_bytes output_digest) =
     and_then (require_identity [Some process_id, Some status, Some output_digest])
       (if output_bytes < 0 then Inl (ValueError ''terminal output byte count is negative'')
        else Inr ())"
| "payload_post_init sha loads (CurrentWorkSnapshotUpdatedPayload root_run_id media) =
     require_identity [Some root_run_id]"

section \<open>Serialised form\<close>

definition jopt :: "pystr option \<Rightarrow> json" where
  "jopt v = (case v of None \<Rightarrow> JNull | Some t \<Rightarrow> JStr t)"

fun payload_items :: "live_payload \<Rightarrow> (string \<times> json) list" where
  "payload_items (TextStartPayload b) = [(''block_identity'', JStr b)]"
| "payload_items (TextDeltaPayload b d) = [(''block_identity'', JStr b), (''delta'', JStr d)]"
| "payload_items (TextEndPayload b t n h) =
     [(''block_identity'', JStr b), (''final_text'', JStr t), (''utf8_bytes'', JInt n),
      (''digest'', JStr h)]"
| "payload_items (ThinkingStartPayload b k) =
     [(''block_identity'', JStr b),
      (''presentation_kind'', JStr (case k of FULL \<Rightarrow> lit ''FULL'' | SUMMARY \<Rightarrow> lit ''SUMMARY''))]"
| "payload_items (ThinkingDeltaPayload b d) = [(''block_identity'', JStr b), (''delta'', JStr d)]"
| "payload_items (ThinkingEndPayload b t n h) =
     [(''block_identity'', JStr b), (''final_text'', JStr t), (''utf8_bytes'', JInt n),
      (''digest'', JStr h)]"
| "payload_items (DataStartPayload b m) = [(''block_identity'', JStr b), (''media_type'', JStr m)]"
| "payload_items (DataDeltaPayload b d) = [(''block_identity'', JStr b), (''data'', JStr d)]"
| "payload_items (DataEndPayload b m d n h) =
     [(''block_identity'', JStr b), (''media_type'', JStr m), (''final_data'', JStr d),
      (''utf8_bytes'', JInt n), (''digest'', JStr h)]"
| "payload_items (ToolCallStartPayload b i t) =
     [(''block_identity'', JStr b), (''tool_call_id'', JStr i), (''tool_name'', JStr t)]"
| "payload_items (ToolCallDeltaPayload b i d) =
     [(''block_identity'', JStr b), (''tool_call_id'', JStr i), (''delta'', JStr d)]"
| "payload_items (ToolCallEndPayload b i t a n h) =
     [(''block_identity'', JStr b), (''tool_call_id'', JStr i), (''tool_name'', JStr t),
      (''arguments_json'', JStr a), (''utf8_bytes'', JInt n), (''digest'', JStr h)]"
| "payload_items (ToolResultStartPayload b i a e v s) =
     [(''block_identity'', JStr b), (''tool_call_id'', JStr i), (''attempt_id'', JStr a),
      (''assistant_entry_id'', jopt e), (''invocation_id'', jopt v),
      (''source_exec_attempt_id'', jopt s)]"
| "payload_items (ToolResultDeltaPayload b t) = [(''block_identity'', JStr b), (''text'', JStr t)]"
| "payload_items (ToolResultEndPayload b r t n h) =
     [(''block_identity'', JStr b), (''result_state'', JStr r), (''final_text'', JStr t),
      (''utf8_bytes'', JInt n), (''digest'', JStr h)]"
| "payload_items (InteractionOpenedPayload i k p os x) =
     [(''interaction_id'', JStr i), (''interaction_kind'', JStr k), (''public_prompt'', JStr p),
      (''public_options'', JList (map JStr os)), (''expires_at_utc'', JStr x)]"
| "payload_items (InteractionReplacedPayload r i k p os x) =
     [(''replaced_interaction_id'', JStr r), (''interaction_id'', JStr i),
      (''interaction_kind'', JStr k), (''public_prompt'', JStr p),
      (''public_options'', JList (map JStr os)), (''expires_at_utc'', JStr x)]"
| "payload_items (InteractionClosedPayload i r) =
     [(''interaction_id'', JStr i), (''reason'', JStr r)]"
| "payload_items (TerminalProcessCompletedPayload p s c n h) =
     [(''process_id'', JStr p), (''status'', JStr s),
      (''exit_code'', (case c of None \<Rightarrow> JNull | Some v \<Rightarrow> JInt v)),
      (''output_utf8_bytes'', JInt n), (''output_digest'', JStr h)]"
| "payload_items (CurrentWorkSnapshotUpdatedPayload r m) =
     [(''root_run_id'', JStr r), (''media_read_attempt_id'', jopt m)]"

text \<open>\<open>payload_to_mapping\<close> as the value that is dumped.\<close>

definition payload_to_mapping :: "live_payload \<Rightarrow> json" where
  "payload_to_mapping p = JObj (map (\<lambda>(k, v). (lit k, v)) (payload_items p))"

text \<open>\<open>str(mapping.get("block_identity") or "")\<close>\<close>

definition payload_block_identity :: "live_payload \<Rightarrow> pystr" where
  "payload_block_identity p =
     (case map_of (payload_items p) ''block_identity'' of Some (JStr b) \<Rightarrow> b | _ \<Rightarrow> [])"

fun is_provider_stream_payload :: "live_payload \<Rightarrow> bool" where
  "is_provider_stream_payload p \<longleftrightarrow>
     payload_event p \<in> {TEXT_START, TEXT_DELTA, TEXT_END, THINKING_START, THINKING_DELTA,
       THINKING_END, DATA_START, DATA_DELTA, DATA_END, TOOL_CALL_START, TOOL_CALL_DELTA,
       TOOL_CALL_END}"

lemma payload_json_finite [simp]: "json_finite (payload_to_mapping p)"
  by (cases p) (auto simp: payload_to_mapping_def jopt_def split: option.splits)

end
