(* ===== verification/Live_Bus.thy ===== *)
theory Live_Bus
  imports Cursor_Log Limits Identity Live_Payload "HOL-Library.Multiset"
begin

text \<open>
  The live event bus (\<open>conversation_kernel/live.py\<close>): producers offer events and generation
  settlements without blocking, the bus keeps a bounded ring of the current generation, and
  observers read it with their own cursor. A delivery that cannot be kept starts a new
  generation, which every attached observer sees as a gap.
\<close>

section \<open>Values\<close>

datatype live_observation_kind = EVENTS | GAP | DETACHED

datatype live_settlement_kind = COMMITTED | ABORTED

datatype live_channel_kind = MODEL_OUTPUT | TOOL_RESULT | TERMINAL_EXTENSION

datatype live_block_kind =
    BLOCK_TEXT | BLOCK_THINKING | BLOCK_DATA | BLOCK_TOOL_CALL | BLOCK_TOOL_RESULT
  | BLOCK_OPERATIONAL

record live_agent_event =
  lae_generation :: int
  lae_revision :: int
  lae_event_type :: live_event_type
  lae_session_id :: pystr
  lae_turn_id :: pystr
  lae_draft_identity :: pystr
  lae_payload :: live_payload
  lae_scope_kind :: pystr
  lae_channel_kind :: live_channel_kind
  lae_channel_tool_call_id :: "pystr option"
  lae_channel_attempt_id :: "pystr option"
  lae_generation_id :: pystr
  lae_proposed_entry_id :: "pystr option"
  lae_block_id :: pystr
  lae_block_ordinal :: int
  lae_block_kind :: live_block_kind

record live_generation_settlement =
  lgs_generation :: int
  lgs_revision :: int
  lgs_kind :: live_settlement_kind
  lgs_session_id :: pystr
  lgs_turn_id :: pystr
  lgs_draft_identity :: pystr
  lgs_committed_entry_id :: "pystr option"
  lgs_reason_code :: "pystr option"
  lgs_scope_kind :: pystr
  lgs_channel_kind :: live_channel_kind
  lgs_channel_tool_call_id :: "pystr option"
  lgs_channel_attempt_id :: "pystr option"
  lgs_generation_id :: pystr
  lgs_proposed_entry_id :: "pystr option"

text \<open>An item of the ring is one of the two; both carry a revision.\<close>

datatype delivery = Event live_agent_event | Settlement live_generation_settlement

fun delivery_revision :: "delivery \<Rightarrow> int" where
  "delivery_revision (Event e) = lae_revision e"
| "delivery_revision (Settlement g) = lgs_revision g"

fun delivery_generation :: "delivery \<Rightarrow> int" where
  "delivery_generation (Event e) = lae_generation e"
| "delivery_generation (Settlement g) = lgs_generation g"

fun delivery_events :: "delivery list \<Rightarrow> live_agent_event list" where
  "delivery_events [] = []"
| "delivery_events (Event e # ds) = e # delivery_events ds"
| "delivery_events (Settlement g # ds) = delivery_events ds"

fun delivery_settlements :: "delivery list \<Rightarrow> live_generation_settlement list" where
  "delivery_settlements [] = []"
| "delivery_settlements (Event e # ds) = delivery_settlements ds"
| "delivery_settlements (Settlement g # ds) = g # delivery_settlements ds"

record live_observation =
  lob_kind :: live_observation_kind
  lob_generation :: int
  lob_after_revision :: int
  lob_latest_revision :: int
  lob_events :: "live_agent_event list"
  lob_settlements :: "live_generation_settlement list"

record live_snapshot =
  lsn_generation :: int
  lsn_retained_from_revision :: int
  lsn_through_revision :: int
  lsn_events :: "live_agent_event list"
  lsn_settlements :: "live_generation_settlement list"
  lsn_truncated_before :: bool

record live_observer =
  lo_generation :: int
  lo_detached :: bool

text \<open>\<open>bus_tap\<close>: whether an extension tap is bound. The tap itself is a caller's function.\<close>

record live_bus =
  bus_maximum_events :: int
  bus_maximum_payload_bytes :: int
  bus_generation :: int
  bus_revision :: int
  bus_ring :: "(delivery \<times> int) list"
  bus_ring_bytes :: int
  bus_observers :: "(pystr \<times> live_observer) list"
  bus_closed :: bool
  bus_tap :: bool

text \<open>The keyword arguments of the two offers; the defaults are the callers' to fill in.\<close>

record live_channel =
  lch_draft_identity :: pystr
  lch_scope_kind :: pystr
  lch_channel_kind :: live_channel_kind
  lch_channel_tool_call_id :: "pystr option"
  lch_channel_attempt_id :: "pystr option"
  lch_generation_id :: "pystr option"
  lch_proposed_entry_id :: "pystr option"

record live_offer =
  lof_event_type :: live_event_type
  lof_session_id :: pystr
  lof_turn_id :: pystr
  lof_payload :: live_payload
  lof_block_id :: "pystr option"
  lof_block_ordinal :: int
  lof_block_kind :: "live_block_kind option"

record settlement_offer =
  sof_kind :: live_settlement_kind
  sof_session_id :: pystr
  sof_turn_id :: pystr
  sof_committed_entry_id :: "pystr option"
  sof_reason_code :: "pystr option"

section \<open>Validation of an offer\<close>

definition removesuffix :: "string \<Rightarrow> string \<Rightarrow> string" where
  "removesuffix sfx s = (if suffix sfx s then take (length s - length sfx) s else s)"

definition block_kind_table :: "(string \<times> live_block_kind) list" where
  "block_kind_table =
    [(''Text'', BLOCK_TEXT), (''Thinking'', BLOCK_THINKING), (''Data'', BLOCK_DATA),
     (''ToolCall'', BLOCK_TOOL_CALL), (''ToolResult'', BLOCK_TOOL_RESULT),
     (''TerminalProcessCompleted'', BLOCK_OPERATIONAL),
     (''CurrentWorkSnapshotUpdated'', BLOCK_OPERATIONAL),
     (''InteractionOpened'', BLOCK_OPERATIONAL), (''InteractionReplaced'', BLOCK_OPERATIONAL),
     (''InteractionClosed'', BLOCK_OPERATIONAL)]"

definition block_kind :: "live_event_type \<Rightarrow> live_block_kind result" where
  "block_kind event_type =
     (let prefix = removesuffix ''End'' (removesuffix ''Delta''
            (removesuffix ''Start'' (live_event_value event_type)))
      in case map_of block_kind_table prefix of
           None \<Rightarrow> Inl (KeyError (lit prefix))
         | Some kind \<Rightarrow> Inr kind)"

definition validate_live_channel ::
  "pystr \<Rightarrow> pystr \<Rightarrow> live_channel_kind \<Rightarrow> pystr option \<Rightarrow> pystr option \<Rightarrow> pystr \<Rightarrow> pystr option \<Rightarrow>
   unit result"
where
  "validate_live_channel draft_identity scope_kind channel_kind channel_tool_call_id
     channel_attempt_id generation_id proposed_entry_id =
     (if draft_identity = [] \<or> generation_id = []
      then Inl (ValueError ''live generation identity is incomplete'')
      else if scope_kind \<notin> {lit ''ROOT'', lit ''SUBAGENT''}
      then Inl (ValueError ''live conversation scope is unknown'')
      else if (case channel_kind of
                 MODEL_OUTPUT \<Rightarrow>
                   proposed_entry_id = Some draft_identity \<and> channel_tool_call_id = None
                   \<and> channel_attempt_id = None
               | TOOL_RESULT \<Rightarrow>
                   proposed_entry_id = Some draft_identity
                   \<and> channel_tool_call_id \<notin> {None, Some []} \<and> channel_attempt_id \<notin> {None, Some []}
               | TERMINAL_EXTENSION \<Rightarrow>
                   proposed_entry_id = None \<and> channel_tool_call_id = None
                   \<and> channel_attempt_id = None)
      then Inr ()
      else Inl (ValueError ''live channel identity union is invalid''))"

definition validate_live_identity ::
  "live_event_type \<Rightarrow> unit result \<Rightarrow> pystr \<Rightarrow> int \<Rightarrow> live_block_kind \<Rightarrow> unit result"
where
  "validate_live_identity event_type channel block_id block_ordinal bkind =
     (case channel of
        Inl e \<Rightarrow> Inl e
      | Inr _ \<Rightarrow>
          if block_id = [] \<or> block_ordinal < 0
          then Inl (ValueError ''live block identity is invalid'')
          else (case block_kind event_type of
                  Inl e \<Rightarrow> Inl e
                | Inr expected \<Rightarrow>
                    if bkind \<noteq> expected then Inl (ValueError ''live block identity is invalid'')
                    else Inr ()))"

text \<open>\<open>proposed_entry_id\<close> and \<open>generation_id\<close> as both offers resolve them.\<close>

definition resolve_proposed :: "live_channel \<Rightarrow> pystr option" where
  "resolve_proposed c =
     (if lch_proposed_entry_id c = None \<and> lch_channel_kind c \<in> {MODEL_OUTPUT, TOOL_RESULT}
      then Some (lch_draft_identity c) else lch_proposed_entry_id c)"

definition resolve_generation :: "(bytes \<Rightarrow> bytes) \<Rightarrow> live_channel \<Rightarrow> pystr result" where
  "resolve_generation sha c =
     (case lch_generation_id c of
        Some g \<Rightarrow> if g \<noteq> [] then Inr g
                  else derive_id sha (lit ''generation'') (lit ''draft'') [lch_draft_identity c]
      | None \<Rightarrow> derive_id sha (lit ''generation'') (lit ''draft'') [lch_draft_identity c])"

definition validate_channel_of :: "live_channel \<Rightarrow> pystr \<Rightarrow> unit result" where
  "validate_channel_of c generation_id =
     validate_live_channel (lch_draft_identity c) (lch_scope_kind c) (lch_channel_kind c)
       (lch_channel_tool_call_id c) (lch_channel_attempt_id c) generation_id (resolve_proposed c)"

section \<open>Operations\<close>

definition bus_init :: "int \<Rightarrow> int \<Rightarrow> live_bus result" where
  "bus_init maximum_events maximum_payload_bytes =
     (if maximum_events < 1 \<or> maximum_payload_bytes < 1
      then Inl (ValueError ''live bus limits must be finite and positive'')
      else Inr \<lparr>bus_maximum_events = maximum_events,
                bus_maximum_payload_bytes = maximum_payload_bytes, bus_generation = 1,
                bus_revision = 0, bus_ring = [], bus_ring_bytes = 0, bus_observers = [],
                bus_closed = False, bus_tap = False\<rparr>)"

definition current_cut :: "live_bus \<Rightarrow> int \<times> int" where
  "current_cut s = (bus_generation s, bus_revision s)"

definition bind_extension_tap :: "live_bus \<Rightarrow> live_bus result" where
  "bind_extension_tap s =
     (if bus_tap s then Inl (RuntimeError ''live extension tap is already bound'')
      else if bus_revision s \<noteq> 0
      then Inl (RuntimeError ''live extension tap must bind before first offer'')
      else Inr (s\<lparr>bus_tap := True\<rparr>))"

text \<open>\<open>_invalidate_generation_nowait\<close>: observers stay attached to the generation they joined.\<close>

definition invalidate_generation :: "live_bus \<Rightarrow> live_bus" where
  "invalidate_generation s =
     (if bus_closed s then s
      else s\<lparr>bus_generation := bus_generation s + 1, bus_revision := 0, bus_ring := [],
             bus_ring_bytes := 0\<rparr>)"

definition bus_push :: "delivery \<Rightarrow> int \<Rightarrow> live_bus \<Rightarrow> live_bus" where
  "bus_push d payload_bytes s =
     (let trimmed = trim_ring (bus_maximum_events s) (bus_maximum_payload_bytes s)
                      (bus_ring s @ [(d, payload_bytes)]) (bus_ring_bytes s + payload_bytes)
      in s\<lparr>bus_revision := bus_revision s + 1, bus_ring := fst trimmed,
            bus_ring_bytes := snd trimmed\<rparr>)"

text \<open>
  \<open>offer_nowait\<close>: the answer is the published event, or \<open>None\<close> when the offer is dropped;
  when a tap is bound it is then called with exactly that event and whatever it raises is
  discarded. Everything before the lock, the validation included, runs unconditionally.
\<close>

definition offer_nowait ::
  "(bytes \<Rightarrow> bytes) \<Rightarrow> live_channel \<Rightarrow> live_offer \<Rightarrow> live_bus \<Rightarrow>
   (live_agent_event option \<times> live_bus) result"
where
  "offer_nowait sha c r s =
     (case resolve_generation sha c of
        Inl e \<Rightarrow> Inl e
      | Inr generation_id \<Rightarrow>
          if payload_event (lof_payload r) \<noteq> lof_event_type r
          then Inl (TypeError ''live payload does not match its event type'')
          else
            let payload_mapping = payload_to_mapping (lof_payload r);
                block_id = (case lof_block_id r of
                    Some b \<Rightarrow> if b \<noteq> [] then b else payload_block_identity (lof_payload r)
                  | None \<Rightarrow> payload_block_identity (lof_payload r))
            in case (case lof_block_kind r of Some k \<Rightarrow> Inr k | None \<Rightarrow> block_kind (lof_event_type r)) of
                 Inl e \<Rightarrow> Inl e
               | Inr bkind \<Rightarrow>
                   (case validate_live_identity (lof_event_type r)
                           (validate_channel_of c generation_id) block_id (lof_block_ordinal r)
                           bkind of
                      Inl e \<Rightarrow> Inl e
                    | Inr _ \<Rightarrow>
                        (case json_dumps True payload_mapping of
                           Inl _ \<Rightarrow> Inr (None, invalidate_generation s)
                         | Inr dumped \<Rightarrow>
                             (case utf8_encode dumped of
                                Inl _ \<Rightarrow> Inr (None, invalidate_generation s)
                              | Inr encoded \<Rightarrow>
                                  let payload_bytes = int (length encoded) in
                                  if payload_bytes > bus_maximum_payload_bytes s
                                  then Inr (None, invalidate_generation s)
                                  else if bus_closed s then Inr (None, s)
                                  else
                                    let event = \<lparr>lae_generation = bus_generation s,
                                          lae_revision = bus_revision s + 1,
                                          lae_event_type = lof_event_type r,
                                          lae_session_id = lof_session_id r,
                                          lae_turn_id = lof_turn_id r,
                                          lae_draft_identity = lch_draft_identity c,
                                          lae_payload = lof_payload r,
                                          lae_scope_kind = lch_scope_kind c,
                                          lae_channel_kind = lch_channel_kind c,
                                          lae_channel_tool_call_id = lch_channel_tool_call_id c,
                                          lae_channel_attempt_id = lch_channel_attempt_id c,
                                          lae_generation_id = generation_id,
                                          lae_proposed_entry_id = resolve_proposed c,
                                          lae_block_id = block_id,
                                          lae_block_ordinal = lof_block_ordinal r,
                                          lae_block_kind = bkind\<rparr>
                                    in Inr (Some event, bus_push (Event event) payload_bytes s)))))"

text \<open>The events the bound tap is called with by one offer.\<close>

definition tapped :: "live_bus \<Rightarrow> live_agent_event option \<Rightarrow> live_agent_event list" where
  "tapped s e = (case e of Some v \<Rightarrow> if bus_tap s then [v] else [] | None \<Rightarrow> [])"

definition offer_settlement_nowait ::
  "(bytes \<Rightarrow> bytes) \<Rightarrow> live_channel \<Rightarrow> settlement_offer \<Rightarrow> live_bus \<Rightarrow>
   (live_generation_settlement option \<times> live_bus) result"
where
  "offer_settlement_nowait sha c r s =
     (if (sof_kind r = COMMITTED) \<noteq> (sof_committed_entry_id r \<noteq> None)
      then Inl (ValueError ''live settlement committed-entry union is invalid'')
      else if (sof_kind r = ABORTED) \<noteq> (sof_reason_code r \<noteq> None)
      then Inl (ValueError ''live settlement reason union is invalid'')
      else case resolve_generation sha c of
             Inl e \<Rightarrow> Inl e
           | Inr generation_id \<Rightarrow>
               (case validate_channel_of c generation_id of
                  Inl e \<Rightarrow> Inl e
                | Inr _ \<Rightarrow>
                    (case utf8_total [sof_session_id r, sof_turn_id r, lch_draft_identity c,
                            (case sof_committed_entry_id r of None \<Rightarrow> [] | Some v \<Rightarrow> v),
                            (case sof_reason_code r of None \<Rightarrow> [] | Some v \<Rightarrow> v)] of
                       Inl e \<Rightarrow> Inl e
                     | Inr payload_bytes \<Rightarrow>
                         if payload_bytes > bus_maximum_payload_bytes s
                         then Inr (None, invalidate_generation s)
                         else if bus_closed s then Inr (None, s)
                         else
                           let settlement = \<lparr>lgs_generation = bus_generation s,
                                 lgs_revision = bus_revision s + 1, lgs_kind = sof_kind r,
                                 lgs_session_id = sof_session_id r, lgs_turn_id = sof_turn_id r,
                                 lgs_draft_identity = lch_draft_identity c,
                                 lgs_committed_entry_id = sof_committed_entry_id r,
                                 lgs_reason_code = sof_reason_code r,
                                 lgs_scope_kind = lch_scope_kind c,
                                 lgs_channel_kind = lch_channel_kind c,
                                 lgs_channel_tool_call_id = lch_channel_tool_call_id c,
                                 lgs_channel_attempt_id = lch_channel_attempt_id c,
                                 lgs_generation_id = generation_id,
                                 lgs_proposed_entry_id = resolve_proposed c\<rparr>
                           in Inr (Some settlement, bus_push (Settlement settlement) payload_bytes s))))"

text \<open>
  The loop of \<open>subscribe_with_snapshot\<close> over the reversed ring: \<open>acc\<close> is
  \<open>retained_reversed\<close>, already turned round.
\<close>

fun retain_suffix :: "int \<Rightarrow> int \<Rightarrow> (delivery \<times> int) list \<Rightarrow> delivery list \<Rightarrow> int \<Rightarrow> delivery list" where
  "retain_suffix maxe maxb [] acc b = acc"
| "retain_suffix maxe maxb ((item, n) # items) acc b =
     (if int (length acc) \<ge> maxe then acc
      else if acc \<noteq> [] \<and> b + n > maxb then acc
      else if acc = [] \<and> n > maxb then acc
      else retain_suffix maxe maxb items (item # acc) (b + n))"

definition bus_snapshot :: "int \<Rightarrow> int \<Rightarrow> live_bus \<Rightarrow> live_snapshot" where
  "bus_snapshot maxe maxb s =
     (let retained = retain_suffix maxe maxb (rev (bus_ring s)) [] 0;
          first_revision = (if retained \<noteq> [] then delivery_revision (hd retained)
                            else bus_revision s + 1)
      in \<lparr>lsn_generation = bus_generation s, lsn_retained_from_revision = first_revision,
          lsn_through_revision = bus_revision s, lsn_events = delivery_events retained,
          lsn_settlements = delivery_settlements retained,
          lsn_truncated_before = (bus_revision s > 0 \<and> (retained = [] \<or> first_revision > 1))\<rparr>)"

definition subscribe_with_snapshot ::
  "pystr list \<Rightarrow> int \<Rightarrow> int \<Rightarrow> live_bus \<Rightarrow> (pystr \<times> live_snapshot \<times> live_bus) result option"
where
  "subscribe_with_snapshot draws maximum_events maximum_bytes s =
     (let maxe = (if maximum_events = 0 then stage2_limit ''live_snapshot_hard_events''
                  else maximum_events);
          maxb = (if maximum_bytes = 0 then stage2_limit ''live_snapshot_hard_bytes''
                  else maximum_bytes)
      in if \<not> (1 \<le> maxe \<and> maxe \<le> stage2_limit ''live_snapshot_hard_events'')
         then Some (Inl (ValueError ''live snapshot event bound is invalid''))
         else if \<not> (1 \<le> maxb \<and> maxb \<le> stage2_limit ''live_snapshot_hard_bytes'')
         then Some (Inl (ValueError ''live snapshot byte bound is invalid''))
         else if bus_closed s then Some (Inl (RuntimeError ''live bus is closed''))
         else if int (length (bus_observers s)) \<ge> stage2_limit ''live_observer_hard_count''
         then Some (Inl (RuntimeError ''live observer capacity is exhausted''))
         else case draw_fresh (map fst (bus_observers s)) draws of
                None \<Rightarrow> None
              | Some observer_id \<Rightarrow>
                  Some (Inr (observer_id, bus_snapshot maxe maxb s,
                    s\<lparr>bus_observers := AList.update observer_id
                        \<lparr>lo_generation = bus_generation s, lo_detached = False\<rparr>
                        (bus_observers s)\<rparr>)))"

definition bus_subscribe ::
  "pystr list \<Rightarrow> live_bus \<Rightarrow> (pystr \<times> int \<times> int \<times> live_bus) result option"
where
  "bus_subscribe draws s =
     map_option (map_sum id (\<lambda>(observer_id, snapshot, s').
        (observer_id, lsn_generation snapshot, lsn_through_revision snapshot, s')))
       (subscribe_with_snapshot draws 0 (stage2_limit ''live_snapshot_default_bytes'') s)"

definition bus_gap :: "int \<Rightarrow> live_bus \<Rightarrow> live_observation" where
  "bus_gap after_revision s =
     \<lparr>lob_kind = GAP, lob_generation = bus_generation s, lob_after_revision = after_revision,
      lob_latest_revision = bus_revision s, lob_events = [], lob_settlements = []\<rparr>"

definition bus_detached :: "live_bus \<Rightarrow> live_observation" where
  "bus_detached s =
     \<lparr>lob_kind = DETACHED, lob_generation = bus_generation s, lob_after_revision = 0,
      lob_latest_revision = bus_revision s, lob_events = [], lob_settlements = []\<rparr>"

definition bus_observe :: "pystr \<Rightarrow> int \<Rightarrow> int \<Rightarrow> live_bus \<Rightarrow> live_observation result" where
  "bus_observe observer_id after_revision maximum_events s =
     (if maximum_events < 1 then Inl (ValueError ''observation bound must be positive'')
      else if after_revision < 0
      then Inl (ValueError ''live observation cursor must be non-negative'')
      else case map_of (bus_observers s) observer_id of
             None \<Rightarrow> Inr (bus_detached s)
           | Some observer \<Rightarrow>
               if lo_detached observer \<or> bus_closed s then Inr (bus_detached s)
               else if lo_generation observer \<noteq> bus_generation s
               then Inr (bus_gap after_revision s)
               else
                 let oldest = (if bus_ring s \<noteq> [] then delivery_revision (fst (hd (bus_ring s)))
                               else bus_revision s + 1)
                 in if after_revision > bus_revision s \<or> after_revision + 1 < oldest
                    then Inr (bus_gap after_revision s)
                    else
                      let deliveries = take (nat maximum_events)
                            (filter (\<lambda>delivery. after_revision < delivery_revision delivery)
                               (map fst (bus_ring s)))
                      in Inr \<lparr>lob_kind = EVENTS, lob_generation = bus_generation s,
                              lob_after_revision = after_revision,
                              lob_latest_revision =
                                (if deliveries \<noteq> [] then delivery_revision (last deliveries)
                                 else after_revision),
                              lob_events = delivery_events deliveries,
                              lob_settlements = delivery_settlements deliveries\<rparr>)"

text \<open>
  \<open>detach\<close> removes the observer; the flag it sets is on an object that is out of reach by
  then. \<open>replace_generation\<close> drops every observer, unlike an invalidation.
\<close>

definition bus_detach :: "pystr \<Rightarrow> live_bus \<Rightarrow> live_bus" where
  "bus_detach observer_id s =
     s\<lparr>bus_observers := AList.delete observer_id (bus_observers s)\<rparr>"

definition replace_generation :: "live_bus \<Rightarrow> int \<times> live_bus" where
  "replace_generation s =
     (bus_generation s + 1,
      s\<lparr>bus_generation := bus_generation s + 1, bus_revision := 0, bus_ring := [],
         bus_ring_bytes := 0, bus_observers := []\<rparr>)"

definition bus_close :: "live_bus \<Rightarrow> live_bus" where
  "bus_close s = s\<lparr>bus_closed := True, bus_ring := [], bus_ring_bytes := 0,
                   bus_observers := [], bus_tap := False\<rparr>"

section \<open>Runs and the invariant\<close>

text \<open>
  \<open>bus_run s h\<close>: some sequence of operations leads from a constructed bus to \<open>s\<close>, and \<open>h\<close>
  lists the deliveries published in the current generation.
\<close>

inductive bus_run :: "live_bus \<Rightarrow> delivery list \<Rightarrow> bool" where
  bus_run_init: "bus_init me mb = Inr s \<Longrightarrow> bus_run s []"
| bus_run_tap: "bus_run s h \<Longrightarrow> bind_extension_tap s = Inr s' \<Longrightarrow> bus_run s' h"
| bus_run_offer: "bus_run s h \<Longrightarrow> offer_nowait sha c r s = Inr (Some e, s') \<Longrightarrow>
    bus_run s' (h @ [Event e])"
| bus_run_settlement: "bus_run s h \<Longrightarrow> offer_settlement_nowait sha c q s = Inr (Some g, s') \<Longrightarrow>
    bus_run s' (h @ [Settlement g])"
| bus_run_dropped: "bus_run s h \<Longrightarrow> offer_nowait sha c r s = Inr (None, s') \<Longrightarrow>
    bus_run s' (if bus_closed s then h else [])"
| bus_run_settlement_dropped: "bus_run s h \<Longrightarrow> offer_settlement_nowait sha c q s = Inr (None, s') \<Longrightarrow>
    bus_run s' (if bus_closed s then h else [])"
| bus_run_invalidate: "bus_run s h \<Longrightarrow>
    bus_run (invalidate_generation s) (if bus_closed s then h else [])"
| bus_run_replace: "bus_run s h \<Longrightarrow> replace_generation s = (n, s') \<Longrightarrow> bus_run s' []"
| bus_run_subscribe: "bus_run s h \<Longrightarrow> subscribe_with_snapshot ds me mb s = Some (Inr (i, sn, s')) \<Longrightarrow>
    bus_run s' h"
| bus_run_detach: "bus_run s h \<Longrightarrow> bus_run (bus_detach i s) h"
| bus_run_close: "bus_run s h \<Longrightarrow> bus_run (bus_close s) h"

definition bus_inv :: "live_bus \<Rightarrow> delivery list \<Rightarrow> bool" where
  "bus_inv s h \<longleftrightarrow>
     1 \<le> bus_maximum_events s \<and> 1 \<le> bus_maximum_payload_bytes s \<and> 1 \<le> bus_generation s \<and>
     numbered delivery_revision h \<and> bus_revision s = int (length h) \<and>
     (\<forall>d \<in> set h. delivery_generation d = bus_generation s) \<and>
     distinct (map fst (bus_observers s)) \<and> length (bus_observers s) \<le> 64 \<and>
     (\<forall>p \<in> set (bus_observers s). lo_generation (snd p) \<le> bus_generation s \<and>
        \<not> lo_detached (snd p)) \<and>
     (if bus_closed s
      then bus_ring s = [] \<and> bus_ring_bytes s = 0 \<and> bus_observers s = []
      else ring_holds (bus_ring s) (bus_ring_bytes s) (bus_maximum_events s)
             (bus_maximum_payload_bytes s) h)"

lemma bus_push_fields [simp]:
  "bus_closed (bus_push d n s) = bus_closed s"
  "bus_generation (bus_push d n s) = bus_generation s"
  "bus_observers (bus_push d n s) = bus_observers s"
  "bus_maximum_events (bus_push d n s) = bus_maximum_events s"
  "bus_maximum_payload_bytes (bus_push d n s) = bus_maximum_payload_bytes s"
  "bus_revision (bus_push d n s) = bus_revision s + 1"
  by (simp_all add: bus_push_def Let_def)

lemma bus_push_inv:
  assumes "bus_inv s h" and "\<not> bus_closed s" and "0 \<le> n" and "n \<le> bus_maximum_payload_bytes s"
    and "delivery_revision d = bus_revision s + 1" and "delivery_generation d = bus_generation s"
  shows "bus_inv (bus_push d n s) (h @ [d])"
proof -
  from assms(1,2) have r: "ring_holds (bus_ring s) (bus_ring_bytes s) (bus_maximum_events s)
      (bus_maximum_payload_bytes s) h" and m: "1 \<le> bus_maximum_events s"
    by (auto simp: bus_inv_def)
  have "ring_holds (bus_ring (bus_push d n s)) (bus_ring_bytes (bus_push d n s))
      (bus_maximum_events s) (bus_maximum_payload_bytes s) (h @ [d])"
    using ring_holds_append [OF r assms(3,4) m refl, of d] by (simp add: bus_push_def Let_def)
  moreover have "numbered delivery_revision (h @ [d])"
    using assms by (intro numbered_snoc) (auto simp: bus_inv_def)
  ultimately show ?thesis using assms by (auto simp: bus_inv_def)
qed

lemma bus_inv_invalidate:
  "bus_inv s h \<Longrightarrow> bus_inv (invalidate_generation s) (if bus_closed s then h else [])"
  by (fastforce simp: bus_inv_def invalidate_generation_def)

text \<open>What an accepted and a dropped offer are, shared by the two offers.\<close>

lemma offer_nowait_Some:
  assumes "offer_nowait sha c r s = Inr (Some e, s')"
  shows "\<exists>n. s' = bus_push (Event e) n s \<and> 0 \<le> n \<and> n \<le> bus_maximum_payload_bytes s \<and>
    \<not> bus_closed s \<and> lae_generation e = bus_generation s \<and> lae_revision e = bus_revision s + 1"
  using assms
  by (auto simp: offer_nowait_def Let_def split: sum.splits if_splits)

lemma offer_nowait_None:
  "offer_nowait sha c r s = Inr (None, s') \<Longrightarrow> s' = invalidate_generation s"
  by (auto simp: offer_nowait_def Let_def invalidate_generation_def split: sum.splits if_splits)

lemma offer_settlement_Some:
  assumes "offer_settlement_nowait sha c r s = Inr (Some e, s')"
  shows "\<exists>n. s' = bus_push (Settlement e) n s \<and> 0 \<le> n \<and> n \<le> bus_maximum_payload_bytes s \<and>
    \<not> bus_closed s \<and> lgs_generation e = bus_generation s \<and> lgs_revision e = bus_revision s + 1"
  using assms
  by (auto simp: offer_settlement_nowait_def Let_def split: sum.splits if_splits
      dest: utf8_total_nonneg)

lemma offer_settlement_None:
  "offer_settlement_nowait sha c r s = Inr (None, s') \<Longrightarrow> s' = invalidate_generation s"
  by (auto simp: offer_settlement_nowait_def Let_def invalidate_generation_def
      split: sum.splits if_splits)

lemma bus_inv_subscribe:
  assumes "bus_inv s h" and "subscribe_with_snapshot ds me mb s = Some (Inr (i, sn, s'))"
  shows "bus_inv s' h"
proof -
  from assms(2) have "\<not> bus_closed s" and cap: "length (bus_observers s) < 64"
    and i: "i \<notin> set (map fst (bus_observers s))"
    and s': "s' = s\<lparr>bus_observers := AList.update i
        \<lparr>lo_generation = bus_generation s, lo_detached = False\<rparr> (bus_observers s)\<rparr>"
    using draw_fresh_new [of "map fst (bus_observers s)" ds i]
    by (auto simp: subscribe_with_snapshot_def Let_def split: if_splits option.splits)
  note dict_set_new [OF i, of "\<lparr>lo_generation = bus_generation s, lo_detached = False\<rparr>"]
  with assms(1) cap i \<open>\<not> bus_closed s\<close> show ?thesis by (auto simp: bus_inv_def s')
qed

lemma bus_inv_detach: "bus_inv s h \<Longrightarrow> bus_inv (bus_detach i s) h"
  by (auto simp: bus_inv_def bus_detach_def distinct_delete
      length_delete_le [THEN le_trans] dest: dict_in_delete split: if_splits)

lemma bus_run_inv: "bus_run s h \<Longrightarrow> bus_inv s h"
proof (induction rule: bus_run.induct)
  case (bus_run_tap s h s')
  then show ?case by (fastforce simp: bus_inv_def bind_extension_tap_def split: if_splits)
next
  case (bus_run_offer s h sha c r e s')
  from offer_nowait_Some [OF bus_run_offer.hyps(2)] bus_run_offer.IH
  show ?case by (metis bus_push_inv delivery_generation.simps(1) delivery_revision.simps(1))
next
  case (bus_run_settlement s h sha c q g s')
  from offer_settlement_Some [OF bus_run_settlement.hyps(2)] bus_run_settlement.IH
  show ?case by (metis bus_push_inv delivery_generation.simps(2) delivery_revision.simps(2))
next
  case (bus_run_dropped s h sha c r s')
  then show ?case using offer_nowait_None bus_inv_invalidate by metis
next
  case (bus_run_settlement_dropped s h sha c q s')
  then show ?case using offer_settlement_None bus_inv_invalidate by metis
next
  case (bus_run_replace s h n s')
  then show ?case by (auto simp: bus_inv_def replace_generation_def)
next
  case (bus_run_invalidate s h)
  show ?case by (rule bus_inv_invalidate [OF bus_run_invalidate.IH])
next
  case (bus_run_subscribe s h ds me mb i sn s')
  then show ?case using bus_inv_subscribe by blast
next
  case (bus_run_detach s h i)
  then show ?case using bus_inv_detach by blast
qed (auto simp: bus_inv_def bus_init_def bind_extension_tap_def bus_close_def split: if_splits)

text \<open>Every published delivery has passed the validation of its offer.\<close>

fun delivery_ok :: "delivery \<Rightarrow> bool" where
  "delivery_ok (Event e) \<longleftrightarrow>
     payload_event (lae_payload e) = lae_event_type e \<and>
     block_kind (lae_event_type e) = Inr (lae_block_kind e) \<and>
     lae_block_id e \<noteq> [] \<and> 0 \<le> lae_block_ordinal e \<and>
     validate_live_channel (lae_draft_identity e) (lae_scope_kind e) (lae_channel_kind e)
       (lae_channel_tool_call_id e) (lae_channel_attempt_id e) (lae_generation_id e)
       (lae_proposed_entry_id e) = Inr ()"
| "delivery_ok (Settlement g) \<longleftrightarrow>
     (lgs_kind g = COMMITTED) = (lgs_committed_entry_id g \<noteq> None) \<and>
     (lgs_kind g = ABORTED) = (lgs_reason_code g \<noteq> None) \<and>
     validate_live_channel (lgs_draft_identity g) (lgs_scope_kind g) (lgs_channel_kind g)
       (lgs_channel_tool_call_id g) (lgs_channel_attempt_id g) (lgs_generation_id g)
       (lgs_proposed_entry_id g) = Inr ()"

lemma validate_live_identity_ok:
  assumes "validate_live_identity t ch b n k = Inr ()"
  shows "ch = Inr ()" and "b \<noteq> []" and "0 \<le> n" and "block_kind t = Inr k"
  using assms by (auto simp: validate_live_identity_def split: sum.splits if_splits)

lemma offer_nowait_ok:
  "offer_nowait sha c r s = Inr (Some e, s') \<Longrightarrow> delivery_ok (Event e)"
  by (auto simp: offer_nowait_def Let_def validate_channel_of_def split: sum.splits if_splits
      dest: validate_live_identity_ok)

lemma offer_settlement_ok:
  "offer_settlement_nowait sha c r s = Inr (Some g, s') \<Longrightarrow> delivery_ok (Settlement g)"
  by (auto simp: offer_settlement_nowait_def Let_def validate_channel_of_def
      split: sum.splits if_splits)

lemma bus_run_ok: "bus_run s h \<Longrightarrow> \<forall>d \<in> set h. delivery_ok d"
proof (induction rule: bus_run.induct)
  case (bus_run_offer s h sha c r e s')
  then show ?case using offer_nowait_ok by auto
next
  case (bus_run_settlement s h sha c q g s')
  then show ?case using offer_settlement_ok by auto
qed auto

section \<open>What an observer sees\<close>

text \<open>
  An answer lists events and settlements apart; their revisions put them back in order.
\<close>

definition merge_deliveries ::
  "live_agent_event list \<Rightarrow> live_generation_settlement list \<Rightarrow> delivery list"
where
  "merge_deliveries es gs = sort_key delivery_revision (map Event es @ map Settlement gs)"

lemma mset_split_deliveries:
  "mset (map Event (delivery_events ds) @ map Settlement (delivery_settlements ds)) = mset ds"
  by (induction ds rule: delivery_events.induct) auto

lemma merge_split_deliveries:
  assumes "sorted_wrt (<) (map delivery_revision ds)"
  shows "merge_deliveries (delivery_events ds) (delivery_settlements ds) = ds"
  unfolding merge_deliveries_def
proof (rule sort_key_inj_key_eq)
  show m: "mset (map Event (delivery_events ds) @ map Settlement (delivery_settlements ds)) = mset ds"
    by (rule mset_split_deliveries)
  have "inj_on delivery_revision (set ds)"
    using assms by (metis distinct_map strict_sorted_iff)
  then show "inj_on delivery_revision
      (set (map Event (delivery_events ds) @ map Settlement (delivery_settlements ds)))"
    using mset_eq_setD [OF m] by simp
  show "sorted (map delivery_revision ds)" using assms strict_sorted_iff by blast
qed

lemma numbered_sorted:
  assumes "numbered num h"
  shows "sorted_wrt (<) (map num (take n (drop k h)))"
  using assms by (auto simp: numbered_def sorted_wrt_iff_nth_less)

lemma merge_slice:
  assumes "numbered delivery_revision h" and "ds = take n (drop k h)"
  shows "merge_deliveries (delivery_events ds) (delivery_settlements ds) = ds"
  unfolding assms(2) by (intro merge_split_deliveries numbered_sorted assms(1))

text \<open>The read of the cursor interface: an answer of generation \<open>gen\<close>.\<close>

definition bus_read ::
  "pystr \<Rightarrow> int \<Rightarrow> live_bus \<Rightarrow> int \<Rightarrow> int \<Rightarrow> (delivery list \<times> int) option"
where
  "bus_read i gen s a n =
     (case bus_observe i a n s of
        Inl _ \<Rightarrow> None
      | Inr ob \<Rightarrow>
          if lob_kind ob = EVENTS \<and> lob_generation ob = gen
          then Some (merge_deliveries (lob_events ob) (lob_settlements ob), lob_latest_revision ob)
          else None)"

text \<open>\<open>h\<close> is what generation \<open>gen\<close> has published, as long as it is the current one.\<close>

definition bus_hist :: "int \<Rightarrow> live_bus \<Rightarrow> delivery list \<Rightarrow> bool" where
  "bus_hist gen s h \<longleftrightarrow> (bus_generation s = gen \<longrightarrow> bus_inv s h)"

lemma bus_observe_cases:
  assumes "bus_inv s h" and "0 \<le> a" and "1 \<le> n" and ob: "map_of (bus_observers s) i = Some ob"
    and "\<not> bus_closed s"
  shows "\<exists>k \<le> length h. map fst (bus_ring s) = drop k h \<and>
    bus_observe i a n s =
      (if lo_generation ob = bus_generation s \<and> int k \<le> a \<and> a \<le> int (length h)
       then let ds = take (nat n) (drop (nat a) h)
            in Inr \<lparr>lob_kind = EVENTS, lob_generation = bus_generation s, lob_after_revision = a,
                    lob_latest_revision = a + int (length ds), lob_events = delivery_events ds,
                    lob_settlements = delivery_settlements ds\<rparr>
       else Inr (bus_gap a s))"
proof -
  from assms(1,5) obtain k where k: "k \<le> length h" "map fst (bus_ring s) = drop k h"
    and num: "numbered delivery_revision h" and rv: "bus_revision s = int (length h)"
    by (auto simp: bus_inv_def ring_holds_def)
  from ob have "\<not> lo_detached ob" using assms(1) by (auto simp: bus_inv_def dest!: map_of_SomeD)
  then have "bus_observe i a n s =
      (if lo_generation ob = bus_generation s \<and> int k \<le> a \<and> a \<le> int (length h)
       then let ds = take (nat n) (drop (nat a) h)
            in Inr \<lparr>lob_kind = EVENTS, lob_generation = bus_generation s, lob_after_revision = a,
                    lob_latest_revision = a + int (length ds), lob_events = delivery_events ds,
                    lob_settlements = delivery_settlements ds\<rparr>
       else Inr (bus_gap a s))"
    unfolding bus_observe_def rv ring_oldest [OF k(2,1) num] k(2) Let_def
    using assms(2-5) ring_after [OF num, of k a] ring_through [OF num assms(2), of "nat n"] rv
    by auto
  with k show ?thesis by blast
qed

lemma bus_read_law:
  assumes h: "bus_hist gen s h" and r: "bus_read i gen s a n = Some (es, a')"
  shows "es = take (nat n) (drop (nat a) h) \<and> a' = a + int (length es) \<and> 0 \<le> a \<and>
    a \<le> int (length h)"
proof -
  from r have adm: "0 \<le> a" "1 \<le> n" "\<not> bus_closed s" and "\<exists>ob. map_of (bus_observers s) i = Some ob"
    and gen: "bus_generation s = gen"
    by (auto simp: bus_read_def bus_observe_def bus_detached_def bus_gap_def Let_def
        split: sum.splits if_splits option.splits)
  then obtain ob where ob: "map_of (bus_observers s) i = Some ob" by blast
  from h gen have inv: "bus_inv s h" by (simp add: bus_hist_def)
  then have "numbered delivery_revision h" by (simp add: bus_inv_def)
  from merge_slice [OF this refl] bus_observe_cases [OF inv adm(1,2) ob adm(3)] r adm(1)
  show ?thesis by (auto simp: bus_read_def Let_def bus_gap_def split: if_splits)
qed

interpretation busq: cursor_log "bus_hist gen" "bus_read i gen"
  for i gen
  by unfold_locales (use bus_read_law in blast)+

text \<open>What a subscriber starts from: the newest deliveries within the negotiated bounds.\<close>

lemma retain_suffix_spec:
  assumes "b \<le> maxb" and "acc = [] \<longrightarrow> b = 0" and "int (length acc) \<le> maxe"
  shows "\<exists>j \<le> length xs. retain_suffix maxe maxb xs acc b = rev (map fst (take j xs)) @ acc \<and>
    int (length acc + j) \<le> maxe \<and> b + sum_list (map snd (take j xs)) \<le> maxb"
  using assms
proof (induction maxe maxb xs acc b rule: retain_suffix.induct)
  case (1 maxe maxb acc b)
  then show ?case by simp
next
  case (2 maxe maxb item n items acc b)
  show ?case
  proof (cases "int (length acc) \<ge> maxe \<or> (acc \<noteq> [] \<and> b + n > maxb) \<or> (acc = [] \<and> n > maxb)")
    case True
    with "2.prems" show ?thesis by (intro exI [of _ 0]) auto
  next
    case False
    then have "\<exists>j \<le> length items. retain_suffix maxe maxb items (item # acc) (b + n) =
        rev (map fst (take j items)) @ item # acc \<and> int (length (item # acc) + j) \<le> maxe \<and>
        b + n + sum_list (map snd (take j items)) \<le> maxb"
      using "2.prems" by (intro "2.IH") auto
    then obtain j where "j \<le> length items"
      "retain_suffix maxe maxb items (item # acc) (b + n) = rev (map fst (take j items)) @ item # acc"
      "int (length (item # acc) + j) \<le> maxe" "b + n + sum_list (map snd (take j items)) \<le> maxb"
      by blast
    with False show ?thesis by (intro exI [of _ "Suc j"]) (auto simp: add.assoc)
  qed
qed

lemma retain_suffix_rev:
  assumes "0 \<le> maxe" and "0 \<le> maxb"
  shows "\<exists>j \<le> length r. retain_suffix maxe maxb (rev r) [] 0 = drop j (map fst r) \<and>
    int (length r - j) \<le> maxe \<and> sum_list (map snd (drop j r)) \<le> maxb"
proof -
  from retain_suffix_spec [of 0 maxb "[]" maxe "rev r"] assms obtain j where "j \<le> length r"
    "retain_suffix maxe maxb (rev r) [] 0 = rev (map fst (take j (rev r)))" "int j \<le> maxe"
    "sum_list (map snd (take j (rev r))) \<le> maxb" by auto
  moreover have "take j (rev r) = rev (drop (length r - j) r)" by (simp add: take_rev)
  ultimately show ?thesis
    by (intro exI [of _ "length r - j"])
      (simp add: rev_map [symmetric] drop_map sum_list_rev)
qed

lemma bus_snapshot_spec:
  assumes inv: "bus_inv s h" and "\<not> bus_closed s" and "0 \<le> maxe" and "0 \<le> maxb"
    and sn: "sn = bus_snapshot maxe maxb s"
  shows "\<exists>m \<le> length h.
    merge_deliveries (lsn_events sn) (lsn_settlements sn) = drop m h \<and>
    int (length h - m) \<le> maxe \<and> lsn_generation sn = bus_generation s \<and>
    lsn_retained_from_revision sn = int m + 1 \<and> lsn_through_revision sn = int (length h) \<and>
    (lsn_truncated_before sn \<longleftrightarrow> 0 < m)"
proof -
  from inv assms(2) obtain k where k: "k \<le> length h" "map fst (bus_ring s) = drop k h"
    and num: "numbered delivery_revision h" and rv: "bus_revision s = int (length h)"
    by (auto simp: bus_inv_def ring_holds_def)
  from retain_suffix_rev [OF assms(3,4), of "bus_ring s"] obtain j where
    j: "j \<le> length (bus_ring s)" "int (length (bus_ring s) - j) \<le> maxe" and
    r: "retain_suffix maxe maxb (rev (bus_ring s)) [] 0 = drop (j + k) h"
    by (auto simp: k(2))
  have len: "length (bus_ring s) = length h - k" using k by (metis length_drop length_map)
  then have m: "j + k \<le> length h" using j(1) k(1) by simp
  have first: "(if drop (j + k) h \<noteq> [] then delivery_revision (hd (drop (j + k) h))
      else int (length h) + 1) = int (j + k) + 1"
    using numbered_hd_drop [OF num, of "j + k"] m by auto
  have merge: "merge_deliveries (delivery_events (drop (j + k) h))
      (delivery_settlements (drop (j + k) h)) = drop (j + k) h"
    using merge_slice [OF num, of "drop (j + k) h" "length h" "j + k"] by simp
  show ?thesis
  proof (intro exI [of _ "j + k"] conjI)
    show "int (length h - (j + k)) \<le> maxe" using j len by simp
    show "lsn_truncated_before sn \<longleftrightarrow> 0 < j + k"
      using m first by (auto simp: sn bus_snapshot_def r rv Let_def)
  qed (use m first merge in \<open>auto simp: sn bus_snapshot_def r rv Let_def\<close>)
qed

section \<open>Properties\<close>

text \<open>A bus with one observer and one retained event, for the witnesses.\<close>

definition demo_channel :: live_channel where
  "demo_channel = \<lparr>lch_draft_identity = lit ''d'', lch_scope_kind = lit ''ROOT'',
     lch_channel_kind = MODEL_OUTPUT, lch_channel_tool_call_id = None,
     lch_channel_attempt_id = None, lch_generation_id = Some (lit ''g''),
     lch_proposed_entry_id = None\<rparr>"

definition demo_offer :: "pystr \<Rightarrow> live_offer" where
  "demo_offer b = \<lparr>lof_event_type = TEXT_START, lof_session_id = lit ''s'', lof_turn_id = lit ''t'',
     lof_payload = TextStartPayload b, lof_block_id = None, lof_block_ordinal = 0,
     lof_block_kind = None\<rparr>"

definition demo_event :: live_agent_event where
  "demo_event = \<lparr>lae_generation = 1, lae_revision = 1, lae_event_type = TEXT_START,
     lae_session_id = lit ''s'', lae_turn_id = lit ''t'', lae_draft_identity = lit ''d'',
     lae_payload = TextStartPayload (lit ''b''), lae_scope_kind = lit ''ROOT'',
     lae_channel_kind = MODEL_OUTPUT, lae_channel_tool_call_id = None,
     lae_channel_attempt_id = None, lae_generation_id = lit ''g'',
     lae_proposed_entry_id = Some (lit ''d''), lae_block_id = lit ''b'', lae_block_ordinal = 0,
     lae_block_kind = BLOCK_TEXT\<rparr>"

definition demo_bus :: "bool \<Rightarrow> live_bus" where
  "demo_bus offered = \<lparr>bus_maximum_events = 2, bus_maximum_payload_bytes = 30, bus_generation = 1,
     bus_revision = (if offered then 1 else 0),
     bus_ring = (if offered then [(Event demo_event, 22)] else []),
     bus_ring_bytes = (if offered then 22 else 0),
     bus_observers = [(lit ''u'', \<lparr>lo_generation = 1, lo_detached = False\<rparr>)],
     bus_closed = False, bus_tap = False\<rparr>"

lemma demo_bus_run0: "bus_run (demo_bus False) []"
proof -
  let ?s0 = "demo_bus False\<lparr>bus_observers := []\<rparr>"
  have "bus_init 2 30 = Inr ?s0" by (simp add: bus_init_def demo_bus_def)
  then have 0: "bus_run ?s0 []" by (rule bus_run_init)
  have "subscribe_with_snapshot [lit ''u''] 1 1 ?s0
      = Some (Inr (lit ''u'', bus_snapshot 1 1 ?s0, demo_bus False))"
    by (simp add: subscribe_with_snapshot_def demo_bus_def Let_def)
  with 0 show ?thesis by (rule bus_run_subscribe)
qed

lemma demo_block_kind: "block_kind TEXT_START = Inr BLOCK_TEXT"
  by code_simp

lemma demo_offer_size:
  "json_dumps True (payload_to_mapping (TextStartPayload [98])) =
     Inr ([123, 34] @ lit ''block_identity'' @ [34, 58, 34, 98, 34, 125])"
  by (simp add: json_dumps_def payload_to_mapping_def json_items_def json_string_def json_char_def)

lemma demo_offer_accepted:
  "offer_nowait sha demo_channel (demo_offer (lit ''b'')) (demo_bus False) =
     Inr (Some demo_event, demo_bus True)"
  by (simp add: offer_nowait_def demo_channel_def demo_offer_def demo_bus_def Let_def
      resolve_generation_def payload_block_identity_def demo_block_kind validate_live_identity_def
      validate_channel_of_def validate_live_channel_def resolve_proposed_def demo_offer_size
      utf8_encode_def is_scalar_def utf8_char_def utf8_values_def bus_push_def demo_event_def)

lemma demo_bus_run: "bus_run (demo_bus True) [Event demo_event]"
  using bus_run_offer [OF demo_bus_run0 demo_offer_accepted] by simp

text \<open>
  C31. In every reachable state of the bus its bounds hold: the ring is a suffix of what the
  current generation has published with an exact byte charge within both limits, it retains
  the newest delivery, revisions number the deliveries of the generation from 1, every
  delivery has passed the validation of its offer and carries the current generation, and at
  most 64 observers are attached, none to a later generation.
\<close>

theorem live_bus_invariant: "bus_run s h \<Longrightarrow> bus_inv s h \<and> (\<forall>d \<in> set h. delivery_ok d)"
  by (simp add: bus_run_inv bus_run_ok)

theorem live_bus_invariant_witness:
  "bus_inv (demo_bus True) [Event demo_event] \<and> delivery_ok (Event demo_event)"
  using live_bus_invariant [OF demo_bus_run] by simp

text \<open>
  A read of an attached observer is answered exactly: when the observer joined the
  current generation and the ring still holds everything after its cursor, with the next
  deliveries of the generation in order, and with a gap carrying nothing otherwise.
\<close>

theorem live_bus_observe_exact:
  assumes "bus_run s h" and "\<not> bus_closed s" and "map_of (bus_observers s) i = Some ob"
    and "0 \<le> a" and "1 \<le> n"
  shows "\<exists>k \<le> length h. map fst (bus_ring s) = drop k h \<and>
    bus_observe i a n s =
      (if lo_generation ob = bus_generation s \<and> int k \<le> a \<and> a \<le> int (length h)
       then let ds = take (nat n) (drop (nat a) h)
            in Inr \<lparr>lob_kind = EVENTS, lob_generation = bus_generation s, lob_after_revision = a,
                    lob_latest_revision = a + int (length ds), lob_events = delivery_events ds,
                    lob_settlements = delivery_settlements ds\<rparr>
       else Inr (bus_gap a s))"
  by (rule bus_observe_cases [OF bus_run_inv [OF assms(1)] assms(4,5,3,2)])

theorem live_bus_observe_exact_witness:
  "\<exists>k \<le> length [Event demo_event]. map fst (bus_ring (demo_bus True)) = drop k [Event demo_event] \<and>
    bus_observe (lit ''u'') 0 1 (demo_bus True) =
      (if lo_generation \<lparr>lo_generation = 1, lo_detached = False\<rparr> = bus_generation (demo_bus True) \<and>
          int k \<le> 0 \<and> 0 \<le> int (length [Event demo_event])
       then let ds = take (nat 1) (drop (nat 0) [Event demo_event])
            in Inr \<lparr>lob_kind = EVENTS, lob_generation = bus_generation (demo_bus True),
                    lob_after_revision = 0, lob_latest_revision = 0 + int (length ds),
                    lob_events = delivery_events ds, lob_settlements = delivery_settlements ds\<rparr>
       else Inr (bus_gap 0 (demo_bus True)))"
  by (rule live_bus_observe_exact [OF demo_bus_run]) (simp_all add: demo_bus_def)

text \<open>
  C32. A subscriber that starts from its snapshot and repeats its read from the cursor of the
  previous answer misses nothing: the snapshot's deliveries followed by those of all its
  reads are one contiguous run of the generation's deliveries, starting at the revision the
  snapshot names. The snapshot admits truncation exactly when older deliveries exist.
\<close>

theorem live_bus_snapshot_then_follow:
  assumes "bus_run s h" and "subscribe_with_snapshot ds me mb s = Some (Inr (i, sn, s'))"
    and "grows (bus_hist (bus_generation s)) h ss g"
    and "follow (bus_read i (bus_generation s)) (lsn_through_revision sn) ss = Some (es, b)"
  shows "\<exists>m \<le> length h.
    merge_deliveries (lsn_events sn) (lsn_settlements sn) @ es = drop m (take (nat b) g) \<and>
    lsn_retained_from_revision sn = int m + 1 \<and> (lsn_truncated_before sn \<longleftrightarrow> 0 < m) \<and>
    int (length h) \<le> b \<and> b \<le> int (length g)"
proof -
  define maxe where "maxe = (if me = 0 then stage2_limit ''live_snapshot_hard_events'' else me)"
  define maxb where "maxb = (if mb = 0 then stage2_limit ''live_snapshot_hard_bytes'' else mb)"
  have "\<not> bus_closed s" "0 \<le> maxe" "0 \<le> maxb" "sn = bus_snapshot maxe maxb s"
    using assms(2)
    by (auto simp: subscribe_with_snapshot_def Let_def maxe_def maxb_def
        split: if_splits option.splits)
  then obtain m where m: "m \<le> length h" "lsn_through_revision sn = int (length h)"
    "merge_deliveries (lsn_events sn) (lsn_settlements sn) = drop m h"
    "lsn_retained_from_revision sn = int m + 1" "lsn_truncated_before sn \<longleftrightarrow> 0 < m"
    using bus_snapshot_spec [OF bus_run_inv [OF assms(1)]] by metis
  from busq.follow_lossless [OF assms(3) assms(4) [unfolded m(2)]]
  have es: "es = take (nat (b - int (length h))) (drop (length h) g)" "int (length h) \<le> b"
    "b \<le> int (length g)" by auto
  from grows_prefix [OF assms(3)] obtain t where g: "g = h @ t" by (auto elim: prefixE)
  have "nat (b - int (length h)) = nat b - length h" by simp
  then have "drop m h @ es = drop m (take (nat b) g)" using es m(1) by (simp add: g)
  with m es show ?thesis by auto
qed

theorem live_bus_snapshot_then_follow_witness:
  "\<exists>m \<le> length [Event demo_event].
    merge_deliveries
      (lsn_events (bus_snapshot 1 25 (demo_bus True))) (lsn_settlements (bus_snapshot 1 25 (demo_bus True)))
      @ [] = drop m (take (nat 1) [Event demo_event]) \<and>
    lsn_retained_from_revision (bus_snapshot 1 25 (demo_bus True)) = int m + 1 \<and>
    (lsn_truncated_before (bus_snapshot 1 25 (demo_bus True)) \<longleftrightarrow> 0 < m) \<and>
    int (length [Event demo_event]) \<le> 1 \<and> 1 \<le> int (length [Event demo_event])"
proof -
  let ?s' = "demo_bus True\<lparr>bus_observers :=
      [(lit ''u'', \<lparr>lo_generation = 1, lo_detached = False\<rparr>),
       (lit ''w'', \<lparr>lo_generation = 1, lo_detached = False\<rparr>)]\<rparr>"
  have sub: "subscribe_with_snapshot [lit ''w''] 1 25 (demo_bus True) =
      Some (Inr (lit ''w'', bus_snapshot 1 25 (demo_bus True), ?s'))"
    by (simp add: subscribe_with_snapshot_def demo_bus_def Let_def)
  have g: "grows (bus_hist (bus_generation (demo_bus True))) [Event demo_event] [(?s', 1)]
      [Event demo_event]"
    using bus_inv_subscribe [OF bus_run_inv [OF demo_bus_run] sub] by (auto simp: bus_hist_def)
  have f: "follow (bus_read (lit ''w'') (bus_generation (demo_bus True)))
      (lsn_through_revision (bus_snapshot 1 25 (demo_bus True))) [(?s', 1)] = Some ([], 1)"
    by (simp add: bus_read_def bus_observe_def bus_snapshot_def demo_bus_def demo_event_def
        merge_deliveries_def Let_def)
  show ?thesis by (rule live_bus_snapshot_then_follow [OF demo_bus_run sub g f])
qed

text \<open>
  A dropped delivery is never silent: after an offer the open bus could not keep, every
  observer attached before it is answered with a gap, whatever its cursor.
\<close>

theorem live_bus_drop_is_gap:
  assumes "bus_run s h" and "\<not> bus_closed s" and "map_of (bus_observers s) i = Some ob"
    and "offer_nowait sha c r s = Inr (None, s')" and "0 \<le> a" and "1 \<le> n"
  shows "bus_observe i a n s' = Inr (bus_gap a s')"
proof -
  from assms(3) bus_run_inv [OF assms(1)]
  have "lo_generation ob \<le> bus_generation s" "\<not> lo_detached ob"
    by (auto simp: bus_inv_def dest!: map_of_SomeD)
  with assms(2,3,5,6) show ?thesis
    by (simp add: offer_nowait_None [OF assms(4)] invalidate_generation_def bus_observe_def)
qed

theorem live_bus_drop_is_gap_witness:
  "bus_observe (lit ''u'') 0 1 (invalidate_generation (demo_bus True)) =
     Inr (bus_gap 0 (invalidate_generation (demo_bus True)))"
proof -
  have "offer_nowait (\<lambda>_. []) demo_channel (demo_offer [0xD800]) (demo_bus True) =
      Inr (None, invalidate_generation (demo_bus True))"
    by (simp add: offer_nowait_def demo_channel_def demo_offer_def Let_def
        resolve_generation_def payload_block_identity_def demo_block_kind validate_live_identity_def
        validate_channel_of_def validate_live_channel_def resolve_proposed_def json_dumps_def
        payload_to_mapping_def json_items_def json_string_def json_char_def
        utf8_encode_def is_scalar_def)
  then show ?thesis
    by (intro live_bus_drop_is_gap [OF demo_bus_run]) (simp_all add: demo_bus_def)
qed

end
