(* ===== verification/Chunked.thy ===== *)
theory Chunked
  imports Prelude
begin

text \<open>
  The interface of an incremental stage: a state, and a function that consumes some more of
  the input and returns what can be output by now. Its law says that it does not matter how
  the input is cut into chunks; two stages in a row obey it again.
\<close>

fun run_stage :: "('s \<Rightarrow> 'a \<Rightarrow> 's \<times> 'b list) \<Rightarrow> 's \<Rightarrow> 'a list \<Rightarrow> 's \<times> 'b list" where
  "run_stage step s [] = (s, [])"
| "run_stage step s (x # xs) =
     (let (s1, o1) = step s x; (s2, o2) = run_stage step s1 xs in (s2, o1 @ o2))"

lemma run_stage_append:
  "run_stage step s (xs @ ys) =
     (let (s1, o1) = run_stage step s xs; (s2, o2) = run_stage step s1 ys in (s2, o1 @ o2))"
  by (induction xs arbitrary: s) (auto split: prod.split)

text \<open>An invariant of the state that every step keeps, and what the outputs then satisfy.\<close>

lemma run_stage_inv:
  assumes "run_stage step s xs = (t, out)" and "I s" and "list_all A xs"
    and "\<And>s x s' o'. I s \<Longrightarrow> A x \<Longrightarrow> step s x = (s', o') \<Longrightarrow> I s' \<and> list_all P o'"
  shows "I t \<and> list_all P out"
  using assms(1-3)
proof (induction xs arbitrary: s out)
  case Nil
  then show ?case by simp
next
  case (Cons x xs)
  obtain s1 o1 where 1: "step s x = (s1, o1)" by (cases "step s x")
  with Cons.prems obtain o2 where 2: "run_stage step s1 xs = (t, o2)" and "out = o1 @ o2"
    by (auto split: prod.splits)
  moreover have "I s1 \<and> list_all P o1" using Cons.prems(2,3) assms(4) [OF _ _ 1] by simp
  ultimately show ?case using Cons.IH [OF 2] Cons.prems(3) by simp
qed

fun feed_all :: "('s \<Rightarrow> 'a list \<Rightarrow> 's \<times> 'b list) \<Rightarrow> 's \<Rightarrow> 'a list list \<Rightarrow> 's \<times> 'b list" where
  "feed_all feed s [] = (s, [])"
| "feed_all feed s (c # cs) =
     (let (s1, o1) = feed s c; (s2, o2) = feed_all feed s1 cs in (s2, o1 @ o2))"

locale chunked =
  fixes feed :: "'s \<Rightarrow> 'a list \<Rightarrow> 's \<times> 'b list"
  assumes feed_Nil: "feed s [] = (s, [])"
    and feed_append: "feed s (xs @ ys) =
      (let (s1, o1) = feed s xs; (s2, o2) = feed s1 ys in (s2, o1 @ o2))"
begin

lemma feed_all_concat: "feed_all feed s cs = feed s (concat cs)"
  by (induction cs arbitrary: s) (simp_all add: feed_Nil feed_append)

lemma feed_two:
  "feed s xs = (s1, o1) \<Longrightarrow> feed s1 ys = (s2, o2) \<Longrightarrow> feed s (xs @ ys) = (s2, o1 @ o2)"
  by (simp add: feed_append)

end

text \<open>The second stage consumes what the first one outputs.\<close>

definition pipe ::
  "('s \<Rightarrow> 'a list \<Rightarrow> 's \<times> 'b list) \<Rightarrow> ('t \<Rightarrow> 'b list \<Rightarrow> 't \<times> 'c list) \<Rightarrow> 's \<times> 't \<Rightarrow> 'a list \<Rightarrow>
   ('s \<times> 't) \<times> 'c list"
where
  "pipe f g st xs = (let (s', ys) = f (fst st) xs; (t', zs) = g (snd st) ys in ((s', t'), zs))"

locale two_stages = first: chunked f + second: chunked g
  for f :: "'s \<Rightarrow> 'a list \<Rightarrow> 's \<times> 'b list" and g :: "'t \<Rightarrow> 'b list \<Rightarrow> 't \<times> 'c list"

sublocale two_stages \<subseteq> piped: chunked "pipe f g"
proof
  show "pipe f g st [] = (st, [])" for st
    by (simp add: pipe_def first.feed_Nil second.feed_Nil)
  show "pipe f g st (xs @ ys) =
      (let (s1, o1) = pipe f g st xs; (s2, o2) = pipe f g s1 ys in (s2, o1 @ o2))" for st xs ys
    by (simp add: pipe_def first.feed_append second.feed_append Let_def split: prod.split)
qed

interpretation stepwise: chunked "run_stage step" for step
  by unfold_locales (simp_all add: run_stage_append)

end
