(* ===== verification/Py_Text.thy ===== *)
theory Py_Text
  imports Prelude
begin

text \<open>
  What the code uses of Python's \<open>str\<close>: white space, stripping and case folding of single
  characters and of text.
\<close>

section \<open>Characters\<close>

text \<open>\<open>str.isspace\<close> of one character.\<close>

definition is_space :: "nat \<Rightarrow> bool" where
  "is_space c \<longleftrightarrow> (0x9 \<le> c \<and> c \<le> 0xD) \<or> (0x1C \<le> c \<and> c \<le> 0x20) \<or> c = 0x85 \<or> c = 0xA0 \<or>
     c = 0x1680 \<or> (0x2000 \<le> c \<and> c \<le> 0x200A) \<or> c = 0x2028 \<or> c = 0x2029 \<or> c = 0x202F \<or>
     c = 0x205F \<or> c = 0x3000"

text \<open>
  \<open>str.casefold\<close>, as far as ASCII is concerned: upper case letters, and the other
  characters whose folding contains an ASCII letter. Every other character folds to text
  without ASCII, which no comparison of the code can tell from the character itself.
\<close>

definition casefold_char :: "nat \<Rightarrow> pystr" where
  "casefold_char c =
     (if 65 \<le> c \<and> c \<le> 90 then [c + 32]
      else case map_of
          [(0xDF, [115, 115]), (0x130, [105, 0x307]), (0x149, [0x2BC, 110]), (0x17F, [115]),
           (0x1F0, [106, 0x30C]), (0x1E96, [104, 0x331]), (0x1E97, [116, 0x308]),
           (0x1E98, [119, 0x30A]), (0x1E99, [121, 0x30A]), (0x1E9A, [97, 0x2BE]),
           (0x1E9E, [115, 115]), (0x212A, [107]), (0xFB00, [102, 102]), (0xFB01, [102, 105]),
           (0xFB02, [102, 108]), (0xFB03, [102, 102, 105]), (0xFB04, [102, 102, 108]),
           (0xFB05, [115, 116]), (0xFB06, [115, 116])] c of
        Some t \<Rightarrow> t
      | None \<Rightarrow> [c])"

definition casefold :: "pystr \<Rightarrow> pystr" where
  "casefold t = concat (map casefold_char t)"

lemma casefold_append [simp]: "casefold (s @ t) = casefold s @ casefold t"
  by (simp add: casefold_def)

section \<open>Stripping\<close>

text \<open>\<open>str.strip()\<close>\<close>

definition strip :: "pystr \<Rightarrow> pystr" where
  "strip t = rev (dropWhile is_space (rev (dropWhile is_space t)))"

lemma strip_Nil [simp]: "strip [] = []"
  by (simp add: strip_def)

lemma strip_id: "t \<noteq> [] \<Longrightarrow> \<not> is_space (hd t) \<Longrightarrow> \<not> is_space (last t) \<Longrightarrow> strip t = t"
  by (simp add: strip_def dropWhile_eq_self_iff [THEN iffD2] hd_rev)

end
