(* ===== verification/Terminal_Sanitizer.thy ===== *)
theory Terminal_Sanitizer
  imports Chunked Utf8 Py_Text
begin

text \<open>
  The sanitizer of terminal output (\<open>terminal_process/output.py\<close>,
  \<open>IncrementalTerminalSanitizer\<close>): an incremental UTF-8 decoder, a stage that drops escape
  sequences and control characters, and a stage that redacts secret assignments and bearer
  tokens. Each stage is one step per character. The lengths the code takes of encoded
  tokens are of decoded text, which has no surrogates, so those encodings do not raise.
\<close>

section \<open>State\<close>

definition terminal_sanitizer_carry_hard_bytes :: int where
  "terminal_sanitizer_carry_hard_bytes = 4096"

definition escape_suppressed_marker :: pystr where
  "escape_suppressed_marker = lit ''[TERMINAL_ESCAPE_SEQUENCE_SUPPRESSED]''"

definition sensitive_token_marker :: pystr where
  "sensitive_token_marker = lit ''[REDACTED_OVERSIZE_TOKEN]''"

record sanitizer_policy =
  maximum_undecided_utf8_carry :: int
  maximum_unterminated_escape_carry :: int

definition sanitizer_policy_v1 :: sanitizer_policy where
  "sanitizer_policy_v1 = \<lparr>maximum_undecided_utf8_carry = terminal_sanitizer_carry_hard_bytes,
     maximum_unterminated_escape_carry = terminal_sanitizer_carry_hard_bytes\<rparr>"

datatype escape_mode = ESC | CSI | OSC | OSC_ESC

record text_state =
  ts_pending_cr :: bool
  ts_escape_mode :: "escape_mode option"
  ts_escape :: pystr
  ts_escape_discarding :: bool

record token_state =
  tk_token :: pystr
  tk_token_discarding :: bool
  tk_token_passthrough :: bool
  tk_awaiting_bearer :: bool
  tk_bearer_separator :: pystr

record sanitizer =
  san_decoder :: bytes
  san_text :: text_state
  san_token :: token_state
  san_finished :: bool

definition text_init :: text_state where
  "text_init = \<lparr>ts_pending_cr = False, ts_escape_mode = None, ts_escape = [],
     ts_escape_discarding = False\<rparr>"

definition token_init :: token_state where
  "token_init = \<lparr>tk_token = [], tk_token_discarding = False, tk_token_passthrough = False,
     tk_awaiting_bearer = False, tk_bearer_separator = []\<rparr>"

definition sanitizer_init :: sanitizer where
  "sanitizer_init = \<lparr>san_decoder = [], san_text = text_init, san_token = token_init,
     san_finished = False\<rparr>"

definition undecided_utf8_bytes :: "sanitizer \<Rightarrow> int" where
  "undecided_utf8_bytes s =
     int (length (utf8_bytes (tk_token (san_token s)))) +
     int (length (utf8_bytes (ts_escape (san_text s))))"

section \<open>Escape sequences and control characters\<close>

definition reset_escape :: "text_state \<Rightarrow> text_state" where
  "reset_escape s = s\<lparr>ts_escape_mode := None, ts_escape := [], ts_escape_discarding := False\<rparr>"

definition carry_escape :: "sanitizer_policy \<Rightarrow> text_state \<Rightarrow> nat \<Rightarrow> text_state \<times> pystr" where
  "carry_escape p s c =
     (if ts_escape_discarding s then (s, [])
      else if int (length (utf8_bytes (ts_escape s @ [c]))) > maximum_unterminated_escape_carry p
      then (s\<lparr>ts_escape_discarding := True, ts_escape := []\<rparr>, escape_suppressed_marker)
      else (s\<lparr>ts_escape := ts_escape s @ [c]\<rparr>, []))"

definition consume_escape ::
  "sanitizer_policy \<Rightarrow> escape_mode \<Rightarrow> text_state \<Rightarrow> nat \<Rightarrow> text_state \<times> pystr"
where
  "consume_escape p mode s0 c =
     (let (s, out) = carry_escape p s0 c
      in (case mode of
            ESC \<Rightarrow>
              if c = 91 then s\<lparr>ts_escape_mode := Some CSI\<rparr>
              else if c = 93 then s\<lparr>ts_escape_mode := Some OSC\<rparr>
              else reset_escape s
          | CSI \<Rightarrow> if 64 \<le> c \<and> c \<le> 126 then reset_escape s else s
          | OSC \<Rightarrow>
              if c = 7 then reset_escape s
              else if c = 27 then s\<lparr>ts_escape_mode := Some OSC_ESC\<rparr>
              else s
          | OSC_ESC \<Rightarrow> if c = 92 then reset_escape s else s\<lparr>ts_escape_mode := Some OSC\<rparr>, out))"

definition is_public :: "nat \<Rightarrow> bool" where
  "is_public c \<longleftrightarrow> c = 10 \<or> c = 9 \<or> 32 \<le> c \<and> \<not> (127 \<le> c \<and> c \<le> 159)"

definition text_step :: "sanitizer_policy \<Rightarrow> text_state \<Rightarrow> nat \<Rightarrow> text_state \<times> pystr" where
  "text_step p s c =
     (case ts_escape_mode s of
        Some mode \<Rightarrow> consume_escape p mode s c
      | None \<Rightarrow>
          if c = 27 then (s\<lparr>ts_escape_mode := Some ESC, ts_escape := [c]\<rparr>, [])
          else if ts_pending_cr s \<and> c = 10 then (s\<lparr>ts_pending_cr := False\<rparr>, [])
          else if c = 13 then (s\<lparr>ts_pending_cr := True\<rparr>, [10])
          else (s\<lparr>ts_pending_cr := False\<rparr>, if is_public c then [c] else []))"

text \<open>What \<open>_consume_text\<close> does after its loop when \<open>final\<close> is set.\<close>

definition text_final :: "text_state \<Rightarrow> text_state \<times> pystr" where
  "text_final s0 =
     (let s = s0\<lparr>ts_pending_cr := False\<rparr>
      in if ts_escape_mode s \<noteq> None
         then (reset_escape s, if ts_escape_discarding s then [] else escape_suppressed_marker)
         else (s, []))"

section \<open>Tokens\<close>

definition assignment_key :: "pystr \<Rightarrow> pystr" where
  "assignment_key token = takeWhile (\<lambda>c. c \<noteq> 61) token"

definition sensitive_names :: "pystr list" where
  "sensitive_names = map lit [''key'', ''token'', ''secret'', ''password'']"

definition sensitive_key :: "pystr \<Rightarrow> bool" where
  "sensitive_key key \<longleftrightarrow> list_ex (\<lambda>name. sublist name (casefold key)) sensitive_names"

definition sensitive_assignment_prefix :: "pystr \<Rightarrow> bool" where
  "sensitive_assignment_prefix token \<longleftrightarrow> sensitive_key (assignment_key token)"

definition close_token :: "token_state \<Rightarrow> pystr \<Rightarrow> token_state \<times> pystr" where
  "close_token s0 separator =
     (let token = tk_token s0; discarded = tk_token_discarding s0;
          s = s0\<lparr>tk_token := [], tk_token_discarding := False\<rparr>
      in if tk_awaiting_bearer s
         then if token \<noteq> [] \<or> discarded
              then (s\<lparr>tk_awaiting_bearer := False, tk_bearer_separator := []\<rparr>,
                    lit ''Bearer'' @ tk_bearer_separator s @ lit ''<redacted>'' @ separator)
              else (s\<lparr>tk_bearer_separator := tk_bearer_separator s @ separator\<rparr>, [])
         else if discarded then (s, sensitive_token_marker @ separator)
         else if token = [] then (s, separator)
         else if casefold token = lit ''bearer''
         then (s\<lparr>tk_awaiting_bearer := True, tk_bearer_separator := separator\<rparr>, [])
         else if 61 \<in> set token \<and> sensitive_key (assignment_key token)
         then (s, assignment_key token @ lit ''=<redacted>'' @ separator)
         else (s, token @ separator))"

definition token_step :: "sanitizer_policy \<Rightarrow> token_state \<Rightarrow> nat \<Rightarrow> token_state \<times> pystr" where
  "token_step p s c =
     (if is_space c
      then if tk_token_passthrough s then (s\<lparr>tk_token_passthrough := False\<rparr>, [c])
           else close_token s [c]
      else if tk_token_passthrough s then (s, [c])
      else if tk_token_discarding s then (s, [])
      else
        let token = tk_token s @ [c]
        in if int (length (utf8_bytes token)) > maximum_undecided_utf8_carry p
           then if tk_awaiting_bearer s \<or> sensitive_assignment_prefix token
                then (s\<lparr>tk_token := [], tk_token_discarding := True\<rparr>, [])
                else (s\<lparr>tk_token := [], tk_token_passthrough := True\<rparr>, token)
           else (s\<lparr>tk_token := token\<rparr>, []))"

definition token_final :: "token_state \<Rightarrow> token_state \<times> pystr" where
  "token_final s0 =
     (let (s, out) = close_token s0 []
      in if tk_awaiting_bearer s
         then (s\<lparr>tk_awaiting_bearer := False, tk_bearer_separator := []\<rparr>,
               out @ lit ''Bearer'' @ tk_bearer_separator s)
         else (s, out))"

section \<open>The sanitizer\<close>

definition sanitizer_feed :: "sanitizer_policy \<Rightarrow> bytes \<Rightarrow> sanitizer \<Rightarrow> (bytes \<times> sanitizer) result" where
  "sanitizer_feed p raw s =
     (if san_finished s then Inl (RuntimeError ''terminal sanitizer is finalized'')
      else if raw = [] then Inr ([], s)
      else
        let (d, decoded) = run_stage decode_step (san_decoder s) raw;
            (t, normalized) = run_stage (text_step p) (san_text s) decoded;
            (k, public) = run_stage (token_step p) (san_token s) normalized
        in map_sum id (\<lambda>bs. (bs, s\<lparr>san_decoder := d, san_text := t, san_token := k\<rparr>))
             (utf8_encode public))"

text \<open>The final call of the decoder replaces an unfinished sequence by one \<open>U+FFFD\<close>.\<close>

definition decode_final :: "bytes \<Rightarrow> bytes \<times> pystr" where
  "decode_final pending = ([], if pending = [] then [] else [0xFFFD])"

definition sanitizer_finalize :: "sanitizer_policy \<Rightarrow> sanitizer \<Rightarrow> (bytes \<times> sanitizer) result" where
  "sanitizer_finalize p s =
     (if san_finished s then Inr ([], s)
      else
        let (d, decoded) = decode_final (san_decoder s);
            (t1, n1) = run_stage (text_step p) (san_text s) decoded;
            (t, n2) = text_final t1;
            (k1, p1) = run_stage (token_step p) (san_token s) (n1 @ n2);
            (k, p2) = token_final k1
        in map_sum id
             (\<lambda>bs. (bs, s\<lparr>san_decoder := d, san_text := t, san_token := k, san_finished := True\<rparr>))
             (utf8_encode (p1 @ p2)))"

definition quiet_boundary :: "sanitizer \<Rightarrow> bytes" where
  "quiet_boundary s = []"

text \<open>Feeding chunks one after the other and finalizing.\<close>

fun sanitize_chunks :: "sanitizer_policy \<Rightarrow> sanitizer \<Rightarrow> bytes list \<Rightarrow> bytes result" where
  "sanitize_chunks p s [] = map_sum id fst (sanitizer_finalize p s)"
| "sanitize_chunks p s (raw # raws) =
     (case sanitizer_feed p raw s of
        Inl e \<Rightarrow> Inl e
      | Inr (bs, s') \<Rightarrow> map_sum id (\<lambda>rest. bs @ rest) (sanitize_chunks p s' raws))"

definition one_shot :: "sanitizer_policy \<Rightarrow> bytes \<Rightarrow> bytes result" where
  "one_shot p raw = sanitize_chunks p sanitizer_init [raw]"

section \<open>The three stages as one\<close>

interpretation decoded_text: two_stages "run_stage decode_step" "run_stage (text_step p)" for p
  by unfold_locales

definition decoded_text :: "sanitizer_policy \<Rightarrow> bytes \<times> text_state \<Rightarrow> bytes \<Rightarrow> (bytes \<times> text_state) \<times> pystr" where
  "decoded_text p = pipe (run_stage decode_step) (run_stage (text_step p))"

interpretation text_stage: chunked "decoded_text p" for p
  unfolding decoded_text_def by (rule decoded_text.piped.chunked_axioms)

interpretation public_text: two_stages "decoded_text p" "run_stage (token_step p)" for p
  by unfold_locales

definition san_core ::
  "sanitizer_policy \<Rightarrow> (bytes \<times> text_state) \<times> token_state \<Rightarrow> bytes \<Rightarrow>
   ((bytes \<times> text_state) \<times> token_state) \<times> pystr"
where
  "san_core p = pipe (decoded_text p) (run_stage (token_step p))"

interpretation core: chunked "san_core p" for p
  unfolding san_core_def by (rule public_text.piped.chunked_axioms)

definition san_state :: "sanitizer \<Rightarrow> (bytes \<times> text_state) \<times> token_state" where
  "san_state s = ((san_decoder s, san_text s), san_token s)"

definition san_with :: "(bytes \<times> text_state) \<times> token_state \<Rightarrow> sanitizer \<Rightarrow> sanitizer" where
  "san_with st s = s\<lparr>san_decoder := fst (fst st), san_text := snd (fst st), san_token := snd st\<rparr>"

lemma san_with_simps [simp]:
  "san_finished (san_with st s) = san_finished s" "san_state (san_with st s) = st"
  "san_with st' (san_with st s) = san_with st' s" "san_with (san_state s) s = s"
  by (simp_all add: san_with_def san_state_def)

lemma sanitizer_feed_core:
  assumes "\<not> san_finished s"
  shows "sanitizer_feed p raw s =
    (let (st, out) = san_core p (san_state s) raw
     in map_sum id (\<lambda>bs. (bs, san_with st s)) (utf8_encode out))"
proof (cases "raw = []")
  case True
  with assms show ?thesis
    by (simp add: sanitizer_feed_def core.feed_Nil utf8_encode_def)
next
  case False
  with assms show ?thesis
    by (simp add: sanitizer_feed_def san_core_def decoded_text_def pipe_def san_state_def
        san_with_def Let_def split: prod.split)
qed

section \<open>Only public text is released\<close>

definition clean :: "nat \<Rightarrow> bool" where
  "clean c \<longleftrightarrow> is_public c \<and> is_scalar c"

definition token_ok :: "token_state \<Rightarrow> bool" where
  "token_ok s \<longleftrightarrow> list_all clean (tk_token s) \<and> list_all clean (tk_bearer_separator s)"

definition core_ok :: "(bytes \<times> text_state) \<times> token_state \<Rightarrow> bool" where
  "core_ok st \<longleftrightarrow> pending_ok (fst (fst st)) \<and> token_ok (snd st)"

lemma clean_ascii [simp]: "32 \<le> c \<Longrightarrow> c < 127 \<Longrightarrow> clean c"
  by (simp add: clean_def is_public_def is_scalar_def)

lemma clean_markers [simp]:
  "list_all clean escape_suppressed_marker" "list_all clean sensitive_token_marker"
  by (simp_all add: escape_suppressed_marker_def sensitive_token_marker_def)

lemma clean_newline [simp]: "clean 10"
  by (simp add: clean_def is_public_def is_scalar_def)

lemma text_step_clean:
  "is_scalar c \<Longrightarrow> text_step p s c = (s', out) \<Longrightarrow> list_all clean out"
  by (auto simp: text_step_def consume_escape_def carry_escape_def clean_def [of c] Let_def
      split: option.splits if_splits prod.splits)

lemma text_final_clean: "text_final s = (s', out) \<Longrightarrow> list_all clean out"
  by (auto simp: text_final_def Let_def split: if_splits)

lemma token_init_ok [simp]: "token_ok token_init"
  by (simp add: token_ok_def token_init_def)

lemma assignment_key_clean: "list_all clean t \<Longrightarrow> list_all clean (assignment_key t)"
  by (auto simp: assignment_key_def list_all_iff dest: set_takeWhileD)

lemma close_token_clean:
  "token_ok s \<Longrightarrow> list_all clean sep \<Longrightarrow> close_token s sep = (s', out) \<Longrightarrow>
   token_ok s' \<and> list_all clean out"
  by (auto simp: close_token_def token_ok_def Let_def assignment_key_clean split: if_splits)

lemma token_step_clean:
  "token_ok s \<Longrightarrow> clean c \<Longrightarrow> token_step p s c = (s', out) \<Longrightarrow> token_ok s' \<and> list_all clean out"
  using close_token_clean [of s "[c]" s' out]
  by (auto simp: token_step_def Let_def token_ok_def split: if_splits)

lemma token_final_clean:
  assumes "token_ok s" and "token_final s = (s', out)"
  shows "list_all clean out"
proof -
  obtain s1 o1 where c: "close_token s [] = (s1, o1)" by (cases "close_token s []")
  with close_token_clean [OF assms(1) _ c] assms(2) show ?thesis
    by (auto simp: token_final_def token_ok_def split: if_splits)
qed

lemma list_all_clean_scalar: "list_all clean t \<Longrightarrow> list_all is_scalar t"
  by (auto simp: clean_def list_all_iff)

lemma san_core_clean:
  assumes "core_ok st" and "san_core p st raw = (st', out)"
  shows "core_ok st' \<and> list_all clean out"
proof -
  obtain d dec where 1: "run_stage decode_step (fst (fst st)) raw = (d, dec)" by fastforce
  obtain t norm where 2: "run_stage (text_step p) (snd (fst st)) dec = (t, norm)" by fastforce
  obtain k pub where 3: "run_stage (token_step p) (snd st) norm = (k, pub)" by fastforce
  have eq: "st' = ((d, t), k)" "out = pub"
    using assms(2) by (auto simp: san_core_def decoded_text_def pipe_def 1 2 3)
  have "pending_ok d \<and> list_all is_scalar dec"
    using assms(1) decode_step_ok
    by (intro run_stage_inv [OF 1, of pending_ok "\<lambda>_. True"]) (auto simp: core_ok_def list_all_iff)
  moreover from this have "True \<and> list_all clean norm"
    by (intro run_stage_inv [OF 2, of "\<lambda>_. True" is_scalar]) (auto dest: text_step_clean)
  moreover from this have "token_ok k \<and> list_all clean pub"
    using assms(1)
    by (intro run_stage_inv [OF 3, of token_ok clean]) (auto simp: core_ok_def dest: token_step_clean)
  ultimately show ?thesis by (simp add: eq core_ok_def)
qed

lemma sanitizer_feed_ok:
  assumes "\<not> san_finished s" and "core_ok (san_state s)"
    and "san_core p (san_state s) raw = (st, out)"
  shows "sanitizer_feed p raw s = Inr (utf8_bytes out, san_with st s)"
  using san_core_clean [OF assms(2,3)] assms(1,3)
  by (simp add: sanitizer_feed_core utf8_encode_def list_all_clean_scalar)

lemma sanitizer_finalize_ok:
  assumes "\<not> san_finished s" and "core_ok (san_state s)"
  shows "\<exists>t s'. sanitizer_finalize p s = Inr (utf8_bytes t, s') \<and> list_all clean t \<and> san_finished s'"
proof -
  obtain d dec where 1: "decode_final (san_decoder s) = (d, dec)" by fastforce
  obtain t1 n1 where 2: "run_stage (text_step p) (san_text s) dec = (t1, n1)" by fastforce
  obtain t2 n2 where 3: "text_final t1 = (t2, n2)" by fastforce
  obtain k1 p1 where 4: "run_stage (token_step p) (san_token s) (n1 @ n2) = (k1, p1)" by fastforce
  obtain k2 p2 where 5: "token_final k1 = (k2, p2)" by fastforce
  have "list_all is_scalar dec"
    using 1 by (auto simp: decode_final_def is_scalar_def split: if_splits)
  then have "True \<and> list_all clean n1"
    by (intro run_stage_inv [OF 2, of "\<lambda>_. True" is_scalar]) (auto dest: text_step_clean)
  then have "list_all clean (n1 @ n2)" using text_final_clean [OF 3] by simp
  then have "token_ok k1 \<and> list_all clean p1"
    using assms(2)
    by (intro run_stage_inv [OF 4, of token_ok clean])
      (auto simp: core_ok_def san_state_def dest: token_step_clean)
  then have c: "list_all clean (p1 @ p2)" using token_final_clean [OF _ 5] by simp
  then have "sanitizer_finalize p s = Inr (utf8_bytes (p1 @ p2),
      s\<lparr>san_decoder := d, san_text := t2, san_token := k2, san_finished := True\<rparr>)"
    using assms(1) by (simp add: sanitizer_finalize_def 1 2 3 4 5 utf8_encode_def list_all_clean_scalar)
  with c show ?thesis by (metis sanitizer.select_convs(4) sanitizer.surjective sanitizer.update_convs(4))
qed

section \<open>Chunking does not matter\<close>

lemma sanitize_chunks_core:
  assumes "\<not> san_finished s" and "core_ok (san_state s)"
    and "san_core p (san_state s) (concat raws) = (st, out)"
  shows "sanitize_chunks p s raws =
    map_sum id (\<lambda>rest. utf8_bytes out @ rest) (sanitize_chunks p (san_with st s) [])"
  using assms
proof (induction raws arbitrary: s out)
  case Nil
  then show ?case
    by (auto simp: core.feed_Nil sum.map_comp o_def sum.map_ident id_def)
next
  case (Cons raw raws)
  obtain st1 o1 where 1: "san_core p (san_state s) raw = (st1, o1)" by fastforce
  obtain st2 o2 where 2: "san_core p st1 (concat raws) = (st2, o2)" by fastforce
  have eq: "st = st2" "out = o1 @ o2" using Cons.prems(3) core.feed_two [OF 1 2] by auto
  have ok: "core_ok st1" using san_core_clean [OF Cons.prems(2) 1] by simp
  have "sanitize_chunks p (san_with st1 s) raws =
      map_sum id (\<lambda>rest. utf8_bytes o2 @ rest) (sanitize_chunks p (san_with st2 s) [])"
    using Cons.IH [of "san_with st1 s" o2] Cons.prems(1) ok 2 by (simp add: eq id_def)
  with sanitizer_feed_ok [OF Cons.prems(1,2) 1] show ?case
    by (cases "sanitizer_finalize p (san_with st2 s)") (simp_all add: eq id_def sum.map_comp o_def)
qed

lemma sanitizer_init_core [simp]:
  "\<not> san_finished sanitizer_init" "core_ok (san_state sanitizer_init)"
  by (simp_all add: sanitizer_init_def san_state_def core_ok_def pending_ok_def)

section \<open>Secrets\<close>

text \<open>
  A run of the token stage over one long token, from any buffered beginning: as long as every
  prefix that outgrows the carry has a sensitive key, nothing is output before the token's
  end, and all that is remembered of an oversize token is that it was dropped.
\<close>

abbreviation pending_token :: "pystr \<Rightarrow> token_state" where
  "pending_token u \<equiv> token_init\<lparr>tk_token := u\<rparr>"

abbreviation dropped_token :: token_state where
  "dropped_token \<equiv> token_init\<lparr>tk_token_discarding := True\<rparr>"

lemma token_run_dropped:
  "\<forall>c \<in> set t. \<not> is_space c \<Longrightarrow> run_stage (token_step p) dropped_token t = (dropped_token, [])"
  by (induction t) (simp_all add: token_step_def token_init_def)

lemma token_run_sensitive:
  assumes "\<forall>c \<in> set t. \<not> is_space c"
    and "\<And>q. prefix q (u @ t) \<Longrightarrow> maximum_undecided_utf8_carry p < int (length (utf8_bytes q)) \<Longrightarrow>
      sensitive_assignment_prefix q"
    and "int (length (utf8_bytes u)) \<le> maximum_undecided_utf8_carry p"
  shows "run_stage (token_step p) (pending_token u) t =
    (if int (length (utf8_bytes (u @ t))) \<le> maximum_undecided_utf8_carry p
     then pending_token (u @ t) else dropped_token, [])"
  using assms
proof (induction t arbitrary: u)
  case Nil
  then show ?case by (simp add: token_init_def)
next
  case (Cons c t)
  show ?case
  proof (cases "int (length (utf8_bytes (u @ [c]))) \<le> maximum_undecided_utf8_carry p")
    case True
    then have "token_step p (pending_token u) c = (pending_token (u @ [c]), [])"
      using Cons.prems(1) by (simp add: token_step_def token_init_def)
    moreover have "run_stage (token_step p) (pending_token (u @ [c])) t =
        (if int (length (utf8_bytes ((u @ [c]) @ t))) \<le> maximum_undecided_utf8_carry p
         then pending_token ((u @ [c]) @ t) else dropped_token, [])"
      using Cons.prems True by (intro Cons.IH) auto
    ultimately show ?thesis by (simp add: Let_def del: utf8_bytes_simps)
  next
    case False
    then have "sensitive_assignment_prefix (u @ [c])" by (intro Cons.prems(2)) auto
    then have "token_step p (pending_token u) c = (dropped_token, [])"
      using Cons.prems(1) False by (simp add: token_step_def token_init_def)
    with token_run_dropped [of t p] Cons.prems(1) False show ?thesis by simp
  qed
qed

text \<open>The token of an assignment whose key is sensitive and fits the carry.\<close>

lemma assignment_key_split [simp]: "61 \<notin> set key \<Longrightarrow> assignment_key (key @ 61 # v) = key"
  by (auto simp: assignment_key_def takeWhile_tail takeWhile_eq_all_conv)

lemma sensitive_oversize_prefix:
  assumes "61 \<notin> set key" and "sensitive_key key" and "prefix q (key @ 61 # v)"
    and "length (utf8_bytes (key @ [61])) < length (utf8_bytes q)"
  shows "sensitive_assignment_prefix q"
proof -
  have "\<not> prefix q (key @ [61])"
  proof
    assume "prefix q (key @ [61])"
    then obtain r where "key @ [61] = q @ r" by (auto elim: prefixE)
    then have "utf8_bytes (key @ [61]) = utf8_bytes q @ utf8_bytes r" by (metis utf8_bytes_simps(3))
    then have "length (utf8_bytes (key @ [61])) = length (utf8_bytes q) + length (utf8_bytes r)"
      by (metis length_append)
    with assms(4) show False by linarith
  qed
  moreover have "prefix (key @ [61]) (key @ 61 # v)" by (auto intro: prefixI [of _ _ v])
  ultimately have "prefix (key @ [61]) q" using assms(3) prefix_same_cases by blast
  then obtain r where "q = key @ 61 # r" by (auto elim: prefixE)
  with assms(1,2) show ?thesis by (simp add: sensitive_assignment_prefix_def)
qed

lemma casefold_assignment: "casefold (key @ 61 # v) \<noteq> lit ''bearer''"
proof
  have "casefold_char 61 = [61]" by (simp add: casefold_char_def)
  then have "61 \<in> set (casefold (key @ 61 # v))" by (simp add: casefold_def)
  moreover assume "casefold (key @ 61 # v) = lit ''bearer''"
  ultimately have "61 \<in> set (lit ''bearer'')" by (simp only:)
  then show False by simp
qed

lemma token_run_assignment:
  assumes "61 \<notin> set key" and "sensitive_key key" and "\<forall>c \<in> set (key @ v). \<not> is_space c"
    and "is_space sep" and "int (length (utf8_bytes (key @ [61]))) \<le> maximum_undecided_utf8_carry p"
  shows "run_stage (token_step p) token_init (key @ [61] @ v @ [sep]) =
    (token_init,
     if int (length (utf8_bytes (key @ [61] @ v))) \<le> maximum_undecided_utf8_carry p
     then key @ lit ''=<redacted>'' @ [sep] else sensitive_token_marker @ [sep])"
proof -
  let ?t = "key @ 61 # v"
  have ns: "\<forall>c \<in> set ?t. \<not> is_space c" using assms(3) by (auto simp: is_space_def)
  have "run_stage (token_step p) (pending_token []) ?t =
      (if int (length (utf8_bytes ([] @ ?t))) \<le> maximum_undecided_utf8_carry p
       then pending_token ([] @ ?t) else dropped_token, [])"
    using assms(5) by (intro token_run_sensitive ns)
      (auto intro!: sensitive_oversize_prefix [OF assms(1,2)] simp del: append_Cons)
  moreover have "pending_token [] = token_init" by (simp add: token_init_def)
  moreover have "token_step p (pending_token ?t) sep = (token_init, key @ lit ''=<redacted>'' @ [sep])"
    using assms(1,2,4) casefold_assignment [of key v]
    by (simp add: token_step_def close_token_def token_init_def Let_def)
  moreover have "token_step p dropped_token sep = (token_init, sensitive_token_marker @ [sep])"
    using assms(4) by (simp add: token_step_def close_token_def token_init_def Let_def)
  ultimately have "run_stage (token_step p) token_init (?t @ [sep]) =
    (token_init,
     if int (length (utf8_bytes ?t)) \<le> maximum_undecided_utf8_carry p
     then key @ lit ''=<redacted>'' @ [sep] else sensitive_token_marker @ [sep])"
    unfolding run_stage_append
    by (cases "int (length (utf8_bytes ?t)) \<le> maximum_undecided_utf8_carry p")
      (simp_all only: append_Nil if_True if_False Let_def split_conv run_stage.simps append_Nil2)
  then show ?thesis by simp
qed


text \<open>
  Between two tokens, outside escape sequences and outside a code point, text without
  control characters passes the first two stages unchanged.
\<close>

definition at_boundary :: "sanitizer \<Rightarrow> bool" where
  "at_boundary s \<longleftrightarrow> \<not> san_finished s \<and> san_decoder s = [] \<and> san_token s = token_init \<and>
     ts_escape_mode (san_text s) = None \<and> \<not> ts_pending_cr (san_text s)"

lemma decode_step_char:
  assumes "is_scalar c" and "p @ q = utf8_char c" and "q \<noteq> []"
  shows "run_stage decode_step p q = ([], [c])"
  using assms(2,3)
proof (induction q arbitrary: p)
  case (Cons b q)
  from classify_char_step [OF assms(1) Cons.prems(1)] Cons.IH [of "p @ [b]"] Cons.prems(1)
  show ?case by (cases "q = []") (simp_all add: decode_step_def)
qed simp

lemma decode_stage_bytes:
  "list_all is_scalar t \<Longrightarrow> run_stage decode_step [] (utf8_bytes t) = ([], t)"
proof (induction t)
  case (Cons c t)
  then have "run_stage decode_step [] (utf8_char c) = ([], [c])"
    using decode_step_char [of c "[]" "utf8_char c"] by simp
  with Cons show ?case by (simp add: run_stage_append)
qed simp

lemma text_stage_clean_id:
  "ts_escape_mode s = None \<Longrightarrow> \<not> ts_pending_cr s \<Longrightarrow> list_all clean t \<Longrightarrow>
   run_stage (text_step p) s t = (s, t)"
proof (induction t)
  case (Cons c t)
  then have "text_step p s c = (s, [c])"
    by (auto simp: text_step_def clean_def is_public_def)
  with Cons show ?case by simp
qed simp

lemma san_core_boundary:
  assumes "at_boundary s" and "list_all clean t"
    and "run_stage (token_step p) token_init t = (token_init, out)"
  shows "san_core p (san_state s) (utf8_bytes t) = (san_state s, out)"
  using assms decode_stage_bytes [OF list_all_clean_scalar [OF assms(2)]]
  by (simp add: san_core_def decoded_text_def pipe_def san_state_def at_boundary_def
      text_stage_clean_id)

lemma at_boundary_ok: "at_boundary s \<Longrightarrow> core_ok (san_state s)"
  by (simp add: at_boundary_def core_ok_def san_state_def pending_ok_def)

text \<open>A bearer token, whatever its length.\<close>

lemma token_run_bearer_value:
  assumes "\<forall>c \<in> set v. \<not> is_space c" and "s = token_init\<lparr>tk_awaiting_bearer := True,
      tk_bearer_separator := b\<rparr>"
  shows "\<exists>u d. run_stage (token_step p) (s\<lparr>tk_token := u0, tk_token_discarding := d0\<rparr>) v =
    (s\<lparr>tk_token := u, tk_token_discarding := d\<rparr>, []) \<and>
    (u0 \<noteq> [] \<or> d0 \<or> v \<noteq> [] \<longrightarrow> u \<noteq> [] \<or> d)"
  using assms(1)
proof (induction v arbitrary: u0 d0)
  case Nil
  then show ?case by auto
next
  case (Cons c v)
  obtain ua da where "token_step p (s\<lparr>tk_token := u0, tk_token_discarding := d0\<rparr>) c =
      (s\<lparr>tk_token := ua, tk_token_discarding := da\<rparr>, [])" and ne: "ua \<noteq> [] \<or> da"
  proof (cases "d0 \<or> maximum_undecided_utf8_carry p < int (length (utf8_bytes (u0 @ [c])))")
    case True
    with Cons.prems that [where ua = "if d0 then u0 else []" and da = True] show ?thesis
      by (auto simp: token_step_def assms(2) token_init_def Let_def split: if_splits)
  next
    case False
    with Cons.prems that [where ua = "u0 @ [c]" and da = False] show ?thesis
      by (auto simp: token_step_def assms(2) token_init_def Let_def split: if_splits)
  qed
  moreover from Cons.IH [of da ua] Cons.prems obtain u d where
    "run_stage (token_step p) (s\<lparr>tk_token := ua, tk_token_discarding := da\<rparr>) v =
      (s\<lparr>tk_token := u, tk_token_discarding := d\<rparr>, [])" "u \<noteq> [] \<or> d"
    using ne by auto
  ultimately show ?case by auto
qed

lemma token_run_bearer:
  assumes "casefold w = lit ''bearer''" and "v \<noteq> []" and "\<forall>c \<in> set (w @ v). \<not> is_space c"
    and "is_space s1" and "is_space s2"
    and "int (length (utf8_bytes w)) \<le> maximum_undecided_utf8_carry p"
  shows "run_stage (token_step p) token_init (w @ [s1] @ v @ [s2]) =
    (token_init, lit ''Bearer'' @ [s1] @ lit ''<redacted>'' @ [s2])"
proof -
  let ?a = "token_init\<lparr>tk_awaiting_bearer := True, tk_bearer_separator := [s1]\<rparr>"
  have fit: "int (length (utf8_bytes q)) \<le> maximum_undecided_utf8_carry p" if "prefix q w" for q
    using that assms(6) by (auto elim!: prefixE)
  have "run_stage (token_step p) (pending_token []) w = (pending_token w, [])"
    using token_run_sensitive [of w "[]" p] assms(3,6) fit by (fastforce simp: not_less)
  moreover have "pending_token [] = token_init" by (simp add: token_init_def)
  moreover have "w \<noteq> []" using assms(1) by (auto simp: casefold_def)
  then have "token_step p (pending_token w) s1 = (?a, [])"
    using assms(1,4) by (simp add: token_step_def close_token_def token_init_def Let_def)
  moreover obtain u d where r: "run_stage (token_step p)
      (?a\<lparr>tk_token := [], tk_token_discarding := False\<rparr>) v =
      (?a\<lparr>tk_token := u, tk_token_discarding := d\<rparr>, [])" "u \<noteq> [] \<or> d"
    using token_run_bearer_value [of v ?a "[s1]" p False "[]"] assms(2,3) by auto
  moreover have "?a\<lparr>tk_token := [], tk_token_discarding := False\<rparr> = ?a"
    by (simp add: token_init_def)
  moreover have "token_step p (?a\<lparr>tk_token := u, tk_token_discarding := d\<rparr>) s2 =
      (token_init, lit ''Bearer'' @ [s1] @ lit ''<redacted>'' @ [s2])"
    using r(2) assms(5) by (auto simp: token_step_def close_token_def token_init_def Let_def)
  ultimately show ?thesis
    by (simp only: run_stage_append run_stage.simps Let_def split_conv append_Nil append_Nil2)
qed

section \<open>Properties\<close>

text \<open>
  C37. However the raw bytes of a terminal are cut into chunks, feeding the chunks and
  finalizing releases the same bytes as sanitizing the whole stream at once.
\<close>

theorem sanitizer_chunk_independent:
  "sanitize_chunks p sanitizer_init raws = one_shot p (concat raws)"
proof -
  obtain st out where c: "san_core p (san_state sanitizer_init) (concat raws) = (st, out)"
    by fastforce
  then have c1: "san_core p (san_state sanitizer_init) (concat [concat raws]) = (st, out)" by simp
  show ?thesis
    using sanitize_chunks_core [OF sanitizer_init_core c]
      sanitize_chunks_core [OF sanitizer_init_core c1] by (simp only: one_shot_def)
qed

text \<open>
  Whatever bytes a process writes, sanitizing them succeeds and releases the UTF-8
  encoding of text in which every character is a newline, a tab or a printable character:
  no escape, no control character and no surrogate ever leaves the sanitizer.
\<close>

theorem sanitizer_output_public:
  "\<exists>t. one_shot p raw = Inr (utf8_bytes t) \<and> list_all is_public t \<and> list_all is_scalar t"
proof -
  obtain st out where c: "san_core p (san_state sanitizer_init) (concat [raw]) = (st, out)"
    by fastforce
  note ok = san_core_clean [OF sanitizer_init_core(2) c]
  from sanitizer_finalize_ok [of "san_with st sanitizer_init" p] ok obtain t s'
    where "sanitizer_finalize p (san_with st sanitizer_init) = Inr (utf8_bytes t, s')"
      and "list_all clean t" by auto
  then have "one_shot p raw = Inr (utf8_bytes (out @ t))" and "list_all clean (out @ t)"
    using ok sanitize_chunks_core [OF sanitizer_init_core c] by (auto simp: one_shot_def)
  then show ?thesis by (intro exI [of _ "out @ t"]) (auto simp: clean_def list_all_iff)
qed

text \<open>
  C38. The value of a secret assignment that is one token is not released. The token starts at a
  boundary (nothing undecided is carried over), is clean text without white space, and is ended by a white
  space character; its key, the part before the first equals sign, contains one of the sensitive names in
  any case, and the key with the sign fits the carry. It is released as the key and a fixed marker, or as
  a fixed marker alone when the whole token outgrows the carry, so what is released depends on the value
  only through that length test. An assignment that is not one token is not covered: white space around
  the sign or inside a quoted value ends the token, and the words after it are released as they are; nor
  is a key that outgrows the carry.
\<close>

theorem sanitizer_redacts_assignment:
  assumes "at_boundary s" and "list_all clean (key @ v)" and "61 \<notin> set key" and "sensitive_key key"
    and "\<forall>c \<in> set (key @ v). \<not> is_space c" and "clean sep" and "is_space sep"
    and "int (length (utf8_bytes (key @ [61]))) \<le> maximum_undecided_utf8_carry p"
  shows "sanitizer_feed p (utf8_bytes (key @ [61] @ v @ [sep])) s =
    Inr (utf8_bytes
          ((if int (length (utf8_bytes (key @ [61] @ v))) \<le> maximum_undecided_utf8_carry p
            then key @ lit ''=<redacted>'' else sensitive_token_marker) @ [sep]), s)"
proof -
  have "list_all clean (key @ [61] @ v @ [sep])" using assms(2,6) by simp
  from san_core_boundary [OF assms(1) this token_run_assignment [OF assms(3,4,5,7,8)]]
  show ?thesis
    using assms(1) by (subst sanitizer_feed_ok)
      (auto simp: at_boundary_ok at_boundary_def simp del: utf8_bytes_simps)
qed

theorem sanitizer_redacts_assignment_witness:
  "sanitizer_feed sanitizer_policy_v1 (utf8_bytes (lit ''MY_KEY'' @ [61] @ lit ''x=1'' @ [32]))
     sanitizer_init =
   Inr (utf8_bytes
         ((if int (length (utf8_bytes (lit ''MY_KEY'' @ [61] @ lit ''x=1''))) \<le>
              maximum_undecided_utf8_carry sanitizer_policy_v1
           then lit ''MY_KEY'' @ lit ''=<redacted>'' else sensitive_token_marker) @ [32]),
        sanitizer_init)"
proof (rule sanitizer_redacts_assignment)
  show "at_boundary sanitizer_init"
    by (simp add: at_boundary_def sanitizer_init_def text_init_def)
  show "list_all clean (lit ''MY_KEY'' @ lit ''x=1'')" by simp
  show "61 \<notin> set (lit ''MY_KEY'')" by simp
  show "sensitive_key (lit ''MY_KEY'')"
    by (simp add: sensitive_key_def sensitive_names_def casefold_def casefold_char_def sublist_code)
  show "\<forall>c \<in> set (lit ''MY_KEY'' @ lit ''x=1''). \<not> is_space c" by (simp add: is_space_def)
  show "clean 32" "is_space 32" by (simp_all add: is_space_def)
  show "int (length (utf8_bytes (lit ''MY_KEY'' @ [61]))) \<le>
      maximum_undecided_utf8_carry sanitizer_policy_v1"
    by (simp add: sanitizer_policy_v1_def terminal_sanitizer_carry_hard_bytes_def
        utf8_char_def utf8_values_def)
qed

text \<open>
  The token after the word \<open>Bearer\<close>, in any case, is never released, whatever its
  content and length: the output is a fixed text and the two separators.
\<close>

theorem sanitizer_redacts_bearer:
  assumes "at_boundary s" and "list_all clean (w @ v)" and "casefold w = lit ''bearer''"
    and "v \<noteq> []" and "\<forall>c \<in> set (w @ v). \<not> is_space c" and "clean s1" and "clean s2"
    and "is_space s1" and "is_space s2"
    and "int (length (utf8_bytes w)) \<le> maximum_undecided_utf8_carry p"
  shows "sanitizer_feed p (utf8_bytes (w @ [s1] @ v @ [s2])) s =
    Inr (utf8_bytes (lit ''Bearer'' @ [s1] @ lit ''<redacted>'' @ [s2]), s)"
proof -
  have "list_all clean (w @ [s1] @ v @ [s2])" using assms(2,6,7) by simp
  from san_core_boundary [OF assms(1) this token_run_bearer [OF assms(3,4,5,8,9,10)]]
  show ?thesis
    using assms(1) by (subst sanitizer_feed_ok)
      (auto simp: at_boundary_ok at_boundary_def simp del: utf8_bytes_simps)
qed

theorem sanitizer_redacts_bearer_witness:
  "sanitizer_feed sanitizer_policy_v1
     (utf8_bytes (lit ''bEaRer'' @ [9] @ lit ''abc'' @ [10])) sanitizer_init =
   Inr (utf8_bytes (lit ''Bearer'' @ [9] @ lit ''<redacted>'' @ [10]), sanitizer_init)"
proof (rule sanitizer_redacts_bearer)
  show "at_boundary sanitizer_init"
    by (simp add: at_boundary_def sanitizer_init_def text_init_def)
  show "list_all clean (lit ''bEaRer'' @ lit ''abc'')" by simp
  show "casefold (lit ''bEaRer'') = lit ''bearer''"
    by (simp add: casefold_def casefold_char_def)
  show "lit ''abc'' \<noteq> []" by simp
  show "\<forall>c \<in> set (lit ''bEaRer'' @ lit ''abc''). \<not> is_space c" by (simp add: is_space_def)
  show "clean 9" "clean 10" "is_space 9" "is_space 10"
    by (simp_all add: is_space_def clean_def is_public_def is_scalar_def)
  show "int (length (utf8_bytes (lit ''bEaRer''))) \<le>
      maximum_undecided_utf8_carry sanitizer_policy_v1"
    by (simp add: sanitizer_policy_v1_def terminal_sanitizer_carry_hard_bytes_def
        utf8_char_def utf8_values_def)
qed

end
