(* ===== verification/Terminal_Output.thy ===== *)
theory Terminal_Output
  imports Terminal_Sanitizer Identity
begin

text \<open>
  The owner of a process's public output (\<open>terminal_process/output.py\<close>,
  \<open>TerminalOutputOwner\<close>): sanitized bytes in a bounded buffer that is cut only between code
  points, cursor reads, subscribers, and the admission of readers. Cursors are passed as
  values: the text form that \<open>encode_terminal_output_cursor\<close> gives them is not modelled.
  Every operation runs under the owner's lock; the blocking waits change no state.
\<close>

section \<open>Values\<close>

definition terminal_retained_output_hard_bytes :: int where
  "terminal_retained_output_hard_bytes = 16 * 1024 * 1024"

datatype read_disposition =
    CURRENT_SNAPSHOT | EXACT_DELTA | DELTA_GAP | INVALID_CURSOR | READ_UNAVAILABLE

datatype terminal_source_coverage =
    TERMINAL_COMPLETE | TERMINAL_RETAINED_SNAPSHOT | TERMINAL_UNAVAILABLE

datatype source_coverage = SOURCE_COMPLETE | SOURCE_RETAINED_SNAPSHOT

datatype coverage_reason = TERMINAL_RETENTION_GAP | TERMINAL_SANITIZER_UNAVAILABLE

record terminal_cursor =
  tc_owner_epoch :: pystr
  tc_process_id :: pystr
  tc_stream_id :: pystr
  tc_offset :: int

definition cursor_post_init :: "terminal_cursor \<Rightarrow> unit result" where
  "cursor_post_init c =
     (case require_id (tc_process_id c) [lit ''process''] of
        Inl e \<Rightarrow> Inl e
      | Inr _ \<Rightarrow>
          (case require_id (tc_stream_id c) [lit ''stream''] of
             Inl e \<Rightarrow> Inl e
           | Inr _ \<Rightarrow>
               if tc_owner_epoch c = []
               then Inl (ValueError ''terminal output cursor identity is incomplete'')
               else if tc_offset c < 0
               then Inl (ValueError ''terminal output cursor offset is negative'')
               else Inr ()))"

record terminal_snapshot =
  tsn_process_id :: pystr
  tsn_stream_id :: pystr
  tsn_output_revision :: int
  tsn_retained_from_offset :: int
  tsn_through_offset :: int
  tsn_text :: pystr
  tsn_process_status :: pystr
  tsn_exit_code :: "int option"
  tsn_source_coverage :: terminal_source_coverage
  tsn_disposition :: read_disposition
  tsn_output_cursor :: terminal_cursor
  tsn_retained_from_cursor :: terminal_cursor
  tsn_gap_before_output :: bool
  tsn_truncated_by_response_bound :: bool

definition snapshot_post_init :: "terminal_snapshot \<Rightarrow> unit result" where
  "snapshot_post_init t =
     (case utf8_encode (tsn_text t) of
        Inl e \<Rightarrow> Inl e
      | Inr encoded \<Rightarrow>
          if tsn_retained_from_offset t < 0 \<or> tsn_through_offset t < tsn_retained_from_offset t
          then Inl (ValueError ''terminal output snapshot range is invalid'')
          else if tsn_disposition t = EXACT_DELTA
                  \<and> int (length encoded) > tsn_through_offset t - tsn_retained_from_offset t
          then Inl (ValueError ''terminal output delta exceeds its authority range'')
          else Inr ())"

record body_candidate =
  bc_text :: pystr
  bc_source_coverage :: source_coverage
  bc_source_coverage_reason :: "coverage_reason option"

definition body_candidate_post_init :: "body_candidate \<Rightarrow> unit result" where
  "body_candidate_post_init b =
     (case utf8_encode (bc_text b) of
        Inl e \<Rightarrow> Inl e
      | Inr _ \<Rightarrow>
          if (bc_source_coverage b = SOURCE_COMPLETE) \<noteq> (bc_source_coverage_reason b = None)
          then Inl (ValueError ''output body coverage and reason do not agree'') else Inr ())"

text \<open>\<open>to_subscribers\<close>: the tokens in order of installation; the callbacks are the callers'.\<close>

record terminal_output =
  to_owner_epoch :: pystr
  to_process_id :: pystr
  to_stream_id :: pystr
  to_maximum_bytes :: int
  to_sanitizer :: sanitizer
  to_retained :: bytes
  to_retained_from :: int
  to_through :: int
  to_revision :: int
  to_status :: pystr
  to_exit_code :: "int option"
  to_unavailable :: bool
  to_finalized :: bool
  to_subscribers :: "pystr list"
  to_observation_leases :: int
  to_inflight_reads :: int
  to_reads_closed :: bool

text \<open>
  What an operation does after releasing the lock: whether the Host's retention callback
  runs, and the calls \<open>callback(public, start, end)\<close> by subscriber token. An exception of a
  subscriber is discarded.
\<close>

record notifications =
  nt_retained_changed :: bool
  nt_calls :: "(pystr \<times> bytes \<times> int \<times> int) list"

section \<open>Writing\<close>

definition terminal_output_init ::
  "pystr \<Rightarrow> pystr \<Rightarrow> int \<Rightarrow> pystr \<Rightarrow> terminal_output result"
where
  "terminal_output_init owner_epoch process_id maximum_bytes stream_id =
     (if maximum_bytes \<le> 0 \<or> maximum_bytes > terminal_retained_output_hard_bytes
      then Inl (ValueError ''terminal retained output bound is invalid'')
      else Inr \<lparr>to_owner_epoch = owner_epoch, to_process_id = process_id, to_stream_id = stream_id,
                to_maximum_bytes = maximum_bytes, to_sanitizer = sanitizer_init,
                to_retained = [], to_retained_from = 0, to_through = 0, to_revision = 0,
                to_status = lit ''running'', to_exit_code = None, to_unavailable = False,
                to_finalized = False, to_subscribers = [], to_observation_leases = 0,
                to_inflight_reads = 0, to_reads_closed = False\<rparr>)"

text \<open>
  \<open>_evict_to_bound_locked\<close>: drop the excess, and further bytes while the first retained byte
  would continue a code point.
\<close>

definition evict_to_bound :: "int \<Rightarrow> terminal_output \<Rightarrow> terminal_output" where
  "evict_to_bound maximum s =
     (let excess = int (length (to_retained s)) - maximum
      in if excess \<le> 0 then s
         else let kept = skip_cont (drop (nat excess) (to_retained s))
              in s\<lparr>to_retained := kept,
                   to_retained_from := to_retained_from s
                     + (int (length (to_retained s)) - int (length kept))\<rparr>)"

definition append_public :: "bytes \<Rightarrow> terminal_output \<Rightarrow> (int \<times> int \<times> terminal_output) result" where
  "append_public public s =
     (let start = to_through s
      in if public = [] then Inr (start, start, s)
         else case utf8_decode public of
                Inl e \<Rightarrow> Inl e
              | Inr _ \<Rightarrow>
                  let s1 = s\<lparr>to_retained := to_retained s @ public,
                             to_through := to_through s + int (length public)\<rparr>;
                      s2 = evict_to_bound (to_maximum_bytes s) s1
                  in Inr (start, to_through s2, s2\<lparr>to_revision := to_revision s2 + 1\<rparr>))"

definition notify_subscribers ::
  "bytes \<Rightarrow> int \<Rightarrow> int \<Rightarrow> terminal_output \<Rightarrow> (pystr \<times> bytes \<times> int \<times> int) list"
where
  "notify_subscribers public start end s = map (\<lambda>token. (token, public, start, end)) (to_subscribers s)"

definition notify_append :: "bytes \<Rightarrow> int \<Rightarrow> int \<Rightarrow> terminal_output \<Rightarrow> notifications" where
  "notify_append public start end s =
     (if public = [] then \<lparr>nt_retained_changed = False, nt_calls = []\<rparr>
      else \<lparr>nt_retained_changed = True, nt_calls = notify_subscribers public start end s\<rparr>)"

definition append_raw ::
  "bytes \<Rightarrow> terminal_output \<Rightarrow> (bytes \<times> notifications \<times> terminal_output) result"
where
  "append_raw raw s =
     (case sanitizer_feed sanitizer_policy_v1 raw (to_sanitizer s) of
        Inl _ \<Rightarrow>
          Inr ([], \<lparr>nt_retained_changed = False, nt_calls = []\<rparr>,
               s\<lparr>to_unavailable := True, to_revision := to_revision s + 1\<rparr>)
      | Inr (public, sanitizer) \<Rightarrow>
          (case append_public public (s\<lparr>to_sanitizer := sanitizer\<rparr>) of
             Inl e \<Rightarrow> Inl e
           | Inr (start, end, s') \<Rightarrow> Inr (public, notify_append public start end s', s')))"

definition terminal_finalize ::
  "pystr \<Rightarrow> int option \<Rightarrow> terminal_output \<Rightarrow> (bytes \<times> notifications \<times> terminal_output) result"
where
  "terminal_finalize status exit_code s =
     (let (public, s1) =
            (case sanitizer_finalize sanitizer_policy_v1 (to_sanitizer s) of
               Inl _ \<Rightarrow> ([], s\<lparr>to_unavailable := True\<rparr>)
             | Inr (public, sanitizer) \<Rightarrow> (public, s\<lparr>to_sanitizer := sanitizer\<rparr>))
      in case append_public public s1 of
           Inl e \<Rightarrow> Inl e
         | Inr (start, end, s2) \<Rightarrow>
             let s3 = (if to_finalized s2 then s2
                       else s2\<lparr>to_finalized := True, to_status := status,
                               to_exit_code := exit_code, to_revision := to_revision s2 + 1\<rparr>);
                 n = notify_append public start end s3
             in Inr (public, n\<lparr>nt_calls := nt_calls n @ notify_subscribers [] end end s3\<rparr>, s3))"

definition update_lifecycle :: "pystr \<Rightarrow> int option \<Rightarrow> terminal_output \<Rightarrow> terminal_output" where
  "update_lifecycle status exit_code s =
     (if to_status s = status \<and> to_exit_code s = exit_code then s
      else s\<lparr>to_status := status, to_exit_code := exit_code, to_revision := to_revision s + 1\<rparr>)"

definition evict_oldest_to :: "int \<Rightarrow> terminal_output \<Rightarrow> int \<times> terminal_output" where
  "evict_oldest_to maximum_retained_bytes s =
     (let s1 = evict_to_bound (max 0 maximum_retained_bytes) s;
          removed = int (length (to_retained s)) - int (length (to_retained s1))
      in (removed, if removed \<noteq> 0 then s1\<lparr>to_revision := to_revision s1 + 1\<rparr> else s1))"

section \<open>Readers and subscribers\<close>

text \<open>Entering and leaving the scope of \<open>reading\<close>.\<close>

definition begin_reading :: "terminal_output \<Rightarrow> terminal_output result" where
  "begin_reading s =
     (if to_reads_closed s then Inl (KeyError (to_process_id s))
      else Inr (s\<lparr>to_inflight_reads := to_inflight_reads s + 1\<rparr>))"

definition end_reading :: "terminal_output \<Rightarrow> terminal_output" where
  "end_reading s = s\<lparr>to_inflight_reads := to_inflight_reads s - 1\<rparr>"

definition close_reads_if_idle :: "terminal_output \<Rightarrow> bool \<times> terminal_output" where
  "close_reads_if_idle s =
     (if to_inflight_reads s \<noteq> 0 \<or> to_observation_leases s \<noteq> 0 then (False, s)
      else (True, s\<lparr>to_reads_closed := True\<rparr>))"

definition cursor_at :: "int \<Rightarrow> terminal_output \<Rightarrow> terminal_cursor" where
  "cursor_at offset s =
     \<lparr>tc_owner_epoch = to_owner_epoch s, tc_process_id = to_process_id s,
      tc_stream_id = to_stream_id s, tc_offset = offset\<rparr>"

definition owner_cursor :: "int \<Rightarrow> terminal_output \<Rightarrow> terminal_cursor result" where
  "owner_cursor offset s = map_sum id (\<lambda>_. cursor_at offset s) (cursor_post_init (cursor_at offset s))"

text \<open>
  The subscription is in place before its cursor is built, so it stays when that raises; the
  cursor of an owner with canonical identities never does.
\<close>

definition install_subscription ::
  "pystr \<Rightarrow> terminal_output \<Rightarrow> terminal_cursor result \<times> terminal_output"
where
  "install_subscription token s =
     (if token = [] then (Inl (ValueError ''terminal output subscription token is empty''), s)
      else if to_reads_closed s then (Inl (KeyError (to_process_id s)), s)
      else if token \<in> set (to_subscribers s)
      then (Inl (RuntimeError ''terminal output subscription already exists''), s)
      else (owner_cursor (to_through s) s,
            s\<lparr>to_subscribers := to_subscribers s @ [token],
               to_observation_leases := to_observation_leases s + 1\<rparr>))"

definition terminal_subscribe ::
  "pystr list \<Rightarrow> terminal_output \<Rightarrow> (pystr \<times> terminal_cursor result \<times> terminal_output) option"
where
  "terminal_subscribe draws s =
     map_option (\<lambda>token. (token, install_subscription token s))
       (draw_fresh (to_subscribers s) draws)"

definition terminal_unsubscribe :: "pystr \<Rightarrow> terminal_output \<Rightarrow> bool \<times> terminal_output" where
  "terminal_unsubscribe token s =
     (if token \<in> set (to_subscribers s)
      then (True, s\<lparr>to_subscribers := remove1 token (to_subscribers s),
                    to_observation_leases := to_observation_leases s - 1\<rparr>)
      else (False, s))"

section \<open>Reading\<close>

definition range_of :: "terminal_cursor option \<Rightarrow> terminal_output \<Rightarrow> (read_disposition \<times> bool \<times> bytes) result"
where
  "range_of since_cursor s =
     (case since_cursor of
        None \<Rightarrow> Inr (CURRENT_SNAPSHOT, to_retained_from s > 0, to_retained s)
      | Some cursor \<Rightarrow>
          if tc_owner_epoch cursor \<noteq> to_owner_epoch s \<or> tc_process_id cursor \<noteq> to_process_id s
             \<or> tc_stream_id cursor \<noteq> to_stream_id s \<or> tc_offset cursor > to_through s
          then Inl InvalidTerminalOutputCursor
          else if tc_offset cursor < to_retained_from s then Inr (DELTA_GAP, True, to_retained s)
          else Inr (EXACT_DELTA, False, drop (nat (tc_offset cursor - to_retained_from s)) (to_retained s)))"

definition terminal_coverage :: "terminal_output \<Rightarrow> terminal_source_coverage" where
  "terminal_coverage s =
     (if to_unavailable s then TERMINAL_UNAVAILABLE
      else if to_retained_from s > 0 then TERMINAL_RETAINED_SNAPSHOT else TERMINAL_COMPLETE)"

definition tail_by_chars :: "pystr \<Rightarrow> int \<Rightarrow> pystr \<times> bool" where
  "tail_by_chars value maximum_chars =
     (if int (length value) \<le> maximum_chars then (value, False)
      else (drop (length value - nat maximum_chars) value, True))"

definition snapshot_from_range ::
  "int \<Rightarrow> terminal_cursor option \<Rightarrow> read_disposition \<Rightarrow> bool \<Rightarrow> pystr \<Rightarrow> terminal_output \<Rightarrow>
   terminal_snapshot result"
where
  "snapshot_from_range maximum_chars since_cursor disposition gap txt s =
     (if maximum_chars \<le> 0
      then Inl (ValueError ''terminal output response bound must be positive'')
      else
        let range_start = (case since_cursor of
              Some cursor \<Rightarrow> if disposition = EXACT_DELTA then tc_offset cursor else to_retained_from s
            | None \<Rightarrow> to_retained_from s);
            (visible, response_truncated) = tail_by_chars txt maximum_chars
        in case owner_cursor (to_through s) s of
             Inl e \<Rightarrow> Inl e
           | Inr output_cursor \<Rightarrow>
               (case owner_cursor (to_retained_from s) s of
                  Inl e \<Rightarrow> Inl e
                | Inr retained_from_cursor \<Rightarrow>
                    let snapshot = \<lparr>tsn_process_id = to_process_id s, tsn_stream_id = to_stream_id s,
                          tsn_output_revision = to_revision s,
                          tsn_retained_from_offset = range_start,
                          tsn_through_offset = to_through s, tsn_text = visible,
                          tsn_process_status = to_status s, tsn_exit_code = to_exit_code s,
                          tsn_source_coverage = terminal_coverage s,
                          tsn_disposition =
                            (if to_unavailable s then READ_UNAVAILABLE else disposition),
                          tsn_output_cursor = output_cursor,
                          tsn_retained_from_cursor = retained_from_cursor,
                          tsn_gap_before_output = gap,
                          tsn_truncated_by_response_bound = response_truncated\<rparr>
                    in map_sum id (\<lambda>_. snapshot) (snapshot_post_init snapshot)))"

text \<open>
  The counter that protects a snapshot is raised and lowered within the same call, also when
  the call raises.
\<close>

definition terminal_snapshot_of ::
  "int \<Rightarrow> terminal_cursor option \<Rightarrow> terminal_output \<Rightarrow> terminal_snapshot result"
where
  "terminal_snapshot_of maximum_chars since_cursor s =
     (if to_reads_closed s then Inl (KeyError (to_process_id s))
      else case range_of since_cursor s of
             Inl e \<Rightarrow> Inl e
           | Inr (disposition, gap, raw) \<Rightarrow>
               (case utf8_decode raw of
                  Inl e \<Rightarrow> Inl e
                | Inr txt \<Rightarrow> snapshot_from_range maximum_chars since_cursor disposition gap txt s))"

definition capture_cursor :: "terminal_output \<Rightarrow> terminal_cursor result" where
  "capture_cursor s =
     (if to_reads_closed s then Inl (KeyError (to_process_id s)) else owner_cursor (to_through s) s)"

definition candidate_from_range ::
  "read_disposition \<Rightarrow> bool \<Rightarrow> pystr \<Rightarrow> terminal_output \<Rightarrow> body_candidate result"
where
  "candidate_from_range disposition gap txt s =
     (let incomplete = (gap \<or> disposition = DELTA_GAP \<or> to_unavailable s);
          reason = (if to_unavailable s then Some TERMINAL_SANITIZER_UNAVAILABLE
                    else if incomplete then Some TERMINAL_RETENTION_GAP else None);
          b = \<lparr>bc_text = txt,
               bc_source_coverage = (if incomplete then SOURCE_RETAINED_SNAPSHOT else SOURCE_COMPLETE),
               bc_source_coverage_reason = reason\<rparr>
      in map_sum id (\<lambda>_. b) (body_candidate_post_init b))"

definition body_candidate_of :: "terminal_cursor option \<Rightarrow> terminal_output \<Rightarrow> body_candidate result" where
  "body_candidate_of since_cursor s =
     (if to_reads_closed s then Inl (KeyError (to_process_id s))
      else case range_of since_cursor s of
             Inl e \<Rightarrow> Inl e
           | Inr (disposition, gap, raw) \<Rightarrow>
               (case utf8_decode raw of
                  Inl e \<Rightarrow> Inl e
                | Inr txt \<Rightarrow> candidate_from_range disposition gap txt s))"

definition snapshot_with_body_candidate ::
  "int \<Rightarrow> terminal_cursor option \<Rightarrow> terminal_output \<Rightarrow> (terminal_snapshot \<times> body_candidate) result"
where
  "snapshot_with_body_candidate maximum_chars since_cursor s =
     (if to_reads_closed s then Inl (KeyError (to_process_id s))
      else case range_of since_cursor s of
             Inl e \<Rightarrow> Inl e
           | Inr (disposition, gap, raw) \<Rightarrow>
               (case utf8_decode raw of
                  Inl e \<Rightarrow> Inl e
                | Inr txt \<Rightarrow>
                    (case snapshot_from_range maximum_chars since_cursor disposition gap txt s of
                       Inl e \<Rightarrow> Inl e
                     | Inr snapshot \<Rightarrow>
                         map_sum id (\<lambda>candidate. (snapshot, candidate))
                           (candidate_from_range disposition gap txt s))))"

section \<open>Runs and the invariant\<close>

text \<open>
  \<open>to_run s raws B n\<close>: some sequence of operations leads from an owner constructed with
  canonical identities to \<open>s\<close>. \<open>raws\<close> are the raw chunks its sanitizer has consumed, \<open>B\<close> the
  bytes it has published, \<open>n\<close> the number of reading scopes entered and not yet left.
\<close>

inductive to_run :: "terminal_output \<Rightarrow> bytes list \<Rightarrow> bytes \<Rightarrow> nat \<Rightarrow> bool" where
  to_run_init: "terminal_output_init e pid mb sid = Inr s \<Longrightarrow>
    cursor_post_init (cursor_at 0 s) = Inr () \<Longrightarrow> to_run s [] [] 0"
| to_run_append: "to_run s raws B n \<Longrightarrow> append_raw raw s = Inr (public, nt, s') \<Longrightarrow>
    to_run s' (if to_finalized s then raws else raws @ [raw]) (B @ public) n"
| to_run_finalize: "to_run s raws B n \<Longrightarrow> terminal_finalize st x s = Inr (public, nt, s') \<Longrightarrow>
    to_run s' raws (B @ public) n"
| to_run_lifecycle: "to_run s raws B n \<Longrightarrow> to_run (update_lifecycle st x s) raws B n"
| to_run_evict: "to_run s raws B n \<Longrightarrow> to_run (snd (evict_oldest_to m s)) raws B n"
| to_run_begin: "to_run s raws B n \<Longrightarrow> begin_reading s = Inr s' \<Longrightarrow> to_run s' raws B (Suc n)"
| to_run_end: "to_run s raws B (Suc n) \<Longrightarrow> to_run (end_reading s) raws B n"
| to_run_close: "to_run s raws B n \<Longrightarrow> to_run (snd (close_reads_if_idle s)) raws B n"
| to_run_install: "to_run s raws B n \<Longrightarrow> to_run (snd (install_subscription i s)) raws B n"
| to_run_unsubscribe: "to_run s raws B n \<Longrightarrow> to_run (snd (terminal_unsubscribe i s)) raws B n"

text \<open>The retained bytes are the encoding of a suffix of the published text.\<close>

definition retained_inv :: "terminal_output \<Rightarrow> pystr \<Rightarrow> bool" where
  "retained_inv s H \<longleftrightarrow>
     list_all clean H \<and>
     (\<exists>j \<le> length H. to_retained s = utf8_bytes (drop j H) \<and>
        to_retained_from s = int (length (utf8_bytes (take j H)))) \<and>
     to_through s = int (length (utf8_bytes H)) \<and>
     int (length (to_retained s)) \<le> to_maximum_bytes s"

text \<open>What has been published is what the sanitizer makes of the consumed chunks.\<close>

definition stream_inv :: "terminal_output \<Rightarrow> bytes list \<Rightarrow> bytes \<Rightarrow> bool" where
  "stream_inv s raws B \<longleftrightarrow>
     san_finished (to_sanitizer s) = to_finalized s \<and> (to_unavailable s \<longrightarrow> to_finalized s) \<and>
     (if to_finalized s then one_shot sanitizer_policy_v1 (concat raws) = Inr B
      else \<exists>out. san_core sanitizer_policy_v1 (san_state sanitizer_init) (concat raws) =
             (san_state (to_sanitizer s), out) \<and> B = utf8_bytes out)"

definition readers_inv :: "terminal_output \<Rightarrow> nat \<Rightarrow> bool" where
  "readers_inv s n \<longleftrightarrow>
     distinct (to_subscribers s) \<and> to_observation_leases s = int (length (to_subscribers s)) \<and>
     to_inflight_reads s = int n \<and>
     (to_reads_closed s \<longrightarrow> n = 0 \<and> to_subscribers s = [])"

definition owner_ok :: "terminal_output \<Rightarrow> bool" where
  "owner_ok s \<longleftrightarrow> 0 < to_maximum_bytes s \<and>
     to_maximum_bytes s \<le> terminal_retained_output_hard_bytes \<and>
     cursor_post_init (cursor_at 0 s) = Inr ()"

definition to_inv :: "terminal_output \<Rightarrow> bytes list \<Rightarrow> bytes \<Rightarrow> nat \<Rightarrow> bool" where
  "to_inv s raws B n \<longleftrightarrow>
     owner_ok s \<and> (\<exists>H. B = utf8_bytes H \<and> retained_inv s H) \<and> stream_inv s raws B \<and> readers_inv s n"

lemma cursor_at_simps [simp]:
  "tc_owner_epoch (cursor_at a s) = to_owner_epoch s" "tc_process_id (cursor_at a s) = to_process_id s"
  "tc_stream_id (cursor_at a s) = to_stream_id s" "tc_offset (cursor_at a s) = a"
  by (simp_all add: cursor_at_def)

lemma owner_cursor_ok: "owner_ok s \<Longrightarrow> 0 \<le> a \<Longrightarrow> owner_cursor a s = Inr (cursor_at a s)"
  by (auto simp: owner_ok_def owner_cursor_def cursor_post_init_def split: sum.splits if_splits)

text \<open>Evicting keeps the retained bytes aligned to code points and reaches any bound.\<close>

lemma skip_cont_length: "length (skip_cont bs) \<le> length bs"
  by (induction bs) auto

lemma evict_to_bound_fields [simp]:
  "to_owner_epoch (evict_to_bound m s) = to_owner_epoch s"
  "to_process_id (evict_to_bound m s) = to_process_id s"
  "to_stream_id (evict_to_bound m s) = to_stream_id s"
  "to_maximum_bytes (evict_to_bound m s) = to_maximum_bytes s"
  "to_sanitizer (evict_to_bound m s) = to_sanitizer s"
  "to_through (evict_to_bound m s) = to_through s"
  "to_revision (evict_to_bound m s) = to_revision s"
  "to_unavailable (evict_to_bound m s) = to_unavailable s"
  "to_finalized (evict_to_bound m s) = to_finalized s"
  "to_subscribers (evict_to_bound m s) = to_subscribers s"
  "to_observation_leases (evict_to_bound m s) = to_observation_leases s"
  "to_inflight_reads (evict_to_bound m s) = to_inflight_reads s"
  "to_reads_closed (evict_to_bound m s) = to_reads_closed s"
  by (simp_all add: evict_to_bound_def Let_def)

lemma evict_to_bound_length:
  assumes "0 \<le> m"
  shows "int (length (to_retained (evict_to_bound m s))) \<le> m"
    and "length (to_retained (evict_to_bound m s)) \<le> length (to_retained s)"
proof -
  have "length (skip_cont (drop k bs)) \<le> length bs - k" for k and bs :: bytes
    using skip_cont_length [of "drop k bs"] by simp
  note len = this [of "nat (int (length (to_retained s)) - m)" "to_retained s"]
  show "int (length (to_retained (evict_to_bound m s))) \<le> m"
    using len assms by (auto simp: evict_to_bound_def Let_def)
  show "length (to_retained (evict_to_bound m s)) \<le> length (to_retained s)"
    using len by (auto simp: evict_to_bound_def Let_def)
qed

lemma evict_to_bound_suffix:
  assumes "list_all is_scalar H" and "j \<le> length H" and "to_retained s = utf8_bytes (drop j H)"
    and "to_retained_from s = int (length (utf8_bytes (take j H)))"
  shows "\<exists>j' \<le> length H. to_retained (evict_to_bound m s) = utf8_bytes (drop j' H) \<and>
    to_retained_from (evict_to_bound m s) = int (length (utf8_bytes (take j' H)))"
proof (cases "int (length (to_retained s)) - m \<le> 0")
  case True
  with assms show ?thesis by (auto simp: evict_to_bound_def)
next
  case False
  have "list_all is_scalar (drop j H)" using assms(1) by (metis append_take_drop_id list_all_append)
  from skip_cont_drop [OF this, of "nat (int (length (to_retained s)) - m)"] obtain i
    where i: "skip_cont (drop (nat (int (length (to_retained s)) - m)) (to_retained s))
      = utf8_bytes (drop (j + i) H)" by (auto simp: assms(3) add.commute)
  define j' where "j' = min (j + i) (length H)"
  have j': "drop (j + i) H = drop j' H" "j' \<le> length H" "j \<le> j'"
    using assms(2) by (auto simp: j'_def drop_min_length [of "j + i"])
  have "utf8_bytes (take k H) @ utf8_bytes (drop k H) = utf8_bytes H" for k
    by (simp flip: utf8_bytes_simps(3))
  then have len: "length (utf8_bytes (take k H)) + length (utf8_bytes (drop k H)) =
      length (utf8_bytes H)" for k by (metis length_append)
  show ?thesis
    using False i j' len [of j] len [of j'] assms(3,4)
    by (intro exI [of _ j']) (auto simp: evict_to_bound_def Let_def)
qed

lemma evict_retained_inv:
  assumes "retained_inv s H" and "0 \<le> m"
  shows "retained_inv (evict_to_bound m s) H"
proof -
  from assms(1) have "list_all is_scalar H" by (simp add: retained_inv_def list_all_clean_scalar)
  with evict_to_bound_suffix [of H _ s m] evict_to_bound_length(2) [OF assms(2), of s] assms(1)
  show ?thesis by (fastforce simp: retained_inv_def)
qed

lemma utf8_decode_bytes [simp]: "list_all is_scalar t \<Longrightarrow> utf8_decode (utf8_bytes t) = Inr t"
  by (rule utf8_decode_encode) (simp add: utf8_encode_def)

lemma retained_inv_cong:
  "retained_inv s H \<Longrightarrow> to_retained s' = to_retained s \<Longrightarrow> to_retained_from s' = to_retained_from s \<Longrightarrow>
   to_through s' = to_through s \<Longrightarrow> to_maximum_bytes s' = to_maximum_bytes s \<Longrightarrow> retained_inv s' H"
  by (simp add: retained_inv_def)

text \<open>Appending public text never fails and publishes exactly that text.\<close>

lemma append_public_ok:
  assumes "retained_inv s H" and "list_all clean t" and "0 < to_maximum_bytes s"
  shows "\<exists>r f v. append_public (utf8_bytes t) s =
      Inr (to_through s, to_through s + int (length (utf8_bytes t)),
        s\<lparr>to_retained := r, to_retained_from := f,
           to_through := to_through s + int (length (utf8_bytes t)), to_revision := v\<rparr>) \<and>
    retained_inv (s\<lparr>to_retained := r, to_retained_from := f,
           to_through := to_through s + int (length (utf8_bytes t)), to_revision := v\<rparr>) (H @ t)"
proof (cases "t = []")
  case True
  let ?s' = "s\<lparr>to_retained := to_retained s, to_retained_from := to_retained_from s,
      to_through := to_through s + int (length (utf8_bytes t)), to_revision := to_revision s\<rparr>"
  have "append_public (utf8_bytes t) s = Inr (to_through s, to_through s + int (length (utf8_bytes t)), ?s')"
    using True by (simp add: append_public_def Let_def)
  moreover have "retained_inv ?s' (H @ t)" using assms(1) True by (simp add: retained_inv_def)
  ultimately show ?thesis by blast
next
  case False
  have sc: "list_all is_scalar t" "list_all is_scalar (H @ t)"
    using assms(1,2) by (simp_all add: list_all_clean_scalar retained_inv_def)
  let ?s1 = "s\<lparr>to_retained := to_retained s @ utf8_bytes t,
      to_through := to_through s + int (length (utf8_bytes t))\<rparr>"
  let ?s2 = "evict_to_bound (to_maximum_bytes s) ?s1"
  have ne: "utf8_bytes t \<noteq> []" using False by (cases t) simp_all
  from assms(1) obtain j where j: "j \<le> length H" "to_retained s = utf8_bytes (drop j H)"
    "to_retained_from s = int (length (utf8_bytes (take j H)))" by (auto simp: retained_inv_def)
  then have "j \<le> length (H @ t)" "to_retained ?s1 = utf8_bytes (drop j (H @ t))"
    "to_retained_from ?s1 = int (length (utf8_bytes (take j (H @ t))))" by auto
  from evict_to_bound_suffix [OF sc(2) this, of "to_maximum_bytes s"]
    evict_to_bound_length(1) [of "to_maximum_bytes s" ?s1] assms
  have inv: "retained_inv ?s2 (H @ t)" by (auto simp: retained_inv_def)
  have eq: "?s2 = s\<lparr>to_retained := to_retained ?s2, to_retained_from := to_retained_from ?s2,
      to_through := to_through s + int (length (utf8_bytes t)), to_revision := to_revision s\<rparr>"
    by (simp add: evict_to_bound_def Let_def)
  show ?thesis
  proof (intro exI conjI)
    show "append_public (utf8_bytes t) s =
        Inr (to_through s, to_through s + int (length (utf8_bytes t)),
          s\<lparr>to_retained := to_retained ?s2, to_retained_from := to_retained_from ?s2,
             to_through := to_through s + int (length (utf8_bytes t)),
             to_revision := to_revision s + 1\<rparr>)"
      using ne sc(1) by (simp add: append_public_def Let_def) (simp add: evict_to_bound_def Let_def)
    show "retained_inv (s\<lparr>to_retained := to_retained ?s2, to_retained_from := to_retained_from ?s2,
             to_through := to_through s + int (length (utf8_bytes t)),
             to_revision := to_revision s + 1\<rparr>) (H @ t)"
      by (rule retained_inv_cong [OF inv]) simp_all
  qed
qed

lemma stream_inv_core_ok:
  assumes "stream_inv s raws B" and "\<not> to_finalized s"
  shows "core_ok (san_state (to_sanitizer s))"
proof -
  from assms obtain out where "san_core sanitizer_policy_v1 (san_state sanitizer_init)
      (concat raws) = (san_state (to_sanitizer s), out)" by (auto simp: stream_inv_def)
  from san_core_clean [OF sanitizer_init_core(2) this] show ?thesis ..
qed

text \<open>Each writing operation, with everything it changes.\<close>

lemma append_raw_finalized:
  assumes "to_inv s raws B n" and "to_finalized s"
  shows "append_raw raw s = Inr ([], \<lparr>nt_retained_changed = False, nt_calls = []\<rparr>,
      s\<lparr>to_unavailable := True, to_revision := to_revision s + 1\<rparr>)"
  using assms by (simp add: append_raw_def sanitizer_feed_def to_inv_def stream_inv_def)

lemma append_raw_ok:
  assumes inv: "to_inv s raws B n" and fin: "\<not> to_finalized s"
  shows "\<exists>t s'. append_raw raw s =
      Inr (utf8_bytes t, notify_append (utf8_bytes t) (to_through s) (to_through s') s', s') \<and>
    list_all clean t \<and> to_subscribers s' = to_subscribers s \<and>
    to_through s' = to_through s + int (length (utf8_bytes t)) \<and>
    to_inv s' (raws @ [raw]) (B @ utf8_bytes t) n"
proof -
  from inv obtain H where B: "B = utf8_bytes H" and r: "retained_inv s H" and o: "owner_ok s"
    and st: "stream_inv s raws B" and rd: "readers_inv s n" by (auto simp: to_inv_def)
  let ?san = "to_sanitizer s"
  have nf: "\<not> san_finished ?san" using st fin by (simp add: stream_inv_def)
  have ok: "core_ok (san_state ?san)" using stream_inv_core_ok [OF st fin] .
  obtain st' t where c: "san_core sanitizer_policy_v1 (san_state ?san) raw = (st', t)" by fastforce
  note f = sanitizer_feed_ok [OF nf ok c] and cl = san_core_clean [OF ok c, THEN conjunct2]
  let ?s1 = "s\<lparr>to_sanitizer := san_with st' ?san\<rparr>"
  have "retained_inv ?s1 H" using r by (simp add: retained_inv_def)
  from append_public_ok [OF this cl] o obtain a b v where
    app: "append_public (utf8_bytes t) ?s1 = Inr (to_through s,
        to_through s + int (length (utf8_bytes t)),
        ?s1\<lparr>to_retained := a, to_retained_from := b,
           to_through := to_through s + int (length (utf8_bytes t)), to_revision := v\<rparr>)"
    and ri: "retained_inv (?s1\<lparr>to_retained := a, to_retained_from := b,
           to_through := to_through s + int (length (utf8_bytes t)), to_revision := v\<rparr>) (H @ t)"
    by (auto simp: owner_ok_def)
  let ?s' = "?s1\<lparr>to_retained := a, to_retained_from := b,
           to_through := to_through s + int (length (utf8_bytes t)), to_revision := v\<rparr>"
  from st fin obtain out where "san_core sanitizer_policy_v1 (san_state sanitizer_init) (concat raws) =
      (san_state ?san, out)" "B = utf8_bytes out" by (auto simp: stream_inv_def)
  with core.feed_two [OF this(1) c] st fin nf
  have "stream_inv ?s' (raws @ [raw]) (B @ utf8_bytes t)" by (auto simp: stream_inv_def)
  moreover have "readers_inv ?s' n" "owner_ok ?s'"
    using rd o by (simp_all add: readers_inv_def owner_ok_def cursor_at_def)
  moreover have "B @ utf8_bytes t = utf8_bytes (H @ t)" by (simp add: B)
  ultimately have "to_inv ?s' (raws @ [raw]) (B @ utf8_bytes t) n"
    using ri unfolding to_inv_def by blast
  moreover have "append_raw raw s =
      Inr (utf8_bytes t, notify_append (utf8_bytes t) (to_through s) (to_through ?s') ?s', ?s')"
    by (simp add: append_raw_def f app)
  ultimately show ?thesis using cl by (intro exI [of _ t] exI [of _ ?s']) simp
qed

lemma terminal_finalize_again:
  assumes "to_inv s raws B n" and "to_finalized s"
  shows "terminal_finalize st x s = Inr ([], \<lparr>nt_retained_changed = False,
      nt_calls = notify_subscribers [] (to_through s) (to_through s) s\<rparr>, s)"
  using assms by (simp add: terminal_finalize_def sanitizer_finalize_def to_inv_def stream_inv_def
      append_public_def notify_append_def Let_def)

lemma terminal_finalize_ok:
  assumes inv: "to_inv s raws B n" and fin: "\<not> to_finalized s"
  shows "\<exists>t nt s'. terminal_finalize status x s = Inr (utf8_bytes t, nt, s') \<and> to_finalized s' \<and>
    \<not> to_unavailable s' \<and> to_status s' = status \<and> to_exit_code s' = x \<and>
    to_inv s' raws (B @ utf8_bytes t) n"
proof -
  from inv obtain H where B: "B = utf8_bytes H" and r: "retained_inv s H" and o: "owner_ok s"
    and st: "stream_inv s raws B" and rd: "readers_inv s n" by (auto simp: to_inv_def)
  let ?san = "to_sanitizer s"
  have nf: "\<not> san_finished ?san" using st fin by (simp add: stream_inv_def)
  have ok: "core_ok (san_state ?san)" using stream_inv_core_ok [OF st fin] .
  from sanitizer_finalize_ok [OF nf ok] obtain t san where
    f: "sanitizer_finalize sanitizer_policy_v1 ?san = Inr (utf8_bytes t, san)"
    and cl: "list_all clean t" and sf: "san_finished san" by blast
  let ?s1 = "s\<lparr>to_sanitizer := san\<rparr>"
  have "retained_inv ?s1 H" using r by (simp add: retained_inv_def)
  from append_public_ok [OF this cl] o obtain a b v where
    app: "append_public (utf8_bytes t) ?s1 = Inr (to_through s,
        to_through s + int (length (utf8_bytes t)),
        ?s1\<lparr>to_retained := a, to_retained_from := b,
           to_through := to_through s + int (length (utf8_bytes t)), to_revision := v\<rparr>)"
    and ri: "retained_inv (?s1\<lparr>to_retained := a, to_retained_from := b,
           to_through := to_through s + int (length (utf8_bytes t)), to_revision := v\<rparr>) (H @ t)"
    by (auto simp: owner_ok_def)
  let ?s' = "?s1\<lparr>to_retained := a, to_retained_from := b,
      to_through := to_through s + int (length (utf8_bytes t)), to_revision := v + 1,
      to_finalized := True, to_status := status, to_exit_code := x\<rparr>"
  from st fin obtain out where c: "san_core sanitizer_policy_v1 (san_state sanitizer_init)
      (concat raws) = (san_state ?san, out)" "B = utf8_bytes out" by (auto simp: stream_inv_def)
  have "san_with (san_state ?san) sanitizer_init = ?san"
    using nf by (cases ?san) (simp add: san_with_def san_state_def sanitizer_init_def)
  with sanitize_chunks_core [OF sanitizer_init_core, of sanitizer_policy_v1 "[concat raws]"] c f
  have "one_shot sanitizer_policy_v1 (concat raws) = Inr (B @ utf8_bytes t)"
    by (simp add: one_shot_def)
  then have "stream_inv ?s' raws (B @ utf8_bytes t)" using sf by (simp add: stream_inv_def)
  moreover have "readers_inv ?s' n" "owner_ok ?s'"
    using rd o by (simp_all add: readers_inv_def owner_ok_def cursor_at_def)
  moreover have "retained_inv ?s' (H @ t)" using ri by (simp add: retained_inv_def)
  moreover have "B @ utf8_bytes t = utf8_bytes (H @ t)" by (simp add: B)
  ultimately have i': "to_inv ?s' raws (B @ utf8_bytes t) n" unfolding to_inv_def by blast
  have un: "\<not> to_unavailable s" using st fin by (auto simp: stream_inv_def)
  have "\<exists>nt. terminal_finalize status x s = Inr (utf8_bytes t, nt, ?s')"
    using fin by (simp add: terminal_finalize_def f app Let_def)
  with i' un show ?thesis by (intro exI [of _ t]) fastforce
qed

lemma to_inv_init:
  assumes "terminal_output_init e pid mb sid = Inr s" and "cursor_post_init (cursor_at 0 s) = Inr ()"
  shows "to_inv s [] [] 0"
proof -
  have "retained_inv s [] \<and> readers_inv s 0 \<and> owner_ok s"
    using assms by (auto simp: terminal_output_init_def retained_inv_def readers_inv_def
        owner_ok_def split: if_splits)
  moreover have "stream_inv s [] []"
    using assms(1) by (auto simp: terminal_output_init_def stream_inv_def core.feed_Nil
        sanitizer_init_def split: if_splits)
  ultimately show ?thesis unfolding to_inv_def by force
qed

text \<open>Operations that touch neither the bytes nor the sanitizer keep what is said of them.\<close>

lemma to_inv_cong:
  assumes "to_inv s raws B n" and "to_retained s' = to_retained s"
    and "to_retained_from s' = to_retained_from s" and "to_through s' = to_through s"
    and "to_maximum_bytes s' = to_maximum_bytes s" and "to_sanitizer s' = to_sanitizer s"
    and "to_finalized s' = to_finalized s" and "to_unavailable s' \<longrightarrow> to_finalized s'"
    and "to_owner_epoch s' = to_owner_epoch s" and "to_process_id s' = to_process_id s"
    and "to_stream_id s' = to_stream_id s" and "readers_inv s' m"
  shows "to_inv s' raws B m"
proof -
  have "cursor_at 0 s' = cursor_at 0 s" using assms by (simp add: cursor_at_def)
  then have "owner_ok s' = owner_ok s" using assms(5) by (simp add: owner_ok_def)
  moreover have "retained_inv s' H = retained_inv s H" for H
    using assms(2-5) by (simp add: retained_inv_def)
  moreover have "stream_inv s raws B \<Longrightarrow> stream_inv s' raws B"
    using assms(6-8) by (simp add: stream_inv_def)
  ultimately show ?thesis using assms(1,12) by (simp add: to_inv_def)
qed

lemma to_inv_readers:
  "to_inv s raws B n \<Longrightarrow> readers_inv s n" "to_inv s raws B n \<Longrightarrow> to_unavailable s \<Longrightarrow> to_finalized s"
  by (auto simp: to_inv_def stream_inv_def)

lemma to_inv_evict:
  assumes "to_inv s raws B n"
  shows "to_inv (snd (evict_oldest_to m s)) raws B n"
proof -
  let ?e = "evict_to_bound (max 0 m) s"
  from assms obtain H where "B = utf8_bytes H" "retained_inv s H" by (auto simp: to_inv_def)
  with evict_retained_inv [of s H "max 0 m"] have "retained_inv ?e H" by simp
  then have "to_inv ?e raws B n"
    using assms \<open>B = utf8_bytes H\<close>
    by (auto simp: to_inv_def stream_inv_def readers_inv_def owner_ok_def cursor_at_def)
  then have "to_inv (?e\<lparr>to_revision := v\<rparr>) raws B n" for v
    by (rule to_inv_cong)
      (use to_inv_readers [OF assms] in \<open>auto simp: readers_inv_def\<close>)
  with \<open>to_inv ?e raws B n\<close> show ?thesis by (simp add: evict_oldest_to_def Let_def)
qed

lemma readers_inv_install:
  "readers_inv s n \<Longrightarrow> readers_inv (snd (install_subscription i s)) n"
  by (auto simp: install_subscription_def readers_inv_def)

lemma readers_inv_unsubscribe:
  "readers_inv s n \<Longrightarrow> readers_inv (snd (terminal_unsubscribe i s)) n"
proof -
  have "int (length (remove1 i xs)) = int (length xs) - 1" if "i \<in> set xs" for xs
    using that length_pos_if_in_set [OF that] by (cases "length xs") (simp_all add: length_remove1)
  then show "readers_inv s n \<Longrightarrow> readers_inv (snd (terminal_unsubscribe i s)) n"
    by (auto simp: terminal_unsubscribe_def readers_inv_def)
qed

lemma to_run_inv: "to_run s raws B n \<Longrightarrow> to_inv s raws B n"
proof (induction rule: to_run.induct)
  case (to_run_init e pid mb sid s)
  then show ?case by (rule to_inv_init)
next
  case (to_run_append s raws B n raw public nt s')
  show ?case
  proof (cases "to_finalized s")
    case True
    have "to_inv (s\<lparr>to_unavailable := True, to_revision := to_revision s + 1\<rparr>) raws B n"
      using to_run_append.IH True to_inv_readers
      by (intro to_inv_cong [OF to_run_append.IH]) (auto simp: readers_inv_def)
    with append_raw_finalized [OF to_run_append.IH True] to_run_append.hyps(2) True
    show ?thesis by simp
  next
    case False
    from append_raw_ok [OF to_run_append.IH False, of raw] to_run_append.hyps(2) False
    show ?thesis by auto
  qed
next
  case (to_run_finalize s raws B n st x public nt s')
  show ?case
  proof (cases "to_finalized s")
    case True
    with terminal_finalize_again [OF to_run_finalize.IH True] to_run_finalize.hyps(2)
      to_run_finalize.IH show ?thesis by simp
  next
    case False
    from terminal_finalize_ok [OF to_run_finalize.IH False, of st x] to_run_finalize.hyps(2)
    show ?thesis by auto
  qed
next
  case (to_run_lifecycle s raws B n st x)
  show ?case
    using to_inv_readers [OF to_run_lifecycle.IH]
    by (intro to_inv_cong [OF to_run_lifecycle.IH]) (auto simp: update_lifecycle_def readers_inv_def)
next
  case (to_run_evict s raws B n m)
  show ?case by (rule to_inv_evict [OF to_run_evict.IH])
next
  case (to_run_begin s raws B n s')
  show ?case
    using to_inv_readers [OF to_run_begin.IH] to_run_begin.hyps(2)
    by (intro to_inv_cong [OF to_run_begin.IH])
      (auto simp: begin_reading_def readers_inv_def split: if_splits)
next
  case (to_run_end s raws B n)
  show ?case
    using to_inv_readers [OF to_run_end.IH]
    by (intro to_inv_cong [OF to_run_end.IH]) (auto simp: end_reading_def readers_inv_def)
next
  case (to_run_close s raws B n)
  show ?case
    using to_inv_readers [OF to_run_close.IH]
    by (intro to_inv_cong [OF to_run_close.IH]) (auto simp: close_reads_if_idle_def readers_inv_def)
next
  case (to_run_install s raws B n i)
  from to_inv_readers [OF to_run_install.IH] readers_inv_install [of s n i] show ?case
    by (intro to_inv_cong [OF to_run_install.IH]) (auto simp: install_subscription_def)
next
  case (to_run_unsubscribe s raws B n i)
  from to_inv_readers [OF to_run_unsubscribe.IH] readers_inv_unsubscribe [of s n i] show ?case
    by (intro to_inv_cong [OF to_run_unsubscribe.IH]) (auto simp: terminal_unsubscribe_def)
qed

section \<open>What readers see\<close>

text \<open>
  An offset into encoded text either starts a code point, and what follows decodes to the
  rest of the text, or lies inside one, and what follows does not decode.
\<close>

lemma utf8_take_drop: "utf8_bytes (take i T) @ utf8_bytes (drop i T) = utf8_bytes T"
  by (simp flip: utf8_bytes_simps(3))

lemma drop_at_boundary:
  "n = length (utf8_bytes (take i T)) \<Longrightarrow> drop n (utf8_bytes T) = utf8_bytes (drop i T)"
  by (subst utf8_take_drop [of i, symmetric]) simp

lemma drop_utf8_cases:
  assumes "list_all is_scalar T" and "n \<le> length (utf8_bytes T)"
  shows "(\<exists>i \<le> length T. n = length (utf8_bytes (take i T))) \<or>
    utf8_decode (drop n (utf8_bytes T)) = Inl UnicodeDecodeError"
  using assms
proof (induction T arbitrary: n)
  case Nil
  then show ?case by simp
next
  case (Cons c T)
  then have c: "is_scalar c" by simp
  obtain h q where hq: "utf8_char c = h # q" and q: "\<forall>b \<in> set q. is_cont (unat b)"
    using utf8_char_shape [OF c] by metis
  consider "n = 0" | "0 < n" "n < length (utf8_char c)" | "length (utf8_char c) \<le> n" by linarith
  then show ?case
  proof cases
    case 1
    then show ?thesis by (intro disjI1 exI [of _ 0]) simp
  next
    case 2
    then have d: "drop n (utf8_bytes (c # T)) = drop (n - 1) q @ utf8_bytes T" and "n - 1 < length q"
      using hq by (cases n; simp)+
    then obtain b r where "drop (n - 1) q = b # r" by (metis Cons_nth_drop_Suc)
    moreover from this have "is_cont (unat b)" using q in_set_dropD [of b "n - 1" q] by simp
    ultimately show ?thesis unfolding d by (simp add: utf8_decode_def is_cont_def)
  next
    case 3
    with Cons.IH [of "n - length (utf8_char c)"] Cons.prems
    have "(\<exists>i \<le> length T. n - length (utf8_char c) = length (utf8_bytes (take i T))) \<or>
      utf8_decode (drop n (utf8_bytes (c # T))) = Inl UnicodeDecodeError" by simp
    then show ?thesis
    proof
      assume "\<exists>i \<le> length T. n - length (utf8_char c) = length (utf8_bytes (take i T))"
      then obtain i where "i \<le> length T" "n - length (utf8_char c) = length (utf8_bytes (take i T))"
        by blast
      with 3 show ?thesis by (intro disjI1 exI [of _ "Suc i"]) simp
    qed simp
  qed
qed

lemma utf8_bytes_inj:
  "list_all is_scalar T \<Longrightarrow> list_all is_scalar U \<Longrightarrow> utf8_bytes T = utf8_bytes U \<Longrightarrow> T = U"
  by (metis utf8_decode_bytes sum.inject(2))

text \<open>A reachable owner retains exactly the end of what it has published.\<close>

lemma to_inv_retained:
  assumes "to_inv s raws (utf8_bytes T) n" and "list_all is_scalar T"
  shows "list_all clean T" and "to_retained s = drop (nat (to_retained_from s)) (utf8_bytes T)"
    and "0 \<le> to_retained_from s" and "to_retained_from s \<le> to_through s"
    and "to_through s = int (length (utf8_bytes T))"
    and "\<exists>j \<le> length T. to_retained s = utf8_bytes (drop j T) \<and>
      to_retained_from s = int (length (utf8_bytes (take j T)))"
proof -
  from assms(1) obtain H where "utf8_bytes T = utf8_bytes H" and r: "retained_inv s H"
    by (auto simp: to_inv_def)
  with utf8_bytes_inj [OF assms(2), of H] have H: "H = T"
    by (auto simp: retained_inv_def list_all_clean_scalar)
  from r show "list_all clean T" "to_through s = int (length (utf8_bytes T))"
    "\<exists>j \<le> length T. to_retained s = utf8_bytes (drop j T) \<and>
      to_retained_from s = int (length (utf8_bytes (take j T)))"
    by (auto simp: retained_inv_def H)
  then obtain j where j: "to_retained s = utf8_bytes (drop j T)"
    "to_retained_from s = int (length (utf8_bytes (take j T)))" by auto
  have "length (utf8_bytes (take j T)) \<le> length (utf8_bytes T)"
    using arg_cong [OF utf8_take_drop [of j T], of length] by simp
  with j show "0 \<le> to_retained_from s" "to_retained_from s \<le> to_through s"
    "to_retained s = drop (nat (to_retained_from s)) (utf8_bytes T)"
    using \<open>to_through s = int (length (utf8_bytes T))\<close> by (simp_all add: drop_at_boundary)
qed

lemma range_of_delta:
  assumes "to_inv s raws (utf8_bytes T) n" and "list_all is_scalar T"
    and "to_retained_from s \<le> a" and "a \<le> to_through s"
  shows "range_of (Some (cursor_at a s)) s = Inr (EXACT_DELTA, False, drop (nat a) (utf8_bytes T))"
proof -
  have "nat (a - to_retained_from s) + nat (to_retained_from s) = nat a"
    using to_inv_retained(3) [OF assms(1,2)] assms(3) by simp
  then show ?thesis
    using assms(3,4) by (simp add: range_of_def to_inv_retained(2) [OF assms(1,2)])
qed

lemma candidate_from_range_ok:
  assumes "list_all is_scalar t"
  shows "candidate_from_range d gap t s = Inr
    (if to_unavailable s then
       \<lparr>bc_text = t, bc_source_coverage = SOURCE_RETAINED_SNAPSHOT,
        bc_source_coverage_reason = Some TERMINAL_SANITIZER_UNAVAILABLE\<rparr>
     else if gap \<or> d = DELTA_GAP then
       \<lparr>bc_text = t, bc_source_coverage = SOURCE_RETAINED_SNAPSHOT,
        bc_source_coverage_reason = Some TERMINAL_RETENTION_GAP\<rparr>
     else \<lparr>bc_text = t, bc_source_coverage = SOURCE_COMPLETE, bc_source_coverage_reason = None\<rparr>)"
  using assms
  by (auto simp: candidate_from_range_def body_candidate_post_init_def utf8_encode_def Let_def)

lemma tail_by_chars_suffix:
  "tail_by_chars t m = (v, tr) \<Longrightarrow> \<exists>k. v = drop k t"
  by (auto simp: tail_by_chars_def split: if_splits intro: exI [of _ 0])

lemma utf8_bytes_drop_le: "length (utf8_bytes (drop k t)) \<le> length (utf8_bytes t)"
  using arg_cong [OF utf8_take_drop [of k t], of length] by simp

text \<open>Building a snapshot never fails when the text is at most the selected range.\<close>

lemma snapshot_from_range_ok:
  assumes "owner_ok s" and "0 < m" and "list_all is_scalar t" and "0 \<le> to_retained_from s"
    and "to_retained_from s \<le> to_through s"
    and "d = EXACT_DELTA \<Longrightarrow> \<exists>c. since = Some c \<and> 0 \<le> tc_offset c \<and>
      int (length (utf8_bytes t)) \<le> to_through s - tc_offset c"
  shows "\<exists>sn. snapshot_from_range m since d gap t s = Inr sn \<and>
    tsn_text sn = fst (tail_by_chars t m) \<and> tsn_gap_before_output sn = gap \<and>
    tsn_truncated_by_response_bound sn = snd (tail_by_chars t m) \<and>
    tsn_through_offset sn = to_through s \<and>
    tsn_disposition sn = (if to_unavailable s then READ_UNAVAILABLE else d) \<and>
    tsn_output_cursor sn = cursor_at (to_through s) s"
proof -
  obtain v tr where v: "tail_by_chars t m = (v, tr)" by fastforce
  from tail_by_chars_suffix [OF v] obtain k where k: "v = drop k t" ..
  have vs: "list_all is_scalar v" using assms(3) unfolding k by (metis append_take_drop_id list_all_append)
  have len: "length (utf8_bytes v) \<le> length (utf8_bytes t)" unfolding k by (rule utf8_bytes_drop_le)
  have "0 \<le> to_through s" using assms(4,5) by simp
  note oc = owner_cursor_ok [OF assms(1) this] owner_cursor_ok [OF assms(1,4)]
  show ?thesis
  proof (cases "d = EXACT_DELTA")
    case True
    with assms(6) obtain c where "since = Some c" "0 \<le> tc_offset c"
      "int (length (utf8_bytes t)) \<le> to_through s - tc_offset c" by blast
    with True assms(2) vs len v oc show ?thesis
      by (simp add: snapshot_from_range_def snapshot_post_init_def utf8_encode_def Let_def)
  next
    case False
    with assms vs v oc show ?thesis
      by (simp add: snapshot_from_range_def snapshot_post_init_def utf8_encode_def Let_def
          split: option.split)
  qed
qed

section \<open>Properties\<close>

text \<open>An owner that has published one two-byte character and a space, for the witnesses.\<close>

definition demo_pid :: pystr where
  "demo_pid = lit ''process:aaaaaaaaaaaaaaaaaaaaaaaaaa''"

definition demo_sid :: pystr where
  "demo_sid = lit ''stream:aaaaaaaaaaaaaaaaaaaaaaaaaa''"

definition demo_owner :: "bool \<Rightarrow> terminal_output" where
  "demo_owner written = \<lparr>to_owner_epoch = lit ''e'', to_process_id = demo_pid,
     to_stream_id = demo_sid, to_maximum_bytes = 4, to_sanitizer = sanitizer_init,
     to_retained = (if written then [0xC3, 0xA9, 0x20] else []), to_retained_from = 0,
     to_through = (if written then 3 else 0), to_revision = (if written then 1 else 0),
     to_status = lit ''running'', to_exit_code = None, to_unavailable = False,
     to_finalized = False, to_subscribers = [], to_observation_leases = 0,
     to_inflight_reads = 0, to_reads_closed = False\<rparr>"

definition demo_txt :: pystr where
  "demo_txt = [0xE9, 0x20]"

lemma demo_text: "utf8_bytes demo_txt = [0xC3, 0xA9, 0x20]"
  by (simp add: demo_txt_def utf8_char_def utf8_values_def)

lemma demo_clean: "list_all clean demo_txt" "list_all is_scalar demo_txt"
  by (simp_all add: demo_txt_def clean_def is_public_def is_scalar_def)

lemma demo_ids: "cursor_post_init (cursor_at 0 (demo_owner w)) = Inr ()"
proof -
  have "require_id demo_pid [lit ''process''] = Inr demo_pid"
    by (simp add: require_id_def is_valid_id_def is_kind_def identity_kinds_def id_of_kind_def
        demo_pid_def id_payload_def is_base32_char_def)
  moreover have "require_id demo_sid [lit ''stream''] = Inr demo_sid"
    by (simp add: require_id_def is_valid_id_def is_kind_def identity_kinds_def id_of_kind_def
        demo_sid_def id_payload_def is_base32_char_def)
  ultimately show ?thesis by (simp add: cursor_post_init_def demo_owner_def)
qed

lemma demo_feed:
  "sanitizer_feed sanitizer_policy_v1 [0xC3, 0xA9, 0x20] sanitizer_init =
     Inr ([0xC3, 0xA9, 0x20], sanitizer_init)"
proof -
  have k: "run_stage (token_step sanitizer_policy_v1) token_init demo_txt =
      (token_init, demo_txt)"
    by (simp add: demo_txt_def token_step_def close_token_def token_init_def is_space_def sanitizer_policy_v1_def
        terminal_sanitizer_carry_hard_bytes_def utf8_char_def utf8_values_def casefold_def
        casefold_char_def)
  have b: "at_boundary sanitizer_init"
    by (simp add: at_boundary_def sanitizer_init_def text_init_def)
  from sanitizer_feed_ok [OF _ _ san_core_boundary [OF b demo_clean(1) k]] show ?thesis
    unfolding demo_text by simp
qed

lemma demo_append:
  "append_raw [0xC3, 0xA9, 0x20] (demo_owner False) =
     Inr ([0xC3, 0xA9, 0x20], \<lparr>nt_retained_changed = True, nt_calls = []\<rparr>, demo_owner True)"
proof -
  have "utf8_decode [0xC3, 0xA9, 0x20] = Inr demo_txt"
    using utf8_decode_bytes [OF demo_clean(2)] by (simp only: demo_text)
  with demo_feed show ?thesis
    by (simp add: append_raw_def demo_owner_def append_public_def evict_to_bound_def
        notify_append_def notify_subscribers_def)
qed

lemma demo_run0: "to_run (demo_owner False) [] [] 0"
  by (rule to_run_init [of "lit ''e''" demo_pid 4 demo_sid])
    (simp_all add: demo_ids, simp add: terminal_output_init_def demo_owner_def
      terminal_retained_output_hard_bytes_def)

lemma demo_run: "to_run (demo_owner True) [[0xC3, 0xA9, 0x20]] (utf8_bytes demo_txt) 0"
  using to_run_append [OF demo_run0 demo_append] unfolding demo_text by (simp add: demo_owner_def)

text \<open>
  C33. In every reachable state of a terminal output owner the retained bytes are the UTF-8
  encoding of a suffix of the published text, never cut inside a character and never more
  than the bound; the two offsets locate that suffix exactly; the lease and reader counters
  equal the subscribers and the open scopes; output is unavailable only after the end.
\<close>

theorem terminal_output_invariant: "to_run s raws B n \<Longrightarrow> to_inv s raws B n"
  by (rule to_run_inv)

theorem terminal_output_invariant_witness:
  "to_inv (demo_owner True) [[0xC3, 0xA9, 0x20]] (utf8_bytes demo_txt) 0"
  by (rule terminal_output_invariant [OF demo_run])

text \<open>
  C34. What an owner has published is always a beginning of what its sanitizer makes of all
  the raw bytes written to it, taken as one stream, and all of it once the owner is
  finalized: no chunking, eviction, read or late write changes or loses public output.
\<close>

theorem terminal_stream_exact:
  assumes "to_run s raws B n"
  shows "\<exists>rest. one_shot sanitizer_policy_v1 (concat raws) = Inr (B @ rest) \<and>
    (to_finalized s \<longrightarrow> rest = [])"
proof -
  note inv = to_run_inv [OF assms]
  show ?thesis
  proof (cases "to_finalized s")
    case True
    with inv show ?thesis by (auto simp: to_inv_def stream_inv_def)
  next
    case False
    from terminal_finalize_ok [OF inv False, of "[]" None] obtain t s' where
      "to_inv s' raws (B @ utf8_bytes t) n" "to_finalized s'" by blast
    then have "one_shot sanitizer_policy_v1 (concat raws) = Inr (B @ utf8_bytes t)"
      by (simp add: to_inv_def stream_inv_def)
    with False show ?thesis by blast
  qed
qed

theorem terminal_stream_exact_witness:
  "\<exists>rest. one_shot sanitizer_policy_v1 (concat [[0xC3, 0xA9, 0x20]]) =
      Inr (utf8_bytes demo_txt @ rest) \<and> (to_finalized (demo_owner True) \<longrightarrow> rest = [])"
  by (rule terminal_stream_exact [OF demo_run])

text \<open>
  C35. A reader whose cursor stands at the start of a published character gets exactly the published
  text from there to the end while the owner still retains that character, with complete coverage unless
  the output has become unavailable. Once it has been evicted the reader gets all of the text that is
  retained, marked as a retained snapshot with the reason of the loss.
\<close>

theorem terminal_delta_exact:
  assumes "to_run s raws (utf8_bytes T) n" and "list_all is_scalar T" and "\<not> to_reads_closed s"
    and "i \<le> length T" and "a = int (length (utf8_bytes (take i T)))"
  shows "\<exists>j \<le> length T. to_retained_from s = int (length (utf8_bytes (take j T))) \<and>
    body_candidate_of (Some (cursor_at a s)) s = Inr
      (if to_retained_from s \<le> a
       then \<lparr>bc_text = drop i T,
         bc_source_coverage = (if to_unavailable s then SOURCE_RETAINED_SNAPSHOT else SOURCE_COMPLETE),
         bc_source_coverage_reason =
           (if to_unavailable s then Some TERMINAL_SANITIZER_UNAVAILABLE else None)\<rparr>
       else \<lparr>bc_text = drop j T, bc_source_coverage = SOURCE_RETAINED_SNAPSHOT,
         bc_source_coverage_reason =
           Some (if to_unavailable s then TERMINAL_SANITIZER_UNAVAILABLE else TERMINAL_RETENTION_GAP)\<rparr>)"
proof -
  note inv = to_run_inv [OF assms(1)]
  have "length (utf8_bytes (take i T)) \<le> length (utf8_bytes T)"
    using arg_cong [OF utf8_take_drop [of i T], of length] by simp
  then have a: "a \<le> to_through s" by (simp add: assms(5) to_inv_retained(5) [OF inv assms(2)])
  have scalar: "list_all is_scalar (drop k T)" for k
    using assms(2) by (metis append_take_drop_id list_all_append)
  obtain j where j: "j \<le> length T" "to_retained s = utf8_bytes (drop j T)"
    "to_retained_from s = int (length (utf8_bytes (take j T)))"
    using to_inv_retained(6) [OF inv assms(2)] by blast
  show ?thesis
  proof (cases "to_retained_from s \<le> a")
    case True
    from range_of_delta [OF inv assms(2) True a] drop_at_boundary [of "nat a" i T]
    have "range_of (Some (cursor_at a s)) s = Inr (EXACT_DELTA, False, utf8_bytes (drop i T))"
      by (simp add: assms(5))
    with j(1,3) True scalar assms(3) show ?thesis
      by (intro exI [of _ j]) (simp add: body_candidate_of_def candidate_from_range_ok)
  next
    case False
    then have "range_of (Some (cursor_at a s)) s = Inr (DELTA_GAP, True, utf8_bytes (drop j T))"
      using a j(2) by (simp add: range_of_def)
    with j(1,3) False scalar assms(3) show ?thesis
      by (intro exI [of _ j]) (simp add: body_candidate_of_def candidate_from_range_ok)
  qed
qed

theorem terminal_delta_exact_witness:
  "body_candidate_of (Some (cursor_at 2 (demo_owner True))) (demo_owner True) = Inr
    \<lparr>bc_text = drop 1 demo_txt, bc_source_coverage = SOURCE_COMPLETE, bc_source_coverage_reason = None\<rparr>"
proof -
  have "2 = int (length (utf8_bytes (take 1 demo_txt)))"
    by (simp add: demo_txt_def utf8_char_def utf8_values_def)
  from terminal_delta_exact [OF demo_run demo_clean(2) _ _ this] show ?thesis
    by (auto simp: demo_owner_def demo_txt_def)
qed

text \<open>
  C36. A cursor inside the retained range that points into the middle of a character is not
  reported as an invalid cursor: reading from it raises the decoder's own error, after the
  cursor itself has been accepted.
\<close>

theorem terminal_cursor_inside_character:
  assumes "to_run s raws (utf8_bytes T) n" and "list_all is_scalar T" and "\<not> to_reads_closed s"
    and "to_retained_from s \<le> a" and "a \<le> to_through s"
    and "\<forall>i \<le> length T. a \<noteq> int (length (utf8_bytes (take i T)))"
  shows "body_candidate_of (Some (cursor_at a s)) s = Inl UnicodeDecodeError \<and>
    terminal_snapshot_of m (Some (cursor_at a s)) s = Inl UnicodeDecodeError"
proof -
  note inv = to_run_inv [OF assms(1)]
  have "0 \<le> a" using to_inv_retained(3) [OF inv assms(2)] assms(4) by simp
  then have "\<forall>i \<le> length T. nat a \<noteq> length (utf8_bytes (take i T))" using assms(6) by fastforce
  moreover have "nat a \<le> length (utf8_bytes T)"
    using to_inv_retained(5) [OF inv assms(2)] assms(5) by simp
  ultimately have "utf8_decode (drop (nat a) (utf8_bytes T)) = Inl UnicodeDecodeError"
    using drop_utf8_cases [OF assms(2)] by blast
  with range_of_delta [OF inv assms(2,4,5)] assms(3) show ?thesis
    by (simp add: body_candidate_of_def terminal_snapshot_of_def)
qed

theorem terminal_cursor_inside_character_witness:
  "body_candidate_of (Some (cursor_at 1 (demo_owner True))) (demo_owner True) =
     Inl UnicodeDecodeError \<and>
   terminal_snapshot_of 5 (Some (cursor_at 1 (demo_owner True))) (demo_owner True) =
     Inl UnicodeDecodeError"
proof (rule terminal_cursor_inside_character [OF demo_run])
  show "\<forall>i \<le> length demo_txt. 1 \<noteq> int (length (utf8_bytes (take i demo_txt)))"
    by (auto simp: demo_txt_def le_Suc_eq utf8_char_def utf8_values_def)
qed (simp_all add: demo_clean demo_owner_def)

text \<open>
  A snapshot of an open owner always succeeds: it shows the last characters of the
  retained text, never more than the response bound, says truthfully whether text was cut off
  or evicted before it, and carries a cursor from which reading continues without loss.
\<close>

theorem terminal_snapshot_total:
  assumes "to_run s raws (utf8_bytes T) n" and "list_all is_scalar T" and "\<not> to_reads_closed s"
    and "0 < m"
  shows "\<exists>j sn. j \<le> length T \<and> to_retained s = utf8_bytes (drop j T) \<and>
    terminal_snapshot_of m None s = Inr sn \<and> int (length (tsn_text sn)) \<le> m \<and>
    tsn_text sn = drop (length (drop j T) - nat m) (drop j T) \<and>
    (tsn_truncated_by_response_bound sn \<longleftrightarrow> m < int (length (drop j T))) \<and>
    (tsn_gap_before_output sn \<longleftrightarrow> 0 < j) \<and>
    tsn_output_cursor sn = cursor_at (int (length (utf8_bytes T))) s"
proof -
  note inv = to_run_inv [OF assms(1)]
  note ret = to_inv_retained [OF inv assms(2)]
  from ret(6) obtain j where j: "j \<le> length T" "to_retained s = utf8_bytes (drop j T)"
    "to_retained_from s = int (length (utf8_bytes (take j T)))" by blast
  have sc: "list_all is_scalar (drop j T)"
    using assms(2) by (metis append_take_drop_id list_all_append)
  have gap: "to_retained_from s > 0 \<longleftrightarrow> 0 < j"
  proof (cases "take j T")
    case Nil
    with j show ?thesis by (cases T) auto
  next
    case (Cons c u)
    then have "0 < length (utf8_bytes (take j T))" by simp
    moreover have "0 < j" using Cons by (cases j) auto
    ultimately show ?thesis unfolding j(3) by linarith
  qed
  from inv have "owner_ok s" by (simp add: to_inv_def)
  from snapshot_from_range_ok [OF this assms(4) sc ret(3,4), of CURRENT_SNAPSHOT None "0 < j"]
  obtain sn where sn: "snapshot_from_range m None CURRENT_SNAPSHOT (0 < j) (drop j T) s = Inr sn"
    "tsn_text sn = fst (tail_by_chars (drop j T) m)" "tsn_gap_before_output sn = (0 < j)"
    "tsn_truncated_by_response_bound sn = snd (tail_by_chars (drop j T) m)"
    "tsn_output_cursor sn = cursor_at (to_through s) s" by auto
  have "terminal_snapshot_of m None s = Inr sn"
    using assms(3) sn(1) sc by (simp add: terminal_snapshot_of_def range_of_def j(2) gap)
  with sn j ret(5) assms(4) show ?thesis
    by (intro exI [of _ j] exI [of _ sn]) (auto simp: tail_by_chars_def)
qed

theorem terminal_snapshot_total_witness:
  "\<exists>j sn. j \<le> length demo_txt \<and> to_retained (demo_owner True) = utf8_bytes (drop j demo_txt) \<and>
    terminal_snapshot_of 1 None (demo_owner True) = Inr sn \<and> int (length (tsn_text sn)) \<le> 1 \<and>
    tsn_text sn = drop (length (drop j demo_txt) - nat 1) (drop j demo_txt) \<and>
    (tsn_truncated_by_response_bound sn \<longleftrightarrow> 1 < int (length (drop j demo_txt))) \<and>
    (tsn_gap_before_output sn \<longleftrightarrow> 0 < j) \<and>
    tsn_output_cursor sn = cursor_at (int (length (utf8_bytes demo_txt))) (demo_owner True)"
  by (rule terminal_snapshot_total [OF demo_run]) (simp_all add: demo_clean demo_owner_def)

text \<open>
  Every subscriber is called once per write with exactly the bytes the write has made
  public and their offsets in the stream, so the calls of a subscription are contiguous; a
  write that makes nothing public calls nobody.
\<close>

theorem terminal_subscribers_contiguous:
  assumes "to_run s raws B n" and "append_raw raw s = Inr (public, nt, s')"
  shows "nt_calls nt = (if public = [] then [] else
      map (\<lambda>token. (token, public, int (length B), int (length (B @ public)))) (to_subscribers s)) \<and>
    to_through s' = int (length (B @ public)) \<and> nt_retained_changed nt = (public \<noteq> [])"
proof -
  note inv = to_run_inv [OF assms(1)]
  then obtain H where "B = utf8_bytes H" "retained_inv s H" by (auto simp: to_inv_def)
  then have thr: "to_through s = int (length B)" by (simp add: retained_inv_def)
  show ?thesis
  proof (cases "to_finalized s")
    case True
    with append_raw_finalized [OF inv True, of raw] assms(2) thr show ?thesis by auto
  next
    case False
    from append_raw_ok [OF inv False, of raw] assms(2) thr show ?thesis
      by (auto simp: notify_append_def notify_subscribers_def)
  qed
qed

theorem terminal_subscribers_contiguous_witness:
  "nt_calls \<lparr>nt_retained_changed = True, nt_calls = []\<rparr> =
     (if [0xC3, 0xA9, 0x20 :: byte] = [] then [] else
      map (\<lambda>token. (token, [0xC3, 0xA9, 0x20], int (length ([] :: bytes)),
        int (length ([] @ [0xC3, 0xA9, 0x20 :: byte])))) (to_subscribers (demo_owner False))) \<and>
   to_through (demo_owner True) = int (length ([] @ [0xC3, 0xA9, 0x20 :: byte])) \<and>
   nt_retained_changed \<lparr>nt_retained_changed = True, nt_calls = []\<rparr> = ([0xC3, 0xA9, 0x20 :: byte] \<noteq> [])"
  by (rule terminal_subscribers_contiguous [OF demo_run0 demo_append])

text \<open>
  Reads are closed exactly when no reader is inside a scope and nobody subscribes, and
  from then on no reader, subscriber or snapshot is admitted any more.
\<close>

theorem terminal_reads_close_idle:
  assumes "to_run s raws B n"
  shows "(fst (close_reads_if_idle s) \<longleftrightarrow> n = 0 \<and> to_subscribers s = []) \<and>
    (to_reads_closed s \<longrightarrow> n = 0 \<and> to_subscribers s = [] \<and> \<not> is_ok (begin_reading s) \<and>
      \<not> is_ok (terminal_snapshot_of m c s) \<and> \<not> is_ok (body_candidate_of c s) \<and>
      snd (install_subscription i s) = s)"
  using to_inv_readers(1) [OF to_run_inv [OF assms]]
  by (auto simp: readers_inv_def close_reads_if_idle_def begin_reading_def
      terminal_snapshot_of_def body_candidate_of_def install_subscription_def)

theorem terminal_reads_close_idle_witness:
  "\<not> is_ok (begin_reading (snd (close_reads_if_idle (demo_owner True)))) \<and>
   \<not> is_ok (terminal_snapshot_of 1 None (snd (close_reads_if_idle (demo_owner True)))) \<and>
   \<not> is_ok (body_candidate_of None (snd (close_reads_if_idle (demo_owner True))))"
proof -
  have "to_reads_closed (snd (close_reads_if_idle (demo_owner True)))"
    by (simp add: close_reads_if_idle_def demo_owner_def)
  with terminal_reads_close_idle [OF to_run_close [OF demo_run]] show ?thesis by blast
qed

end
