(* ===== verification/Text_Paging.thy ===== *)
theory Text_Paging
  imports Json
begin

text \<open>
  The line and column pager (\<open>primitives/text_paging.py\<close>): positions, their translation to
  character offsets and back, and the choice of a page that fits a caller's budget. The
  budget test \<open>fits\<close> is the caller's function and stays a parameter.
\<close>

section \<open>Positions\<close>

definition model_visible_max_logical_utf8_bytes :: int where
  "model_visible_max_logical_utf8_bytes = 40000"

record text_position =
  tp_line :: int
  tp_char_offset :: int

definition text_position_post_init :: "text_position \<Rightarrow> unit result" where
  "text_position_post_init p =
     (if tp_line p < 1 then Inl (ValueError ''line must be a positive integer'')
      else if tp_char_offset p < 0
      then Inl (ValueError ''char_offset must be a nonnegative integer'')
      else Inr ())"

record text_page =
  pg_text :: pystr
  pg_start :: text_position
  pg_next_position :: "text_position option"
  pg_start_offset :: nat
  pg_end_offset :: nat

text \<open>The ends of the matches of \<open>\r\n|\r|\n\<close>, and the offset of the first line.\<close>

fun ends_from :: "nat \<Rightarrow> pystr \<Rightarrow> nat list" where
  "ends_from i [] = []"
| "ends_from i [c] = (if c = 13 \<or> c = 10 then [i + 1] else [])"
| "ends_from i (c # d # t) =
     (if c = 13 \<and> d = 10 then (i + 2) # ends_from (i + 2) t
      else if c = 13 \<or> c = 10 then (i + 1) # ends_from (i + 1) (d # t)
      else ends_from (i + 1) (d # t))"

definition line_starts :: "pystr \<Rightarrow> nat list" where
  "line_starts t = 0 # ends_from 0 t"

text \<open>\<open>bisect_right\<close> of a sorted list: the number of elements up to the key.\<close>

definition bisect_right :: "nat list \<Rightarrow> nat \<Rightarrow> nat" where
  "bisect_right xs k = length (takeWhile (\<lambda>x. x \<le> k) xs)"

definition position_offset :: "pystr \<Rightarrow> text_position \<Rightarrow> nat list \<Rightarrow> nat result" where
  "position_offset t position starts =
     (if tp_line position > int (length starts)
      then if tp_char_offset position = 0 then Inr (length t)
           else Inl (ValueError ''text position is past EOF'')
      else
        let line = nat (tp_line position);
            start = starts ! (line - 1);
            end = (if line < length starts then starts ! line else length t)
        in if tp_char_offset position > int end - int start
           then Inl (ValueError ''char_offset is outside its line'')
           else Inr (start + nat (tp_char_offset position)))"

definition offset_position :: "nat \<Rightarrow> nat list \<Rightarrow> text_position" where
  "offset_position offset starts =
     (let index = bisect_right starts offset - 1
      in \<lparr>tp_line = int index + 1, tp_char_offset = int offset - int (starts ! index)\<rparr>)"

section \<open>Pages\<close>

definition slice :: "nat \<Rightarrow> nat \<Rightarrow> pystr \<Rightarrow> pystr" where
  "slice a b t = take (b - a) (drop a t)"

fun label_parts :: "pystr \<Rightarrow> int \<Rightarrow> nat list \<Rightarrow> pystr" where
  "label_parts t number [] = []"
| "label_parts t number (start # starts) =
     (let end = (case starts of [] \<Rightarrow> length t | s # _ \<Rightarrow> s)
      in (if start < end then int_text number @ [124] @ slice start end t else [])
         @ label_parts t (number + 1) starts)"

definition label_text :: "pystr \<Rightarrow> int \<Rightarrow> pystr" where
  "label_text t first_line = (if t = [] then [] else label_parts t first_line (line_starts t))"

definition candidate ::
  "pystr \<Rightarrow> nat list \<Rightarrow> bool \<Rightarrow> text_position \<Rightarrow> nat \<Rightarrow> nat \<Rightarrow> pystr \<times> text_position option"
where
  "candidate t starts line_labels position begin end =
     (let raw = slice begin end t
      in (if line_labels then label_text raw (tp_line position) else raw,
          if end < length t then Some (offset_position end starts) else None))"

text \<open>The binary search for the longest prefix that fits; \<open>ok\<close> is the budget test at an end.\<close>

function longest_fit :: "(nat \<Rightarrow> bool) \<Rightarrow> nat \<Rightarrow> nat \<Rightarrow> nat option \<Rightarrow> nat option" where
  "longest_fit ok low high winner =
     (if low \<le> high
      then let middle = (low + high) div 2
           in if ok middle then longest_fit ok (middle + 1) high (Some middle)
              else if middle = 0 then winner
              else longest_fit ok low (middle - 1) winner
      else winner)"
  by pat_completeness auto
termination
  by (relation "measure (\<lambda>(ok, low, high, winner). Suc high - low)") auto

declare longest_fit.simps [simp del]

definition page_ceiling :: "pystr \<Rightarrow> nat list \<Rightarrow> text_position \<Rightarrow> nat \<Rightarrow> int option \<Rightarrow> int option \<Rightarrow> nat" where
  "page_ceiling t starts position begin max_chars max_lines =
     (let ceiling = (case max_lines of
            None \<Rightarrow> length t
          | Some n \<Rightarrow>
              let boundary = tp_line position - 1 + n
              in if boundary < int (length starts) then min (length t) (starts ! nat boundary)
                 else length t)
      in min ceiling (begin + nat (case max_chars of
            Some n \<Rightarrow> n | None \<Rightarrow> model_visible_max_logical_utf8_bytes)))"

text \<open>
  The longest character prefix that fits, and the end of its last complete line when that
  end, rendered anew, still fits.
\<close>

definition page_winner :: "(nat \<Rightarrow> bool) \<Rightarrow> nat \<Rightarrow> nat \<Rightarrow> nat option" where
  "page_winner ok begin ceiling =
     (if ok ceiling then Some ceiling else longest_fit ok (begin + 1) ceiling None)"

definition page_end :: "(nat \<Rightarrow> bool) \<Rightarrow> pystr \<Rightarrow> nat list \<Rightarrow> nat \<Rightarrow> nat \<Rightarrow> nat" where
  "page_end ok t starts begin winner =
     (let complete = starts ! (bisect_right starts winner - 1)
      in if complete > begin
         then let end = (if winner = length t then winner else complete)
              in if ok end then end else winner
         else winner)"

definition paginate_text ::
  "pystr \<Rightarrow> text_position \<Rightarrow> (pystr \<Rightarrow> text_position option \<Rightarrow> bool) \<Rightarrow> int option \<Rightarrow> int option \<Rightarrow>
   bool \<Rightarrow> text_page result"
where
  "paginate_text t position fits max_chars max_lines line_labels =
     (if (case max_chars of Some n \<Rightarrow> n < 1 | None \<Rightarrow> False)
      then Inl (ValueError ''max_chars must be a positive integer'')
      else if (case max_lines of Some n \<Rightarrow> n < 1 | None \<Rightarrow> False)
      then Inl (ValueError ''max_lines must be a positive integer'')
      else
        let starts = line_starts t
        in case position_offset t position starts of
             Inl e \<Rightarrow> Inl e
           | Inr begin \<Rightarrow>
               let ceiling = page_ceiling t starts position begin max_chars max_lines;
                   cand = candidate t starts line_labels position begin;
                   ok = (\<lambda>end. fits (fst (cand end)) (snd (cand end)));
                   page = (\<lambda>end. \<lparr>pg_text = fst (cand end), pg_start = position,
                     pg_next_position = snd (cand end), pg_start_offset = begin,
                     pg_end_offset = end\<rparr>)
               in if begin = length t
                  then if ok begin then Inr (page begin)
                       else Inl (ToolResultPageBoundary
                         ''Text page metadata does not fit its result budget'')
                  else
                    (case page_winner ok begin ceiling of
                       None \<Rightarrow> Inl (ToolResultPageBoundary
                         ''A text character and its continuation do not fit the result budget'')
                     | Some winner \<Rightarrow>
                         let end = page_end ok t starts begin winner
                         in if ok end then Inr (page end)
                            else Inl (ToolResultPageBoundary
                              ''The final text page does not fit its result budget'')))"

section \<open>Line starts and positions\<close>

lemma ends_from_bounds: "e \<in> set (ends_from i t) \<Longrightarrow> i < e \<and> e \<le> i + length t"
  by (induction i t rule: ends_from.induct) (fastforce split: if_splits)+

lemma ends_from_sorted: "sorted_wrt (<) (ends_from i t)"
  by (induction i t rule: ends_from.induct) (auto dest: ends_from_bounds)

lemma line_starts_sorted: "sorted_wrt (<) (line_starts t)"
  by (auto simp: line_starts_def ends_from_sorted dest: ends_from_bounds)

lemma line_starts_bounds: "e \<in> set (line_starts t) \<Longrightarrow> e \<le> length t"
  by (auto simp: line_starts_def dest: ends_from_bounds)

lemma line_starts_hd [simp]: "line_starts t \<noteq> []" "line_starts t ! 0 = 0" "0 < length (line_starts t)"
  by (simp_all add: line_starts_def)

text \<open>The line an offset lies in: the last line start up to it.\<close>

lemma bisect_right_line:
  assumes "sorted_wrt (<) xs" and "xs \<noteq> []" and "xs ! 0 \<le> k"
  defines "i \<equiv> bisect_right xs k - 1"
  shows "i < length xs" and "xs ! i \<le> k" and "i + 1 < length xs \<Longrightarrow> k < xs ! (i + 1)"
proof -
  let ?P = "\<lambda>x. x \<le> k"
  have pos: "0 < length (takeWhile ?P xs)" using assms(2,3) by (cases xs) auto
  then show "i < length xs" using length_takeWhile_le [of ?P xs]
    unfolding i_def bisect_right_def by linarith
  have "i < length (takeWhile ?P xs)" using pos by (simp add: i_def bisect_right_def)
  then show "xs ! i \<le> k" using takeWhile_nth nth_mem set_takeWhileD by metis
  assume "i + 1 < length xs"
  then have "length (takeWhile ?P xs) < length xs" using pos by (simp add: i_def bisect_right_def)
  from nth_length_takeWhile [OF this] pos show "k < xs ! (i + 1)"
    by (simp add: i_def bisect_right_def not_le)
qed

lemma offset_position_in_line:
  assumes "a \<le> length t"
  shows "position_offset t (offset_position a (line_starts t)) (line_starts t) = Inr a"
    and "text_position_post_init (offset_position a (line_starts t)) = Inr ()"
proof -
  let ?xs = "line_starts t"
  let ?i = "bisect_right ?xs a - 1"
  note b = bisect_right_line [OF line_starts_sorted, of t a]
  have i: "?i < length ?xs" "?xs ! ?i \<le> a" using b(1,2) by simp_all
  have n: "a < ?xs ! (?i + 1)" if "?i + 1 < length ?xs" using b(3) that by simp
  show "position_offset t (offset_position a ?xs) ?xs = Inr a"
    using i n assms unfolding position_offset_def offset_position_def Let_def
    by (auto simp: nat_add_distrib)
  show "text_position_post_init (offset_position a ?xs) = Inr ()"
    using i by (auto simp: text_position_post_init_def offset_position_def Let_def)
qed

section \<open>The search and the page\<close>

lemma longest_fit_Some:
  "longest_fit ok low high w = Some e \<Longrightarrow> w = Some e \<or> (low \<le> e \<and> e \<le> high \<and> ok e)"
proof (induction ok low high w rule: longest_fit.induct)
  case (1 ok low high w)
  let ?m = "(low + high) div 2"
  show ?case
  proof (cases "low \<le> high")
    case False
    with "1.prems" show ?thesis by (simp add: longest_fit.simps [of ok low high w])
  next
    case True
    then have m: "low \<le> ?m" "?m \<le> high" by linarith+
    consider "ok ?m" | "\<not> ok ?m" "?m = 0" | "\<not> ok ?m" "?m \<noteq> 0" by blast
    then show ?thesis
    proof cases
      case 1
      with True "1.prems" have "longest_fit ok (?m + 1) high (Some ?m) = Some e"
        by (simp add: longest_fit.simps [of ok low high w] Let_def)
      from "1.IH"(1) [OF True refl 1 this] m 1 show ?thesis by auto
    next
      case 2
      with True "1.prems" show ?thesis by (simp add: longest_fit.simps [of ok low high w] Let_def)
    next
      case 3
      with True "1.prems" have "longest_fit ok low (?m - 1) w = Some e"
        by (simp add: longest_fit.simps [of ok low high w] Let_def)
      from "1.IH"(2) [OF True refl 3 this] m 3 show ?thesis by auto
    qed
  qed
qed

lemma slice_append: "a \<le> b \<Longrightarrow> b \<le> c \<Longrightarrow> slice a b t @ slice b c t = slice a c t"
proof -
  assume "a \<le> b" "b \<le> c"
  then have "take (c - a) (drop a t) = take ((b - a) + (c - b)) (drop a t)" by simp
  also have "\<dots> = take (b - a) (drop a t) @ take (c - b) (drop (b - a) (drop a t))" by (rule take_add)
  finally show ?thesis using \<open>a \<le> b\<close> by (simp add: slice_def)
qed

lemma position_offset_bounds:
  assumes "position_offset t position (line_starts t) = Inr begin"
    and "text_position_post_init position = Inr ()"
  shows "begin \<le> length t"
    and "nat (tp_line position) < length (line_starts t) \<Longrightarrow>
      begin \<le> line_starts t ! nat (tp_line position)"
proof -
  let ?xs = "line_starts t" and ?l = "nat (tp_line position)"
  have le: "?l < length ?xs \<Longrightarrow> ?xs ! ?l \<le> length t" by (simp add: line_starts_bounds)
  show b: "begin \<le> ?xs ! ?l" if "?l < length ?xs"
    using assms that by (auto simp: position_offset_def text_position_post_init_def Let_def split: if_splits)
  show "begin \<le> length t"
  proof (cases "?l < length ?xs")
    case True
    with b le show ?thesis by fastforce
  next
    case False
    with assms show ?thesis
      by (auto simp: position_offset_def text_position_post_init_def Let_def split: if_splits)
  qed
qed

text \<open>An offset is strictly before the next line start of its own position.\<close>

lemma offset_before_next_line:
  assumes "nat (tp_line (offset_position a (line_starts t))) < length (line_starts t)"
  shows "a < line_starts t ! nat (tp_line (offset_position a (line_starts t)))"
  using assms bisect_right_line(3) [OF line_starts_sorted, of t a]
  by (simp add: offset_position_def Let_def nat_add_distrib)

lemma page_ceiling_bounds:
  assumes p: "position_offset t position (line_starts t) = Inr begin"
    and v: "text_position_post_init position = Inr ()"
    and n: "\<And>n. max_lines = Some n \<Longrightarrow> 1 \<le> n" and m: "\<And>n. max_chars = Some n \<Longrightarrow> 1 \<le> n"
  defines "c \<equiv> page_ceiling t (line_starts t) position begin max_chars max_lines"
  shows "begin \<le> c" and "c \<le> length t"
    and "begin < length t \<Longrightarrow> position = offset_position begin (line_starts t) \<Longrightarrow> begin < c"
proof -
  let ?xs = "line_starts t"
  note pb = position_offset_bounds [OF p v]
  have line: "1 \<le> tp_line position" using v by (auto simp: text_position_post_init_def split: if_splits)
  have mc: "1 \<le> nat (case max_chars of Some n \<Rightarrow> n | None \<Rightarrow> model_visible_max_logical_utf8_bytes)"
    using m by (auto simp: model_visible_max_logical_utf8_bytes_def split: option.split)
  have later: "?xs ! nat (tp_line position) \<le> ?xs ! nat (tp_line position - 1 + k)"
    if "1 \<le> k" "tp_line position - 1 + k < int (length ?xs)" for k
    using sorted_wrt_nth_less [OF line_starts_sorted [of t], of "nat (tp_line position)"
        "nat (tp_line position - 1 + k)"] that line
    by (cases "k = 1") (auto simp: less_imp_le nat_less_iff)
  have lt: "nat (tp_line position) < length ?xs"
    if "1 \<le> k" "tp_line position - 1 + k < int (length ?xs)" for k using that line by linarith
  show "begin \<le> c"
    using pb(1) pb(2) [OF lt] later n
    by (fastforce simp: c_def page_ceiling_def Let_def split: option.split)
  show "c \<le> length t" by (auto simp: c_def page_ceiling_def Let_def split: option.split)
  show "begin < c" if "begin < length t" "position = offset_position begin ?xs"
    using that(1) mc offset_before_next_line [of "begin" t, folded that(2), OF lt] later n
    by (fastforce simp: c_def page_ceiling_def Let_def split: option.split)
qed

text \<open>What a returned page is, whatever the budget test does.\<close>

definition page_ok ::
  "pystr \<Rightarrow> (pystr \<Rightarrow> text_position option \<Rightarrow> bool) \<Rightarrow> bool \<Rightarrow> text_position \<Rightarrow> nat \<Rightarrow> text_page \<Rightarrow> bool"
where
  "page_ok t fits line_labels position begin pg \<longleftrightarrow>
     pg_start pg = position \<and> pg_start_offset pg = begin \<and>
     begin \<le> pg_end_offset pg \<and> pg_end_offset pg \<le> length t \<and>
     (pg_text pg, pg_next_position pg) =
       candidate t (line_starts t) line_labels position begin (pg_end_offset pg) \<and>
     fits (pg_text pg) (pg_next_position pg)"

lemma paginate_text_page:
  assumes r: "paginate_text t position fits mc ml ll = Inr pg"
    and v: "text_position_post_init position = Inr ()"
  obtains begin_at where "position_offset t position (line_starts t) = Inr begin_at"
    and "page_ok t fits ll position begin_at pg"
    and "begin_at < length t \<Longrightarrow> position = offset_position begin_at (line_starts t) \<Longrightarrow>
      begin_at < pg_end_offset pg"
proof -
  let ?xs = "line_starts t"
  from r obtain b where p: "position_offset t position ?xs = Inr b"
    by (auto simp: paginate_text_def Let_def split: sum.splits if_splits)
  have n: "1 \<le> n" if "ml = Some n" for n
    using r that by (auto simp: paginate_text_def split: if_splits)
  have m: "1 \<le> n" if "mc = Some n" for n
    using r that by (auto simp: paginate_text_def split: if_splits)
  define c where "c = page_ceiling t ?xs position b mc ml"
  have cb: "b \<le> c" "c \<le> length t"
    "b < length t \<Longrightarrow> position = offset_position b ?xs \<Longrightarrow> b < c"
    unfolding c_def by (rule page_ceiling_bounds [OF p v]; use n m in auto)+
  define cand where "cand = candidate t ?xs ll position b"
  define ok where "ok = (\<lambda>e. fits (fst (cand e)) (snd (cand e)))"
  define page where "page = (\<lambda>e. \<lparr>pg_text = fst (cand e), pg_start = position,
    pg_next_position = snd (cand e), pg_start_offset = b, pg_end_offset = e\<rparr>)"
  have pok: "page_ok t fits ll position b (page e)" if "ok e" "b \<le> e" "e \<le> length t" for e
    using that by (simp add: page_ok_def page_def ok_def cand_def)
  show thesis
  proof (cases "b = length t")
    case True
    with r p have "ok b" "pg = page b"
      by (auto simp: paginate_text_def Let_def ok_def page_def cand_def split: if_splits)
    with pok [of b] True p that show thesis by simp
  next
    case False
    from r p False obtain v where w: "page_winner ok b c = Some v"
      and pg: "ok (page_end ok t ?xs b v)" "pg = page (page_end ok t ?xs b v)"
      unfolding paginate_text_def ok_def page_def cand_def c_def Let_def
      by (auto split: if_splits option.splits)
    have v: "b \<le> v" "v \<le> c" "ok c \<longrightarrow> v = c" "\<not> ok c \<longrightarrow> b < v"
      using w longest_fit_Some [of ok "b + 1" c None v] cb(1)
      by (auto simp: page_winner_def split: if_splits)
    have "?xs ! (bisect_right ?xs v - 1) \<le> v"
      using bisect_right_line(2) [OF line_starts_sorted [of t], of v] by simp
    then have e: "b \<le> page_end ok t ?xs b v" "page_end ok t ?xs b v \<le> v"
      "b < v \<Longrightarrow> b < page_end ok t ?xs b v"
      using v(1) by (auto simp: page_end_def Let_def)
    have "page_end ok t ?xs b v \<le> length t" using e(2) v(2) cb(2) by simp
    from pok [OF pg(1) e(1) this] have "page_ok t fits ll position b pg" by (simp add: pg(2))
    moreover have "b < pg_end_offset pg" if "b < length t" "position = offset_position b ?xs"
      using cb(3) [OF that] v e(3) by (cases "ok c") (auto simp: pg(2) page_def)
    ultimately show thesis using that [OF p] by blast
  qed
qed

section \<open>Reading page after page\<close>

text \<open>
  A reader that follows \<open>next_position\<close> until there is none; \<open>None\<close> when \<open>fuel\<close> pages were
  not enough.
\<close>

fun read_pages ::
  "nat \<Rightarrow> pystr \<Rightarrow> text_position \<Rightarrow> (pystr \<Rightarrow> text_position option \<Rightarrow> bool) \<Rightarrow> int option \<Rightarrow>
   int option \<Rightarrow> bool \<Rightarrow> text_page list result option"
where
  "read_pages 0 t position fits mc ml ll = None"
| "read_pages (Suc fuel) t position fits mc ml ll =
     (case paginate_text t position fits mc ml ll of
        Inl e \<Rightarrow> Some (Inl e)
      | Inr pg \<Rightarrow>
          (case pg_next_position pg of
             None \<Rightarrow> Some (Inr [pg])
           | Some p \<Rightarrow> map_option (map_sum id (\<lambda>pgs. pg # pgs)) (read_pages fuel t p fits mc ml ll)))"

definition page_source :: "pystr \<Rightarrow> text_page \<Rightarrow> pystr" where
  "page_source t pg = slice (pg_start_offset pg) (pg_end_offset pg) t"

lemma page_ok_next:
  assumes "page_ok t fits ll position b pg"
  shows "pg_next_position pg =
      (if pg_end_offset pg < length t then Some (offset_position (pg_end_offset pg) (line_starts t))
       else None)"
    and "\<not> ll \<Longrightarrow> pg_text pg = page_source t pg"
  using assms by (auto simp: page_ok_def candidate_def page_source_def Let_def)

lemma read_pages_from:
  assumes "a \<le> length t" and "length t - a < fuel"
  shows "\<exists>r. read_pages fuel t (offset_position a (line_starts t)) fits mc ml ll = Some r \<and>
    (\<forall>pgs. r = Inr pgs \<longrightarrow> concat (map (page_source t) pgs) = drop a t \<and>
       (\<forall>pg \<in> set pgs. fits (pg_text pg) (pg_next_position pg) \<and>
          (\<not> ll \<longrightarrow> pg_text pg = page_source t pg)))"
  using assms
proof (induction fuel arbitrary: a)
  case 0
  then show ?case by simp
next
  case (Suc fuel)
  let ?p = "offset_position a (line_starts t)"
  show ?case
  proof (cases "paginate_text t ?p fits mc ml ll")
    case (Inl e)
    then show ?thesis by simp
  next
    case (Inr pg)
    from paginate_text_page [OF Inr offset_position_in_line(2) [OF Suc.prems(1)]]
    have ok: "page_ok t fits ll ?p a pg" and prog: "a < length t \<Longrightarrow> a < pg_end_offset pg"
      using offset_position_in_line(1) [OF Suc.prems(1)] by auto
    let ?e = "pg_end_offset pg"
    have b: "a \<le> ?e" "?e \<le> length t" "pg_start_offset pg = a"
      "fits (pg_text pg) (pg_next_position pg)" using ok by (simp_all add: page_ok_def)
    have src: "page_source t pg = slice a ?e t" by (simp add: page_source_def b(3))
    show ?thesis
    proof (cases "?e < length t")
      case False
      then have "slice a ?e t = drop a t" using b by (simp add: slice_def)
      with False Inr page_ok_next [OF ok] b(4) src show ?thesis by simp
    next
      case True
      then have "a < ?e" using prog b(1) by linarith
      then have "length t - ?e < fuel" using Suc.prems(2) True by linarith
      from Suc.IH [OF b(2) this] obtain r where
        r: "read_pages fuel t (offset_position ?e (line_starts t)) fits mc ml ll = Some r"
        and rp: "\<And>pgs. r = Inr pgs \<Longrightarrow> concat (map (page_source t) pgs) = drop ?e t \<and>
          (\<forall>pg \<in> set pgs. fits (pg_text pg) (pg_next_position pg) \<and>
             (\<not> ll \<longrightarrow> pg_text pg = page_source t pg))" by blast
      have "slice a ?e t @ drop ?e t = drop a t"
        using slice_append [OF b(1,2), of t] b(1) by (simp add: slice_def)
      with True Inr r rp page_ok_next [OF ok] b(4) src show ?thesis
        by (cases r) auto
    qed
  qed
qed

lemma read_pages_text:
  assumes "a \<le> length t" and "length t - a < fuel"
  shows "\<exists>r. read_pages fuel t (offset_position a (line_starts t)) fits mc ml False = Some r \<and>
    (\<forall>pgs. r = Inr pgs \<longrightarrow> concat (map pg_text pgs) = drop a t \<and>
       (\<forall>pg \<in> set pgs. fits (pg_text pg) (pg_next_position pg)))"
proof -
  have "map pg_text pgs = map (page_source t) pgs" if "\<forall>pg \<in> set pgs. pg_text pg = page_source t pg"
    for pgs using that by simp
  then show ?thesis using read_pages_from [OF assms, of fits mc ml False] by metis
qed

lemma read_pages_ok:
  assumes "\<And>b. b \<le> length t \<Longrightarrow>
      is_ok (paginate_text t (offset_position b (line_starts t)) fits mc ml ll)"
    and "b \<le> length t" and "read_pages k t (offset_position b (line_starts t)) fits mc ml ll = Some r"
  shows "is_ok r"
  using assms(2,3)
proof (induction k arbitrary: b r)
  case (Suc k)
  let ?p = "offset_position b (line_starts t)"
  from assms(1) [OF Suc.prems(1)] obtain pg where pg: "paginate_text t ?p fits mc ml ll = Inr pg"
    by (cases "paginate_text t ?p fits mc ml ll") auto
  from paginate_text_page [OF pg offset_position_in_line(2) [OF Suc.prems(1)]] obtain b' where
    po: "page_ok t fits ll ?p b' pg" by blast
  then have e: "pg_end_offset pg \<le> length t" by (simp add: page_ok_def)
  show ?case
  proof (cases "pg_end_offset pg < length t")
    case True
    with Suc.prems pg page_ok_next(1) [OF po] obtain q where
      "read_pages k t (offset_position (pg_end_offset pg) (line_starts t)) fits mc ml ll = Some q"
      "r = map_sum id (\<lambda>pgs. pg # pgs) q" by auto
    with Suc.IH [OF e] show ?thesis by (cases q) auto
  next
    case False
    with Suc.prems pg page_ok_next(1) [OF po] show ?thesis by auto
  qed
qed simp

section \<open>Properties\<close>

text \<open>
  Line and column positions are a faithful address: every offset of a text, its end
  included, is turned into a valid position that is turned back into the same offset.
\<close>

theorem position_roundtrip:
  assumes "a \<le> length t"
  shows "text_position_post_init (offset_position a (line_starts t)) = Inr () \<and>
    position_offset t (offset_position a (line_starts t)) (line_starts t) = Inr a"
  using offset_position_in_line [OF assms] by simp

theorem position_roundtrip_witness:
  "text_position_post_init (offset_position 3 (line_starts [97, 13, 10, 98])) = Inr () \<and>
   position_offset [97, 13, 10, 98] (offset_position 3 (line_starts [97, 13, 10, 98]))
     (line_starts [97, 13, 10, 98]) = Inr 3"
  by (rule position_roundtrip) simp

text \<open>
  Following the pages of a text from any position that the pager hands out reads the
  rest of it completely and exactly once: at most one page per remaining character and one
  more is read, every page is a contiguous piece that meets the caller's budget test together
  with its continuation, and the pieces joined are the text, whatever that test, the
  character and the line limits are. The only other outcome is the pager's own error.
\<close>

theorem pages_partition_text:
  assumes "a \<le> length t" and "length t - a < fuel"
  shows "\<exists>r. read_pages fuel t (offset_position a (line_starts t)) fits mc ml False = Some r \<and>
    (\<forall>pgs. r = Inr pgs \<longrightarrow> concat (map pg_text pgs) = drop a t \<and>
       (\<forall>pg \<in> set pgs. fits (pg_text pg) (pg_next_position pg)))"
  by (rule read_pages_text [OF assms])

theorem pages_partition_text_witness:
  "\<exists>r. read_pages 5 [97, 10, 98, 99] (offset_position 0 (line_starts [97, 10, 98, 99]))
      (\<lambda>s p. length s \<le> 2) None None False = Some r \<and>
    (\<forall>pgs. r = Inr pgs \<longrightarrow> concat (map pg_text pgs) = drop 0 [97, 10, 98, 99] \<and>
       (\<forall>pg \<in> set pgs. length (pg_text pg) \<le> 2))"
  by (rule pages_partition_text) simp_all

text \<open>
  When every rendered page meets the caller's budget test the pager never fails, so
  reading page after page from the start returns the whole text.
\<close>

theorem pages_total:
  assumes "\<And>s p. fits s p" and "a \<le> length t" and "length t - a < fuel"
    and "\<And>n. mc = Some n \<Longrightarrow> 1 \<le> n" and "\<And>n. ml = Some n \<Longrightarrow> 1 \<le> n"
  shows "\<exists>pgs. read_pages fuel t (offset_position a (line_starts t)) fits mc ml False = Some (Inr pgs) \<and>
    concat (map pg_text pgs) = drop a t"
proof -
  have ok: "is_ok (paginate_text t (offset_position b (line_starts t)) fits mc ml False)"
    if "b \<le> length t" for b
    using offset_position_in_line(1) [OF that] assms(1,4,5)
    by (auto simp: paginate_text_def Let_def page_winner_def split: option.split)
  from read_pages_text [OF assms(2,3), of fits mc ml] obtain r where
    r: "read_pages fuel t (offset_position a (line_starts t)) fits mc ml False = Some r"
    "\<forall>pgs. r = Inr pgs \<longrightarrow> concat (map pg_text pgs) = drop a t" by blast
  from read_pages_ok [OF ok assms(2) r(1)] r show ?thesis by (cases r) auto
qed

theorem pages_total_witness:
  "\<exists>pgs. read_pages 5 [97, 10, 98, 99] (offset_position 0 (line_starts [97, 10, 98, 99]))
      (\<lambda>s p. True) (Some 3) (Some 1) False = Some (Inr pgs) \<and>
    concat (map pg_text pgs) = drop 0 [97, 10, 98, 99]"
  by (rule pages_total) simp_all

end
