(* ===== verification/Provider_Stream.thy ===== *)
theory Provider_Stream
  imports Live_Payload Py_Text
begin

text \<open>
  The normalized provider stream (\<open>llm/normalized_transport.py\<close> with the types of
  \<open>ports/provider_stream.py\<close> and \<open>llm/result.py\<close>): one physical provider operation is read
  item by item, its blocks are checked against their own deltas, and exactly one terminal is
  delivered. What the physical stream yields is an input; the text of a failure passes
  through the sanitizer of \<open>llm/provider_sanitization.py\<close>, which is not modelled, so a
  terminal carries the arguments that sanitizer is called with.
\<close>

section \<open>Usage\<close>

record token_usage =
  tu_input_tokens :: "int option"
  tu_cached_input_tokens :: "int option"
  tu_output_tokens :: "int option"
  tu_reasoning_output_tokens :: "int option"
  tu_reported_total_tokens :: "int option"

datatype usage_status = USAGE_REPORTED | USAGE_PARTIAL | USAGE_MISSING | USAGE_INVALID

record usage_report =
  ur_usage_status :: usage_status
  ur_usage :: "token_usage option"
  ur_provider_diagnostics :: "pystr list"
  ur_reported_model_id :: "pystr option"

definition token_fields :: "token_usage \<Rightarrow> int option list" where
  "token_fields u = [tu_input_tokens u, tu_cached_input_tokens u, tu_output_tokens u,
     tu_reasoning_output_tokens u, tu_reported_total_tokens u]"

definition usage_report_post_init :: "usage_report \<Rightarrow> unit result" where
  "usage_report_post_init r =
     (if (case ur_usage r of
            None \<Rightarrow> False
          | Some u \<Rightarrow>
              \<not> list_ex (\<lambda>v. v \<noteq> None) (token_fields u) \<or>
              ur_usage_status r \<noteq>
                (if tu_input_tokens u \<noteq> None \<and> tu_output_tokens u \<noteq> None then USAGE_REPORTED
                 else USAGE_PARTIAL))
      then Inl (ValueError ''transport usage status differs from its observed fields'')
      else if ur_usage_status r \<in> {USAGE_REPORTED, USAGE_PARTIAL} \<and> ur_usage r = None
      then Inl (ValueError ''reported transport usage requires a usage fact'')
      else if ur_usage_status r \<in> {USAGE_MISSING, USAGE_INVALID} \<and> ur_usage r \<noteq> None
      then Inl (ValueError ''missing transport usage cannot contain a usage fact'')
      else if (case ur_reported_model_id r of None \<Rightarrow> False | Some m \<Rightarrow> m = [] \<or> m \<noteq> strip m)
      then Inl (ValueError ''reported model id must be a non-empty trimmed string'')
      else Inr ())"

section \<open>Items of the physical stream\<close>

datatype incomplete_reason =
    OUTPUT_TOKEN_LIMIT | CONTEXT_WINDOW_LIMIT_DURING_GENERATION | CONTENT_FILTERED
  | UNKNOWN_PROVIDER_INCOMPLETE

datatype adapter_terminal_kind = ADAPTER_COMPLETED | ADAPTER_OUTPUT_INCOMPLETE

datatype retry_reason =
    CONNECTION_RECOVERY | PROVIDER_RECOVERY | TOOL_ARGUMENT_REGENERATION

text \<open>A replay payload is opaque here: its bytes.\<close>

record adapter_terminal =
  at_terminal_kind :: adapter_terminal_kind
  at_incomplete_reason :: "incomplete_reason option"
  at_completed_replay_payload :: "bytes option"

definition adapter_terminal_post_init :: "adapter_terminal \<Rightarrow> unit result" where
  "adapter_terminal_post_init t =
     (let completed = (at_terminal_kind t = ADAPTER_COMPLETED)
      in if completed = (at_incomplete_reason t \<noteq> None)
         then Inl (ValueError ''provider adapter terminal reason union is invalid'')
         else if \<not> completed \<and> at_completed_replay_payload t \<noteq> None
         then Inl (ValueError ''incomplete provider terminal owns a replay payload'')
         else Inr ())"

record stream_failure =
  sf_message :: pystr
  sf_code_hint :: "pystr option"
  sf_retry_summary :: "pystr option"

definition stream_failure_post_init :: "stream_failure \<Rightarrow> unit result" where
  "stream_failure_post_init f =
     (if sf_message f = [] then Inl (ValueError ''provider failure message is empty'') else Inr ())"

text \<open>
  What one \<open>anext\<close> on the physical stream gives: an item, the end of the stream, an exception
  (with the \<open>reason_code\<close> of a contract error) or a cancellation of the reading task.
\<close>

datatype stream_item =
    Payload live_payload
  | GenerationRetry retry_reason
  | StreamFailure stream_failure
  | UsageReport usage_report
  | AdapterTerminal adapter_terminal
  | Unsupported

datatype stream_event = Item stream_item | Stopped | Raised pystr "pystr option" | Cancelled

text \<open>A stream that has no more events is exhausted and keeps raising \<open>StopAsyncIteration\<close>.\<close>

definition anext :: "stream_event list \<Rightarrow> stream_event \<times> stream_event list" where
  "anext src = (case src of [] \<Rightarrow> (Stopped, []) | e # rest \<Rightarrow> (e, rest))"

section \<open>The normalized execution\<close>

datatype terminal_kind = TERMINAL_COMPLETED | TERMINAL_OUTPUT_INCOMPLETE | TERMINAL_PROVIDER_ERROR

record sanitizer_input =
  si_message :: pystr
  si_code_hint :: "pystr option"
  si_retry_summary :: "pystr option"

record stream_terminal =
  st_terminal_kind :: terminal_kind
  st_usage :: usage_report
  st_incomplete_reason :: "incomplete_reason option"
  st_error :: "sanitizer_input option"
  st_completed_replay_payload :: "bytes option"

definition stream_terminal_post_init :: "stream_terminal \<Rightarrow> unit result" where
  "stream_terminal_post_init t =
     (let incomplete = (st_terminal_kind t = TERMINAL_OUTPUT_INCOMPLETE);
          failed = (st_terminal_kind t = TERMINAL_PROVIDER_ERROR)
      in if incomplete \<noteq> (st_incomplete_reason t \<noteq> None)
         then Inl (ValueError ''provider stream incomplete union is invalid'')
         else if failed \<noteq> (st_error t \<noteq> None)
         then Inl (ValueError ''provider stream terminal error union is invalid'')
         else if st_terminal_kind t \<noteq> TERMINAL_COMPLETED \<and> st_completed_replay_payload t \<noteq> None
         then Inl (ValueError ''non-completed terminal owns a replay payload'')
         else Inr ())"

datatype block_sort = SORT_TEXT | SORT_THINKING | SORT_DATA | SORT_TOOL

record open_block =
  ob_kind :: block_sort
  ob_name_or_media :: "pystr option"
  ob_chunks :: "pystr list"

record execution =
  ex_local_diagnostics :: "pystr list"
  ex_open :: "(pystr \<times> open_block) list"
  ex_seen :: "pystr list"
  ex_usage :: "usage_report option"
  ex_terminal_delivered :: bool
  ex_adapter_terminal_seen :: bool
  ex_physical_completed :: bool
  ex_physical_blocked :: bool

definition execution_init :: "pystr list \<Rightarrow> execution" where
  "execution_init local_diagnostics =
     \<lparr>ex_local_diagnostics = local_diagnostics, ex_open = [], ex_seen = [], ex_usage = None,
      ex_terminal_delivered = False, ex_adapter_terminal_seen = False,
      ex_physical_completed = False, ex_physical_blocked = False\<rparr>"

definition effective_usage :: "execution \<Rightarrow> usage_report" where
  "effective_usage x =
     (let report = (case ex_usage x of
            Some r \<Rightarrow> r
          | None \<Rightarrow> \<lparr>ur_usage_status = USAGE_MISSING, ur_usage = None, ur_provider_diagnostics = [],
                     ur_reported_model_id = None\<rparr>)
      in if ex_local_diagnostics x = [] then report
         else report\<lparr>ur_provider_diagnostics :=
                ex_local_diagnostics x @ ur_provider_diagnostics report\<rparr>)"

definition terminal_error ::
  "pystr \<Rightarrow> pystr option \<Rightarrow> pystr option \<Rightarrow> execution \<Rightarrow> stream_terminal \<times> execution"
where
  "terminal_error message code_hint retry_summary x =
     (\<lparr>st_terminal_kind = TERMINAL_PROVIDER_ERROR, st_usage = effective_usage x,
       st_incomplete_reason = None,
       st_error = Some \<lparr>si_message = message, si_code_hint = code_hint,
                        si_retry_summary = retry_summary\<rparr>,
       st_completed_replay_payload = None\<rparr>,
      x\<lparr>ex_terminal_delivered := True\<rparr>)"

text \<open>The three block operations; an exception leaves what was changed before it.\<close>

definition block_start :: "pystr \<Rightarrow> block_sort \<Rightarrow> pystr option \<Rightarrow> execution \<Rightarrow> unit result \<times> execution"
where
  "block_start identity kind name x =
     (if identity \<in> set (ex_seen x)
      then (Inl (ValueError ''provider reused a semantic block identity''), x)
      else (Inr (), x\<lparr>ex_seen := identity # ex_seen x,
              ex_open := AList.update identity
                \<lparr>ob_kind = kind, ob_name_or_media = name, ob_chunks = []\<rparr> (ex_open x)\<rparr>))"

definition block_delta :: "pystr \<Rightarrow> block_sort \<Rightarrow> pystr \<Rightarrow> execution \<Rightarrow> unit result \<times> execution" where
  "block_delta identity kind value x =
     (case map_of (ex_open x) identity of
        None \<Rightarrow> (Inl (ValueError ''provider delta lacks an exact start''), x)
      | Some block \<Rightarrow>
          if ob_kind block \<noteq> kind
          then (Inl (ValueError ''provider delta lacks an exact start''), x)
          else (Inr (), x\<lparr>ex_open := AList.update identity
                  (block\<lparr>ob_chunks := ob_chunks block @ [value]\<rparr>) (ex_open x)\<rparr>))"

definition block_end ::
  "pystr \<Rightarrow> block_sort \<Rightarrow> pystr \<Rightarrow> pystr option \<Rightarrow> execution \<Rightarrow> unit result \<times> execution"
where
  "block_end identity kind final_value name_or_media x =
     (let x1 = x\<lparr>ex_open := AList.delete identity (ex_open x)\<rparr>
      in case map_of (ex_open x) identity of
           None \<Rightarrow> (Inl (ValueError ''provider end lacks an exact start''), x1)
         | Some block \<Rightarrow>
             if ob_kind block \<noteq> kind
             then (Inl (ValueError ''provider end lacks an exact start''), x1)
             else if ob_name_or_media block \<noteq> name_or_media
             then (Inl (ValueError ''provider terminal block metadata changed''), x1)
             else if concat (ob_chunks block) \<noteq> final_value
             then (Inl (ValueError ''provider terminal block differs from its deltas''), x1)
             else (Inr (), x1))"

fun apply_payload :: "live_payload \<Rightarrow> execution \<Rightarrow> unit result \<times> execution" where
  "apply_payload (TextStartPayload i) x = block_start i SORT_TEXT None x"
| "apply_payload (ThinkingStartPayload i _) x = block_start i SORT_THINKING None x"
| "apply_payload (DataStartPayload i media) x = block_start i SORT_DATA (Some media) x"
| "apply_payload (ToolCallStartPayload i call name) x =
     (if call \<noteq> i then (Inl (ValueError ''tool-call stream identity mismatch''), x)
      else block_start i SORT_TOOL (Some name) x)"
| "apply_payload (TextDeltaPayload i d) x = block_delta i SORT_TEXT d x"
| "apply_payload (ThinkingDeltaPayload i d) x = block_delta i SORT_THINKING d x"
| "apply_payload (DataDeltaPayload i d) x = block_delta i SORT_DATA d x"
| "apply_payload (ToolCallDeltaPayload i call d) x =
     (if call \<noteq> i then (Inl (ValueError ''tool-call delta identity mismatch''), x)
      else block_delta i SORT_TOOL d x)"
| "apply_payload (TextEndPayload i t _ _) x = block_end i SORT_TEXT t None x"
| "apply_payload (ThinkingEndPayload i t _ _) x = block_end i SORT_THINKING t None x"
| "apply_payload (DataEndPayload i media d _ _) x = block_end i SORT_DATA d (Some media) x"
| "apply_payload (ToolCallEndPayload i call name a _ _) x =
     (if call \<noteq> i then (Inl (ValueError ''tool-call terminal identity mismatch''), x)
      else block_end i SORT_TOOL a (Some name) x)"
| "apply_payload _ x = (Inl (TypeError ''unsupported payload''), x)"

text \<open>What one read returns; \<open>ReadCancelled\<close> is the re-raised cancellation.\<close>

datatype read_result =
    Emitted live_payload | Retried retry_reason | Terminal stream_terminal | ReadCancelled

definition protocol_error :: "string \<Rightarrow> execution \<Rightarrow> read_result \<times> execution" where
  "protocol_error message x =
     (let (t, x') = terminal_error (lit message) (Some (lit ''transport_protocol_error'')) None x
      in (Terminal t, x'))"

text \<open>
  The second read of an adapter terminal: the physical stream has to end here. (The code's
  message also names the class of the trailing item.)
\<close>

definition settle_terminal ::
  "adapter_terminal \<Rightarrow> execution \<Rightarrow> stream_event list \<Rightarrow> read_result \<times> execution \<times> stream_event list"
where
  "settle_terminal item x src =
     (case anext src of
        (Cancelled, rest) \<Rightarrow> (ReadCancelled, x, rest)
      | (Stopped, rest) \<Rightarrow>
          let x1 = x\<lparr>ex_physical_completed := True, ex_terminal_delivered := True\<rparr>
          in (Terminal \<lparr>st_terminal_kind =
                  (if at_terminal_kind item = ADAPTER_COMPLETED then TERMINAL_COMPLETED
                   else TERMINAL_OUTPUT_INCOMPLETE),
                st_usage = effective_usage x1,
                st_incomplete_reason = at_incomplete_reason item, st_error = None,
                st_completed_replay_payload = at_completed_replay_payload item\<rparr>, x1, rest)
      | (Raised message _, rest) \<Rightarrow>
          let (t, x1) = terminal_error message None None x in (Terminal t, x1, rest)
      | (Item _, rest) \<Rightarrow>
          let (r, x1) = protocol_error ''Provider emitted an item after its explicit semantic terminal'' x
          in (r, x1, rest))"

text \<open>
  One turn of the loop; \<open>None\<close> is \<open>continue\<close>, which only an accepted usage report causes.
\<close>

definition read_item ::
  "stream_item \<Rightarrow> execution \<Rightarrow> stream_event list \<Rightarrow>
   (read_result \<times> execution \<times> stream_event list) option \<times> execution"
where
  "read_item item x src =
     (case item of
        GenerationRetry reason \<Rightarrow>
          (if ex_adapter_terminal_seen x
           then let (r, x1) = protocol_error ''Provider retried after its semantic terminal.'' x
                in (Some (r, x1, src), x1)
           else let x1 = x\<lparr>ex_open := [], ex_seen := [], ex_usage := None\<rparr>
                in (Some (Retried reason, x1, src), x1))
      | UsageReport u \<Rightarrow>
          (if ex_usage x \<noteq> None
           then let (r, x1) = protocol_error ''Provider emitted duplicate usage reports.'' x
                in (Some (r, x1, src), x1)
           else (None, x\<lparr>ex_usage := Some u\<rparr>))
      | StreamFailure f \<Rightarrow>
          let (t, x1) = terminal_error (sf_message f) (sf_code_hint f) (sf_retry_summary f) x
          in (Some (Terminal t, x1, src), x1)
      | AdapterTerminal t \<Rightarrow>
          (if ex_adapter_terminal_seen x
           then let (r, x1) = protocol_error ''Provider emitted duplicate semantic terminals.'' x
                in (Some (r, x1, src), x1)
           else let x1 = x\<lparr>ex_adapter_terminal_seen := True\<rparr>
                in if at_terminal_kind t = ADAPTER_COMPLETED \<and> ex_open x1 \<noteq> []
                   then let (r, x2) = protocol_error ''Provider completed with an open semantic block.'' x1
                        in (Some (r, x2, src), x2)
                   else (Some (settle_terminal t x1 src), x1))
      | Unsupported \<Rightarrow>
          let (r, x1) = protocol_error ''Provider emitted an unsupported semantic event.'' x
          in (Some (r, x1, src), x1)
      | Payload p \<Rightarrow>
          (if \<not> is_provider_stream_payload p
           then let (r, x1) = protocol_error ''Provider emitted an unsupported semantic event.'' x
                in (Some (r, x1, src), x1)
           else case apply_payload p x of
                  (Inl _, x1) \<Rightarrow>
                    let (r, x2) = protocol_error ''Provider emitted an invalid semantic event.'' x1
                    in (Some (r, x2, src), x2)
                | (Inr _, x1) \<Rightarrow> (Some (Emitted p, x1, src), x1)))"

fun read_loop :: "execution \<Rightarrow> stream_event list \<Rightarrow> read_result \<times> execution \<times> stream_event list" where
  "read_loop x [] =
     (let (r, x1) = protocol_error ''Provider stream ended before an explicit semantic terminal.''
            (x\<lparr>ex_physical_completed := True\<rparr>)
      in (r, x1, []))"
| "read_loop x (Stopped # src) =
     (let (r, x1) = protocol_error ''Provider stream ended before an explicit semantic terminal.''
            (x\<lparr>ex_physical_completed := True\<rparr>)
      in (r, x1, src))"
| "read_loop x (Cancelled # src) = (ReadCancelled, x, src)"
| "read_loop x (Raised message reason_code # src) =
     (let (t, x1) = terminal_error message reason_code None x in (Terminal t, x1, src))"
| "read_loop x (Item item # src) =
     (case read_item item x src of
        (Some outcome, _) \<Rightarrow> outcome
      | (None, x1) \<Rightarrow> read_loop x1 src)"

definition read_next ::
  "execution \<Rightarrow> stream_event list \<Rightarrow> (read_result \<times> execution \<times> stream_event list) option"
where
  "read_next x src = (if ex_terminal_delivered x then None else Some (read_loop x src))"

text \<open>\<open>closed\<close>: the outcome of closing the physical stream, when it can be closed.\<close>

datatype close_outcome = CloseFine | CloseCancelled | CloseFailed

definition aclose :: "close_outcome option \<Rightarrow> execution \<Rightarrow> bool \<times> execution" where
  "aclose closer x =
     (case closer of
        Some CloseCancelled \<Rightarrow> (False, x)
      | Some CloseFailed \<Rightarrow> (True, x\<lparr>ex_physical_blocked := True\<rparr>)
      | _ \<Rightarrow> (True, x\<lparr>ex_physical_completed := True\<rparr>))"

definition physical_completion :: "execution \<Rightarrow> bool \<times> string option" where
  "physical_completion x =
     (let completed = (ex_physical_completed x \<and> \<not> ex_physical_blocked x)
      in (completed, if completed then None else Some ''provider_physical_state_untrusted''))"

section \<open>The grammar of a block\<close>

text \<open>
  What the payloads say, apart from how they are checked: every payload of the provider
  stream starts, extends or ends the block of its identity.
\<close>

datatype block_role = Start "pystr option" | Delta pystr | End "pystr option" pystr

fun role_of :: "live_payload \<Rightarrow> (pystr \<times> block_sort \<times> block_role) option" where
  "role_of (TextStartPayload i) = Some (i, SORT_TEXT, Start None)"
| "role_of (ThinkingStartPayload i _) = Some (i, SORT_THINKING, Start None)"
| "role_of (DataStartPayload i media) = Some (i, SORT_DATA, Start (Some media))"
| "role_of (ToolCallStartPayload i call name) = Some (i, SORT_TOOL, Start (Some name))"
| "role_of (TextDeltaPayload i d) = Some (i, SORT_TEXT, Delta d)"
| "role_of (ThinkingDeltaPayload i d) = Some (i, SORT_THINKING, Delta d)"
| "role_of (DataDeltaPayload i d) = Some (i, SORT_DATA, Delta d)"
| "role_of (ToolCallDeltaPayload i call d) = Some (i, SORT_TOOL, Delta d)"
| "role_of (TextEndPayload i t _ _) = Some (i, SORT_TEXT, End None t)"
| "role_of (ThinkingEndPayload i t _ _) = Some (i, SORT_THINKING, End None t)"
| "role_of (DataEndPayload i media d _ _) = Some (i, SORT_DATA, End (Some media) d)"
| "role_of (ToolCallEndPayload i call name a _ _) = Some (i, SORT_TOOL, End (Some name) a)"
| "role_of _ = None"

text \<open>The roles of one block within a sequence of payloads, and the two shapes they may have.\<close>

definition block_trace :: "pystr \<Rightarrow> live_payload list \<Rightarrow> (block_sort \<times> block_role) list" where
  "block_trace i ps =
     List.map_filter (\<lambda>p. case role_of p of
        Some (j, r) \<Rightarrow> if j = i then Some r else None | None \<Rightarrow> None) ps"

definition open_trace :: "block_sort \<Rightarrow> pystr option \<Rightarrow> pystr list \<Rightarrow> (block_sort \<times> block_role) list" where
  "open_trace k name ds = (k, Start name) # map (\<lambda>d. (k, Delta d)) ds"

definition complete_trace :: "(block_sort \<times> block_role) list \<Rightarrow> bool" where
  "complete_trace tr \<longleftrightarrow>
     (\<exists>k name ds. tr = open_trace k name ds @ [(k, End name (concat ds))])"

lemma block_trace_Nil [simp]: "block_trace i [] = []"
  by (simp add: block_trace_def List.map_filter_def)

lemma block_trace_snoc:
  "block_trace i (ps @ [p]) = block_trace i ps @
     (case role_of p of Some (j, r) \<Rightarrow> if j = i then [r] else [] | None \<Rightarrow> [])"
  by (auto simp: block_trace_def List.map_filter_def split: option.split)

text \<open>An accepted payload is one of the three block operations on its own identity.\<close>

lemma apply_payload_role:
  assumes "apply_payload p x = (Inr (), x')"
  obtains i k name where "role_of p = Some (i, k, Start name)" "block_start i k name x = (Inr (), x')"
    | i k d where "role_of p = Some (i, k, Delta d)" "block_delta i k d x = (Inr (), x')"
    | i k name t where "role_of p = Some (i, k, End name t)" "block_end i k t name x = (Inr (), x')"
  using assms by (cases p) (auto split: if_splits)

text \<open>
  \<open>ps\<close> are the payloads emitted since the last retry: every identity either has not been used,
  has an open block holding exactly its deltas, or has a completed block.
\<close>

definition block_inv :: "open_block option \<Rightarrow> bool \<Rightarrow> (block_sort \<times> block_role) list \<Rightarrow> bool" where
  "block_inv blk seen tr \<longleftrightarrow>
     (case blk of
        Some b \<Rightarrow> seen \<and> tr = open_trace (ob_kind b) (ob_name_or_media b) (ob_chunks b)
      | None \<Rightarrow> if seen then complete_trace tr else tr = [])"

definition blocks_inv :: "execution \<Rightarrow> live_payload list \<Rightarrow> bool" where
  "blocks_inv x ps \<longleftrightarrow>
     (\<forall>i. block_inv (map_of (ex_open x) i) (i \<in> set (ex_seen x)) (block_trace i ps))"

lemma blocks_inv_step:
  assumes "blocks_inv x ps" and "role_of p = Some (i, r)"
    and "\<And>j. j \<noteq> i \<Longrightarrow> map_of (ex_open x') j = map_of (ex_open x) j \<and>
      (j \<in> set (ex_seen x') \<longleftrightarrow> j \<in> set (ex_seen x))"
    and "block_inv (map_of (ex_open x') i) (i \<in> set (ex_seen x')) (block_trace i ps @ [r])"
  shows "blocks_inv x' (ps @ [p])"
  unfolding blocks_inv_def
proof
  fix j
  show "block_inv (map_of (ex_open x') j) (j \<in> set (ex_seen x')) (block_trace j (ps @ [p]))"
    using assms by (cases "j = i") (simp_all add: blocks_inv_def block_trace_snoc)
qed

lemma open_trace_snoc: "open_trace k name ds @ [(k, Delta d)] = open_trace k name (ds @ [d])"
  by (simp add: open_trace_def)

lemma map_of_delete: "map_of (AList.delete k xs) = (map_of xs)(k := None)"
  by (rule AList.delete_conv')

lemma map_of_update: "map_of (AList.update k v xs) = (map_of xs)(k \<mapsto> v)"
  by (rule AList.update_conv')

lemma apply_payload_inv:
  assumes inv: "blocks_inv x ps" and ap: "apply_payload p x = (Inr (), x')"
  shows "blocks_inv x' (ps @ [p])"
  using ap
proof (cases rule: apply_payload_role)
  case (1 i k name)
  then have n: "i \<notin> set (ex_seen x)" and x': "ex_seen x' = i # ex_seen x"
    "map_of (ex_open x') = (map_of (ex_open x))(i \<mapsto>
       \<lparr>ob_kind = k, ob_name_or_media = name, ob_chunks = []\<rparr>)"
    by (auto simp: block_start_def map_of_update split: if_splits)
  have "block_inv (map_of (ex_open x) i) False (block_trace i ps)"
    using inv n by (simp add: blocks_inv_def) (metis n)
  then have "block_trace i ps = []" by (simp add: block_inv_def split: option.splits)
  then show ?thesis
    by (intro blocks_inv_step [OF inv 1(1)]) (auto simp: x' block_inv_def open_trace_def)
next
  case (2 i k d)
  then obtain b where b: "map_of (ex_open x) i = Some b" "ob_kind b = k" and x': "ex_seen x' = ex_seen x"
    "map_of (ex_open x') = (map_of (ex_open x))(i \<mapsto> b\<lparr>ob_chunks := ob_chunks b @ [d]\<rparr>)"
    by (auto simp: block_delta_def map_of_update split: if_splits option.splits)
  have "block_inv (Some b) (i \<in> set (ex_seen x)) (block_trace i ps)"
    using inv b(1) by (simp add: blocks_inv_def) (metis b(1))
  then show ?thesis
    by (intro blocks_inv_step [OF inv 2(1)]) (auto simp: x' b(2) block_inv_def open_trace_snoc)
next
  case (3 i k name t)
  then obtain b where b: "map_of (ex_open x) i = Some b" "ob_kind b = k" "ob_name_or_media b = name"
    "concat (ob_chunks b) = t" and x': "ex_seen x' = ex_seen x"
    "map_of (ex_open x') = (map_of (ex_open x))(i := None)"
    by (auto simp: block_end_def map_of_delete Let_def split: if_splits option.splits)
  have "block_inv (Some b) (i \<in> set (ex_seen x)) (block_trace i ps)"
    using inv b(1) by (simp add: blocks_inv_def) (metis b(1))
  then show ?thesis
    using b(2-4) by (intro blocks_inv_step [OF inv 3(1)])
      (auto simp: x' block_inv_def complete_trace_def)
qed

lemma apply_payload_delivered:
  "apply_payload p x = (Inr (), x') \<Longrightarrow> ex_terminal_delivered x' = ex_terminal_delivered x"
  by (erule apply_payload_role)
    (auto simp: block_start_def block_delta_def block_end_def Let_def split: if_splits option.splits)

section \<open>Sessions\<close>

text \<open>
  \<open>ex_run x rs\<close>: reading again and again from an execution, whatever its physical stream
  yields, has returned the results \<open>rs\<close> and leads to \<open>x\<close>.
\<close>

inductive ex_run :: "execution \<Rightarrow> read_result list \<Rightarrow> bool" where
  ex_run_init: "ex_run (execution_init ds) []"
| ex_run_read: "ex_run x rs \<Longrightarrow> read_next x src = Some (r, x', src') \<Longrightarrow> ex_run x' (rs @ [r])"
| ex_run_close: "ex_run x rs \<Longrightarrow> ex_run (snd (aclose c x)) rs"

text \<open>The payloads returned since the last retry.\<close>

fun emitted :: "read_result list \<Rightarrow> live_payload list" where
  "emitted [] = []"
| "emitted (Emitted p # rs) = p # emitted rs"
| "emitted (_ # rs) = emitted rs"

definition is_retry :: "read_result \<Rightarrow> bool" where
  "is_retry r = (case r of Retried _ \<Rightarrow> True | _ \<Rightarrow> False)"

definition current_attempt :: "read_result list \<Rightarrow> live_payload list" where
  "current_attempt rs = emitted (rev (takeWhile (\<lambda>r. \<not> is_retry r) (rev rs)))"

definition is_terminal :: "read_result \<Rightarrow> bool" where
  "is_terminal r = (case r of Terminal _ \<Rightarrow> True | _ \<Rightarrow> False)"

lemma emitted_append [simp]: "emitted (rs @ qs) = emitted rs @ emitted qs"
  by (induction rs rule: emitted.induct) auto

lemma current_attempt_snoc [simp]:
  "current_attempt [] = []"
  "current_attempt (rs @ [Emitted p]) = current_attempt rs @ [p]"
  "current_attempt (rs @ [Retried c]) = []"
  "current_attempt (rs @ [Terminal t]) = current_attempt rs"
  "current_attempt (rs @ [ReadCancelled]) = current_attempt rs"
  by (simp_all add: current_attempt_def is_retry_def)

text \<open>What a read does to the invariant and what its result tells about the state.\<close>

definition read_ok ::
  "live_payload list \<Rightarrow> read_result \<Rightarrow> execution \<Rightarrow> bool"
where
  "read_ok ps r x' \<longleftrightarrow>
     (case r of
        Emitted p \<Rightarrow> \<not> ex_terminal_delivered x' \<and> blocks_inv x' (ps @ [p])
      | Retried _ \<Rightarrow> \<not> ex_terminal_delivered x' \<and> blocks_inv x' []
      | ReadCancelled \<Rightarrow> \<not> ex_terminal_delivered x' \<and> blocks_inv x' ps
      | Terminal t \<Rightarrow> ex_terminal_delivered x' \<and>
          (st_terminal_kind t = TERMINAL_COMPLETED \<longrightarrow>
             blocks_inv x' ps \<and> ex_open x' = [] \<and> ex_physical_completed x') \<and>
          (st_terminal_kind t = TERMINAL_PROVIDER_ERROR) = (st_error t \<noteq> None))"

lemma blocks_inv_cong:
  "ex_open x' = ex_open x \<Longrightarrow> ex_seen x' = ex_seen x \<Longrightarrow> blocks_inv x' ps = blocks_inv x ps"
  by (simp add: blocks_inv_def)

lemma settle_terminal_ok:
  assumes "blocks_inv x ps" and "\<not> ex_terminal_delivered x"
    and "at_terminal_kind t = ADAPTER_COMPLETED \<Longrightarrow> ex_open x = []"
    and "settle_terminal t x src = (r, x', src')"
  shows "read_ok ps r x'"
  using assms
  by (auto simp: settle_terminal_def read_ok_def protocol_error_def terminal_error_def Let_def
      blocks_inv_def split: prod.splits stream_event.splits)

lemma read_item_ok:
  assumes inv: "blocks_inv x ps" and nd: "\<not> ex_terminal_delivered x"
    and r: "read_item it x src = (Some (r, x', src'), x1)"
  shows "read_ok ps r x'"
proof (cases it)
  case (Payload p)
  show ?thesis
  proof (cases "is_provider_stream_payload p")
    case True
    obtain v y where ap: "apply_payload p x = (v, y)" by fastforce
    show ?thesis
    proof (cases v)
      case (Inl e)
      with True r Payload ap show ?thesis
        by (auto simp: read_item_def protocol_error_def terminal_error_def read_ok_def)
    next
      case (Inr u)
      have "ex_terminal_delivered y = ex_terminal_delivered x"
        using apply_payload_delivered [of p x y] ap Inr by simp
      with True r Payload ap Inr nd apply_payload_inv [OF inv, of p y] show ?thesis
        by (auto simp: read_item_def read_ok_def)
    qed
  next
    case False
    with r Payload show ?thesis
      by (auto simp: read_item_def protocol_error_def terminal_error_def read_ok_def)
  qed
next
  case (GenerationRetry c)
  with r nd show ?thesis
    by (auto simp: read_item_def protocol_error_def terminal_error_def read_ok_def blocks_inv_def
        block_inv_def Let_def split: if_splits)
next
  case (StreamFailure f)
  with r show ?thesis by (auto simp: read_item_def terminal_error_def read_ok_def)
next
  case (UsageReport u)
  with r show ?thesis
    by (auto simp: read_item_def protocol_error_def terminal_error_def read_ok_def split: if_splits)
next
  case (AdapterTerminal t)
  let ?x1 = "x\<lparr>ex_adapter_terminal_seen := True\<rparr>"
  have i1: "blocks_inv ?x1 ps" using inv by (simp add: blocks_inv_def)
  consider "ex_adapter_terminal_seen x \<or> (at_terminal_kind t = ADAPTER_COMPLETED \<and> ex_open x \<noteq> [])"
    | "\<not> ex_adapter_terminal_seen x" "at_terminal_kind t = ADAPTER_COMPLETED \<Longrightarrow> ex_open x = []"
    by blast
  then show ?thesis
  proof cases
    case 1
    with r AdapterTerminal show ?thesis
      by (auto simp: read_item_def protocol_error_def terminal_error_def read_ok_def Let_def
          split: if_splits)
  next
    case 2
    with r AdapterTerminal have "settle_terminal t ?x1 src = (r, x', src')"
      by (auto simp: read_item_def Let_def split: if_splits)
    with 2(2) nd show ?thesis by (intro settle_terminal_ok [OF i1]) auto
  qed
next
  case Unsupported
  with r show ?thesis
    by (auto simp: read_item_def protocol_error_def terminal_error_def read_ok_def)
qed

lemma read_item_continue:
  "read_item it x src = (None, x1) \<Longrightarrow> \<exists>u. x1 = x\<lparr>ex_usage := Some u\<rparr>"
  by (cases it)
    (auto simp: read_item_def protocol_error_def terminal_error_def Let_def
      split: if_splits prod.splits sum.splits)

lemma read_loop_ok:
  assumes "blocks_inv x ps" and "\<not> ex_terminal_delivered x" and "read_loop x src = (r, x', src')"
  shows "read_ok ps r x'"
  using assms
proof (induction x src rule: read_loop.induct)
  case (5 x it src)
  obtain o1 x1 where ri: "read_item it x src = (o1, x1)" by fastforce
  show ?case
  proof (cases o1)
    case None
    with read_item_continue ri obtain u where x1: "x1 = x\<lparr>ex_usage := Some u\<rparr>" by blast
    have "blocks_inv x1 ps" "\<not> ex_terminal_delivered x1"
      using 5(2,3) by (simp_all add: x1 blocks_inv_def)
    from "5.IH" [OF _ _ this] 5(4) None ri show ?thesis by simp
  next
    case (Some w)
    with 5(4) ri have "read_item it x src = (Some (r, x', src'), x1)" by simp
    from read_item_ok [OF 5(2,3) this] show ?thesis .
  qed
qed (auto simp: protocol_error_def terminal_error_def read_ok_def)

lemma aclose_fields [simp]:
  "ex_open (snd (aclose c x)) = ex_open x" "ex_seen (snd (aclose c x)) = ex_seen x"
  "ex_terminal_delivered (snd (aclose c x)) = ex_terminal_delivered x"
  "ex_physical_completed x \<Longrightarrow> ex_physical_completed (snd (aclose c x))"
  by (auto simp: aclose_def split: option.split close_outcome.split)

lemma read_ok_aclose: "read_ok ps (Terminal t) x \<Longrightarrow> read_ok ps (Terminal t) (snd (aclose c x))"
  by (auto simp: read_ok_def blocks_inv_cong [of "snd (aclose c x)" x])

lemma ex_run_inv:
  assumes "ex_run x rs"
  shows "if ex_terminal_delivered x
    then \<exists>ts t. rs = ts @ [Terminal t] \<and> list_all (\<lambda>r. \<not> is_terminal r) ts \<and>
      read_ok (current_attempt rs) (Terminal t) x
    else list_all (\<lambda>r. \<not> is_terminal r) rs \<and> blocks_inv x (current_attempt rs)"
  using assms
proof (induction rule: ex_run.induct)
  case (ex_run_init ds)
  then show ?case by (simp add: execution_init_def blocks_inv_def block_inv_def)
next
  case (ex_run_read x rs src r x' src')
  then have nd: "\<not> ex_terminal_delivered x" and l: "read_loop x src = (r, x', src')"
    by (auto simp: read_next_def split: if_splits)
  with ex_run_read.IH have "blocks_inv x (current_attempt rs)"
    and nt: "list_all (\<lambda>r. \<not> is_terminal r) rs" by auto
  from read_loop_ok [OF this(1) nd l] nt show ?case
    by (cases r) (auto simp: read_ok_def is_terminal_def)
next
  case (ex_run_close x rs c)
  show ?case
  proof (cases "ex_terminal_delivered x")
    case True
    with ex_run_close.IH read_ok_aclose show ?thesis by fastforce
  next
    case False
    with ex_run_close.IH show ?thesis by (simp add: blocks_inv_cong [of "snd (aclose c x)" x])
  qed
qed

text \<open>
  The terminals a reader gets are valid values of their class: constructing one never raises,
  provided the adapter's own terminals and usage reports were constructed.
\<close>

definition source_ok :: "stream_event list \<Rightarrow> bool" where
  "source_ok src \<longleftrightarrow>
     (\<forall>t. Item (AdapterTerminal t) \<in> set src \<longrightarrow> adapter_terminal_post_init t = Inr ()) \<and>
     (\<forall>u. Item (UsageReport u) \<in> set src \<longrightarrow> usage_report_post_init u = Inr ())"

definition usage_ok :: "execution \<Rightarrow> bool" where
  "usage_ok x \<longleftrightarrow> (\<forall>u. ex_usage x = Some u \<longrightarrow> usage_report_post_init u = Inr ())"

definition terminal_ok :: "read_result \<Rightarrow> bool" where
  "terminal_ok r \<longleftrightarrow> (case r of
     Terminal t \<Rightarrow> stream_terminal_post_init t = Inr () \<and> usage_report_post_init (st_usage t) = Inr ()
   | _ \<Rightarrow> True)"

lemma usage_report_diagnostics [simp]:
  "usage_report_post_init (r\<lparr>ur_provider_diagnostics := d\<rparr>) = usage_report_post_init r"
  by (simp add: usage_report_post_init_def cong: option.case_cong)

lemma missing_usage_ok:
  "usage_report_post_init \<lparr>ur_usage_status = USAGE_MISSING, ur_usage = None,
     ur_provider_diagnostics = d, ur_reported_model_id = None\<rparr> = Inr ()"
  by (simp add: usage_report_post_init_def)

lemma effective_usage_ok: "usage_ok x \<Longrightarrow> usage_report_post_init (effective_usage x) = Inr ()"
  using missing_usage_ok
  by (cases "ex_usage x") (simp_all add: effective_usage_def usage_ok_def Let_def)

lemma effective_usage_cong: "ex_usage x' = ex_usage x \<Longrightarrow>
   ex_local_diagnostics x' = ex_local_diagnostics x \<Longrightarrow> effective_usage x' = effective_usage x"
  by (simp add: effective_usage_def Let_def)

lemma terminal_error_ok:
  "usage_ok x \<Longrightarrow> terminal_error m c r x = (t, x') \<Longrightarrow> terminal_ok (Terminal t)"
  by (auto simp: terminal_ok_def terminal_error_def stream_terminal_post_init_def effective_usage_ok)

lemma protocol_error_ok: "usage_ok x \<Longrightarrow> protocol_error m x = (r, x') \<Longrightarrow> terminal_ok r"
  using terminal_error_ok by (fastforce simp: protocol_error_def split: prod.splits)

lemma apply_payload_usage: "apply_payload p x = (v, x') \<Longrightarrow> ex_usage x' = ex_usage x"
  by (cases p) (auto simp: block_start_def block_delta_def block_end_def Let_def
      split: option.splits if_splits)

lemma settle_terminal_valid:
  assumes "usage_ok x" and "adapter_terminal_post_init t = Inr ()"
    and "settle_terminal t x src = (r, x', src')"
  shows "terminal_ok r"
proof -
  obtain e rest where n: "anext src = (e, rest)" by fastforce
  show ?thesis
  proof (cases e)
    case (Item it)
    with assms(3) n obtain y where "protocol_error
        ''Provider emitted an item after its explicit semantic terminal'' x = (r, y)"
      by (auto simp: settle_terminal_def split: prod.splits)
    with assms(1) protocol_error_ok show ?thesis by blast
  next
    case Stopped
    let ?x1 = "x\<lparr>ex_physical_completed := True, ex_terminal_delivered := True\<rparr>"
    have "effective_usage ?x1 = effective_usage x" by (rule effective_usage_cong) simp_all
    with Stopped assms n effective_usage_ok [OF assms(1)] show ?thesis
      by (cases "at_terminal_kind t")
        (auto simp: settle_terminal_def terminal_ok_def adapter_terminal_post_init_def
          stream_terminal_post_init_def Let_def split: if_splits)
  next
    case (Raised m c)
    with assms(3) n obtain u y where "terminal_error m None None x = (u, y)" "r = Terminal u"
      by (auto simp: settle_terminal_def split: prod.splits)
    with assms(1) terminal_error_ok show ?thesis by blast
  next
    case Cancelled
    with assms(3) n show ?thesis by (simp add: settle_terminal_def terminal_ok_def)
  qed
qed

lemma read_item_valid:
  assumes u: "usage_ok x" and it: "source_ok [Item it]"
    and r: "read_item it x src = (Some (r, x', src'), x1)"
  shows "terminal_ok r"
proof -
  have plain: "terminal_ok (Emitted p)" "terminal_ok (Retried c)" for p c
    by (simp_all add: terminal_ok_def)
  show ?thesis
  proof (cases it)
    case (AdapterTerminal t)
    let ?x1 = "x\<lparr>ex_adapter_terminal_seen := True\<rparr>"
    have "usage_ok ?x1" using u by (simp add: usage_ok_def)
    moreover have "adapter_terminal_post_init t = Inr ()" using it AdapterTerminal by (simp add: source_ok_def)
    moreover consider m y z where "protocol_error m y = (r, z)" "usage_ok y"
      | "settle_terminal t ?x1 src = (r, x', src')"
      using r AdapterTerminal u \<open>usage_ok ?x1\<close>
      by (auto simp: read_item_def Let_def split: if_splits prod.splits)
    ultimately show ?thesis using protocol_error_ok settle_terminal_valid by metis
  next
    case (Payload p)
    obtain v y where ap: "apply_payload p x = (v, y)" by fastforce
    have "usage_ok y" using u apply_payload_usage [OF ap] by (simp add: usage_ok_def)
    with r Payload ap u plain protocol_error_ok show ?thesis
      by (auto simp: read_item_def Let_def split: if_splits prod.splits sum.splits)
  next
    case (StreamFailure f)
    with r u terminal_error_ok show ?thesis
      by (auto simp: read_item_def split: prod.splits)
  qed (use r u plain protocol_error_ok in
      \<open>auto simp: read_item_def Let_def split: if_splits prod.splits\<close>)
qed

lemma read_loop_valid:
  assumes "usage_ok x" and "source_ok src" and "read_loop x src = (r, x', src')"
  shows "terminal_ok r"
  using assms
proof (induction x src rule: read_loop.induct)
  case (5 x it src)
  obtain o1 x1 where ri: "read_item it x src = (o1, x1)" by fastforce
  have it: "source_ok [Item it]" "source_ok src" using 5(3) by (auto simp: source_ok_def)
  show ?case
  proof (cases o1)
    case None
    with ri have "usage_ok x1"
      using 5(2) it(1) by (cases it)
        (auto simp: read_item_def usage_ok_def source_ok_def Let_def split: if_splits prod.splits sum.splits)
    from "5.IH" [OF _ _ this it(2)] 5(4) None ri show ?thesis by simp
  next
    case (Some w)
    with 5(4) ri have "read_item it x src = (Some (r, x', src'), x1)" by simp
    from read_item_valid [OF 5(2) it(1) this] show ?thesis .
  qed
next
  case (1 x)
  then have "usage_ok (x\<lparr>ex_physical_completed := True\<rparr>)" by (simp add: usage_ok_def)
  with 1 protocol_error_ok show ?case by (auto split: prod.splits)
next
  case (2 x src)
  then have "usage_ok (x\<lparr>ex_physical_completed := True\<rparr>)" by (simp add: usage_ok_def)
  with 2 protocol_error_ok show ?case by (auto split: prod.splits)
next
  case (3 x src)
  then show ?case by (simp add: terminal_ok_def)
next
  case (4 x m c src)
  then show ?case using terminal_error_ok by (auto split: prod.splits)
qed

section \<open>Properties\<close>

text \<open>
  C39. Whatever a provider yields, the payloads a reader has received in the current attempt
  obey the block grammar: the payloads of each identity start with one start, continue with
  deltas of the same kind, and end at most once, with the same metadata and with the exact
  concatenation of the deltas; nothing follows an end and no identity is used twice.
\<close>

theorem provider_blocks_exact:
  assumes "ex_run x rs" and "\<not> ex_terminal_delivered x"
  shows "block_trace i (current_attempt rs) = [] \<or>
    (\<exists>k name ds. block_trace i (current_attempt rs) = open_trace k name ds) \<or>
    complete_trace (block_trace i (current_attempt rs))"
proof -
  have "block_inv (map_of (ex_open x) i) (i \<in> set (ex_seen x)) (block_trace i (current_attempt rs))"
    using ex_run_inv [OF assms(1)] assms(2) by (simp add: blocks_inv_def)
  then show ?thesis by (auto simp: block_inv_def split: option.splits if_splits)
qed

definition demo_stream :: "stream_event list" where
  "demo_stream = [Item (Payload (TextStartPayload [98])), Item (Payload (TextDeltaPayload [98] [120])),
     Item (Payload (TextEndPayload [98] [120] 1 [])),
     Item (AdapterTerminal \<lparr>at_terminal_kind = ADAPTER_COMPLETED, at_incomplete_reason = None,
       at_completed_replay_payload = None\<rparr>), Stopped]"

definition demo_execution :: "nat \<Rightarrow> execution" where
  "demo_execution n = (execution_init [])\<lparr>
     ex_open := (if n = 1 then [([98], \<lparr>ob_kind = SORT_TEXT, ob_name_or_media = None, ob_chunks = []\<rparr>)]
       else if n = 2 then [([98], \<lparr>ob_kind = SORT_TEXT, ob_name_or_media = None, ob_chunks = [[120]]\<rparr>)]
       else []),
     ex_seen := (if n = 0 then [] else [[98]]), ex_adapter_terminal_seen := 4 \<le> n,
     ex_physical_completed := 4 \<le> n, ex_terminal_delivered := 4 \<le> n\<rparr>"

definition demo_terminal :: stream_terminal where
  "demo_terminal = \<lparr>st_terminal_kind = TERMINAL_COMPLETED,
     st_usage = effective_usage (execution_init []), st_incomplete_reason = None, st_error = None,
     st_completed_replay_payload = None\<rparr>"

definition demo_results :: "read_result list" where
  "demo_results = [Emitted (TextStartPayload [98]), Emitted (TextDeltaPayload [98] [120]),
     Emitted (TextEndPayload [98] [120] 1 []), Terminal demo_terminal]"

lemma demo_execution_run:
  "ex_run (demo_execution 2) (take 2 demo_results)" "ex_run (demo_execution 4) demo_results"
proof -
  have 0: "ex_run (demo_execution 0) []"
    using ex_run_init [of "[]"] by (simp add: demo_execution_def execution_init_def)
  have "read_next (demo_execution 0) demo_stream =
      Some (Emitted (TextStartPayload [98]), demo_execution 1, drop 1 demo_stream)"
    by (simp add: read_next_def demo_stream_def demo_execution_def execution_init_def read_item_def
        block_start_def)
  from ex_run_read [OF 0 this] have 1: "ex_run (demo_execution 1) [Emitted (TextStartPayload [98])]"
    by simp
  have "read_next (demo_execution 1) (drop 1 demo_stream) =
      Some (Emitted (TextDeltaPayload [98] [120]), demo_execution 2, drop 2 demo_stream)"
    by (simp add: read_next_def demo_stream_def demo_execution_def execution_init_def read_item_def
        block_delta_def)
  from ex_run_read [OF 1 this] show 2: "ex_run (demo_execution 2) (take 2 demo_results)"
    by (simp add: demo_results_def)
  have "read_next (demo_execution 2) (drop 2 demo_stream) =
      Some (Emitted (TextEndPayload [98] [120] 1 []), demo_execution 3, drop 3 demo_stream)"
    by (simp add: read_next_def demo_stream_def demo_execution_def execution_init_def read_item_def
        block_end_def)
  from ex_run_read [OF 2 this] have 3: "ex_run (demo_execution 3) (take 3 demo_results)"
    by (simp add: demo_results_def)
  have "read_next (demo_execution 3) (drop 3 demo_stream) =
      Some (Terminal demo_terminal, demo_execution 4, [])"
    by (simp add: read_next_def demo_stream_def demo_execution_def execution_init_def read_item_def
        settle_terminal_def anext_def demo_terminal_def effective_usage_def)
  from ex_run_read [OF 3 this] show "ex_run (demo_execution 4) demo_results"
    by (simp add: demo_results_def)
qed

theorem provider_blocks_exact_witness:
  "block_trace [98] (current_attempt (take 2 demo_results)) = [] \<or>
   (\<exists>k name ds. block_trace [98] (current_attempt (take 2 demo_results)) = open_trace k name ds) \<or>
   complete_trace (block_trace [98] (current_attempt (take 2 demo_results)))"
  by (rule provider_blocks_exact [OF demo_execution_run(1)])
    (simp add: demo_execution_def execution_init_def)

text \<open>
  A completed terminal means what it says: it is the last thing a reader ever receives,
  the physical stream has ended, and every block started in the accepted attempt has been
  ended with the concatenation of its deltas.
\<close>

theorem provider_completed_sound:
  assumes "ex_run x rs" and "Terminal t \<in> set rs" and "st_terminal_kind t = TERMINAL_COMPLETED"
  shows "last rs = Terminal t \<and> list_all (\<lambda>r. \<not> is_terminal r) (butlast rs) \<and>
    read_next x src = None \<and> ex_physical_completed x \<and>
    (\<forall>i. block_trace i (current_attempt rs) = [] \<or> complete_trace (block_trace i (current_attempt rs)))"
proof -
  note inv = ex_run_inv [OF assms(1)]
  have d: "ex_terminal_delivered x"
  proof (rule ccontr)
    assume "\<not> ex_terminal_delivered x"
    with inv have "\<forall>r \<in> set rs. \<not> is_terminal r" by (simp add: list_all_iff)
    with assms(2) show False by (auto simp: is_terminal_def)
  qed
  with inv obtain ts u where rs: "rs = ts @ [Terminal u]" and ts: "list_all (\<lambda>r. \<not> is_terminal r) ts"
    and ok: "read_ok (current_attempt rs) (Terminal u) x" by auto
  have "u = t" using assms(2) ts by (auto simp: rs list_all_iff is_terminal_def)
  with ok assms(3) have "blocks_inv x (current_attempt rs)" "ex_open x = []" "ex_physical_completed x"
    by (auto simp: read_ok_def)
  then have "block_inv None (i \<in> set (ex_seen x)) (block_trace i (current_attempt rs))" for i
    by (simp add: blocks_inv_def)
  then have "block_trace i (current_attempt rs) = [] \<or> complete_trace (block_trace i (current_attempt rs))"
    for i by (simp add: block_inv_def) metis
  with rs ts \<open>u = t\<close> d \<open>ex_physical_completed x\<close> show ?thesis by (simp add: read_next_def)
qed

theorem provider_completed_sound_witness:
  "last demo_results = Terminal demo_terminal \<and>
   list_all (\<lambda>r. \<not> is_terminal r) (butlast demo_results) \<and>
   read_next (demo_execution 4) [] = None \<and> ex_physical_completed (demo_execution 4) \<and>
   (\<forall>i. block_trace i (current_attempt demo_results) = [] \<or>
      complete_trace (block_trace i (current_attempt demo_results)))"
  by (rule provider_completed_sound [OF demo_execution_run(2)])
    (simp_all add: demo_results_def demo_terminal_def)

text \<open>
  A terminal never fails to be built: whatever the stream does, the terminal a read
  returns satisfies the checks its own constructor makes and carries a valid usage report,
  given that the adapter's terminals and reports and the usage held so far are valid.
\<close>

theorem provider_terminal_valid:
  assumes "usage_ok x" and "source_ok src" and "read_next x src = Some (Terminal t, x', src')"
  shows "stream_terminal_post_init t = Inr () \<and> usage_report_post_init (st_usage t) = Inr ()"
  using read_loop_valid [OF assms(1,2), of "Terminal t" x' src'] assms(3)
  by (simp add: read_next_def terminal_ok_def split: if_splits)

theorem provider_terminal_valid_witness:
  "stream_terminal_post_init demo_terminal = Inr () \<and>
   usage_report_post_init (st_usage demo_terminal) = Inr ()"
proof (rule provider_terminal_valid)
  show "usage_ok (demo_execution 3)" by (simp add: usage_ok_def demo_execution_def execution_init_def)
  show "source_ok (drop 3 demo_stream)"
    by (simp add: source_ok_def demo_stream_def adapter_terminal_post_init_def)
  show "read_next (demo_execution 3) (drop 3 demo_stream) =
      Some (Terminal demo_terminal, demo_execution 4, [])"
    by (simp add: read_next_def demo_stream_def demo_execution_def execution_init_def read_item_def
        settle_terminal_def anext_def demo_terminal_def effective_usage_def)
qed

end
