(* ===== verification/Canonical_Json.thy ===== *)
theory Canonical_Json
  imports Json_Scalar
begin

text \<open>
  Canonical JSON as the code hashes and stores it (\<open>primitives/_context_base.py\<close>): the encoded
  bytes, fingerprints over them, and frozen values, whose objects have their keys in order.
\<close>

section \<open>Bytes and fingerprints\<close>

definition canonical_json_bytes :: "json \<Rightarrow> bytes result" where
  "canonical_json_bytes v =
     (case json_dumps True v of Inl e \<Rightarrow> Inl e | Inr t \<Rightarrow> utf8_encode t)"

definition sha_text :: "(bytes \<Rightarrow> pystr) \<Rightarrow> string \<Rightarrow> json \<Rightarrow> pystr result" where
  "sha_text sha domain v =
     (case canonical_json_bytes v of
        Inl e \<Rightarrow> Inl e
      | Inr bs \<Rightarrow> Inr (lit ''sha256:'' @ sha (utf8_bytes (lit domain @ [0]) @ bs)))"

text \<open>\<open>canonical_json_bytes(value).decode("utf-8")\<close>\<close>

definition canonical_text :: "json \<Rightarrow> pystr result" where
  "canonical_text v = bind_result (canonical_json_bytes v) utf8_decode"

lemma sha_text_ok:
  assumes "json_finite v" and "json_scalar v"
  shows "\<exists>t. sha_text sha domain v = Inr t"
  using assms scalar_json_text [of v True]
  by (simp add: sha_text_def canonical_json_bytes_def json_dumps_def utf8_encode_def
      list_all_iff scalar_text_def)

lemma sha_text_scalar:
  assumes "sha_text sha domain v = Inr t" and "\<And>bs. scalar_text (sha bs)"
  shows "scalar_text t"
  using assms by (auto simp: sha_text_def simp del: lit_Cons split: sum.splits)

lemma canonical_json_bytes_ok:
  "json_finite v \<Longrightarrow> json_scalar v \<Longrightarrow> canonical_json_bytes v = Inr (utf8_bytes (json_text True v))"
  using scalar_json_text [of v True]
  by (simp add: canonical_json_bytes_def json_dumps_def utf8_encode_def scalar_text_iff)

lemma canonical_text_ok: "json_finite v \<Longrightarrow> json_scalar v \<Longrightarrow> canonical_text v = Inr (json_text True v)"
  using scalar_json_text [of v True] utf8_decode_encode [of "json_text True v"]
  by (simp add: canonical_text_def canonical_json_bytes_ok utf8_encode_def scalar_text_iff)

lemma canonical_text_Inr: "canonical_text v = Inr t \<Longrightarrow> t = json_text True v"
  using utf8_decode_encode [of "json_text True v"]
  by (auto simp: canonical_text_def canonical_json_bytes_def json_dumps_def bind_result_Inr split: if_splits)

section \<open>Frozen values\<close>

text \<open>
  \<open>freeze_json\<close> turns every object into entries in the order of their keys; \<open>thaw_json\<close> gives a
  dictionary back and keeps that order. A value of the model is either form.
\<close>

fun freeze_json :: "json \<Rightarrow> json result" where
  "freeze_json (JFloat None) = Inl (ValueError ''JSON floats must be finite'')"
| "freeze_json (JList xs) = map_sum id JList (map_result freeze_json xs)"
| "freeze_json (JObj kvs) =
     map_sum id JObj (map_result (\<lambda>p. map_sum id (Pair (fst p)) (freeze_json (snd p))) (json_items True kvs))"
| "freeze_json v = Inr v"

fun thaw_json :: "json \<Rightarrow> json" where
  "thaw_json (JList xs) = JList (map thaw_json xs)"
| "thaw_json (JObj kvs) = JObj (map (\<lambda>p. (fst p, thaw_json (snd p))) kvs)"
| "thaw_json v = v"

fun unique_keys :: "json \<Rightarrow> bool" where
  "unique_keys (JList xs) \<longleftrightarrow> (\<forall>x \<in> set xs. unique_keys x)"
| "unique_keys (JObj kvs) \<longleftrightarrow> distinct (map fst kvs) \<and> (\<forall>p \<in> set kvs. unique_keys (snd p))"
| "unique_keys _ \<longleftrightarrow> True"

text \<open>What the validators of the frozen classes check, at every depth.\<close>

fun is_frozen :: "json \<Rightarrow> bool" where
  "is_frozen (JFloat t) \<longleftrightarrow> t \<noteq> None"
| "is_frozen (JList xs) \<longleftrightarrow> (\<forall>x \<in> set xs. is_frozen x)"
| "is_frozen (JObj kvs) \<longleftrightarrow> sorted (map fst kvs) \<and> distinct (map fst kvs) \<and> (\<forall>p \<in> set kvs. is_frozen (snd p))"
| "is_frozen _ \<longleftrightarrow> True"

lemma thaw_json_id [simp]: "thaw_json v = v"
proof (induction v)
  case (JList xs)
  then show ?case by (simp add: map_idI)
next
  case (JObj kvs)
  have "map (\<lambda>p. (fst p, thaw_json (snd p))) kvs = kvs"
    by (rule map_idI) (use JObj in \<open>auto simp: snds.simps\<close>)
  then show ?case by simp
qed simp_all

lemma json_items_sorted:
  "sorted (map fst (json_items True kvs))" "set (map fst (json_items True kvs)) = set (map fst kvs)"
  "distinct (map fst (json_items True kvs)) = distinct (map fst kvs)"
  by (simp_all add: json_items_def distinct_map)

lemma json_items_idle: "sorted (map fst kvs) \<Longrightarrow> json_items True kvs = kvs"
  by (simp add: json_items_def sort_key_id_if_sorted)

text \<open>Freezing keeps the canonical text, so fingerprints do not depend on the order of members.\<close>

lemma freeze_json_frozen:
  "freeze_json v = Inr w \<Longrightarrow> unique_keys v \<Longrightarrow> is_frozen w \<and> json_text True w = json_text True v \<and> json_finite v"
proof (induction v arbitrary: w rule: freeze_json.induct)
  case (2 xs)
  from "2.prems"(1) obtain ys where w: "w = JList ys" and ys: "list_all2 (\<lambda>x y. freeze_json x = Inr y) xs ys"
    by (auto simp: map_sum_Inr map_result_Inr)
  have "list_all2 (\<lambda>x y. is_frozen y \<and> json_text True y = json_text True x \<and> json_finite x) xs ys"
    using ys by (rule list.rel_mono_strong) (use 2 in auto)
  then have "(\<forall>y \<in> set ys. is_frozen y) \<and> map (json_text True) ys = map (json_text True) xs \<and> (\<forall>x \<in> set xs. json_finite x)"
    by (induction rule: list_all2_induct) auto
  then show ?case by (simp add: w)
next
  case (3 kvs)
  let ?is = "json_items True kvs"
  from "3.prems"(1) obtain ys where w: "w = JObj ys" and
    ys: "list_all2 (\<lambda>p q. map_sum id (Pair (fst p)) (freeze_json (snd p)) = Inr q) ?is ys"
    by (auto simp: map_sum_Inr map_result_Inr)
  have "list_all2 (\<lambda>p q. fst q = fst p \<and> is_frozen (snd q) \<and> json_text True (snd q) = json_text True (snd p) \<and>
      json_finite (snd p)) ?is ys"
    using ys by (rule list.rel_mono_strong) (use 3 in \<open>auto simp: map_sum_Inr\<close>)
  then have *: "map fst ys = map fst ?is \<and> (\<forall>q \<in> set ys. is_frozen (snd q)) \<and>
      map (\<lambda>p. json_string (fst p) @ [58] @ json_text True (snd p)) ys =
      map (\<lambda>p. json_string (fst p) @ [58] @ json_text True (snd p)) ?is \<and> (\<forall>p \<in> set ?is. json_finite (snd p))"
    by (induction rule: list_all2_induct) auto
  then have "sorted (map fst ys)" "distinct (map fst ys)"
    using json_items_sorted [of kvs] 3 by simp_all
  with * show ?case using 3 by (simp add: w json_items_idle)
qed auto

lemma freeze_json_total: "json_finite v \<Longrightarrow> \<exists>w. freeze_json v = Inr w"
proof (induction v rule: freeze_json.induct)
  case (2 xs)
  then have "\<forall>x \<in> set xs. freeze_json x = Inr (projr (freeze_json x))" by fastforce
  then have "map_result freeze_json xs = Inr (map (\<lambda>x. projr (freeze_json x)) xs)"
    by (intro map_result_total) auto
  then show ?case by simp
next
  case (3 kvs)
  have "map_result (\<lambda>p. map_sum id (Pair (fst p)) (freeze_json (snd p))) (json_items True kvs) =
      Inr (map (\<lambda>p. (fst p, projr (freeze_json (snd p)))) (json_items True kvs))"
  proof (rule map_result_total)
    fix p assume "p \<in> set (json_items True kvs)"
    with 3 obtain w where "freeze_json (snd p) = Inr w" by fastforce
    then show "map_sum id (Pair (fst p)) (freeze_json (snd p)) = Inr (fst p, projr (freeze_json (snd p)))" by simp
  qed
  then show ?case by simp
qed auto

end
