(* ===== verification/Permission.thy ===== *)
theory Permission
  imports Canonical_Json Py_Text
begin

text \<open>
  Permission presets, policies and run snapshots: \<open>primitives/permission.py\<close> (the four
  modes and their canonical expansion), the value types and the resolution of
  \<open>tool_permission.py\<close>, and \<open>primitives/run_permission.py\<close> (the frozen permission of one
  accepted turn). SHA-256 is not under \<open>src/\<close>: the hexadecimal digest of a byte string is
  the parameter \<open>sha\<close>. A dictionary is its list of items in the order the source writes
  them; both sides of the one dictionary comparison write the same order.
\<close>

section \<open>Enumerations with text values\<close>

text \<open>
  \<open>Enum(value)\<close> for a \<open>StrEnum\<close> given by its members and their values.
\<close>

fun enum_lookup :: "(pystr \<times> 'a) list \<Rightarrow> pystr \<Rightarrow> 'a result" where
  "enum_lookup [] t = Inl (ValueError ''not a valid member'')"
| "enum_lookup ((v, m) # ms) t = (if t = v then Inr m else enum_lookup ms t)"

datatype permission_mode = Read_Only | Ask_Permissions | Accept_Edits | Bypass_Permissions

fun mode_value :: "permission_mode \<Rightarrow> pystr" where
  "mode_value Read_Only = lit ''read-only''"
| "mode_value Ask_Permissions = lit ''ask-permissions''"
| "mode_value Accept_Edits = lit ''accept-edits''"
| "mode_value Bypass_Permissions = lit ''bypass-permissions''"

definition permission_modes :: "permission_mode list" where
  "permission_modes = [Read_Only, Ask_Permissions, Accept_Edits, Bypass_Permissions]"

definition default_permission_mode :: permission_mode where
  "default_permission_mode = Bypass_Permissions"

definition permission_preset_contract_id :: pystr where
  "permission_preset_contract_id = lit ''pulsara.permission-presets.v2''"

definition enum_table :: "('a \<Rightarrow> pystr) \<Rightarrow> 'a list \<Rightarrow> (pystr \<times> 'a) list" where
  "enum_table val ms = map (\<lambda>m. (val m, m)) ms"

text \<open>A caller passes a member or its text.\<close>

datatype 'a enum_arg = Member 'a | Text pystr

fun parse_permission_mode :: "permission_mode enum_arg \<Rightarrow> permission_mode result" where
  "parse_permission_mode (Member m) = Inr m"
| "parse_permission_mode (Text t) =
     (case enum_lookup (enum_table mode_value permission_modes) (strip t) of
        Inl _ \<Rightarrow> Inl (ValueError ''Invalid permission mode'')
      | Inr m \<Rightarrow> Inr m)"

section \<open>The preset table\<close>

definition jtext :: "string \<Rightarrow> json" where
  "jtext s = JStr (lit s)"

definition preset_payload ::
  "string \<Rightarrow> string \<Rightarrow> string \<Rightarrow> string \<Rightarrow> string \<Rightarrow> string \<Rightarrow> json" where
  "preset_payload profile approval workspace outside access workdir = JObj
     [(lit ''profile'', jtext profile),
      (lit ''approval_policy'', jtext approval),
      (lit ''execution_boundary'', jtext ''host''),
      (lit ''network_isolated'', JBool False),
      (lit ''filesystem'', JObj
        [(lit ''read_text_scope'', jtext ''host_local''),
         (lit ''search_text_scope'', jtext ''host_local_guarded_broad_roots''),
         (lit ''workspace_write'', jtext workspace),
         (lit ''outside_workspace_write'', jtext outside)]),
      (lit ''terminal'', JObj
        [(lit ''access'', jtext access),
         (lit ''workdir_scope'', jtext workdir)])]"

fun preset_permission_payloads :: "permission_mode \<Rightarrow> json" where
  "preset_permission_payloads Read_Only =
     preset_payload ''read_only'' ''on_request'' ''deny'' ''deny'' ''off'' ''unavailable''"
| "preset_permission_payloads Ask_Permissions =
     preset_payload ''trusted_host'' ''on_request'' ''ask'' ''ask'' ''ask'' ''host_local''"
| "preset_permission_payloads Accept_Edits =
     preset_payload ''trusted_host'' ''never'' ''allow'' ''ask'' ''ask'' ''host_local''"
| "preset_permission_payloads Bypass_Permissions =
     preset_payload ''trusted_host'' ''never'' ''allow'' ''allow'' ''allow'' ''host_local''"

fun copy_json :: "json \<Rightarrow> json" where
  "copy_json (JObj kvs) = JObj (map (\<lambda>p. (fst p, copy_json (snd p))) kvs)"
| "copy_json (JList xs) = JList (map copy_json xs)"
| "copy_json v = v"

lemma copy_json_id [simp]: "copy_json v = v"
proof (induction v rule: copy_json.induct)
  case (1 kvs)
  then have "map (\<lambda>p. (fst p, copy_json (snd p))) kvs = map id kvs"
    by (intro map_cong) auto
  then show ?case by simp
qed (simp_all add: map_idI)

definition preset_permission_payload :: "permission_mode enum_arg \<Rightarrow> json result" where
  "preset_permission_payload mode =
     (case parse_permission_mode mode of
        Inl e \<Rightarrow> Inl e
      | Inr m \<Rightarrow> Inr (copy_json (preset_permission_payloads m)))"

text \<open>The fingerprint that identifies the whole table.\<close>

definition permission_preset_contract_fingerprint :: "(bytes \<Rightarrow> pystr) \<Rightarrow> pystr result" where
  "permission_preset_contract_fingerprint sha =
     sha_text sha ''pulsara:permission-presets:v2''
       (JObj (map (\<lambda>m. (mode_value m, preset_permission_payloads m)) permission_modes))"

section \<open>Policies\<close>

datatype permission_profile = Trusted_Host | Workspace_Guarded | Profile_Read_Only
datatype approval_policy = Never | Risky_Only | On_Request
datatype terminal_access = Off | Terminal_Allow | Terminal_Ask
datatype write_access = Write_Deny | Write_Ask | Write_Allow
datatype workdir_scope = Unavailable | Host_Local

fun profile_value :: "permission_profile \<Rightarrow> pystr" where
  "profile_value Trusted_Host = lit ''trusted_host''"
| "profile_value Workspace_Guarded = lit ''workspace_guarded''"
| "profile_value Profile_Read_Only = lit ''read_only''"

fun approval_value :: "approval_policy \<Rightarrow> pystr" where
  "approval_value Never = lit ''never''"
| "approval_value Risky_Only = lit ''risky_only''"
| "approval_value On_Request = lit ''on_request''"

fun terminal_value :: "terminal_access \<Rightarrow> pystr" where
  "terminal_value Off = lit ''off''"
| "terminal_value Terminal_Allow = lit ''allow''"
| "terminal_value Terminal_Ask = lit ''ask''"

fun write_value :: "write_access \<Rightarrow> pystr" where
  "write_value Write_Deny = lit ''deny''"
| "write_value Write_Ask = lit ''ask''"
| "write_value Write_Allow = lit ''allow''"

fun workdir_value :: "workdir_scope \<Rightarrow> pystr" where
  "workdir_value Unavailable = lit ''unavailable''"
| "workdir_value Host_Local = lit ''host_local''"

definition profiles :: "(pystr \<times> permission_profile) list" where
  "profiles = enum_table profile_value [Trusted_Host, Workspace_Guarded, Profile_Read_Only]"

definition approvals :: "(pystr \<times> approval_policy) list" where
  "approvals = enum_table approval_value [Never, Risky_Only, On_Request]"

definition terminals :: "(pystr \<times> terminal_access) list" where
  "terminals = enum_table terminal_value [Off, Terminal_Allow, Terminal_Ask]"

definition writes :: "(pystr \<times> write_access) list" where
  "writes = enum_table write_value [Write_Deny, Write_Ask, Write_Allow]"

definition workdirs :: "(pystr \<times> workdir_scope) list" where
  "workdirs = enum_table workdir_value [Unavailable, Host_Local]"

record policy =
  profile :: permission_profile
  approval :: approval_policy
  terminal :: terminal_access
  workspace_write :: write_access
  outside_workspace_write :: write_access
  terminal_workdir_scope :: workdir_scope
  execution_boundary :: pystr
  network_isolated :: bool

definition to_dict :: "policy \<Rightarrow> json" where
  "to_dict p = JObj
     [(lit ''profile'', JStr (profile_value (profile p))),
      (lit ''approval_policy'', JStr (approval_value (approval p))),
      (lit ''execution_boundary'', JStr (execution_boundary p)),
      (lit ''network_isolated'', JBool (network_isolated p)),
      (lit ''filesystem'', JObj
        [(lit ''read_text_scope'', jtext ''host_local''),
         (lit ''search_text_scope'', jtext ''host_local_guarded_broad_roots''),
         (lit ''workspace_write'', JStr (write_value (workspace_write p))),
         (lit ''outside_workspace_write'', JStr (write_value (outside_workspace_write p)))]),
      (lit ''terminal'', JObj
        [(lit ''access'', JStr (terminal_value (terminal p))),
         (lit ''workdir_scope'', JStr (workdir_value (terminal_workdir_scope p)))])]"

text \<open>
  \<open>preset_to_policy\<close> reads the policy back from the payload: every axis is looked up by key
  and converted by its enumeration.
\<close>

fun json_get :: "json \<Rightarrow> string \<Rightarrow> json result" where
  "json_get (JObj kvs) k =
     (case map_of kvs (lit k) of Some v \<Rightarrow> Inr v | None \<Rightarrow> Inl (KeyError (lit k)))"
| "json_get _ k = Inl (RuntimeError ''permission preset scopes are invalid'')"

fun json_enum :: "(pystr \<times> 'a) list \<Rightarrow> json \<Rightarrow> 'a result" where
  "json_enum ms (JStr t) = enum_lookup ms t"
| "json_enum ms _ = Inl (ValueError ''not a valid member'')"

definition read_axis :: "(pystr \<times> 'a) list \<Rightarrow> json \<Rightarrow> string \<Rightarrow> 'a result" where
  "read_axis ms v k = bind_result (json_get v k) (json_enum ms)"

fun json_bool :: "json \<Rightarrow> bool" where
  "json_bool (JBool b) = b"
| "json_bool JNull = False"
| "json_bool (JInt i) = (i \<noteq> 0)"
| "json_bool (JFloat t) = (t \<noteq> Some (lit ''0.0'') \<and> t \<noteq> Some (lit ''-0.0''))"
| "json_bool (JStr t) = (t \<noteq> [])"
| "json_bool (JList xs) = (xs \<noteq> [])"
| "json_bool (JObj kvs) = (kvs \<noteq> [])"

definition policy_of_payload :: "json \<Rightarrow> policy result" where
  "policy_of_payload payload =
     bind_result (json_get payload ''filesystem'') (\<lambda>filesystem.
     bind_result (json_get payload ''terminal'') (\<lambda>term.
     bind_result (read_axis profiles payload ''profile'') (\<lambda>pr.
     bind_result (read_axis approvals payload ''approval_policy'') (\<lambda>ap.
     bind_result (read_axis terminals term ''access'') (\<lambda>ac.
     bind_result (read_axis writes filesystem ''workspace_write'') (\<lambda>ww.
     bind_result (read_axis writes filesystem ''outside_workspace_write'') (\<lambda>ow.
     bind_result (read_axis workdirs term ''workdir_scope'') (\<lambda>wd.
     bind_result (json_get payload ''network_isolated'') (\<lambda>ni.
       Inr \<lparr>profile = pr, approval = ap, terminal = ac, workspace_write = ww,
            outside_workspace_write = ow, terminal_workdir_scope = wd,
            execution_boundary = lit ''host'', network_isolated = json_bool ni\<rparr>)))))))))"

definition preset_to_policy :: "permission_mode enum_arg \<Rightarrow> policy result" where
  "preset_to_policy mode = bind_result (preset_permission_payload mode) policy_of_payload"

fun find_mode :: "json \<Rightarrow> permission_mode list \<Rightarrow> permission_mode option" where
  "find_mode payload [] = None"
| "find_mode payload (m # ms) =
     (if preset_permission_payload (Member m) = Inr payload then Some m else find_mode payload ms)"

definition mode_for_policy :: "policy \<Rightarrow> permission_mode option" where
  "mode_for_policy p = find_mode (to_dict p) permission_modes"

text \<open>The live holder of a policy and the mode it came from.\<close>

record permission_state =
  ps_policy :: policy
  ps_mode :: "permission_mode option"

definition from_policy :: "policy \<Rightarrow> permission_state" where
  "from_policy p = \<lparr>ps_policy = p, ps_mode = mode_for_policy p\<rparr>"

section \<open>Resolution of a custom policy\<close>

datatype intent = Run | Inspect

definition default_permission_policy :: "intent \<Rightarrow> policy result" where
  "default_permission_policy i =
     (if i = Inspect then preset_to_policy (Member Read_Only)
      else preset_to_policy (Member default_permission_mode))"

definition profile_default :: "permission_profile option \<Rightarrow> intent \<Rightarrow> policy result" where
  "profile_default pr i =
     (case pr of
        None \<Rightarrow> default_permission_policy i
      | Some p \<Rightarrow>
         if p = Profile_Read_Only then
           Inr \<lparr>profile = Profile_Read_Only, approval = On_Request, terminal = Off,
                workspace_write = Write_Deny, outside_workspace_write = Write_Deny,
                terminal_workdir_scope = Unavailable,
                execution_boundary = lit ''host'', network_isolated = False\<rparr>
         else
           Inr \<lparr>profile = p, approval = Never, terminal = Terminal_Allow,
                workspace_write = Write_Allow,
                outside_workspace_write =
                  (if p = Workspace_Guarded then Write_Deny else Write_Allow),
                terminal_workdir_scope = Host_Local,
                execution_boundary = lit ''host'', network_isolated = False\<rparr>)"

definition write_access_for_axes ::
  "permission_profile \<Rightarrow> approval_policy \<Rightarrow> terminal_access \<Rightarrow> write_access \<times> write_access" where
  "write_access_for_axes pr ap tm =
     (if pr = Profile_Read_Only then (Write_Deny, Write_Deny)
      else let workspace = (if ap = On_Request then Write_Ask else Write_Allow) in
        if pr = Workspace_Guarded then (workspace, Write_Deny)
        else if ap = On_Request then (workspace, Write_Ask)
        else if tm = Terminal_Ask then (workspace, Write_Ask)
        else if ap = Risky_Only then (workspace, Write_Ask)
        else (workspace, Write_Allow))"

text \<open>
  The environment is a dictionary; an empty option falls through to it (\<open>profile or ...\<close>).
\<close>

definition env_value :: "(pystr \<times> pystr) list \<Rightarrow> pystr \<Rightarrow> string \<Rightarrow> pystr option" where
  "env_value environ pfx sfx =
     (case map_of environ (pfx @ lit ''_'' @ lit sfx) of
        None \<Rightarrow> None
      | Some v \<Rightarrow> let v' = strip v in if v' = [] then None else Some v')"

fun arg_or_env :: "'a enum_arg option \<Rightarrow> pystr option \<Rightarrow> 'a enum_arg option" where
  "arg_or_env (Some (Member m)) e = Some (Member m)"
| "arg_or_env (Some (Text t)) e =
     (if t \<noteq> [] then Some (Text t) else map_option Text e)"
| "arg_or_env None e = map_option Text e"

fun parse_enum ::
  "(pystr \<times> 'a) list \<Rightarrow> 'a enum_arg option \<Rightarrow> 'a option \<Rightarrow> 'a option result" where
  "parse_enum ms None dflt = Inr dflt"
| "parse_enum ms (Some (Member m)) dflt = Inr (Some m)"
| "parse_enum ms (Some (Text t)) dflt =
     (case enum_lookup ms (strip t) of
        Inl _ \<Rightarrow> Inl (ValueError ''Invalid option'')
      | Inr m \<Rightarrow> Inr (Some m))"

definition validate_policy :: "policy \<Rightarrow> unit result" where
  "validate_policy p =
     (if profile p = Profile_Read_Only \<and> terminal p \<noteq> Off then
        Inl (ValueError ''read_only permission profile requires terminal_access=off'')
      else if (terminal p = Off) \<noteq> (terminal_workdir_scope p = Unavailable) then
        Inl (ValueError ''terminal access and workdir scope are inconsistent'')
      else if profile p = Profile_Read_Only \<and>
          (workspace_write p \<noteq> Write_Deny \<or> outside_workspace_write p \<noteq> Write_Deny) then
        Inl (ValueError ''read_only permission profile requires denied writes'')
      else Inr ())"

definition resolve_permission_policy ::
  "intent \<Rightarrow> permission_profile enum_arg option \<Rightarrow> approval_policy enum_arg option \<Rightarrow>
   terminal_access enum_arg option \<Rightarrow> (pystr \<times> pystr) list \<Rightarrow> pystr \<Rightarrow> policy result" where
  "resolve_permission_policy i pr ap tm environ pfx =
     bind_result
       (parse_enum profiles (arg_or_env pr (env_value environ pfx ''PERMISSION_PROFILE'')) None)
       (\<lambda>pr'.
     bind_result (profile_default pr' i) (\<lambda>base.
     bind_result
       (parse_enum approvals (arg_or_env ap (env_value environ pfx ''APPROVAL_POLICY''))
         (Some (approval base))) (\<lambda>ap'.
     bind_result
       (parse_enum terminals (arg_or_env tm (env_value environ pfx ''TERMINAL_ACCESS''))
         (Some (terminal base))) (\<lambda>tm'.
       let a = (case ap' of Some a \<Rightarrow> a | None \<Rightarrow> approval base);
           t = (case tm' of Some t \<Rightarrow> t | None \<Rightarrow> terminal base);
           ws = write_access_for_axes (profile base) a t;
           resolved =
             \<lparr>profile = profile base, approval = a, terminal = t,
              workspace_write = fst ws, outside_workspace_write = snd ws,
              terminal_workdir_scope = (if t = Off then Unavailable else Host_Local),
              execution_boundary = lit ''host'', network_isolated = False\<rparr>
       in bind_result (validate_policy resolved) (\<lambda>_. Inr resolved)))))"

section \<open>The frozen permission of a turn\<close>

datatype admission_source = User_Submission | Terminal_Observation | Runtime_Plan_Continuation
datatype overlay = No_Overlay | Plan_Read_Only

fun source_value :: "admission_source \<Rightarrow> pystr" where
  "source_value User_Submission = lit ''USER_SUBMISSION''"
| "source_value Terminal_Observation = lit ''TERMINAL_OBSERVATION''"
| "source_value Runtime_Plan_Continuation = lit ''RUNTIME_PLAN_CONTINUATION''"

fun overlay_value :: "overlay \<Rightarrow> pystr" where
  "overlay_value No_Overlay = lit ''NONE''"
| "overlay_value Plan_Read_Only = lit ''PLAN_READ_ONLY''"

record run_permission =
  snapshot_id :: pystr
  requested_mode :: permission_mode
  effective_mode :: permission_mode
  admission_source :: admission_source
  overlay :: overlay
  plan_context_ordinal :: int
  plan_workflow_id :: "pystr option"
  plan_workflow_revision :: "int option"
  inherited_from_turn_id :: "pystr option"
  permission_contract_id :: pystr
  permission_contract_fingerprint :: pystr
  snapshot_fingerprint :: pystr

definition json_opt_text :: "pystr option \<Rightarrow> json" where
  "json_opt_text t = (case t of None \<Rightarrow> JNull | Some x \<Rightarrow> JStr x)"

definition json_opt_int :: "int option \<Rightarrow> json" where
  "json_opt_int n = (case n of None \<Rightarrow> JNull | Some i \<Rightarrow> JInt i)"

text \<open>The fingerprint covers every other field of the snapshot.\<close>

definition snapshot_payload :: "run_permission \<Rightarrow> json" where
  "snapshot_payload s = JObj
     [(lit ''snapshot_id'', JStr (snapshot_id s)),
      (lit ''requested_mode'', JStr (mode_value (requested_mode s))),
      (lit ''effective_mode'', JStr (mode_value (effective_mode s))),
      (lit ''admission_source'', JStr (source_value (admission_source s))),
      (lit ''overlay'', JStr (overlay_value (overlay s))),
      (lit ''plan_context_ordinal_at_admission'', JInt (plan_context_ordinal s)),
      (lit ''plan_workflow_id'', json_opt_text (plan_workflow_id s)),
      (lit ''plan_workflow_revision_at_admission'', json_opt_int (plan_workflow_revision s)),
      (lit ''inherited_from_turn_id'', json_opt_text (inherited_from_turn_id s)),
      (lit ''permission_contract_id'', JStr (permission_contract_id s)),
      (lit ''permission_contract_fingerprint'', JStr (permission_contract_fingerprint s))]"

definition run_permission_snapshot_fingerprint ::
  "(bytes \<Rightarrow> pystr) \<Rightarrow> run_permission \<Rightarrow> pystr result" where
  "run_permission_snapshot_fingerprint sha s =
     sha_text sha ''pulsara:run-permission-snapshot:v1'' (snapshot_payload s)"

definition run_permission_post_init :: "(bytes \<Rightarrow> pystr) \<Rightarrow> run_permission \<Rightarrow> unit result" where
  "run_permission_post_init sha s =
     bind_result (permission_preset_contract_fingerprint sha) (\<lambda>contract.
     let plan_bound = (overlay s = Plan_Read_Only) in
     if snapshot_id s = [] then Inl (ValueError ''permission snapshot identity is required'')
     else if plan_context_ordinal s < 0 then
       Inl (ValueError ''permission plan-context ordinal must be non-negative'')
     else if permission_contract_id s \<noteq> permission_preset_contract_id then
       Inl (ValueError ''permission preset contract is unavailable'')
     else if permission_contract_fingerprint s \<noteq> contract then
       Inl (ValueError ''permission preset contract fingerprint is unavailable'')
     else if plan_bound \<noteq> (plan_workflow_id s \<noteq> None \<and> plan_workflow_revision s \<noteq> None) then
       Inl (ValueError ''permission Plan overlay identity is invalid'')
     else if plan_bound \<and> effective_mode s \<noteq> Read_Only then
       Inl (ValueError ''Plan overlay must force read-only permission'')
     else if plan_bound \<and> (plan_context_ordinal s < 1 \<or>
         (case plan_workflow_revision s of None \<Rightarrow> True | Some r \<Rightarrow> r < 1)) then
       Inl (ValueError ''Plan permission cut is invalid'')
     else if \<not> plan_bound \<and> effective_mode s \<noteq> requested_mode s then
       Inl (ValueError ''permission without an overlay cannot change the requested mode'')
     else if admission_source s \<in> {Runtime_Plan_Continuation, Terminal_Observation} \<and>
         inherited_from_turn_id s = None then
       Inl (ValueError ''derived permission must identify its origin turn'')
     else if admission_source s \<notin> {Runtime_Plan_Continuation, Terminal_Observation} \<and>
         inherited_from_turn_id s \<noteq> None then
       Inl (ValueError ''permission inheritance is not allowed for this source'')
     else bind_result (run_permission_snapshot_fingerprint sha s) (\<lambda>expected.
       if snapshot_fingerprint s \<noteq> expected then
         Inl (ValueError ''permission snapshot fingerprint mismatch'')
       else Inr ()))"

definition build_run_permission_snapshot ::
  "(bytes \<Rightarrow> pystr) \<Rightarrow> pystr \<Rightarrow> permission_mode \<Rightarrow> permission_mode \<Rightarrow> admission_source \<Rightarrow>
   overlay \<Rightarrow> int \<Rightarrow> pystr option \<Rightarrow> int option \<Rightarrow> pystr option \<Rightarrow> run_permission result" where
  "build_run_permission_snapshot sha sid req eff src ov ordinal plan rev_at inh =
     bind_result (permission_preset_contract_fingerprint sha) (\<lambda>contract.
     let s = \<lparr>snapshot_id = sid, requested_mode = req, effective_mode = eff,
              admission_source = src, overlay = ov, plan_context_ordinal = ordinal,
              plan_workflow_id = plan, plan_workflow_revision = rev_at,
              inherited_from_turn_id = inh,
              permission_contract_id = permission_preset_contract_id,
              permission_contract_fingerprint = contract,
              snapshot_fingerprint = []\<rparr> in
     bind_result (run_permission_snapshot_fingerprint sha s) (\<lambda>fp.
     let s' = s\<lparr>snapshot_fingerprint := fp\<rparr> in
     bind_result (run_permission_post_init sha s') (\<lambda>_. Inr s')))"

section \<open>Presets and policies correspond\<close>

lemma enum_table_mode [simp]:
  "enum_table mode_value permission_modes =
     [(lit ''read-only'', Read_Only), (lit ''ask-permissions'', Ask_Permissions),
      (lit ''accept-edits'', Accept_Edits), (lit ''bypass-permissions'', Bypass_Permissions)]"
  by (simp add: enum_table_def permission_modes_def del: lit_Cons)

lemma enum_lookups [simp]:
  "enum_lookup profiles (profile_value p) = Inr p"
  "enum_lookup approvals (approval_value a) = Inr a"
  "enum_lookup terminals (terminal_value t) = Inr t"
  "enum_lookup writes (write_value w) = Inr w"
  "enum_lookup workdirs (workdir_value d) = Inr d"
  subgoal by (cases p) (simp_all add: profiles_def enum_table_def del: lit_Cons)
  subgoal by (cases a) (simp_all add: approvals_def enum_table_def del: lit_Cons)
  subgoal by (cases t) (simp_all add: terminals_def enum_table_def del: lit_Cons)
  subgoal by (cases w) (simp_all add: writes_def enum_table_def del: lit_Cons)
  subgoal by (cases d) (simp_all add: workdirs_def enum_table_def del: lit_Cons)
  done

text \<open>Reading a serialised policy gives the policy, its boundary reset to the host.\<close>

lemma policy_of_to_dict:
  "policy_of_payload (to_dict p) = Inr (p\<lparr>execution_boundary := lit ''host''\<rparr>)"
  by (simp add: policy_of_payload_def to_dict_def read_axis_def del: lit_Cons)

definition policy_of_mode :: "permission_mode \<Rightarrow> policy" where
  "policy_of_mode m =
     (let mk = \<lambda>pr ap tm ww ow wd. \<lparr>profile = pr, approval = ap, terminal = tm,
                workspace_write = ww, outside_workspace_write = ow,
                terminal_workdir_scope = wd,
                execution_boundary = lit ''host'', network_isolated = False\<rparr> in
      case m of
        Read_Only \<Rightarrow> mk Profile_Read_Only On_Request Off Write_Deny Write_Deny Unavailable
      | Ask_Permissions \<Rightarrow> mk Trusted_Host On_Request Terminal_Ask Write_Ask Write_Ask Host_Local
      | Accept_Edits \<Rightarrow> mk Trusted_Host Never Terminal_Ask Write_Allow Write_Ask Host_Local
      | Bypass_Permissions \<Rightarrow>
          mk Trusted_Host Never Terminal_Allow Write_Allow Write_Allow Host_Local)"

lemma to_dict_policy_of_mode: "to_dict (policy_of_mode m) = preset_permission_payloads m"
  by (cases m)
    (simp_all add: policy_of_mode_def to_dict_def preset_payload_def jtext_def del: lit_Cons)

lemma preset_to_policy_eq: "preset_to_policy (Member m) = Inr (policy_of_mode m)"
  by (cases m) (simp_all add: preset_to_policy_def preset_permission_payload_def
    policy_of_to_dict policy_of_mode_def flip: to_dict_policy_of_mode)

lemma to_dict_inj: "to_dict p = to_dict q \<Longrightarrow> p = q"
proof -
  assume e: "to_dict p = to_dict q"
  have inj: "profile_value a = profile_value b \<Longrightarrow> a = b"
    "approval_value c = approval_value d \<Longrightarrow> c = d"
    "terminal_value f = terminal_value g \<Longrightarrow> f = g"
    "write_value h = write_value i \<Longrightarrow> h = i"
    "workdir_value j = workdir_value k \<Longrightarrow> j = k" for a b c d f g h i j k
    by (metis enum_lookups sum.inject(2))+
  from e show "p = q"
    by (intro policy.equality) (auto simp: to_dict_def intro: inj)
qed

lemma find_mode_Some:
  "distinct ms \<Longrightarrow> inj_on preset_permission_payloads (set ms) \<Longrightarrow>
     find_mode v ms = Some m \<longleftrightarrow> m \<in> set ms \<and> preset_permission_payloads m = v"
  by (induction ms) (auto simp: preset_permission_payload_def inj_on_def)

lemma preset_payloads_inj: "preset_permission_payloads m = preset_permission_payloads n \<Longrightarrow> m = n"
  by (cases m; cases n) (simp_all add: preset_payload_def jtext_def del: lit_Cons)

lemma mode_for_policy_Some:
  "mode_for_policy p = Some m \<longleftrightarrow> policy_of_mode m = p"
proof -
  have "m \<in> set permission_modes" by (cases m) (simp_all add: permission_modes_def)
  moreover have "distinct permission_modes" by (simp add: permission_modes_def)
  ultimately have "mode_for_policy p = Some m \<longleftrightarrow> preset_permission_payloads m = to_dict p"
    unfolding mode_for_policy_def
    by (subst find_mode_Some) (auto intro: inj_onI preset_payloads_inj)
  then show ?thesis by (metis to_dict_policy_of_mode to_dict_inj)
qed

text \<open>
  The presets and the policies name each other: a policy maps back to a mode exactly
  when it is the policy that mode expands to, and every preset policy passes the policy
  validation. No other policy is ever taken for a preset.
\<close>

theorem mode_for_policy_iff:
  "(mode_for_policy p = Some m) = (preset_to_policy (Member m) = Inr p) \<and>
   (\<exists>q. preset_to_policy (Member m) = Inr q \<and> validate_policy q = Inr ())"
  by (cases m) (auto simp: mode_for_policy_Some preset_to_policy_eq policy_of_mode_def
      validate_policy_def)

section \<open>The order of the modes\<close>

text \<open>The modes in the order the enumeration lists them, from the strictest.\<close>

fun mode_rank :: "permission_mode \<Rightarrow> nat" where
  "mode_rank Read_Only = 0"
| "mode_rank Ask_Permissions = 1"
| "mode_rank Accept_Edits = 2"
| "mode_rank Bypass_Permissions = 3"

instantiation permission_mode :: linorder
begin

definition less_eq_permission_mode :: "permission_mode \<Rightarrow> permission_mode \<Rightarrow> bool" where
  "less_eq_permission_mode m n \<longleftrightarrow> mode_rank m \<le> mode_rank n"

definition less_permission_mode :: "permission_mode \<Rightarrow> permission_mode \<Rightarrow> bool" where
  "less_permission_mode m n \<longleftrightarrow> mode_rank m < mode_rank n"

instance
proof
  fix m n k :: permission_mode
  show "m \<le> n \<Longrightarrow> n \<le> m \<Longrightarrow> m = n"
    by (cases m; cases n) (simp_all add: less_eq_permission_mode_def)
qed (auto simp: less_eq_permission_mode_def less_permission_mode_def)

end

section \<open>Resolved policies\<close>

lemma profile_default_shape:
  assumes "profile_default pr i = Inr base"
  shows "profile base = Profile_Read_Only \<Longrightarrow> terminal base = Off"
    and "pr = Some q \<Longrightarrow> profile base = q"
  using assms
  by (auto simp: profile_default_def default_permission_policy_def default_permission_mode_def
      preset_to_policy_eq policy_of_mode_def split: option.splits if_splits)

text \<open>
  Every policy the resolution returns is consistent: the read-only profile comes with
  the terminal off and all writes denied, the terminal scope is available exactly when the
  terminal is not off, writes inside the workspace need no confirmation exactly when the
  approval policy is not on-request, and writes outside it need none only for a trusted
  host that never asks, neither for approval nor for the terminal.
\<close>

theorem resolved_policy_sound:
  assumes "resolve_permission_policy i pr ap tm environ pfx = Inr p"
  shows "validate_policy p = Inr () \<and>
    (workspace_write p = Write_Allow) =
      (profile p \<noteq> Profile_Read_Only \<and> approval p \<noteq> On_Request) \<and>
    (outside_workspace_write p = Write_Allow) =
      (profile p = Trusted_Host \<and> approval p = Never \<and> terminal p \<noteq> Terminal_Ask) \<and>
    (profile p = Workspace_Guarded \<longrightarrow> outside_workspace_write p = Write_Deny) \<and>
    (profile p = Profile_Read_Only \<longrightarrow>
       terminal p = Off \<and> workspace_write p = Write_Deny \<and> outside_workspace_write p = Write_Deny)"
proof -
  from assms obtain pr' a t where
      p: "p = \<lparr>profile = pr', approval = a, terminal = t,
            workspace_write = fst (write_access_for_axes pr' a t),
            outside_workspace_write = snd (write_access_for_axes pr' a t),
            terminal_workdir_scope = (if t = Off then Unavailable else Host_Local),
            execution_boundary = lit ''host'', network_isolated = False\<rparr>"
    and v: "validate_policy p = Inr ()"
    unfolding resolve_permission_policy_def Let_def bind_result_Inr by force
  have "profile p = Profile_Read_Only \<longrightarrow> terminal p = Off"
    using v by (auto simp: validate_policy_def split: if_splits)
  with v show ?thesis
    unfolding p
    by (cases pr'; cases a; cases t) (simp_all add: write_access_for_axes_def)
qed

lemma resolved_policy_sound_witness:
  "validate_policy (policy_of_mode Accept_Edits\<lparr>terminal := Terminal_Ask\<rparr>) = Inr ()"
proof -
  let ?p = "policy_of_mode Accept_Edits\<lparr>terminal := Terminal_Ask\<rparr>"
  have "resolve_permission_policy Run None None (Some (Member Terminal_Ask)) [] (lit ''PULSARA'') =
      Inr ?p"
    by (simp add: resolve_permission_policy_def env_value_def profile_default_def
        default_permission_policy_def default_permission_mode_def preset_to_policy_eq
        policy_of_mode_def write_access_for_axes_def validate_policy_def Let_def del: lit_Cons)
  from resolved_policy_sound [OF this] show ?thesis by blast
qed

section \<open>Snapshots\<close>

lemma permission_contract_ok: "\<exists>c. permission_preset_contract_fingerprint sha = Inr c"
  unfolding permission_preset_contract_fingerprint_def
proof (rule sha_text_ok)
  have "json_finite (preset_permission_payloads m) \<and> json_scalar (preset_permission_payloads m)" for m
    by (cases m) (simp_all add: preset_payload_def jtext_def del: lit_Cons)
  moreover have "scalar_text (mode_value m)" for m
    by (cases m) (simp_all del: lit_Cons)
  ultimately show
    "json_finite (JObj (map (\<lambda>m. (mode_value m, preset_permission_payloads m)) permission_modes))"
    "json_scalar (JObj (map (\<lambda>m. (mode_value m, preset_permission_payloads m)) permission_modes))"
    by auto
qed

text \<open>What the constructor demands of the fields of a snapshot, its fingerprints apart.\<close>

definition admissible :: "run_permission \<Rightarrow> bool" where
  "admissible s \<longleftrightarrow>
     snapshot_id s \<noteq> [] \<and> 0 \<le> plan_context_ordinal s \<and>
     (if overlay s = Plan_Read_Only then
        effective_mode s = Read_Only \<and> 1 \<le> plan_context_ordinal s \<and>
        plan_workflow_id s \<noteq> None \<and> (\<exists>r \<ge> 1. plan_workflow_revision s = Some r)
      else effective_mode s = requested_mode s \<and>
        (plan_workflow_id s = None \<or> plan_workflow_revision s = None)) \<and>
     (inherited_from_turn_id s \<noteq> None) = (admission_source s \<noteq> User_Submission)"

lemma post_init_iff:
  assumes "permission_preset_contract_fingerprint sha = Inr contract"
  shows "run_permission_post_init sha s = Inr () \<longleftrightarrow>
    admissible s \<and> permission_contract_id s = permission_preset_contract_id \<and>
    permission_contract_fingerprint s = contract \<and>
    run_permission_snapshot_fingerprint sha s = Inr (snapshot_fingerprint s)"
proof -
  have fp: "bind_result r (\<lambda>e. if f \<noteq> e then Inl (ValueError m) else Inr ()) = Inr () \<longleftrightarrow> r = Inr f"
    for r :: "pystr result" and f m
    by (cases r) auto
  show ?thesis
    using assms
    by (cases "admission_source s"; cases "overlay s"; cases "plan_workflow_revision s")
      (auto simp: run_permission_post_init_def admissible_def fp Let_def)
qed

text \<open>
  The constructor accepts exactly the snapshots that building from their own fields
  returns: a snapshot with any field changed after it was built, its fingerprint included,
  is refused, and a built snapshot is accepted again.
\<close>

theorem snapshot_rebuilds:
  "(run_permission_post_init sha s = Inr ()) =
    (build_run_permission_snapshot sha (snapshot_id s) (requested_mode s) (effective_mode s)
       (admission_source s) (overlay s) (plan_context_ordinal s) (plan_workflow_id s)
       (plan_workflow_revision s) (inherited_from_turn_id s) = Inr s)"
proof -
  obtain contract where c: "permission_preset_contract_fingerprint sha = Inr contract"
    using permission_contract_ok by blast
  let ?u = "\<lparr>snapshot_id = snapshot_id s, requested_mode = requested_mode s,
      effective_mode = effective_mode s, admission_source = admission_source s,
      overlay = overlay s, plan_context_ordinal = plan_context_ordinal s,
      plan_workflow_id = plan_workflow_id s, plan_workflow_revision = plan_workflow_revision s,
      inherited_from_turn_id = inherited_from_turn_id s,
      permission_contract_id = permission_preset_contract_id,
      permission_contract_fingerprint = contract, snapshot_fingerprint = []\<rparr>"
  have id: "?u\<lparr>snapshot_fingerprint := f\<rparr> = s \<longleftrightarrow>
      permission_contract_id s = permission_preset_contract_id \<and>
      permission_contract_fingerprint s = contract \<and> snapshot_fingerprint s = f" for f
    by (cases s) auto
  have fp: "run_permission_snapshot_fingerprint sha (t\<lparr>snapshot_fingerprint := f\<rparr>) =
      run_permission_snapshot_fingerprint sha t" for t f
    by (simp add: run_permission_snapshot_fingerprint_def snapshot_payload_def)
  have "(build_run_permission_snapshot sha (snapshot_id s) (requested_mode s) (effective_mode s)
       (admission_source s) (overlay s) (plan_context_ordinal s) (plan_workflow_id s)
       (plan_workflow_revision s) (inherited_from_turn_id s) = Inr s) \<longleftrightarrow>
     (\<exists>f. run_permission_snapshot_fingerprint sha ?u = Inr f \<and>
        run_permission_post_init sha (?u\<lparr>snapshot_fingerprint := f\<rparr>) = Inr () \<and>
        ?u\<lparr>snapshot_fingerprint := f\<rparr> = s)"
    unfolding build_run_permission_snapshot_def c bind_result.simps Let_def bind_result_Inr
    by auto
  also have "\<dots> \<longleftrightarrow> run_permission_post_init sha s = Inr ()"
    using fp [where t = ?u] unfolding post_init_iff [OF c] by (metis id)
  finally show ?thesis by simp
qed

text \<open>
  A turn is admitted with a permission snapshot exactly when its mode follows from its
  origin: under the Plan overlay the effective mode is read-only and the Plan workflow, its
  revision and its context ordinal are named; without the overlay the effective mode is the
  requested one and no complete Plan identity is carried; a derived turn, and only a derived
  turn, names the turn it inherits from. The digest is assumed to be text, as hexadecimal
  digests are, and the identities to be encodable.
\<close>

theorem snapshot_admission:
  assumes "\<And>bs. scalar_text (sha bs)" and "scalar_text sid"
    and "\<And>t. plan = Some t \<Longrightarrow> scalar_text t" and "\<And>t. inh = Some t \<Longrightarrow> scalar_text t"
  shows "is_ok (build_run_permission_snapshot sha sid req eff src ov ordinal plan rev_at inh) =
    (sid \<noteq> [] \<and> 0 \<le> ordinal \<and>
     (if ov = Plan_Read_Only then
        eff = Read_Only \<and> 1 \<le> ordinal \<and> plan \<noteq> None \<and> (\<exists>r \<ge> 1. rev_at = Some r)
      else eff = req \<and> (plan = None \<or> rev_at = None)) \<and>
     (inh \<noteq> None) = (src \<noteq> User_Submission))"
proof -
  obtain contract where c: "permission_preset_contract_fingerprint sha = Inr contract"
    using permission_contract_ok by blast
  have ct: "scalar_text contract"
    using c assms(1) unfolding permission_preset_contract_fingerprint_def
    by (rule sha_text_scalar)
  define u where "u = \<lparr>snapshot_id = sid, requested_mode = req,
      effective_mode = eff, admission_source = src,
      overlay = ov, plan_context_ordinal = ordinal, plan_workflow_id = plan,
      plan_workflow_revision = rev_at, inherited_from_turn_id = inh,
      permission_contract_id = permission_preset_contract_id,
      permission_contract_fingerprint = contract, snapshot_fingerprint = []\<rparr>"
  have vals: "scalar_text (mode_value m)" "scalar_text (source_value k)"
    "scalar_text (overlay_value l)" for m k l
    by (cases m; simp del: lit_Cons) (cases k; cases l; simp del: lit_Cons)+
  have js: "json_scalar (snapshot_payload u)" "json_finite (snapshot_payload u)"
    using assms ct
    by (auto simp: snapshot_payload_def u_def vals permission_preset_contract_id_def
        json_opt_text_def json_opt_int_def split: option.splits simp del: lit_Cons)
  obtain f where f: "run_permission_snapshot_fingerprint sha u = Inr f"
    using sha_text_ok js unfolding run_permission_snapshot_fingerprint_def by blast
  let ?v = "u\<lparr>snapshot_fingerprint := f\<rparr>"
  have fv: "run_permission_snapshot_fingerprint sha ?v = Inr f"
    using f by (simp add: run_permission_snapshot_fingerprint_def snapshot_payload_def)
  have "build_run_permission_snapshot sha sid req eff src ov ordinal plan rev_at inh =
      bind_result (run_permission_post_init sha ?v) (\<lambda>_. Inr ?v)"
    unfolding build_run_permission_snapshot_def c bind_result.simps Let_def
      u_def [symmetric] f by (rule refl)
  then have "is_ok (build_run_permission_snapshot sha sid req eff src ov ordinal plan rev_at inh) =
      (run_permission_post_init sha ?v = Inr ())"
    by (cases "run_permission_post_init sha ?v") auto
  also have "\<dots> = admissible ?v"
    by (simp add: post_init_iff [OF c] fv) (simp add: u_def)
  finally show ?thesis by (simp add: admissible_def u_def)
qed

text \<open>A digest for the witness: one text digit per byte.\<close>

definition digit_digest :: "bytes \<Rightarrow> pystr" where
  "digit_digest bs = map (\<lambda>b. 48 + unat b mod 10) bs"

lemma snapshot_admission_witness:
  "is_ok (build_run_permission_snapshot digit_digest (lit ''permission'') Bypass_Permissions
      Read_Only Runtime_Plan_Continuation Plan_Read_Only 1 (Some (lit ''plan'')) (Some 1)
      (Some (lit ''turn''))) \<and>
   \<not> is_ok (build_run_permission_snapshot digit_digest (lit ''permission'') Bypass_Permissions
      Bypass_Permissions Runtime_Plan_Continuation Plan_Read_Only 1 (Some (lit ''plan'')) (Some 1)
      (Some (lit ''turn'')))"
proof -
  have d: "scalar_text (digit_digest bs)" for bs
  proof -
    have "is_scalar n" if "n < 58" for n using that by (simp add: is_scalar_def)
    then have "is_scalar (48 + unat b mod 10)" for b :: byte by simp
    then show ?thesis by (auto simp: digit_digest_def scalar_text_def)
  qed
  show ?thesis
    by (intro conjI; subst snapshot_admission) (auto simp: d simp del: lit_Cons)
qed

end
