(* ===== verification/Terminal_Risk.thy ===== *)
theory Terminal_Risk
  imports Py_Text
begin

text \<open>
  Risk classification of terminal commands (\<open>capability/terminal_risk.py\<close>). The patterns are
  terms of a small language of regular expressions; \<open>ends\<close> gives every position at which a
  match begun at a position can stop, which decides \<open>pattern.search\<close> as the source uses it
  (only whether there is a match). \<open>\w\<close> outside ASCII follows Unicode's alphanumerics: that
  table is the parameter \<open>alnum\<close>.
\<close>

section \<open>Patterns and matching\<close>

datatype rx =
    Chr "nat \<Rightarrow> bool"
  | Many "nat \<Rightarrow> bool"
  | Sequ rx rx
  | Alt rx rx
  | Nothing
  | Bol
  | Eol
  | Ahead rx
  | Word_Edge

definition word_char :: "(nat \<Rightarrow> bool) \<Rightarrow> nat \<Rightarrow> bool" where
  "word_char alnum c =
     (if c < 128 then (48 \<le> c \<and> c \<le> 57) \<or> (65 \<le> c \<and> c \<le> 90) \<or> (97 \<le> c \<and> c \<le> 122) \<or> c = 95
      else alnum c)"

text \<open>\<open>$\<close> matches at the end and before a final line feed.\<close>

fun ends :: "(nat \<Rightarrow> bool) \<Rightarrow> rx \<Rightarrow> pystr \<Rightarrow> nat \<Rightarrow> nat list" where
  "ends al (Chr p) s i = (if i < length s \<and> p (s ! i) then [Suc i] else [])"
| "ends al (Many p) s i = [i..<Suc (i + length (takeWhile p (drop i s)))]"
| "ends al (Sequ a b) s i = concat (map (ends al b s) (ends al a s i))"
| "ends al (Alt a b) s i = ends al a s i @ ends al b s i"
| "ends al Nothing s i = [i]"
| "ends al Bol s i = (if i = 0 then [i] else [])"
| "ends al Eol s i =
     (if i = length s \<or> (Suc i = length s \<and> s ! i = 10) then [i] else [])"
| "ends al (Ahead a) s i = (if ends al a s i \<noteq> [] then [i] else [])"
| "ends al Word_Edge s i =
     (if (0 < i \<and> word_char al (s ! (i - 1))) \<noteq> (i < length s \<and> word_char al (s ! i))
      then [i] else [])"

definition search :: "(nat \<Rightarrow> bool) \<Rightarrow> rx \<Rightarrow> pystr \<Rightarrow> bool" where
  "search al r s \<longleftrightarrow> list_ex (\<lambda>i. ends al r s i \<noteq> []) [0..<Suc (length s)]"

text \<open>Abbreviations for the notation of the source.\<close>

definition one_of :: "pystr \<Rightarrow> nat \<Rightarrow> bool" where
  "one_of cs c \<longleftrightarrow> c \<in> set cs"

definition non_space :: "nat \<Rightarrow> bool" where
  "non_space c \<longleftrightarrow> \<not> is_space c"

fun seqs :: "rx list \<Rightarrow> rx" where
  "seqs [] = Nothing"
| "seqs [r] = r"
| "seqs (r # rs) = Sequ r (seqs rs)"

fun alts :: "rx \<Rightarrow> rx list \<Rightarrow> rx" where
  "alts r [] = r"
| "alts r (q # qs) = Alt r (alts q qs)"

definition lits :: "string \<Rightarrow> rx" where
  "lits t = seqs (map (\<lambda>c. Chr (\<lambda>d. d = c)) (lit t))"

definition some1 :: "(nat \<Rightarrow> bool) \<Rightarrow> rx" where
  "some1 p = Sequ (Chr p) (Many p)"

definition opt :: "rx \<Rightarrow> rx" where
  "opt r = Alt r Nothing"

definition spaces0 :: rx where "spaces0 = Many is_space"
definition spaces1 :: rx where "spaces1 = some1 is_space"
definition space_or_end :: rx where "space_or_end = Alt (Chr is_space) Eol"

section \<open>The patterns of the source\<close>

definition separator :: "nat \<Rightarrow> bool" where
  "separator = one_of (lit '';&|'')"

text \<open>\<open>(^|[;&|]\s*)\<close>\<close>

definition command_start :: rx where
  "command_start = Alt Bol (Sequ (Chr separator) spaces0)"

definition target_end :: rx where
  "target_end = Ahead (alts (Chr is_space) [Eol, Chr separator])"

definition hardline_rm_target :: rx where
  "hardline_rm_target = Sequ
     (alts (lits ''/'') [lits ''/*'', lits ''~'', lits ''$HOME'',
        Sequ (alts (lits ''/home'') [lits ''/etc'', lits ''/usr'', lits ''/var'', lits ''/bin'',
               lits ''/sbin'', lits ''/lib'', lits ''/lib64''])
             (opt (Alt (Sequ (lits ''/'') (opt (lits ''*''))) (lits ''*'')))])
     target_end"

text \<open>\<open>rm\s+-[^\s]*[rR][^\s]*[fF][^\s]*\<close>, the two letters given.\<close>

definition rm_flags :: "string \<Rightarrow> string \<Rightarrow> rx" where
  "rm_flags x y = seqs
     [command_start, lits ''rm'', spaces1, lits ''-'', Many non_space, Chr (one_of (lit x)),
      Many non_space, Chr (one_of (lit y)), Many non_space]"

definition not_newline :: "nat \<Rightarrow> bool" where
  "not_newline c \<longleftrightarrow> c \<noteq> 10"

definition not_stop :: "nat \<Rightarrow> bool" where
  "not_stop c \<longleftrightarrow> \<not> is_space c \<and> \<not> separator c"

definition dd_of :: rx where
  "dd_of = seqs [command_start, lits ''dd'', spaces1, Many not_newline, Word_Edge, lits ''of='']"

definition hardline_command_patterns :: "rx list" where
  "hardline_command_patterns =
     [seqs [rm_flags ''rR'' ''fF'', spaces1, opt (Sequ (lits ''--'') spaces1), hardline_rm_target],
      seqs [rm_flags ''fF'' ''rR'', spaces1, opt (Sequ (lits ''--'') spaces1), hardline_rm_target],
      seqs [dd_of, lits ''/dev/'',
        alts (lits ''disk'') [lits ''sd'', lits ''nvme'', lits ''vd'', lits ''mmcblk'', lits ''hd''],
        Many not_stop],
      seqs [command_start, lits ''mkfs'', alts (lits ''.'') [Chr is_space, Eol]],
      seqs [command_start, Alt (lits ''shutdown'') (lits ''reboot''), space_or_end]]"

definition risky_command_patterns :: "rx list" where
  "risky_command_patterns =
     [Sequ (rm_flags ''rR'' ''fF'') space_or_end,
      Sequ (rm_flags ''fF'' ''rR'') space_or_end,
      seqs [command_start, lits ''sudo'', space_or_end],
      seqs [command_start, lits ''chmod'', spaces1, lits ''-R'', space_or_end],
      seqs [command_start, lits ''chown'', spaces1, lits ''-R'', space_or_end],
      dd_of,
      seqs [command_start, lits ''ssh-keygen'', space_or_end]]"

text \<open>The quotes \<open>'\<close> and the double quote (39 and 34) delimit a path as white space does.\<close>

definition path_start :: "pystr \<Rightarrow> rx" where
  "path_start more = Alt Bol (Chr (\<lambda>c. is_space c \<or> one_of ([39, 34] @ more) c))"

definition path_stop :: rx where
  "path_stop = Chr (\<lambda>c. is_space c \<or> one_of ([39, 34] @ lit '';&|'') c)"

definition home_file :: "rx list \<Rightarrow> rx" where
  "home_file rs = seqs ([path_start (lit ''=''), opt (lits ''~'')] @ rs)"

definition sensitive_path_patterns :: "rx list" where
  "sensitive_path_patterns =
     [seqs [path_start (lit ''=:/''), lits ''.env'', Alt path_stop Eol],
      home_file [lits ''/.ssh'', alts (lits ''/'') [path_stop, Eol]],
      home_file [lits ''/.pulsara/config'', alts (lits ''.'') [path_stop, Eol]],
      home_file [lits ''/.'',
        alts (lits ''zshrc'') [lits ''bashrc'', lits ''bash_profile'', lits ''profile''],
        Alt path_stop Eol],
      home_file [lits ''/.'', alts (lits ''netrc'') [lits ''npmrc'', lits ''pypirc''],
        Alt path_stop Eol]]"

definition matches_any :: "(nat \<Rightarrow> bool) \<Rightarrow> rx list \<Rightarrow> pystr \<Rightarrow> bool" where
  "matches_any al rs command = list_ex (\<lambda>r. search al r command) rs"

definition is_hardline_terminal_command :: "(nat \<Rightarrow> bool) \<Rightarrow> pystr \<Rightarrow> bool" where
  "is_hardline_terminal_command al command =
     matches_any al hardline_command_patterns (strip command)"

definition is_sensitive_terminal_command :: "(nat \<Rightarrow> bool) \<Rightarrow> pystr \<Rightarrow> bool" where
  "is_sensitive_terminal_command al command =
     matches_any al sensitive_path_patterns (strip command)"

definition is_risky_terminal_command :: "(nat \<Rightarrow> bool) \<Rightarrow> pystr \<Rightarrow> bool" where
  "is_risky_terminal_command al command =
     (let stripped = strip command in
      matches_any al risky_command_patterns stripped \<or>
      is_sensitive_terminal_command al stripped)"

section \<open>Matching along a split of the text\<close>

text \<open>
  \<open>spans al r u v z\<close>: in the text \<open>u @ v @ z\<close>, the pattern can match exactly the part \<open>v\<close>.
\<close>

definition spans :: "(nat \<Rightarrow> bool) \<Rightarrow> rx \<Rightarrow> pystr \<Rightarrow> pystr \<Rightarrow> pystr \<Rightarrow> bool" where
  "spans al r u v z \<longleftrightarrow> length u + length v \<in> set (ends al r (u @ v @ z) (length u))"

lemma spans_Chr: "p c \<Longrightarrow> spans al (Chr p) u [c] z"
  by (simp add: spans_def nth_append)

lemma spans_Many:
  assumes "\<forall>c \<in> set v. p c"
  shows "spans al (Many p) u v z"
  using assms by (simp add: spans_def takeWhile_append2)

lemma spans_Sequ:
  "spans al a u v (w @ z) \<Longrightarrow> spans al b (u @ v) w z \<Longrightarrow> spans al (Sequ a b) u (v @ w) z"
  by (auto simp: spans_def add.assoc intro!: bexI [of _ "length u + length v"])

lemma spans_AltL: "spans al a u v z \<Longrightarrow> spans al (Alt a b) u v z"
  and spans_AltR: "spans al b u v z \<Longrightarrow> spans al (Alt a b) u v z"
  by (simp_all add: spans_def)

lemma spans_alts: "spans al (alts r rs) u v z \<longleftrightarrow> (\<exists>q \<in> set (r # rs). spans al q u v z)"
  by (induction r rs rule: alts.induct) (auto simp: spans_def)

lemma spans_Nothing: "spans al Nothing u [] z"
  by (simp add: spans_def)

lemma spans_Bol: "spans al Bol [] [] z"
  by (simp add: spans_def)

lemma spans_Eol: "spans al Eol u [] []"
  by (simp add: spans_def)

lemma spans_Ahead: "spans al a u v z \<Longrightarrow> spans al (Ahead a) u [] (v @ z)"
  by (auto simp: spans_def)

lemma spans_some1: "v \<noteq> [] \<Longrightarrow> \<forall>c \<in> set v. p c \<Longrightarrow> spans al (some1 p) u v z"
  unfolding some1_def
proof (cases v)
  case (Cons c w)
  moreover assume "\<forall>c \<in> set v. p c"
  ultimately have "spans al (Sequ (Chr p) (Many p)) u ([c] @ w) z"
    by (intro spans_Sequ spans_Chr spans_Many) auto
  with Cons show "spans al (Sequ (Chr p) (Many p)) u v z" by simp
qed simp

lemma spans_chars: "spans al (seqs (map (\<lambda>c. Chr (\<lambda>d. d = c)) t)) u t z"
proof (induction t arbitrary: u)
  case Nil
  then show ?case by (simp add: spans_Nothing)
next
  case (Cons c t)
  show ?case
  proof (cases t)
    case Nil
    then show ?thesis by (simp add: spans_Chr)
  next
    case (Cons d t')
    have "spans al (Sequ (Chr (\<lambda>d. d = c)) (seqs (map (\<lambda>c. Chr (\<lambda>d. d = c)) t))) u ([c] @ t) z"
      by (rule spans_Sequ) (auto intro: spans_Chr Cons.IH)
    with Cons show ?thesis by simp
  qed
qed

lemma spans_lits: "spans al (lits t) u (lit t) z"
  unfolding lits_def by (rule spans_chars)

lemma spans_seqs:
  "spans al r u v (w @ z) \<Longrightarrow> spans al (seqs (q # qs)) (u @ v) w z \<Longrightarrow>
     spans al (seqs (r # q # qs)) u (v @ w) z"
  using spans_Sequ by simp

lemma spans_search: "spans al r u v z \<Longrightarrow> search al r (u @ v @ z)"
  unfolding search_def spans_def list_ex_iff
  by (rule bexI [of _ "length u"]) auto

section \<open>Recursive forced removal in one word of options is recognised\<close>

lemma one_of_Chr: "c \<in> set cs \<Longrightarrow> spans al (Chr (one_of cs)) u [c] z"
  by (rule spans_Chr) (simp add: one_of_def)

text \<open>The start of a command: the text so far is empty, or ends in a separator and blanks.\<close>

definition at_command :: "pystr \<Rightarrow> bool" where
  "at_command pre \<longleftrightarrow> pre = [] \<or>
     (case dropWhile is_space (rev pre) of [] \<Rightarrow> False | c # _ \<Rightarrow> separator c)"

lemma command_start_spans:
  assumes "at_command pre"
  obtains u v where "pre = u @ v" and "\<And>al z. spans al command_start u v z"
proof (cases "pre = []")
  case True
  then show ?thesis
    using that [of "[]" "[]"] by (auto simp: command_start_def intro: spans_AltL spans_Bol)
next
  case False
  with assms obtain c cs where d: "dropWhile is_space (rev pre) = c # cs" and "separator c"
    by (auto simp: at_command_def split: list.splits)
  let ?b = "rev (takeWhile is_space (rev pre))"
  have "rev (rev pre) = rev (takeWhile is_space (rev pre) @ dropWhile is_space (rev pre))" by simp
  then have "pre = rev cs @ ([c] @ ?b)" by (simp only: rev_append rev_rev_ident d) simp
  moreover have "spans al command_start (rev cs) ([c] @ ?b) z" for al z
    unfolding command_start_def spaces0_def using \<open>separator c\<close>
    by (intro spans_AltR spans_Sequ spans_Chr spans_Many) (auto dest: set_takeWhileD)
  ultimately show ?thesis using that by blast
qed

text \<open>Short options in one word that contain both letters, the first before the second.\<close>

lemma rm_flags_spans:
  assumes "\<And>z. spans al command_start u v z" and "w \<noteq> []" and "\<forall>c \<in> set w. is_space c"
    and "r \<in> set (lit x)" and "f \<in> set (lit y)" and "\<forall>c \<in> set (a @ b @ e). non_space c"
  shows "spans al (rm_flags x y) u (v @ lit ''rm'' @ w @ lit ''-'' @ a @ [r] @ b @ [f] @ e) z"
  unfolding rm_flags_def spaces1_def using assms
  by (intro spans_seqs) (auto intro: spans_lits spans_some1 spans_Many one_of_Chr simp del: lit_Cons)

text \<open>The targets of the source: four of their own and eight directories, each with four endings.\<close>

definition rm_directories :: "pystr list" where
  "rm_directories = map lit [''/home'', ''/etc'', ''/usr'', ''/var'', ''/bin'', ''/sbin'', ''/lib'', ''/lib64'']"

definition rm_endings :: "pystr list" where
  "rm_endings = map lit [[], ''/'', ''/*'', ''*'']"

definition rm_roots :: "pystr list" where
  "rm_roots = map lit [''/'', ''/*'', ''~'', ''$HOME''] @
     concat (map (\<lambda>d. map (\<lambda>e. d @ e) rm_endings) rm_directories)"

lemma target_end_spans:
  assumes "rest = [] \<or> is_space (hd rest) \<or> separator (hd rest)"
  shows "spans al target_end u [] rest"
proof (cases rest)
  case Nil
  then show ?thesis unfolding target_end_def
    using spans_Ahead [of al _ u "[]" "[]"] by (auto intro: spans_AltL spans_AltR spans_Eol)
next
  case (Cons c z)
  with assms have "spans al (alts (Chr is_space) [Eol, Chr separator]) u [c] z"
    by (auto intro: spans_AltL spans_AltR spans_Chr)
  from spans_Ahead [OF this] Cons show ?thesis by (simp add: target_end_def)
qed

lemma hardline_rm_target_spans:
  assumes "t \<in> set rm_roots" and "rest = [] \<or> is_space (hd rest) \<or> separator (hd rest)"
  shows "spans al hardline_rm_target u t rest"
proof -
  let ?roots = "alts (lits ''/home'') [lits ''/etc'', lits ''/usr'', lits ''/var'', lits ''/bin'',
               lits ''/sbin'', lits ''/lib'', lits ''/lib64'']"
  let ?tail = "opt (Alt (Sequ (lits ''/'') (opt (lits ''*''))) (lits ''*''))"
  have ending: "spans al ?tail w e rest" if "e \<in> set rm_endings" for w e
  proof -
    have slash: "spans al (Sequ (lits ''/'') (opt (lits ''*''))) w (lit ''/'' @ x) rest" if "x \<in> {[], lit ''*''}" for x
      using that by (intro spans_Sequ spans_lits) (auto simp: opt_def simp del: lit_Cons
          intro: spans_AltL spans_AltR spans_Nothing spans_lits)
    have "spans al (Sequ (lits ''/'') (opt (lits ''*''))) w (lit ''/'') rest"
      "spans al (Sequ (lits ''/'') (opt (lits ''*''))) w (lit ''/*'') rest"
      using slash [of "[]"] slash [of "lit ''*''"] by simp_all
    then show ?thesis
      using that unfolding opt_def rm_endings_def
      by (auto simp del: lit_Cons intro: spans_AltL spans_AltR spans_Nothing spans_lits)
  qed
  have root: "spans al ?roots u x z" if "x \<in> set rm_directories" for x z
    using that unfolding rm_directories_def
    by (auto simp: spans_alts simp del: lit_Cons alts.simps intro: spans_lits)
  have "spans al (Sequ ?roots ?tail) u (d @ e) rest" if "d \<in> set rm_directories" "e \<in> set rm_endings" for d e
    by (rule spans_Sequ) (use that root ending in auto)
  then have "spans al (alts (lits ''/'') [lits ''/*'', lits ''~'', lits ''$HOME'',
       Sequ ?roots ?tail]) u t rest"
    using assms(1) unfolding rm_roots_def spans_alts [of _ "lits ''/''"]
    by (auto simp del: lit_Cons alts.simps intro: spans_lits)
  then have "spans al hardline_rm_target u (t @ []) rest"
    unfolding hardline_rm_target_def
    by (intro spans_Sequ target_end_spans assms(2)) simp
  then show ?thesis by simp
qed

lemma split_two:
  assumes "x \<in> set fs" and "y \<in> set fs" and "x \<noteq> y"
  shows "\<exists>a b e. fs = a @ [x] @ b @ [y] @ e \<or> fs = a @ [y] @ b @ [x] @ e"
proof -
  from assms(1) obtain a e where fs: "fs = a @ x # e" by (auto dest: split_list)
  with assms have "y \<in> set a \<or> y \<in> set e" by auto
  then show ?thesis
  proof
    assume "y \<in> set a"
    then obtain a1 a2 where "a = a1 @ y # a2" by (auto dest: split_list)
    with fs show ?thesis by (intro exI [of _ a1] exI [of _ a2] exI [of _ e]) simp
  next
    assume "y \<in> set e"
    then obtain e1 e2 where "e = e1 @ y # e2" by (auto dest: split_list)
    with fs show ?thesis by (intro exI [of _ a] exI [of _ e1] exI [of _ e2]) simp
  qed
qed

lemma rm_word_spans:
  assumes "at_command pre" and "w \<noteq> []" and "\<forall>c \<in> set w. is_space c"
    and "\<forall>c \<in> set flags. non_space c"
    and "\<exists>c \<in> set flags. c \<in> set (lit ''rR'')" and "\<exists>c \<in> set flags. c \<in> set (lit ''fF'')"
  shows "\<exists>u v x y. (x, y) \<in> {(''rR'', ''fF''), (''fF'', ''rR'')} \<and>
     pre @ lit ''rm'' @ w @ lit ''-'' @ flags = u @ v \<and> (\<forall>al z. spans al (rm_flags x y) u v z)"
proof -
  obtain u v where pre: "pre = u @ v" and start: "\<And>al z. spans al command_start u v z"
    using command_start_spans [OF assms(1)] by blast
  obtain r f where rf: "r \<in> set flags" "f \<in> set flags" "r \<in> set (lit ''rR'')" "f \<in> set (lit ''fF'')"
    using assms by blast
  then have "r \<noteq> f" by auto
  then obtain a b e where
    "flags = a @ [r] @ b @ [f] @ e \<or> flags = a @ [f] @ b @ [r] @ e"
    using split_two rf by metis
  then show ?thesis
  proof
    assume fl: "flags = a @ [r] @ b @ [f] @ e"
    have "spans al (rm_flags ''rR'' ''fF'') u (v @ lit ''rm'' @ w @ lit ''-'' @ flags) z" for al z
      unfolding fl using assms fl rf start by (intro rm_flags_spans) auto
    with pre show ?thesis
      by (intro exI [of _ u] exI [of _ "v @ lit ''rm'' @ w @ lit ''-'' @ flags"]) (auto simp del: lit_Cons)
  next
    assume fl: "flags = a @ [f] @ b @ [r] @ e"
    have "spans al (rm_flags ''fF'' ''rR'') u (v @ lit ''rm'' @ w @ lit ''-'' @ flags) z" for al z
      unfolding fl using assms fl rf start by (intro rm_flags_spans) auto
    with pre show ?thesis
      by (intro exI [of _ u] exI [of _ "v @ lit ''rm'' @ w @ lit ''-'' @ flags"]) (auto simp del: lit_Cons)
  qed
qed

text \<open>
  A removal the patterns are written for: \<open>rm\<close> at the start of the text or after \<open>;\<close>, \<open>&\<close> or \<open>|\<close>
  and blanks, one word of options right after it that begins with a dash and holds the recursive and the
  force letter in either order and case, blanks, perhaps \<open>--\<close> and blanks, and a system root as the
  first target. Options in separate words, long options, other commands in front (\<open>sudo\<close>), a line
  feed as the separator and later targets are not of this form.
\<close>

definition end_of_options :: "pystr \<Rightarrow> bool" where
  "end_of_options d \<longleftrightarrow> d = [] \<or>
     (take 2 d = lit ''--'' \<and> drop 2 d \<noteq> [] \<and> list_all is_space (drop 2 d))"

definition removes_root ::
  "pystr \<Rightarrow> pystr \<Rightarrow> pystr \<Rightarrow> pystr \<Rightarrow> pystr \<Rightarrow> pystr \<Rightarrow> pystr \<Rightarrow> pystr \<Rightarrow> bool" where
  "removes_root cmd pre w1 flags w2 d t rest \<longleftrightarrow>
     strip cmd = pre @ lit ''rm'' @ w1 @ lit ''-'' @ flags @ w2 @ d @ t @ rest \<and>
     at_command pre \<and> w1 \<noteq> [] \<and> list_all is_space w1 \<and> w2 \<noteq> [] \<and> list_all is_space w2 \<and>
     end_of_options d \<and> list_all non_space flags \<and> list_ex (one_of (lit ''rR'')) flags \<and>
     list_ex (one_of (lit ''fF'')) flags \<and> t \<in> set rm_roots \<and>
     (rest = [] \<or> is_space (hd rest) \<or> separator (hd rest))"

lemma end_of_options_spans:
  assumes "end_of_options d"
  shows "spans al (opt (Sequ (lits ''--'') spaces1)) u d z"
proof (cases "d = []")
  case True
  then show ?thesis by (simp add: opt_def spans_AltR spans_Nothing)
next
  case False
  then have d: "lit ''--'' @ drop 2 d = d" "drop 2 d \<noteq> []" "\<forall>c \<in> set (drop 2 d). is_space c"
    using assms append_take_drop_id [of 2 d] by (simp_all add: end_of_options_def list_all_iff del: lit_Cons)
  have "spans al (Sequ (lits ''--'') spaces1) u (lit ''--'' @ drop 2 d) z"
    unfolding spaces1_def by (intro spans_Sequ spans_lits spans_some1 d)
  then show ?thesis unfolding opt_def d(1) by (rule spans_AltL)
qed

lemma removes_root_hardline:
  assumes "removes_root cmd pre w1 flags w2 d t rest"
  shows "is_hardline_terminal_command al cmd"
proof -
  note r = assms [unfolded removes_root_def list_all_iff list_ex_iff one_of_def]
  from r have "\<exists>u v x y. (x, y) \<in> {(''rR'', ''fF''), (''fF'', ''rR'')} \<and>
     pre @ lit ''rm'' @ w1 @ lit ''-'' @ flags = u @ v \<and> (\<forall>al z. spans al (rm_flags x y) u v z)"
    by (intro rm_word_spans) blast+
  then obtain u v x y where xy: "(x, y) \<in> {(''rR'', ''fF''), (''fF'', ''rR'')}"
    and uv: "pre @ lit ''rm'' @ w1 @ lit ''-'' @ flags = u @ v"
    and fl: "\<And>al z. spans al (rm_flags x y) u v z" by blast
  let ?pattern = "seqs [rm_flags x y, spaces1, opt (Sequ (lits ''--'') spaces1), hardline_rm_target]"
  have w2: "spans al spaces1 (u @ v) w2 z" for z
    unfolding spaces1_def using r by (intro spans_some1) auto
  have "spans al hardline_rm_target (((u @ v) @ w2) @ d) t rest"
    using r by (intro hardline_rm_target_spans) auto
  moreover have "spans al (opt (Sequ (lits ''--'') spaces1)) ((u @ v) @ w2) d z" for z
    using r by (intro end_of_options_spans) simp
  ultimately have "spans al ?pattern u (v @ w2 @ d @ t) rest"
    using fl w2 by (intro spans_seqs) auto
  then have "search al ?pattern (u @ (v @ w2 @ d @ t) @ rest)"
    by (rule spans_search)
  moreover have "strip cmd = (pre @ lit ''rm'' @ w1 @ lit ''-'' @ flags) @ w2 @ d @ t @ rest"
    using r by simp
  then have "strip cmd = u @ (v @ w2 @ d @ t) @ rest"
    unfolding uv by simp
  ultimately have "search al ?pattern (strip cmd)" by simp
  with xy show ?thesis
    by (auto simp: is_hardline_terminal_command_def matches_any_def hardline_command_patterns_def)
qed

text \<open>The same removal with the two options in separate words is not recognised.\<close>

lemma separate_options_not_hardline: "\<not> is_hardline_terminal_command al (lit ''rm -r -f /'')"
proof -
  have strip: "strip (lit ''rm -r -f /'') = lit ''rm -r -f /''"
    by (simp add: strip_def is_space_def)
  have pos: "[0..<Suc (length (lit ''rm -r -f /''))] = [0,1,2,3,4,5,6,7,8,9,10]"
    by (simp add: upt_rec)
  show ?thesis
    unfolding is_hardline_terminal_command_def matches_any_def strip search_def pos
    by (simp add: hardline_command_patterns_def rm_flags_def dd_of_def command_start_def separator_def one_of_def
        spaces0_def spaces1_def some1_def lits_def non_space_def not_newline_def is_space_def upt_rec)
qed

end
