(* ===== verification/Tool_Catalog.thy ===== *)
theory Tool_Catalog
  imports Json "HOL-Library.Multiset"
begin

text \<open>
  The closed catalog of builtin tools (\<open>capability/builtin_catalog.py\<close>): the descriptor flags
  of every tool, the binding, availability, owners and family each name is given, its action
  overrides and terminal rule, and its recovery severity. Descriptions, input schemas, render
  contracts and fingerprints are not modelled.
\<close>

section \<open>Descriptors\<close>

datatype domain_kind = Builtin_Domain | Memory_Domain | Workflow_Domain

record descriptor =
  d_provider :: domain_kind
  d_name :: pystr
  d_model_callable :: bool
  d_read_only :: bool
  d_destructive :: bool
  d_open_world :: bool
  d_category :: pystr

definition tool_descriptor ::
  "string \<Rightarrow> domain_kind \<Rightarrow> bool \<Rightarrow> string \<Rightarrow> bool \<Rightarrow> bool \<Rightarrow> pystr \<times> descriptor" where
  "tool_descriptor name provider ro category destr open_world =
     (lit name, \<lparr>d_provider = provider, d_name = lit name, d_model_callable = True,
        d_read_only = ro, d_destructive = destr, d_open_world = open_world,
        d_category = lit category\<rparr>)"

definition domain_value :: "domain_kind \<Rightarrow> pystr" where
  "domain_value k = (case k of Builtin_Domain \<Rightarrow> lit ''builtin''
     | Memory_Domain \<Rightarrow> lit ''memory'' | Workflow_Domain \<Rightarrow> lit ''workflow'')"

definition descriptor_id :: "descriptor \<Rightarrow> pystr" where
  "descriptor_id d = domain_value (d_provider d) @ lit '':'' @ d_name d"

definition builtin_descriptors :: "(pystr \<times> descriptor) list" where
  "builtin_descriptors =
     (let B = Builtin_Domain; W = Workflow_Domain; M = Memory_Domain; t = tool_descriptor in
     [t ''read_video_frames'' B True ''filesystem_read'' False False,
      t ''read_transcript'' B True ''filesystem_read'' False False,
      t ''annotate_media'' B True ''filesystem_read'' False False,
      t ''open_in_pulsara'' B True ''filesystem_read'' False False,
      t ''query_capabilities'' B True ''mcp_read'' False False,
      t ''manage_capability'' B False ''plugin_control'' False False,
      t ''reload_capabilities'' B True ''plugin_control'' False False,
      t ''use_new_mcp_tool'' B False ''mcp_dynamic'' False False,
      t ''read_mcp_resource'' B True ''mcp_read'' False False,
      t ''read_file'' B True ''filesystem_read'' False False,
      t ''view_image'' B True ''filesystem_read'' False False,
      t ''search_content'' B True ''filesystem_read'' False False,
      t ''find_files'' B True ''filesystem_read'' False False,
      t ''edit_file'' B False ''filesystem_write'' True False,
      t ''write_file'' B False ''filesystem_write'' True False,
      t ''exec_process'' B False ''terminal'' False True,
      t ''query_processes'' B True ''terminal_process_observe'' False False,
      t ''manage_process'' B False ''terminal'' True True,
      t ''search_sessions'' B True ''session_read'' False False,
      t ''search_session_content'' B True ''session_read'' False False,
      t ''read_session_content'' B True ''session_read'' False False,
      t ''query_schedules'' B True ''scheduled_task_read'' False False,
      t ''manage_schedule'' B False ''scheduled_task_write'' False False,
      t ''todo'' W True ''agent_local'' False False,
      t ''query_agents'' W True ''subagent_runtime'' False False,
      t ''send_agent_message'' W False ''subagent_runtime'' False False,
      t ''wait_agent'' W True ''subagent_runtime'' False False,
      t ''stop_agent'' W False ''subagent_runtime'' False False,
      t ''exec_cell'' W False ''subagent_runtime'' False False,
      t ''query_cells'' W True ''subagent_runtime'' False False,
      t ''manage_cell'' W False ''subagent_runtime'' False False,
      t ''enter_plan'' W False ''plan_workflow'' False False,
      t ''ask_plan_question'' W False ''plan_workflow'' False False,
      t ''exit_plan'' W False ''plan_workflow'' False False,
      t ''search_memory'' M True ''memory_read'' False False,
      t ''get_memory'' M True ''memory_read'' False False,
      t ''remember'' M False ''memory_write'' False False,
      t ''mark_memory_relation'' M False ''memory_write'' False False])"

text \<open>The calls a cell script may make; none of them is offered to the model.\<close>

definition script_api_descriptors :: "(pystr \<times> descriptor) list" where
  "script_api_descriptors =
     map (\<lambda>p. (fst p, (snd p)\<lparr>d_model_callable := False\<rparr>))
       [tool_descriptor ''run_agent'' Workflow_Domain False ''subagent_runtime'' False False,
        tool_descriptor ''decide'' Workflow_Domain True ''subagent_runtime'' False False,
        tool_descriptor ''wait_agent'' Workflow_Domain True ''subagent_runtime'' False False]"

section \<open>Catalog entries\<close>

datatype binding_kind =
    Session_Query | Filesystem | Memory_Mutation | Memory_Recall | Memory_Query | Plan_Workflow
  | Terminal_Command | Terminal_Process | Scheduled_Task_Control | Todo_Local_State
  | Subagent_Control | Code_Mode | Decision | Mcp_Catalog | Plugin_Control

datatype availability_kind =
    Requires_Session_Query_Port | Always | Requires_Scheduled_Task_Port
  | Requires_Memory_Mutation_Port | Requires_Memory_Recall_Port | Requires_Memory_Query_Port
  | Requires_Terminal_Ports | Requires_Main_Subagent_Control | Requires_Shared_Agent_Control
  | Requires_Code_Mode | Requires_Decision_Port | Requires_Mcp_Port

datatype owner = Host_Main_Run | Subagent

datatype tool_family =
    F_Session_Query | F_Filesystem | F_Memory_Read | F_Memory_Write | F_Terminal | F_Plan
  | F_Subagent_Parent | F_Subagent_Shared | F_Code_Mode | F_Scheduled_Tasks | F_Plugin_Control
  | F_Local_State | F_Mcp

datatype terminal_rule_kind = Not_Applicable | All_Actions | Closed_Action_Set

record action_override =
  discriminator_field :: pystr
  discriminator_value :: pystr
  permission_category :: pystr
  allowed_in_read_only :: bool

record terminal_rule =
  rule_kind :: terminal_rule_kind
  terminal_access_actions :: "pystr list"
  scheduling_permission_actions :: "pystr list"

record permission_contract =
  action_overrides :: "action_override list"
  terminal_rule :: terminal_rule

datatype severity = Sev_Read_Only | Sev_Bounded_Write | Sev_Terminal | Sev_Unknown_Effect

record recovery_contract =
  severity :: severity
  include_in_unfinished_recovery :: bool

datatype binding_origin = Origin_Builtin | Origin_Workflow | Origin_Subagent_System

record catalog_entry =
  e_name :: pystr
  e_descriptor :: descriptor
  e_origin :: binding_origin
  e_contract_version :: pystr
  e_binding :: binding_kind
  e_availability :: availability_kind
  e_owners :: "owner list"
  e_permission :: permission_contract
  e_recovery :: recovery_contract
  e_family :: tool_family

definition names :: "string list \<Rightarrow> pystr list" where
  "names ts = map lit ts"

definition session_query_tool_names :: "pystr list" where
  "session_query_tool_names =
     names [''search_sessions'', ''search_session_content'', ''read_session_content'']"

definition media_tool_names :: "pystr list" where
  "media_tool_names = names [''read_video_frames'', ''read_transcript'', ''annotate_media'']"

definition filesystem_names :: "pystr list" where
  "filesystem_names = names [''edit_file'', ''read_file'', ''search_content'', ''find_files'',
     ''view_image'', ''write_file'']"

definition plan_names :: "pystr list" where
  "plan_names = names [''ask_plan_question'', ''enter_plan'', ''exit_plan'']"

definition subagent_parent_names :: "pystr list" where
  "subagent_parent_names = names [''run_agent'', ''stop_agent'']"

definition subagent_shared_names :: "pystr list" where
  "subagent_shared_names = names [''query_agents'', ''send_agent_message'', ''wait_agent'']"

definition terminal_process_actions :: "pystr list" where
  "terminal_process_actions =
     names [''close_stdin'', ''kill'', ''poll'', ''submit'', ''wait'', ''write'']"

definition catalog_shape ::
  "pystr \<Rightarrow> (binding_kind \<times> availability_kind \<times> owner list \<times> tool_family) result" where
  "catalog_shape name =
     (let both = [Host_Main_Run, Subagent]; host = [Host_Main_Run]; is_in = (\<lambda>ts. name \<in> set (names ts)) in
      if name \<in> set session_query_tool_names then
        Inr (Session_Query, Requires_Session_Query_Port, host, F_Session_Query)
      else if is_in [''reload_capabilities'', ''manage_capability''] then
        Inr (Plugin_Control, Always, host, F_Plugin_Control)
      else if name = lit ''query_capabilities'' then Inr (Mcp_Catalog, Always, both, F_Mcp)
      else if is_in [''use_new_mcp_tool'', ''read_mcp_resource''] then
        Inr (Mcp_Catalog, Requires_Mcp_Port, both, F_Mcp)
      else if name = lit ''open_in_pulsara'' \<or> name \<in> set media_tool_names then
        Inr (Filesystem, Always, host, F_Filesystem)
      else if name \<in> set filesystem_names then Inr (Filesystem, Always, both, F_Filesystem)
      else if name = lit ''exec_process'' then
        Inr (Terminal_Command, Requires_Terminal_Ports, both, F_Terminal)
      else if is_in [''query_processes'', ''manage_process''] then
        Inr (Terminal_Process, Requires_Terminal_Ports, both, F_Terminal)
      else if is_in [''query_schedules'', ''manage_schedule''] then
        Inr (Scheduled_Task_Control, Requires_Scheduled_Task_Port, host, F_Scheduled_Tasks)
      else if name = lit ''todo'' then Inr (Todo_Local_State, Always, both, F_Local_State)
      else if name \<in> set plan_names then Inr (Plan_Workflow, Always, host, F_Plan)
      else if name = lit ''search_memory'' then
        Inr (Memory_Recall, Requires_Memory_Recall_Port, host, F_Memory_Read)
      else if is_in [''get_memory''] then
        Inr (Memory_Query, Requires_Memory_Query_Port, host, F_Memory_Read)
      else if is_in [''remember'', ''mark_memory_relation''] then
        Inr (Memory_Mutation, Requires_Memory_Mutation_Port, host, F_Memory_Write)
      else if name \<in> set subagent_parent_names then
        Inr (Subagent_Control, Requires_Main_Subagent_Control, host, F_Subagent_Parent)
      else if name = lit ''wait_agent'' then
        Inr (Subagent_Control, Requires_Shared_Agent_Control, [Subagent], F_Subagent_Shared)
      else if name \<in> set subagent_shared_names then
        Inr (Subagent_Control, Requires_Shared_Agent_Control, both, F_Subagent_Shared)
      else if name = lit ''decide'' then
        Inr (Decision, Requires_Decision_Port, host, F_Code_Mode)
      else if is_in [''exec_cell'', ''query_cells'', ''manage_cell''] then
        Inr (Code_Mode, Requires_Code_Mode, host, F_Code_Mode)
      else Inl (ValueError ''builtin tool is absent from the closed catalog matrix''))"

definition action_permission_override_specs :: "pystr \<Rightarrow> action_override list" where
  "action_permission_override_specs name =
     (let mk = (\<lambda>v c. \<lparr>discriminator_field = lit ''action'', discriminator_value = lit v,
                permission_category = lit c, allowed_in_read_only = True\<rparr>) in
      if name = lit ''manage_process'' then
        [mk ''poll'' ''terminal_process_observe'', mk ''wait'' ''terminal_process_observe'']
      else if name = lit ''manage_cell'' then [mk ''wait'' ''subagent_runtime'']
      else [])"

definition permission_contract_of :: "pystr \<Rightarrow> binding_kind \<Rightarrow> permission_contract" where
  "permission_contract_of name binding =
     \<lparr>action_overrides = action_permission_override_specs name,
      terminal_rule =
        (if binding = Terminal_Command then
           \<lparr>rule_kind = All_Actions, terminal_access_actions = [], scheduling_permission_actions = []\<rparr>
         else if name = lit ''query_processes'' then
           \<lparr>rule_kind = All_Actions, terminal_access_actions = [], scheduling_permission_actions = []\<rparr>
         else if binding = Terminal_Process then
           \<lparr>rule_kind = Closed_Action_Set, terminal_access_actions = terminal_process_actions,
            scheduling_permission_actions = []\<rparr>
         else
           \<lparr>rule_kind = Not_Applicable, terminal_access_actions = [],
            scheduling_permission_actions = []\<rparr>)\<rparr>"

definition recovery_contract_of :: "pystr \<Rightarrow> recovery_contract" where
  "recovery_contract_of name =
     \<lparr>severity =
        (if name \<in> set (names [''exec_process'', ''manage_process'']) then Sev_Terminal
         else if name \<in> set (names [''edit_file'', ''write_file'']) then Sev_Bounded_Write
         else if name \<in> set media_tool_names \<or> name \<in> set session_query_tool_names \<or>
           name \<in> set (names [''open_in_pulsara'', ''query_capabilities'', ''query_agents'',
             ''query_processes'', ''query_schedules'', ''query_cells'', ''decide'', ''read_file'',
             ''view_image'', ''read_mcp_resource'', ''reload_capabilities'', ''search_content'',
             ''find_files'', ''todo'']) then Sev_Read_Only
         else Sev_Unknown_Effect),
      include_in_unfinished_recovery = (name \<notin> set plan_names)\<rparr>"

definition catalog_entry_of :: "pystr \<Rightarrow> descriptor \<Rightarrow> bool \<Rightarrow> catalog_entry result" where
  "catalog_entry_of name d code_mode =
     bind_result (catalog_shape name) (\<lambda>(binding, availability, owners, family).
       Inr \<lparr>e_name = name, e_descriptor = d,
            e_origin =
              (if name \<in> set plan_names then Origin_Workflow
               else if name \<in> set subagent_parent_names \<or> name \<in> set subagent_shared_names then
                 Origin_Subagent_System
               else Origin_Builtin),
            e_contract_version = (if name = lit ''exit_plan'' then lit ''v2'' else lit ''v1''),
            e_binding = binding, e_availability = availability,
            e_owners = (if code_mode then [Host_Main_Run] else owners),
            e_permission = permission_contract_of name binding,
            e_recovery = recovery_contract_of name,
            e_family = (if code_mode then F_Code_Mode else family)\<rparr>)"

text \<open>The tuple the module builds when it is imported, sorted by name.\<close>

definition builtin_tool_catalog :: "catalog_entry list result" where
  "builtin_tool_catalog =
     for_each (\<lambda>es p. bind_result (catalog_entry_of (fst p) (snd p) False) (\<lambda>e. Inr (es @ [e])))
       [] (sort_key fst builtin_descriptors)"

definition builtin_tool_catalog_entry :: "pystr \<Rightarrow> catalog_entry result" where
  "builtin_tool_catalog_entry name =
     (case map_of builtin_descriptors name of
        None \<Rightarrow> Inl (KeyError name)
      | Some d \<Rightarrow> catalog_entry_of name d False)"

definition script_api_catalog_entry :: "pystr \<Rightarrow> catalog_entry result" where
  "script_api_catalog_entry name =
     (case map_of script_api_descriptors name of
        None \<Rightarrow> Inl (KeyError name)
      | Some d \<Rightarrow> catalog_entry_of name d True)"

definition execution_catalog_entry :: "pystr \<Rightarrow> bool \<Rightarrow> catalog_entry result" where
  "execution_catalog_entry name code_mode =
     (if map_of script_api_descriptors name \<noteq> None \<and>
         (code_mode \<or> map_of builtin_descriptors name = None)
      then script_api_catalog_entry name else builtin_tool_catalog_entry name)"

fun find_override :: "(pystr \<times> json) list \<Rightarrow> action_override list \<Rightarrow> action_override option" where
  "find_override args [] = None"
| "find_override args (ov # ovs) =
     (if map_of args (discriminator_field ov) = Some (JStr (discriminator_value ov)) then Some ov
      else find_override args ovs)"

definition builtin_action_permission_override ::
  "pystr \<Rightarrow> (pystr \<times> json) list \<Rightarrow> action_override option result" where
  "builtin_action_permission_override name args =
     bind_result (builtin_tool_catalog_entry name)
       (\<lambda>e. Inr (find_override args (action_overrides (e_permission e))))"

section \<open>The catalog is closed and consistent\<close>

text \<open>
  What the permission gate reads off an entry, by name: which tools run commands, drive
  processes, control subagents or write files. A tool that only reads is in none of the
  writing categories.
\<close>

definition gate_view :: "pystr \<Rightarrow> descriptor \<Rightarrow> catalog_entry \<Rightarrow> bool" where
  "gate_view n d e \<longleftrightarrow>
     e_name e = n \<and> e_descriptor e = d \<and> d_name d = n \<and>
     action_overrides (e_permission e) = action_permission_override_specs n \<and>
     (e_binding e = Terminal_Command) = (n = lit ''exec_process'') \<and>
     (e_binding e = Terminal_Process) = (n = lit ''query_processes'' \<or> n = lit ''manage_process'') \<and>
     (e_family e = F_Terminal) = (n \<in> set (names [''exec_process'', ''query_processes'', ''manage_process''])) \<and>
     (e_family e = F_Subagent_Parent) = (n = lit ''stop_agent'') \<and>
     (d_category d = lit ''terminal'') = (n = lit ''exec_process'' \<or> n = lit ''manage_process'') \<and>
     (d_category d = lit ''filesystem_write'') = (n = lit ''edit_file'' \<or> n = lit ''write_file'') \<and>
     (d_read_only d \<longrightarrow>
        n \<notin> set (names [''exec_process'', ''manage_process'', ''edit_file'', ''write_file'', ''stop_agent'']))"

text \<open>
  The consistency of one entry: the recovery severity agrees with the descriptor, the actions
  with an override of their own are actions the terminal rule knows, and workflow steps are
  left out of unfinished-call recovery.
\<close>

definition entry_consistent :: "catalog_entry \<Rightarrow> bool" where
  "entry_consistent e \<longleftrightarrow>
     (severity (e_recovery e) = Sev_Read_Only \<longrightarrow> d_read_only (e_descriptor e)) \<and>
     (severity (e_recovery e) = Sev_Bounded_Write) =
       (d_category (e_descriptor e) = lit ''filesystem_write'') \<and>
     (severity (e_recovery e) = Sev_Terminal) =
       (e_family e = F_Terminal \<and> \<not> d_read_only (e_descriptor e)) \<and>
     (d_destructive (e_descriptor e) \<longrightarrow>
       severity (e_recovery e) = Sev_Bounded_Write \<or> severity (e_recovery e) = Sev_Terminal) \<and>
     (rule_kind (terminal_rule (e_permission e)) = Closed_Action_Set \<longrightarrow>
       list_all (\<lambda>ov. discriminator_value ov \<in>
           set (terminal_access_actions (terminal_rule (e_permission e))))
         (action_overrides (e_permission e))) \<and>
     (rule_kind (terminal_rule (e_permission e)) = Not_Applicable) = (e_family e \<noteq> F_Terminal) \<and>
     include_in_unfinished_recovery (e_recovery e) = (e_family e \<noteq> F_Plan) \<and>
     (e_owners e \<noteq> [])"

definition entry_total :: "pystr \<times> descriptor \<Rightarrow> bool" where
  "entry_total p \<longleftrightarrow>
     (case catalog_entry_of (fst p) (snd p) False of
        Inl _ \<Rightarrow> False
      | Inr e \<Rightarrow> gate_view (fst p) (snd p) e \<and> entry_consistent e)"

lemmas catalog_eval =
  tool_descriptor_def catalog_entry_of_def catalog_shape_def names_def Let_def
  session_query_tool_names_def media_tool_names_def filesystem_names_def plan_names_def
  subagent_parent_names_def subagent_shared_names_def terminal_process_actions_def
  permission_contract_of_def recovery_contract_of_def action_permission_override_specs_def

lemma entries_total: "list_all entry_total builtin_descriptors"
  by (simp add: builtin_descriptors_def entry_total_def gate_view_def entry_consistent_def
      catalog_eval del: lit_Cons)

lemma catalog_entry_ok:
  assumes "(n, d) \<in> set builtin_descriptors"
  obtains e where "catalog_entry_of n d False = Inr e" and "gate_view n d e"
    and "entry_consistent e"
proof -
  from assms entries_total have "entry_total (n, d)" by (simp add: list_all_iff)
  then show ?thesis using that by (auto simp: entry_total_def split: sum.splits)
qed

lemma catalog_lookup:
  "builtin_tool_catalog_entry n = Inr e \<Longrightarrow>
     \<exists>d. map_of builtin_descriptors n = Some d \<and> gate_view n d e \<and> entry_consistent e"
  by (auto simp: builtin_tool_catalog_entry_def split: option.splits
      dest!: map_of_SomeD elim!: catalog_entry_ok)

lemma catalog_lookup_error: "builtin_tool_catalog_entry n = Inl x \<Longrightarrow> x = KeyError n"
  by (auto simp: builtin_tool_catalog_entry_def split: option.splits
      dest!: map_of_SomeD elim!: catalog_entry_ok)

lemma catalog_lookup_ok:
  "map_of builtin_descriptors n \<noteq> None \<longleftrightarrow> is_ok (builtin_tool_catalog_entry n)"
  by (auto simp: builtin_tool_catalog_entry_def split: option.splits
      dest!: map_of_SomeD elim!: catalog_entry_ok)

lemma catalog_build:
  assumes "\<forall>p \<in> set ps. is_ok (catalog_entry_of (fst p) (snd p) False)"
  shows "\<exists>es'. for_each (\<lambda>es p. bind_result (catalog_entry_of (fst p) (snd p) False)
        (\<lambda>e. Inr (es @ [e]))) es ps = Inr (es @ es') \<and>
      list_all2 (\<lambda>p e. catalog_entry_of (fst p) (snd p) False = Inr e) ps es'"
  using assms
proof (induction ps arbitrary: es)
  case Nil
  then show ?case by simp
next
  case (Cons p ps)
  then obtain e where e: "catalog_entry_of (fst p) (snd p) False = Inr e"
    by (cases "catalog_entry_of (fst p) (snd p) False") auto
  from Cons.IH [of "es @ [e]"] Cons.prems obtain es' where
    "for_each (\<lambda>es p. bind_result (catalog_entry_of (fst p) (snd p) False)
        (\<lambda>e. Inr (es @ [e]))) (es @ [e]) ps = Inr ((es @ [e]) @ es')"
    "list_all2 (\<lambda>p e. catalog_entry_of (fst p) (snd p) False = Inr e) ps es'" by auto
  with e show ?case by (intro exI [of _ "e # es'"]) simp
qed

text \<open>
  C40. The catalog the module builds on import is complete and consistent: no tool is outside
  the closed matrix, the entries are exactly the descriptors in name order, and each entry's
  recovery severity, terminal rule, action overrides and family agree with its descriptor (a
  tool recovered as read-only is read-only, the bounded writes are the file writers, the
  destructive tools are never recovered as harmless, overridden actions exist).
\<close>

theorem catalog_complete:
  "\<exists>es. builtin_tool_catalog = Inr es \<and> map e_name es = sort (map fst builtin_descriptors) \<and>
     map e_descriptor es = map snd (sort_key fst builtin_descriptors) \<and>
     list_all entry_consistent es"
proof -
  let ?ps = "sort_key fst builtin_descriptors"
  have ok: "is_ok (catalog_entry_of (fst p) (snd p) False)" if "p \<in> set ?ps" for p
  proof -
    from that have "(fst p, snd p) \<in> set builtin_descriptors" by simp
    then show ?thesis by (elim catalog_entry_ok) simp
  qed
  then obtain es where es: "builtin_tool_catalog = Inr es"
    and all: "list_all2 (\<lambda>p e. catalog_entry_of (fst p) (snd p) False = Inr e) ?ps es"
    using catalog_build [of ?ps "[]"] by (auto simp: builtin_tool_catalog_def)
  have facts: "e_name (es ! i) = fst (?ps ! i) \<and> e_descriptor (es ! i) = snd (?ps ! i) \<and>
      entry_consistent (es ! i)" if "i < length es" for i
  proof -
    have i: "i < length ?ps" using that list_all2_lengthD [OF all] by simp
    then have "?ps ! i \<in> set builtin_descriptors" using nth_mem [OF i] by simp
    then obtain e where "catalog_entry_of (fst (?ps ! i)) (snd (?ps ! i)) False = Inr e"
      "gate_view (fst (?ps ! i)) (snd (?ps ! i)) e" "entry_consistent e"
      by (metis catalog_entry_ok prod.collapse)
    moreover have "catalog_entry_of (fst (?ps ! i)) (snd (?ps ! i)) False = Inr (es ! i)"
      using all i by (rule list_all2_nthD)
    ultimately show ?thesis by (auto simp: gate_view_def)
  qed
  have len: "length es = length ?ps" using list_all2_lengthD [OF all] by simp
  have "map e_name es = map fst ?ps" and "map e_descriptor es = map snd ?ps"
    using facts len by (auto intro: nth_equalityI)
  moreover have "list_all entry_consistent es" using facts by (simp add: list_all_length)
  moreover have "map fst ?ps = sort (map fst builtin_descriptors)"
    by (rule properties_for_sort [symmetric]) auto
  ultimately show ?thesis using es by metis
qed

end
