(* ===== verification/Permission_Gate.thy ===== *)
theory Permission_Gate
  imports Permission Terminal_Risk Tool_Catalog
begin

text \<open>
  The classification of a call (\<open>capability/call_classifier.py\<close>,
  \<open>capability/management_effects.py\<close>) and the permission gate
  (\<open>tool_permission.py\<close>, \<open>PolicyPermissionGate\<close>). Parameters: \<open>al\<close>, Unicode's alphanumerics
  outside ASCII; \<open>dfp\<close>, the fingerprint of a descriptor; \<open>env\<close>, home expansion and symbolic
  link resolution of the file system; \<open>inner\<close>, the gate that is asked last. The metadata of
  a classification and its catalog fingerprint, which the gate does not read, are left out.
\<close>

section \<open>Calls and effects\<close>

record tool_call =
  call_id :: pystr
  call_name :: pystr
  arguments :: "(pystr \<times> json) list"

definition tool_call_post_init :: "tool_call \<Rightarrow> unit result" where
  "tool_call_post_init c =
     (if call_id c = [] \<or> call_name c = [] then
        Inl (ValueError ''tool call identity and name are required'') else Inr ())"

record capability_effects =
  eff_workspace_write :: bool
  eff_outside_workspace_write :: bool
  eff_process_control :: bool
  eff_destructive :: bool

definition capability_effects_post_init :: "capability_effects \<Rightarrow> unit result" where
  "capability_effects_post_init e =
     (if eff_destructive e \<and>
         \<not> (eff_workspace_write e \<or> eff_outside_workspace_write e \<or> eff_process_control e)
      then Inl (ValueError ''capability management requires resolved physical effects'')
      else Inr ())"

definition effects_read_only :: "capability_effects \<Rightarrow> bool" where
  "effects_read_only e \<longleftrightarrow>
     \<not> (eff_workspace_write e \<or> eff_outside_workspace_write e \<or> eff_process_control e)"

record classification =
  cl_descriptor_id :: pystr
  cl_tool_name :: pystr
  cl_read_only :: bool
  cl_category :: pystr
  cl_destructive :: bool
  cl_open_world :: bool
  cl_family :: "tool_family option"
  cl_binding :: "binding_kind option"
  cl_effects :: "capability_effects option"

definition classify :: "(descriptor \<Rightarrow> pystr) \<Rightarrow> tool_call \<Rightarrow> descriptor \<Rightarrow> classification result" where
  "classify dfp call d =
     (case builtin_tool_catalog_entry (call_name call) of
        Inl (KeyError _) \<Rightarrow>
          Inr \<lparr>cl_descriptor_id = descriptor_id d, cl_tool_name = call_name call,
               cl_read_only = d_read_only d, cl_category = d_category d,
               cl_destructive = d_destructive d, cl_open_world = d_open_world d,
               cl_family = None, cl_binding = None, cl_effects = None\<rparr>
      | Inl x \<Rightarrow> Inl x
      | Inr e \<Rightarrow>
          if dfp (e_descriptor e) \<noteq> dfp d then
            Inl (ValueError ''builtin call classifier descriptor/catalog mismatch'')
          else bind_result (builtin_action_permission_override (call_name call) (arguments call))
            (\<lambda>override. case override of
               Some ov \<Rightarrow>
                 Inr \<lparr>cl_descriptor_id = descriptor_id d, cl_tool_name = call_name call,
                      cl_read_only = allowed_in_read_only ov, cl_category = permission_category ov,
                      cl_destructive = False, cl_open_world = d_open_world d,
                      cl_family = Some (e_family e), cl_binding = Some (e_binding e),
                      cl_effects = None\<rparr>
             | None \<Rightarrow>
                 Inr \<lparr>cl_descriptor_id = descriptor_id d, cl_tool_name = call_name call,
                      cl_read_only = d_read_only d, cl_category = d_category d,
                      cl_destructive = d_destructive d, cl_open_world = d_open_world d,
                      cl_family = Some (e_family e), cl_binding = Some (e_binding e),
                      cl_effects = None\<rparr>))"

definition classify_builtin ::
  "(descriptor \<Rightarrow> pystr) \<Rightarrow> tool_call \<Rightarrow> capability_effects option \<Rightarrow> classification result" where
  "classify_builtin dfp call effects =
     (case effects of
        Some e \<Rightarrow>
          if call_name call \<noteq> lit ''manage_capability'' then
            Inl (ValueError ''resolved capability effects belong only to manage_capability'')
          else Inr \<lparr>cl_descriptor_id = lit ''builtin:manage_capability'',
                    cl_tool_name = call_name call, cl_read_only = effects_read_only e,
                    cl_category = lit ''capability_management'',
                    cl_destructive = eff_destructive e, cl_open_world = False,
                    cl_family = Some F_Plugin_Control, cl_binding = None, cl_effects = Some e\<rparr>
      | None \<Rightarrow> bind_result (builtin_tool_catalog_entry (call_name call))
                  (\<lambda>entry. classify dfp call (e_descriptor entry)))"

section \<open>Decisions\<close>

datatype decision_kind = Allow | Deny | Wait_For_User

record decision =
  kind :: decision_kind
  reason :: "pystr option"
  suggested_rules :: "(pystr \<times> pystr) list list"

definition allow :: decision where
  "allow = \<lparr>kind = Allow, reason = None, suggested_rules = []\<rparr>"

definition decide_with :: "decision_kind \<Rightarrow> string \<Rightarrow> (pystr \<times> pystr) list list \<Rightarrow> decision" where
  "decide_with k why rules = \<lparr>kind = k, reason = Some (lit why), suggested_rules = rules\<rparr>"

definition allow_all_gate :: "tool_call list \<Rightarrow> decision result" where
  "allow_all_gate calls = Inr allow"

text \<open>
  A path of \<open>pathlib\<close>: whether it is absolute, and its parts. \<open>expand_user\<close> stands for
  \<open>Path(text).expanduser()\<close> and \<open>resolve_path\<close> for \<open>Path.resolve()\<close>; both may raise.
\<close>

record path =
  absolute :: bool
  parts :: "pystr list"

record path_env =
  expand_user :: "pystr \<Rightarrow> path result"
  resolve_path :: "path \<Rightarrow> path result"

record gate =
  g_state :: permission_state
  g_root :: path

definition gate_init :: "path_env \<Rightarrow> permission_state \<Rightarrow> pystr \<Rightarrow> gate result" where
  "gate_init env st workspace_root =
     bind_result (expand_user env workspace_root) (\<lambda>p.
     bind_result (resolve_path env p) (\<lambda>root. Inr \<lparr>g_state = st, g_root = root\<rparr>))"

abbreviation g_policy :: "gate \<Rightarrow> policy" where
  "g_policy g \<equiv> ps_policy (g_state g)"

fun json_member :: "json option \<Rightarrow> pystr \<Rightarrow> json option" where
  "json_member (Some (JObj kvs)) k = map_of kvs k"
| "json_member _ k = None"

text \<open>\<open>root in resolved.parents\<close>: the root is a proper ancestor.\<close>

definition inside_root :: "path \<Rightarrow> path \<Rightarrow> bool" where
  "inside_root root p \<longleftrightarrow>
     p = root \<or> (absolute p = absolute root \<and> strict_prefix (parts root) (parts p))"

definition filesystem_write_access :: "path_env \<Rightarrow> gate \<Rightarrow> tool_call \<Rightarrow> write_access result" where
  "filesystem_write_access env g call =
     (let target = map_of (arguments call) (lit ''target'') in
      if json_member target (lit ''kind'') \<noteq> Some (JStr (lit ''PATH'')) then Inr Write_Deny
      else case json_member target (lit ''path'') of
        Some (JStr raw) \<Rightarrow>
          if strip raw = [] then Inr Write_Deny
          else bind_result (expand_user env raw) (\<lambda>candidate.
            let candidate' = (if absolute candidate then candidate
                  else \<lparr>absolute = absolute (g_root g), parts = parts (g_root g) @ parts candidate\<rparr>) in
            bind_result (resolve_path env candidate') (\<lambda>resolved.
              Inr (if inside_root (g_root g) resolved then workspace_write (g_policy g)
                   else outside_workspace_write (g_policy g))))
      | _ \<Rightarrow> Inr Write_Deny)"

definition evaluate_capability_effects :: "gate \<Rightarrow> capability_effects \<Rightarrow> decision" where
  "evaluate_capability_effects g e =
     (if effects_read_only e then allow
      else if profile (g_policy g) = Profile_Read_Only then
        decide_with Deny ''capability write requires user control plane'' []
      else
        let ws = (if eff_workspace_write e then [workspace_write (g_policy g)] else []) @
                 (if eff_outside_workspace_write e then [outside_workspace_write (g_policy g)] else []) in
        if Write_Deny \<in> set ws \<or> (eff_process_control e \<and> terminal (g_policy g) = Off) then
          decide_with Deny ''capability effect is outside the permission boundary'' []
        else if Write_Ask \<in> set ws \<or>
            (eff_process_control e \<and>
             (terminal (g_policy g) = Terminal_Ask \<or> approval (g_policy g) = On_Request)) then
          decide_with Wait_For_User ''capability changes require user confirmation'' []
        else allow)"

definition arg_text :: "tool_call \<Rightarrow> string \<Rightarrow> pystr option" where
  "arg_text call k =
     (case map_of (arguments call) (lit k) of Some (JStr t) \<Rightarrow> Some t | _ \<Rightarrow> None)"

definition terminal_process_input :: "tool_call \<Rightarrow> pystr option" where
  "terminal_process_input call =
     (if arg_text call ''action'' = Some (lit ''write'') \<or>
         arg_text call ''action'' = Some (lit ''submit'')
      then arg_text call ''data'' else None)"

definition evaluate_terminal_call ::
  "(nat \<Rightarrow> bool) \<Rightarrow> gate \<Rightarrow> tool_call \<Rightarrow> classification \<Rightarrow> decision" where
  "evaluate_terminal_call al g call cl =
     (let command = arg_text call ''command'' in
      if terminal (g_policy g) = Terminal_Ask then
        decide_with Wait_For_User ''terminal access requires user confirmation by permission policy''
          [[(lit ''tool'', call_name call), (lit ''reason'', lit ''terminal_access_ask'')]]
      else if approval (g_policy g) = On_Request then
        decide_with Wait_For_User ''terminal tool requires user confirmation by approval policy''
          [[(lit ''tool'', call_name call), (lit ''reason'', lit ''terminal_on_request'')]]
      else if cl_binding cl = Some Terminal_Command \<and> approval (g_policy g) = Risky_Only then
        (case command of
           Some t \<Rightarrow>
             if is_risky_terminal_command al t then
               decide_with Wait_For_User
                 ''terminal command requires user confirmation before execution''
                 [[(lit ''tool'', lit ''exec_process''),
                   (lit ''reason'', if is_sensitive_terminal_command al t
                      then lit ''sensitive_terminal_command'' else lit ''dangerous_terminal_command''),
                   (lit ''command'', t)]]
             else allow
         | None \<Rightarrow> allow)
      else allow)"

text \<open>\<open>tool '{call.name}' is not allowed by permission policy\<close>\<close>

definition not_allowed :: "tool_call \<Rightarrow> decision" where
  "not_allowed call =
     \<lparr>kind = Deny,
      reason = Some (lit ''tool '' @ [39] @ call_name call @ [39] @
        lit '' is not allowed by permission policy''),
      suggested_rules = []\<rparr>"

definition hardline_data :: "(nat \<Rightarrow> bool) \<Rightarrow> pystr option \<Rightarrow> bool" where
  "hardline_data al t =
     (case t of Some x \<Rightarrow> is_hardline_terminal_command al x | None \<Rightarrow> False)"

definition evaluate_classified ::
  "(nat \<Rightarrow> bool) \<Rightarrow> path_env \<Rightarrow> gate \<Rightarrow> tool_call \<Rightarrow> classification option \<Rightarrow> decision result" where
  "evaluate_classified al env g call cl =
     (let family = Option.bind cl cl_family; binding = Option.bind cl cl_binding;
          category = map_option cl_category cl;
          reads = (case cl of Some c \<Rightarrow> cl_read_only c | None \<Rightarrow> False) in
      if call_name call = lit ''manage_capability'' then
        (case Option.bind cl cl_effects of
           None \<Rightarrow> Inr (decide_with Deny ''capability operation has not been prepared'' [])
         | Some e \<Rightarrow> Inr (evaluate_capability_effects g e))
      else if binding = Some Terminal_Command \<and> hardline_data al (arg_text call ''command'') then
        Inr (decide_with Deny ''terminal command blocked by hardline permission policy''
          [[(lit ''tool'', lit ''exec_process''), (lit ''reason'', lit ''hardline_terminal_command''),
            (lit ''command'', case arg_text call ''command'' of Some t \<Rightarrow> t | None \<Rightarrow> [])]])
      else if binding = Some Terminal_Process \<and> hardline_data al (terminal_process_input call) then
        Inr (decide_with Deny ''terminal process input blocked by hardline permission policy''
          [[(lit ''tool'', lit ''manage_process''),
            (lit ''reason'', lit ''hardline_terminal_process_input'')]])
      else if cl \<noteq> None \<and>
          (family = Some F_Subagent_Parent \<or> call_name call = lit ''query_agents'') \<and>
          ps_mode (g_state g) \<noteq> Some Bypass_Permissions then
        Inr (decide_with Deny ''subagent_requires_bypass_mode'' [])
      else if profile (g_policy g) = Profile_Read_Only then
        Inr (if reads then allow else not_allowed call)
      else if terminal (g_policy g) = Off \<and> family = Some F_Terminal then
        Inr (not_allowed call)
      else if family = Some F_Terminal \<and> reads then Inr allow
      else if cl \<noteq> None \<and> (family = Some F_Terminal \<or> category = Some (lit ''terminal'')) then
        (case cl of Some c \<Rightarrow> Inr (evaluate_terminal_call al g call c) | None \<Rightarrow> Inr allow)
      else if category = Some (lit ''filesystem_write'') then
        bind_result (filesystem_write_access env g call) (\<lambda>access.
          Inr (case access of
             Write_Deny \<Rightarrow>
               decide_with Deny ''file write is outside the current permission boundary''
                 [[(lit ''tool'', call_name call), (lit ''reason'', lit ''write_scope_denied'')]]
           | Write_Ask \<Rightarrow>
               decide_with Wait_For_User
                 ''file write requires user confirmation by permission policy''
                 [[(lit ''tool'', call_name call), (lit ''reason'', lit ''write_scope_ask'')]]
           | Write_Allow \<Rightarrow> allow))
      else Inr allow)"

definition evaluate_call ::
  "(nat \<Rightarrow> bool) \<Rightarrow> (descriptor \<Rightarrow> pystr) \<Rightarrow> path_env \<Rightarrow> gate \<Rightarrow> tool_call \<Rightarrow>
   capability_effects option \<Rightarrow> decision result" where
  "evaluate_call al dfp env g call effects =
     (case classify_builtin dfp call effects of
        Inl (KeyError _) \<Rightarrow> evaluate_classified al env g call None
      | Inl x \<Rightarrow> Inl x
      | Inr cl \<Rightarrow> evaluate_classified al env g call (Some cl))"

fun evaluate_calls ::
  "(tool_call \<Rightarrow> decision result) \<Rightarrow> (tool_call list \<Rightarrow> decision result) \<Rightarrow>
   tool_call list \<Rightarrow> tool_call list \<Rightarrow> decision result" where
  "evaluate_calls ev inner all [] = inner all"
| "evaluate_calls ev inner all (c # cs) =
     bind_result (ev c) (\<lambda>d. if kind d \<noteq> Allow then Inr d else evaluate_calls ev inner all cs)"

definition evaluate ::
  "(nat \<Rightarrow> bool) \<Rightarrow> (descriptor \<Rightarrow> pystr) \<Rightarrow> path_env \<Rightarrow> gate \<Rightarrow> (tool_call list \<Rightarrow> decision result) \<Rightarrow>
   tool_call list \<Rightarrow> capability_effects option \<Rightarrow> decision result" where
  "evaluate al dfp env g inner calls effects =
     (if effects \<noteq> None \<and>
         (case calls of [c] \<Rightarrow> call_name c \<noteq> lit ''manage_capability'' | _ \<Rightarrow> True) then
        Inl (ValueError ''capability effects require one exact management call'')
      else evaluate_calls (\<lambda>c. evaluate_call al dfp env g c effects) inner calls calls)"

section \<open>Classification by name\<close>

text \<open>A call of a tool that only observes, by its descriptor or by its action.\<close>

definition observes :: "tool_call \<Rightarrow> bool" where
  "observes c \<longleftrightarrow>
     call_name c = lit ''manage_process'' \<and>
       arg_text c ''action'' \<in> {Some (lit ''poll''), Some (lit ''wait'')} \<or>
     call_name c = lit ''manage_cell'' \<and> arg_text c ''action'' = Some (lit ''wait'')"

definition reads_only :: "tool_call \<Rightarrow> descriptor \<Rightarrow> bool" where
  "reads_only c d \<longleftrightarrow> observes c \<or> d_read_only d"

lemma arg_text_eq: "arg_text c k = Some t \<longleftrightarrow> map_of (arguments c) (lit k) = Some (JStr t)"
  by (auto simp: arg_text_def split: option.splits json.splits)

lemma find_override_observes:
  "find_override (arguments c) (action_permission_override_specs (call_name c)) \<noteq> None \<longleftrightarrow> observes c"
  by (simp add: action_permission_override_specs_def observes_def Let_def arg_text_eq del: lit_Cons)

lemma override_flags:
  assumes "find_override (arguments c) (action_permission_override_specs (call_name c)) = Some ov"
  shows "allowed_in_read_only ov \<and> permission_category ov \<noteq> lit ''terminal'' \<and>
    permission_category ov \<noteq> lit ''filesystem_write''"
  using assms
  by (auto simp: action_permission_override_specs_def Let_def simp del: lit_Cons split: if_splits)

lemma gate_viewD:
  assumes "gate_view n d e"
  shows "(e_binding e = Terminal_Command) = (n = lit ''exec_process'')"
    and "(e_binding e = Terminal_Process) = (n = lit ''query_processes'' \<or> n = lit ''manage_process'')"
    and "(e_family e = F_Terminal) =
      (n \<in> set (names [''exec_process'', ''query_processes'', ''manage_process'']))"
    and "(e_family e = F_Subagent_Parent) = (n = lit ''stop_agent'')"
    and "(d_category d = lit ''terminal'') = (n = lit ''exec_process'' \<or> n = lit ''manage_process'')"
    and "(d_category d = lit ''filesystem_write'') = (n = lit ''edit_file'' \<or> n = lit ''write_file'')"
  using assms unfolding gate_view_def by - (elim conjE, assumption)+

lemma classify_known:
  assumes "map_of builtin_descriptors (call_name c) = Some d"
  obtains e cl where "gate_view (call_name c) d e" and "classify_builtin dfp c None = Inr cl"
    and "cl_family cl = Some (e_family e)" and "cl_binding cl = Some (e_binding e)"
    and "cl_effects cl = None" and "cl_read_only cl = reads_only c d"
    and "cl_category cl = lit ''terminal'' \<longleftrightarrow> d_category d = lit ''terminal'' \<and> \<not> observes c"
    and "cl_category cl = lit ''filesystem_write'' \<longleftrightarrow>
           d_category d = lit ''filesystem_write'' \<and> \<not> observes c"
proof -
  from assms obtain e where e: "builtin_tool_catalog_entry (call_name c) = Inr e"
    using catalog_lookup_ok [of "call_name c"]
    by (cases "builtin_tool_catalog_entry (call_name c)") auto
  with assms have v: "gate_view (call_name c) d e" using catalog_lookup by fastforce
  let ?ov = "find_override (arguments c) (action_permission_override_specs (call_name c))"
  have ov: "builtin_action_permission_override (call_name c) (arguments c) = Inr ?ov"
    using v e by (simp add: builtin_action_permission_override_def gate_view_def)
  have ed: "e_descriptor e = d" using v by (simp add: gate_view_def)
  show ?thesis
  proof (cases ?ov)
    case None
    with find_override_observes have "\<not> observes c" by blast
    with None ov e ed that [OF v] show ?thesis
      by (simp add: classify_builtin_def classify_def reads_only_def)
  next
    case (Some x)
    with find_override_observes have "observes c" by blast
    with Some ov e ed that [OF v] override_flags [OF Some] show ?thesis
      by (simp add: classify_builtin_def classify_def reads_only_def)
  qed
qed

lemma classify_unknown:
  "map_of builtin_descriptors (call_name c) = None \<Longrightarrow>
     classify_builtin dfp c None = Inl (KeyError (call_name c))"
  by (simp add: classify_builtin_def builtin_tool_catalog_entry_def)

section \<open>The decision table\<close>

text \<open>
  The promise of the gate, by tool name: hard limits first, then the subagent rule, then the
  read-only profile, the terminal axis and the write axes.
\<close>

fun write_verdict :: "write_access \<Rightarrow> decision_kind" where
  "write_verdict Write_Deny = Deny"
| "write_verdict Write_Ask = Wait_For_User"
| "write_verdict Write_Allow = Allow"

definition risky_data :: "(nat \<Rightarrow> bool) \<Rightarrow> pystr option \<Rightarrow> bool" where
  "risky_data al t = (case t of Some x \<Rightarrow> is_risky_terminal_command al x | None \<Rightarrow> False)"

definition verdict_table ::
  "(nat \<Rightarrow> bool) \<Rightarrow> path_env \<Rightarrow> gate \<Rightarrow> tool_call \<Rightarrow> descriptor \<Rightarrow> decision_kind result" where
  "verdict_table al env g c d =
     (let n = call_name c; p = g_policy g in
      if n = lit ''manage_capability'' then Inr Deny
      else if n = lit ''exec_process'' \<and> hardline_data al (arg_text c ''command'') then Inr Deny
      else if (n = lit ''query_processes'' \<or> n = lit ''manage_process'') \<and>
          hardline_data al (terminal_process_input c) then Inr Deny
      else if (n = lit ''stop_agent'' \<or> n = lit ''query_agents'') \<and>
          ps_mode (g_state g) \<noteq> Some Bypass_Permissions then Inr Deny
      else if profile p = Profile_Read_Only then Inr (if reads_only c d then Allow else Deny)
      else if n \<in> set (names [''exec_process'', ''query_processes'', ''manage_process'']) then
        if terminal p = Off then Inr Deny
        else if reads_only c d then Inr Allow
        else if terminal p = Terminal_Ask \<or> approval p = On_Request then Inr Wait_For_User
        else if n = lit ''exec_process'' \<and> approval p = Risky_Only \<and>
            risky_data al (arg_text c ''command'') then Inr Wait_For_User
        else Inr Allow
      else if n = lit ''edit_file'' \<or> n = lit ''write_file'' then
        map_sum id write_verdict (filesystem_write_access env g c)
      else Inr Allow)"

lemma kind_simps [simp]:
  "kind allow = Allow" "kind (decide_with k w r) = k" "kind (not_allowed c) = Deny"
  by (simp_all add: allow_def decide_with_def not_allowed_def)

lemma kind_terminal:
  "kind (evaluate_terminal_call al g c cl) =
     (if terminal (g_policy g) = Terminal_Ask \<or> approval (g_policy g) = On_Request then Wait_For_User
      else if cl_binding cl = Some Terminal_Command \<and> approval (g_policy g) = Risky_Only \<and>
        risky_data al (arg_text c ''command'') then Wait_For_User
      else Allow)"
  by (simp add: evaluate_terminal_call_def Let_def risky_data_def split: option.split)

lemma kind_write_case:
  "map_sum id kind (bind_result r (\<lambda>access. Inr (case access of
       Write_Deny \<Rightarrow> decide_with Deny a b | Write_Ask \<Rightarrow> decide_with Wait_For_User a' b'
     | Write_Allow \<Rightarrow> allow))) = map_sum id write_verdict r"
  by (cases r) (auto split: write_access.split)

lemma evaluate_known:
  assumes "map_of builtin_descriptors (call_name c) = Some d"
  shows "map_sum id kind (evaluate_call al dfp env g c None) = verdict_table al env g c d"
proof -
  obtain e cl where v: "gate_view (call_name c) d e" and cl: "classify_builtin dfp c None = Inr cl"
    and f: "cl_family cl = Some (e_family e)" "cl_binding cl = Some (e_binding e)"
      "cl_effects cl = None" "cl_read_only cl = reads_only c d"
      "cl_category cl = lit ''terminal'' \<longleftrightarrow> d_category d = lit ''terminal'' \<and> \<not> observes c"
      "cl_category cl = lit ''filesystem_write'' \<longleftrightarrow>
         d_category d = lit ''filesystem_write'' \<and> \<not> observes c"
    by (rule classify_known [OF assms])
  let ?n = "call_name c"
  have fam: "(cl_family cl = Some F_Terminal) =
      (?n \<in> set (names [''exec_process'', ''query_processes'', ''manage_process'']))"
    and par: "(cl_family cl = Some F_Subagent_Parent) = (?n = lit ''stop_agent'')"
    and cmd: "(cl_binding cl = Some Terminal_Command) = (?n = lit ''exec_process'')"
    and prc: "(cl_binding cl = Some Terminal_Process) =
      (?n = lit ''query_processes'' \<or> ?n = lit ''manage_process'')"
    using gate_viewD [OF v] by (simp_all only: f(1,2) option.inject)
  have ob: "observes c \<Longrightarrow> ?n \<noteq> lit ''edit_file'' \<and> ?n \<noteq> lit ''write_file''"
    by (auto simp: observes_def simp del: lit_Cons)
  have wr: "(cl_category cl = lit ''filesystem_write'') = (?n = lit ''edit_file'' \<or> ?n = lit ''write_file'')"
    using f(6) gate_viewD(6) [OF v] ob by blast
  have tm: "cl_category cl = lit ''terminal'' \<Longrightarrow>
      ?n \<in> set (names [''exec_process'', ''query_processes'', ''manage_process''])"
    using f(5) gate_viewD(5) [OF v] unfolding names_def list.map list.set by blast
  have ev: "evaluate_call al dfp env g c None = evaluate_classified al env g c (Some cl)"
    using cl by (simp add: evaluate_call_def)
  have nest: "(if O' \<and> T then x else if T \<and> R then y else if T then z else w) =
      (if T then if O' then x else if R then y else z else w)"
    for O' T R and x y z w :: "decision_kind result"
    by simp
  have cond: "(Some cl \<noteq> None \<and> (cl_family cl = Some F_Terminal \<or> Some (cl_category cl) = Some (lit ''terminal''))) =
      (?n \<in> set (names [''exec_process'', ''query_processes'', ''manage_process'']))"
    using fam tm by blast
  have sub: "(Some cl \<noteq> None \<and> (cl_family cl = Some F_Subagent_Parent \<or> ?n = lit ''query_agents'') \<and> B) =
      ((?n = lit ''stop_agent'' \<or> ?n = lit ''query_agents'') \<and> B)" for B
    using par by blast
  have opt: "Option.bind (Some cl) cl_family = cl_family cl"
    "Option.bind (Some cl) cl_binding = cl_binding cl"
    "Option.bind (Some cl) cl_effects = None"
    "map_option cl_category (Some cl) = Some (cl_category cl)"
    "(Some (cl_category cl) = Some t) = (cl_category cl = t)" for t
    using f(3) by simp_all
  have kt: "(Inr (kind (evaluate_terminal_call al g c cl)) :: decision_kind result) =
      (if terminal (g_policy g) = Terminal_Ask \<or> approval (g_policy g) = On_Request
       then Inr Wait_For_User
       else if ?n = lit ''exec_process'' \<and> approval (g_policy g) = Risky_Only \<and>
         risky_data al (arg_text c ''command'') then Inr Wait_For_User
       else Inr Allow)"
    by (simp add: kind_terminal cmd del: lit_Cons)
  have ro: "kind (if r then allow else not_allowed c) = (if r then Allow else Deny)" for r
    by simp
  show ?thesis
    unfolding ev evaluate_classified_def verdict_table_def Let_def opt(1-4) cond sub
    unfolding opt(5) fam cmd prc wr option.case f(4)
    by (simp only: if_distrib [of "map_sum id kind"] kt ro kind_write_case nest
        map_sum.simps kind_simps option.case)
qed

text \<open>
  C2. On every call of a tool of the catalog the gate decides as its table says: unprepared
  capability management and hardline commands are denied whatever the policy, subagent
  control needs the bypass mode, the read-only profile admits exactly the observing calls,
  process tools follow the terminal and approval axes, file writers the access of the place
  they write to, and every other tool is allowed. The classification, its overrides and the
  catalog are those of the code.
\<close>

theorem gate_decision_table:
  assumes "map_of builtin_descriptors (call_name c) = Some d"
  shows "map_sum id kind (evaluate_call al dfp env g c None) = verdict_table al env g c d"
  by (rule evaluate_known [OF assms])

definition table_call :: tool_call where
  "table_call = \<lparr>call_id = lit ''call'', call_name = lit ''manage_process'',
     arguments = [(lit ''action'', JStr (lit ''kill''))]\<rparr>"

text \<open>A file system for the witnesses: a path is its components, nothing is linked.\<close>

fun split_slash :: "pystr \<Rightarrow> pystr \<Rightarrow> pystr list" where
  "split_slash acc [] = (if acc = [] then [] else [rev acc])"
| "split_slash acc (c # cs) =
     (if c = 47 then (if acc = [] then [] else [rev acc]) @ split_slash [] cs
      else split_slash (c # acc) cs)"

definition plain_env :: path_env where
  "plain_env = \<lparr>expand_user = (\<lambda>t. Inr \<lparr>absolute = (take 1 t = [47]), parts = split_slash [] t\<rparr>),
     resolve_path = Inr\<rparr>"

definition mode_gate :: "permission_mode \<Rightarrow> path \<Rightarrow> gate" where
  "mode_gate m root = \<lparr>g_state = from_policy (policy_of_mode m), g_root = root\<rparr>"

definition demo_root :: path where
  "demo_root = \<lparr>absolute = True, parts = [lit ''work'']\<rparr>"

lemma mode_gate_simps [simp]:
  "ps_policy (g_state (mode_gate m root)) = policy_of_mode m"
  "ps_mode (g_state (mode_gate m root)) = Some m" "g_root (mode_gate m root) = root"
  by (simp_all add: mode_gate_def from_policy_def mode_for_policy_Some)

lemma known_manage_process:
  "map_of builtin_descriptors (lit ''manage_process'') =
     Some (snd (tool_descriptor ''manage_process'' Builtin_Domain False ''terminal'' True True))"
  by (simp add: builtin_descriptors_def tool_descriptor_def Let_def del: lit_Cons)

lemma known_write_file:
  "map_of builtin_descriptors (lit ''write_file'') =
     Some (snd (tool_descriptor ''write_file'' Builtin_Domain False ''filesystem_write'' True False))"
  by (simp add: builtin_descriptors_def tool_descriptor_def Let_def del: lit_Cons)

lemma known_exec_process:
  "map_of builtin_descriptors (lit ''exec_process'') =
     Some (snd (tool_descriptor ''exec_process'' Builtin_Domain False ''terminal'' False True))"
  by (simp add: builtin_descriptors_def tool_descriptor_def Let_def del: lit_Cons)

lemma gate_decision_table_witness:
  "map_sum id kind (evaluate_call (\<lambda>_. False) d_name plain_env (mode_gate Accept_Edits demo_root)
     table_call None) = Inr Wait_For_User"
proof -
  have "map_of builtin_descriptors (call_name table_call) =
      Some (snd (tool_descriptor ''manage_process'' Builtin_Domain False ''terminal'' True True))"
    by (simp add: table_call_def known_manage_process del: lit_Cons)
  from gate_decision_table [OF this] show ?thesis
    by (simp add: verdict_table_def table_call_def Let_def names_def hardline_data_def
        terminal_process_input_def arg_text_def policy_of_mode_def reads_only_def observes_def
        tool_descriptor_def del: lit_Cons)
qed

section \<open>Batches\<close>

definition allows :: "decision result \<Rightarrow> bool" where
  "allows r \<longleftrightarrow> (case r of Inl _ \<Rightarrow> False | Inr d \<Rightarrow> kind d = Allow)"

lemma allows_simps [simp]: "\<not> allows (Inl x)" "allows (Inr d) \<longleftrightarrow> kind d = Allow"
  by (simp_all add: allows_def)

lemma allows_map: "allows r \<longleftrightarrow> map_sum id kind r = Inr Allow"
  by (cases r) simp_all

lemma evaluate_calls_allows:
  "allows (evaluate_calls ev inner all cs) \<longleftrightarrow> list_all (\<lambda>c. allows (ev c)) cs \<and> allows (inner all)"
proof (induction cs)
  case Nil
  then show ?case by simp
next
  case (Cons c cs)
  then show ?case by (cases "ev c") auto
qed

text \<open>
  A batch of calls is allowed exactly when every call of it is allowed by the policy and
  the inner gate allows the batch: one call that is denied, must wait or raises stops the
  whole batch. Prepared capability effects are accepted for a single management call only.
\<close>

theorem batch_allowed_iff:
  "allows (evaluate al dfp env g inner calls effects) =
     (list_all (\<lambda>c. allows (evaluate_call al dfp env g c effects)) calls \<and> allows (inner calls) \<and>
      (effects = None \<or> map call_name calls = [lit ''manage_capability'']))"
  by (cases calls; cases "tl calls")
    (auto simp: evaluate_def evaluate_calls_allows simp del: lit_Cons evaluate_calls.simps)

section \<open>Hard limits\<close>

lemma exec_hardline_denied:
  assumes "call_name c = lit ''exec_process''" and "hardline_data al (arg_text c ''command'')"
  shows "\<not> allows (evaluate_call al dfp env g c effects)"
proof (cases effects)
  case None
  have "map_of builtin_descriptors (call_name c) \<noteq> None"
    using known_exec_process assms(1) by simp
  then obtain d where d: "map_of builtin_descriptors (call_name c) = Some d" by blast
  show ?thesis
    using assms unfolding allows_map None evaluate_known [OF d]
    by (simp add: verdict_table_def Let_def del: lit_Cons)
next
  case (Some e)
  then show ?thesis
    using assms(1) by (simp add: evaluate_call_def classify_builtin_def del: lit_Cons)
qed

text \<open>
  C1. No batch that contains an \<open>exec_process\<close> call with a removal of the form the hardline patterns
  are written for is ever allowed: under any policy, the bypass mode included, for any inner gate and
  any other calls beside it. The form (\<open>removes_root\<close>): \<open>rm\<close> at the start of the text or after \<open>;\<close>,
  \<open>&\<close> or \<open>|\<close> and blanks, then one word of options with both the recursive and the force letter, in
  either order and case, perhaps \<open>--\<close>, and as the first target the root, the home directory or one of
  eight system directories, as listed in \<open>rm_roots\<close>. A removal written in another way, for instance with
  the two options in separate words, as long options, behind \<open>sudo\<close> or on a later line, is not covered;
  \<open>separate_options_not_hardline\<close> shows that the patterns do not recognise the first of these.
\<close>

theorem rm_rf_root_never_allowed:
  assumes "c \<in> set calls" and "call_name c = lit ''exec_process''"
    and "arg_text c ''command'' = Some cmd" and "removes_root cmd pre w1 flags w2 dashes target rest"
  shows "\<not> allows (evaluate al dfp env g inner calls effects)"
proof -
  have "hardline_data al (arg_text c ''command'')"
    using assms(3) removes_root_hardline [OF assms(4)] by (simp add: hardline_data_def)
  then have "\<not> allows (evaluate_call al dfp env g c effects)"
    by (rule exec_hardline_denied [OF assms(2)])
  with assms(1) have "\<not> list_all (\<lambda>c. allows (evaluate_call al dfp env g c effects)) calls"
    by (auto simp: list_all_iff)
  then show ?thesis by (simp add: evaluate_def evaluate_calls_allows)
qed

definition demo_removal :: tool_call where
  "demo_removal = \<lparr>call_id = lit ''call'', call_name = lit ''exec_process'',
     arguments = [(lit ''command'', JStr (lit ''ls; rm -vRxf -- /usr/*'' @ [10]))]\<rparr>"

lemma rm_rf_root_never_allowed_witness:
  "\<not> allows (evaluate (\<lambda>_. False) d_name plain_env (mode_gate Bypass_Permissions demo_root)
     allow_all_gate [table_call, demo_removal] None)"
proof (rule rm_rf_root_never_allowed [where c = demo_removal])
  show "arg_text demo_removal ''command'' = Some (lit ''ls; rm -vRxf -- /usr/*'' @ [10])"
    by (simp add: arg_text_def demo_removal_def)
  show "removes_root (lit ''ls; rm -vRxf -- /usr/*'' @ [10]) (lit ''ls; '') (lit '' '') (lit ''vRxf'')
      (lit '' '') (lit ''-- '') (lit ''/usr/*'') []"
    by (simp add: removes_root_def at_command_def strip_def is_space_def separator_def one_of_def
        non_space_def rm_roots_def rm_directories_def rm_endings_def end_of_options_def)
qed (simp_all add: demo_removal_def)

section \<open>The read-only profile\<close>

lemma evaluate_unknown:
  assumes "map_of builtin_descriptors (call_name c) = None"
  shows "allows (evaluate_call al dfp env g c None) \<longleftrightarrow>
     call_name c \<noteq> lit ''manage_capability'' \<and> profile (g_policy g) \<noteq> Profile_Read_Only"
  using assms by (simp add: evaluate_call_def classify_unknown evaluate_classified_def del: lit_Cons)

lemma catalog_read_only:
  assumes "map_of builtin_descriptors n = Some d" and "d_read_only d"
  shows "n \<notin> set (names [''exec_process'', ''manage_process'', ''edit_file'', ''write_file'', ''stop_agent''])"
proof -
  from assms(1) obtain e where "builtin_tool_catalog_entry n = Inr e"
    using catalog_lookup_ok [of n] by (cases "builtin_tool_catalog_entry n") auto
  with assms(1) have "gate_view n d e" using catalog_lookup by fastforce
  with assms(2) show ?thesis unfolding gate_view_def by blast
qed

text \<open>
  Under the read-only profile a batch without prepared effects is allowed only if every
  call is of a catalogued tool and only observes: its descriptor is read-only or its action
  is one of the observing ones. In particular no command is executed, no process written to
  or killed, no file written, no agent stopped, and no tool outside the catalog is called.
\<close>

theorem read_only_batch:
  assumes "profile (g_policy g) = Profile_Read_Only"
    and "allows (evaluate al dfp env g inner calls None)" and "c \<in> set calls"
  shows "(\<exists>d. map_of builtin_descriptors (call_name c) = Some d \<and> reads_only c d) \<and>
    call_name c \<notin> set (names [''manage_capability'', ''exec_process'', ''edit_file'', ''write_file'',
      ''stop_agent'']) \<and>
    (call_name c = lit ''manage_process'' \<longrightarrow>
      arg_text c ''action'' \<in> {Some (lit ''poll''), Some (lit ''wait'')})"
proof -
  have ok: "allows (evaluate_call al dfp env g c None)"
    using assms(2,3) by (simp add: evaluate_def evaluate_calls_allows list_all_iff)
  then obtain d where d: "map_of builtin_descriptors (call_name c) = Some d"
    using evaluate_unknown [of c] assms(1) by (cases "map_of builtin_descriptors (call_name c)") auto
  have tab: "verdict_table al env g c d = Inr Allow"
    using ok unfolding allows_map evaluate_known [OF d] .
  then have r: "reads_only c d" and m: "call_name c \<noteq> lit ''manage_capability''"
    using assms(1) by (auto simp: verdict_table_def Let_def simp del: lit_Cons split: if_splits)
  have "call_name c \<notin> set (names [''exec_process'', ''edit_file'', ''write_file'', ''stop_agent''])"
  proof (cases "observes c")
    case True
    then show ?thesis by (auto simp: observes_def names_def simp del: lit_Cons)
  next
    case False
    with r have "d_read_only d" by (simp add: reads_only_def)
    from catalog_read_only [OF d this] show ?thesis by (simp add: names_def del: lit_Cons)
  qed
  moreover have "call_name c = lit ''manage_process'' \<longrightarrow>
      arg_text c ''action'' \<in> {Some (lit ''poll''), Some (lit ''wait'')}"
  proof
    assume n: "call_name c = lit ''manage_process''"
    then have "\<not> d_read_only d"
      using catalog_read_only [OF d] by (auto simp: names_def simp del: lit_Cons)
    with r n show "arg_text c ''action'' \<in> {Some (lit ''poll''), Some (lit ''wait'')}"
      by (auto simp: reads_only_def observes_def simp del: lit_Cons)
  qed
  ultimately show ?thesis using d r m by (simp add: names_def del: lit_Cons)
qed

definition demo_poll :: tool_call where
  "demo_poll = \<lparr>call_id = lit ''call'', call_name = lit ''manage_process'',
     arguments = [(lit ''action'', JStr (lit ''poll''))]\<rparr>"

lemma read_only_batch_witness:
  "\<exists>d. map_of builtin_descriptors (call_name demo_poll) = Some d \<and> reads_only demo_poll d"
proof -
  let ?g = "mode_gate Read_Only demo_root"
  have d: "map_of builtin_descriptors (call_name demo_poll) =
      Some (snd (tool_descriptor ''manage_process'' Builtin_Domain False ''terminal'' True True))"
    by (simp add: demo_poll_def known_manage_process del: lit_Cons)
  have "allows (evaluate_call (\<lambda>_. False) d_name plain_env ?g demo_poll None)"
    unfolding allows_map evaluate_known [OF d]
    by (simp add: verdict_table_def demo_poll_def Let_def hardline_data_def
        terminal_process_input_def arg_text_def policy_of_mode_def reads_only_def observes_def
        del: lit_Cons)
  then have "allows (evaluate (\<lambda>_. False) d_name plain_env ?g allow_all_gate [demo_poll] None)"
    by (simp add: evaluate_def allow_all_gate_def evaluate_calls_allows del: evaluate_calls.simps)
  from read_only_batch [OF _ this, of demo_poll] show ?thesis
    by (simp add: policy_of_mode_def)
qed

section \<open>Where files may be written\<close>

lemma writer_verdict:
  assumes "call_name c = lit ''edit_file'' \<or> call_name c = lit ''write_file''"
    and "profile (g_policy g) \<noteq> Profile_Read_Only"
  shows "map_sum id kind (evaluate_call al dfp env g c None) =
     map_sum id write_verdict (filesystem_write_access env g c)"
proof -
  have "map_of builtin_descriptors (lit ''edit_file'') \<noteq> None"
    by (simp add: builtin_descriptors_def tool_descriptor_def Let_def del: lit_Cons)
  with assms(1) known_write_file have "map_of builtin_descriptors (call_name c) \<noteq> None"
    by (metis option.distinct(1))
  then obtain d where d: "map_of builtin_descriptors (call_name c) = Some d" by blast
  have "verdict_table al env g c d = map_sum id write_verdict (filesystem_write_access env g c)"
    if "call_name c = n" and "n \<in> {lit ''edit_file'', lit ''write_file''}" for n
    using that(2) assms(2) unfolding verdict_table_def Let_def names_def that(1)
    by (elim insertE emptyE) (simp_all del: lit_Cons)
  with assms(1) show ?thesis
    unfolding evaluate_known [OF d] by blast
qed

text \<open>
  Outside the read-only profile, a file writer is decided by where its target really
  is: the target is expanded, joined to the workspace root when it is relative, resolved
  through links, and then held to the workspace axis if it is the root or below it and to the
  outside axis otherwise; a call without a usable path is denied.
\<close>

theorem writer_follows_place:
  assumes "call_name c = lit ''edit_file'' \<or> call_name c = lit ''write_file''"
    and "profile (g_policy g) \<noteq> Profile_Read_Only"
    and "map_of (arguments c) (lit ''target'') = Some (JObj target)"
    and "map_of target (lit ''kind'') = Some (JStr (lit ''PATH''))"
    and "map_of target (lit ''path'') = Some (JStr raw)" and "strip raw \<noteq> []"
    and "expand_user env raw = Inr p"
    and "resolve_path env (if absolute p then p
           else \<lparr>absolute = absolute (g_root g), parts = parts (g_root g) @ parts p\<rparr>) = Inr q"
  shows "map_sum id kind (evaluate_call al dfp env g c None) = Inr (write_verdict
    (if q = g_root g \<or> absolute q = absolute (g_root g) \<and> strict_prefix (parts (g_root g)) (parts q)
     then workspace_write (g_policy g) else outside_workspace_write (g_policy g)))"
proof -
  have "filesystem_write_access env g c = Inr (if inside_root (g_root g) q
      then workspace_write (g_policy g) else outside_workspace_write (g_policy g))"
    using assms(3-8) by (cases "absolute p") (simp_all add: filesystem_write_access_def del: lit_Cons)
  then show ?thesis
    unfolding writer_verdict [OF assms(1,2)] by (simp add: inside_root_def)
qed

definition demo_write :: tool_call where
  "demo_write = \<lparr>call_id = lit ''call'', call_name = lit ''write_file'',
     arguments = [(lit ''target'', JObj [(lit ''kind'', JStr (lit ''PATH'')),
                     (lit ''path'', JStr (lit ''/etc/hosts''))])]\<rparr>"

lemma writer_follows_place_witness:
  "map_sum id kind (evaluate_call (\<lambda>_. False) d_name plain_env (mode_gate Accept_Edits demo_root)
     demo_write None) = Inr Wait_For_User"
proof -
  have s: "strip (lit ''/etc/hosts'') \<noteq> []"
    by (simp add: strip_def is_space_def)
  have x: "expand_user plain_env (lit ''/etc/hosts'') =
      Inr \<lparr>absolute = True, parts = [lit ''etc'', lit ''hosts'']\<rparr>"
    by (simp add: plain_env_def)
  show ?thesis
    by (subst writer_follows_place [OF _ _ _ _ _ s x])
      (auto simp: demo_write_def policy_of_mode_def plain_env_def demo_root_def
        strict_prefix_def prefix_def simp del: lit_Cons)
qed

section \<open>Prepared capability effects\<close>

lemma evaluate_effects:
  "call_name c = lit ''manage_capability'' \<Longrightarrow>
     evaluate_call al dfp env g c (Some e) = Inr (evaluate_capability_effects g e)"
  by (simp add: evaluate_call_def classify_builtin_def evaluate_classified_def del: lit_Cons)

text \<open>
  A prepared capability operation is allowed exactly when it has no physical effect, or
  when the profile is not read-only and every effect it has is allowed without confirmation
  by the axis that governs it: writes inside and outside the workspace by the write axes,
  process control by the terminal and approval axes. Its destructiveness and the arguments
  of the call play no part.
\<close>

theorem capability_effects_allowed:
  assumes "call_name c = lit ''manage_capability''"
  shows "allows (evaluate_call al dfp env g c (Some e)) =
    (effects_read_only e \<or>
     profile (g_policy g) \<noteq> Profile_Read_Only \<and>
     (eff_workspace_write e \<longrightarrow> workspace_write (g_policy g) = Write_Allow) \<and>
     (eff_outside_workspace_write e \<longrightarrow> outside_workspace_write (g_policy g) = Write_Allow) \<and>
     (eff_process_control e \<longrightarrow>
        terminal (g_policy g) = Terminal_Allow \<and> approval (g_policy g) \<noteq> On_Request))"
  unfolding evaluate_effects [OF assms]
  by (cases "workspace_write (g_policy g)"; cases "outside_workspace_write (g_policy g)";
      cases "terminal (g_policy g)")
    (auto simp: evaluate_capability_effects_def Let_def)

definition demo_manage :: tool_call where
  "demo_manage = \<lparr>call_id = lit ''call'', call_name = lit ''manage_capability'', arguments = []\<rparr>"

lemma capability_effects_allowed_witness:
  "\<not> allows (evaluate_call (\<lambda>_. False) d_name plain_env (mode_gate Accept_Edits demo_root) demo_manage
     (Some \<lparr>eff_workspace_write = True, eff_outside_workspace_write = False,
        eff_process_control = True, eff_destructive = False\<rparr>))"
  by (subst capability_effects_allowed)
    (simp_all add: demo_manage_def effects_read_only_def policy_of_mode_def del: lit_Cons)

section \<open>Looser modes allow more\<close>

lemma write_axes_mono:
  assumes "m \<le> n"
  shows "workspace_write (policy_of_mode m) = Write_Allow \<Longrightarrow>
      workspace_write (policy_of_mode n) = Write_Allow"
    and "outside_workspace_write (policy_of_mode m) = Write_Allow \<Longrightarrow>
      outside_workspace_write (policy_of_mode n) = Write_Allow"
  using assms
  by (cases m; cases n; simp add: policy_of_mode_def less_eq_permission_mode_def)+

lemma write_verdict_Allow: "write_verdict a = Allow \<longleftrightarrow> a = Write_Allow"
  by (cases a) simp_all

lemma filesystem_write_mono:
  assumes "m \<le> n"
    and "filesystem_write_access env (mode_gate m root) c = Inr Write_Allow"
  shows "filesystem_write_access env (mode_gate n root) c = Inr Write_Allow"
  using assms write_axes_mono [OF assms(1)]
  by (auto simp: filesystem_write_access_def Let_def bind_result_Inr simp del: lit_Cons
      split: if_splits option.splits json.splits)

lemma table_mono:
  assumes d: "map_of builtin_descriptors (call_name c) = Some d" and "m \<le> n"
    and "verdict_table al env (mode_gate m root) c d = Inr Allow"
  shows "verdict_table al env (mode_gate n root) c d = Inr Allow"
proof (cases "m = n")
  case False
  with assms(2) have mn: "m \<noteq> Bypass_Permissions" "n \<noteq> Read_Only"
    by (cases m; cases n; simp add: less_eq_permission_mode_def)+
  have w: "map_sum id write_verdict r = Inr Allow \<longleftrightarrow> r = Inr Write_Allow" for r
    by (cases r) (auto simp: write_verdict_Allow)
  note V = assms(3) [unfolded verdict_table_def Let_def mode_gate_simps]
  show ?thesis
  proof (cases "m = Read_Only")
    case True
    with V have c: "call_name c \<noteq> lit ''manage_capability''"
      "\<not> (call_name c = lit ''exec_process'' \<and> hardline_data al (arg_text c ''command''))"
      "\<not> ((call_name c = lit ''query_processes'' \<or> call_name c = lit ''manage_process'') \<and>
         hardline_data al (terminal_process_input c))"
      "\<not> (call_name c = lit ''stop_agent'' \<or> call_name c = lit ''query_agents'')"
      "reads_only c d"
      by (auto simp: policy_of_mode_def simp del: lit_Cons split: if_splits)
    have w: "call_name c \<noteq> lit ''edit_file''" "call_name c \<noteq> lit ''write_file''"
    proof -
      have "\<not> d_read_only d" if "call_name c \<in> {lit ''edit_file'', lit ''write_file''}"
        using catalog_read_only [OF d] that unfolding names_def list.map list.set by blast
      moreover have "\<not> observes c" if "call_name c \<in> {lit ''edit_file'', lit ''write_file''}"
        using that by (auto simp: observes_def simp del: lit_Cons)
      ultimately show "call_name c \<noteq> lit ''edit_file''" "call_name c \<noteq> lit ''write_file''"
        using c(5) unfolding reads_only_def by blast+
    qed
    have "profile (policy_of_mode n) \<noteq> Profile_Read_Only" "terminal (policy_of_mode n) \<noteq> Off"
      using mn(2) by (cases n; simp add: policy_of_mode_def)+
    then show ?thesis
      unfolding verdict_table_def Let_def mode_gate_simps using c w by (simp del: lit_Cons)
  next
    case False
    with mn have tm: "terminal (policy_of_mode m) = Terminal_Ask"
      "profile (policy_of_mode m) \<noteq> Profile_Read_Only" "profile (policy_of_mode n) \<noteq> Profile_Read_Only"
      "terminal (policy_of_mode n) \<noteq> Off"
      by (cases m; cases n; simp add: policy_of_mode_def)+
    show ?thesis
      using V mn tm filesystem_write_mono [OF assms(2), of env root c]
      unfolding verdict_table_def Let_def mode_gate_simps w
      by (simp only: if_True if_False sum.inject decision_kind.distinct if_split simp_thms
          terminal_access.distinct option.inject w split: if_splits; blast)
  qed
qed (use assms in simp)

text \<open>
  C3. The four modes are ordered: whatever call, with or without prepared effects, a preset
  mode allows at a workspace, every later preset allows too. Tightening the mode never
  permits anything new.
\<close>

theorem modes_monotone:
  assumes "m \<le> n" and "allows (evaluate_call al dfp env (mode_gate m root) c effects)"
  shows "allows (evaluate_call al dfp env (mode_gate n root) c effects)"
proof (cases effects)
  case None
  show ?thesis
  proof (cases "map_of builtin_descriptors (call_name c)")
    case u: None
    have "profile (policy_of_mode m) \<noteq> Profile_Read_Only \<Longrightarrow>
        profile (policy_of_mode n) \<noteq> Profile_Read_Only"
      using assms(1) by (cases m; cases n; simp add: policy_of_mode_def less_eq_permission_mode_def)
    then show ?thesis
      using assms(2) unfolding None evaluate_unknown [OF u] by simp
  next
    case (Some d)
    show ?thesis
      using assms(2) table_mono [OF Some assms(1)]
      unfolding None allows_map evaluate_known [OF Some] by blast
  qed
next
  case (Some e)
  show ?thesis
  proof (cases "call_name c = lit ''manage_capability''")
    case True
    show ?thesis
      using assms unfolding Some evaluate_effects [OF True]
      by (cases m; cases n)
        (auto simp: evaluate_capability_effects_def Let_def policy_of_mode_def
          less_eq_permission_mode_def split: if_splits)
  next
    case False
    with assms(2) Some show ?thesis
      by (simp add: evaluate_call_def classify_builtin_def del: lit_Cons)
  qed
qed

lemma modes_monotone_witness:
  "allows (evaluate_call (\<lambda>_. False) d_name plain_env (mode_gate Bypass_Permissions demo_root)
     demo_poll None)"
proof (rule modes_monotone)
  have d: "map_of builtin_descriptors (call_name demo_poll) =
      Some (snd (tool_descriptor ''manage_process'' Builtin_Domain False ''terminal'' True True))"
    by (simp add: demo_poll_def known_manage_process del: lit_Cons)
  show "allows (evaluate_call (\<lambda>_. False) d_name plain_env (mode_gate Read_Only demo_root) demo_poll None)"
    unfolding allows_map evaluate_known [OF d]
    by (simp add: verdict_table_def demo_poll_def Let_def hardline_data_def
        terminal_process_input_def arg_text_def policy_of_mode_def reads_only_def observes_def
        del: lit_Cons)
qed (simp add: less_eq_permission_mode_def)

end
