(* ===== verification/Plan_Workflow.thy ===== *)
theory Plan_Workflow
  imports Permission
begin

text \<open>
  Plan interactions (\<open>primitives/plan_workflow.py\<close>): the contracts a Plan call is decoded
  under, the validation of its arguments, the content that is shown to the user and the
  chunks a draft is read back in. SHA-256 is the parameter \<open>sha\<close>. Not modelled: the
  rendering of a stored continuation, which parses JSON text.
\<close>

section \<open>Bounds and vocabulary\<close>

definition maximum_plan_entry_reason_bytes :: int where
  "maximum_plan_entry_reason_bytes = 4 * 1024"
definition maximum_plan_question_bytes :: int where
  "maximum_plan_question_bytes = 16 * 1024"
definition maximum_plan_option_label_bytes :: int where
  "maximum_plan_option_label_bytes = 256"
definition maximum_plan_option_description_bytes :: int where
  "maximum_plan_option_description_bytes = 2 * 1024"
definition maximum_plan_draft_bytes :: int where
  "maximum_plan_draft_bytes = 1 * 1024 * 1024"
definition maximum_plan_summary_bytes :: int where
  "maximum_plan_summary_bytes = 8 * 1024"
definition minimum_plan_chunk_bytes :: int where
  "minimum_plan_chunk_bytes = 4"
definition maximum_plan_chunk_bytes :: int where
  "maximum_plan_chunk_bytes = 64 * 1024"

lemmas plan_bounds =
  maximum_plan_entry_reason_bytes_def maximum_plan_question_bytes_def
  maximum_plan_option_label_bytes_def maximum_plan_option_description_bytes_def
  maximum_plan_draft_bytes_def maximum_plan_summary_bytes_def
  minimum_plan_chunk_bytes_def maximum_plan_chunk_bytes_def

section \<open>Contracts\<close>

record plan_binding =
  pb_contract_id :: pystr
  pb_contract_version :: pystr
  pb_contract_fingerprint :: pystr

definition plan_binding_post_init :: "plan_binding \<Rightarrow> unit result" where
  "plan_binding_post_init b =
     (if pb_contract_id b = [] \<or> pb_contract_version b = [] then
        Inl (ValueError ''Plan interaction binding is incomplete'')
      else if take 7 (pb_contract_fingerprint b) \<noteq> lit ''sha256:'' then
        Inl (ValueError ''Plan interaction binding fingerprint is invalid'')
      else Inr ())"

definition plan_binding_identity :: "plan_binding \<Rightarrow> pystr \<times> pystr \<times> pystr" where
  "plan_binding_identity b =
     (pb_contract_id b, pb_contract_version b, pb_contract_fingerprint b)"

definition plan_interaction_contracts :: "((pystr \<times> pystr \<times> pystr) \<times> pystr) list" where
  "plan_interaction_contracts =
     [((lit ''pulsara.workflow.ask_plan_question'', lit ''v1'',
        lit ''sha256:d19178a8bc3eaa69f03ce3151b1803b760be6afa55f5f58f489e58e45d5420b9''),
       lit ''ask_plan_question''),
      ((lit ''pulsara.workflow.exit_plan'', lit ''v2'',
        lit ''sha256:9e77c16295c1ec7059729498b26c5665b494e49002113485bbebfa3d739165d1''),
       lit ''exit_plan'')]"

definition plan_entry_contract :: "pystr \<times> pystr \<times> pystr" where
  "plan_entry_contract =
     (lit ''pulsara.workflow.enter_plan'', lit ''v1'',
      lit ''sha256:d53f9ac13a86f6bdfc72812e1eb5693b3bb17e19d143c8a573b426d2f094dbaa'')"

definition require_plan_interaction_contract :: "plan_binding \<Rightarrow> string \<Rightarrow> unit result" where
  "require_plan_interaction_contract b tool =
     (if map_of plan_interaction_contracts (plan_binding_identity b) \<noteq> Some (lit tool) then
        Inl (ValueError ''Plan interaction contract is unavailable'') else Inr ())"

section \<open>Arguments\<close>

text \<open>\<open>set(raw) - allowed\<close> is empty.\<close>

definition only_keys :: "string list \<Rightarrow> (pystr \<times> json) list \<Rightarrow> bool" where
  "only_keys ks kvs \<longleftrightarrow> list_all (\<lambda>p. fst p \<in> set (map lit ks)) kvs"

definition dict_get :: "(pystr \<times> json) list \<Rightarrow> string \<Rightarrow> json \<Rightarrow> json" where
  "dict_get kvs k dflt = (case map_of kvs (lit k) of Some v \<Rightarrow> v | None \<Rightarrow> dflt)"

fun bounded_text :: "json \<Rightarrow> int \<Rightarrow> bool \<Rightarrow> pystr result" where
  "bounded_text (JStr t) maximum_bytes allow_empty =
     bind_result (utf8_encode t) (\<lambda>encoded.
       if (\<not> allow_empty \<and> encoded = []) \<or> maximum_bytes < int (length encoded) then
         Inl (ValueError ''text is outside its UTF-8 bound'')
       else Inr t)"
| "bounded_text _ maximum_bytes allow_empty = Inl (ValueError ''value must be text'')"

text \<open>\<open>isinstance\<close> checks that raise with a message.\<close>

fun as_bool :: "string \<Rightarrow> json \<Rightarrow> bool result" where
  "as_bool m (JBool b) = Inr b"
| "as_bool m _ = Inl (ValueError m)"

fun as_list :: "string \<Rightarrow> json \<Rightarrow> json list result" where
  "as_list m (JList xs) = Inr xs"
| "as_list m _ = Inl (ValueError m)"

fun as_dict :: "string \<Rightarrow> json \<Rightarrow> (pystr \<times> json) list result" where
  "as_dict m (JObj kvs) = Inr kvs"
| "as_dict m _ = Inl (ValueError m)"

lemma as_Inr [simp]:
  "as_bool m v = Inr b \<longleftrightarrow> v = JBool b" "as_list m v = Inr xs \<longleftrightarrow> v = JList xs"
  "as_dict m v = Inr kvs \<longleftrightarrow> v = JObj kvs"
  by (cases v; simp)+

definition extract_plan_entry_reason :: "plan_binding \<Rightarrow> json \<Rightarrow> pystr result" where
  "extract_plan_entry_reason b raw =
     (if plan_binding_identity b \<noteq> plan_entry_contract then
        Inl (ValueError ''Plan entry contract is unavailable'')
      else bind_result (as_dict ''Plan entry arguments are invalid'' raw) (\<lambda>kvs.
        if \<not> only_keys [''reason''] kvs then Inl (ValueError ''Plan entry arguments are invalid'')
        else bounded_text (dict_get kvs ''reason'' (JStr [])) maximum_plan_entry_reason_bytes True))"

record plan_option =
  po_ordinal :: int
  po_label :: pystr
  po_description :: pystr
  po_recommended :: bool

definition parse_option :: "int \<Rightarrow> pystr list \<Rightarrow> json \<Rightarrow> plan_option result" where
  "parse_option ordinal labels item =
     bind_result (as_dict ''Plan question option is invalid'' item) (\<lambda>kvs.
     if \<not> only_keys [''label'', ''description'', ''recommended''] kvs then
       Inl (ValueError ''Plan question option is invalid'')
     else
       bind_result (bounded_text (dict_get kvs ''label'' JNull)
         maximum_plan_option_label_bytes False) (\<lambda>label.
       if label \<in> set labels then
         Inl (ValueError ''Plan question option labels must be unique'')
       else
         bind_result (bounded_text (dict_get kvs ''description'' (JStr []))
           maximum_plan_option_description_bytes True) (\<lambda>description.
         bind_result (as_bool ''Plan question recommended flag must be boolean''
           (dict_get kvs ''recommended'' (JBool False))) (\<lambda>recommended.
           Inr \<lparr>po_ordinal = ordinal, po_label = label, po_description = description,
                po_recommended = recommended\<rparr>))))"

fun parse_options :: "int \<Rightarrow> pystr list \<Rightarrow> json list \<Rightarrow> plan_option list result" where
  "parse_options ordinal labels [] = Inr []"
| "parse_options ordinal labels (item # items) =
     bind_result (parse_option ordinal labels item) (\<lambda>op.
     bind_result (parse_options (ordinal + 1) (po_label op # labels) items) (\<lambda>ops.
       Inr (op # ops)))"

type_synonym plan_question_value = "pystr \<times> plan_option list \<times> bool"

definition parse_plan_question_arguments ::
  "plan_binding \<Rightarrow> json \<Rightarrow> plan_question_value result" where
  "parse_plan_question_arguments b raw =
     bind_result (require_plan_interaction_contract b ''ask_plan_question'') (\<lambda>_.
     bind_result (as_dict ''Plan question arguments must be an object'' raw) (\<lambda>kvs.
     if \<not> only_keys [''question'', ''options'', ''allow_free_text''] kvs then
       Inl (ValueError ''Plan question arguments contain unknown fields'')
     else
       bind_result (bounded_text (dict_get kvs ''question'' JNull)
         maximum_plan_question_bytes False) (\<lambda>question.
       bind_result (as_list ''Plan question must provide zero or two-to-three options''
         (dict_get kvs ''options'' (JList []))) (\<lambda>items.
       if length items \<notin> {0, 2, 3} then
         Inl (ValueError ''Plan question must provide zero or two-to-three options'')
       else
         bind_result (parse_options 0 [] items) (\<lambda>options.
         if 1 < length (filter po_recommended options) then
           Inl (ValueError ''Plan question options allow at most one recommendation'')
         else
           bind_result (as_bool ''Plan question free-text flag must be boolean''
             (dict_get kvs ''allow_free_text'' JNull)) (\<lambda>free.
           if options = [] \<and> \<not> free then
             Inl (ValueError ''optionless Plan question must allow free text'')
           else Inr (question, options, free)))))))"

record plan_question =
  pq_interaction_id :: pystr
  pq_contract_id :: pystr
  pq_contract_version :: pystr
  pq_contract_fingerprint :: pystr
  pq_question :: pystr
  pq_options :: "plan_option list"
  pq_allow_free_text :: bool
  pq_fingerprint :: pystr

definition option_payload :: "plan_option \<Rightarrow> json" where
  "option_payload o' = JObj
     [(lit ''ordinal'', JInt (po_ordinal o')), (lit ''label'', JStr (po_label o')),
      (lit ''description'', JStr (po_description o')),
      (lit ''recommended'', JBool (po_recommended o'))]"

definition extract_plan_question ::
  "(bytes \<Rightarrow> pystr) \<Rightarrow> pystr \<Rightarrow> plan_binding \<Rightarrow> json \<Rightarrow> plan_question result" where
  "extract_plan_question sha interaction_id b raw =
     bind_result (parse_plan_question_arguments b raw) (\<lambda>(question, options, free).
     bind_result (sha_text sha ''pulsara:plan-question-content:v1''
       (JObj [(lit ''interaction_id'', JStr interaction_id),
              (lit ''request_contract_id'', JStr (pb_contract_id b)),
              (lit ''request_contract_version'', JStr (pb_contract_version b)),
              (lit ''request_contract_fingerprint'', JStr (pb_contract_fingerprint b)),
              (lit ''question'', JStr question),
              (lit ''options'', JList (map option_payload options)),
              (lit ''allow_free_text'', JBool free)])) (\<lambda>fp.
       Inr \<lparr>pq_interaction_id = interaction_id, pq_contract_id = pb_contract_id b,
            pq_contract_version = pb_contract_version b,
            pq_contract_fingerprint = pb_contract_fingerprint b, pq_question = question,
            pq_options = options, pq_allow_free_text = free, pq_fingerprint = fp\<rparr>))"

section \<open>Drafts\<close>

fun bounded_option :: "json \<Rightarrow> int \<Rightarrow> pystr option result" where
  "bounded_option JNull m = Inr None"
| "bounded_option v m = bind_result (bounded_text v m True) (\<lambda>t. Inr (Some t))"

definition parse_plan_exit_arguments ::
  "plan_binding \<Rightarrow> json \<Rightarrow> (bytes option \<times> pystr option) result" where
  "parse_plan_exit_arguments b raw =
     bind_result (require_plan_interaction_contract b ''exit_plan'') (\<lambda>_.
     bind_result (as_dict ''Plan draft arguments are invalid'' raw) (\<lambda>kvs.
     if \<not> only_keys [''plan'', ''summary''] kvs then
       Inl (ValueError ''Plan draft arguments are invalid'')
     else
       bind_result (bounded_option (dict_get kvs ''plan'' JNull) maximum_plan_draft_bytes) (\<lambda>plan.
       bind_result (bounded_option (dict_get kvs ''summary'' JNull) maximum_plan_summary_bytes)
         (\<lambda>summary.
       case plan of
         None \<Rightarrow> Inr (None, summary)
       | Some t \<Rightarrow>
           if strip t = [] then Inr (None, summary)
           else bind_result (utf8_encode t) (\<lambda>body. Inr (Some body, summary))))))"

definition parse_plan_draft_arguments ::
  "plan_binding \<Rightarrow> json \<Rightarrow> (bytes \<times> pystr option) result" where
  "parse_plan_draft_arguments b raw =
     bind_result (parse_plan_exit_arguments b raw) (\<lambda>(body, summary).
       case body of
         None \<Rightarrow> Inl (ValueError ''Plan draft requires a nonblank proposal'')
       | Some bs \<Rightarrow> Inr (bs, summary))"

text \<open>\<open>len(body).to_bytes(8, "big")\<close>: the size of a body is far below 64 bits.\<close>

definition be8 :: "nat \<Rightarrow> bytes" where
  "be8 n = map (\<lambda>i. of_nat (n div 256 ^ i mod 256)) [7, 6, 5, 4, 3, 2, 1, 0]"

definition plan_draft_utf8_digest :: "(bytes \<Rightarrow> pystr) \<Rightarrow> bytes \<Rightarrow> pystr" where
  "plan_draft_utf8_digest sha body =
     lit ''sha256:'' @ sha (utf8_bytes (lit ''pulsara:plan-draft-utf8:v1'' @ [0]) @ be8 (length body) @ body)"

record draft_identity =
  di_interaction_id :: pystr
  di_assistant_entry_id :: pystr
  di_tool_call_id :: pystr
  di_contract_id :: pystr
  di_contract_version :: pystr
  di_contract_fingerprint :: pystr
  di_request_semantic_digest :: pystr
  di_plan_utf8_size :: int
  di_plan_utf8_digest :: pystr

record draft_chunk =
  dc_identity :: draft_identity
  dc_offset :: int
  dc_body :: pystr
  dc_next_offset :: int
  dc_eof :: bool

record plan_draft =
  pd_identity :: draft_identity
  pd_exact_plan_utf8 :: bytes
  pd_summary :: "pystr option"

definition extract_plan_draft ::
  "(bytes \<Rightarrow> pystr) \<Rightarrow> pystr \<Rightarrow> pystr \<Rightarrow> pystr \<Rightarrow> plan_binding \<Rightarrow> pystr \<Rightarrow> json \<Rightarrow> plan_draft result" where
  "extract_plan_draft sha interaction_id entry_id call b semantic_digest raw =
     bind_result (parse_plan_draft_arguments b raw) (\<lambda>(body, summary).
       Inr \<lparr>pd_identity =
              \<lparr>di_interaction_id = interaction_id, di_assistant_entry_id = entry_id,
               di_tool_call_id = call, di_contract_id = pb_contract_id b,
               di_contract_version = pb_contract_version b,
               di_contract_fingerprint = pb_contract_fingerprint b,
               di_request_semantic_digest = semantic_digest,
               di_plan_utf8_size = int (length body),
               di_plan_utf8_digest = plan_draft_utf8_digest sha body\<rparr>,
            pd_exact_plan_utf8 = body, pd_summary = summary\<rparr>)"

text \<open>The loop that shortens a chunk until it decodes.\<close>

fun shrink_chunk :: "bytes \<Rightarrow> nat \<Rightarrow> nat \<times> pystr" where
  "shrink_chunk body 0 = (0, [])"
| "shrink_chunk body (Suc n) =
     (case utf8_decode (take (Suc n) body) of
        Inr t \<Rightarrow> (Suc n, t)
      | Inl _ \<Rightarrow> shrink_chunk body n)"

definition read_plan_draft_chunk :: "plan_draft \<Rightarrow> int \<Rightarrow> int \<Rightarrow> draft_chunk result" where
  "read_plan_draft_chunk d offset limit =
     (let body = pd_exact_plan_utf8 d; size = int (length body) in
      if \<not> (minimum_plan_chunk_bytes \<le> limit \<and> limit \<le> maximum_plan_chunk_bytes) then
        Inl (ValueError ''Plan draft chunk limit is invalid'')
      else if \<not> (0 \<le> offset \<and> offset \<le> size) then
        Inl (ValueError ''Plan draft offset is invalid'')
      else case utf8_decode (take (nat offset) body) of
        Inl _ \<Rightarrow> Inl (ValueError ''Plan draft offset is not a UTF-8 boundary'')
      | Inr _ \<Rightarrow>
          let first = min size (offset + limit);
              (used, text') = shrink_chunk (drop (nat offset) body) (nat (first - offset));
              last' = offset + int used in
          if last' = offset \<and> last' < size then
            Inl (ValueError ''Plan draft chunk limit cannot contain one code point'')
          else Inr \<lparr>dc_identity = pd_identity d, dc_offset = offset, dc_body = text',
                    dc_next_offset = last', dc_eof = (last' = size)\<rparr>)"

text \<open>A reader that asks for chunk after chunk until the end; \<open>None\<close> when the fuel is used up.\<close>

fun read_draft :: "nat \<Rightarrow> plan_draft \<Rightarrow> int \<Rightarrow> int \<Rightarrow> draft_chunk list result option" where
  "read_draft 0 d offset limit = None"
| "read_draft (Suc n) d offset limit =
     (case read_plan_draft_chunk d offset limit of
        Inl e \<Rightarrow> Some (Inl e)
      | Inr c \<Rightarrow>
          if dc_eof c then Some (Inr [c])
          else map_option (map_sum id (\<lambda>cs. c # cs)) (read_draft n d (dc_next_offset c) limit))"

section \<open>Accepted questions\<close>

lemma bounded_text_ok:
  assumes "bounded_text v m e = Inr t"
  shows "bounded_text (JStr t) m e = Inr t" and "(t = [] \<longrightarrow> e)"
proof -
  from assms obtain u where v: "v = JStr u" by (cases v) auto
  with assms have "t = u"
    by (auto simp: bind_result_Inr split: if_splits)
  with assms v show "bounded_text (JStr t) m e = Inr t" by simp
  with v assms \<open>t = u\<close> show "(t = [] \<longrightarrow> e)"
    by (auto simp: utf8_encode_def split: if_splits)
qed

text \<open>The arguments a question is written as, every field present.\<close>

definition option_argument :: "plan_option \<Rightarrow> json" where
  "option_argument x = JObj
     [(lit ''label'', JStr (po_label x)), (lit ''description'', JStr (po_description x)),
      (lit ''recommended'', JBool (po_recommended x))]"

definition question_arguments :: "pystr \<Rightarrow> plan_option list \<Rightarrow> bool \<Rightarrow> json" where
  "question_arguments question options free = JObj
     [(lit ''question'', JStr question), (lit ''options'', JList (map option_argument options)),
      (lit ''allow_free_text'', JBool free)]"

lemma parse_option_ok:
  assumes "parse_option n ls item = Inr x"
  shows "po_ordinal x = n" and "po_label x \<notin> set ls" and "po_label x \<noteq> []"
    and "parse_option n ls (option_argument x) = Inr x"
proof -
  from assms obtain kvs l ds r where
      l: "bounded_text (dict_get kvs ''label'' JNull) maximum_plan_option_label_bytes False = Inr l"
    and ls: "l \<notin> set ls"
    and ds: "bounded_text (dict_get kvs ''description'' (JStr []))
        maximum_plan_option_description_bytes True = Inr ds"
    and x: "x = \<lparr>po_ordinal = n, po_label = l, po_description = ds, po_recommended = r\<rparr>"
    unfolding parse_option_def bind_result_Inr by (auto simp: bind_result_Inr split: if_splits)
  show "po_ordinal x = n" "po_label x \<notin> set ls" using x ls by simp_all
  show "po_label x \<noteq> []" using x bounded_text_ok(2) [OF l] by auto
  show "parse_option n ls (option_argument x) = Inr x"
    using ls bounded_text_ok(1) [OF l] bounded_text_ok(1) [OF ds]
    by (simp add: parse_option_def option_argument_def x only_keys_def dict_get_def
        del: lit_Cons bounded_text.simps)
qed

lemma parse_options_ok:
  "parse_options n ls items = Inr xs \<Longrightarrow>
     length xs = length items \<and> distinct (map po_label xs) \<and> set (map po_label xs) \<inter> set ls = {} \<and>
     map po_ordinal xs = map (\<lambda>i. n + int i) [0..<length xs] \<and>
     (\<forall>x \<in> set xs. po_label x \<noteq> []) \<and> parse_options n ls (map option_argument xs) = Inr xs"
proof (induction items arbitrary: n ls xs)
  case Nil
  then show ?case by simp
next
  case (Cons item items)
  then obtain x ys where x: "parse_option n ls item = Inr x"
    and ys: "parse_options (n + 1) (po_label x # ls) items = Inr ys" and xs: "xs = x # ys"
    by (auto simp: bind_result_Inr)
  note ih = Cons.IH [OF ys] and ok = parse_option_ok [OF x]
  have "map po_ordinal ys = map (\<lambda>i. n + int (Suc i)) [0..<length ys]"
    using ih by (simp add: add.assoc)
  also have "\<dots> = map (\<lambda>i. n + int i) (map Suc [0..<length ys])" by (simp add: comp_def)
  finally have "map po_ordinal xs = map (\<lambda>i. n + int i) [0..<length xs]"
    unfolding xs map_Suc_upt using ok(1) by (simp add: upt_conv_Cons del: upt_Suc)
  with ih ok show ?case unfolding xs by auto
qed

definition question_ok :: "plan_option list \<Rightarrow> bool \<Rightarrow> bool" where
  "question_ok options free \<longleftrightarrow>
     length options \<in> {0, 2, 3} \<and> distinct (map po_label options) \<and>
     map po_ordinal options = map int [0..<length options] \<and>
     list_all (\<lambda>x. po_label x \<noteq> []) options \<and> length (filter po_recommended options) \<le> 1 \<and>
     (options = [] \<longrightarrow> free)"

lemma parse_question_ok:
  assumes "parse_plan_question_arguments b raw = Inr (question, options, free)"
  shows "question \<noteq> [] \<and> question_ok options free \<and>
    parse_plan_question_arguments b (question_arguments question options free) =
      Inr (question, options, free)"
proof -
  from assms obtain kvs items where
      c: "require_plan_interaction_contract b ''ask_plan_question'' = Inr ()"
    and q: "bounded_text (dict_get kvs ''question'' JNull) maximum_plan_question_bytes False =
        Inr question"
    and items: "length items \<in> {0, 2, 3}" "parse_options 0 [] items = Inr options"
    and r: "\<not> 1 < length (filter po_recommended options)"
    and f: "\<not> (options = [] \<and> \<not> free)"
    unfolding parse_plan_question_arguments_def bind_result_Inr
    by (auto simp: bind_result_Inr simp del: lit_Cons split: if_splits)
  note ok = parse_options_ok [OF items(2)]
  have "question \<noteq> []" using bounded_text_ok(2) [OF q] by blast
  moreover have "question_ok options free"
    using ok items(1) r f by (auto simp: question_ok_def list_all_iff)
  moreover have "parse_plan_question_arguments b (question_arguments question options free) =
      Inr (question, options, free)"
    using c bounded_text_ok(1) [OF q] ok items(1) r f
    by (auto simp: parse_plan_question_arguments_def question_arguments_def only_keys_def
        dict_get_def simp del: lit_Cons bounded_text.simps)
  ultimately show ?thesis by blast
qed

text \<open>
  Whatever arguments a model writes, a Plan question that is accepted has no, two or
  three options with distinct nonempty labels, numbered from 0, at most one recommended, and
  free text when there is no option; and writing the accepted question back as arguments is
  accepted again with the same content.
\<close>

theorem plan_question_normal_form:
  assumes "parse_plan_question_arguments b raw = Inr (question, options, free)"
  shows "question \<noteq> [] \<and> question_ok options free \<and>
    parse_plan_question_arguments b (question_arguments question options free) =
      Inr (question, options, free)"
  by (rule parse_question_ok [OF assms])

definition demo_binding :: plan_binding where
  "demo_binding = \<lparr>pb_contract_id = lit ''pulsara.workflow.ask_plan_question'',
     pb_contract_version = lit ''v1'', pb_contract_fingerprint =
       lit ''sha256:d19178a8bc3eaa69f03ce3151b1803b760be6afa55f5f58f489e58e45d5420b9''\<rparr>"

definition demo_option :: "int \<Rightarrow> string \<Rightarrow> bool \<Rightarrow> plan_option" where
  "demo_option n l r = \<lparr>po_ordinal = n, po_label = lit l, po_description = [], po_recommended = r\<rparr>"

lemma bounded_text_lit:
  assumes "s \<noteq> [] \<or> e" and "4 * int (length s) \<le> m"
  shows "bounded_text (JStr (lit s)) m e = Inr (lit s)"
proof -
  have "length (utf8_bytes t) \<le> 4 * length t" for t
  proof (induction t)
    case (Cons c t)
    with utf8_char_size [of c] show ?case by simp
  qed simp
  from this [of "lit s"] have "int (length (utf8_bytes (lit s))) \<le> m" using assms(2) by simp
  moreover have "utf8_encode (lit s) = Inr (utf8_bytes (lit s))"
    using scalar_lit [of s] by (simp add: utf8_encode_def scalar_text_def list_all_iff del: lit_Cons)
  moreover have "utf8_bytes (lit s) = [] \<longleftrightarrow> s = []"
    by (cases s) (simp_all add: utf8_char_def utf8_values_def)
  ultimately show ?thesis using assms(1) by auto
qed

lemma bounded_text_empty: "0 \<le> m \<Longrightarrow> bounded_text (JStr []) m True = Inr []"
  by (simp add: utf8_encode_def)

lemma plan_question_normal_form_witness:
  "question_ok [demo_option 0 ''yes'' True, demo_option 1 ''no'' False] False"
proof -
  have "parse_plan_question_arguments demo_binding (JObj
      [(lit ''question'', JStr (lit ''Go?'')),
       (lit ''options'', JList [JObj [(lit ''label'', JStr (lit ''yes'')), (lit ''recommended'', JBool True)],
                            JObj [(lit ''label'', JStr (lit ''no''))]]),
       (lit ''allow_free_text'', JBool False)]) =
     Inr (lit ''Go?'', [demo_option 0 ''yes'' True, demo_option 1 ''no'' False], False)"
    by (simp add: parse_plan_question_arguments_def require_plan_interaction_contract_def
        plan_binding_identity_def demo_binding_def plan_interaction_contracts_def only_keys_def
        dict_get_def parse_option_def bounded_text_lit [of "''Go?''"] bounded_text_lit [of "''yes''"]
        bounded_text_lit [of "''no''"] bounded_text_empty plan_bounds
        demo_option_def del: lit_Cons bounded_text.simps)
  from plan_question_normal_form [OF this] show ?thesis by blast
qed

section \<open>Reading a draft in chunks\<close>

lemma bytes_take:
  "take (length (utf8_bytes (take j t))) (utf8_bytes t) = utf8_bytes (take j t)"
proof -
  have "utf8_bytes t = utf8_bytes (take j t) @ utf8_bytes (drop j t)"
    by (simp flip: utf8_bytes_simps(3))
  then show ?thesis by (metis append_eq_conv_conj)
qed

lemma boundary_decode:
  assumes "list_all is_scalar t" and "n \<le> length (utf8_bytes t)"
  shows "(\<exists>s. utf8_decode (take n (utf8_bytes t)) = Inr s) \<longleftrightarrow>
     (\<exists>j \<le> length t. n = length (utf8_bytes (take j t)))"
proof -
  have "take n (utf8_bytes t) = utf8_bytes (take j t) \<longleftrightarrow> n = length (utf8_bytes (take j t))" for j
    using assms(2) bytes_take [of j t] by (metis length_take min_absorb2)
  then show ?thesis using utf8_decode_take [OF assms(1), of n] by simp
qed

lemma decode_bytes: "list_all is_scalar t \<Longrightarrow> utf8_decode (utf8_bytes t) = Inr t"
  by (rule utf8_decode_encode) (simp add: utf8_encode_def)

text \<open>Shortening stops at the last character boundary, and keeps the characters before it.\<close>

lemma shrink_chunk_spec:
  assumes "list_all is_scalar u" and "n \<le> length (utf8_bytes u)"
  shows "\<exists>k \<le> length u. shrink_chunk (utf8_bytes u) n = (length (utf8_bytes (take k u)), take k u) \<and>
     length (utf8_bytes (take k u)) \<le> n \<and>
     (\<forall>j \<le> length u. length (utf8_bytes (take j u)) \<le> n \<longrightarrow>
        length (utf8_bytes (take j u)) \<le> length (utf8_bytes (take k u)))"
  using assms(2)
proof (induction n)
  case 0
  show ?case by (intro exI [of _ 0]) simp
next
  case (Suc n)
  show ?case
  proof (cases "\<exists>j \<le> length u. Suc n = length (utf8_bytes (take j u))")
    case True
    then obtain j where j: "j \<le> length u" "Suc n = length (utf8_bytes (take j u))" by blast
    have "list_all is_scalar (take j u)" using assms(1) by (auto simp: list_all_iff dest: in_set_takeD)
    then have "utf8_decode (take (Suc n) (utf8_bytes u)) = Inr (take j u)"
      using decode_bytes bytes_take [of j u] j(2) by simp
    then have "shrink_chunk (utf8_bytes u) (Suc n) = (Suc n, take j u)" by simp
    with j(2) have "shrink_chunk (utf8_bytes u) (Suc n) = (length (utf8_bytes (take j u)), take j u)"
      by (simp only:)
    with j show ?thesis by (intro exI [of _ j]) auto
  next
    case False
    then have no: "\<not> (\<exists>s. utf8_decode (take (Suc n) (utf8_bytes u)) = Inr s)"
      using boundary_decode [OF assms(1) Suc.prems] by blast
    then obtain e where e: "utf8_decode (take (Suc n) (utf8_bytes u)) = Inl e"
      by (cases "utf8_decode (take (Suc n) (utf8_bytes u))") auto
    from Suc.IH Suc.prems obtain k where k: "k \<le> length u"
      "shrink_chunk (utf8_bytes u) n = (length (utf8_bytes (take k u)), take k u)"
      "length (utf8_bytes (take k u)) \<le> n"
      "\<forall>j \<le> length u. length (utf8_bytes (take j u)) \<le> n \<longrightarrow>
        length (utf8_bytes (take j u)) \<le> length (utf8_bytes (take k u))" by auto
    with e False show ?thesis by (intro exI [of _ k]) (auto simp: le_Suc_eq)
  qed
qed

text \<open>At a boundary a chunk of at least four bytes always makes progress.\<close>

lemma read_chunk_at:
  assumes "list_all is_scalar t" and "pd_exact_plan_utf8 d = utf8_bytes t" and "j \<le> length t"
    and "minimum_plan_chunk_bytes \<le> limit" and "limit \<le> maximum_plan_chunk_bytes"
  shows "\<exists>k. k \<le> length t - j \<and> (j < length t \<longrightarrow> 0 < k) \<and>
     int (length (utf8_bytes (take k (drop j t)))) \<le> limit \<and>
     read_plan_draft_chunk d (int (length (utf8_bytes (take j t)))) limit =
       Inr \<lparr>dc_identity = pd_identity d, dc_offset = int (length (utf8_bytes (take j t))),
            dc_body = take k (drop j t),
            dc_next_offset = int (length (utf8_bytes (take (j + k) t))),
            dc_eof = (j + k = length t)\<rparr>"
proof -
  let ?o = "length (utf8_bytes (take j t))" and ?u = "drop j t"
  have body: "utf8_bytes t = utf8_bytes (take j t) @ utf8_bytes ?u"
    by (simp flip: utf8_bytes_simps(3))
  then have drop: "drop ?o (utf8_bytes t) = utf8_bytes ?u" by simp
  have u: "list_all is_scalar ?u" "list_all is_scalar (take j t)"
    using assms(1) by (auto simp: list_all_iff dest: in_set_dropD in_set_takeD)
  define n where "n = nat (min (int (length (utf8_bytes t))) (int ?o + limit) - int ?o)"
  have n: "n \<le> length (utf8_bytes ?u)" "int n \<le> limit" "n = length (utf8_bytes ?u) \<or> 4 \<le> n"
    using assms(4) arg_cong [OF body, of length] by (auto simp: n_def plan_bounds min_def)
  from shrink_chunk_spec [OF u(1) n(1)] obtain k where k: "k \<le> length ?u"
    "shrink_chunk (utf8_bytes ?u) n = (length (utf8_bytes (take k ?u)), take k ?u)"
    "length (utf8_bytes (take k ?u)) \<le> n"
    "\<forall>i \<le> length ?u. length (utf8_bytes (take i ?u)) \<le> n \<longrightarrow>
        length (utf8_bytes (take i ?u)) \<le> length (utf8_bytes (take k ?u))" by blast
  have ne: "utf8_bytes s = [] \<longleftrightarrow> s = []" for s by (cases s) auto
  have pos: "0 < k" if "j < length t"
  proof (rule ccontr)
    assume "\<not> 0 < k"
    then have z: "length (utf8_bytes (take k ?u)) = 0" by simp
    have one: "1 \<le> length ?u" using that by simp
    obtain c v where cv: "?u = c # v" using one by (cases ?u) auto
    have "length (utf8_bytes (take 1 ?u)) \<le> n"
      using n(3) utf8_char_size [of c] cv by auto
    with k(4) one have "length (utf8_bytes (take 1 ?u)) \<le> 0" unfolding z by blast
    with cv show False by simp
  qed
  have whole: "utf8_bytes (take (j + k) t) = utf8_bytes (take j t) @ utf8_bytes (take k ?u)"
    by (simp add: take_add)
  have len: "length (utf8_bytes (take (j + k) t)) \<le> length (utf8_bytes t)"
  proof -
    have "utf8_bytes t = utf8_bytes (take (j + k) t) @ utf8_bytes (drop (j + k) t)"
      by (simp flip: utf8_bytes_simps(3))
    then show ?thesis by (metis length_append le_add1)
  qed
  have eof: "length (utf8_bytes (take (j + k) t)) = length (utf8_bytes t) \<longleftrightarrow> j + k = length t"
  proof
    assume "length (utf8_bytes (take (j + k) t)) = length (utf8_bytes t)"
    moreover have "utf8_bytes t = utf8_bytes (take (j + k) t) @ utf8_bytes (drop (j + k) t)"
      by (simp flip: utf8_bytes_simps(3))
    ultimately have "utf8_bytes (drop (j + k) t) = []" by (metis append_eq_conv_conj drop_all order_refl)
    with ne k(1) assms(3) show "j + k = length t" by simp
  qed simp
  have stuck: "\<not> (length (utf8_bytes (take k ?u)) = 0 \<and> length (utf8_bytes (take (j + k) t)) < length (utf8_bytes t))"
    using pos eof ne [of "take k ?u"] k(1) assms(3) by (cases "j < length t") auto
  have dec: "utf8_decode (take ?o (utf8_bytes t)) = Inr (take j t)"
    unfolding bytes_take by (rule decode_bytes [OF u(2)])
  have le: "int ?o \<le> int (length (utf8_bytes t))" using arg_cong [OF body, of length] by simp
  have "read_plan_draft_chunk d (int ?o) limit =
      Inr \<lparr>dc_identity = pd_identity d, dc_offset = int ?o, dc_body = take k ?u,
           dc_next_offset = int (length (utf8_bytes (take (j + k) t))), dc_eof = (j + k = length t)\<rparr>"
    using assms(2,4,5) le dec k(2) stuck eof whole n_def
    by (auto simp: read_plan_draft_chunk_def Let_def drop)
  moreover have "int (length (utf8_bytes (take k ?u))) \<le> limit" using k(3) n(2) by linarith
  ultimately show ?thesis using k(1) pos by (intro exI [of _ k]) auto
qed

lemma read_draft_all:
  assumes "list_all is_scalar t" and "pd_exact_plan_utf8 d = utf8_bytes t" and "j \<le> length t"
    and "minimum_plan_chunk_bytes \<le> limit" and "limit \<le> maximum_plan_chunk_bytes"
    and "length t - j < n"
  shows "\<exists>cs. read_draft n d (int (length (utf8_bytes (take j t)))) limit = Some (Inr cs) \<and>
     concat (map dc_body cs) = drop j t \<and>
     list_all (\<lambda>c. int (length (utf8_bytes (dc_body c))) \<le> limit) cs \<and> cs \<noteq> [] \<and>
     list_all (\<lambda>c. dc_identity c = pd_identity d) cs"
  using assms(3,6)
proof (induction n arbitrary: j)
  case 0
  then show ?case by simp
next
  case (Suc n)
  from read_chunk_at [OF assms(1,2) Suc.prems(1) assms(4,5)] obtain k where k: "k \<le> length t - j"
    "j < length t \<longrightarrow> 0 < k" "int (length (utf8_bytes (take k (drop j t)))) \<le> limit"
    "read_plan_draft_chunk d (int (length (utf8_bytes (take j t)))) limit =
       Inr \<lparr>dc_identity = pd_identity d, dc_offset = int (length (utf8_bytes (take j t))),
            dc_body = take k (drop j t),
            dc_next_offset = int (length (utf8_bytes (take (j + k) t))),
            dc_eof = (j + k = length t)\<rparr>" by blast
  show ?case
  proof (cases "j + k = length t")
    case True
    then have "take k (drop j t) = drop j t" by simp
    with True k show ?thesis by simp
  next
    case False
    with k(1,2) Suc.prems have jk: "j + k \<le> length t" "length t - (j + k) < n" by auto
    from Suc.IH [OF this] obtain cs where
      "read_draft n d (int (length (utf8_bytes (take (j + k) t)))) limit = Some (Inr cs)"
      "concat (map dc_body cs) = drop (j + k) t"
      "list_all (\<lambda>c. int (length (utf8_bytes (dc_body c))) \<le> limit) cs" "cs \<noteq> []"
      "list_all (\<lambda>c. dc_identity c = pd_identity d) cs" by blast
    moreover have "take k (drop j t) @ drop (j + k) t = drop j t"
      by (metis add.commute append_take_drop_id drop_drop)
    ultimately show ?thesis using k False by simp
  qed
qed

lemma extract_draft_ok:
  assumes "extract_plan_draft sha iid eid call b dg raw = Inr d"
  shows "\<exists>t. list_all is_scalar t \<and> strip t \<noteq> [] \<and> pd_exact_plan_utf8 d = utf8_bytes t \<and>
     int (length (utf8_bytes t)) \<le> maximum_plan_draft_bytes \<and>
     di_plan_utf8_size (pd_identity d) = int (length (utf8_bytes t)) \<and>
     (\<exists>kvs. raw = JObj kvs \<and> map_of kvs (lit ''plan'') = Some (JStr t))"
proof -
  from assms obtain body summary where bs: "parse_plan_draft_arguments b raw = Inr (body, summary)"
    and d: "pd_exact_plan_utf8 d = body" "di_plan_utf8_size (pd_identity d) = int (length body)"
    unfolding extract_plan_draft_def bind_result_Inr by auto
  from bs have "parse_plan_exit_arguments b raw = Inr (Some body, summary)"
    unfolding parse_plan_draft_arguments_def bind_result_Inr by (auto split: option.splits)
  then obtain kvs t where raw: "raw = JObj kvs"
    and p: "bounded_option (dict_get kvs ''plan'' JNull) maximum_plan_draft_bytes = Inr (Some t)"
    and t: "strip t \<noteq> []" "utf8_encode t = Inr body"
    unfolding parse_plan_exit_arguments_def bind_result_Inr
    by (auto simp: bind_result_Inr simp del: lit_Cons split: if_splits option.splits)
  from p obtain u where u: "dict_get kvs ''plan'' JNull = JStr u"
    by (cases "dict_get kvs ''plan'' JNull") auto
  with p t(2) have "u = t" "int (length body) \<le> maximum_plan_draft_bytes"
    by (auto simp: bind_result_Inr split: if_splits)
  moreover have "list_all is_scalar t" "body = utf8_bytes t"
    using t(2) by (auto simp: utf8_encode_def split: if_splits)
  moreover have "map_of kvs (lit ''plan'') = Some (JStr u)"
    using u by (auto simp: dict_get_def simp del: lit_Cons split: option.splits)
  ultimately show ?thesis using raw d t(1) by blast
qed

text \<open>
  C30. A draft is stored and read back exactly: the extracted body is the UTF-8 text of a
  nonblank plan within its bound, and a reader that follows the chunks from the start, with
  any admissible limit, gets the whole plan text in finitely many chunks, each within the
  limit and cut between characters. The refusal for a limit that cannot hold a character
  never happens.
\<close>

theorem plan_draft_chunks_cover:
  assumes "extract_plan_draft sha iid eid call b dg raw = Inr d"
    and "minimum_plan_chunk_bytes \<le> limit" and "limit \<le> maximum_plan_chunk_bytes"
  shows "\<exists>kvs t n cs. raw = JObj kvs \<and> map_of kvs (lit ''plan'') = Some (JStr t) \<and> strip t \<noteq> [] \<and>
     pd_exact_plan_utf8 d = utf8_bytes t \<and> read_draft n d 0 limit = Some (Inr cs) \<and>
     concat (map dc_body cs) = t \<and>
     list_all (\<lambda>c. int (length (utf8_bytes (dc_body c))) \<le> limit) cs \<and>
     list_all (\<lambda>c. dc_identity c = pd_identity d) cs"
proof -
  from extract_draft_ok [OF assms(1)] obtain t kvs where t: "list_all is_scalar t" "strip t \<noteq> []"
    "pd_exact_plan_utf8 d = utf8_bytes t" "raw = JObj kvs" "map_of kvs (lit ''plan'') = Some (JStr t)"
    by blast
  from read_draft_all [OF t(1,3) _ assms(2,3), of 0 "Suc (length t)"] obtain cs where
    "read_draft (Suc (length t)) d 0 limit = Some (Inr cs)" "concat (map dc_body cs) = t"
    "list_all (\<lambda>c. int (length (utf8_bytes (dc_body c))) \<le> limit) cs"
    "list_all (\<lambda>c. dc_identity c = pd_identity d) cs" by auto
  with t show ?thesis by blast
qed

text \<open>
  A chunk of an extracted draft is refused exactly when its limit is out of range or its
  offset is not the position of a character of the draft or its end; no other read fails.
\<close>

theorem plan_chunk_refused_iff:
  assumes "extract_plan_draft sha iid eid call b dg raw = Inr d"
    and "pd_exact_plan_utf8 d = utf8_bytes t" and "list_all is_scalar t"
  shows "is_ok (read_plan_draft_chunk d offset limit) =
    (minimum_plan_chunk_bytes \<le> limit \<and> limit \<le> maximum_plan_chunk_bytes \<and>
     (\<exists>j \<le> length t. offset = int (length (utf8_bytes (take j t)))))"
proof -
  have no: "\<not> is_ok (read_plan_draft_chunk d offset limit)"
    if "\<not> (\<exists>j \<le> length t. offset = int (length (utf8_bytes (take j t))))"
  proof (cases "0 \<le> offset \<and> offset \<le> int (length (utf8_bytes t))")
    case True
    with that have "\<not> (\<exists>j \<le> length t. nat offset = length (utf8_bytes (take j t)))"
      by (metis nat_0_le)
    moreover have "nat offset \<le> length (utf8_bytes t)" using True by (simp add: nat_le_iff)
    ultimately have "\<not> (\<exists>s. utf8_decode (take (nat offset) (utf8_bytes t)) = Inr s)"
      using boundary_decode [OF assms(3), of "nat offset"] by blast
    then obtain e where "utf8_decode (take (nat offset) (utf8_bytes t)) = Inl e"
      by (cases "utf8_decode (take (nat offset) (utf8_bytes t))") auto
    with assms(2) show ?thesis by (simp add: read_plan_draft_chunk_def Let_def)
  next
    case False
    with assms(2) show ?thesis by (auto simp: read_plan_draft_chunk_def Let_def)
  qed
  have lim: "\<not> is_ok (read_plan_draft_chunk d offset limit)"
    if "\<not> (minimum_plan_chunk_bytes \<le> limit \<and> limit \<le> maximum_plan_chunk_bytes)"
    using that by (simp add: read_plan_draft_chunk_def Let_def)
  have yes: "is_ok (read_plan_draft_chunk d offset limit)"
    if "minimum_plan_chunk_bytes \<le> limit" "limit \<le> maximum_plan_chunk_bytes"
      "j \<le> length t" "offset = int (length (utf8_bytes (take j t)))" for j
    using read_chunk_at [OF assms(3,2) that(3,1,2)] that(4) by auto
  from no lim yes show ?thesis by blast
qed

definition demo_exit_binding :: plan_binding where
  "demo_exit_binding = \<lparr>pb_contract_id = lit ''pulsara.workflow.exit_plan'',
     pb_contract_version = lit ''v2'', pb_contract_fingerprint =
       lit ''sha256:9e77c16295c1ec7059729498b26c5665b494e49002113485bbebfa3d739165d1''\<rparr>"

definition demo_draft :: plan_draft where
  "demo_draft = \<lparr>pd_identity = \<lparr>di_interaction_id = [], di_assistant_entry_id = [],
       di_tool_call_id = [], di_contract_id = pb_contract_id demo_exit_binding,
       di_contract_version = pb_contract_version demo_exit_binding,
       di_contract_fingerprint = pb_contract_fingerprint demo_exit_binding,
       di_request_semantic_digest = [], di_plan_utf8_size = 3,
       di_plan_utf8_digest = lit ''sha256:''\<rparr>,
     pd_exact_plan_utf8 = [0x61, 0xC3, 0xA9], pd_summary = None\<rparr>"

lemma demo_draft_extracted:
  "extract_plan_draft (\<lambda>_. []) [] [] [] demo_exit_binding [] (JObj [(lit ''plan'', JStr [0x61, 0xE9])]) =
     Inr demo_draft"
  by (simp add: extract_plan_draft_def parse_plan_draft_arguments_def parse_plan_exit_arguments_def
      require_plan_interaction_contract_def plan_binding_identity_def demo_exit_binding_def
      plan_interaction_contracts_def only_keys_def dict_get_def plan_bounds utf8_encode_def
      is_scalar_def utf8_bytes_def utf8_char_def utf8_values_def strip_def is_space_def
      demo_draft_def plan_draft_utf8_digest_def del: lit_Cons)

lemma plan_draft_chunks_cover_witness:
  "\<exists>kvs t n cs. JObj [(lit ''plan'', JStr [0x61, 0xE9])] = JObj kvs \<and>
     map_of kvs (lit ''plan'') = Some (JStr t) \<and> strip t \<noteq> [] \<and>
     pd_exact_plan_utf8 demo_draft = utf8_bytes t \<and> read_draft n demo_draft 0 4 = Some (Inr cs) \<and>
     concat (map dc_body cs) = t \<and>
     list_all (\<lambda>c. int (length (utf8_bytes (dc_body c))) \<le> 4) cs \<and>
     list_all (\<lambda>c. dc_identity c = pd_identity demo_draft) cs"
  by (rule plan_draft_chunks_cover [OF demo_draft_extracted]) (simp_all add: plan_bounds)

lemma plan_chunk_refused_iff_witness:
  "\<not> is_ok (read_plan_draft_chunk demo_draft 2 4)"
proof -
  have t: "pd_exact_plan_utf8 demo_draft = utf8_bytes [0x61, 0xE9]" "list_all is_scalar [0x61, 0xE9]"
    by (simp_all add: demo_draft_def utf8_bytes_def utf8_char_def utf8_values_def is_scalar_def)
  have "\<not> (\<exists>j \<le> length [0x61, 0xE9 :: nat]. (2::int) = int (length (utf8_bytes (take j [0x61, 0xE9]))))"
  proof
    assume "\<exists>j \<le> length [0x61, 0xE9 :: nat]. (2::int) = int (length (utf8_bytes (take j [0x61, 0xE9])))"
    then obtain j where "j \<in> {0, 1, 2}" "(2::int) = int (length (utf8_bytes (take j [0x61, 0xE9])))"
      by (auto simp: le_Suc_eq numeral_2_eq_2)
    then show False by (auto simp: utf8_char_def utf8_values_def)
  qed
  then show ?thesis by (simp only: plan_chunk_refused_iff [OF demo_draft_extracted t]) blast
qed

end
