(* ===== verification/Interaction.thy ===== *)
theory Interaction
  imports Live_Control Live_Bus
begin

text \<open>
  The coordinator of pending interactions (\<open>conversation_kernel/interaction.py\<close>,
  \<open>conversation_kernel/interaction_arbiter.py\<close>): the requests of running tools for a user
  decision, of which one at a time is shown to the controller through the session's live
  control, and the settlement of its decision. Every block that runs under the owner's lock
  without awaiting is one operation on the state; what a task does between two such blocks
  (the repository write, the form parser, the wait for the lock) may be interleaved with any
  other operation. Futures are the field \<open>ca_outcome\<close>; the index of a candidate in
  \<open>co_store\<close> is the identity of the candidate object.
\<close>

section \<open>State\<close>

definition interaction_timeout_seconds :: int where
  "interaction_timeout_seconds = 10 * 60"

definition maximum_dormant_interaction_candidates :: nat where
  "maximum_dormant_interaction_candidates = 64"

text \<open>
  The two callbacks of a candidate are opaque: \<open>ah_token\<close> is their identity, the calls of
  \<open>discard\<close> are logged in the state and the outcome of \<open>before_publish\<close> is an argument of
  the operation that calls it.
\<close>

record admission_hooks =
  ah_token :: nat
  ah_owner_key :: "pystr option"

record capability_form =
  cf_public_projection :: json
  cf_public_prompt :: pystr

record capability_form_values =
  fv_public_fields :: json
  fv_secret_changes :: "(json \<times> pystr option) list"
  fv_retain_credentials_confirmed :: bool
  fv_enable_review_accepted :: bool
  fv_hook_review_accepted :: bool

text \<open>\<open>AcceptedCapabilityFormSubmission\<close>: the values, until they have been taken.\<close>

type_synonym submission = "capability_form_values option"

definition take_submission :: "submission \<Rightarrow> (capability_form_values \<times> submission) result" where
  "take_submission v =
     (case v of
        None \<Rightarrow> Inl (RuntimeError ''capability submission was already consumed'')
      | Some x \<Rightarrow> Inr (x, None))"

record resolution =
  rs_decision :: pystr
  rs_reference :: pystr
  rs_public_message :: pystr
  rs_attempt_id :: "pystr option"
  rs_result_entry_id :: "pystr option"
  rs_fingerprint :: "pystr option"
  rs_result_id :: "pystr option"
  rs_result_entry_sequence :: "int option"
  rs_result_observed_at :: "pystr option"
  rs_result_public_body :: "pystr option"
  rs_submission :: "submission option"

definition resolution_post_init :: "resolution \<Rightarrow> resolution result" where
  "resolution_post_init r =
     (if rs_submission r \<noteq> None \<and>
         (rs_decision r \<noteq> lit ''SUBMIT'' \<or> rs_attempt_id r \<noteq> None \<or> rs_result_entry_id r \<noteq> None)
      then Inl (ValueError ''capability submission is pre-admission user input'')
      else if (rs_result_entry_id r \<noteq> None) \<noteq>
         (rs_result_id r \<noteq> None \<and> rs_result_entry_sequence r \<noteq> None \<and>
          rs_result_observed_at r \<noteq> None \<and> rs_result_public_body r \<noteq> None)
      then Inl (ValueError ''interaction ToolResult settlement facts are incomplete'')
      else Inr r)"

definition plain_resolution :: "pystr \<Rightarrow> pystr \<Rightarrow> pystr \<Rightarrow> resolution" where
  "plain_resolution decision reference message =
     \<lparr>rs_decision = decision, rs_reference = reference, rs_public_message = message,
      rs_attempt_id = None, rs_result_entry_id = None, rs_fingerprint = None,
      rs_result_id = None, rs_result_entry_sequence = None, rs_result_observed_at = None,
      rs_result_public_body = None, rs_submission = None\<rparr>"

datatype future_value = Answered resolution | Failed py_error

text \<open>The keyword arguments of the repository write of one decision.\<close>

record decision_write =
  dw_command_id :: pystr
  dw_decision_id :: pystr
  dw_assistant_entry_id :: pystr
  dw_tool_call_id :: pystr
  dw_decision :: pystr
  dw_attempt_id :: "pystr option"
  dw_result_id :: "pystr option"
  dw_result_entry_id :: "pystr option"
  dw_denial_content :: "bytes option"
  dw_redacted_subject :: pystr
  dw_actor_id :: pystr
  dw_fingerprint :: pystr

record accepted_decision =
  ad_decision_id :: pystr
  ad_command_id :: pystr
  ad_decision :: pystr
  ad_assistant_entry_id :: pystr
  ad_tool_call_id :: pystr
  ad_attempt_id :: "pystr option"
  ad_result_entry_id :: "pystr option"
  ad_fingerprint :: pystr
  ad_result_id :: "pystr option"
  ad_result_entry_sequence :: "int option"
  ad_result_observed_at :: "pystr option"

text \<open>
  \<open>ca_settled\<close> is the event \<open>settlement_changed\<close>, \<open>ca_settlement\<close> the arguments of
  \<open>settlement_task\<close>, \<open>ca_raised\<close> the exception that the promoting task is about to handle.
\<close>

record pending_tool_interaction =
  ca_interaction_id :: pystr
  ca_revision :: int
  ca_turn_id :: pystr
  ca_assistant_entry_id :: pystr
  ca_tool_call_id :: pystr
  ca_tool_name :: pystr
  ca_attempt_id :: pystr
  ca_result_id :: pystr
  ca_result_entry_id :: pystr
  ca_fingerprint :: pystr
  ca_outcome :: "future_value option"
  ca_deadline :: int
  ca_expires :: pystr
  ca_hooks :: "admission_hooks option"
  ca_visible :: bool
  ca_discarded :: bool
  ca_resolving :: bool
  ca_settled :: bool
  ca_form :: "capability_form option"
  ca_form_cancelled :: bool
  ca_admitted :: bool
  ca_promoting :: bool
  ca_raised :: "pystr option"
  ca_invalidation :: "(pystr \<times> pystr) option"
  ca_settlement :: "decision_write option"

record coordinator =
  co_session_id :: pystr
  co_writer_generation :: int
  co_controller :: "pystr option"
  co_pending :: "nat option"
  co_dormant :: "nat list"
  co_closed :: bool
  co_store :: "pending_tool_interaction list"
  co_live :: live_control
  co_now :: int
  co_discards :: "nat list"
  co_offers :: "(live_channel \<times> live_offer) list"

definition coordinator_init :: "pystr \<Rightarrow> int \<Rightarrow> live_control \<Rightarrow> int \<Rightarrow> coordinator" where
  "coordinator_init session_id writer_generation live now =
     \<lparr>co_session_id = session_id, co_writer_generation = writer_generation,
      co_controller = None, co_pending = None, co_dormant = [], co_closed = False,
      co_store = [], co_live = live, co_now = now, co_discards = [], co_offers = []\<rparr>"

text \<open>A block that may raise keeps what it changed before the exception.\<close>

type_synonym 'a co = "coordinator \<Rightarrow> 'a result \<times> coordinator"

definition co_bind :: "'a co \<Rightarrow> ('a \<Rightarrow> 'b co) \<Rightarrow> 'b co" where
  "co_bind m f s = (case m s of (Inl e, s') \<Rightarrow> (Inl e, s') | (Inr x, s') \<Rightarrow> f x s')"

definition cand :: "coordinator \<Rightarrow> nat \<Rightarrow> pending_tool_interaction" where
  "cand s i = co_store s ! i"

definition upd :: "nat \<Rightarrow> (pending_tool_interaction \<Rightarrow> pending_tool_interaction) \<Rightarrow> coordinator \<Rightarrow> coordinator" where
  "upd i f s = s\<lparr>co_store := (co_store s)[i := f (co_store s ! i)]\<rparr>"

text \<open>\<open>(*((self._pending,) if self._pending is not None else ()), *self._dormant)\<close>\<close>

definition retained :: "coordinator \<Rightarrow> nat list" where
  "retained s = (case co_pending s of None \<Rightarrow> [] | Some i \<Rightarrow> [i]) @ co_dormant s"

section \<open>Controllers\<close>

definition has_controller :: "coordinator \<Rightarrow> bool" where
  "has_controller s \<longleftrightarrow> \<not> co_closed s \<and> co_controller s \<noteq> None"

definition is_current_controller :: "pystr \<Rightarrow> coordinator \<Rightarrow> bool" where
  "is_current_controller attachment_id s \<longleftrightarrow>
     \<not> co_closed s \<and> attachment_id \<noteq> [] \<and> co_controller s = Some attachment_id"

definition current_controller_id :: "coordinator \<Rightarrow> pystr option" where
  "current_controller_id s = (if co_closed s then None else co_controller s)"

text \<open>The attachment itself; the code then promotes.\<close>

definition attach_controller :: "pystr \<Rightarrow> coordinator \<Rightarrow> bool \<times> coordinator" where
  "attach_controller attachment_id s =
     (if attachment_id = [] then (False, s)
      else if co_closed s \<or> co_controller s \<notin> {None, Some attachment_id} then (False, s)
      else (True, s\<lparr>co_controller := Some attachment_id\<rparr>))"

definition detach_controller :: "pystr \<Rightarrow> coordinator \<Rightarrow> bool \<times> coordinator" where
  "detach_controller attachment_id s =
     (if co_controller s \<noteq> Some attachment_id then (False, s)
      else (True, s\<lparr>co_controller := None\<rparr>))"

section \<open>Offers to the live bus\<close>

text \<open>
  The payload constructors of interactions validate themselves; neither a digest nor a JSON
  reader is involved in them. The channel and the offer are the keyword arguments the code
  passes to \<open>offer_nowait\<close>.
\<close>

definition interaction_payload ::
  "live_control_event \<Rightarrow> interaction_view option \<Rightarrow> pystr option \<Rightarrow>
   (live_event_type \<times> live_payload \<times> pystr) result"
where
  "interaction_payload event current reason =
     (case lce_kind event of
        INTERACTION_OPENED \<Rightarrow>
          (case current of
             None \<Rightarrow> Inl AssertionError
           | Some v \<Rightarrow>
               Inr (LIVE_INTERACTION_OPENED,
                    InteractionOpenedPayload (iv_interaction_id v) (iv_interaction_kind v)
                      (iv_public_prompt v) (iv_public_options v) (iv_expires_at_utc v),
                    iv_interaction_id v))
      | INTERACTION_REPLACED \<Rightarrow>
          (case (current, lce_closed_interaction_id event) of
             (Some v, Some replaced) \<Rightarrow>
               Inr (LIVE_INTERACTION_REPLACED,
                    InteractionReplacedPayload replaced (iv_interaction_id v)
                      (iv_interaction_kind v) (iv_public_prompt v) (iv_public_options v)
                      (iv_expires_at_utc v),
                    iv_interaction_id v)
           | _ \<Rightarrow> Inl AssertionError)
      | INTERACTION_CLOSED \<Rightarrow>
          (case (lce_closed_interaction_id event, reason) of
             (Some closed, Some r) \<Rightarrow>
               Inr (LIVE_INTERACTION_CLOSED, InteractionClosedPayload closed r, closed)
           | _ \<Rightarrow> Inl AssertionError))"

definition interaction_offer ::
  "(bytes \<Rightarrow> bytes) \<Rightarrow> pystr \<Rightarrow> live_control_event \<Rightarrow> pystr \<Rightarrow> interaction_view option \<Rightarrow>
   pystr option \<Rightarrow> (live_channel \<times> live_offer) result"
where
  "interaction_offer sha session_id event turn_id current reason =
     bind_result (interaction_payload event current reason) (\<lambda>(event_type, payload, identity).
     bind_result (payload_post_init (\<lambda>_. []) (\<lambda>_. Inl (ValueError ''unused'')) payload) (\<lambda>_.
     bind_result (derive_id sha (lit ''generation'') (lit ''channel'')
                    [lit ''interaction'', identity]) (\<lambda>generation_id.
       Inr (\<lparr>lch_draft_identity = identity, lch_scope_kind = lit ''ROOT'',
             lch_channel_kind = TERMINAL_EXTENSION, lch_channel_tool_call_id = None,
             lch_channel_attempt_id = None, lch_generation_id = Some generation_id,
             lch_proposed_entry_id = None\<rparr>,
            \<lparr>lof_event_type = event_type, lof_session_id = session_id, lof_turn_id = turn_id,
             lof_payload = payload, lof_block_id = Some identity, lof_block_ordinal = 0,
             lof_block_kind = Some BLOCK_OPERATIONAL\<rparr>))))"

definition offer_interaction_event ::
  "(bytes \<Rightarrow> bytes) \<Rightarrow> live_control_event \<Rightarrow> pystr \<Rightarrow> interaction_view option \<Rightarrow>
   pystr option \<Rightarrow> unit co"
where
  "offer_interaction_event sha event turn_id current reason s =
     (case interaction_offer sha (co_session_id s) event turn_id current reason of
        Inl e \<Rightarrow> (Inl e, s)
      | Inr r \<Rightarrow> (Inr (), s\<lparr>co_offers := co_offers s @ [r]\<rparr>))"

section \<open>Parts shared by the operations\<close>

definition discard_token :: "admission_hooks option \<Rightarrow> coordinator \<Rightarrow> coordinator" where
  "discard_token h s =
     (case h of None \<Rightarrow> s | Some x \<Rightarrow> s\<lparr>co_discards := co_discards s @ [ah_token x]\<rparr>)"

definition discard_hooks :: "nat \<Rightarrow> coordinator \<Rightarrow> coordinator" where
  "discard_hooks i s =
     (if ca_discarded (cand s i) then s
      else discard_token (ca_hooks (cand s i)) (upd i (ca_discarded_update (\<lambda>_. True)) s))"

definition invalidation :: "nat \<Rightarrow> coordinator \<Rightarrow> (pystr \<times> pystr) option" where
  "invalidation i s =
     (if ca_invalidation (cand s i) \<noteq> None then ca_invalidation (cand s i)
      else if co_closed s then
        Some (lit ''interaction:host-closing'', lit ''tool confirmation ended with the Host'')
      else if ca_deadline (cand s i) \<le> co_now s then
        Some (lit ''interaction:expired'', lit ''tool confirmation expired'')
      else if ca_form (cand s i) \<noteq> None \<and> \<not> has_controller s then
        Some (lit ''interaction:controller-detached'',
              lit ''capability form controller detached'')
      else None)"

definition close_candidate :: "(bytes \<Rightarrow> bytes) \<Rightarrow> nat \<Rightarrow> pystr \<Rightarrow> unit co" where
  "close_candidate sha i reason s =
     (if co_pending s = Some i then
        if ca_visible (cand s i) then
          (case lc_close_interaction (ca_interaction_id (cand s i)) (co_live s) of
             Inl e \<Rightarrow> (Inl e, s)
           | Inr (event, live) \<Rightarrow>
               co_bind (offer_interaction_event sha event (ca_turn_id (cand s i)) None
                          (Some reason))
                 (\<lambda>_ t. (Inr (), t\<lparr>co_pending := None\<rparr>)) (s\<lparr>co_live := live\<rparr>))
        else (Inr (), s\<lparr>co_pending := None\<rparr>)
      else (Inr (), s\<lparr>co_dormant := remove1 i (co_dormant s)\<rparr>))"

text \<open>\<open>if not future.done(): future.set_result(...)\<close>\<close>

definition set_outcome :: "nat \<Rightarrow> future_value \<Rightarrow> coordinator \<Rightarrow> coordinator" where
  "set_outcome i v s =
     (if ca_outcome (cand s i) \<noteq> None then s
      else upd i (ca_outcome_update (\<lambda>_. Some v)) s)"

definition invalidate :: "(bytes \<Rightarrow> bytes) \<Rightarrow> nat \<Rightarrow> pystr \<times> pystr \<Rightarrow> unit co" where
  "invalidate sha i reason s =
     (let why = (case ca_invalidation (cand s i) of None \<Rightarrow> reason | Some r \<Rightarrow> r);
          s1 = upd i (ca_invalidation_update (\<lambda>_. Some why)) s
      in if ca_resolving (cand s i) then
           (Inr (), if ca_form (cand s i) \<noteq> None
                    then upd i (ca_form_cancelled_update (\<lambda>_. True)) s1 else s1)
         else
           co_bind (close_candidate sha i (fst why))
             (\<lambda>_ t. (Inr (), upd i (ca_settled_update (\<lambda>_. True))
                        (set_outcome i (Answered (plain_resolution (lit ''DENY'') (fst why)
                                                    (snd why))) t))) s1)"

text \<open>
  \<open>_invalidate_locked\<close> over several candidates, then \<open>_discard_hooks\<close> of those that are not
  resolving.
\<close>

fun invalidate_each :: "(bytes \<Rightarrow> bytes) \<Rightarrow> pystr \<times> pystr \<Rightarrow> nat list \<Rightarrow> unit co" where
  "invalidate_each sha reason [] s = (Inr (), s)"
| "invalidate_each sha reason (i # is) s =
     co_bind (invalidate sha i reason) (\<lambda>_. invalidate_each sha reason is) s"

fun discard_idle :: "nat list \<Rightarrow> coordinator \<Rightarrow> coordinator" where
  "discard_idle [] s = s"
| "discard_idle (i # is) s =
     discard_idle is (if ca_resolving (cand s i) then s else discard_hooks i s)"

definition invalidate_all :: "(bytes \<Rightarrow> bytes) \<Rightarrow> pystr \<times> pystr \<Rightarrow> nat list \<Rightarrow> unit co" where
  "invalidate_all sha reason is =
     co_bind (invalidate_each sha reason is) (\<lambda>_ s. (Inr (), discard_idle is s))"

section \<open>Requests\<close>

record interaction_request =
  rq_turn_id :: pystr
  rq_assistant_entry_id :: pystr
  rq_tool_call_id :: pystr
  rq_tool_name :: pystr
  rq_fingerprint :: pystr
  rq_hooks :: "admission_hooks option"
  rq_form :: "capability_form option"
  rq_cell_stopped :: bool
  rq_expires :: pystr

text \<open>\<open>request_capability_form\<close> fixes the tool name and passes no hooks.\<close>

definition request_capability_form ::
  "pystr \<Rightarrow> pystr \<Rightarrow> pystr \<Rightarrow> pystr \<Rightarrow> capability_form \<Rightarrow> bool \<Rightarrow> pystr \<Rightarrow> interaction_request"
where
  "request_capability_form turn_id entry_id call_id fingerprint form stopped expires =
     \<lparr>rq_turn_id = turn_id, rq_assistant_entry_id = entry_id, rq_tool_call_id = call_id,
      rq_tool_name = lit ''manage_capability'', rq_fingerprint = fingerprint, rq_hooks = None,
      rq_form = Some form, rq_cell_stopped = stopped, rq_expires = expires\<rparr>"

text \<open>
  The admission of a request: a resolution at once, or the index of the new candidate. The
  three lists are the successive values of \<open>random_id\<close> for the interaction, the result and
  the attempt; the code redraws while an identity is in use, and \<open>None\<close> says that all given
  draws were in use. \<open>rq_expires\<close> is the text of the wall clock at the deadline.
\<close>

definition request_denial :: "interaction_request \<Rightarrow> coordinator \<Rightarrow> resolution option" where
  "request_denial rq s =
     (if rq_cell_stopped rq then
        Some (plain_resolution (lit ''DENY'') (lit ''interaction:cell-stopped'')
                (lit ''Cell '' @ [0x5DF2, 0x505C, 0x6B62]))
      else if co_closed s \<or> (rq_form rq \<noteq> None \<and> \<not> has_controller s) then
        Some (plain_resolution (lit ''DENY'')
                (if co_closed s then lit ''interaction:host-closing''
                 else lit ''interaction:no-controller'')
                (lit ''interaction owner is unavailable''))
      else if maximum_dormant_interaction_candidates
                \<le> length (co_dormant s) + (if co_pending s = None then 0 else 1) then
        Some (plain_resolution (lit ''DENY'') (lit ''interaction:capacity'')
                (lit ''tool confirmation capacity is full''))
      else None)"

definition new_candidate ::
  "interaction_request \<Rightarrow> pystr \<Rightarrow> pystr \<Rightarrow> pystr \<Rightarrow> pystr \<Rightarrow> int \<Rightarrow> pending_tool_interaction"
where
  "new_candidate rq interaction_id result_id result_entry_id attempt_id now =
     \<lparr>ca_interaction_id = interaction_id, ca_revision = 0, ca_turn_id = rq_turn_id rq,
      ca_assistant_entry_id = rq_assistant_entry_id rq, ca_tool_call_id = rq_tool_call_id rq,
      ca_tool_name = rq_tool_name rq, ca_attempt_id = attempt_id, ca_result_id = result_id,
      ca_result_entry_id = result_entry_id, ca_fingerprint = rq_fingerprint rq,
      ca_outcome = None, ca_deadline = now + interaction_timeout_seconds,
      ca_expires = rq_expires rq, ca_hooks = rq_hooks rq, ca_visible = False,
      ca_discarded = False, ca_resolving = False, ca_settled = False, ca_form = rq_form rq,
      ca_form_cancelled = False, ca_admitted = False, ca_promoting = False, ca_raised = None,
      ca_invalidation = None, ca_settlement = None\<rparr>"

definition request ::
  "(bytes \<Rightarrow> bytes) \<Rightarrow> interaction_request \<Rightarrow> pystr list \<Rightarrow> pystr list \<Rightarrow> pystr list \<Rightarrow>
   coordinator \<Rightarrow> ((resolution + nat) result \<times> coordinator) option"
where
  "request sha rq interactions results attempts s =
     (case request_denial rq s of
        Some r \<Rightarrow> Some (Inr (Inl r), discard_token (rq_hooks rq) s)
      | None \<Rightarrow>
          let taken = map (cand s) (retained s)
          in case draw_fresh (map ca_interaction_id taken) interactions of
               None \<Rightarrow> None
             | Some interaction_id \<Rightarrow>
          (case draw_fresh (map ca_result_id taken) results of
               None \<Rightarrow> None
             | Some result_id \<Rightarrow>
          (case draw_fresh (map ca_attempt_id taken) attempts of
               None \<Rightarrow> None
             | Some attempt_id \<Rightarrow>
          (case derive_id sha (lit ''entry'') (lit ''tool-result'') [result_id] of
               Inl e \<Rightarrow> Some (Inl e, s)
             | Inr result_entry_id \<Rightarrow>
                 Some (Inr (Inr (length (co_store s))),
                       s\<lparr>co_store := co_store s @
                           [new_candidate rq interaction_id result_id result_entry_id
                              attempt_id (co_now s)],
                         co_dormant := co_dormant s @ [length (co_store s)]\<rparr>)))))"

section \<open>Promotion\<close>

text \<open>
  One round of \<open>_promote_next\<close>. The first block takes the head of the queue and, still
  without awaiting, calls \<open>before_publish\<close>, whose exception class is \<open>raised\<close>; the second
  block publishes; \<open>promote_reject\<close> is the exception handler. Each ends its task's hold of
  the candidate except the first.
\<close>

datatype promotion = Promotion_Stop | Promotion_Again | Promotion_Chosen nat

definition promote_head :: "coordinator \<Rightarrow> (nat \<times> coordinator) option" where
  "promote_head s =
     (case co_pending s of
        Some i \<Rightarrow> Some (i, s)
      | None \<Rightarrow>
          (case co_dormant s of
             [] \<Rightarrow> None
           | i # rest \<Rightarrow> Some (i, s\<lparr>co_dormant := rest, co_pending := Some i\<rparr>)))"

definition promote_select :: "(bytes \<Rightarrow> bytes) \<Rightarrow> pystr option \<Rightarrow> promotion co" where
  "promote_select sha raised s =
     (if co_closed s \<or> \<not> has_controller s then (Inr Promotion_Stop, s)
      else case promote_head s of
        None \<Rightarrow> (Inr Promotion_Stop, s)
      | Some (i, t) \<Rightarrow>
          if ca_visible (cand t i) \<or> ca_promoting (cand t i) then (Inr Promotion_Stop, t)
          else (case invalidation i t of
              Some r \<Rightarrow>
                co_bind (invalidate sha i r) (\<lambda>_ u. (Inr Promotion_Again, discard_hooks i u)) t
            | None \<Rightarrow>
                (Inr (Promotion_Chosen i),
                 upd i (\<lambda>c. c\<lparr>ca_promoting := True,
                     ca_raised := (if ca_admitted c \<or> ca_hooks c = None then None else raised),
                     ca_admitted := (ca_admitted c \<or> ca_hooks c = None \<or> raised = None)\<rparr>) t)))"

definition interaction_view_of :: "pending_tool_interaction \<Rightarrow> interaction_view" where
  "interaction_view_of c =
     \<lparr>iv_interaction_id = ca_interaction_id c,
      iv_interaction_kind = (case ca_form c of
          Some _ \<Rightarrow> lit ''CAPABILITY_FORM'' | None \<Rightarrow> lit ''TOOL_CONFIRMATION''),
      iv_public_prompt = (case ca_form c of
          Some f \<Rightarrow> cf_public_prompt f
        | None \<Rightarrow> lit ''Allow '' @ ca_tool_name c @ lit ''?''),
      iv_public_options = (case ca_form c of
          Some _ \<Rightarrow> [lit ''SUBMIT'', lit ''CANCEL''] | None \<Rightarrow> [lit ''ALLOW'', lit ''DENY'']),
      iv_expires_at_utc = ca_expires c, iv_decision_in_progress = False\<rparr>"

text \<open>The block between the admission and the return; an exception leaves \<open>promoting\<close> set.\<close>

definition promote_install :: "(bytes \<Rightarrow> bytes) \<Rightarrow> nat \<Rightarrow> promotion co" where
  "promote_install sha i s =
     (if co_pending s \<noteq> Some i then (Inr Promotion_Again, discard_hooks i s)
      else case invalidation i s of
        Some r \<Rightarrow>
          co_bind (invalidate sha i r) (\<lambda>_ u. (Inr Promotion_Again, discard_hooks i u)) s
      | None \<Rightarrow>
          if \<not> has_controller s then (Inr Promotion_Stop, s)
          else
            let view = interaction_view_of (cand s i)
            in case lc_install_interaction view None (co_live s) of
                 Inl e \<Rightarrow> (Inl e, s)
               | Inr (event, live) \<Rightarrow>
                   co_bind (offer_interaction_event sha event (ca_turn_id (cand s i)) (Some view)
                              None)
                     (\<lambda>_ u. (Inr Promotion_Stop, u))
                     (upd i (\<lambda>c. c\<lparr>ca_revision := lce_revision event, ca_visible := True\<rparr>)
                        (s\<lparr>co_live := live\<rparr>)))"

text \<open>\<open>type(exc).__name__\<close>\<close>

fun exception_name :: "py_error \<Rightarrow> string" where
  "exception_name (ValueError _) = ''ValueError''"
| "exception_name (TypeError _) = ''TypeError''"
| "exception_name (RuntimeError _) = ''RuntimeError''"
| "exception_name (KeyError _) = ''KeyError''"
| "exception_name UnicodeEncodeError = ''UnicodeEncodeError''"
| "exception_name UnicodeDecodeError = ''UnicodeDecodeError''"
| "exception_name AssertionError = ''AssertionError''"
| "exception_name (ConversationKernelConflict _) = ''ConversationKernelConflict''"
| "exception_name _ = ''Exception''"

text \<open>
  \<open>finally: candidate.promoting = False\<close>; also the whole effect of a cancelled task, whose
  exception is gone.
\<close>

definition promote_release :: "nat \<Rightarrow> coordinator \<Rightarrow> coordinator" where
  "promote_release i = upd i (\<lambda>c. c\<lparr>ca_promoting := False, ca_raised := None\<rparr>)"

definition promote_publish :: "(bytes \<Rightarrow> bytes) \<Rightarrow> nat \<Rightarrow> promotion co" where
  "promote_publish sha i s =
     (case promote_install sha i s of
        (Inl e, t) \<Rightarrow> (Inl e, upd i (ca_raised_update (\<lambda>_. Some (lit (exception_name e)))) t)
      | (Inr p, t) \<Rightarrow> (Inr p, promote_release i t))"

definition promote_reject :: "(bytes \<Rightarrow> bytes) \<Rightarrow> nat \<Rightarrow> promotion co" where
  "promote_reject sha i s =
     (case ca_raised (cand s i) of
        None \<Rightarrow> (Inr Promotion_Stop, s)
      | Some name \<Rightarrow>
          (case invalidate sha i (lit ''interaction:admission-rejected'',
                     lit ''tool confirmation admission was rejected: '' @ name) s of
             (Inl e, t) \<Rightarrow> (Inl e, promote_release i t)
           | (Inr _, t) \<Rightarrow> (Inr Promotion_Again, promote_release i (discard_hooks i t))))"

text \<open>
  \<open>_promote_next\<close> of one task that no other task interleaves: \<open>hook i\<close> is what \<open>before_publish\<close>
  of candidate \<open>i\<close> raises. \<open>None\<close>: the fuel is used up.
\<close>

fun promote_next ::
  "(bytes \<Rightarrow> bytes) \<Rightarrow> (nat \<Rightarrow> pystr option) \<Rightarrow> nat \<Rightarrow> coordinator \<Rightarrow>
   (unit result \<times> coordinator) option"
where
  "promote_next sha hook 0 s = None"
| "promote_next sha hook (Suc n) s =
     (case promote_select sha (case promote_head s of None \<Rightarrow> None | Some (i, _) \<Rightarrow> hook i) s of
        (Inl e, t) \<Rightarrow> Some (Inl e, t)
      | (Inr Promotion_Stop, t) \<Rightarrow> Some (Inr (), t)
      | (Inr Promotion_Again, t) \<Rightarrow> promote_next sha hook n t
      | (Inr (Promotion_Chosen i), t) \<Rightarrow>
          (case (if ca_raised (cand t i) = None then promote_publish sha i t
                 else (Inl (ValueError ''before_publish''), t)) of
             (Inr Promotion_Stop, u) \<Rightarrow> Some (Inr (), u)
           | (Inr _, u) \<Rightarrow> promote_next sha hook n u
           | (Inl _, u) \<Rightarrow>
               (case promote_reject sha i u of
                  (Inl e, v) \<Rightarrow> Some (Inl e, v)
                | (Inr _, v) \<Rightarrow> promote_next sha hook n v)))"

section \<open>Resolution of a tool confirmation\<close>

record resolve_command =
  rc_writer_generation :: int
  rc_owner_epoch :: int
  rc_live_revision :: int
  rc_interaction_id :: pystr
  rc_command_id :: pystr
  rc_decision :: pystr
  rc_actor_id :: pystr

definition publish_resolving :: "(bytes \<Rightarrow> bytes) \<Rightarrow> nat \<Rightarrow> unit co" where
  "publish_resolving sha i s =
     (case lc_current_snapshot (co_live s) of
        Inl e \<Rightarrow> (Inl e, s)
      | Inr snapshot \<Rightarrow>
          (case lcs_current_interaction snapshot of
             None \<Rightarrow> (Inl AssertionError, s)
           | Some current \<Rightarrow>
               let view = current\<lparr>iv_decision_in_progress := ca_resolving (cand s i)\<rparr>
               in case lc_install_interaction view (Some (ca_interaction_id (cand s i)))
                         (co_live s) of
                    Inl e \<Rightarrow> (Inl e, s)
                  | Inr (event, live) \<Rightarrow>
                      offer_interaction_event sha event (ca_turn_id (cand s i)) (Some view) None
                        (upd i (ca_revision_update (\<lambda>_. lce_revision event))
                           (s\<lparr>co_live := live\<rparr>))))"

definition live_authority :: "pystr \<Rightarrow> int \<Rightarrow> int \<Rightarrow> live_control_snapshot \<Rightarrow> coordinator \<Rightarrow> nat option" where
  "live_authority interaction_id owner_epoch live_revision snapshot s =
     (case co_pending s of
        None \<Rightarrow> None
      | Some i \<Rightarrow>
          if ca_interaction_id (cand s i) \<noteq> interaction_id
             \<or> ca_revision (cand s i) \<noteq> live_revision
             \<or> lcs_owner_epoch snapshot \<noteq> owner_epoch \<or> lcs_revision snapshot \<noteq> live_revision
             \<or> map_option iv_interaction_id (lcs_current_interaction snapshot)
                 \<noteq> Some interaction_id
          then None else Some i)"

definition decision_write_of ::
  "pending_tool_interaction \<Rightarrow> resolve_command \<Rightarrow> pystr \<Rightarrow> decision_write" where
  "decision_write_of c cmd decision_id =
     (let allow = rc_decision cmd = lit ''ALLOW''; deny = rc_decision cmd = lit ''DENY''
      in \<lparr>dw_command_id = rc_command_id cmd, dw_decision_id = decision_id,
          dw_assistant_entry_id = ca_assistant_entry_id c, dw_tool_call_id = ca_tool_call_id c,
          dw_decision = rc_decision cmd,
          dw_attempt_id = (if allow then Some (ca_attempt_id c) else None),
          dw_result_id = (if deny then Some (ca_result_id c) else None),
          dw_result_entry_id = (if deny then Some (ca_result_entry_id c) else None),
          dw_denial_content =
            (if deny then Some (utf8_bytes (lit ''tool execution denied by user'')) else None),
          dw_redacted_subject = lit ''tool:'' @ ca_tool_name c,
          dw_actor_id = rc_actor_id cmd, dw_fingerprint = ca_fingerprint c\<rparr>)"

text \<open>Up to the creation of the settlement task.\<close>

definition resolve_begin :: "(bytes \<Rightarrow> bytes) \<Rightarrow> resolve_command \<Rightarrow> nat co" where
  "resolve_begin sha cmd s =
     (if rc_decision cmd \<notin> {lit ''ALLOW'', lit ''DENY''} then
        (Inl (ValueError ''tool interaction resolution is not closed''), s)
      else if co_closed s \<or> rc_writer_generation cmd \<noteq> co_writer_generation s then
        (Inl (ConversationKernelConflict ''interaction writer generation is stale''), s)
      else case lc_current_snapshot (co_live s) of
        Inl e \<Rightarrow> (Inl e, s)
      | Inr snapshot \<Rightarrow>
          (case live_authority (rc_interaction_id cmd) (rc_owner_epoch cmd)
                  (rc_live_revision cmd) snapshot s of
             None \<Rightarrow> (Inl (ConversationKernelConflict ''interaction live authority is stale''), s)
           | Some i \<Rightarrow>
               if ca_resolving (cand s i) then
                 (Inl (ConversationKernelConflict ''interaction resolution is already active''), s)
               else if ca_form (cand s i) \<noteq> None then
                 (Inl (ConversationKernelConflict ''capability form requires SUBMIT or CANCEL''), s)
               else if co_controller s \<noteq> Some (rc_actor_id cmd) \<or> co_closed s then
                 (Inl (ConversationKernelConflict ''interaction controller is stale''), s)
               else if ca_invalidation (cand s i) \<noteq> None \<or> ca_deadline (cand s i) \<le> co_now s then
                 (Inl (ConversationKernelConflict ''interaction is no longer valid''), s)
               else
                 co_bind (publish_resolving sha i)
                   (\<lambda>_ t. case derive_id sha (lit ''decision'') (lit ''accepted'')
                               [co_session_id s, rc_command_id cmd] of
                       Inl e \<Rightarrow> (Inl e, t)
                     | Inr decision_id \<Rightarrow>
                         (Inr i, upd i (\<lambda>c. c\<lparr>ca_settlement :=
                            Some (decision_write_of c cmd decision_id)\<rparr>) t))
                   (upd i (\<lambda>c. c\<lparr>ca_settled := False, ca_resolving := True\<rparr>) s)))"

text \<open>
  The end of \<open>_settle_decision\<close>: the repository has accepted (or confirmed) the decision, its
  outcome could not be learnt, or it is confirmed that nothing was accepted.
\<close>

definition accepted_post_init :: "accepted_decision \<Rightarrow> bool" where
  "accepted_post_init a \<longleftrightarrow>
     (ad_result_entry_id a \<noteq> None) =
       (ad_result_id a \<noteq> None \<and> ad_result_entry_sequence a \<noteq> None \<and>
        ad_result_observed_at a \<noteq> None)"

definition accepted_resolution :: "accepted_decision \<Rightarrow> resolution" where
  "accepted_resolution a =
     \<lparr>rs_decision = ad_decision a, rs_reference = ad_decision_id a,
      rs_public_message = (if ad_decision a = lit ''ALLOW'' then lit ''tool execution was allowed''
                           else lit ''tool execution was denied''),
      rs_attempt_id = ad_attempt_id a, rs_result_entry_id = ad_result_entry_id a,
      rs_fingerprint = Some (ad_fingerprint a), rs_result_id = ad_result_id a,
      rs_result_entry_sequence = ad_result_entry_sequence a,
      rs_result_observed_at = ad_result_observed_at a,
      rs_result_public_body = (if ad_decision a = lit ''DENY''
                               then Some (lit ''tool execution denied by user'') else None),
      rs_submission = None\<rparr>"

definition settle_accepted :: "(bytes \<Rightarrow> bytes) \<Rightarrow> nat \<Rightarrow> accepted_decision \<Rightarrow> unit co" where
  "settle_accepted sha i a s =
     (if co_pending s \<noteq> Some i then
        (Inl (ConversationKernelConflict
                ''interaction live owner changed during durable resolution''), s)
      else
        co_bind (close_candidate sha i (lit ''RESOLVED''))
          (\<lambda>_ t. let u = upd i (ca_resolving_update (\<lambda>_. False)) t
                 in case resolution_post_init (accepted_resolution a) of
                      Inl e \<Rightarrow> (Inl e, u)
                    | Inr r \<Rightarrow>
                        let w = upd i (ca_settled_update (\<lambda>_. True)) (set_outcome i (Answered r) u)
                        in (Inr (), if ad_decision a = lit ''DENY'' then discard_hooks i w else w))
          s)"

definition settle_unknown :: "(bytes \<Rightarrow> bytes) \<Rightarrow> nat \<Rightarrow> unit co" where
  "settle_unknown sha i =
     co_bind (close_candidate sha i (lit ''interaction:outcome-unknown''))
       (\<lambda>_ t. (Inl (ToolInteractionDecisionOutcomeUnknown
                     ''original interaction decision outcome could not be confirmed''),
          discard_hooks i (upd i (ca_settled_update (\<lambda>_. True))
            (set_outcome i (Failed (ConversationKernelConflict
                ''interaction decision outcome is unknown; original operation must be verified''))
              (upd i (ca_resolving_update (\<lambda>_. False)) t)))))"

definition settle_not_accepted :: "(bytes \<Rightarrow> bytes) \<Rightarrow> nat \<Rightarrow> unit co" where
  "settle_not_accepted sha i s =
     (let t = upd i (ca_resolving_update (\<lambda>_. False)) s;
          refuse = Inl (ToolInteractionDecisionNotAccepted
                     ''original interaction decision was confirmed not accepted'')
      in case invalidation i t of
           None \<Rightarrow>
             co_bind (publish_resolving sha i)
               (\<lambda>_ u. (refuse, upd i (ca_settled_update (\<lambda>_. True)) u)) t
         | Some r \<Rightarrow>
             co_bind (close_candidate sha i (fst r))
               (\<lambda>_ u. (refuse, discard_hooks i (upd i (ca_settled_update (\<lambda>_. True))
                   (set_outcome i (Answered (plain_resolution (lit ''DENY'') (fst r) (snd r))) u))))
               t)"

section \<open>Capability forms\<close>

definition require_capability_form ::
  "pystr \<Rightarrow> pystr \<Rightarrow> int \<Rightarrow> int \<Rightarrow> coordinator \<Rightarrow> nat result"
where
  "require_capability_form attachment_id interaction_id owner_epoch live_revision s =
     (if \<not> is_current_controller attachment_id s then
        Inl (ConversationKernelConflict ''capability form controller is stale'')
      else bind_result (lc_current_snapshot (co_live s)) (\<lambda>snapshot.
        case live_authority interaction_id owner_epoch live_revision snapshot s of
          None \<Rightarrow> Inl (ConversationKernelConflict ''capability form live authority is stale'')
        | Some i \<Rightarrow>
            if ca_form (cand s i) = None then
              Inl (ConversationKernelConflict ''capability form live authority is stale'')
            else Inr i))"

definition current_capability_form ::
  "pystr \<Rightarrow> pystr \<Rightarrow> int \<Rightarrow> int \<Rightarrow> coordinator \<Rightarrow> json result"
where
  "current_capability_form attachment_id interaction_id owner_epoch live_revision s =
     bind_result (require_capability_form attachment_id interaction_id owner_epoch live_revision s)
       (\<lambda>i. case ca_form (cand s i) of
              None \<Rightarrow> Inl AssertionError
            | Some f \<Rightarrow> Inr (cf_public_projection f))"

definition resolve_form_begin ::
  "pystr \<Rightarrow> pystr \<Rightarrow> int \<Rightarrow> int \<Rightarrow> pystr \<Rightarrow> bool \<Rightarrow> nat co"
where
  "resolve_form_begin attachment_id interaction_id owner_epoch live_revision decision submitted s =
     (if decision \<notin> {lit ''SUBMIT'', lit ''CANCEL''} \<or> (decision = lit ''SUBMIT'') \<noteq> submitted then
        (Inl (ValueError ''capability form resolution is invalid''), s)
      else case require_capability_form attachment_id interaction_id owner_epoch live_revision s of
        Inl e \<Rightarrow> (Inl e, s)
      | Inr i \<Rightarrow>
          if ca_resolving (cand s i) then
            (Inl (ConversationKernelConflict ''capability form is already resolving''), s)
          else (Inr i, upd i (\<lambda>c. c\<lparr>ca_settled := False, ca_resolving := True\<rparr>) s))"

text \<open>\<open>submitted\<close> are the values the form's parser returned for a submission.\<close>

definition form_resolution :: "bool \<Rightarrow> capability_form_values option \<Rightarrow> resolution" where
  "form_resolution cancelled submitted =
     (plain_resolution (if cancelled then lit ''CANCEL'' else lit ''SUBMIT'')
        (if cancelled then lit ''capability-form:cancelled''
         else lit ''capability-form:user-submitted'')
        (if cancelled then lit ''Capability configuration was cancelled.''
         else lit ''The user submitted the capability configuration.''))
       \<lparr>rs_submission := (if cancelled then None else map_option Some submitted)\<rparr>"

definition resolve_form_finish ::
  "(bytes \<Rightarrow> bytes) \<Rightarrow> nat \<Rightarrow> pystr \<Rightarrow> pystr \<Rightarrow> capability_form_values option \<Rightarrow> unit co"
where
  "resolve_form_finish sha i attachment_id decision submitted s =
     (if co_pending s \<noteq> Some i then
        (Inl (ConversationKernelConflict ''capability form owner changed''), s)
      else
        let cancelled = (decision = lit ''CANCEL'' \<or> ca_form_cancelled (cand s i)
                         \<or> \<not> is_current_controller attachment_id s)
        in case lc_close_interaction (ca_interaction_id (cand s i)) (co_live s) of
             Inl e \<Rightarrow> (Inl e, s)
           | Inr (event, live) \<Rightarrow>
               co_bind (offer_interaction_event sha event (ca_turn_id (cand s i)) None
                   (Some (if cancelled then lit ''CANCELLED'' else lit ''SUBMITTED'')))
                 (\<lambda>_ t. case resolution_post_init (form_resolution cancelled submitted) of
                     Inl e \<Rightarrow> (Inl e, t\<lparr>co_pending := None\<rparr>)
                   | Inr r \<Rightarrow> (Inr (), set_outcome i (Answered r) (t\<lparr>co_pending := None\<rparr>)))
                 (s\<lparr>co_live := live\<rparr>))"

definition resolve_form_end :: "nat \<Rightarrow> coordinator \<Rightarrow> coordinator" where
  "resolve_form_end i = upd i (\<lambda>c. c\<lparr>ca_resolving := False, ca_settled := True\<rparr>)"

section \<open>Cancellation and close\<close>

definition detached_forms :: "(bytes \<Rightarrow> bytes) \<Rightarrow> unit co" where
  "detached_forms sha s =
     invalidate_all sha (lit ''interaction:controller-detached'',
         lit ''capability form ended because the controller detached'')
       (filter (\<lambda>i. ca_form (cand s i) \<noteq> None) (retained s)) s"

definition cancel_tool_confirmations ::
  "(bytes \<Rightarrow> bytes) \<Rightarrow> pystr list \<Rightarrow> pystr \<Rightarrow> pystr \<Rightarrow> unit co"
where
  "cancel_tool_confirmations sha owner_keys reference message s =
     (if owner_keys = [] then (Inr (), s)
      else invalidate_all sha (reference, message)
        (filter (\<lambda>i. case ca_hooks (cand s i) of
             None \<Rightarrow> False
           | Some h \<Rightarrow> (case ah_owner_key h of None \<Rightarrow> False | Some k \<Rightarrow> k \<in> set owner_keys))
          (retained s)) s)"

definition abort_candidate :: "(bytes \<Rightarrow> bytes) \<Rightarrow> pystr \<Rightarrow> pystr \<Rightarrow> pystr \<Rightarrow> unit co" where
  "abort_candidate sha interaction_id reference message s =
     (case filter (\<lambda>i. ca_interaction_id (cand s i) = interaction_id) (retained s) of
        [] \<Rightarrow> (Inr (), s)
      | i # _ \<Rightarrow> invalidate_all sha (reference, message) [i] s)"

definition close_owner :: "coordinator \<Rightarrow> coordinator" where
  "close_owner s = s\<lparr>co_closed := True, co_controller := None\<rparr>"

text \<open>One round of \<open>_abort_all\<close>; \<open>True\<close>: no settlement is awaited, the loop ends.\<close>

definition abort_round :: "(bytes \<Rightarrow> bytes) \<Rightarrow> bool co" where
  "abort_round sha s =
     co_bind (invalidate_all sha (lit ''interaction:host-closing'',
         lit ''tool confirmation ended with the Host'') (retained s))
       (\<lambda>_ t. (Inr (list_all (\<lambda>i. \<not> ca_resolving (cand t i)) (retained s)), t)) s"

section \<open>Runs\<close>

text \<open>
  The operations as labels, in the order a run performs them. The observers of the live
  control change neither its revision nor its current interaction and are left out.
\<close>

datatype co_op =
    Op_Attach pystr
  | Op_Detach pystr
  | Op_Request interaction_request "pystr list" "pystr list" "pystr list"
  | Op_Select "pystr option"
  | Op_Publish nat
  | Op_Reject nat
  | Op_Interrupt nat
  | Op_Resolve resolve_command
  | Op_Accepted nat accepted_decision
  | Op_Unknown nat
  | Op_Not_Accepted nat
  | Op_Form_Begin pystr pystr int int pystr bool
  | Op_Form_Finish nat pystr pystr "capability_form_values option"
  | Op_Form_End nat
  | Op_Detached_Forms
  | Op_Cancel "pystr list" pystr pystr
  | Op_Abort pystr pystr pystr
  | Op_Close
  | Op_Abort_Round
  | Op_Waiter_Left nat
  | Op_Tick nat

definition in_settlement :: "nat \<Rightarrow> coordinator \<Rightarrow> bool" where
  "in_settlement i s \<longleftrightarrow>
     i < length (co_store s) \<and> ca_resolving (cand s i) \<and> ca_form (cand s i) = None"

definition in_form :: "nat \<Rightarrow> coordinator \<Rightarrow> bool" where
  "in_form i s \<longleftrightarrow>
     i < length (co_store s) \<and> ca_resolving (cand s i) \<and> ca_form (cand s i) \<noteq> None"

definition in_promotion :: "nat \<Rightarrow> coordinator \<Rightarrow> bool" where
  "in_promotion i s \<longleftrightarrow> i < length (co_store s) \<and> ca_promoting (cand s i)"

text \<open>\<open>None\<close>: no task is at this point.\<close>

definition guarded :: "bool \<Rightarrow> coordinator \<Rightarrow> coordinator option" where
  "guarded b s = (if b then Some s else None)"

fun perform :: "(bytes \<Rightarrow> bytes) \<Rightarrow> co_op \<Rightarrow> coordinator \<Rightarrow> coordinator option" where
  "perform sha (Op_Attach a) s = Some (snd (attach_controller a s))"
| "perform sha (Op_Detach a) s = Some (snd (detach_controller a s))"
| "perform sha (Op_Request rq is rs as) s = map_option snd (request sha rq is rs as s)"
| "perform sha (Op_Select raised) s = Some (snd (promote_select sha raised s))"
| "perform sha (Op_Publish i) s =
     guarded (in_promotion i s \<and> ca_raised (cand s i) = None) (snd (promote_publish sha i s))"
| "perform sha (Op_Reject i) s =
     guarded (in_promotion i s \<and> ca_raised (cand s i) \<noteq> None) (snd (promote_reject sha i s))"
| "perform sha (Op_Interrupt i) s = guarded (in_promotion i s) (promote_release i s)"
| "perform sha (Op_Resolve cmd) s = Some (snd (resolve_begin sha cmd s))"
| "perform sha (Op_Accepted i a) s = guarded (in_settlement i s) (snd (settle_accepted sha i a s))"
| "perform sha (Op_Unknown i) s = guarded (in_settlement i s) (snd (settle_unknown sha i s))"
| "perform sha (Op_Not_Accepted i) s =
     guarded (in_settlement i s) (snd (settle_not_accepted sha i s))"
| "perform sha (Op_Form_Begin a i e r d b) s = Some (snd (resolve_form_begin a i e r d b s))"
| "perform sha (Op_Form_Finish i a d v) s =
     guarded (in_form i s) (snd (resolve_form_finish sha i a d v s))"
| "perform sha (Op_Form_End i) s = guarded (in_form i s) (resolve_form_end i s)"
| "perform sha Op_Detached_Forms s = Some (snd (detached_forms sha s))"
| "perform sha (Op_Cancel ks r m) s = Some (snd (cancel_tool_confirmations sha ks r m s))"
| "perform sha (Op_Abort i r m) s = Some (snd (abort_candidate sha i r m s))"
| "perform sha Op_Close s = Some (close_owner s)"
| "perform sha Op_Abort_Round s = Some (snd (abort_round sha s))"
| "perform sha (Op_Waiter_Left i) s =
     guarded (i < length (co_store s) \<and> ca_form (cand s i) = None \<and> ca_outcome (cand s i) \<noteq> None)
       (discard_hooks i s)"
| "perform sha (Op_Tick n) s = Some (s\<lparr>co_now := co_now s + int n\<rparr>)"

text \<open>
  What the callers and the collaborators promise: identities come from \<open>random_id\<close>, expiry
  texts, prompts and reason codes are not empty, hooks are handed over once and never with a
  form, and the repository answers a write with the decision it was asked to record, with a
  result exactly for a denial.
\<close>

definition drawn :: "string \<Rightarrow> pystr list \<Rightarrow> bool" where
  "drawn kind ds \<longleftrightarrow> (\<forall>d \<in> set ds. \<exists>token. random_id (lit kind) token = Inr d)"

definition tokens :: "coordinator \<Rightarrow> nat list" where
  "tokens s = map ah_token (List.map_filter ca_hooks (co_store s))"

definition repository_answers :: "decision_write option \<Rightarrow> accepted_decision \<Rightarrow> bool" where
  "repository_answers w a \<longleftrightarrow>
     accepted_post_init a \<and> map_option dw_decision w = Some (ad_decision a) \<and>
     (ad_result_entry_id a \<noteq> None) = (ad_decision a = lit ''DENY'')"

fun op_promised :: "co_op \<Rightarrow> coordinator \<Rightarrow> bool" where
  "op_promised (Op_Request rq is rs as) s \<longleftrightarrow>
     drawn ''interaction'' is \<and> drawn ''result'' rs \<and> drawn ''attempt'' as \<and>
     rq_expires rq \<noteq> [] \<and>
     (case rq_form rq of None \<Rightarrow> True | Some f \<Rightarrow> cf_public_prompt f \<noteq> [] \<and> rq_hooks rq = None) \<and>
     (case rq_hooks rq of
        None \<Rightarrow> True | Some h \<Rightarrow> ah_token h \<notin> set (tokens s) \<union> set (co_discards s))"
| "op_promised (Op_Resolve cmd) s \<longleftrightarrow> list_all is_scalar (rc_command_id cmd)"
| "op_promised (Op_Accepted i a) s \<longleftrightarrow> repository_answers (ca_settlement (cand s i)) a"
| "op_promised (Op_Cancel ks r m) s \<longleftrightarrow> r \<noteq> []"
| "op_promised (Op_Abort i r m) s \<longleftrightarrow> r \<noteq> []"
| "op_promised _ s \<longleftrightarrow> True"

inductive co_run :: "(bytes \<Rightarrow> bytes) \<Rightarrow> coordinator \<Rightarrow> co_op list \<Rightarrow> bool" for sha where
  co_run_init:
    "live_control_init session_id ep me mb = Inr live \<Longrightarrow> list_all is_scalar session_id \<Longrightarrow>
     co_run sha (coordinator_init session_id gen live now) []"
| co_run_step:
    "co_run sha s h \<Longrightarrow> op_promised op s \<Longrightarrow> perform sha op s = Some t \<Longrightarrow>
     co_run sha t (h @ [op])"

inductive_cases co_run_snocE: "co_run sha s (h @ [op])"

end
