(* ===== verification/Interaction_Safety.thy ===== *)
theory Interaction_Safety
  imports Interaction
begin

text \<open>
  What holds in every state a run of the interaction coordinator reaches, whatever the order
  in which its tasks, the controller, the repository and the clock take their steps.
\<close>

declare lit_Cons [simp del]

section \<open>Reading and writing candidates\<close>

lemma co_bind_Inr: "m s = (Inr x, t) \<Longrightarrow> co_bind m f s = f x t"
  by (simp add: co_bind_def)

lemma co_bind_Inl: "m s = (Inl e, t) \<Longrightarrow> co_bind m f s = (Inl e, t)"
  by (simp add: co_bind_def)

lemma upd_fields [simp]:
  "co_session_id (upd i f s) = co_session_id s"
  "co_writer_generation (upd i f s) = co_writer_generation s"
  "co_controller (upd i f s) = co_controller s" "co_pending (upd i f s) = co_pending s"
  "co_dormant (upd i f s) = co_dormant s" "co_closed (upd i f s) = co_closed s"
  "co_live (upd i f s) = co_live s" "co_now (upd i f s) = co_now s"
  "co_discards (upd i f s) = co_discards s" "co_offers (upd i f s) = co_offers s"
  "length (co_store (upd i f s)) = length (co_store s)"
  by (simp_all add: upd_def)

lemma cand_upd [simp]:
  "cand (upd i f s) j = (if j = i \<and> i < length (co_store s) then f (cand s i) else cand s j)"
  by (cases "i < length (co_store s)") (auto simp: cand_def upd_def list_update_beyond)

lemma cand_record [simp]:
  "cand (s\<lparr>co_live := l\<rparr>) = cand s" "cand (s\<lparr>co_offers := os\<rparr>) = cand s"
  "cand (s\<lparr>co_pending := p\<rparr>) = cand s" "cand (s\<lparr>co_dormant := d\<rparr>) = cand s"
  "cand (s\<lparr>co_controller := c\<rparr>) = cand s" "cand (s\<lparr>co_closed := b\<rparr>) = cand s"
  "cand (s\<lparr>co_now := n\<rparr>) = cand s" "cand (s\<lparr>co_discards := x\<rparr>) = cand s"
  by (simp_all add: cand_def fun_eq_iff)

lemma retained_record [simp]:
  "retained (s\<lparr>co_live := l\<rparr>) = retained s" "retained (s\<lparr>co_offers := os\<rparr>) = retained s"
  "retained (s\<lparr>co_controller := c\<rparr>) = retained s" "retained (s\<lparr>co_closed := b\<rparr>) = retained s"
  "retained (s\<lparr>co_now := n\<rparr>) = retained s" "retained (s\<lparr>co_discards := x\<rparr>) = retained s"
  "retained (upd i f s) = retained s"
  by (simp_all add: retained_def)

lemma pending_retained: "co_pending s = Some i \<Longrightarrow> i \<in> set (retained s)"
  by (simp add: retained_def)

text \<open>The view depends only on the request.\<close>

lemma view_simps [simp]:
  "interaction_view_of (ca_revision_update f0 c) = interaction_view_of c"
  "interaction_view_of (ca_outcome_update f1 c) = interaction_view_of c"
  "interaction_view_of (ca_visible_update f2 c) = interaction_view_of c"
  "interaction_view_of (ca_discarded_update f3 c) = interaction_view_of c"
  "interaction_view_of (ca_resolving_update f4 c) = interaction_view_of c"
  "interaction_view_of (ca_settled_update f5 c) = interaction_view_of c"
  "interaction_view_of (ca_form_cancelled_update f6 c) = interaction_view_of c"
  "interaction_view_of (ca_admitted_update f7 c) = interaction_view_of c"
  "interaction_view_of (ca_promoting_update f8 c) = interaction_view_of c"
  "interaction_view_of (ca_raised_update f9 c) = interaction_view_of c"
  "interaction_view_of (ca_invalidation_update f10 c) = interaction_view_of c"
  "interaction_view_of (ca_settlement_update f11 c) = interaction_view_of c"
  by (simp_all add: interaction_view_of_def split: option.split)

section \<open>The invariant\<close>

text \<open>An answer that lets the tool run.\<close>

definition allowed :: "future_value option \<Rightarrow> bool" where
  "allowed v \<longleftrightarrow> (\<exists>r. v = Some (Answered r) \<and> rs_decision r = lit ''ALLOW'')"

text \<open>
  What holds of one candidate: \<open>p\<close> says that it is the pending one, \<open>r\<close> that it is retained
  and \<open>d\<close> that its hooks are about to be discarded.
\<close>

definition flow_ok :: "bool \<Rightarrow> bool \<Rightarrow> pending_tool_interaction \<Rightarrow> bool" where
  "flow_ok p r c \<longleftrightarrow>
     (ca_outcome c = None \<longleftrightarrow> r) \<and>
     (r \<and> ca_visible c \<longrightarrow> p \<and> ca_admitted c) \<and>
     (ca_resolving c \<and> (ca_form c = None \<or> r) \<longrightarrow> p \<and> r \<and> ca_visible c) \<and>
     (ca_resolving c \<longrightarrow> \<not> ca_settled c) \<and>
     (r \<and> ca_invalidation c \<noteq> None \<and> ca_form c = None \<longrightarrow> ca_resolving c) \<and>
     (ca_promoting c \<and> r \<longrightarrow> p \<and> \<not> ca_visible c) \<and>
     (ca_promoting c \<and> ca_raised c = None \<longrightarrow> ca_admitted c) \<and>
     (ca_raised c \<noteq> None \<longrightarrow> ca_promoting c)"

definition write_ok :: "pending_tool_interaction \<Rightarrow> bool" where
  "write_ok c \<longleftrightarrow>
     (ca_resolving c \<and> ca_form c = None \<longrightarrow>
        map_option dw_decision (ca_settlement c) \<in> {Some (lit ''ALLOW''), Some (lit ''DENY'')}) \<and>
     (allowed (ca_outcome c) \<longrightarrow>
        ca_form c = None \<and> map_option dw_decision (ca_settlement c) = Some (lit ''ALLOW''))"

definition hooks_ok :: "bool \<Rightarrow> pending_tool_interaction \<Rightarrow> bool" where
  "hooks_ok d c \<longleftrightarrow>
     (ca_outcome c \<noteq> None \<and> \<not> allowed (ca_outcome c) \<and> \<not> d \<longrightarrow>
        ca_hooks c = None \<or> ca_discarded c) \<and>
     (ca_form c \<noteq> None \<longrightarrow> ca_hooks c = None)"

definition text_ok :: "pending_tool_interaction \<Rightarrow> bool" where
  "text_ok c \<longleftrightarrow>
     ca_expires c \<noteq> [] \<and> (\<forall>f. ca_form c = Some f \<longrightarrow> cf_public_prompt f \<noteq> []) \<and>
     (\<forall>why. ca_invalidation c = Some why \<longrightarrow> fst why \<noteq> []) \<and>
     (\<exists>token. random_id (lit ''interaction'') token = Inr (ca_interaction_id c))"

definition cand_inv :: "nat set \<Rightarrow> coordinator \<Rightarrow> nat \<Rightarrow> bool" where
  "cand_inv D s i \<longleftrightarrow>
     flow_ok (co_pending s = Some i) (i \<in> set (retained s)) (cand s i) \<and> write_ok (cand s i) \<and>
     hooks_ok (i \<in> D) (cand s i) \<and> text_ok (cand s i)"

text \<open>Each part of the invariant reads few fields.\<close>

lemma part_simps [simp]:
  "write_ok (ca_revision_update f0 c) = write_ok c"
  "write_ok (ca_visible_update f1 c) = write_ok c"
  "write_ok (ca_discarded_update f2 c) = write_ok c"
  "write_ok (ca_settled_update f3 c) = write_ok c"
  "write_ok (ca_form_cancelled_update f4 c) = write_ok c"
  "write_ok (ca_admitted_update f5 c) = write_ok c"
  "write_ok (ca_promoting_update f6 c) = write_ok c"
  "write_ok (ca_raised_update f7 c) = write_ok c"
  "write_ok (ca_invalidation_update f8 c) = write_ok c"
  "hooks_ok d (ca_revision_update f9 c) = hooks_ok d c"
  "hooks_ok d (ca_visible_update f10 c) = hooks_ok d c"
  "hooks_ok d (ca_resolving_update f11 c) = hooks_ok d c"
  "hooks_ok d (ca_settled_update f12 c) = hooks_ok d c"
  "hooks_ok d (ca_form_cancelled_update f13 c) = hooks_ok d c"
  "hooks_ok d (ca_admitted_update f14 c) = hooks_ok d c"
  "hooks_ok d (ca_promoting_update f15 c) = hooks_ok d c"
  "hooks_ok d (ca_raised_update f16 c) = hooks_ok d c"
  "hooks_ok d (ca_invalidation_update f17 c) = hooks_ok d c"
  "hooks_ok d (ca_settlement_update f18 c) = hooks_ok d c"
  "text_ok (ca_revision_update f19 c) = text_ok c"
  "text_ok (ca_outcome_update f20 c) = text_ok c"
  "text_ok (ca_visible_update f21 c) = text_ok c"
  "text_ok (ca_discarded_update f22 c) = text_ok c"
  "text_ok (ca_resolving_update f23 c) = text_ok c"
  "text_ok (ca_settled_update f24 c) = text_ok c"
  "text_ok (ca_form_cancelled_update f25 c) = text_ok c"
  "text_ok (ca_admitted_update f26 c) = text_ok c"
  "text_ok (ca_promoting_update f27 c) = text_ok c"
  "text_ok (ca_raised_update f28 c) = text_ok c"
  "text_ok (ca_settlement_update f29 c) = text_ok c"
  "flow_ok p r (ca_revision_update f30 c) = flow_ok p r c"
  "flow_ok p r (ca_discarded_update f31 c) = flow_ok p r c"
  "flow_ok p r (ca_form_cancelled_update f32 c) = flow_ok p r c"
  "flow_ok p r (ca_settlement_update f33 c) = flow_ok p r c"
  by (simp_all add: write_ok_def hooks_ok_def text_ok_def flow_ok_def)

definition queue_inv :: "coordinator \<Rightarrow> bool" where
  "queue_inv s \<longleftrightarrow>
     sorted_wrt (<) (retained s) \<and> (\<forall>i \<in> set (retained s). i < length (co_store s)) \<and>
     length (retained s) \<le> maximum_dormant_interaction_candidates \<and>
     distinct (map (\<lambda>i. ca_interaction_id (cand s i)) (retained s))"

text \<open>The discarded hooks are those of the candidates marked so, and of refused requests.\<close>

definition discard_inv :: "coordinator \<Rightarrow> bool" where
  "discard_inv s \<longleftrightarrow>
     distinct (co_discards s) \<and> distinct (tokens s) \<and>
     (\<forall>i < length (co_store s). \<forall>h. ca_hooks (cand s i) = Some h \<longrightarrow>
        (ah_token h \<in> set (co_discards s) \<longleftrightarrow> ca_discarded (cand s i)))"

text \<open>What the live control shows: the visible pending candidate.\<close>

definition shown :: "coordinator \<Rightarrow> interaction_view option" where
  "shown s =
     (case co_pending s of
        None \<Rightarrow> None
      | Some i \<Rightarrow>
          if ca_visible (cand s i)
          then Some ((interaction_view_of (cand s i))
                 \<lparr>iv_decision_in_progress :=
                    ca_resolving (cand s i) \<and> ca_form (cand s i) = None\<rparr>)
          else None)"

text \<open>The offer of a live-control event to the bus.\<close>

definition mirrors ::
  "(bytes \<Rightarrow> bytes) \<Rightarrow> pystr \<Rightarrow> live_control_event \<Rightarrow> live_channel \<times> live_offer \<Rightarrow> bool"
where
  "mirrors sha session_id event r \<longleftrightarrow>
     (\<exists>turn_id reason.
        interaction_offer sha session_id event turn_id (lce_interaction event) reason = Inr r)"

definition live_inv :: "(bytes \<Rightarrow> bytes) \<Rightarrow> coordinator \<Rightarrow> bool" where
  "live_inv sha s \<longleftrightarrow>
     (\<exists>events. lc_run (co_live s) events \<and>
        list_all2 (mirrors sha (co_session_id s)) events (co_offers s)) \<and>
     \<not> lc_closed (co_live s) \<and> lc_current (co_live s) = shown s \<and>
     (\<forall>i. co_pending s = Some i \<and> ca_visible (cand s i) \<longrightarrow>
        ca_revision (cand s i) = lc_revision (co_live s))"

definition co_inv :: "(bytes \<Rightarrow> bytes) \<Rightarrow> nat set \<Rightarrow> coordinator \<Rightarrow> bool" where
  "co_inv sha D s \<longleftrightarrow>
     queue_inv s \<and> discard_inv s \<and> live_inv sha s \<and>
     (\<forall>i < length (co_store s). cand_inv D s i) \<and>
     (co_closed s \<longrightarrow> co_controller s = None) \<and> list_all is_scalar (co_session_id s)"

lemma co_invD:
  assumes "co_inv sha D s"
  shows "queue_inv s" "discard_inv s" "live_inv sha s"
    "i < length (co_store s) \<Longrightarrow> cand_inv D s i"
    "co_closed s \<Longrightarrow> co_controller s = None" "list_all is_scalar (co_session_id s)"
  using assms by (auto simp: co_inv_def)

lemma retained_less: "co_inv sha D s \<Longrightarrow> i \<in> set (retained s) \<Longrightarrow> i < length (co_store s)"
  by (auto simp: co_inv_def queue_inv_def)

lemma pending_less: "co_inv sha D s \<Longrightarrow> co_pending s = Some i \<Longrightarrow> i < length (co_store s)"
  using retained_less pending_retained by blast

section \<open>Live control and the bus\<close>

lemma text_okD:
  assumes "text_ok c"
  shows "ca_interaction_id c \<noteq> []" "list_all is_scalar (ca_interaction_id c)" "ca_expires c \<noteq> []"
    "ca_form c = Some f \<Longrightarrow> cf_public_prompt f \<noteq> []"
  using assms random_id_text [OF _ scalar_lit] by (auto simp: text_ok_def)

lemma view_texts:
  assumes "text_ok c"
  shows "iv_interaction_id (interaction_view_of c) = ca_interaction_id c"
    "iv_interaction_kind (interaction_view_of c) \<noteq> []"
    "iv_public_prompt (interaction_view_of c) \<noteq> []"
    "iv_expires_at_utc (interaction_view_of c) \<noteq> []"
  using text_okD [OF assms] by (auto simp: interaction_view_of_def split: option.splits)

lemma channel_id:
  "list_all is_scalar i \<Longrightarrow>
   \<exists>g. derive_id sha (lit ''generation'') (lit ''channel'') [lit ''interaction'', i] = Inr g"
  by (rule derive_id_total)
    (auto simp: is_kind_def identity_kinds_def scalar_lit)

text \<open>Offers of well-formed views and closings are built without an exception.\<close>

lemma offer_view:
  assumes "lce_kind event \<noteq> INTERACTION_CLOSED" and "lce_interaction event = Some v"
    and "lce_kind event = INTERACTION_REPLACED \<longrightarrow>
           lce_closed_interaction_id event = Some (iv_interaction_id v)"
    and "iv_interaction_id v \<noteq> []" "list_all is_scalar (iv_interaction_id v)"
    and "iv_interaction_kind v \<noteq> []" "iv_public_prompt v \<noteq> []" "iv_expires_at_utc v \<noteq> []"
  shows "\<exists>r. interaction_offer sha sid event turn (Some v) reason = Inr r \<and> mirrors sha sid event r"
proof -
  from channel_id [OF assms(5)] obtain g where
    "derive_id sha (lit ''generation'') (lit ''channel'') [lit ''interaction'', iv_interaction_id v]
       = Inr g" by blast
  with assms have "\<exists>r. interaction_offer sha sid event turn (Some v) reason = Inr r"
    by (cases "lce_kind event")
      (auto simp: interaction_offer_def interaction_payload_def require_identity_def)
  with assms(2) show ?thesis unfolding mirrors_def by metis
qed

lemma offer_close:
  assumes "lce_kind event = INTERACTION_CLOSED" and "lce_interaction event = None"
    and "lce_closed_interaction_id event = Some i" and "i \<noteq> []" and "list_all is_scalar i"
    and "reason \<noteq> []"
  shows "\<exists>r. interaction_offer sha sid event turn None (Some reason) = Inr r \<and> mirrors sha sid event r"
proof -
  from channel_id [OF assms(5)] obtain g where
    "derive_id sha (lit ''generation'') (lit ''channel'') [lit ''interaction'', i] = Inr g" by blast
  with assms have "\<exists>r. interaction_offer sha sid event turn None (Some reason) = Inr r"
    by (auto simp: interaction_offer_def interaction_payload_def require_identity_def)
  with assms(2) show ?thesis unfolding mirrors_def by metis
qed

text \<open>Closing and replacing what is shown always succeeds.\<close>

lemma lc_append_result:
  assumes "lc_append kd v c n l = (e, l')"
  shows "lce_kind e = kd" "lce_interaction e = v" "lce_closed_interaction_id e = c"
    "lc_current l' = lc_current l" "lc_closed l' = lc_closed l" "lce_revision e = lc_revision l'"
  using lc_append_fields [of kd v c n l] assms by simp_all

lemma lc_close_ok:
  assumes "\<not> lc_closed l" and "map_option iv_interaction_id (lc_current l) = Some i"
    and "list_all is_scalar i"
  obtains event l' where "lc_close_interaction i l = Inr (event, l')" "lc_current l' = None"
    "\<not> lc_closed l'" "lce_kind event = INTERACTION_CLOSED" "lce_interaction event = None"
    "lce_closed_interaction_id event = Some i"
proof -
  obtain event l' where a: "lc_append INTERACTION_CLOSED None (Some i)
      (int (length (utf8_bytes i))) (l\<lparr>lc_current := None\<rparr>) = (event, l')" by (rule prod.exhaust)
  with assms have "lc_close_interaction i l = Inr (event, l')"
    by (simp add: lc_close_interaction_def lc_require_open_def utf8_size_def utf8_encode_def)
  with lc_append_result [OF a] assms(1) show thesis by (intro that) simp_all
qed

lemma lc_install_result:
  assumes "lc_install_interaction v x l = Inr (e, l')"
  shows "\<not> lc_closed l'" "lc_current l' = Some v" "lce_interaction e = Some v"
    "lce_revision e = lc_revision l'"
    "lce_kind e = (if lc_current l = None then INTERACTION_OPENED else INTERACTION_REPLACED)"
    "lce_closed_interaction_id e = map_option iv_interaction_id (lc_current l)"
proof -
  from assms obtain n where "\<not> lc_closed l" and
    "lc_append (if lc_current l = None then INTERACTION_OPENED else INTERACTION_REPLACED) (Some v)
       (map_option iv_interaction_id (lc_current l)) n (l\<lparr>lc_current := Some v\<rparr>) = (e, l')"
    by (auto simp: lc_install_interaction_def lc_require_open_def Let_def
        split: sum.splits if_splits)
  from this(1) lc_append_result [OF this(2)] show
    "\<not> lc_closed l'" "lc_current l' = Some v" "lce_interaction e = Some v"
    "lce_revision e = lc_revision l'"
    "lce_kind e = (if lc_current l = None then INTERACTION_OPENED else INTERACTION_REPLACED)"
    "lce_closed_interaction_id e = map_option iv_interaction_id (lc_current l)" by simp_all
qed

lemma lc_replace_ok:
  assumes "lc_run l events" and "\<not> lc_closed l" and "lc_current l = Some v"
  obtains event l' where
    "lc_install_interaction (v\<lparr>iv_decision_in_progress := b\<rparr>) (Some (iv_interaction_id v)) l =
       Inr (event, l')"
proof -
  have "interaction_size (v\<lparr>iv_decision_in_progress := b\<rparr>) l = interaction_size v l"
    by (simp add: interaction_size_def)
  moreover have "is_ok (interaction_size v l)" using lc_run_inv [OF assms(1)] assms(3)
    by (simp add: lc_inv_def)
  ultimately obtain n where "interaction_size (v\<lparr>iv_decision_in_progress := b\<rparr>) l = Inr n"
    by (cases "interaction_size v l") auto
  with assms(2,3) show thesis
    by (intro that [OF prod.collapse [THEN arg_cong, of Inr, symmetric, THEN trans [rotated]]])
      (simp add: lc_install_interaction_def lc_require_open_def)
qed

section \<open>Changes that keep the invariant\<close>

lemma retained_distinct: "queue_inv s \<Longrightarrow> distinct (retained s)"
  by (auto simp: queue_inv_def strict_sorted_iff)

lemma tokens_update:
  "i < length (co_store s) \<Longrightarrow> ca_hooks c = ca_hooks (cand s i) \<Longrightarrow>
   co_store t = (co_store s)[i := c] \<Longrightarrow> tokens t = tokens s"
proof -
  assume "i < length (co_store s)" "ca_hooks c = ca_hooks (cand s i)" "co_store t = (co_store s)[i := c]"
  then have "map ca_hooks (co_store t) = map ca_hooks (co_store s)"
    by (simp add: map_update cand_def list_update_same_conv)
  moreover have "tokens s = map ah_token (List.map_filter id (map ca_hooks (co_store s)))" for s
    by (simp add: tokens_def List.map_filter_def filter_map o_def)
  ultimately show ?thesis by simp
qed

text \<open>One candidate changes and perhaps leaves the queue; nothing else does.\<close>

lemma co_inv_change:
  assumes inv: "co_inv sha D s" and i: "i < length (co_store s)"
    and t: "co_store t = (co_store s)[i := c]" "co_session_id t = co_session_id s"
      "co_discards t = co_discards s" "co_closed t \<longrightarrow> co_controller t = None"
    and live: "live_inv sha t"
    and queue: "retained t = retained s \<or> retained t = remove1 i (retained s)"
      "\<And>j. j \<noteq> i \<Longrightarrow> co_pending t = Some j \<longleftrightarrow> co_pending s = Some j"
    and same: "ca_interaction_id c = ca_interaction_id (cand s i)"
      "ca_hooks c = ca_hooks (cand s i)" "ca_discarded c = ca_discarded (cand s i)"
    and c: "flow_ok (co_pending t = Some i) (i \<in> set (retained t)) c" "write_ok c"
      "hooks_ok (i \<in> D') c" "text_ok c" and D: "D - {i} \<subseteq> D'"
  shows "co_inv sha D' t"
proof -
  have cand: "cand t j = (if j = i then c else cand s j)" for j
    using t(1) i by (simp add: cand_def)
  have ids: "(\<lambda>j. ca_interaction_id (cand t j)) = (\<lambda>j. ca_interaction_id (cand s j))"
    using same(1) by (auto simp: cand)
  have q: "queue_inv s" using inv by (simp add: co_inv_def)
  note dist = retained_distinct [OF q]
  have "queue_inv t"
    using q queue(1) t(1) dist unfolding queue_inv_def ids
    by (auto simp: distinct_remove1_removeAll removeAll_filter_not_eq distinct_map_filter
        sorted_wrt_filter intro: length_filter_le [THEN le_trans])
  moreover have "discard_inv t"
    using co_invD(2) [OF inv] tokens_update [OF i same(2) t(1)] t(1,3) same(2,3)
    by (auto simp: discard_inv_def cand)
  moreover have "cand_inv D' t j" if j: "j < length (co_store t)" for j
  proof (cases "j = i")
    case True
    with c show ?thesis by (simp add: cand_inv_def cand)
  next
    case False
    have "cand_inv D s j" using co_invD(4) [OF inv] j t(1) by simp
    moreover have "j \<in> set (retained t) \<longleftrightarrow> j \<in> set (retained s)" using queue(1) dist False by auto
    moreover have "hooks_ok (j \<in> D) (cand s j) \<Longrightarrow> hooks_ok (j \<in> D') (cand s j)"
      using D False by (auto simp: hooks_ok_def)
    ultimately show ?thesis using queue(2) [OF False] False by (simp add: cand_inv_def cand)
  qed
  ultimately show ?thesis using live t(2,4) co_invD(6) [OF inv] by (simp add: co_inv_def)
qed

text \<open>Changes of a candidate that the live control does not show.\<close>

lemma shown_upd:
  assumes "\<And>c. interaction_view_of (f c) = interaction_view_of c"
    "\<And>c. ca_visible (f c) = ca_visible c" "\<And>c. ca_resolving (f c) = ca_resolving c"
    "\<And>c. ca_form (f c) = ca_form c"
  shows "shown (upd i f s) = shown s"
  using assms by (simp add: shown_def split: option.split)

lemma live_inv_upd:
  assumes "live_inv sha s" and "shown (upd i f s) = shown s"
    and "\<And>c. ca_revision (f c) = ca_revision c" "\<And>c. ca_visible (f c) = ca_visible c"
  shows "live_inv sha (upd i f s)"
  using assms by (auto simp: live_inv_def)

lemma map_filter_inj:
  "distinct (map f (List.map_filter g xs)) \<Longrightarrow> i < length xs \<Longrightarrow> j < length xs \<Longrightarrow> i \<noteq> j \<Longrightarrow>
   g (xs ! i) = Some x \<Longrightarrow> g (xs ! j) = Some y \<Longrightarrow> f x \<noteq> f y"
proof (induction xs arbitrary: i j)
  case Nil
  then show ?case by simp
next
  case (Cons a xs)
  have later: "f z \<in> f ` set (List.map_filter g xs)" if "k < length xs" "g (xs ! k) = Some z" for k z
    using that by (force simp: List.map_filter_def)
  show ?case
  proof (cases "i = 0 \<or> j = 0")
    case True
    with Cons.prems later [of "i - 1" x] later [of "j - 1" y] show ?thesis
      by (auto simp: nth_Cons List.map_filter_simps split: nat.splits)
  next
    case False
    with Cons.prems Cons.IH [of "i - 1" "j - 1"] show ?thesis
      by (auto simp: nth_Cons List.map_filter_simps split: nat.splits option.splits)
  qed
qed

lemma tokens_inj:
  "distinct (tokens s) \<Longrightarrow> i < length (co_store s) \<Longrightarrow> j < length (co_store s) \<Longrightarrow> i \<noteq> j \<Longrightarrow>
   ca_hooks (cand s i) = Some h \<Longrightarrow> ca_hooks (cand s j) = Some k \<Longrightarrow> ah_token h \<noteq> ah_token k"
  unfolding tokens_def cand_def by (rule map_filter_inj)

lemma discard_hooks_frame:
  "retained (discard_hooks i s) = retained s" "co_pending (discard_hooks i s) = co_pending s"
  "co_live (discard_hooks i s) = co_live s" "co_offers (discard_hooks i s) = co_offers s"
  "co_closed (discard_hooks i s) = co_closed s" "co_now (discard_hooks i s) = co_now s"
  "co_controller (discard_hooks i s) = co_controller s"
  "co_session_id (discard_hooks i s) = co_session_id s"
  "length (co_store (discard_hooks i s)) = length (co_store s)"
  "i < length (co_store s) \<Longrightarrow> cand (discard_hooks i s) j =
     (if j = i then (cand s i)\<lparr>ca_discarded := True\<rparr> else cand s j)"
  by (auto simp: discard_hooks_def discard_token_def split: option.split)

lemma hooks_ok_discarded [simp]:
  "hooks_ok e (c\<lparr>ca_discarded := True\<rparr>) \<longleftrightarrow> (ca_form c \<noteq> None \<longrightarrow> ca_hooks c = None)"
  by (auto simp: hooks_ok_def)

lemma co_inv_discard:
  assumes "co_inv sha D s" and i: "i < length (co_store s)"
  shows "co_inv sha (D - {i}) (discard_hooks i s)"
proof -
  let ?t = "discard_hooks i s"
  note frame = discard_hooks_frame [of i s]
  have cand: "cand ?t j = (if j = i then (cand s i)\<lparr>ca_discarded := True\<rparr> else cand s j)" for j
    by (rule frame(10) [OF i])
  have ids: "(\<lambda>j. ca_interaction_id (cand ?t j)) = (\<lambda>j. ca_interaction_id (cand s j))"
    by (auto simp: cand)
  have "queue_inv ?t" using co_invD(1) [OF assms(1)] by (simp add: queue_inv_def ids frame)
  moreover have "shown ?t = shown s"
    by (simp add: shown_def frame cand split: option.split)
  then have "live_inv sha ?t" using co_invD(3) [OF assms(1)] by (simp add: live_inv_def frame cand)
  moreover have "cand_inv (D - {i}) ?t j" if "j < length (co_store s)" for j
    using co_invD(4) [OF assms(1) that] by (cases "j = i") (simp_all add: cand_inv_def frame cand hooks_ok_def [of _ "cand s i"])
  moreover have "discard_inv ?t"
  proof (cases "ca_discarded (cand s i) \<or> ca_hooks (cand s i) = None")
    case True
    then have "tokens ?t = tokens s" "co_discards ?t = co_discards s"
      using tokens_update [OF i, of "(cand s i)\<lparr>ca_discarded := True\<rparr>" ?t]
      by (auto simp: discard_hooks_def discard_token_def upd_def cand_def)
    with True show ?thesis using co_invD(2) [OF assms(1)] by (auto simp: discard_inv_def cand frame)
  next
    case False
    then obtain h where h: "ca_hooks (cand s i) = Some h" "\<not> ca_discarded (cand s i)" by auto
    then have "tokens ?t = tokens s" and d: "co_discards ?t = co_discards s @ [ah_token h]"
      using tokens_update [OF i, of "(cand s i)\<lparr>ca_discarded := True\<rparr>" ?t]
      by (auto simp: discard_hooks_def discard_token_def upd_def cand_def)
    moreover have "ah_token k \<noteq> ah_token h"
      if "j < length (co_store s)" "j \<noteq> i" "ca_hooks (cand s j) = Some k" for j k
      using tokens_inj [OF _ that(1) i that(2,3) h(1)] co_invD(2) [OF assms(1)]
      by (auto simp: discard_inv_def)
    ultimately show ?thesis using h co_invD(2) [OF assms(1)] i
      by (auto simp: discard_inv_def cand frame)
  qed
  ultimately show ?thesis using assms(1) by (auto simp: co_inv_def frame)
qed

section \<open>Leaving the queue\<close>

lemma live_invD:
  assumes "live_inv sha s"
  obtains events where "lc_run (co_live s) events"
    "list_all2 (mirrors sha (co_session_id s)) events (co_offers s)" "\<not> lc_closed (co_live s)"
    "lc_current (co_live s) = shown s"
  using assms by (auto simp: live_inv_def)

lemma shown_id:
  "co_pending s = Some i \<Longrightarrow> map_option iv_interaction_id (shown s) =
     (if ca_visible (cand s i) then Some (ca_interaction_id (cand s i)) else None)"
  by (simp add: shown_def interaction_view_of_def)

lemma close_pending:
  assumes p: "co_pending s = Some i" and ok: "text_ok (cand s i)" and reason: "reason \<noteq> []"
    and run: "lc_run (co_live s) events"
      "list_all2 (mirrors sha (co_session_id s)) events (co_offers s)" "\<not> lc_closed (co_live s)"
    and cur: "map_option iv_interaction_id (lc_current (co_live s)) =
      (if ca_visible (cand s i) then Some (ca_interaction_id (cand s i)) else None)"
  obtains l os where
    "close_candidate sha i reason s = (Inr (), s\<lparr>co_live := l, co_offers := os, co_pending := None\<rparr>)"
    "live_inv sha (s\<lparr>co_live := l, co_offers := os, co_pending := None\<rparr>)"
proof (cases "ca_visible (cand s i)")
  case True
  note ids = text_okD [OF ok]
  from True cur have "map_option iv_interaction_id (lc_current (co_live s)) =
      Some (ca_interaction_id (cand s i))" by simp
  from lc_close_ok [OF run(3) this ids(2)] obtain event l where
    e: "lc_close_interaction (ca_interaction_id (cand s i)) (co_live s) = Inr (event, l)"
      "lc_current l = None" "\<not> lc_closed l" "lce_kind event = INTERACTION_CLOSED"
      "lce_interaction event = None"
      "lce_closed_interaction_id event = Some (ca_interaction_id (cand s i))" .
  from offer_close [OF e(4-6) ids(1,2) reason] obtain r where
    r: "interaction_offer sha (co_session_id s) event (ca_turn_id (cand s i)) None (Some reason) = Inr r"
      "mirrors sha (co_session_id s) event r" by blast
  have "lc_run l (events @ [event])" by (rule lc_run_close_interaction [OF run(1) e(1)])
  moreover have "list_all2 (mirrors sha (co_session_id s)) (events @ [event]) (co_offers s @ [r])"
    using run(2) r(2) by (simp add: list_all2_appendI)
  ultimately have "live_inv sha (s\<lparr>co_live := l, co_offers := co_offers s @ [r], co_pending := None\<rparr>)"
    using e(2,3) by (auto simp: live_inv_def shown_def)
  moreover have "close_candidate sha i reason s =
      (Inr (), s\<lparr>co_live := l, co_offers := co_offers s @ [r], co_pending := None\<rparr>)"
    using p True e(1) r(1)
    by (simp add: close_candidate_def co_bind_def offer_interaction_event_def)
  ultimately show thesis using that by blast
next
  case False
  with cur have "lc_current (co_live s) = None" by simp
  with run have "live_inv sha (s\<lparr>co_pending := None\<rparr>)" by (auto simp: live_inv_def shown_def)
  with p False that [where l = "co_live s" and os = "co_offers s"] show thesis by (simp add: close_candidate_def)
qed

lemma close_other:
  "co_pending s \<noteq> Some i \<Longrightarrow>
   close_candidate sha i reason s = (Inr (), s\<lparr>co_dormant := remove1 i (co_dormant s)\<rparr>)"
  by (simp add: close_candidate_def)

text \<open>The state after a candidate has left the queue.\<close>

definition left_queue :: "nat \<Rightarrow> coordinator \<Rightarrow> coordinator \<Rightarrow> bool" where
  "left_queue i s t \<longleftrightarrow>
     (\<exists>l os p d. t = s\<lparr>co_live := l, co_offers := os, co_pending := p, co_dormant := d\<rparr> \<and>
        retained t = remove1 i (retained s) \<and> co_pending t \<noteq> Some i \<and>
        (\<forall>j. j \<noteq> i \<longrightarrow> (co_pending t = Some j \<longleftrightarrow> co_pending s = Some j)))"

lemma close_leaves:
  assumes dist: "distinct (retained s)" and ok: "text_ok (cand s i)" and reason: "reason \<noteq> []"
    and live: "live_inv sha s"
  obtains t where "close_candidate sha i reason s = (Inr (), t)" "left_queue i s t" "live_inv sha t"
proof (cases "co_pending s = Some i")
  case True
  from live_invD [OF live] obtain events where e: "lc_run (co_live s) events"
    "list_all2 (mirrors sha (co_session_id s)) events (co_offers s)" "\<not> lc_closed (co_live s)"
    "lc_current (co_live s) = shown s" .
  from close_pending [OF True ok reason e(1-3), unfolded e(4), OF shown_id [OF True]]
  obtain l os where c: "close_candidate sha i reason s =
      (Inr (), s\<lparr>co_live := l, co_offers := os, co_pending := None\<rparr>)"
    "live_inv sha (s\<lparr>co_live := l, co_offers := os, co_pending := None\<rparr>)" .
  have "left_queue i s (s\<lparr>co_live := l, co_offers := os, co_pending := None\<rparr>)"
    unfolding left_queue_def using True
    by (intro exI [of _ l] exI [of _ os] exI [of _ None] exI [of _ "co_dormant s"])
      (simp add: retained_def)
  with c that show thesis by blast
next
  case False
  have "left_queue i s (s\<lparr>co_dormant := remove1 i (co_dormant s)\<rparr>)"
    unfolding left_queue_def using False dist
    by (intro exI [of _ "co_live s"] exI [of _ "co_offers s"] exI [of _ "co_pending s"]
        exI [of _ "remove1 i (co_dormant s)"])
      (auto simp: retained_def split: option.split)
  moreover have "shown (s\<lparr>co_dormant := remove1 i (co_dormant s)\<rparr>) = shown s"
    by (simp add: shown_def split: option.split)
  then have "live_inv sha (s\<lparr>co_dormant := remove1 i (co_dormant s)\<rparr>)"
    using live by (simp add: live_inv_def)
  ultimately show thesis using that close_other [OF False] by blast
qed

lemma left_queue_frame:
  assumes "left_queue i s t"
  shows "co_store t = co_store s" "cand t = cand s" "co_session_id t = co_session_id s"
    "co_discards t = co_discards s" "co_closed t = co_closed s"
    "co_controller t = co_controller s" "co_now t = co_now s"
    "retained t = remove1 i (retained s)" "co_pending t \<noteq> Some i"
    "j \<noteq> i \<Longrightarrow> co_pending t = Some j \<longleftrightarrow> co_pending s = Some j"
  using assms by (auto simp: left_queue_def cand_def)

lemma upd_store: "i < length (co_store s) \<Longrightarrow> co_store (upd i f s) = (co_store s)[i := f (cand s i)]"
  by (simp add: upd_def cand_def)

lemma set_outcome_upd: "set_outcome i v s = upd i (\<lambda>c. c\<lparr>ca_outcome :=
    (if ca_outcome c = None then Some v else ca_outcome c)\<rparr>) s"
proof -
  have "c\<lparr>ca_outcome := ca_outcome c\<rparr> = c" for c :: pending_tool_interaction by (cases c) simp
  then show ?thesis by (simp add: set_outcome_def upd_def cand_def)
qed

lemma upd_upd: "upd i f (upd i g s) = upd i (f \<circ> g) s"
  by (cases "i < length (co_store s)") (simp_all add: upd_def list_update_beyond)

text \<open>An answered candidate that is not resolving may stand anywhere outside the queue.\<close>

lemma co_inv_leave:
  assumes inv: "co_inv sha D s" and i: "i < length (co_store s)"
    and left: "left_queue i (upd i g s) t" and live: "live_inv sha t"
    and same: "\<And>c. ca_interaction_id (f c) = ca_interaction_id c" "\<And>c. ca_hooks (f c) = ca_hooks c"
      "\<And>c. ca_discarded (f c) = ca_discarded c" "\<And>c. interaction_view_of (f c) = interaction_view_of c"
      "\<And>c. ca_interaction_id (g c) = ca_interaction_id c" "\<And>c. ca_hooks (g c) = ca_hooks c"
      "\<And>c. ca_discarded (g c) = ca_discarded c"
    and c: "flow_ok False False (f (g (cand s i)))" "write_ok (f (g (cand s i)))"
      "text_ok (f (g (cand s i)))" "ca_form (f (g (cand s i))) = ca_form (cand s i)"
    and h: "allowed (ca_outcome (f (g (cand s i)))) \<or> i \<in> D'" and D: "D - {i} \<subseteq> D'"
  shows "co_inv sha D' (upd i f t)"
proof -
  note fr = left_queue_frame [OF left]
  have dist: "distinct (retained s)" using inv retained_distinct by (auto simp: co_inv_def)
  have st: "co_store (upd i f t) = (co_store s)[i := f (g (cand s i))]"
    using i by (simp add: upd_store fr)
  have cl: "co_closed (upd i f t) \<longrightarrow> co_controller (upd i f t) = None"
    using co_invD(5) [OF inv] by (simp add: fr)
  have "shown (upd i f t) = shown t" using fr(9) by (simp add: shown_def split: option.split)
  then have li: "live_inv sha (upd i f t)" using live fr(9) by (auto simp: live_inv_def)
  have "hooks_ok (i \<in> D) (cand s i)" using co_invD(4) [OF inv i] by (simp add: cand_inv_def)
  then have "hooks_ok (i \<in> D') (f (g (cand s i)))"
    using h c(4) same(2,6) by (auto simp: hooks_ok_def)
  then show ?thesis
    by (intro co_inv_change [OF inv i st _ _ cl li]) (simp_all add: fr same c dist D)
qed

section \<open>Invalidation\<close>

definition reason_for :: "coordinator \<Rightarrow> nat \<Rightarrow> pystr \<times> pystr \<Rightarrow> pystr \<times> pystr" where
  "reason_for s i reason = (case ca_invalidation (cand s i) of None \<Rightarrow> reason | Some r \<Rightarrow> r)"

lemma reason_for_text:
  "text_ok (cand s i) \<Longrightarrow> fst reason \<noteq> [] \<Longrightarrow> fst (reason_for s i reason) \<noteq> []"
  by (auto simp: reason_for_def text_ok_def split: option.split)

text \<open>A candidate whose settlement or form is running is only marked.\<close>

lemma invalidate_resolving:
  assumes inv: "co_inv sha D s" and i: "i < length (co_store s)" and r: "ca_resolving (cand s i)"
    and reason: "fst reason \<noteq> []"
  shows "\<exists>t. invalidate sha i reason s = (Inr (), t) \<and> co_inv sha D t \<and> retained t = retained s \<and>
     length (co_store t) = length (co_store s) \<and>
     (\<forall>j. ca_resolving (cand t j) = ca_resolving (cand s j))"
proof -
  define f :: "pending_tool_interaction \<Rightarrow> pending_tool_interaction" where "f = (\<lambda>c. c\<lparr>ca_invalidation := Some (reason_for s i reason),
      ca_form_cancelled := (ca_form c \<noteq> None \<or> ca_form_cancelled c)\<rparr>)"
  have "(c::pending_tool_interaction)\<lparr>ca_form_cancelled := ca_form_cancelled c\<rparr> = c" for c by (cases c) simp
  then have e: "invalidate sha i reason s = (Inr (), upd i f s)"
    using r i by (auto simp: invalidate_def Let_def reason_for_def upd_upd f_def upd_def cand_def)
  have ci: "cand_inv D s i" by (rule co_invD(4) [OF inv i])
  have ok: "text_ok (f (cand s i))"
    using ci reason_for_text [OF _ reason, of s i] by (simp add: cand_inv_def text_ok_def f_def)
  have "shown (upd i f s) = shown s"
    by (rule shown_upd) (simp_all add: f_def)
  then have "live_inv sha (upd i f s)"
    by (intro live_inv_upd [OF co_invD(3) [OF inv]]) (simp_all add: f_def)
  then have "co_inv sha D (upd i f s)"
    using ci r ok co_invD(5) [OF inv]
    by (intro co_inv_change [OF inv i upd_store [OF i]])
      (auto simp: f_def cand_inv_def flow_ok_def write_ok_def hooks_ok_def)
  with e i show ?thesis by (auto simp: f_def)
qed

text \<open>Any other candidate leaves the queue, denied unless it was answered before.\<close>

lemma invalidate_idle:
  assumes inv: "co_inv sha D s" and i: "i < length (co_store s)" and r: "\<not> ca_resolving (cand s i)"
    and reason: "fst reason \<noteq> []"
  shows "\<exists>t. invalidate sha i reason s = (Inr (), t) \<and> co_inv sha (insert i D) t \<and>
     retained t = remove1 i (retained s) \<and> length (co_store t) = length (co_store s) \<and>
     (\<forall>j. ca_resolving (cand t j) = ca_resolving (cand s j))"
proof -
  define g :: "pending_tool_interaction \<Rightarrow> pending_tool_interaction" where
    "g = ca_invalidation_update (\<lambda>_. Some (reason_for s i reason))"
  define v where "v = Answered (plain_resolution (lit ''DENY'') (fst (reason_for s i reason))
      (snd (reason_for s i reason)))"
  define f :: "pending_tool_interaction \<Rightarrow> pending_tool_interaction" where "f = (\<lambda>c. c\<lparr>ca_outcome := (if ca_outcome c = None then Some v else ca_outcome c),
      ca_settled := True\<rparr>)"
  have ci: "cand_inv D s i" by (rule co_invD(4) [OF inv i])
  then have why: "fst (reason_for s i reason) \<noteq> []"
    using reason_for_text [OF _ reason] by (simp add: cand_inv_def)
  have ok: "text_ok (g (cand s i))" using ci why by (simp add: cand_inv_def text_ok_def g_def)
  have "shown (upd i g s) = shown s"
    by (rule shown_upd) (simp_all add: g_def)
  then have live: "live_inv sha (upd i g s)"
    by (intro live_inv_upd [OF co_invD(3) [OF inv]]) (simp_all add: g_def)
  have dist: "distinct (retained (upd i g s))"
    using retained_distinct [OF co_invD(1) [OF inv]] by simp
  have "text_ok (cand (upd i g s) i)" using ok i by simp
  from close_leaves [OF dist this why live] obtain t where
    t: "close_candidate sha i (fst (reason_for s i reason)) (upd i g s) = (Inr (), t)"
      "left_queue i (upd i g s) t" "live_inv sha t" .
  have "upd i (ca_settled_update (\<lambda>_. True)) (set_outcome i v t) = upd i f t"
    by (simp add: set_outcome_upd upd_upd f_def o_def)
  then have e: "invalidate sha i reason s = (Inr (), upd i f t)"
    using r t(1) by (simp add: invalidate_def Let_def co_bind_def g_def v_def flip: reason_for_def)
  have "co_inv sha (insert i D) (upd i f t)"
  proof (rule co_inv_leave [OF inv i t(2,3)])
    show "flow_ok False False (f (g (cand s i)))"
      using ci r by (auto simp: cand_inv_def flow_ok_def f_def g_def)
    show "write_ok (f (g (cand s i)))"
      using ci r by (auto simp: cand_inv_def write_ok_def f_def g_def v_def allowed_def
          plain_resolution_def)
    show "text_ok (f (g (cand s i)))" using ok by (simp add: text_ok_def f_def)
  qed (auto simp: f_def g_def)
  moreover have "ca_resolving (cand (upd i f t) j) = ca_resolving (cand s j)" for j
    using i by (simp add: left_queue_frame [OF t(2)] f_def g_def)
  ultimately show ?thesis using e left_queue_frame [OF t(2)] by (intro exI [of _ "upd i f t"]) simp
qed

lemma invalidate_inv:
  assumes "co_inv sha D s" and "i < length (co_store s)" and "fst reason \<noteq> []"
  obtains t where "invalidate sha i reason s = (Inr (), t)"
    "co_inv sha (if ca_resolving (cand s i) then D else insert i D) t"
    "retained t = (if ca_resolving (cand s i) then retained s else remove1 i (retained s))"
    "length (co_store t) = length (co_store s)"
    "\<And>j. ca_resolving (cand t j) = ca_resolving (cand s j)"
  using invalidate_resolving [OF assms(1,2) _ assms(3)] invalidate_idle [OF assms(1,2) _ assms(3)]
  by (cases "ca_resolving (cand s i)") auto

lemma co_inv_subset: "co_inv sha D s \<Longrightarrow> D \<subseteq> E \<Longrightarrow> co_inv sha E s"
  unfolding co_inv_def cand_inv_def hooks_ok_def by blast

text \<open>Invalidation followed by the discard of the hooks.\<close>

lemma invalidate_discard:
  assumes "co_inv sha {} s" and "i < length (co_store s)" and "fst reason \<noteq> []"
  obtains t where "invalidate sha i reason s = (Inr (), t)" "co_inv sha {} (discard_hooks i t)"
    "i < length (co_store t)"
    "retained t = (if ca_resolving (cand s i) then retained s else remove1 i (retained s))"
proof -
  from invalidate_inv [OF assms] obtain t where t: "invalidate sha i reason s = (Inr (), t)"
    "co_inv sha (if ca_resolving (cand s i) then {} else insert i {}) t"
    "length (co_store t) = length (co_store s)"
    "retained t = (if ca_resolving (cand s i) then retained s else remove1 i (retained s))" by metis
  from co_inv_discard [OF t(2), of i] assms(2) t(3) have "co_inv sha {} (discard_hooks i t)"
    by (auto split: if_splits)
  with that t(1,3,4) assms(2) show thesis by simp
qed

definition idle :: "coordinator \<Rightarrow> nat list \<Rightarrow> nat set" where
  "idle s is = {i \<in> set is. \<not> ca_resolving (cand s i)}"

lemma idle_simps [simp]:
  "idle s [] = {}"
  "idle s (i # is) = (if ca_resolving (cand s i) then idle s is else insert i (idle s is))"
  by (auto simp: idle_def)

lemma invalidate_each_inv:
  assumes "co_inv sha D s" and "\<forall>i \<in> set is. i < length (co_store s)" and "fst reason \<noteq> []"
  shows "\<exists>t. invalidate_each sha reason is s = (Inr (), t) \<and> co_inv sha (D \<union> idle s is) t \<and>
     set (retained t) = set (retained s) - idle s is \<and>
     length (co_store t) = length (co_store s) \<and>
     (\<forall>j. ca_resolving (cand t j) = ca_resolving (cand s j))"
  using assms(1,2)
proof (induction "is" arbitrary: s D)
  case Nil
  then show ?case by simp
next
  case (Cons i rest)
  from Cons.prems have i: "i < length (co_store s)" by simp
  from invalidate_inv [OF Cons.prems(1) i assms(3)] obtain t where
    t: "invalidate sha i reason s = (Inr (), t)"
      "co_inv sha (if ca_resolving (cand s i) then D else insert i D) t"
      "retained t = (if ca_resolving (cand s i) then retained s else remove1 i (retained s))"
      "length (co_store t) = length (co_store s)"
      "\<And>j. ca_resolving (cand t j) = ca_resolving (cand s j)" by metis
  have idle: "idle t rest = idle s rest" by (simp add: idle_def t(5))
  from Cons.IH [OF t(2)] Cons.prems(2) t(4) obtain u where
    u: "invalidate_each sha reason rest t = (Inr (), u)"
      "co_inv sha ((if ca_resolving (cand s i) then D else insert i D) \<union> idle s rest) u"
      "set (retained u) = set (retained t) - idle s rest"
      "length (co_store u) = length (co_store s)"
      "\<forall>j. ca_resolving (cand u j) = ca_resolving (cand s j)"
    unfolding idle by (auto simp: t(4,5))
  have "set (retained t) = (if ca_resolving (cand s i) then set (retained s) else set (retained s) - {i})"
    using retained_distinct [OF co_invD(1) [OF Cons.prems(1)]] t(3) by simp
  with u t(1) show ?case
    by (intro exI [of _ u]) (auto simp: co_bind_def split: if_splits)
qed

lemma discard_idle_inv:
  assumes "co_inv sha E s" and "\<forall>i \<in> set is. i < length (co_store s)"
  shows "co_inv sha (E - idle s is) (discard_idle is s) \<and> retained (discard_idle is s) = retained s \<and>
     (\<forall>j. ca_resolving (cand (discard_idle is s) j) = ca_resolving (cand s j))"
  using assms
proof (induction "is" arbitrary: s E)
  case Nil
  then show ?case by simp
next
  case (Cons i rest)
  let ?t = "if ca_resolving (cand s i) then s else discard_hooks i s"
  have res: "ca_resolving (cand ?t j) = ca_resolving (cand s j)" for j
    using Cons.prems(2) by (simp add: discard_hooks_frame)
  then have idle: "idle ?t rest = idle s rest" by (simp add: idle_def)
  have "co_inv sha (E - (if ca_resolving (cand s i) then {} else {i})) ?t"
    using co_inv_discard [OF Cons.prems(1), of i] Cons.prems by simp
  from Cons.IH [OF this] Cons.prems(2) have
    "co_inv sha (E - (if ca_resolving (cand s i) then {} else {i}) - idle s rest) (discard_idle rest ?t)"
    "retained (discard_idle rest ?t) = retained ?t"
    "\<forall>j. ca_resolving (cand (discard_idle rest ?t) j) = ca_resolving (cand s j)"
    unfolding idle by (auto simp: discard_hooks_frame res)
  moreover have "E - (if ca_resolving (cand s i) then {} else {i}) - idle s rest = E - idle s (i # rest)"
    by auto
  moreover have "retained ?t = retained s" by (simp add: discard_hooks_frame)
  ultimately show ?case by (simp add: discard_idle.simps)
qed

lemma invalidate_all_inv:
  assumes "co_inv sha {} s" and "\<forall>i \<in> set is. i < length (co_store s)" and "fst reason \<noteq> []"
  obtains t where "invalidate_all sha reason is s = (Inr (), t)" "co_inv sha {} t"
    "set (retained t) = set (retained s) - idle s is"
    "\<And>j. ca_resolving (cand t j) = ca_resolving (cand s j)"
proof -
  from invalidate_each_inv [OF assms] obtain t where
    t: "invalidate_each sha reason is s = (Inr (), t)" "co_inv sha (idle s is) t"
      "set (retained t) = set (retained s) - idle s is"
      "length (co_store t) = length (co_store s)"
      "\<forall>j. ca_resolving (cand t j) = ca_resolving (cand s j)" by auto
  have "idle t is = idle s is" by (simp add: idle_def t(5))
  with discard_idle_inv [OF t(2), of "is"] assms(2) t show thesis
    by (intro that [of "discard_idle is t"]) (auto simp: invalidate_all_def co_bind_def)
qed

section \<open>Every operation keeps the invariant\<close>

lemma shown_frame:
  "co_pending t = co_pending s \<Longrightarrow> cand t = cand s \<Longrightarrow> shown t = shown s"
  by (simp add: shown_def split: option.split)

text \<open>Changes of the controller, the clock and the closed flag.\<close>

lemma co_inv_same:
  assumes "co_inv sha D s" and "co_store t = co_store s" "co_pending t = co_pending s"
    "co_dormant t = co_dormant s" "co_session_id t = co_session_id s"
    "co_discards t = co_discards s" "co_live t = co_live s" "co_offers t = co_offers s"
    "co_closed t \<longrightarrow> co_controller t = None"
  shows "co_inv sha D t"
proof -
  have "cand t = cand s" using assms(2) by (simp add: cand_def fun_eq_iff)
  moreover have "retained t = retained s" using assms(3,4) by (simp add: retained_def)
  moreover have "tokens t = tokens s" using assms(2) by (simp add: tokens_def)
  moreover have "shown t = shown s" by (rule shown_frame) (fact assms(3) calculation(1))+
  ultimately show ?thesis using assms
    by (simp add: co_inv_def queue_inv_def discard_inv_def live_inv_def cand_inv_def)
qed

lemma attach_inv: "co_inv sha D s \<Longrightarrow> co_inv sha D (snd (attach_controller a s))"
  by (rule co_inv_same, assumption) (auto simp: attach_controller_def co_inv_def)

lemma detach_inv: "co_inv sha D s \<Longrightarrow> co_inv sha D (snd (detach_controller a s))"
  by (rule co_inv_same, assumption) (auto simp: detach_controller_def co_inv_def)

lemma close_owner_inv: "co_inv sha D s \<Longrightarrow> co_inv sha D (close_owner s)"
  by (rule co_inv_same, assumption) (auto simp: close_owner_def co_inv_def)

lemma tick_inv: "co_inv sha D s \<Longrightarrow> co_inv sha D (s\<lparr>co_now := n\<rparr>)"
  by (rule co_inv_same, assumption) (auto simp: co_inv_def)

text \<open>A new candidate joins the end of the queue.\<close>

lemma cand_append [simp]:
  "j < length (co_store s) \<Longrightarrow> cand (s\<lparr>co_store := co_store s @ [c]\<rparr>) j = cand s j"
  "cand (s\<lparr>co_store := co_store s @ [c]\<rparr>) (length (co_store s)) = c"
  by (simp_all add: cand_def nth_append)

lemma tokens_append: "co_store t = co_store s @ [c] \<Longrightarrow>
   tokens t = tokens s @ (case ca_hooks c of None \<Rightarrow> [] | Some h \<Rightarrow> [ah_token h])"
  by (simp add: tokens_def List.map_filter_def split: option.split)

lemma request_inv:
  assumes inv: "co_inv sha {} s" and w: "op_promised (Op_Request rq is rs as) s"
    and r: "request sha rq is rs as s = Some (v, t)"
  shows "co_inv sha {} t"
proof (cases "request_denial rq s")
  case (Some x)
  with r have t: "t = discard_token (rq_hooks rq) s" by (simp add: request_def)
  show ?thesis
  proof (cases "rq_hooks rq")
    case None
    with t inv show ?thesis by (simp add: discard_token_def)
  next
    case (Some h)
    then have t: "t = s\<lparr>co_discards := co_discards s @ [ah_token h]\<rparr>" using t
      by (simp add: discard_token_def)
    have new: "ah_token h \<notin> set (tokens s) \<union> set (co_discards s)" using w Some by simp
    have "ah_token k \<in> set (tokens s)" if "i < length (co_store s)" "ca_hooks (cand s i) = Some k" for i k
      using that by (force simp: tokens_def List.map_filter_def cand_def)
    with new have "ah_token k \<noteq> ah_token h"
      if "i < length (co_store s)" "ca_hooks (cand s i) = Some k" for i k using that by fastforce
    with new co_invD(2) [OF inv] have "discard_inv t"
      by (auto simp: discard_inv_def t tokens_def)
    moreover have "shown t = shown s" by (rule shown_frame) (simp_all add: t)
    ultimately show ?thesis using inv
      by (simp add: co_inv_def t queue_inv_def live_inv_def cand_inv_def)
  qed
next
  case None
  let ?n = "length (co_store s)"
  from r None obtain e i re a where
    d: "draw_fresh (map ca_interaction_id (map (cand s) (retained s))) is = Some i"
    and t: "t = s \<or> t = s\<lparr>co_store := co_store s @ [new_candidate rq i re e a (co_now s)],
      co_dormant := co_dormant s @ [?n]\<rparr>"
    by (auto simp: request_def Let_def split: option.splits sum.splits)
  let ?c = "new_candidate rq i re e a (co_now s)"
  let ?t = "s\<lparr>co_store := co_store s @ [?c], co_dormant := co_dormant s @ [?n]\<rparr>"
  note new = draw_fresh_new [OF d]
  have ret: "retained ?t = retained s @ [?n]" by (simp add: retained_def)
  have less: "\<forall>j \<in> set (retained s). j < ?n" using retained_less [OF inv] by blast
  then have ids: "map (\<lambda>j. ca_interaction_id (cand (s\<lparr>co_store := co_store s @ [?c]\<rparr>) j)) (retained s) =
      map (\<lambda>j. ca_interaction_id (cand s j)) (retained s)"
    by simp
  have cap: "length (retained s) < maximum_dormant_interaction_candidates"
    using None by (auto simp: request_denial_def retained_def split: if_splits option.split)
  have q: "queue_inv ?t"
    using co_invD(1) [OF inv] less cap new unfolding queue_inv_def ret
    by (auto simp: sorted_wrt_append ids) (auto simp: new_candidate_def)
  have disc: "discard_inv ?t"
    using co_invD(2) [OF inv] w tokens_append [of ?t s ?c]
    by (auto simp: discard_inv_def less_Suc_eq new_candidate_def split: option.splits)
  have pend: "co_pending s = Some j \<Longrightarrow> j < ?n" for j using pending_less [OF inv] .
  have "shown ?t = shown s"
    using pend by (auto simp: shown_def split: option.split)
  then have live: "live_inv sha ?t"
    using co_invD(3) [OF inv] pend by (auto simp: live_inv_def)
  have "cand_inv {} ?t j" if j: "j < Suc ?n" for j
  proof (cases "j = ?n")
    case True
    moreover have "flow_ok False True ?c" "write_ok ?c"
      by (simp_all add: new_candidate_def flow_ok_def write_ok_def allowed_def)
    moreover have "hooks_ok False ?c" "text_ok ?c"
      using w new
      by (auto simp: new_candidate_def hooks_ok_def text_ok_def drawn_def split: option.splits)
    moreover have "co_pending s \<noteq> Some ?n" using pend [of ?n] by auto
    ultimately show ?thesis by (simp add: cand_inv_def ret)
  next
    case False
    with j have "j < ?n" by simp
    with co_invD(4) [OF inv this] show ?thesis by (simp add: cand_inv_def ret)
  qed
  then have "co_inv sha {} ?t" using q disc live inv by (simp add: co_inv_def)
  with t inv show ?thesis by blast
qed

text \<open>Promotion.\<close>

lemma flow_ok_mono: "flow_ok p r c \<Longrightarrow> p \<longrightarrow> q \<Longrightarrow> flow_ok q r c"
  unfolding flow_ok_def by blast

lemma promote_head_inv:
  assumes inv: "co_inv sha D s" and h: "promote_head s = Some (i, t)"
  shows "co_inv sha D t \<and> co_pending t = Some i \<and> i < length (co_store t)"
proof (cases "co_pending s")
  case (Some j)
  with h inv show ?thesis using pending_less [OF inv] by (auto simp: promote_head_def)
next
  case None
  with h obtain rest where d: "co_dormant s = i # rest"
    and t: "t = s\<lparr>co_dormant := rest, co_pending := Some i\<rparr>"
    by (auto simp: promote_head_def split: list.splits)
  have ret: "retained t = retained s" using None d by (simp add: retained_def t)
  have i: "i < length (co_store s)" using retained_less [OF inv, of i] None d by (simp add: retained_def)
  have "cand_inv D s i" by (rule co_invD(4) [OF inv i])
  then have vis: "\<not> ca_visible (cand s i)"
    using None d by (auto simp: cand_inv_def flow_ok_def retained_def)
  then have "shown t = shown s" using None by (simp add: shown_def t)
  then have "live_inv sha t" using co_invD(3) [OF inv] vis by (simp add: live_inv_def t)
  moreover have "cand_inv D t j" if "j < length (co_store s)" for j
    using co_invD(4) [OF inv that] None flow_ok_mono [of False _ "cand s j" "i = j"]
    by (simp add: cand_inv_def t ret [unfolded t])
  moreover have "queue_inv t" "discard_inv t" using co_invD(1,2) [OF inv] ret
    by (simp_all add: queue_inv_def discard_inv_def t tokens_def)
  ultimately show ?thesis using inv i by (simp add: co_inv_def t)
qed

lemma release_inv:
  assumes inv: "co_inv sha D s" and i: "i < length (co_store s)"
  shows "co_inv sha D (promote_release i s)"
proof -
  have "live_inv sha (promote_release i s)"
    unfolding promote_release_def
    by (intro live_inv_upd [OF co_invD(3) [OF inv]] shown_upd) simp_all
  with co_invD(4) [OF inv i] co_invD(5) [OF inv] show ?thesis
    unfolding promote_release_def
    by (intro co_inv_change [OF inv i upd_store [OF i]])
      (simp_all add: cand_inv_def, auto simp: flow_ok_def)
qed

lemma invalidation_text: "text_ok (cand s i) \<Longrightarrow> invalidation i s = Some r \<Longrightarrow> fst r \<noteq> []"
  by (auto simp: invalidation_def text_ok_def split: if_splits)

text \<open>Where a promotion may rest: someone else will go on, or there is nothing to promote.\<close>

definition promoted :: "coordinator \<Rightarrow> bool" where
  "promoted t \<longleftrightarrow> \<not> has_controller t \<or> retained t = [] \<or>
     (\<exists>i. co_pending t = Some i \<and> (ca_visible (cand t i) \<or> ca_promoting (cand t i)))"

lemma pending_flow:
  assumes "co_inv sha D s" and "co_pending s = Some i"
  shows "i < length (co_store s)" "i \<in> set (retained s)" "cand_inv D s i"
    "flow_ok True True (cand s i)" "text_ok (cand s i)"
    "\<not> ca_visible (cand s i) \<Longrightarrow> \<not> ca_resolving (cand s i)"
    "length (remove1 i (retained s)) < length (retained s)"
proof -
  show i: "i < length (co_store s)" and r: "i \<in> set (retained s)"
    using pending_less [OF assms] pending_retained [OF assms(2)] by auto
  show c: "cand_inv D s i" by (rule co_invD(4) [OF assms(1) i])
  with r assms(2) show "flow_ok True True (cand s i)" "text_ok (cand s i)"
    by (auto simp: cand_inv_def)
  then show "\<not> ca_visible (cand s i) \<Longrightarrow> \<not> ca_resolving (cand s i)" by (auto simp: flow_ok_def)
  show "length (remove1 i (retained s)) < length (retained s)"
    using r length_pos_if_in_set [OF r] by (simp add: length_remove1)
qed

lemma promote_select_ok:
  assumes inv: "co_inv sha {} s"
  obtains p t where "promote_select sha raised s = (Inr p, t)" "co_inv sha {} t"
    "case p of Promotion_Stop \<Rightarrow> promoted t
     | Promotion_Again \<Rightarrow> length (retained t) < length (retained s)
     | Promotion_Chosen i \<Rightarrow> co_pending t = Some i \<and> in_promotion i t \<and>
         \<not> ca_visible (cand t i) \<and> length (retained t) = length (retained s)"
proof (cases "promote_head s")
  case None
  then have "retained s = []" by (auto simp: promote_head_def retained_def split: option.splits list.splits)
  with None inv that [of Promotion_Stop s] show thesis by (simp add: promote_select_def promoted_def)
next
  case (Some x)
  obtain i t where x: "x = (i, t)" by (cases x)
  from promote_head_inv [OF inv] Some x have t: "co_inv sha {} t" "co_pending t = Some i"
    "i < length (co_store t)" by auto
  have ret: "retained t = retained s" using Some x
    by (auto simp: promote_head_def retained_def split: option.splits list.splits)
  note f = pending_flow [OF t(1,2)]
  consider "\<not> has_controller s" | "has_controller s" "ca_visible (cand t i) \<or> ca_promoting (cand t i)"
    | "has_controller s" "\<not> ca_visible (cand t i)" "\<not> ca_promoting (cand t i)" "invalidation i t = None"
    | r where "has_controller s" "\<not> ca_visible (cand t i)" "\<not> ca_promoting (cand t i)"
        "invalidation i t = Some r" by fastforce
  then show thesis
  proof cases
    case 1
    with inv that [of Promotion_Stop s] show thesis by (simp add: promote_select_def promoted_def)
  next
    case 2
    with t Some x that [of Promotion_Stop t] show thesis
      by (auto simp: promote_select_def has_controller_def promoted_def)
  next
    case 3
    let ?f = "\<lambda>c. c\<lparr>ca_promoting := True,
        ca_raised := (if ca_admitted c \<or> ca_hooks c = None then None else raised),
        ca_admitted := (ca_admitted c \<or> ca_hooks c = None \<or> raised = None)\<rparr>"
    have "live_inv sha (upd i ?f t)"
      by (intro live_inv_upd [OF co_invD(3) [OF t(1)]] shown_upd) simp_all
    moreover have "flow_ok True True (?f (cand t i))"
      using f(4) 3 by (simp add: flow_ok_def) auto
    ultimately have "co_inv sha {} (upd i ?f t)"
      using f(2,3) co_invD(5) [OF t(1)] t(2)
      by (intro co_inv_change [OF t(1,3) upd_store [OF t(3)]]) (simp_all add: cand_inv_def)
    with 3 Some x t ret that [of "Promotion_Chosen i" "upd i ?f t"] show thesis
      by (auto simp: promote_select_def in_promotion_def has_controller_def)
  next
    case (4 r)
    have "fst r \<noteq> []" by (rule invalidation_text [OF f(5) 4(4)])
    from invalidate_discard [OF t(1,3) this] obtain u where
      "invalidate sha i r t = (Inr (), u)" "co_inv sha {} (discard_hooks i u)"
      "retained u = (if ca_resolving (cand t i) then retained t else remove1 i (retained t))" by blast
    with 4 f(6,7) Some x ret that [of Promotion_Again "discard_hooks i u"] show thesis
      by (auto simp: promote_select_def co_bind_def has_controller_def discard_hooks_frame)
  qed
qed

lemma promote_select_inv:
  "co_inv sha {} s \<Longrightarrow> co_inv sha {} (snd (promote_select sha raised s))"
  using promote_select_ok by (metis snd_conv)

text \<open>The publication shows the candidate and offers the opening.\<close>

lemma publish_shown:
  assumes inv: "co_inv sha {} s" and p: "co_pending s = Some i" and i: "i < length (co_store s)"
    and q: "ca_promoting (cand s i)" "ca_raised (cand s i) = None"
    and l: "lc_install_interaction (interaction_view_of (cand s i)) None (co_live s) = Inr (event, l)"
  obtains r where
    "interaction_offer sha (co_session_id s) event (ca_turn_id (cand s i))
       (Some (interaction_view_of (cand s i))) None = Inr r"
    "co_inv sha {} (promote_release i (upd i (\<lambda>c. c\<lparr>ca_revision := lce_revision event,
       ca_visible := True\<rparr>) (s\<lparr>co_live := l, co_offers := co_offers s @ [r]\<rparr>)))"
proof -
  let ?v = "interaction_view_of (cand s i)"
  have ci: "cand_inv {} s i" by (rule co_invD(4) [OF inv i])
  have ok: "text_ok (cand s i)" using ci by (simp add: cand_inv_def)
  have fl: "flow_ok True True (cand s i)" using ci p pending_retained [OF p] by (simp add: cand_inv_def)
  with q have vis: "\<not> ca_visible (cand s i)" "ca_admitted (cand s i)" "\<not> ca_resolving (cand s i)"
    by (auto simp: flow_ok_def)
  from live_invD [OF co_invD(3) [OF inv]] obtain events where e: "lc_run (co_live s) events"
    "list_all2 (mirrors sha (co_session_id s)) events (co_offers s)" "\<not> lc_closed (co_live s)"
    "lc_current (co_live s) = shown s" .
  with p vis have none: "lc_current (co_live s) = None" by (simp add: shown_def)
  note res = lc_install_result [OF l, unfolded none]
  have "\<exists>r. interaction_offer sha (co_session_id s) event (ca_turn_id (cand s i)) (Some ?v) None = Inr r
      \<and> mirrors sha (co_session_id s) event r"
    using res view_texts [OF ok] text_okD(1,2) [OF ok] by (intro offer_view) simp_all
  then obtain r where r:
    "interaction_offer sha (co_session_id s) event (ca_turn_id (cand s i)) (Some ?v) None = Inr r"
    "mirrors sha (co_session_id s) event r" by blast
  let ?t = "s\<lparr>co_live := l, co_offers := co_offers s @ [r]\<rparr>"
  let ?f = "\<lambda>c. c\<lparr>ca_revision := lce_revision event, ca_visible := True, ca_promoting := False,
      ca_raised := None\<rparr>"
  have eq: "promote_release i (upd i (\<lambda>c. c\<lparr>ca_revision := lce_revision event, ca_visible := True\<rparr>) ?t)
      = upd i ?f ?t" by (simp add: promote_release_def upd_upd o_def)
  have "lc_run l (events @ [event])" by (rule lc_run_install [OF e(1) l])
  moreover have "list_all2 (mirrors sha (co_session_id s)) (events @ [event]) (co_offers s @ [r])"
    using e(2) r(2) by (simp add: list_all2_appendI)
  moreover have "?v\<lparr>iv_decision_in_progress := False\<rparr> = ?v" by (simp add: interaction_view_of_def)
  then have "shown (upd i ?f ?t) = Some ?v" using p i vis by (simp add: shown_def)
  ultimately have live: "live_inv sha (upd i ?f ?t)"
    using res p i by (auto simp: live_inv_def)
  have "flow_ok True True (?f (cand s i))" using fl vis by (auto simp: flow_ok_def)
  then have "co_inv sha {} (upd i ?f ?t)"
    using ci live p pending_retained [OF p] i co_invD(5) [OF inv]
    by (intro co_inv_change [OF inv i, where c = "?f (cand s i)"])
      (simp_all add: upd_store cand_inv_def)
  with r eq that show thesis by simp
qed

lemma publish_ok:
  assumes inv: "co_inv sha {} s" and q: "in_promotion i s" "ca_raised (cand s i) = None"
  obtains p t where "promote_publish sha i s = (p, t)" "co_inv sha {} t"
    "co_pending s = Some i \<longrightarrow> (case p of
       Inl _ \<Rightarrow> in_promotion i t \<and> ca_raised (cand t i) \<noteq> None \<and> co_pending t = Some i \<and>
         \<not> ca_visible (cand t i) \<and> length (retained t) = length (retained s)
     | Inr Promotion_Stop \<Rightarrow> promoted t
     | Inr _ \<Rightarrow> length (retained t) < length (retained s))"
proof -
  have i: "i < length (co_store s)" and pr: "ca_promoting (cand s i)"
    using q by (auto simp: in_promotion_def)
  consider "co_pending s \<noteq> Some i"
    | r where "co_pending s = Some i" "invalidation i s = Some r"
    | "co_pending s = Some i" "invalidation i s = None" "\<not> has_controller s"
    | "co_pending s = Some i" "invalidation i s = None" "has_controller s" by fastforce
  then show thesis
  proof cases
    case 1
    with release_inv [OF co_inv_discard [OF inv i]] i
      that [of "Inr Promotion_Again" "promote_release i (discard_hooks i s)"] show thesis
      by (simp add: promote_publish_def promote_install_def discard_hooks_frame)
  next
    case (2 r)
    note f = pending_flow [OF inv 2(1)]
    have vis: "\<not> ca_visible (cand s i)" using f(4) pr by (auto simp: flow_ok_def)
    have "fst r \<noteq> []" by (rule invalidation_text [OF f(5) 2(2)])
    from invalidate_discard [OF inv i this] obtain u where
      "invalidate sha i r s = (Inr (), u)" "co_inv sha {} (discard_hooks i u)" "i < length (co_store u)"
      "retained u = (if ca_resolving (cand s i) then retained s else remove1 i (retained s))" .
    with 2 release_inv f(6,7) vis
      that [of "Inr Promotion_Again" "promote_release i (discard_hooks i u)"] show thesis
      by (simp add: promote_publish_def promote_install_def co_bind_def discard_hooks_frame
          promote_release_def)
  next
    case 3
    then have "promote_publish sha i s = (Inr Promotion_Stop, promote_release i s)"
      by (simp add: promote_publish_def promote_install_def)
    moreover have "promoted (promote_release i s)" using 3
      by (auto simp: promoted_def has_controller_def promote_release_def)
    ultimately show thesis using that [of "Inr Promotion_Stop"] release_inv [OF inv i] by simp
  next
    case 4
    note f = pending_flow [OF inv 4(1)]
    have vis: "\<not> ca_visible (cand s i)" using f(4) pr by (auto simp: flow_ok_def)
    show thesis
    proof (cases "lc_install_interaction (interaction_view_of (cand s i)) None (co_live s)")
      case (Inl e)
      let ?f = "ca_raised_update (\<lambda>_. Some (lit (exception_name e)))"
      have "live_inv sha (upd i ?f s)"
        by (intro live_inv_upd [OF co_invD(3) [OF inv]] shown_upd) simp_all
      moreover have "flow_ok True True (?f (cand s i))" using f(4) pr by (auto simp: flow_ok_def)
      ultimately have "co_inv sha {} (upd i ?f s)"
        using f(2,3) 4(1) co_invD(5) [OF inv]
        by (intro co_inv_change [OF inv i upd_store [OF i]]) (simp_all add: cand_inv_def)
      with 4 Inl pr i vis that [of "Inl e" "upd i ?f s"] show thesis
        by (simp add: promote_publish_def promote_install_def Let_def in_promotion_def)
    next
      case (Inr x)
      obtain event l where x: "x = (event, l)" by (cases x)
      from publish_shown [OF inv 4(1) i pr q(2) Inr [unfolded x]] obtain r where r:
        "interaction_offer sha (co_session_id s) event (ca_turn_id (cand s i))
           (Some (interaction_view_of (cand s i))) None = Inr r"
        "co_inv sha {} (promote_release i (upd i (\<lambda>c. c\<lparr>ca_revision := lce_revision event,
           ca_visible := True\<rparr>) (s\<lparr>co_live := l, co_offers := co_offers s @ [r]\<rparr>)))" .
      let ?t = "promote_release i (upd i (\<lambda>c. c\<lparr>ca_revision := lce_revision event,
           ca_visible := True\<rparr>) (s\<lparr>co_live := l, co_offers := co_offers s @ [r]\<rparr>))"
      have "(upd i f (s\<lparr>co_live := l\<rparr>))\<lparr>co_offers := os\<rparr> =
          upd i f (s\<lparr>co_live := l, co_offers := os\<rparr>)" for f os by (simp add: upd_def)
      with 4 Inr x r i have "promote_publish sha i s = (Inr Promotion_Stop, ?t)"
        by (simp add: promote_publish_def promote_install_def Let_def co_bind_def
            offer_interaction_event_def)
      moreover have "promoted ?t" using 4(1) i by (simp add: promoted_def promote_release_def)
      ultimately show thesis using that [of "Inr Promotion_Stop" ?t] r(2) by simp
    qed
  qed
qed

lemma publish_inv:
  "co_inv sha {} s \<Longrightarrow> in_promotion i s \<Longrightarrow> ca_raised (cand s i) = None \<Longrightarrow>
   co_inv sha {} (snd (promote_publish sha i s))"
  using publish_ok by (metis snd_conv)

lemma reject_ok:
  assumes inv: "co_inv sha {} s" and q: "in_promotion i s" "ca_raised (cand s i) \<noteq> None"
  obtains t where "promote_reject sha i s = (Inr Promotion_Again, t)" "co_inv sha {} t"
    "retained t = (if ca_resolving (cand s i) then retained s else remove1 i (retained s))"
proof -
  from q obtain name where i: "i < length (co_store s)" and n: "ca_raised (cand s i) = Some name"
    by (auto simp: in_promotion_def)
  let ?r = "(lit ''interaction:admission-rejected'',
     lit ''tool confirmation admission was rejected: '' @ name)"
  have "fst ?r \<noteq> []" by simp
  from invalidate_discard [OF inv i this] obtain u where
    "invalidate sha i ?r s = (Inr (), u)" "co_inv sha {} (discard_hooks i u)" "i < length (co_store u)"
    "retained u = (if ca_resolving (cand s i) then retained s else remove1 i (retained s))" .
  with n release_inv that [of "promote_release i (discard_hooks i u)"] show thesis
    by (simp add: promote_reject_def discard_hooks_frame promote_release_def)
qed

lemma reject_inv:
  "co_inv sha {} s \<Longrightarrow> in_promotion i s \<Longrightarrow> ca_raised (cand s i) \<noteq> None \<Longrightarrow>
   co_inv sha {} (snd (promote_reject sha i s))"
  using reject_ok by (metis snd_conv)

text \<open>The mark of a running decision replaces the shown view, whatever its mark was.\<close>

lemma publish_resolving_ok:
  assumes p: "co_pending s = Some i" and i: "i < length (co_store s)" and ok: "text_ok (cand s i)"
    and c: "ca_visible (cand s i)" "ca_form (cand s i) = None"
    and run: "lc_run (co_live s) events"
      "list_all2 (mirrors sha (co_session_id s)) events (co_offers s)" "\<not> lc_closed (co_live s)"
    and cur: "lc_current (co_live s) =
      Some ((interaction_view_of (cand s i))\<lparr>iv_decision_in_progress := b\<rparr>)"
  obtains l n os where
    "publish_resolving sha i s =
       (Inr (), upd i (ca_revision_update (\<lambda>_. n)) (s\<lparr>co_live := l, co_offers := os\<rparr>))"
    "live_inv sha (upd i (ca_revision_update (\<lambda>_. n)) (s\<lparr>co_live := l, co_offers := os\<rparr>))"
    "n = lc_revision l"
    "lc_current l = Some ((interaction_view_of (cand s i))
       \<lparr>iv_decision_in_progress := ca_resolving (cand s i)\<rparr>)"
proof -
  let ?w = "interaction_view_of (cand s i)"
  let ?v = "?w\<lparr>iv_decision_in_progress := b\<rparr>"
  let ?n = "?w\<lparr>iv_decision_in_progress := ca_resolving (cand s i)\<rparr>"
  from lc_replace_ok [OF run(1,3) cur, of "ca_resolving (cand s i)"] obtain event l where
    l: "lc_install_interaction ?n (Some (ca_interaction_id (cand s i))) (co_live s) = Inr (event, l)"
    using view_texts(1) [OF ok] by (metis interaction_view.simps(1,7,8) interaction_view.update_convs(6)
      interaction_view.surjective)
  note res = lc_install_result [OF l, unfolded cur]
  have "\<exists>r. interaction_offer sha (co_session_id s) event (ca_turn_id (cand s i)) (Some ?n) None = Inr r
      \<and> mirrors sha (co_session_id s) event r"
    using res view_texts [OF ok] text_okD(1,2) [OF ok] by (intro offer_view) simp_all
  then obtain r where r:
    "interaction_offer sha (co_session_id s) event (ca_turn_id (cand s i)) (Some ?n) None = Inr r"
    "mirrors sha (co_session_id s) event r" by blast
  let ?t = "upd i (ca_revision_update (\<lambda>_. lce_revision event))
      (s\<lparr>co_live := l, co_offers := co_offers s @ [r]\<rparr>)"
  have eq: "(upd i f (s\<lparr>co_live := l\<rparr>))\<lparr>co_offers := os\<rparr> = upd i f (s\<lparr>co_live := l, co_offers := os\<rparr>)"
    for f os by (simp add: upd_def)
  have "publish_resolving sha i s = (Inr (), ?t)"
    using run(3) cur l r(1) i
    by (simp add: publish_resolving_def lc_current_snapshot_def lc_require_open_def lc_snapshot_def
        Let_def offer_interaction_event_def eq)
  moreover have "lc_run l (events @ [event])" by (rule lc_run_install [OF run(1) l])
  moreover have "list_all2 (mirrors sha (co_session_id s)) (events @ [event]) (co_offers s @ [r])"
    using run(2) r(2) by (simp add: list_all2_appendI)
  moreover have "shown ?t = Some ?n" using p i c by (simp add: shown_def)
  ultimately show thesis using res p i c
    by (intro that [where n = "lce_revision event" and l = l and os = "co_offers s @ [r]"]) (auto simp: live_inv_def)
qed

text \<open>Which candidate a command speaks about.\<close>

lemma live_authority_Some:
  "live_authority x e n (lc_snapshot l) s = Some i \<longleftrightarrow>
     co_pending s = Some i \<and> ca_interaction_id (cand s i) = x \<and> ca_revision (cand s i) = n \<and>
     lc_owner_epoch l = e \<and> lc_revision l = n \<and>
     map_option iv_interaction_id (lc_current l) = Some x"
  by (auto simp: live_authority_def lc_snapshot_def split: option.splits if_splits)

text \<open>Under the invariant the guards of a resolution are exactly these.\<close>

definition may_resolve :: "resolve_command \<Rightarrow> coordinator \<Rightarrow> nat \<Rightarrow> bool" where
  "may_resolve cmd s i \<longleftrightarrow>
     rc_decision cmd \<in> {lit ''ALLOW'', lit ''DENY''} \<and> \<not> co_closed s \<and>
     rc_writer_generation cmd = co_writer_generation s \<and> co_pending s = Some i \<and>
     ca_visible (cand s i) \<and> ca_interaction_id (cand s i) = rc_interaction_id cmd \<and>
     rc_owner_epoch cmd = lc_owner_epoch (co_live s) \<and>
     rc_live_revision cmd = lc_revision (co_live s) \<and> \<not> ca_resolving (cand s i) \<and>
     ca_form (cand s i) = None \<and> co_controller s = Some (rc_actor_id cmd) \<and>
     ca_invalidation (cand s i) = None \<and> co_now s < ca_deadline (cand s i)"

lemma resolve_begin_ok:
  assumes inv: "co_inv sha {} s" and w: "list_all is_scalar (rc_command_id cmd)"
    and m: "may_resolve cmd s i"
  obtains l n os d where
    "derive_id sha (lit ''decision'') (lit ''accepted'') [co_session_id s, rc_command_id cmd] = Inr d"
    "resolve_begin sha cmd s = (Inr i, upd i (\<lambda>c. c\<lparr>ca_settled := False, ca_resolving := True,
       ca_revision := n, ca_settlement := Some (decision_write_of c cmd d)\<rparr>)
       (s\<lparr>co_live := l, co_offers := os\<rparr>))"
    "co_inv sha {} (snd (resolve_begin sha cmd s))"
    "lc_current l = Some ((interaction_view_of (cand s i))\<lparr>iv_decision_in_progress := True\<rparr>)"
    "n = lc_revision l"
proof -
  from m have p: "co_pending s = Some i" and vis: "ca_visible (cand s i)"
    and no: "\<not> ca_resolving (cand s i)" "ca_form (cand s i) = None" by (auto simp: may_resolve_def)
  have i: "i < length (co_store s)" by (rule pending_less [OF inv p])
  note ci = co_invD(4) [OF inv i]
  then have ok: "text_ok (cand s i)" by (simp add: cand_inv_def)
  let ?f = "\<lambda>c. c\<lparr>ca_settled := False, ca_resolving := True\<rparr>"
  from live_invD [OF co_invD(3) [OF inv]] obtain events where e: "lc_run (co_live s) events"
    "list_all2 (mirrors sha (co_session_id s)) events (co_offers s)" "\<not> lc_closed (co_live s)"
    "lc_current (co_live s) = shown s" .
  have cur: "lc_current (co_live s) =
      Some ((interaction_view_of (cand s i))\<lparr>iv_decision_in_progress := False\<rparr>)"
    using e(4) p vis no by (simp add: shown_def)
  have s1: "co_pending (upd i ?f s) = Some i" "i < length (co_store (upd i ?f s))"
    "text_ok (cand (upd i ?f s) i)" "ca_visible (cand (upd i ?f s) i)"
    "ca_form (cand (upd i ?f s) i) = None" "lc_run (co_live (upd i ?f s)) events"
    "list_all2 (mirrors sha (co_session_id (upd i ?f s))) events (co_offers (upd i ?f s))"
    "\<not> lc_closed (co_live (upd i ?f s))" "lc_current (co_live (upd i ?f s)) =
      Some ((interaction_view_of (cand (upd i ?f s) i))\<lparr>iv_decision_in_progress := False\<rparr>)"
    "interaction_view_of (cand (upd i ?f s) i) = interaction_view_of (cand s i)"
    "ca_resolving (cand (upd i ?f s) i)"
    using p i ok vis no e(1-3) cur by simp_all
  from publish_resolving_ok [OF s1(1-9), unfolded s1(10) s1(11) [THEN eqTrueI]] obtain l n os where
    l: "publish_resolving sha i (upd i ?f s) =
      (Inr (), upd i (ca_revision_update (\<lambda>_. n)) ((upd i ?f s)\<lparr>co_live := l, co_offers := os\<rparr>))"
    "live_inv sha (upd i (ca_revision_update (\<lambda>_. n)) ((upd i ?f s)\<lparr>co_live := l, co_offers := os\<rparr>))"
    "n = lc_revision l"
    "lc_current l = Some ((interaction_view_of (cand s i))\<lparr>iv_decision_in_progress := True\<rparr>)" .
  have "\<exists>d. derive_id sha (lit ''decision'') (lit ''accepted'') [co_session_id s, rc_command_id cmd] = Inr d"
    using w co_invD(6) [OF inv]
    by (intro derive_id_total) (auto simp: is_kind_def identity_kinds_def scalar_lit)
  then obtain d where d:
    "derive_id sha (lit ''decision'') (lit ''accepted'') [co_session_id s, rc_command_id cmd] = Inr d" ..
  let ?t = "s\<lparr>co_live := l, co_offers := os\<rparr>"
  have eq: "(upd i f s)\<lparr>co_live := l, co_offers := os\<rparr> = upd i f ?t" for f by (simp add: upd_def)
  have "ca_revision (cand s i) = lc_revision (co_live s)"
    using co_invD(3) [OF inv] p vis by (simp add: live_inv_def)
  moreover have "map_option iv_interaction_id (lc_current (co_live s)) = Some (ca_interaction_id (cand s i))"
    by (simp add: cur view_texts(1) [OF ok])
  ultimately have auth: "live_authority (rc_interaction_id cmd) (rc_owner_epoch cmd)
      (rc_live_revision cmd) (lc_snapshot (co_live s)) s = Some i"
    using m p unfolding live_authority_Some may_resolve_def by simp
  have dw: "decision_write_of (c\<lparr>ca_settled := x, ca_resolving := y, ca_revision := z\<rparr>) cmd d =
      decision_write_of c cmd d" for c x y z by (simp add: decision_write_of_def Let_def)
  have st: "resolve_begin sha cmd s = (Inr i, upd i (\<lambda>c. c\<lparr>ca_settled := False, ca_resolving := True,
       ca_revision := n, ca_settlement := Some (decision_write_of c cmd d)\<rparr>) ?t)"
    using m auth l(1) d e(3) i
    by (simp add: resolve_begin_def may_resolve_def lc_current_snapshot_def lc_require_open_def
        co_bind_def eq upd_upd o_def dw)
  let ?h = "\<lambda>c. c\<lparr>ca_settled := False, ca_resolving := True,
       ca_revision := n, ca_settlement := Some (decision_write_of c cmd d)\<rparr>"
  have "live_inv sha (upd i (\<lambda>c. c\<lparr>ca_settlement := Some (decision_write_of c cmd d)\<rparr>)
      (upd i (ca_revision_update (\<lambda>_. n)) (upd i ?f ?t)))"
    using l(2) unfolding eq by (rule live_inv_upd) (simp_all add: shown_upd)
  then have live: "live_inv sha (upd i ?h ?t)" by (simp add: upd_upd o_def dw)
  have fl: "flow_ok True True (cand s i)"
    using ci p pending_retained [OF p] by (simp add: cand_inv_def)
  then have "flow_ok True True (?h (cand s i))" using vis no by (auto simp: flow_ok_def)
  moreover have "write_ok (?h (cand s i))"
    using m fl by (auto simp: write_ok_def may_resolve_def decision_write_of_def Let_def allowed_def flow_ok_def)
  ultimately have "co_inv sha {} (upd i ?h ?t)"
    using ci live p pending_retained [OF p] i co_invD(5) [OF inv]
    by (intro co_inv_change [OF inv i, where c = "?h (cand s i)"])
      (simp_all add: upd_store cand_inv_def)
  with st d l(3,4) that show thesis by simp
qed

lemma resolve_begin_refused:
  assumes inv: "co_inv sha {} s" and m: "\<nexists>i. may_resolve cmd s i"
  shows "\<exists>e. resolve_begin sha cmd s = (Inl e, s)"
proof (cases "live_authority (rc_interaction_id cmd) (rc_owner_epoch cmd) (rc_live_revision cmd)
    (lc_snapshot (co_live s)) s")
  case None
  then show ?thesis
    by (simp add: resolve_begin_def lc_current_snapshot_def lc_require_open_def)
next
  case (Some i)
  note a = Some [unfolded live_authority_Some]
  then have "ca_visible (cand s i)"
    using co_invD(3) [OF inv] shown_id [of s i] by (auto simp: live_inv_def split: if_splits)
  with a m have "rc_decision cmd \<notin> {lit ''ALLOW'', lit ''DENY''} \<or> co_closed s \<or>
      rc_writer_generation cmd \<noteq> co_writer_generation s \<or> ca_resolving (cand s i) \<or>
      ca_form (cand s i) \<noteq> None \<or> co_controller s \<noteq> Some (rc_actor_id cmd) \<or>
      ca_invalidation (cand s i) \<noteq> None \<or> ca_deadline (cand s i) \<le> co_now s"
    by (force simp: may_resolve_def)
  with Some show ?thesis
    by (auto simp: resolve_begin_def lc_current_snapshot_def lc_require_open_def)
qed

lemma resolve_inv:
  assumes "co_inv sha {} s" and "list_all is_scalar (rc_command_id cmd)"
  shows "co_inv sha {} (snd (resolve_begin sha cmd s))"
proof (cases "\<exists>i. may_resolve cmd s i")
  case True
  then obtain i where "may_resolve cmd s i" ..
  with resolve_begin_ok [OF assms] show ?thesis by metis
next
  case False
  with resolve_begin_refused [OF assms(1)] assms(1) show ?thesis by fastforce
qed

text \<open>The three ends of a settlement.\<close>

lemma settlement_facts:
  assumes inv: "co_inv sha {} s" and q: "in_settlement i s"
  shows "i < length (co_store s)" "co_pending s = Some i" "i \<in> set (retained s)"
    "ca_visible (cand s i)" "ca_form (cand s i) = None" "ca_resolving (cand s i)"
    "ca_outcome (cand s i) = None" "text_ok (cand s i)" "distinct (retained s)"
    "flow_ok True True (cand s i)" "write_ok (cand s i)"
proof -
  from q show i: "i < length (co_store s)" and r: "ca_resolving (cand s i)" "ca_form (cand s i) = None"
    by (auto simp: in_settlement_def)
  have ci: "cand_inv {} s i" by (rule co_invD(4) [OF inv i])
  with r show p: "co_pending s = Some i" and "ca_visible (cand s i)" "text_ok (cand s i)"
    "write_ok (cand s i)"
    by (auto simp: cand_inv_def flow_ok_def)
  then show m: "i \<in> set (retained s)" by (simp add: pending_retained)
  with ci p show "ca_outcome (cand s i) = None" "flow_ok True True (cand s i)"
    by (auto simp: cand_inv_def flow_ok_def)
  show "distinct (retained s)" by (rule retained_distinct [OF co_invD(1) [OF inv]])
qed

lemma left_queue_upd_id: "left_queue i s t \<Longrightarrow> left_queue i (upd i id s) t"
  by (simp add: upd_def)

lemma accepted_resolution_ok:
  "repository_answers w a \<Longrightarrow> w \<noteq> None \<Longrightarrow>
   map_option dw_decision w \<in> {Some (lit ''ALLOW''), Some (lit ''DENY'')} \<Longrightarrow>
   resolution_post_init (accepted_resolution a) = Inr (accepted_resolution a)"
  by (auto simp: repository_answers_def accepted_post_init_def resolution_post_init_def
      accepted_resolution_def)

lemma settle_accepted_ok:
  assumes inv: "co_inv sha {} s" and q: "in_settlement i s"
    and w: "repository_answers (ca_settlement (cand s i)) a"
  shows "fst (settle_accepted sha i a s) = Inr () \<and> co_inv sha {} (snd (settle_accepted sha i a s)) \<and>
    ca_outcome (cand (snd (settle_accepted sha i a s)) i) = Some (Answered (accepted_resolution a)) \<and>
    ca_settlement (cand (snd (settle_accepted sha i a s)) i) = ca_settlement (cand s i) \<and>
    length (co_store (snd (settle_accepted sha i a s))) = length (co_store s) \<and>
    (\<forall>j. j \<noteq> i \<longrightarrow> cand (snd (settle_accepted sha i a s)) j = cand s j)"
proof -
  note f = settlement_facts [OF inv q]
  have dec: "map_option dw_decision (ca_settlement (cand s i)) \<in> {Some (lit ''ALLOW''), Some (lit ''DENY'')}"
    using f(5,6,11) by (auto simp: write_ok_def)
  then have ad: "ad_decision a \<in> {lit ''ALLOW'', lit ''DENY''}" and
    aw: "map_option dw_decision (ca_settlement (cand s i)) = Some (ad_decision a)"
    using w by (auto simp: repository_answers_def)
  have post: "resolution_post_init (accepted_resolution a) = Inr (accepted_resolution a)"
    using accepted_resolution_ok [OF w _ dec] dec by force
  obtain t where t: "close_candidate sha i (lit ''RESOLVED'') s = (Inr (), t)" "left_queue i s t"
    "live_inv sha t"
    using close_leaves [OF f(9,8) _ co_invD(3) [OF inv], of "lit ''RESOLVED''"] by auto
  let ?f = "\<lambda>c. c\<lparr>ca_resolving := False, ca_outcome := (if ca_outcome c = None
      then Some (Answered (accepted_resolution a)) else ca_outcome c), ca_settled := True\<rparr>"
  have fr: "cand t = cand s" "length (co_store t) = length (co_store s)"
    using left_queue_frame(1,2) [OF t(2)] by auto
  have out: "allowed (Some (Answered (accepted_resolution a))) \<longleftrightarrow> ad_decision a = lit ''ALLOW''"
    by (simp add: allowed_def accepted_resolution_def)
  let ?D = "if ad_decision a = lit ''DENY'' then {i} else {}"
  have inv': "co_inv sha ?D (upd i ?f t)"
  proof (rule co_inv_leave [OF inv f(1) left_queue_upd_id [OF t(2)] t(3)])
    show "flow_ok False False (?f (id (cand s i)))" using f(10) by (auto simp: flow_ok_def)
    show "write_ok (?f (id (cand s i)))" using f(5,7) aw out by (auto simp: write_ok_def)
    show "text_ok (?f (id (cand s i)))" using f(8) by simp
    show "allowed (ca_outcome (?f (id (cand s i)))) \<or> i \<in> ?D" using f(7) ad out by auto
  qed auto
  have e: "settle_accepted sha i a s = (Inr (), if ad_decision a = lit ''DENY''
      then discard_hooks i (upd i ?f t) else upd i ?f t)"
    using f(2) t(1) post
    by (simp add: settle_accepted_def co_bind_def Let_def set_outcome_upd upd_upd o_def cong: if_cong)
  have "co_inv sha {} (snd (settle_accepted sha i a s))"
    using inv' co_inv_discard [OF inv', of i] f(1) fr(2) by (auto simp: e)
  then show ?thesis
    using f(1,7) fr by (auto simp: e discard_hooks_frame)
qed

lemma settle_unknown_inv:
  assumes inv: "co_inv sha {} s" and q: "in_settlement i s"
  shows "co_inv sha {} (snd (settle_unknown sha i s))"
proof -
  note f = settlement_facts [OF inv q]
  obtain t where t: "close_candidate sha i (lit ''interaction:outcome-unknown'') s = (Inr (), t)"
    "left_queue i s t" "live_inv sha t"
    using close_leaves [OF f(9,8) _ co_invD(3) [OF inv], of "lit ''interaction:outcome-unknown''"]
    by auto
  define v where "v = Failed (ConversationKernelConflict
      ''interaction decision outcome is unknown; original operation must be verified'')"
  let ?f = "\<lambda>c. c\<lparr>ca_resolving := False, ca_outcome := (if ca_outcome c = None
      then Some v else ca_outcome c), ca_settled := True\<rparr>"
  have inv': "co_inv sha {i} (upd i ?f t)"
  proof (rule co_inv_leave [OF inv f(1) left_queue_upd_id [OF t(2)] t(3)])
    show "flow_ok False False (?f (id (cand s i)))" using f(10) by (auto simp: flow_ok_def)
    show "write_ok (?f (id (cand s i)))" using f(7) by (auto simp: write_ok_def v_def allowed_def)
    show "text_ok (?f (id (cand s i)))" using f(8) by simp
  qed auto
  have "snd (settle_unknown sha i s) = discard_hooks i (upd i ?f t)"
    using t(1) by (simp add: settle_unknown_def co_bind_def set_outcome_upd upd_upd o_def v_def
        cong: if_cong)
  with co_inv_discard [OF inv', of i] f(1) left_queue_frame(1) [OF t(2)] show ?thesis by simp
qed

lemma settle_not_accepted_inv:
  assumes inv: "co_inv sha {} s" and q: "in_settlement i s"
  shows "co_inv sha {} (snd (settle_not_accepted sha i s))"
proof -
  note f = settlement_facts [OF inv q]
  define t where "t = upd i (ca_resolving_update (\<lambda>_. False)) s"
  from live_invD [OF co_invD(3) [OF inv]] obtain events where e: "lc_run (co_live s) events"
    "list_all2 (mirrors sha (co_session_id s)) events (co_offers s)" "\<not> lc_closed (co_live s)"
    "lc_current (co_live s) = shown s" .
  have t: "co_pending t = Some i" "i < length (co_store t)" "text_ok (cand t i)"
    "ca_visible (cand t i)" "ca_form (cand t i) = None" "lc_run (co_live t) events"
    "list_all2 (mirrors sha (co_session_id t)) events (co_offers t)" "\<not> lc_closed (co_live t)"
    "lc_current (co_live t) =
      Some ((interaction_view_of (cand t i))\<lparr>iv_decision_in_progress := True\<rparr>)"
    using f e by (simp_all add: t_def shown_def)
  have ret: "retained t = retained s" by (simp add: t_def)
  have ci: "cand_inv {} s i" by (rule co_invD(4) [OF inv f(1)])
  show ?thesis
  proof (cases "invalidation i t")
    case None
    from publish_resolving_ok [OF t] obtain l n os where
      l: "publish_resolving sha i t =
        (Inr (), upd i (ca_revision_update (\<lambda>_. n)) (t\<lparr>co_live := l, co_offers := os\<rparr>))"
      "live_inv sha (upd i (ca_revision_update (\<lambda>_. n)) (t\<lparr>co_live := l, co_offers := os\<rparr>))" .
    let ?t = "s\<lparr>co_live := l, co_offers := os\<rparr>"
    let ?h = "\<lambda>c. c\<lparr>ca_resolving := False, ca_revision := n, ca_settled := True\<rparr>"
    have eq: "(upd i g s)\<lparr>co_live := l, co_offers := os\<rparr> = upd i g ?t" for g by (simp add: upd_def)
    have st: "snd (settle_not_accepted sha i s) = upd i ?h ?t"
      using None l(1) unfolding t_def
      by (simp add: settle_not_accepted_def Let_def co_bind_def eq upd_upd o_def)
    have "live_inv sha (upd i (ca_settled_update (\<lambda>_. True))
        (upd i (ca_revision_update (\<lambda>_. n)) (upd i (ca_resolving_update (\<lambda>_. False)) ?t)))"
      using l(2) unfolding t_def eq by (rule live_inv_upd) (simp_all add: shown_upd)
    then have live: "live_inv sha (upd i ?h ?t)" by (simp add: upd_upd o_def)
    have no: "ca_invalidation (cand s i) = None"
      using None f(1) by (cases "ca_invalidation (cand s i)") (auto simp: invalidation_def t_def)
    have "flow_ok True True (?h (cand s i))" using f(10) no by (auto simp: flow_ok_def)
    moreover have "write_ok (?h (cand s i))" using f(7) by (simp add: write_ok_def allowed_def)
    ultimately have "co_inv sha {} (upd i ?h ?t)"
      using ci live f(1-3) co_invD(5) [OF inv]
      by (intro co_inv_change [OF inv f(1), where c = "?h (cand s i)"])
        (simp_all add: upd_store cand_inv_def)
    with st show ?thesis by simp
  next
    case (Some r)
    have r: "fst r \<noteq> []" by (rule invalidation_text [OF t(3) Some])
    have cur: "map_option iv_interaction_id (lc_current (co_live t)) =
        (if ca_visible (cand t i) then Some (ca_interaction_id (cand t i)) else None)"
      using t(4,9) view_texts(1) [OF t(3)] by simp
    from close_pending [OF t(1,3) r t(6-8) cur] obtain l os where
      c: "close_candidate sha i (fst r) t =
        (Inr (), t\<lparr>co_live := l, co_offers := os, co_pending := None\<rparr>)"
      "live_inv sha (t\<lparr>co_live := l, co_offers := os, co_pending := None\<rparr>)" .
    let ?u = "t\<lparr>co_live := l, co_offers := os, co_pending := None\<rparr>"
    have left: "left_queue i (upd i (ca_resolving_update (\<lambda>_. False)) s) ?u"
      unfolding left_queue_def t_def [symmetric] using t(1)
      by (intro exI [of _ l] exI [of _ os] exI [of _ None] exI [of _ "co_dormant t"])
        (simp add: retained_def)
    define v where "v = Answered (plain_resolution (lit ''DENY'') (fst r) (snd r))"
    let ?f = "\<lambda>c. c\<lparr>ca_outcome := (if ca_outcome c = None then Some v else ca_outcome c),
        ca_settled := True\<rparr>"
    let ?c = "(cand s i)\<lparr>ca_resolving := False\<rparr>"
    have inv': "co_inv sha {i} (upd i ?f ?u)"
    proof (rule co_inv_leave [OF inv f(1) left c(2)])
      show "flow_ok False False (?f ?c)" using f(10) by (auto simp: flow_ok_def)
      show "write_ok (?f ?c)" using f(7)
        by (auto simp: write_ok_def v_def allowed_def plain_resolution_def)
      show "text_ok (?f ?c)" using f(8) by simp
    qed auto
    have "snd (settle_not_accepted sha i s) = discard_hooks i (upd i ?f ?u)"
      using Some c(1) unfolding t_def
      by (simp add: settle_not_accepted_def Let_def co_bind_def set_outcome_upd upd_upd o_def v_def
          cong: if_cong)
    with co_inv_discard [OF inv', of i] t(2) show ?thesis by simp
  qed
qed

text \<open>Forms.\<close>

lemma require_form_Inr:
  assumes "co_inv sha {} s" and "require_capability_form a x e n s = Inr i"
  shows "co_pending s = Some i" "i < length (co_store s)" "ca_visible (cand s i)"
    "ca_form (cand s i) \<noteq> None" "is_current_controller a s"
    "ca_interaction_id (cand s i) = x" "lc_revision (co_live s) = n"
proof -
  from assms(2) have a: "live_authority x e n (lc_snapshot (co_live s)) s = Some i"
    "ca_form (cand s i) \<noteq> None" "is_current_controller a s"
    unfolding require_capability_form_def bind_result_Inr lc_current_snapshot_def
    by (auto simp: bind_result_Inr split: if_splits option.splits sum.splits)
  then show p: "co_pending s = Some i" and "ca_form (cand s i) \<noteq> None"
    "is_current_controller a s" "ca_interaction_id (cand s i) = x" "lc_revision (co_live s) = n"
    by (auto simp: live_authority_Some)
  then show "i < length (co_store s)" using pending_less [OF assms(1)] by simp
  show "ca_visible (cand s i)"
    using a(1) p co_invD(3) [OF assms(1)] shown_id [OF p]
    by (auto simp: live_authority_Some live_inv_def split: if_splits)
qed

lemma form_begin_inv:
  assumes inv: "co_inv sha {} s"
  shows "co_inv sha {} (snd (resolve_form_begin a x e n d b s))"
proof (cases "require_capability_form a x e n s")
  case (Inl e)
  with inv show ?thesis by (simp add: resolve_form_begin_def)
next
  case (Inr i)
  note f = require_form_Inr [OF inv Inr]
  note ci = co_invD(4) [OF inv f(2)]
  let ?f = "\<lambda>c. c\<lparr>ca_settled := False, ca_resolving := True\<rparr>"
  have "shown (upd i ?f s) = shown s" using f(1,2,4) by (auto simp: shown_def)
  then have "live_inv sha (upd i ?f s)"
    by (intro live_inv_upd [OF co_invD(3) [OF inv]]) simp_all
  moreover have "flow_ok True True (?f (cand s i))"
    using ci f pending_retained [OF f(1)] by (auto simp: cand_inv_def flow_ok_def)
  moreover have "write_ok (?f (cand s i))" using ci f(4) by (auto simp: cand_inv_def write_ok_def)
  ultimately have "co_inv sha {} (upd i ?f s)"
    using ci f(1) pending_retained [OF f(1)] co_invD(5) [OF inv]
    by (intro co_inv_change [OF inv f(2) upd_store [OF f(2)]]) (simp_all add: cand_inv_def)
  with Inr inv show ?thesis by (simp add: resolve_form_begin_def)
qed

lemma form_resolution_ok:
  "resolution_post_init (form_resolution b v) = Inr (form_resolution b v)"
  by (auto simp: resolution_post_init_def form_resolution_def plain_resolution_def)

lemma form_finish_inv:
  assumes inv: "co_inv sha {} s" and q: "in_form i s"
  shows "co_inv sha {} (snd (resolve_form_finish sha i a d v s))"
proof (cases "co_pending s = Some i")
  case False
  with inv show ?thesis by (simp add: resolve_form_finish_def)
next
  case p: True
  from q have i: "i < length (co_store s)" and r: "ca_resolving (cand s i)" "ca_form (cand s i) \<noteq> None"
    by (auto simp: in_form_def)
  note ci = co_invD(4) [OF inv i]
  have ok: "text_ok (cand s i)" and fl: "flow_ok True True (cand s i)"
    and no: "ca_hooks (cand s i) = None"
    using ci p pending_retained [OF p] r(2) by (auto simp: cand_inv_def hooks_ok_def)
  with r have vis: "ca_visible (cand s i)" by (simp add: flow_ok_def)
  define cancelled where "cancelled = (d = lit ''CANCEL'' \<or> ca_form_cancelled (cand s i)
      \<or> \<not> is_current_controller a s)"
  define why where "why = (if cancelled then lit ''CANCELLED'' else lit ''SUBMITTED'')"
  have why: "why \<noteq> []" by (simp add: why_def)
  let ?r = "Answered (form_resolution cancelled v)"
  have "distinct (retained s)" by (rule retained_distinct [OF co_invD(1) [OF inv]])
  from close_leaves [OF this ok why co_invD(3) [OF inv]] obtain t where
    t: "close_candidate sha i why s = (Inr (), t)" "left_queue i s t" "live_inv sha t" .
  let ?f = "ca_outcome_update (\<lambda>_. if ca_outcome (cand s i) = None then Some ?r
      else ca_outcome (cand s i))"
  have inv': "co_inv sha {i} (upd i ?f t)"
  proof (rule co_inv_leave [OF inv i left_queue_upd_id [OF t(2)] t(3)])
    show "flow_ok False False (?f (id (cand s i)))" using fl r by (auto simp: flow_ok_def)
    show "write_ok (?f (id (cand s i)))"
      using fl r(2) by (auto simp: write_ok_def flow_ok_def allowed_def form_resolution_def
          plain_resolution_def)
    show "text_ok (?f (id (cand s i)))" using ok by simp
  qed auto
  have "co_inv sha {} (upd i ?f t)"
  proof -
    have "hooks_ok x (cand (upd i ?f t) i) \<longleftrightarrow> True" for x
      using i no left_queue_frame(1,2) [OF t(2)] by (simp add: hooks_ok_def)
    then have "cand_inv {i} (upd i ?f t) j \<Longrightarrow> cand_inv {} (upd i ?f t) j" for j
      by (cases "j = i") (simp_all add: cand_inv_def)
    with inv' show ?thesis by (auto simp: co_inv_def)
  qed
  moreover have "snd (resolve_form_finish sha i a d v s) = upd i ?f t"
  proof (cases "lc_close_interaction (ca_interaction_id (cand s i)) (co_live s)")
    case (Inl e)
    with t(1) p vis show ?thesis by (simp add: close_candidate_def)
  next
    case (Inr x)
    obtain event l where x: "x = (event, l)" by (cases x)
    let ?o = "offer_interaction_event sha event (ca_turn_id (cand s i)) None (Some why) (s\<lparr>co_live := l\<rparr>)"
    from t(1) p vis Inr x obtain u where u: "?o = (Inr (), u)" "t = u\<lparr>co_pending := None\<rparr>"
      by (auto simp: close_candidate_def co_bind_def split: prod.splits sum.splits)
    have "cand t i = cand s i" using left_queue_frame(2) [OF t(2)] by simp
    then have "set_outcome i ?r t = upd i ?f t"
      by (auto simp: set_outcome_def upd_def cand_def left_queue_frame(1) [OF t(2)])
    with p Inr x u show ?thesis
      by (simp add: resolve_form_finish_def Let_def co_bind_def form_resolution_ok
          flip: cancelled_def why_def)
  qed
  ultimately show ?thesis by simp
qed

lemma form_end_inv:
  assumes inv: "co_inv sha {} s" and q: "in_form i s"
  shows "co_inv sha {} (resolve_form_end i s)"
proof -
  from q have i: "i < length (co_store s)" and r: "ca_resolving (cand s i)" "ca_form (cand s i) \<noteq> None"
    by (auto simp: in_form_def)
  note ci = co_invD(4) [OF inv i]
  let ?f = "\<lambda>c. c\<lparr>ca_resolving := False, ca_settled := True\<rparr>"
  have "shown (upd i ?f s) = shown s" using i r(2) by (auto simp: shown_def split: option.split)
  then have "live_inv sha (upd i ?f s)"
    by (intro live_inv_upd [OF co_invD(3) [OF inv]]) simp_all
  moreover have "flow_ok (co_pending s = Some i) (i \<in> set (retained s)) (?f (cand s i))"
    using ci r by (auto simp: cand_inv_def flow_ok_def)
  moreover have "write_ok (?f (cand s i))" using ci r(2) by (auto simp: cand_inv_def write_ok_def)
  ultimately show ?thesis
    using ci co_invD(5) [OF inv] unfolding resolve_form_end_def
    by (intro co_inv_change [OF inv i upd_store [OF i]]) (simp_all add: cand_inv_def)
qed

text \<open>Cancellation and close.\<close>

lemma invalidate_all_snd:
  assumes "co_inv sha {} s" and "set is \<subseteq> set (retained s)" and "fst reason \<noteq> []"
  shows "co_inv sha {} (snd (invalidate_all sha reason is s))"
proof -
  have "\<forall>i \<in> set is. i < length (co_store s)" using assms(2) retained_less [OF assms(1)] by auto
  from invalidate_all_inv [OF assms(1) this assms(3)] show ?thesis by (metis snd_conv)
qed

lemma detached_forms_inv: "co_inv sha {} s \<Longrightarrow> co_inv sha {} (snd (detached_forms sha s))"
  unfolding detached_forms_def by (rule invalidate_all_snd) auto

lemma cancel_inv:
  "co_inv sha {} s \<Longrightarrow> r \<noteq> [] \<Longrightarrow> co_inv sha {} (snd (cancel_tool_confirmations sha ks r m s))"
  by (cases "ks = []") (simp_all add: cancel_tool_confirmations_def invalidate_all_snd)

lemma abort_inv:
  assumes "co_inv sha {} s" and "r \<noteq> []"
  shows "co_inv sha {} (snd (abort_candidate sha x r m s))"
proof (cases "filter (\<lambda>i. ca_interaction_id (cand s i) = x) (retained s)")
  case Nil
  with assms show ?thesis by (simp add: abort_candidate_def)
next
  case (Cons i rest)
  then have "i \<in> set (retained s)" by (metis filter_is_subset list.set_intros(1) subsetD)
  with Cons assms invalidate_all_snd [of sha s "[i]" "(r, m)"] show ?thesis
    by (simp add: abort_candidate_def)
qed

lemma abort_round_ok:
  assumes "co_inv sha {} s"
  obtains t where "abort_round sha s = (Inr (\<forall>i \<in> set (retained s). \<not> ca_resolving (cand s i)), t)"
    "co_inv sha {} t" "set (retained t) = {i \<in> set (retained s). ca_resolving (cand s i)}"
    "\<And>j. ca_resolving (cand t j) = ca_resolving (cand s j)"
proof -
  have "\<forall>i \<in> set (retained s). i < length (co_store s)" using retained_less [OF assms] by auto
  from invalidate_all_inv [OF assms this] obtain t where
    t: "invalidate_all sha (lit ''interaction:host-closing'',
      lit ''tool confirmation ended with the Host'') (retained s) s = (Inr (), t)" "co_inv sha {} t"
      "set (retained t) = set (retained s) - idle s (retained s)"
      "\<And>j. ca_resolving (cand t j) = ca_resolving (cand s j)" by (metis fst_conv lit_eq_Nil list.distinct(1))
  then have "abort_round sha s = (Inr (\<forall>i \<in> set (retained s). \<not> ca_resolving (cand s i)), t)"
    by (simp add: abort_round_def co_bind_def list_all_iff)
  moreover have "set (retained t) = {i \<in> set (retained s). ca_resolving (cand s i)}"
    using t(3) by (auto simp: idle_def)
  ultimately show thesis using that t(2,4) by blast
qed

section \<open>Reachable states\<close>

lemma coordinator_init_inv:
  assumes "live_control_init session_id ep me mb = Inr live" and "list_all is_scalar session_id"
  shows "co_inv sha {} (coordinator_init session_id gen live now)"
proof -
  have "lc_run live []" by (rule lc_run_init [OF assms(1)])
  moreover have "\<not> lc_closed live" "lc_current live = None"
    using assms(1) by (auto simp: live_control_init_def split: if_splits)
  ultimately show ?thesis using assms(2)
    by (auto simp: co_inv_def coordinator_init_def queue_inv_def retained_def discard_inv_def
        tokens_def live_inv_def shown_def List.map_filter_simps)
qed

lemma guarded_Some: "guarded b x = Some y \<longleftrightarrow> b \<and> x = y"
  by (simp add: guarded_def)

lemma perform_inv:
  assumes "co_inv sha {} s" and "op_promised op s" and "perform sha op s = Some t"
  shows "co_inv sha {} t"
proof (cases op)
  case (Op_Request rq "is" rs as)
  with assms(3) obtain v where "request sha rq is rs as s = Some (v, t)" by auto
  then show ?thesis by (rule request_inv [OF assms(1) assms(2) [unfolded Op_Request]])
next
  case Op_Abort_Round
  with assms(3) abort_round_ok [OF assms(1)] show ?thesis by (metis perform.simps(19) option.inject snd_conv)
next
  case (Op_Waiter_Left i)
  with assms co_inv_discard [OF assms(1), of i] show ?thesis by (auto simp: guarded_Some)
next
  case (Op_Accepted i a)
  with assms(2,3) settle_accepted_ok [OF assms(1), of i a] show ?thesis
    by (auto simp: guarded_Some)
qed (use assms in \<open>auto simp: guarded_Some in_promotion_def intro: attach_inv detach_inv
    promote_select_inv publish_inv [unfolded in_promotion_def] reject_inv [unfolded in_promotion_def]
    release_inv resolve_inv settle_unknown_inv settle_not_accepted_inv form_begin_inv
    form_finish_inv form_end_inv detached_forms_inv cancel_inv abort_inv close_owner_inv tick_inv\<close>)

lemma co_run_inv: "co_run sha s h \<Longrightarrow> co_inv sha {} s"
  by (induction rule: co_run.induct) (auto intro: coordinator_init_inv perform_inv)

end
