(* ===== verification/Interaction_Claims.thy ===== *)
theory Interaction_Claims
  imports Interaction_Safety
begin

text \<open>
  The properties of the interaction coordinator: no waiter is lost, what the controller and
  the bus see, the hooks, the authority behind an answer that lets a tool run, promotion and
  close.
\<close>

declare lit_Cons [simp del]

section \<open>The promotion loop\<close>

lemma promote_next_ok:
  "co_inv sha {} s \<Longrightarrow> length (retained s) < n \<Longrightarrow>
   \<exists>t. promote_next sha hook n s = Some (Inr (), t) \<and> co_inv sha {} t \<and> promoted t"
proof (induction n arbitrary: s)
  case 0
  then show ?case by simp
next
  case (Suc n)
  let ?raised = "case promote_head s of None \<Rightarrow> None | Some (i, _) \<Rightarrow> hook i"
  from promote_select_ok [OF Suc.prems(1)] obtain p t where
    t: "promote_select sha ?raised s = (Inr p, t)" "co_inv sha {} t"
    "case p of Promotion_Stop \<Rightarrow> promoted t
     | Promotion_Again \<Rightarrow> length (retained t) < length (retained s)
     | Promotion_Chosen i \<Rightarrow> co_pending t = Some i \<and> in_promotion i t \<and>
         \<not> ca_visible (cand t i) \<and> length (retained t) = length (retained s)" .
  show ?case
  proof (cases p)
    case Promotion_Stop
    with t show ?thesis by simp
  next
    case Promotion_Again
    with t Suc.IH [OF t(2)] Suc.prems(2) show ?thesis by simp
  next
    case (Promotion_Chosen i)
    with t(3) have c: "co_pending t = Some i" "in_promotion i t" "\<not> ca_visible (cand t i)"
      "length (retained t) = length (retained s)" by auto
    have rej: "\<exists>v. promote_reject sha i u = (Inr Promotion_Again, v) \<and>
        (\<exists>w. promote_next sha hook n v = Some (Inr (), w) \<and> co_inv sha {} w \<and> promoted w)"
      if u: "co_inv sha {} u" "in_promotion i u" "ca_raised (cand u i) \<noteq> None"
        "co_pending u = Some i" "\<not> ca_visible (cand u i)" "length (retained u) = length (retained s)" for u
    proof -
      from reject_ok [OF u(1-3)] obtain v where v: "promote_reject sha i u = (Inr Promotion_Again, v)"
        "co_inv sha {} v"
        "retained v = (if ca_resolving (cand u i) then retained u else remove1 i (retained u))" .
      with pending_flow(6,7) [OF u(1,4)] u(5,6) Suc.prems(2)
      have "length (retained v) < n" by simp
      from Suc.IH [OF v(2) this] v(1) show ?thesis by blast
    qed
    show ?thesis
    proof (cases "ca_raised (cand t i) = None")
      case False
      from rej [OF t(2) c(2) this c(1,3,4)] t(1) Promotion_Chosen False show ?thesis by auto
    next
      case True
      from publish_ok [OF t(2) c(2) True] obtain q u where
        u: "promote_publish sha i t = (q, u)" "co_inv sha {} u"
        "co_pending t = Some i \<longrightarrow> (case q of
           Inl _ \<Rightarrow> in_promotion i u \<and> ca_raised (cand u i) \<noteq> None \<and> co_pending u = Some i \<and>
             \<not> ca_visible (cand u i) \<and> length (retained u) = length (retained t)
         | Inr Promotion_Stop \<Rightarrow> promoted u
         | Inr _ \<Rightarrow> length (retained u) < length (retained t))" .
      show ?thesis
      proof (cases q)
        case (Inl e)
        with u(3) c(1,4) rej [OF u(2)] t(1) u(1) Promotion_Chosen True show ?thesis by auto
      next
        case (Inr q')
        with u(3) c(1,4) Suc.prems(2) t(1) u(1,2) Promotion_Chosen True Suc.IH [OF u(2)]
        show ?thesis by (cases q') auto
      qed
    qed
  qed
qed

section \<open>What an operation may do to an answer\<close>

text \<open>
  Requests and settlements stay; an answer, once given, stays; a new answer is no permission.
\<close>

definition keeps :: "coordinator \<Rightarrow> coordinator \<Rightarrow> bool" where
  "keeps s t \<longleftrightarrow> length (co_store t) = length (co_store s) \<and>
     (\<forall>i < length (co_store s). ca_settlement (cand t i) = ca_settlement (cand s i) \<and>
        (ca_outcome (cand t i) = ca_outcome (cand s i) \<or>
         ca_outcome (cand s i) = None \<and> \<not> allowed (ca_outcome (cand t i))))"

lemma keeps_refl [simp]: "keeps s s"
  by (simp add: keeps_def)

lemma keeps_store: "co_store t = co_store s \<Longrightarrow> keeps s t"
  by (simp add: keeps_def cand_def)

lemma keeps_trans [trans]: "keeps s t \<Longrightarrow> keeps t u \<Longrightarrow> keeps s u"
  unfolding keeps_def by (auto simp: allowed_def) metis+

lemma keeps_upd:
  assumes "\<And>c. ca_settlement (f c) = ca_settlement c" "\<And>c. ca_outcome (f c) = ca_outcome c"
  shows "keeps s (upd i f s)"
  using assms by (simp add: keeps_def)

lemma keeps_outcome: "\<not> allowed (Some v) \<Longrightarrow> keeps s (set_outcome i v s)"
  by (auto simp: keeps_def set_outcome_def)

lemma keeps_bind:
  assumes "keeps s (snd (m s))" and "\<And>x t. m s = (Inr x, t) \<Longrightarrow> keeps t (snd (f x t))"
  shows "keeps s (snd (co_bind m f s))"
proof (cases "m s")
  case (Pair r t)
  with assms keeps_trans [of s t] show ?thesis by (cases r) (auto simp: co_bind_def)
qed

lemma keeps_discard: "keeps s (discard_hooks i s)"
  by (auto simp: discard_hooks_def discard_token_def keeps_def split: option.split)

lemma keeps_offer: "keeps s (snd (offer_interaction_event sha e n v r s))"
  by (auto simp: offer_interaction_event_def keeps_store split: sum.split)

lemma denied_not_allowed:
  "\<not> allowed (Some (Answered (plain_resolution (lit ''DENY'') a b)))"
  "\<not> allowed (Some (Answered (form_resolution x v)))" "\<not> allowed (Some (Failed e))"
  by (simp_all add: allowed_def plain_resolution_def form_resolution_def)

lemma keeps_close: "keeps s (snd (close_candidate sha i r s))"
proof -
  have "keeps (s\<lparr>co_live := l\<rparr>) (snd (co_bind (offer_interaction_event sha e n v w)
      (\<lambda>_ t. (Inr (), t\<lparr>co_pending := None\<rparr>)) (s\<lparr>co_live := l\<rparr>)))" for e n v w l
    by (rule keeps_bind [OF keeps_offer]) (simp add: keeps_store)
  then have "keeps s (snd (co_bind (offer_interaction_event sha e n v w)
      (\<lambda>_ t. (Inr (), t\<lparr>co_pending := None\<rparr>)) (s\<lparr>co_live := l\<rparr>)))" for e n v w l
    by (rule keeps_trans [rotated]) (simp add: keeps_store)
  then show ?thesis by (auto simp: close_candidate_def keeps_store split: sum.split)
qed

lemma keeps_invalidate: "keeps s (snd (invalidate sha i reason s))"
proof -
  let ?s = "upd i (ca_invalidation_update (\<lambda>_. Some (reason_for s i reason))) s"
  have s: "keeps s ?s" by (rule keeps_upd) simp_all
  have 1: "keeps ?s (upd i (ca_form_cancelled_update (\<lambda>_. True)) ?s)" by (rule keeps_upd) simp_all
  have 2: "keeps ?s (snd (co_bind (close_candidate sha i x) (\<lambda>_ t. (Inr (),
      upd i (ca_settled_update (\<lambda>_. True)) (set_outcome i
        (Answered (plain_resolution (lit ''DENY'') a b)) t))) ?s))" for x a b
    by (rule keeps_bind [OF keeps_close])
      (auto intro!: keeps_trans [OF keeps_outcome [OF denied_not_allowed(1)] keeps_upd])
  show ?thesis
    using s keeps_trans [OF s 1] keeps_trans [OF s 2]
    by (simp add: invalidate_def Let_def flip: reason_for_def)
qed

lemma keeps_invalidate_discard:
  "keeps s (snd (co_bind (invalidate sha i r) (\<lambda>_ u. (Inr x, discard_hooks i u)) s))"
  by (rule keeps_bind [OF keeps_invalidate]) (simp add: keeps_discard)

lemma keeps_invalidate_all: "keeps s (snd (invalidate_all sha reason is s))"
proof -
  have "keeps s (snd (invalidate_each sha reason is s))" for s
    by (induction "is" arbitrary: s) (auto intro: keeps_bind keeps_invalidate)
  moreover have "keeps s (discard_idle is s)" for s
    by (induction "is" arbitrary: s) (auto intro: keeps_trans [OF keeps_discard])
  ultimately show ?thesis by (auto simp: invalidate_all_def intro!: keeps_bind)
qed

lemma keeps_select: "keeps s (snd (promote_select sha raised s))"
proof (cases "promote_head s")
  case None
  then show ?thesis by (simp add: promote_select_def)
next
  case (Some x)
  obtain i t where x: "x = (i, t)" by (cases x)
  with Some have "co_store t = co_store s" by (auto simp: promote_head_def split: option.splits list.splits)
  then have t: "keeps s t" by (rule keeps_store)
  have 1: "keeps t (upd i (\<lambda>c. c\<lparr>ca_promoting := True,
        ca_raised := (if ca_admitted c \<or> ca_hooks c = None then None else raised),
        ca_admitted := (ca_admitted c \<or> ca_hooks c = None \<or> raised = None)\<rparr>) t)"
    by (rule keeps_upd) simp_all
  show ?thesis
    using Some x keeps_trans [OF t 1] keeps_trans [OF t keeps_invalidate_discard] t
    by (auto simp: promote_select_def split: option.split)
qed

lemma keeps_release: "keeps s (promote_release i s)"
  unfolding promote_release_def by (rule keeps_upd) simp_all

lemma keeps_install: "keeps s (snd (promote_install sha i s))"
proof -
  have "keeps s (snd (co_bind (offer_interaction_event sha e n v w) (\<lambda>_ u. (Inr x, u))
      (upd i (\<lambda>c. c\<lparr>ca_revision := y, ca_visible := True\<rparr>) (s\<lparr>co_live := l\<rparr>))))" for e n v w x y l
  proof -
    have "keeps s (upd i (\<lambda>c. c\<lparr>ca_revision := y, ca_visible := True\<rparr>) (s\<lparr>co_live := l\<rparr>))"
      by (rule keeps_trans [OF keeps_store keeps_upd]) simp_all
    then show ?thesis by (rule keeps_trans) (rule keeps_bind [OF keeps_offer], simp)
  qed
  then show ?thesis
    by (auto simp: promote_install_def Let_def keeps_discard keeps_invalidate_discard
        split: option.split sum.split)
qed

lemma keeps_publish: "keeps s (snd (promote_publish sha i s))"
proof (cases "promote_install sha i s")
  case (Pair r t)
  then have t: "keeps s t" using keeps_install [of s sha i] by simp
  have "keeps t (upd i (ca_raised_update (\<lambda>_. x)) t)" for x by (rule keeps_upd) simp_all
  with Pair t show ?thesis
    by (cases r) (auto simp: promote_publish_def intro: keeps_trans keeps_release)
qed

lemma keeps_reject: "keeps s (snd (promote_reject sha i s))"
proof (cases "ca_raised (cand s i)")
  case (Some name)
  let ?r = "(lit ''interaction:admission-rejected'',
     lit ''tool confirmation admission was rejected: '' @ name)"
  obtain r t where t: "invalidate sha i ?r s = (r, t)" by fastforce
  then have "keeps s t" using keeps_invalidate [of s sha i ?r] by simp
  then show ?thesis
    using Some t by (cases r)
      (auto simp: promote_reject_def intro: keeps_trans keeps_trans [OF keeps_discard keeps_release] keeps_release)
qed (simp add: promote_reject_def)

lemma keeps_publish_resolving: "keeps s (snd (publish_resolving sha i s))"
proof -
  have "keeps s (snd (offer_interaction_event sha e n v w
      (upd i (ca_revision_update (\<lambda>_. y)) (s\<lparr>co_live := l\<rparr>))))" for e n v w y l
    by (rule keeps_trans [OF keeps_trans [OF keeps_store keeps_upd] keeps_offer]) simp_all
  then show ?thesis
    by (auto simp: publish_resolving_def Let_def split: sum.split option.split)
qed

lemma keeps_settle_unknown: "keeps s (snd (settle_unknown sha i s))"
proof -
  have "keeps t (discard_hooks i (upd i (ca_settled_update (\<lambda>_. True))
      (set_outcome i (Failed e) (upd i (ca_resolving_update (\<lambda>_. False)) t))))" for t e
    by (rule keeps_trans [OF keeps_trans [OF keeps_trans [OF keeps_upd
          keeps_outcome [OF denied_not_allowed(3)]] keeps_upd] keeps_discard]) simp_all
  then show ?thesis unfolding settle_unknown_def by (intro keeps_bind keeps_close) simp
qed

lemma keeps_settle_not_accepted: "keeps s (snd (settle_not_accepted sha i s))"
proof -
  let ?t = "upd i (ca_resolving_update (\<lambda>_. False)) s"
  have t: "keeps s ?t" by (rule keeps_upd) simp_all
  have 1: "keeps ?t (snd (co_bind (publish_resolving sha i)
      (\<lambda>_ u. (e, upd i (ca_settled_update (\<lambda>_. True)) u)) ?t))" for e :: "unit result"
    by (rule keeps_bind [OF keeps_publish_resolving]) (simp, rule keeps_upd, simp_all)
  have 2: "keeps ?t (snd (co_bind (close_candidate sha i w)
      (\<lambda>_ u. (e, discard_hooks i (upd i (ca_settled_update (\<lambda>_. True))
         (set_outcome i (Answered (plain_resolution (lit ''DENY'') a b)) u)))) ?t))"
    for e :: "unit result" and w a b
  proof (rule keeps_bind [OF keeps_close])
    show "keeps u (snd (e, discard_hooks i (upd i (ca_settled_update (\<lambda>_. True))
         (set_outcome i (Answered (plain_resolution (lit ''DENY'') a b)) u))))" for u
      unfolding snd_conv
      by (rule keeps_trans [OF keeps_trans [OF keeps_outcome [OF denied_not_allowed(1)] keeps_upd]
            keeps_discard]) simp_all
  qed
  show ?thesis
    using keeps_trans [OF t 1] keeps_trans [OF t 2]
    by (simp add: settle_not_accepted_def Let_def split: option.split)
qed

lemma keeps_form_finish: "keeps s (snd (resolve_form_finish sha i a d v s))"
proof -
  have 1: "keeps s (snd (co_bind (offer_interaction_event sha e n w x)
      (\<lambda>_ t. case resolution_post_init (form_resolution b v) of
           Inl e \<Rightarrow> (Inl e, t\<lparr>co_pending := None\<rparr>)
         | Inr r \<Rightarrow> (Inr (), set_outcome i (Answered r) (t\<lparr>co_pending := None\<rparr>))) (s\<lparr>co_live := l\<rparr>)))"
    for e n w x b l
  proof (rule keeps_trans [of s "s\<lparr>co_live := l\<rparr>"])
    show "keeps s (s\<lparr>co_live := l\<rparr>)" by (rule keeps_store) simp
    show "keeps (s\<lparr>co_live := l\<rparr>) (snd (co_bind (offer_interaction_event sha e n w x)
      (\<lambda>_ t. case resolution_post_init (form_resolution b v) of
           Inl e \<Rightarrow> (Inl e, t\<lparr>co_pending := None\<rparr>)
         | Inr r \<Rightarrow> (Inr (), set_outcome i (Answered r) (t\<lparr>co_pending := None\<rparr>))) (s\<lparr>co_live := l\<rparr>)))"
      by (rule keeps_bind [OF keeps_offer])
        (simp add: form_resolution_ok keeps_trans [OF keeps_store keeps_outcome [OF denied_not_allowed(2)]])
  qed
  then show ?thesis by (auto simp: resolve_form_finish_def Let_def split: sum.split)
qed

lemma perform_keeps:
  assumes "perform sha op s = Some t"
    and "case op of Op_Request _ _ _ _ \<Rightarrow> False | Op_Resolve _ \<Rightarrow> False | Op_Accepted _ _ \<Rightarrow> False | _ \<Rightarrow> True"
  shows "keeps s t"
proof (cases op)
  case (Op_Form_Begin a i e n d b)
  have "keeps s (upd j (\<lambda>c. c\<lparr>ca_settled := False, ca_resolving := True\<rparr>) s)" for j
    by (rule keeps_upd) simp_all
  with Op_Form_Begin assms(1) show ?thesis by (auto simp: resolve_form_begin_def split: sum.splits if_splits)
next
  case (Op_Form_End i)
  have "keeps s (resolve_form_end i s)" unfolding resolve_form_end_def by (rule keeps_upd) simp_all
  with Op_Form_End assms(1) show ?thesis by (simp add: guarded_Some)
next
  case Op_Abort_Round
  have "keeps s (snd (abort_round sha s))"
    unfolding abort_round_def by (rule keeps_bind [OF keeps_invalidate_all]) simp
  with Op_Abort_Round assms(1) show ?thesis by simp
qed (use assms in \<open>auto simp: guarded_Some attach_controller_def detach_controller_def close_owner_def
    keeps_store keeps_select keeps_publish keeps_reject keeps_release keeps_settle_unknown
    keeps_settle_not_accepted keeps_form_finish keeps_discard detached_forms_def
    cancel_tool_confirmations_def abort_candidate_def keeps_invalidate_all split: list.splits if_splits\<close>)

section \<open>Histories\<close>

lemma request_candidates:
  assumes "request sha rq is rs as s = Some (v, t)"
  shows "(length (co_store t) = length (co_store s) \<or> length (co_store t) = Suc (length (co_store s)) \<and>
       ca_outcome (cand t (length (co_store s))) = None \<and>
       ca_settlement (cand t (length (co_store s))) = None) \<and>
     (\<forall>i < length (co_store s). cand t i = cand s i)"
  using assms
  by (auto simp: request_def Let_def discard_token_def new_candidate_def
      split: option.splits sum.splits)

text \<open>The three operations that may open, allow or extend a settlement.\<close>

lemma step_cases:
  assumes run: "co_run sha s h" and w: "op_promised op s" and t: "perform sha op s = Some t"
    and i: "i < length (co_store t)"
  obtains "i < length (co_store s)" "ca_settlement (cand t i) = ca_settlement (cand s i)"
      "ca_outcome (cand t i) = ca_outcome (cand s i) \<or>
       ca_outcome (cand s i) = None \<and> \<not> allowed (ca_outcome (cand t i))"
    | "length (co_store s) \<le> i" "ca_settlement (cand t i) = None" "ca_outcome (cand t i) = None"
    | cmd d where "op = Op_Resolve cmd" "may_resolve cmd s i" "i < length (co_store s)"
      "ca_settlement (cand t i) = Some (decision_write_of (cand s i) cmd d)"
      "ca_outcome (cand t i) = ca_outcome (cand s i)"
    | a where "op = Op_Accepted i a" "in_settlement i s" "i < length (co_store s)"
      "repository_answers (ca_settlement (cand s i)) a"
      "ca_settlement (cand t i) = ca_settlement (cand s i)" "ca_outcome (cand s i) = None"
      "ca_outcome (cand t i) = Some (Answered (accepted_resolution a))"
proof -
  note inv = co_run_inv [OF run]
  consider rq x y z where "op = Op_Request rq x y z" | cmd where "op = Op_Resolve cmd"
    | j a where "op = Op_Accepted j a"
    | "case op of Op_Request _ _ _ _ \<Rightarrow> False | Op_Resolve _ \<Rightarrow> False | Op_Accepted _ _ \<Rightarrow> False | _ \<Rightarrow> True"
    by (cases op) auto
  then show thesis
  proof cases
    case (1 rq x y z)
    with t obtain v where "request sha rq x y z s = Some (v, t)" by auto
    from request_candidates [OF this] i that(1,2) show thesis
      by (cases "i < length (co_store s)") (auto simp: less_Suc_eq)
  next
    case (2 cmd)
    show thesis
    proof (cases "\<exists>j. may_resolve cmd s j")
      case False
      with resolve_begin_refused [OF inv False] 2 t i that(1) show thesis by auto
    next
      case True
      then obtain j where m: "may_resolve cmd s j" ..
      from w 2 have sc: "list_all is_scalar (rc_command_id cmd)" by simp
      obtain l n os d where
        "resolve_begin sha cmd s = (Inr j, upd j (\<lambda>c. c\<lparr>ca_settled := False, ca_resolving := True,
           ca_revision := n, ca_settlement := Some (decision_write_of c cmd d)\<rparr>)
           (s\<lparr>co_live := l, co_offers := os\<rparr>))"
        by (rule resolve_begin_ok [OF inv sc m]) blast
      then have "t = upd j (\<lambda>c. c\<lparr>ca_settled := False, ca_resolving := True,
           ca_revision := n, ca_settlement := Some (decision_write_of c cmd d)\<rparr>)
           (s\<lparr>co_live := l, co_offers := os\<rparr>)" using 2 t by simp
      with i 2 m that(1) that(3) [of cmd d] show thesis
        by (cases "i = j") auto
    qed
  next
    case (3 j a)
    with t have q: "in_settlement j s" "t = snd (settle_accepted sha j a s)" by (auto simp: guarded_Some)
    from 3 w have "repository_answers (ca_settlement (cand s j)) a" by simp
    from settle_accepted_ok [OF inv q(1) this] this q i 3 that(1) that(4) [of a]
      settlement_facts(7) [OF inv q(1)] show thesis
      by (cases "i = j") auto
  next
    case 4
    from perform_keeps [OF t this] i that(1) show thesis by (auto simp: keeps_def)
  qed
qed

lemma store_grows:
  assumes "co_run sha s h" and "op_promised op s" and "perform sha op s = Some t"
  shows "length (co_store s) \<le> length (co_store t)"
proof (cases op)
  case (Op_Request rq a b c)
  with assms(3) obtain x where "request sha rq a b c s = Some (x, t)" by auto
  from request_candidates [OF this] show ?thesis by auto
next
  case (Op_Resolve cmd)
  note inv = co_run_inv [OF assms(1)]
  have sc: "list_all is_scalar (rc_command_id cmd)" using assms(2) Op_Resolve by simp
  have t: "t = snd (resolve_begin sha cmd s)" using assms(3) Op_Resolve by simp
  show ?thesis
  proof (cases "\<exists>j. may_resolve cmd s j")
    case True
    then obtain j where "may_resolve cmd s j" ..
    then show ?thesis unfolding t by (rule resolve_begin_ok [OF inv sc]) simp
  next
    case False
    with resolve_begin_refused [OF inv False] t show ?thesis by auto
  qed
next
  case (Op_Accepted j a)
  with assms(2,3) settle_accepted_ok [OF co_run_inv [OF assms(1)], of j a] show ?thesis
    by (auto simp: guarded_Some)
qed (use perform_keeps [OF assms(3)] in \<open>simp_all add: keeps_def\<close>)

lemma run_settlement:
  assumes "co_run sha s h" and "i < length (co_store s)" and "ca_settlement (cand s i) = Some w"
  shows "\<exists>p cmd q s1 d. h = p @ Op_Resolve cmd # q \<and> co_run sha s1 p \<and> may_resolve cmd s1 i \<and>
     w = decision_write_of (cand s1 i) cmd d"
  using assms
proof (induction arbitrary: w rule: co_run.induct)
  case (co_run_init session_id ep me mb live gen now)
  then show ?case by (simp add: coordinator_init_def)
next
  case (co_run_step s h op t)
  from co_run_step.hyps co_run_step.prems(1) show ?case
  proof (cases rule: step_cases)
    case 1
    with co_run_step.IH co_run_step.prems(2) show ?thesis by (metis append.assoc append_Cons)
  next
    case 2
    with co_run_step.prems(2) show ?thesis by simp
  next
    case (3 cmd d)
    then have "h @ [op] = h @ Op_Resolve cmd # []" "w = decision_write_of (cand s i) cmd d"
      using co_run_step.prems(2) by simp_all
    with 3(2) co_run_step.hyps(1) show ?thesis by blast
  next
    case (4 a)
    with co_run_step.IH co_run_step.prems(2) show ?thesis by (metis append.assoc append_Cons)
  qed
qed

lemma run_answer:
  assumes "co_run sha s h" and "i < length (co_store s)" and "allowed (ca_outcome (cand s i))"
  shows "\<exists>p cmd q a u s1. h = p @ Op_Resolve cmd # q @ Op_Accepted i a # u \<and> co_run sha s1 p \<and>
     may_resolve cmd s1 i \<and> rc_decision cmd = lit ''ALLOW'' \<and> ad_decision a = lit ''ALLOW'' \<and>
     ca_outcome (cand s i) = Some (Answered (accepted_resolution a))"
  using assms
proof (induction rule: co_run.induct)
  case (co_run_init session_id ep me mb live gen now)
  then show ?case by (simp add: coordinator_init_def)
next
  case (co_run_step s h op t)
  from co_run_step.hyps co_run_step.prems(1) show ?case
  proof (cases rule: step_cases)
    case 1
    with co_run_step.prems(2) have "ca_outcome (cand t i) = ca_outcome (cand s i)" by auto
    with 1 co_run_step.IH co_run_step.prems(2) show ?thesis by (metis append.assoc append_Cons)
  next
    case 2
    with co_run_step.prems(2) show ?thesis by (simp add: allowed_def)
  next
    case (3 cmd d)
    with co_run_step.IH co_run_step.prems(2) show ?thesis by (metis append.assoc append_Cons)
  next
    case (4 a)
    with co_run_step.prems(2) have a: "ad_decision a = lit ''ALLOW''"
      by (simp add: allowed_def accepted_resolution_def)
    from 4 obtain w where w: "ca_settlement (cand s i) = Some w" "dw_decision w = lit ''ALLOW''"
      by (auto simp: repository_answers_def a)
    from run_settlement [OF co_run_step.hyps(1) 4(3) w(1)] obtain p cmd q s1 d where
      h: "h = p @ Op_Resolve cmd # q" "co_run sha s1 p" "may_resolve cmd s1 i"
        "w = decision_write_of (cand s1 i) cmd d" by blast
    then have "rc_decision cmd = lit ''ALLOW''" using w(2) by (simp add: decision_write_of_def Let_def)
    moreover have "h @ [op] = p @ Op_Resolve cmd # q @ Op_Accepted i a # []" using h(1) 4(1) by simp
    ultimately show ?thesis using h(2,3) 4(7) a by metis
  qed
qed

section \<open>A run in which a tool is allowed\<close>

definition demo_sha :: "bytes \<Rightarrow> bytes" where
  "demo_sha = (\<lambda>_. replicate 16 0)"

definition demo_payload :: pystr where
  "demo_payload = lit '':aaaaaaaaaaaaaaaaaaaaaaaaaa''"

definition demo_request :: interaction_request where
  "demo_request = \<lparr>rq_turn_id = lit ''t'', rq_assistant_entry_id = lit ''e'',
     rq_tool_call_id = lit ''c'', rq_tool_name = lit ''ls'', rq_fingerprint = lit ''f'',
     rq_hooks = Some \<lparr>ah_token = 7, ah_owner_key = None\<rparr>, rq_form = None,
     rq_cell_stopped = False, rq_expires = lit ''2026''\<rparr>"

definition demo_live :: live_control where
  "demo_live = \<lparr>lc_session_id = lit ''s'', lc_maximum_events = 8, lc_maximum_public_bytes = 4096,
     lc_owner_epoch = 1, lc_revision = 0, lc_current = None, lc_ring = [], lc_ring_bytes = 0,
     lc_subscribers = [], lc_closed = False\<rparr>"

definition demo_candidate :: pending_tool_interaction where
  "demo_candidate = new_candidate demo_request (lit ''interaction'' @ demo_payload)
     (lit ''result'' @ demo_payload) (lit ''entry'' @ demo_payload) (lit ''attempt'' @ demo_payload) 0"

definition demo_command :: resolve_command where
  "demo_command = \<lparr>rc_writer_generation = 3, rc_owner_epoch = 1, rc_live_revision = 1,
     rc_interaction_id = lit ''interaction'' @ demo_payload, rc_command_id = lit ''k'',
     rc_decision = lit ''ALLOW'', rc_actor_id = lit ''ui''\<rparr>"

definition demo_accepted :: accepted_decision where
  "demo_accepted = \<lparr>ad_decision_id = lit ''d'', ad_command_id = lit ''k'', ad_decision = lit ''ALLOW'',
     ad_assistant_entry_id = lit ''e'', ad_tool_call_id = lit ''c'', ad_attempt_id = Some (lit ''a''),
     ad_result_entry_id = None, ad_fingerprint = lit ''f'', ad_result_id = None,
     ad_result_entry_sequence = None, ad_result_observed_at = None\<rparr>"

definition demo_shown :: coordinator where
  "demo_shown = snd (promote_publish demo_sha 0 ((coordinator_init (lit ''s'') 3 demo_live 0)
     \<lparr>co_controller := Some (lit ''ui''), co_pending := Some 0,
      co_store := [demo_candidate\<lparr>ca_promoting := True, ca_admitted := True\<rparr>]\<rparr>))"

definition demo_resolving :: coordinator where
  "demo_resolving = snd (resolve_begin demo_sha demo_command demo_shown)"

definition demo_allowed :: coordinator where
  "demo_allowed = snd (settle_accepted demo_sha 0 demo_accepted demo_resolving)"

definition demo_ops :: "co_op list" where
  "demo_ops = [Op_Attach (lit ''ui''),
     Op_Request demo_request [lit ''interaction'' @ demo_payload] [lit ''result'' @ demo_payload]
       [lit ''attempt'' @ demo_payload],
     Op_Select None, Op_Publish 0, Op_Resolve demo_command, Op_Accepted 0 demo_accepted]"

lemma base32_zero: "base32 (replicate 16 0) = lit ''aaaaaaaaaaaaaaaaaaaaaaaaaa''"
  by (simp add: base32_def byte_bits_def base32_digit_def numeral_eq_Suc lit_Cons)

lemma demo_payload_eq: "lit '':'' @ base32 (replicate 16 0) = demo_payload"
  by (simp add: base32_zero demo_payload_def lit_def)

lemma demo_drawn:
  "is_kind (lit kind) \<Longrightarrow> drawn kind [lit kind @ demo_payload]"
  by (auto simp: drawn_def random_id_def check_kind_def demo_payload_eq
      intro!: exI [of _ "replicate 16 0"])

lemma demo_kinds: "is_kind (lit ''interaction'')" "is_kind (lit ''result'')" "is_kind (lit ''attempt'')"
  by (simp_all add: is_kind_def identity_kinds_def)

lemma demo_derive:
  "derive_id demo_sha (lit ''entry'') (lit ''tool-result'') [lit ''result'' @ demo_payload] =
     Inr (lit ''entry'' @ demo_payload)"
proof -
  have "\<exists>i. derive_id demo_sha (lit ''entry'') (lit ''tool-result'') [lit ''result'' @ demo_payload] = Inr i"
    by (rule derive_id_total) (auto simp: is_kind_def identity_kinds_def scalar_lit demo_payload_def)
  moreover have "i = lit ''entry'' @ demo_payload"
    if "derive_id demo_sha (lit ''entry'') (lit ''tool-result'') [lit ''result'' @ demo_payload] = Inr i" for i
    using derive_id_shape [OF that] by (auto simp: demo_sha_def demo_payload_eq)
  ultimately show ?thesis by blast
qed

lemma demo_size: "interaction_size (interaction_view_of demo_candidate) demo_live = Inr 77"
  by (simp add: interaction_size_def interaction_view_of_def demo_candidate_def demo_live_def
      new_candidate_def demo_request_def demo_payload_def utf8_total_def utf8_size_def utf8_encode_def
      lit_Cons is_scalar_def utf8_char_def utf8_values_def utf8_bytes_def)

lemma demo_run_select:
  "co_run demo_sha ((coordinator_init (lit ''s'') 3 demo_live 0)
     \<lparr>co_controller := Some (lit ''ui''), co_pending := Some 0,
      co_store := [demo_candidate\<lparr>ca_promoting := True, ca_admitted := True\<rparr>]\<rparr>) (take 3 demo_ops)"
proof -
  let ?s = "coordinator_init (lit ''s'') 3 demo_live 0"
  let ?s1 = "?s\<lparr>co_controller := Some (lit ''ui'')\<rparr>"
  let ?s2 = "?s1\<lparr>co_store := [demo_candidate], co_dormant := [0]\<rparr>"
  let ?s3 = "?s1\<lparr>co_pending := Some 0,
      co_store := [demo_candidate\<lparr>ca_promoting := True, ca_admitted := True\<rparr>]\<rparr>"
  have "live_control_init (lit ''s'') 1 8 4096 = Inr demo_live"
    by (simp add: live_control_init_def demo_live_def)
  from co_run_init [OF this scalar_lit] have 0: "co_run demo_sha ?s []" .
  have 1: "co_run demo_sha ?s1 ([] @ [Op_Attach (lit ''ui'')])"
    by (rule co_run_step [OF 0]) (simp_all add: attach_controller_def coordinator_init_def)
  have 2: "co_run demo_sha ?s2 (([] @ [Op_Attach (lit ''ui'')]) @ [demo_ops ! 1])"
    using demo_drawn demo_kinds
    by (intro co_run_step [OF 1])
      (simp_all add: demo_ops_def request_def request_denial_def demo_request_def coordinator_init_def
        retained_def maximum_dormant_interaction_candidates_def demo_derive demo_candidate_def
        tokens_def List.map_filter_simps)
  have "perform demo_sha (Op_Select None) ?s2 = Some ?s3"
    by (simp add: promote_select_def coordinator_init_def has_controller_def promote_head_def
        invalidation_def cand_def demo_candidate_def new_candidate_def demo_request_def
        interaction_timeout_seconds_def upd_def)
  then have "co_run demo_sha ?s3 ((([] @ [Op_Attach (lit ''ui'')]) @ [demo_ops ! 1]) @ [Op_Select None])"
    by (intro co_run_step [OF 2]) simp_all
  moreover have "(([] @ [Op_Attach (lit ''ui'')]) @ [demo_ops ! 1]) @ [Op_Select None] = take 3 demo_ops"
    by (simp add: demo_ops_def)
  ultimately show ?thesis by simp
qed

lemma demo_shown_eq:
  "\<exists>l r. demo_shown = (coordinator_init (lit ''s'') 3 demo_live 0)
     \<lparr>co_controller := Some (lit ''ui''), co_pending := Some 0,
      co_store := [demo_candidate\<lparr>ca_admitted := True, ca_revision := 1, ca_visible := True\<rparr>],
      co_live := l, co_offers := [r]\<rparr> \<and> lc_revision l = 1 \<and> lc_owner_epoch l = 1"
proof -
  let ?s = "(coordinator_init (lit ''s'') 3 demo_live 0)
     \<lparr>co_controller := Some (lit ''ui''), co_pending := Some 0,
      co_store := [demo_candidate\<lparr>ca_promoting := True, ca_admitted := True\<rparr>]\<rparr>"
  have live_fields: "lc_current demo_live = None" "\<not> lc_closed demo_live" by (simp_all add: demo_live_def)
  have view: "interaction_view_of (cand ?s 0) = interaction_view_of demo_candidate"
    by (simp add: cand_def)
  obtain event l where app: "lc_append INTERACTION_OPENED (Some (interaction_view_of demo_candidate))
      None 77 (demo_live\<lparr>lc_current := Some (interaction_view_of demo_candidate)\<rparr>) = (event, l)"
    by (rule prod.exhaust)
  have l: "lc_install_interaction (interaction_view_of (cand ?s 0)) None (co_live ?s) = Inr (event, l)"
    unfolding view using app
    by (simp add: lc_install_interaction_def coordinator_init_def demo_size lc_require_open_def
        live_fields)
  have "lc_revision demo_live = 0" "lc_owner_epoch demo_live = 1" by (simp_all add: demo_live_def)
  moreover have "event = fst (lc_append INTERACTION_OPENED (Some (interaction_view_of demo_candidate))
      None 77 (demo_live\<lparr>lc_current := Some (interaction_view_of demo_candidate)\<rparr>))"
    "l = snd (lc_append INTERACTION_OPENED (Some (interaction_view_of demo_candidate))
      None 77 (demo_live\<lparr>lc_current := Some (interaction_view_of demo_candidate)\<rparr>))"
    by (simp_all add: app)
  ultimately have rev: "lc_revision l = 1" "lc_owner_epoch l = 1" "lce_revision event = 1" by simp_all
  obtain r where r: "interaction_offer demo_sha (co_session_id ?s) event (ca_turn_id (cand ?s 0))
      (Some (interaction_view_of (cand ?s 0))) None = Inr r"
    by (rule publish_shown [OF co_run_inv [OF demo_run_select] _ _ _ _ l])
      (simp_all add: cand_def demo_candidate_def new_candidate_def)
  have "invalidation 0 ?s = None" "has_controller ?s"
    by (simp_all add: invalidation_def coordinator_init_def has_controller_def cand_def
        demo_candidate_def new_candidate_def demo_request_def interaction_timeout_seconds_def)
  with l r rev have "demo_shown = (coordinator_init (lit ''s'') 3 demo_live 0)
     \<lparr>co_controller := Some (lit ''ui''), co_pending := Some 0,
      co_store := [demo_candidate\<lparr>ca_admitted := True, ca_revision := 1, ca_visible := True\<rparr>],
      co_live := l, co_offers := [r]\<rparr>"
    by (simp add: demo_shown_def promote_publish_def promote_install_def co_bind_def Let_def
        offer_interaction_event_def promote_release_def upd_def coordinator_init_def cand_def
        demo_candidate_def new_candidate_def)
  with rev show ?thesis by blast
qed

lemma demo_run_shown: "co_run demo_sha demo_shown (take 4 demo_ops)"
proof -
  have "co_run demo_sha demo_shown (take 3 demo_ops @ [Op_Publish 0])"
    by (rule co_run_step [OF demo_run_select])
      (simp_all add: demo_shown_def guarded_def in_promotion_def cand_def demo_candidate_def
        new_candidate_def)
  then show ?thesis by (simp add: demo_ops_def)
qed

lemma demo_may_resolve: "may_resolve demo_command demo_shown 0"
proof -
  obtain l r where e: "demo_shown = (coordinator_init (lit ''s'') 3 demo_live 0)
     \<lparr>co_controller := Some (lit ''ui''), co_pending := Some 0,
      co_store := [demo_candidate\<lparr>ca_admitted := True, ca_revision := 1, ca_visible := True\<rparr>],
      co_live := l, co_offers := [r]\<rparr>" and "lc_revision l = 1" "lc_owner_epoch l = 1"
    using demo_shown_eq by blast
  then show ?thesis
    by (simp add: e may_resolve_def demo_command_def coordinator_init_def cand_def
        demo_candidate_def new_candidate_def demo_request_def interaction_timeout_seconds_def)
qed

lemma demo_run_allowed:
  "co_run demo_sha demo_allowed demo_ops" "length (co_store demo_allowed) = 1"
  "ca_outcome (cand demo_allowed 0) = Some (Answered (accepted_resolution demo_accepted))"
proof -
  have sc: "list_all is_scalar (rc_command_id demo_command)" by (simp add: demo_command_def scalar_lit)
  have "co_run demo_sha demo_resolving (take 4 demo_ops @ [Op_Resolve demo_command])"
    using sc by (intro co_run_step [OF demo_run_shown]) (simp_all add: demo_resolving_def)
  then have run: "co_run demo_sha demo_resolving (take 5 demo_ops)" by (simp add: demo_ops_def)
  obtain l r where e: "demo_shown = (coordinator_init (lit ''s'') 3 demo_live 0)
     \<lparr>co_controller := Some (lit ''ui''), co_pending := Some 0,
      co_store := [demo_candidate\<lparr>ca_admitted := True, ca_revision := 1, ca_visible := True\<rparr>],
      co_live := l, co_offers := [r]\<rparr>" using demo_shown_eq by blast
  have len: "length (co_store demo_shown) = 1" "ca_form (cand demo_shown 0) = None"
    by (simp_all add: e cand_def demo_candidate_def new_candidate_def demo_request_def)
  obtain l n os d where g: "demo_resolving = upd 0 (\<lambda>c. c\<lparr>ca_settled := False, ca_resolving := True,
       ca_revision := n, ca_settlement := Some (decision_write_of c demo_command d)\<rparr>)
       (demo_shown\<lparr>co_live := l, co_offers := os\<rparr>)"
    unfolding demo_resolving_def
    by (rule resolve_begin_ok [OF co_run_inv [OF demo_run_shown] sc demo_may_resolve]) simp
  have q: "in_settlement 0 demo_resolving" "length (co_store demo_resolving) = 1"
    and w: "repository_answers (ca_settlement (cand demo_resolving 0)) demo_accepted"
    by (simp_all add: g len in_settlement_def repository_answers_def decision_write_of_def Let_def
        demo_command_def demo_accepted_def accepted_post_init_def)
  have "co_run demo_sha demo_allowed (take 5 demo_ops @ [Op_Accepted 0 demo_accepted])"
    using q w by (intro co_run_step [OF run]) (simp_all add: demo_allowed_def guarded_def)
  then show "co_run demo_sha demo_allowed demo_ops" by (simp add: demo_ops_def)
  show "length (co_store demo_allowed) = 1"
    "ca_outcome (cand demo_allowed 0) = Some (Answered (accepted_resolution demo_accepted))"
    using settle_accepted_ok [OF co_run_inv [OF run] q(1) w] q(2) by (simp_all add: demo_allowed_def)
qed

section \<open>The offers on the bus\<close>

lemma block_kind_interaction:
  "block_kind LIVE_INTERACTION_OPENED = Inr BLOCK_OPERATIONAL"
  "block_kind LIVE_INTERACTION_REPLACED = Inr BLOCK_OPERATIONAL"
  "block_kind LIVE_INTERACTION_CLOSED = Inr BLOCK_OPERATIONAL"
  by (simp_all add: block_kind_def Let_def removesuffix_def suffix_def block_kind_table_def)

lemma interaction_payload_fits:
  assumes "interaction_payload e v r = Inr (ty, pl, i)"
  shows "payload_event pl = ty" and "block_kind ty = Inr BLOCK_OPERATIONAL"
    and "is_ok (payload_post_init (\<lambda>_. []) loads pl) \<Longrightarrow> i \<noteq> []"
  using assms
  by (auto simp: interaction_payload_def block_kind_interaction require_identity_def
      split: live_control_event_kind.splits option.splits if_splits)

text \<open>The bus takes every offer that the coordinator builds.\<close>

lemma interaction_offer_taken:
  assumes "interaction_offer sha sid e n v w = Inr (c, r)"
  shows "is_ok (offer_nowait sha c r bus)"
proof -
  from assms obtain ty pl i g where p: "interaction_payload e v w = Inr (ty, pl, i)"
    and ok: "payload_post_init (\<lambda>_. []) (\<lambda>_. Inl (ValueError ''unused'')) pl = Inr ()"
    and g: "derive_id sha (lit ''generation'') (lit ''channel'') [lit ''interaction'', i] = Inr g"
    and c: "c = \<lparr>lch_draft_identity = i, lch_scope_kind = lit ''ROOT'',
       lch_channel_kind = TERMINAL_EXTENSION, lch_channel_tool_call_id = None,
       lch_channel_attempt_id = None, lch_generation_id = Some g, lch_proposed_entry_id = None\<rparr>"
    and r: "r = \<lparr>lof_event_type = ty, lof_session_id = sid, lof_turn_id = n, lof_payload = pl,
       lof_block_id = Some i, lof_block_ordinal = 0, lof_block_kind = Some BLOCK_OPERATIONAL\<rparr>"
    by (auto simp: interaction_offer_def bind_result_Inr)
  note fits = interaction_payload_fits [OF p]
  have "i \<noteq> []" using fits(3) [of "\<lambda>_. Inl (ValueError ''unused'')"] ok by simp
  moreover have "g \<noteq> []" using derive_id_shape [OF g] by auto
  ultimately show ?thesis using fits(1,2)
    by (simp add: offer_nowait_def c r resolve_generation_def resolve_proposed_def Let_def
        validate_channel_of_def validate_live_channel_def validate_live_identity_def
        split: sum.split if_split)
qed

section \<open>Properties\<close>

text \<open>
  No waiter is lost: in every reachable state the requests without an answer are exactly
  the retained ones, in the order of their arrival and never more than the capacity. A
  request whose decision is being settled is the pending one, it is shown, and the event that
  a closing owner waits for is not set.
\<close>

theorem interaction_waiters:
  assumes "co_run sha s h"
  shows "(\<forall>i < length (co_store s). ca_outcome (cand s i) = None \<longleftrightarrow> i \<in> set (retained s)) \<and>
    sorted_wrt (<) (retained s) \<and> length (retained s) \<le> maximum_dormant_interaction_candidates \<and>
    (\<forall>i < length (co_store s). ca_resolving (cand s i) \<and> ca_outcome (cand s i) = None \<longrightarrow>
       co_pending s = Some i \<and> ca_visible (cand s i) \<and> \<not> ca_settled (cand s i))"
proof -
  note inv = co_run_inv [OF assms]
  have "flow_ok (co_pending s = Some i) (i \<in> set (retained s)) (cand s i)"
    if "i < length (co_store s)" for i
    using co_invD(4) [OF inv that] by (simp add: cand_inv_def)
  then show ?thesis using co_invD(1) [OF inv] unfolding flow_ok_def queue_inv_def by blast
qed

theorem interaction_waiters_witness:
  "sorted_wrt (<) (retained demo_allowed) \<and>
    length (retained demo_allowed) \<le> maximum_dormant_interaction_candidates \<and>
    0 \<notin> set (retained demo_allowed)"
  using interaction_waiters [OF demo_run_allowed(1)] demo_run_allowed(2,3) by auto

text \<open>
  C5. What the user sees: the live control shows exactly the visible pending request, with the
  mark of a running decision, and its revision is the one a decision must name. Every event
  of the live control has been offered to the live bus, once and in order, and no state of
  the bus refuses one of these offers.
\<close>

theorem interaction_live_mirror:
  assumes "co_run sha s h"
  shows "lc_current (co_live s) = shown s \<and>
    (\<forall>i. co_pending s = Some i \<and> ca_visible (cand s i) \<longrightarrow>
       ca_revision (cand s i) = lc_revision (co_live s)) \<and>
    (\<exists>events. lc_run (co_live s) events \<and>
       list_all2 (mirrors sha (co_session_id s)) events (co_offers s)) \<and>
    (\<forall>(c, r) \<in> set (co_offers s). \<forall>bus. is_ok (offer_nowait sha c r bus))"
proof -
  have live: "live_inv sha s" by (rule co_invD(3) [OF co_run_inv [OF assms]])
  then obtain events where "list_all2 (mirrors sha (co_session_id s)) events (co_offers s)"
    by (auto simp: live_inv_def)
  then have "\<exists>e. mirrors sha (co_session_id s) e r" if "r \<in> set (co_offers s)" for r
    using that by (auto simp: list_all2_conv_all_nth in_set_conv_nth)
  then have "is_ok (offer_nowait sha c r bus)" if "(c, r) \<in> set (co_offers s)" for c r bus
    using that interaction_offer_taken unfolding mirrors_def by blast
  with live show ?thesis unfolding live_inv_def by blast
qed

theorem interaction_live_mirror_witness:
  "\<exists>events. lc_run (co_live demo_shown) events \<and>
     list_all2 (mirrors demo_sha (co_session_id demo_shown)) events (co_offers demo_shown)"
  using interaction_live_mirror [OF demo_run_shown] by blast

text \<open>
  The admission hooks of a request are discarded at most once, and they are discarded as
  soon as the request is answered in any way other than the permission to run.
\<close>

theorem interaction_hooks_discarded:
  assumes "co_run sha s h"
  shows "distinct (co_discards s) \<and>
    (\<forall>i < length (co_store s). \<forall>k. ca_hooks (cand s i) = Some k \<and>
       ca_outcome (cand s i) \<noteq> None \<and> \<not> allowed (ca_outcome (cand s i)) \<longrightarrow>
       ah_token k \<in> set (co_discards s))"
proof -
  note inv = co_run_inv [OF assms]
  have "ah_token k \<in> set (co_discards s)"
    if i: "i < length (co_store s)" and k: "ca_hooks (cand s i) = Some k"
      "ca_outcome (cand s i) \<noteq> None" "\<not> allowed (ca_outcome (cand s i))" for i k
  proof -
    have "hooks_ok False (cand s i)" using co_invD(4) [OF inv i] by (simp add: cand_inv_def)
    with k have "ca_discarded (cand s i)" by (simp add: hooks_ok_def)
    with co_invD(2) [OF inv] i k(1) show ?thesis by (simp add: discard_inv_def)
  qed
  with co_invD(2) [OF inv] show ?thesis by (simp add: discard_inv_def)
qed

theorem interaction_hooks_discarded_witness:
  "distinct (co_discards demo_allowed)"
  using interaction_hooks_discarded [OF demo_run_allowed(1)] by blast

text \<open>
  C4. A tool is allowed to run only by the user: whenever a request is answered with ALLOW, its
  history contains a decision ALLOW that was admitted while the request was pending, shown,
  valid and not expired, and that came from the attachment that was the controller then, and
  after it the acceptance of this decision by the repository, whose facts are the answer.
\<close>

theorem interaction_allow_authority:
  assumes "co_run sha s h" and "i < length (co_store s)"
    and "ca_outcome (cand s i) = Some (Answered r)" and "rs_decision r = lit ''ALLOW''"
  shows "\<exists>p cmd q a u before. h = p @ Op_Resolve cmd # q @ Op_Accepted i a # u \<and>
    co_run sha before p \<and> may_resolve cmd before i \<and> rc_decision cmd = lit ''ALLOW'' \<and>
    ad_decision a = lit ''ALLOW'' \<and> r = accepted_resolution a"
proof -
  have "allowed (ca_outcome (cand s i))" using assms(3,4) by (simp add: allowed_def)
  from run_answer [OF assms(1,2) this] assms(3) show ?thesis by auto
qed

theorem interaction_allow_authority_witness:
  "\<exists>p cmd q a u before. demo_ops = p @ Op_Resolve cmd # q @ Op_Accepted 0 a # u \<and>
    co_run demo_sha before p \<and> may_resolve cmd before 0 \<and> rc_decision cmd = lit ''ALLOW'' \<and>
    ad_decision a = lit ''ALLOW'' \<and> accepted_resolution demo_accepted = accepted_resolution a"
  by (rule interaction_allow_authority [OF demo_run_allowed(1) _ demo_run_allowed(3)])
    (simp_all add: demo_run_allowed(2) accepted_resolution_def demo_accepted_def)

text \<open>
  An answer is final: no operation changes the answer of a request that has one.
\<close>

theorem interaction_answer_final:
  assumes "co_run sha s h" and "op_promised op s" and "perform sha op s = Some t"
    and "i < length (co_store s)" and "ca_outcome (cand s i) = Some v"
  shows "ca_outcome (cand t i) = Some v"
proof -
  from store_grows [OF assms(1-3)] assms(4) have i: "i < length (co_store t)" by simp
  from assms(1-3) i show ?thesis
    by (cases rule: step_cases) (use assms(4,5) in auto)
qed

theorem interaction_answer_final_witness:
  "ca_outcome (cand (snd (abort_candidate demo_sha [] (lit ''r'') [] demo_allowed)) 0) =
     Some (Answered (accepted_resolution demo_accepted))"
  by (rule interaction_answer_final [OF demo_run_allowed(1), where op = "Op_Abort [] (lit ''r'') []"])
    (simp_all add: demo_run_allowed)

text \<open>
  C28. A decision is admitted in exactly the situations of \<open>may_resolve\<close>: it is ALLOW or DENY, it
  names the writer generation, the epoch and the revision of the live control and the request
  that is pending and shown, no decision about it is running, it is a confirmation, its sender
  is the current controller and the request is neither invalidated nor expired. A refused
  decision changes nothing.
\<close>

theorem interaction_resolve_guard:
  assumes "co_run sha s h" and "list_all is_scalar (rc_command_id cmd)"
  shows "(fst (resolve_begin sha cmd s) = Inr i \<longleftrightarrow> may_resolve cmd s i) \<and>
    (\<not> is_ok (fst (resolve_begin sha cmd s)) \<longrightarrow> snd (resolve_begin sha cmd s) = s)"
proof (cases "\<exists>j. may_resolve cmd s j")
  case True
  then obtain j where j: "may_resolve cmd s j" ..
  have e: "fst (resolve_begin sha cmd s) = Inr j"
    by (rule resolve_begin_ok [OF co_run_inv [OF assms(1)] assms(2) j]) simp
  moreover have "may_resolve cmd s i \<longleftrightarrow> i = j" using j by (auto simp: may_resolve_def)
  ultimately show ?thesis by auto
next
  case False
  with resolve_begin_refused [OF co_run_inv [OF assms(1)] False] show ?thesis by auto
qed

theorem interaction_resolve_guard_witness:
  "fst (resolve_begin demo_sha demo_command demo_shown) = Inr 0"
  using interaction_resolve_guard [OF demo_run_shown, of demo_command 0] demo_may_resolve
  by (simp add: demo_command_def scalar_lit)

text \<open>
  C29. The promotion loop ends: run by one task without interruption from any reachable state,
  whatever the admission callbacks raise, it returns after at most one round per retained
  request and one more, and then there is no controller, or no request is waiting, or the
  head of the queue is shown or being promoted by another task.
\<close>

theorem interaction_promotion_ends:
  assumes "co_run sha s h"
  shows "\<exists>t. promote_next sha hook (Suc (length (retained s))) s = Some (Inr (), t) \<and>
    (\<not> has_controller t \<or> retained t = [] \<or>
     (\<exists>i. co_pending t = Some i \<and> (ca_visible (cand t i) \<or> ca_promoting (cand t i))))"
  using promote_next_ok [OF co_run_inv [OF assms], of "Suc (length (retained s))" hook]
  by (auto simp: promoted_def)

theorem interaction_promotion_ends_witness:
  "\<exists>t. promote_next demo_sha (\<lambda>_. Some (lit ''OSError'')) (Suc (length (retained demo_shown))) demo_shown
      = Some (Inr (), t) \<and>
    (\<not> has_controller t \<or> retained t = [] \<or>
     (\<exists>i. co_pending t = Some i \<and> (ca_visible (cand t i) \<or> ca_promoting (cand t i))))"
  by (rule interaction_promotion_ends [OF demo_run_shown])

text \<open>
  A closing round answers every request that no settlement holds: if it reports that nothing
  is awaited, every request has its answer; otherwise exactly one request is left, the pending
  one, and the event that the owner then waits for is not set.
\<close>

theorem interaction_close_round:
  assumes "co_run sha s h"
  shows "\<exists>finished t. abort_round sha s = (Inr finished, t) \<and>
    (finished \<longrightarrow> (\<forall>i < length (co_store t). ca_outcome (cand t i) \<noteq> None)) \<and>
    (\<not> finished \<longrightarrow> (\<exists>i. retained t = [i] \<and> co_pending t = Some i \<and>
       ca_resolving (cand t i) \<and> \<not> ca_settled (cand t i)))"
proof -
  obtain t where
    t: "abort_round sha s = (Inr (\<forall>i \<in> set (retained s). \<not> ca_resolving (cand s i)), t)"
      "co_inv sha {} t" "set (retained t) = {i \<in> set (retained s). ca_resolving (cand s i)}"
      "\<And>j. ca_resolving (cand t j) = ca_resolving (cand s j)"
    by (rule abort_round_ok [OF co_run_inv [OF assms]]) blast
  have fl: "flow_ok (co_pending t = Some i) (i \<in> set (retained t)) (cand t i)"
    if "i < length (co_store t)" for i
    using co_invD(4) [OF t(2) that] by (simp add: cand_inv_def)
  have one: "co_pending t = Some i \<and> ca_resolving (cand t i) \<and> \<not> ca_settled (cand t i)"
    if "i \<in> set (retained t)" for i
    using fl [OF retained_less [OF t(2) that]] that t(3,4) by (auto simp: flow_ok_def)
  have "retained t = [i]" if i: "i \<in> set (retained t)" for i
  proof -
    from one [OF i] have "retained t = i # co_dormant t" by (simp add: retained_def)
    moreover have "j = i" if "j \<in> set (retained t)" for j using one [OF that] one [OF i] by simp
    ultimately show ?thesis using retained_distinct [OF co_invD(1) [OF t(2)]]
      by (cases "co_dormant t") auto
  qed
  moreover have "ca_outcome (cand t i) \<noteq> None"
    if "i < length (co_store t)" "i \<notin> set (retained t)" for i
    using fl [OF that(1)] that(2) by (auto simp: flow_ok_def)
  ultimately show ?thesis using t(1,3) one by fastforce
qed

theorem interaction_close_round_witness:
  "\<exists>finished t. abort_round demo_sha demo_shown = (Inr finished, t) \<and>
    (finished \<longrightarrow> (\<forall>i < length (co_store t). ca_outcome (cand t i) \<noteq> None)) \<and>
    (\<not> finished \<longrightarrow> (\<exists>i. retained t = [i] \<and> co_pending t = Some i \<and>
       ca_resolving (cand t i) \<and> \<not> ca_settled (cand t i)))"
  by (rule interaction_close_round [OF demo_run_shown])

end
