(* ===== verification/Continuity_Values.thy ===== *)
theory Continuity_Values
  imports Json_Scalar
begin

text \<open>
  The values the provider-input owner works with (\<open>model_input/continuity.py\<close> and the types it
  takes from \<open>model_input/contracts.py\<close>, \<open>llm/request.py\<close>, \<open>llm/frozen_target.py\<close>,
  \<open>conversation_kernel/contracts.py\<close> and \<open>conversation_kernel/cold_epoch.py\<close>). They are frozen
  objects. Where the code asks whether two references are the same object (\<open>is\<close>), the record
  carries the object's identity in an \<open>oid\<close> field, so that equality of records is identity of
  objects. \<open>'v\<close> stands for the values that the owner only compares: messages, tool
  specifications, placements, decisions, wire items and the parts of a record that it never
  reads; what it computes from them is the record \<open>value_codec\<close>.
\<close>

section \<open>Steps\<close>

text \<open>
  A call returns its exception or its value together with the state it leaves, also when it
  raises: what an exception leaves behind is part of the behaviour.
\<close>

definition and_then :: "'a result \<times> 's \<Rightarrow> ('a \<Rightarrow> 's \<Rightarrow> 'b result \<times> 's) \<Rightarrow> 'b result \<times> 's" where
  "and_then r f = (case r of (Inl e, s) \<Rightarrow> (Inl e, s) | (Inr x, s) \<Rightarrow> f x s)"

lemma and_then_simps [simp]:
  "and_then (Inl e, s) f = (Inl e, s)" "and_then (Inr x, s) f = f x s"
  by (simp_all add: and_then_def)

lemma and_then_Inr:
  "and_then r f = (Inr y, t) \<longleftrightarrow> (\<exists>x s. r = (Inr x, s) \<and> f x s = (Inr y, t))"
  by (auto simp: and_then_def split: prod.splits sum.splits)

lemma and_then_snd:
  "snd (and_then r f) = (case fst r of Inl e \<Rightarrow> snd r | Inr x \<Rightarrow> snd (f x (snd r)))"
  by (auto simp: and_then_def split: prod.splits sum.splits)

definition conflict :: "string \<Rightarrow> py_error" where
  "conflict m = ProviderInputContinuityConflict m"

section \<open>Scopes, writers and cuts\<close>

datatype scope_kind = Root_Scope | Subagent_Scope

text \<open>\<open>scope_kind\<close> is declared with \<open>compare=False\<close>: two scopes are equal when their sessions are.\<close>

record continuity_scope =
  csc_session_id :: pystr
  csc_kind :: scope_kind

definition scope_post_init :: "continuity_scope \<Rightarrow> unit result" where
  "scope_post_init sc =
     (if csc_session_id sc = [] then Inl (ValueError ''provider-input continuity session is empty'')
      else Inr ())"

definition same_scope :: "continuity_scope \<Rightarrow> continuity_scope \<Rightarrow> bool" where
  "same_scope a b \<longleftrightarrow> csc_session_id a = csc_session_id b"

datatype writer_acquisition = New_Session | Same_Owner_Renewal | Host_Takeover

record writer_guard =
  wgd_session_id :: pystr
  wgd_writer_generation :: int
  wgd_writer_owner_id :: pystr

record writer_lease =
  wls_guard :: writer_guard
  wls_acquisition_kind :: writer_acquisition

record input_cut =
  cut_session_id :: pystr
  cut_turn_id :: pystr
  cut_binding_revision_id :: pystr
  cut_through_sequence :: int

definition cut_post_init :: "input_cut \<Rightarrow> unit result" where
  "cut_post_init c =
     (if cut_session_id c = [] \<or> cut_turn_id c = [] \<or> cut_binding_revision_id c = [] \<or>
         cut_through_sequence c < 0
      then Inl (ValueError ''prepared provider input cut is incomplete'') else Inr ())"

section \<open>Canonical reads\<close>

record 'v input_identity =
  cid_session_id :: pystr
  cid_turn_id :: pystr
  cid_binding_revision_id :: pystr
  cid_through_sequence :: int
  cid_scope_kind :: scope_kind
  cid_rest :: 'v

record 'v binding_fact =
  cbd_context_snapshot_id :: "pystr option"
  cbd_binding_revision_id :: pystr
  cbd_source_through_sequence :: int
  cbd_rest :: 'v

record 'v dispatch_read =
  cdr_identity :: "'v input_identity"
  cdr_binding :: "'v binding_fact"
  cdr_rest :: 'v

definition is_fingerprint :: "pystr \<Rightarrow> bool" where
  "is_fingerprint t \<longleftrightarrow> take 7 t = lit ''sha256:'' \<and> length t = 71"

record frontier =
  cfr_binding_revision_id :: pystr
  cfr_base_identity :: pystr
  cfr_through_sequence :: int
  cfr_items :: "pystr list"

definition frontier_post_init :: "frontier \<Rightarrow> unit result" where
  "frontier_post_init f =
     (if cfr_binding_revision_id f = [] \<or> cfr_through_sequence f < 0
      then Inl (ValueError ''canonical frontier identity is invalid'')
      else if \<not> is_fingerprint (cfr_base_identity f)
      then Inl (ValueError ''context base is not a canonical SHA-256 fingerprint'')
      else if \<not> list_all is_fingerprint (cfr_items f)
      then Inl (ValueError ''canonical item is not a canonical SHA-256 fingerprint'')
      else Inr ())"

text \<open>\<open>old.require_prefix_of(new)\<close>\<close>

definition require_prefix_of :: "frontier \<Rightarrow> frontier \<Rightarrow> unit result" where
  "require_prefix_of old new =
     (if cfr_base_identity old \<noteq> cfr_base_identity new
      then Inl (ValueError ''canonical context base changed inside an epoch'')
      else if cfr_through_sequence new < cfr_through_sequence old
      then Inl (ValueError ''canonical frontier sequence moved backwards'')
      else if take (length (cfr_items old)) (cfr_items new) \<noteq> cfr_items old
      then Inl (ValueError ''canonical provider-input prefix was rewritten'')
      else Inr ())"

section \<open>Targets and plans\<close>

datatype call_purpose = Agent_Model_Loop | Other_Purpose pystr

record 'v target_bundle =
  ctb_wire_api :: pystr
  ctb_rest :: 'v

text \<open>\<open>same_target\<close> is the comparison by fields (\<open>==\<close>) of two target objects.\<close>

record 'v call_target =
  ctg_oid :: nat
  ctg_session_id :: pystr
  ctg_turn_id :: pystr
  ctg_purpose :: call_purpose
  ctg_bundle :: "'v target_bundle"
  ctg_input_budget :: int
  ctg_rest :: 'v

definition same_target :: "'v call_target \<Rightarrow> 'v call_target \<Rightarrow> bool" where
  "same_target a b \<longleftrightarrow> a\<lparr>ctg_oid := 0\<rparr> = b\<lparr>ctg_oid := 0\<rparr>"

record 'v compiled_input =
  cmp_context_id :: pystr
  cmp_identity :: "'v input_identity"
  cmp_system_prompt :: pystr
  cmp_messages :: "'v list"
  cmp_placements :: "'v list"
  cmp_tools :: "'v list"
  cmp_source_decisions :: "'v list"
  cmp_tool_result_decisions :: "'v list"
  cmp_diagnostic_codes :: "'v list"
  cmp_source_collection_fingerprint :: pystr
  cmp_semantic_fingerprint :: pystr
  cmp_binding_fingerprint :: pystr
  cmp_report :: 'v

record 'v semantic_projection =
  sem_identity :: "'v input_identity"
  sem_system_prompt :: pystr
  sem_messages :: "'v list"
  sem_placements :: "'v list"
  sem_tools :: "'v list"
  sem_source_decisions :: "'v list"
  sem_tool_result_decisions :: "'v list"
  sem_diagnostic_codes :: "'v list"
  sem_source_collection_fingerprint :: pystr
  sem_binding_fingerprint :: pystr

definition projection_of :: "'v compiled_input \<Rightarrow> 'v semantic_projection" where
  "projection_of c =
     \<lparr>sem_identity = cmp_identity c, sem_system_prompt = cmp_system_prompt c,
      sem_messages = cmp_messages c, sem_placements = cmp_placements c, sem_tools = cmp_tools c,
      sem_source_decisions = cmp_source_decisions c,
      sem_tool_result_decisions = cmp_tool_result_decisions c,
      sem_diagnostic_codes = cmp_diagnostic_codes c,
      sem_source_collection_fingerprint = cmp_source_collection_fingerprint c,
      sem_binding_fingerprint = cmp_binding_fingerprint c\<rparr>"

record 'v materialization =
  wmt_root_policy :: 'v
  wmt_tool_items :: "'v list"
  wmt_input_items :: "'v list"
  wmt_projection :: 'v

record 'v wire_quote =
  wqt_wire_api :: pystr
  wqt_budget_tokens :: int
  wqt_rest :: 'v

record 'v wire_plan =
  wpl_oid :: nat
  wpl_context_id :: pystr
  wpl_semantic_fingerprint :: pystr
  wpl_placements_fingerprint :: pystr
  wpl_materialization :: "'v materialization"
  wpl_quote :: "'v wire_quote"
  wpl_rest :: 'v

record 'v native_projection =
  npj_spec_fingerprint :: pystr
  npj_wire_tool :: 'v
  npj_rest :: 'v

record 'v projection_set =
  nps_provider_names :: "pystr list"
  nps_projections :: "'v native_projection list"
  nps_rest :: 'v

record 'v exposure_plan =
  xpl_oid :: nat
  xpl_projection_set :: "'v projection_set"
  xpl_tool_specs :: "'v list"
  xpl_rest :: 'v

definition wire_tools :: "'v projection_set \<Rightarrow> 'v list" where
  "wire_tools ps = map npj_wire_tool (nps_projections ps)"

text \<open>What the code computes from the opaque values.\<close>

record 'v value_codec =
  cod_tool_name :: "'v \<Rightarrow> pystr"
  cod_tool_fingerprint :: "'v \<Rightarrow> pystr"
  cod_logical_bytes :: "pystr \<Rightarrow> 'v list \<Rightarrow> 'v list \<Rightarrow> int"
  cod_prefix_fingerprint :: "pystr \<Rightarrow> 'v list \<Rightarrow> 'v list \<Rightarrow> pystr"
  cod_placements_fingerprint :: "'v list \<Rightarrow> pystr"
  cod_head_kind :: "'v \<Rightarrow> pystr"

section \<open>Installed epochs\<close>

record 'v replay_fragment =
  frg_entry_id :: pystr
  frg_rest :: 'v

record 'v epoch_view =
  epv_oid :: nat
  epv_scope :: continuity_scope
  epv_epoch_nonce :: pystr
  epv_epoch_revision :: int
  epv_system_prompt :: pystr
  epv_tools :: "'v list"
  epv_messages :: "'v list"
  epv_placements :: "'v list"
  epv_wire_plan :: "'v wire_plan"
  epv_exposure_plan :: "'v exposure_plan"
  epv_frontier :: frontier
  epv_source_heads :: "'v list"
  epv_logical_bytes :: int
  epv_prefix_fingerprint :: pystr
  epv_fragments :: "'v replay_fragment list"
  epv_tool_result_decisions :: "'v list"

text \<open>\<open>any(... for spec, projection in zip(tools, projections, strict=True))\<close>\<close>

fun tool_proof_drifted :: "'v value_codec \<Rightarrow> 'v list \<Rightarrow> 'v native_projection list \<Rightarrow> bool result" where
  "tool_proof_drifted c [] [] = Inr False"
| "tool_proof_drifted c (t # ts) (p # ps) =
     (if cod_tool_fingerprint c t \<noteq> npj_spec_fingerprint p then Inr True
      else tool_proof_drifted c ts ps)"
| "tool_proof_drifted c [] (p # ps) =
     Inl (ValueError ''zip() argument 2 is longer than argument 1'')"
| "tool_proof_drifted c (t # ts) [] =
     Inl (ValueError ''zip() argument 2 is shorter than argument 1'')"

definition view_post_init :: "'v value_codec \<Rightarrow> 'v epoch_view \<Rightarrow> unit result" where
  "view_post_init c v =
     (let ps = xpl_projection_set (epv_exposure_plan v) in
      if epv_epoch_nonce v = [] \<or> epv_epoch_revision v < 1
      then Inl (ValueError ''provider-input epoch revision is invalid'')
      else if length (epv_placements v) \<noteq> length (epv_messages v)
      then Inl (ValueError ''provider-input epoch placements are not parallel'')
      else if \<not> is_fingerprint (wpl_semantic_fingerprint (epv_wire_plan v))
      then Inl (ValueError ''compiled semantic input is not a canonical SHA-256 fingerprint'')
      else if map (cod_tool_name c) (epv_tools v) \<noteq> nps_provider_names ps
      then Inl (ValueError ''installed native tool proof drifted'')
      else
        (case tool_proof_drifted c (epv_tools v) (nps_projections ps) of
           Inl e \<Rightarrow> Inl e
         | Inr drifted \<Rightarrow>
             if drifted \<or> wmt_tool_items (wpl_materialization (epv_wire_plan v)) \<noteq> wire_tools ps
             then Inl (ValueError ''installed native tool proof drifted'')
             else if epv_logical_bytes v \<noteq>
               cod_logical_bytes c (epv_system_prompt v) (epv_tools v) (epv_messages v)
             then Inl (ValueError ''provider-input epoch logical size mismatch'')
             else if epv_prefix_fingerprint v \<noteq>
               cod_prefix_fingerprint c (epv_system_prompt v) (epv_tools v) (epv_messages v)
             then Inl (ValueError ''provider-input epoch prefix fingerprint mismatch'')
             else if \<not> distinct (map (cod_head_kind c) (epv_source_heads v))
             then Inl (ValueError ''provider-input source heads are duplicated'')
             else if \<not> distinct (map frg_entry_id (epv_fragments v))
             then Inl (ValueError ''provider-input replay fragments are duplicated'')
             else Inr ()))"

record 'v cohort =
  coh_oid :: nat
  coh_view :: "'v epoch_view"
  coh_bundle :: "'v target_bundle"

section \<open>Compaction and its continuation\<close>

record 'v adoption =
  adp_oid :: nat
  adp_session_id :: pystr
  adp_turn_id :: pystr
  adp_scope_kind :: scope_kind
  adp_snapshot_id :: pystr
  adp_snapshot_through_sequence :: int
  adp_binding_revision_id :: pystr
  adp_predecessor_revision_id :: pystr
  adp_rest :: 'v

datatype confirmation_kind = Adoption_Full | Adoption_None | Adoption_Conflict

record 'v adoption_confirmation =
  cnf_oid :: nat
  cnf_kind :: confirmation_kind
  cnf_candidate :: "'v adoption"

record attempt_token =
  atk_oid :: nat
  atk_session_id :: pystr
  atk_turn_id :: pystr
  atk_scope_kind :: scope_kind

text \<open>
  \<open>_AdoptedCompactionContinuationAuthority\<close>: the mutable one-shot part that all variants of
  one adopted seed share. It lives in the owner's store and a seed names it by its place.
\<close>

record 'v adopted_authority =
  aut_predecessor :: "'v cohort"
  aut_destination :: "'v call_target"
  aut_confirmation :: "'v adoption_confirmation"
  aut_attempt_token :: attempt_token
  aut_candidate :: "'v adoption"
  aut_consumed :: bool

record 'v adopted_seed =
  asd_dispatch_read :: "'v dispatch_read"
  asd_binding_rewrite_identity :: pystr
  asd_tail_fingerprint :: pystr
  asd_authority :: nat

datatype 'v cold_seed =
    Canonical_Seed "'v dispatch_read"
  | Dry_Seed "'v dispatch_read" pystr pystr
  | Adopted_Seed "'v adopted_seed"

definition has_sha_prefix :: "pystr \<Rightarrow> bool" where
  "has_sha_prefix t \<longleftrightarrow> take 7 t = lit ''sha256:''"

definition dry_seed_post_init :: "pystr \<Rightarrow> pystr \<Rightarrow> unit result" where
  "dry_seed_post_init rewrite tail =
     (if rewrite = [] \<or> \<not> has_sha_prefix tail
      then Inl (ValueError ''compaction continuation seed is incomplete'') else Inr ())"

definition adopted_seed_init :: "'v adopted_authority \<Rightarrow> 'v adopted_seed \<Rightarrow> unit result" where
  "adopted_seed_init a sd =
     (if cnf_kind (aut_confirmation a) \<noteq> Adoption_Full \<or> asd_binding_rewrite_identity sd = [] \<or>
         \<not> has_sha_prefix (asd_tail_fingerprint sd)
      then Inl (TypeError ''adopted compaction seed is safe-point-issued'') else Inr ())"

text \<open>\<open>seed._with_dispatch_read(read)\<close>: a variant on another read of the same base.\<close>

definition with_dispatch_read ::
  "'v adopted_authority \<Rightarrow> 'v adopted_seed \<Rightarrow> 'v dispatch_read \<Rightarrow> 'v adopted_seed result" where
  "with_dispatch_read a sd new =
     (let old = asd_dispatch_read sd;
          ob = cdr_binding old; nb = cdr_binding new;
          oi = cdr_identity old; ni = cdr_identity new in
      if cbd_context_snapshot_id ob \<noteq> cbd_context_snapshot_id nb \<or>
         cbd_source_through_sequence ob \<noteq> cbd_source_through_sequence nb \<or>
         cid_session_id oi \<noteq> cid_session_id ni \<or>
         cid_turn_id ni \<noteq> ctg_turn_id (aut_destination a) \<or>
         cid_binding_revision_id ni \<noteq> cbd_binding_revision_id nb \<or>
         (cid_turn_id oi = cid_turn_id ni \<and> cbd_binding_revision_id ob \<noteq> cbd_binding_revision_id nb) \<or>
         (cid_turn_id oi \<noteq> cid_turn_id ni \<and> cid_turn_id oi \<noteq> adp_turn_id (aut_candidate a))
      then Inl (RuntimeError ''adopted compaction seed variant changed its base'')
      else
        (let sd' = sd\<lparr>asd_dispatch_read := new\<rparr> in
         map_sum id (\<lambda>_. sd') (adopted_seed_init a sd')))"

section \<open>Preparation, transitions and candidates\<close>

text \<open>
  The sealed preparation basis as the owner sees it; whether it is prepared, installed or
  revoked is kept by the safe point. \<open>bas_handle\<close> is the place of its handle there.
\<close>

record 'v preparation_basis =
  bas_oid :: nat
  bas_owner :: nat
  bas_handle :: nat
  bas_canonical_read :: "'v dispatch_read"
  bas_capability_cut :: 'v
  bas_call_target :: "'v call_target"
  bas_surface_borrow :: 'v

datatype 'v lease_source =
    New_Session_Root_Lease writer_lease
  | Fresh_Host_Root_Lease writer_lease
  | Adopted_Base_Lease writer_guard "'v adoption_confirmation" pystr pystr

record 'v bootstrap_lease =
  lse_scope :: continuity_scope
  lse_nonce :: pystr
  lse_source :: "'v lease_source"

definition root_lease_source :: "writer_lease \<Rightarrow> 'v lease_source result" where
  "root_lease_source wl =
     (case wls_acquisition_kind wl of
        New_Session \<Rightarrow> Inr (New_Session_Root_Lease wl)
      | Host_Takeover \<Rightarrow> Inr (Fresh_Host_Root_Lease wl)
      | Same_Owner_Renewal \<Rightarrow>
          Inl (TypeError ''continuity ROOT requires session genesis or takeover FULL''))"

definition adopted_base_lease ::
  "writer_guard \<Rightarrow> 'v adoption_confirmation \<Rightarrow> pystr \<Rightarrow> pystr \<Rightarrow> 'v lease_source result" where
  "adopted_base_lease g conf snapshot binding =
     (if cnf_kind conf \<noteq> Adoption_Full \<or> snapshot = [] \<or> binding = []
      then Inl (TypeError ''adopted-base lease source requires adoption FULL'')
      else Inr (Adopted_Base_Lease g conf snapshot binding))"

fun source_guard :: "'v lease_source \<Rightarrow> writer_guard" where
  "source_guard (New_Session_Root_Lease wl) = wls_guard wl"
| "source_guard (Fresh_Host_Root_Lease wl) = wls_guard wl"
| "source_guard (Adopted_Base_Lease g _ _ _) = g"

definition bootstrap_lease_init ::
  "continuity_scope \<Rightarrow> pystr \<Rightarrow> 'v lease_source \<Rightarrow> 'v bootstrap_lease result" where
  "bootstrap_lease_init sc nonce src =
     (if nonce = [] \<or> wgd_session_id (source_guard src) \<noteq> csc_session_id sc
      then Inl (TypeError ''empty bootstrap lease is continuity-owned'')
      else Inr \<lparr>lse_scope = sc, lse_nonce = nonce, lse_source = src\<rparr>)"

record 'v empty_reservation =
  rsv_oid :: nat
  rsv_lease :: "'v bootstrap_lease"
  rsv_nonce :: pystr

datatype predecessor_kind = Empty_Predecessor | Installed_Predecessor

record 'v planning_input =
  pln_nonce :: pystr
  pln_scope :: continuity_scope
  pln_predecessor :: predecessor_kind
  pln_predecessor_view :: "'v epoch_view option"
  pln_dispatch_anchor :: 'v
  pln_delta :: "pystr list"
  pln_reservation :: "'v empty_reservation option"

definition planning_post_init :: "'v planning_input \<Rightarrow> unit result" where
  "planning_post_init p =
     (if (pln_predecessor p = Empty_Predecessor) \<noteq> (pln_predecessor_view p = None)
      then Inl (ValueError ''provider-input planning predecessor union is invalid'')
      else if pln_nonce p = [] then Inl (ValueError ''provider-input planning nonce is empty'')
      else if \<not> list_all is_fingerprint (pln_delta p)
      then Inl (ValueError ''canonical delta is not a canonical SHA-256 fingerprint'')
      else Inr ())"

record 'v switch_admission =
  swa_destination :: "'v call_target"
  swa_semantic_projection :: "'v semantic_projection"
  swa_materialization :: "'v materialization"
  swa_quote :: "'v wire_quote"

text \<open>\<open>_issue_frozen_direct_switch_admission\<close> with the checks of the constructor.\<close>

definition switch_admission_issue ::
  "'v call_target \<Rightarrow> 'v semantic_projection \<Rightarrow> 'v wire_plan \<Rightarrow> 'v switch_admission result" where
  "switch_admission_issue dest sem plan =
     (if ctg_purpose dest \<noteq> Agent_Model_Loop \<or>
         cid_session_id (sem_identity sem) \<noteq> ctg_session_id dest \<or>
         cid_turn_id (sem_identity sem) \<noteq> ctg_turn_id dest \<or>
         wqt_wire_api (wpl_quote plan) \<noteq> ctb_wire_api (ctg_bundle dest) \<or>
         wqt_budget_tokens (wpl_quote plan) \<noteq> ctg_input_budget dest
      then Inl (ValueError ''direct switch admission does not exact-join'')
      else Inr \<lparr>swa_destination = dest, swa_semantic_projection = sem,
                swa_materialization = wpl_materialization plan, swa_quote = wpl_quote plan\<rparr>)"

datatype 'v epoch_transition =
    Epoch_Append "'v cohort"
  | Empty_Cold_Start continuity_scope "'v call_target" "'v dispatch_read" "'v preparation_basis"
  | Switch_Cold_Start "'v cohort" "'v switch_admission"
  | Adopted_Successor "'v cohort" "'v call_target" "'v adopted_seed"

definition cold_start_issue ::
  "continuity_scope \<Rightarrow> 'v call_target \<Rightarrow> 'v dispatch_read \<Rightarrow> 'v preparation_basis \<Rightarrow>
   'v epoch_transition result" where
  "cold_start_issue sc dest seed basis =
     (if csc_session_id sc \<noteq> ctg_session_id dest
      then Inl (ValueError ''empty bootstrap transition scope drifted'')
      else Inr (Empty_Cold_Start sc dest seed basis))"

definition switch_issue :: "'v cohort \<Rightarrow> 'v switch_admission \<Rightarrow> 'v epoch_transition result" where
  "switch_issue pred adm =
     (if coh_bundle pred = ctg_bundle (swa_destination adm) \<or>
         csc_session_id (epv_scope (coh_view pred)) \<noteq> ctg_session_id (swa_destination adm)
      then Inl (ValueError ''explicit model switch authority is invalid'')
      else Inr (Switch_Cold_Start pred adm))"

fun transition_destination :: "'v epoch_transition \<Rightarrow> 'v call_target option" where
  "transition_destination (Epoch_Append _) = None"
| "transition_destination (Empty_Cold_Start _ d _ _) = Some d"
| "transition_destination (Switch_Cold_Start _ a) = Some (swa_destination a)"
| "transition_destination (Adopted_Successor _ d _) = Some d"

fun transition_predecessor :: "'v epoch_transition \<Rightarrow> 'v cohort option" where
  "transition_predecessor (Epoch_Append p) = Some p"
| "transition_predecessor (Empty_Cold_Start _ _ _ _) = None"
| "transition_predecessor (Switch_Cold_Start p _) = Some p"
| "transition_predecessor (Adopted_Successor p _ _) = Some p"

record 'v append_candidate =
  apc_oid :: nat
  apc_planning :: "'v planning_input"
  apc_transition :: "'v epoch_transition"
  apc_call_target :: "'v call_target"
  apc_epoch_nonce :: pystr
  apc_expected_revision :: int
  apc_compiled :: "'v compiled_input"
  apc_wire_plan :: "'v wire_plan"
  apc_exposure_plan :: "'v exposure_plan"
  apc_frontier :: frontier
  apc_source_heads :: "'v list"
  apc_appended_count :: int
  apc_basis :: "'v preparation_basis option"

definition apc_scope :: "'v append_candidate \<Rightarrow> continuity_scope" where
  "apc_scope c = pln_scope (apc_planning c)"

definition candidate_post_init :: "'v append_candidate \<Rightarrow> unit result" where
  "candidate_post_init c =
     (if apc_epoch_nonce c = [] \<or> apc_expected_revision c < 0
      then Inl (ValueError ''provider-input append epoch identity is invalid'')
      else if apc_appended_count c < 0
      then Inl (ValueError ''provider-input append message count is invalid'')
      else if cmp_tools (apc_compiled c) \<noteq> xpl_tool_specs (apc_exposure_plan c) \<or>
         wmt_tool_items (wpl_materialization (apc_wire_plan c))
           \<noteq> wire_tools (xpl_projection_set (apc_exposure_plan c))
      then Inl (ValueError ''provider-input append candidate capability plan drifted'')
      else
        (case apc_transition c of
           Epoch_Append pred \<Rightarrow>
             if ctg_bundle (apc_call_target c) \<noteq> coh_bundle pred \<or>
                apc_epoch_nonce c \<noteq> epv_epoch_nonce (coh_view pred) \<or>
                apc_expected_revision c \<noteq> epv_epoch_revision (coh_view pred)
             then Inl (ValueError ''installed append transition drifted'') else Inr ()
         | tr \<Rightarrow>
             if transition_destination tr \<noteq> Some (apc_call_target c)
             then Inl (ValueError ''new epoch transition destination drifted'') else Inr ()))"

record install_permit =
  pmt_oid :: nat
  pmt_scope :: continuity_scope
  pmt_epoch_nonce :: pystr
  pmt_epoch_revision :: int
  pmt_nonce :: pystr

definition permit_post_init :: "install_permit \<Rightarrow> unit result" where
  "permit_post_init p =
     (if pmt_epoch_nonce p = [] \<or> pmt_nonce p = [] \<or> pmt_epoch_revision p < 1
      then Inl (ValueError ''provider-input install permit is incomplete'') else Inr ())"

end
