(* ===== verification/Input_Continuity.thy ===== *)
theory Input_Continuity
  imports Continuity_Values
begin

text \<open>
  The owner of the provider-input prefix of one session
  (\<open>conversation_kernel/input_continuity.py\<close>): from an authorized empty scope through planning,
  registration and installation of an epoch, its appends and successors, the settlement of
  replay fragments, and the two ways in which an adopted compaction hands the scope back as
  an authorized empty one. Every method holds the owner's lock, so each is one step.
\<close>

section \<open>State\<close>

record 'v replay_reservation =
  rrs_oid :: nat
  rrs_scope :: continuity_scope
  rrs_epoch_nonce :: pystr
  rrs_epoch_revision :: int
  rrs_fragment :: "'v replay_fragment"
  rrs_nonce :: pystr
  rrs_already_bound :: bool

definition replay_reservation_init :: "'v replay_reservation \<Rightarrow> unit result" where
  "replay_reservation_init r =
     (if rrs_epoch_revision r < 1 \<or> rrs_nonce r = []
      then Inl (ValueError ''assistant replay reservation identity is invalid'') else Inr ())"

record 'v admission_fence =
  fnc_oid :: nat
  fnc_scope :: continuity_scope
  fnc_predecessor :: "'v cohort"
  fnc_turn_id :: pystr
  fnc_attempt_token :: attempt_token
  fnc_confirmation :: "'v adoption_confirmation"
  fnc_candidate :: "'v adoption"
  fnc_cut :: input_cut
  fnc_destination :: "'v call_target"
  fnc_snapshot_id :: pystr
  fnc_binding_revision_id :: pystr
  fnc_nonce :: pystr

definition fence_init :: "'v admission_fence \<Rightarrow> unit result" where
  "fence_init f =
     (let sc = fnc_scope f; cand = fnc_candidate f; token = fnc_attempt_token f in
      if fnc_turn_id f = [] \<or> fnc_snapshot_id f = [] \<or> fnc_binding_revision_id f = [] \<or>
         fnc_nonce f = [] \<or> cnf_kind (fnc_confirmation f) \<noteq> Adoption_Full \<or>
         cnf_candidate (fnc_confirmation f) \<noteq> cand \<or>
         adp_session_id cand \<noteq> csc_session_id sc \<or> adp_turn_id cand \<noteq> fnc_turn_id f \<or>
         adp_scope_kind cand \<noteq> csc_kind sc \<or> adp_snapshot_id cand \<noteq> fnc_snapshot_id f \<or>
         adp_binding_revision_id cand \<noteq> fnc_binding_revision_id f \<or>
         atk_session_id token \<noteq> csc_session_id sc \<or> atk_turn_id token \<noteq> fnc_turn_id f \<or>
         atk_scope_kind token \<noteq> csc_kind sc \<or>
         cut_session_id (fnc_cut f) \<noteq> csc_session_id sc \<or> cut_turn_id (fnc_cut f) \<noteq> fnc_turn_id f \<or>
         cut_binding_revision_id (fnc_cut f) \<noteq> adp_predecessor_revision_id cand \<or>
         adp_snapshot_through_sequence cand > cut_through_sequence (fnc_cut f) \<or>
         ctg_session_id (fnc_destination f) \<noteq> csc_session_id sc \<or>
         ctg_turn_id (fnc_destination f) \<noteq> fnc_turn_id f
      then Inl (TypeError ''no-continuation fence is compaction-owner issued'') else Inr ())"

text \<open>
  The evidence for a settlement without continuation, with the part of the subject that its
  constructor looks at.
\<close>

datatype turn_status = Turn_Running | Turn_Completed | Turn_Interrupted

datatype no_continuation_evidence =
    Idle_Target pystr
  | Turn_Not_Running turn_status
  | Post_Compact_Blocked bool
  | Session_Start_Compact_Blocked bool
  | Successor_Abandoned py_error

definition evidence_init :: "no_continuation_evidence \<Rightarrow> unit result" where
  "evidence_init e =
     (case e of
        Idle_Target subject \<Rightarrow>
          if subject \<noteq> lit ''IDLE_BASE_ONLY''
          then Inl (TypeError ''idle-target evidence is compaction-owner issued'') else Inr ()
      | Turn_Not_Running st \<Rightarrow>
          if st = Turn_Running
          then Inl (TypeError ''turn-lifecycle evidence is canonical-reader issued'') else Inr ()
      | Post_Compact_Blocked first \<Rightarrow>
          if first then Inl (TypeError ''PostCompact evidence is Hook-owner issued'') else Inr ()
      | Session_Start_Compact_Blocked proceed \<Rightarrow>
          if proceed
          then Inl (TypeError ''SessionStartCompact evidence is boundary-owner issued'') else Inr ()
      | Successor_Abandoned _ \<Rightarrow> Inr ())"

record 'v continuation_closure =
  clo_oid :: nat
  clo_fence :: "'v admission_fence"
  clo_evidence :: no_continuation_evidence

record 'v fence_revocation =
  frv_oid :: nat
  frv_fence :: "'v admission_fence"

datatype 'v closure_progress =
    Closure_Not_Revoked "'v continuation_closure"
  | Closure_Revoked "'v fence_revocation"

text \<open>A dry projection that was planned from a pending empty preparation, and its adoption.\<close>

datatype 'v dry_source =
    Installed_Dry_Source "'v cohort"
  | Pending_Empty_Dry_Source "'v empty_reservation"

record 'v dry_basis =
  drb_source :: "'v dry_source"
  drb_destination :: "'v call_target"
  drb_canonical_read :: "'v dispatch_read"
  drb_capability_cut :: 'v

record 'v dry_result =
  drr_oid :: nat
  drr_basis :: "'v dry_basis"
  drr_rest :: 'v

fun dry_source_reservation :: "'v dry_source \<Rightarrow> 'v empty_reservation option" where
  "dry_source_reservation (Installed_Dry_Source _) = None"
| "dry_source_reservation (Pending_Empty_Dry_Source r) = Some r"

record 'v pending_adoption =
  pnd_oid :: nat
  pnd_reservation :: "'v empty_reservation"
  pnd_basis :: "'v preparation_basis"
  pnd_attempt_token :: attempt_token
  pnd_candidate :: "'v adoption"
  pnd_dry_result :: "'v dry_result"

text \<open>\<open>EmptyAdoptionFullSettling\<close> and \<open>EmptyAdoptionConflictSettling\<close>, told apart by \<open>stl_kind\<close>.\<close>

record 'v adoption_settling =
  stl_oid :: nat
  stl_kind :: confirmation_kind
  stl_pending :: "'v pending_adoption"
  stl_confirmation :: "'v adoption_confirmation"

definition settling_init :: "'v adoption_settling \<Rightarrow> unit result" where
  "settling_init st =
     (if cnf_kind (stl_confirmation st) \<noteq> stl_kind st \<or>
         cnf_candidate (stl_confirmation st) \<noteq> pnd_candidate (stl_pending st)
      then Inl (TypeError ''empty adoption settlement is owner-issued'') else Inr ())"

record 'v settling_revocation =
  srv_oid :: nat
  srv_settling :: "'v adoption_settling"

datatype 'v settling_progress =
    Settling_Not_Revoked "'v adoption_settling"
  | Settling_Revoked "'v settling_revocation"

record 'v usage_anchor =
  anc_epoch_nonce :: pystr
  anc_epoch_revision :: int
  anc_reported_model_id :: "pystr option"
  anc_materialization :: "'v materialization"
  anc_rest :: 'v

datatype slot_state =
    AUTHORIZED_EMPTY | PREPARING_EMPTY | BOUND_EMPTY | PREPARED | INSTALLED
  | INSTALLED_NO_CONTINUATION_SETTLING | EMPTY_ADOPTION_PENDING
  | EMPTY_ADOPTION_FULL_SETTLING | EMPTY_ADOPTION_CONFLICT_SETTLING
  | EMPTY_ADOPTION_RESOURCE_RELEASE_QUARANTINE | SLOT_CLOSED

record 'v slot =
  slt_state :: slot_state
  slt_usage_anchor :: "'v usage_anchor option"
  slt_lease :: "'v bootstrap_lease option"
  slt_reservation :: "'v empty_reservation option"
  slt_installed :: "'v cohort option"
  slt_prepared :: "'v append_candidate option"
  slt_replay :: "'v replay_reservation option"
  slt_fence :: "'v admission_fence option"
  slt_closure :: "'v continuation_closure option"
  slt_closure_progress :: "'v closure_progress option"
  slt_pending :: "'v pending_adoption option"
  slt_settling :: "'v adoption_settling option"
  slt_settling_progress :: "'v settling_progress option"

definition empty_slot :: "'v bootstrap_lease \<Rightarrow> 'v slot" where
  "empty_slot lease =
     \<lparr>slt_state = AUTHORIZED_EMPTY, slt_usage_anchor = None, slt_lease = Some lease,
      slt_reservation = None, slt_installed = None, slt_prepared = None, slt_replay = None,
      slt_fence = None, slt_closure = None, slt_closure_progress = None, slt_pending = None,
      slt_settling = None, slt_settling_progress = None\<rparr>"

record 'v issued_permit =
  isp_permit :: install_permit
  isp_candidate :: "'v append_candidate"
  isp_execution :: nat

text \<open>\<open>ProviderPreparationReleaseFull\<close>: what has been released, and by which safe point.\<close>

datatype 'v release_subject =
    Closure_Release "'v continuation_closure"
  | Settling_Release "'v adoption_settling"

record 'v release_proof =
  rel_subject :: "'v release_subject"
  rel_owner :: nat
  rel_consumed :: bool

text \<open>
  The owner with the mutable objects it shares: the one-shot authorities of adopted seeds and
  the release proofs of the safe point, named by their place in a list. \<open>own_next\<close> is the
  identity of the next object the owner makes.
\<close>

record 'v continuity =
  own_session_id :: pystr
  own_writer_guard :: writer_guard
  own_slots :: "pystr \<Rightarrow> 'v slot option"
  own_permits :: "(pystr \<times> 'v issued_permit) list"
  own_closed :: bool
  own_next :: nat
  own_authorities :: "'v adopted_authority list"
  own_releases :: "'v release_proof list"

definition slot_of :: "('v, 'm) continuity_scheme \<Rightarrow> continuity_scope \<Rightarrow> 'v slot option" where
  "slot_of s sc = own_slots s (csc_session_id sc)"

definition put_slot ::
  "continuity_scope \<Rightarrow> 'v slot \<Rightarrow> ('v, 'm) continuity_scheme \<Rightarrow> ('v, 'm) continuity_scheme" where
  "put_slot sc sl s = s\<lparr>own_slots := (own_slots s)(csc_session_id sc \<mapsto> sl)\<rparr>"

definition take_oid :: "('v, 'm) continuity_scheme \<Rightarrow> ('v, 'm) continuity_scheme" where
  "take_oid s = s\<lparr>own_next := Suc (own_next s)\<rparr>"

definition require_scope :: "continuity_scope \<Rightarrow> ('v, 'm) continuity_scheme \<Rightarrow> unit result" where
  "require_scope sc s =
     (if csc_session_id sc \<noteq> own_session_id s
      then Inl (conflict ''continuity scope belongs to another session'') else Inr ())"

text \<open>Every method that takes a scope checks its session first.\<close>

definition in_scope ::
  "continuity_scope \<Rightarrow> (('v, 'm) continuity_scheme \<Rightarrow> 'r result \<times> ('v, 'm) continuity_scheme) \<Rightarrow>
   ('v, 'm) continuity_scheme \<Rightarrow> 'r result \<times> ('v, 'm) continuity_scheme" where
  "in_scope sc f s = (case require_scope sc s of Inl e \<Rightarrow> (Inl e, s) | Inr _ \<Rightarrow> f s)"

section \<open>Start\<close>

text \<open>\<open>HostProviderInputContinuityOwner(root_lease_source, session_kind)\<close>\<close>

definition continuity_init ::
  "'v lease_source \<Rightarrow> scope_kind \<Rightarrow> pystr \<Rightarrow> 'v continuity result" where
  "continuity_init src kind lease_nonce =
     (let g = source_guard src; sid = wgd_session_id g in
      case src of
        Adopted_Base_Lease _ _ _ _ \<Rightarrow>
          Inl (TypeError ''ROOT continuity requires a sealed lifecycle source'')
      | _ \<Rightarrow>
          if sid = [] then Inl (ValueError ''provider-input continuity owner bound is invalid'')
          else
            (let sc = \<lparr>csc_session_id = sid, csc_kind = kind\<rparr> in
             case scope_post_init sc of
               Inl e \<Rightarrow> Inl e
             | Inr _ \<Rightarrow>
                 map_sum id (\<lambda>lease.
                   \<lparr>own_session_id = sid, own_writer_guard = g,
                    own_slots = [sid \<mapsto> empty_slot lease], own_permits = [], own_closed = False,
                    own_next = 0, own_authorities = [], own_releases = []\<rparr>)
                   (bootstrap_lease_init sc lease_nonce src)))"

section \<open>Planning\<close>

definition slot_closed :: "'v slot \<Rightarrow> bool" where
  "slot_closed sl \<longleftrightarrow> slt_state sl = SLOT_CLOSED"

text \<open>\<open>abort_planning\<close>: give the exact reservation of an empty preparation back as its lease.\<close>

definition abort_planning ::
  "'v planning_input \<Rightarrow> ('v, 'm) continuity_scheme \<Rightarrow> unit result \<times> ('v, 'm) continuity_scheme" where
  "abort_planning pl = in_scope (pln_scope pl) (\<lambda>s.
     case pln_reservation pl of
       None \<Rightarrow> (Inr (), s)
     | Some r \<Rightarrow>
         (case slot_of s (pln_scope pl) of
            None \<Rightarrow> (Inr (), s)
          | Some sl \<Rightarrow>
              if slt_state sl = SLOT_CLOSED \<or> slt_reservation sl \<noteq> Some r then (Inr (), s)
              else if slt_state sl \<notin> {PREPARING_EMPTY, BOUND_EMPTY}
              then (Inl (conflict ''empty preparation cannot be aborted from its current state''), s)
              else (Inr (), put_slot (pln_scope pl)
                      (sl\<lparr>slt_reservation := None, slt_lease := Some (rsv_lease r),
                          slt_state := AUTHORIZED_EMPTY\<rparr>) s)))"

text \<open>\<open>_planning_input_from_predecessor\<close>: what is new relative to the installed frontier.\<close>

definition canonical_delta :: "frontier option \<Rightarrow> frontier \<Rightarrow> pystr list" where
  "canonical_delta old new =
     (case old of
        None \<Rightarrow> cfr_items new
      | Some f \<Rightarrow>
          if cfr_base_identity f = cfr_base_identity new \<and>
             take (length (cfr_items f)) (cfr_items new) = cfr_items f
          then drop (length (cfr_items f)) (cfr_items new)
          else cfr_items new)"

definition planning_from_predecessor ::
  "continuity_scope \<Rightarrow> 'v epoch_view option \<Rightarrow> frontier \<Rightarrow> 'v \<Rightarrow> 'v empty_reservation option \<Rightarrow>
   pystr \<Rightarrow> 'v planning_input result" where
  "planning_from_predecessor sc view new anchor reservation nonce =
     (let p = \<lparr>pln_nonce = nonce, pln_scope = sc,
               pln_predecessor = (case view of None \<Rightarrow> Empty_Predecessor
                                  | Some _ \<Rightarrow> Installed_Predecessor),
               pln_predecessor_view = view, pln_dispatch_anchor = anchor,
               pln_delta = canonical_delta (map_option epv_frontier view) new,
               pln_reservation = reservation\<rparr> in
      map_sum id (\<lambda>_. p) (planning_post_init p))"

text \<open>
  \<open>_freeze_planning_input\<close>, with the two drawn nonces. Planning an authorized empty scope
  takes its lease; a detached destination projection takes nothing.
\<close>

definition freeze_planning ::
  "continuity_scope \<Rightarrow> frontier \<Rightarrow> 'v \<Rightarrow> bool \<Rightarrow> pystr \<Rightarrow> pystr \<Rightarrow> ('v, 'm) continuity_scheme \<Rightarrow>
   'v planning_input result \<times> ('v, 'm) continuity_scheme" where
  "freeze_planning sc new anchor detached reservation_nonce planning_nonce = in_scope sc (\<lambda>s.
     if own_closed s then (Inl (conflict ''continuity owner is closed''), s)
     else
       (case slot_of s sc of
          None \<Rightarrow>
            (Inl (conflict ''continuity scope lacks a lifecycle-issued bootstrap lease''), s)
        | Some sl \<Rightarrow>
            if slt_state sl = PREPARED
            then (Inl (conflict ''provider-input scope already owns a prepared candidate''), s)
            else if slt_replay sl \<noteq> None
            then (Inl (conflict ''provider-input scope is settling an assistant replay fragment''), s)
            else if slt_state sl = SLOT_CLOSED
            then (Inl (conflict ''provider-input scope is closed''), s)
            else if detached
            then (planning_from_predecessor sc None new anchor None planning_nonce, s)
            else
              (case slt_state sl of
                 AUTHORIZED_EMPTY \<Rightarrow>
                   (case slt_lease sl of
                      None \<Rightarrow>
                        (Inl (conflict ''authorized empty scope lost its bootstrap lease''), s)
                    | Some lease \<Rightarrow>
                        if reservation_nonce = []
                        then (Inl (TypeError ''empty preparation reservation is continuity-owned''), s)
                        else
                          (let r = \<lparr>rsv_oid = own_next s, rsv_lease = lease,
                                    rsv_nonce = reservation_nonce\<rparr> in
                           (planning_from_predecessor sc None new anchor (Some r) planning_nonce,
                            put_slot sc (sl\<lparr>slt_lease := None, slt_reservation := Some r,
                                            slt_state := PREPARING_EMPTY\<rparr>) (take_oid s))))
               | INSTALLED \<Rightarrow>
                   (case slt_installed sl of
                      None \<Rightarrow> (Inl (conflict ''installed continuity scope lost its cohort''), s)
                    | Some c \<Rightarrow>
                        (planning_from_predecessor sc (Some (coh_view c)) new anchor None
                           planning_nonce, s))
               | _ \<Rightarrow>
                   (Inl (conflict ''continuity scope is not available for preparation''), s))))"

definition freeze_planning_input ::
  "continuity_scope \<Rightarrow> frontier \<Rightarrow> 'v \<Rightarrow> pystr \<Rightarrow> pystr \<Rightarrow> ('v, 'm) continuity_scheme \<Rightarrow>
   'v planning_input result \<times> ('v, 'm) continuity_scheme" where
  "freeze_planning_input sc new anchor rn pn = freeze_planning sc new anchor False rn pn"

definition freeze_destination_projection ::
  "continuity_scope \<Rightarrow> frontier \<Rightarrow> 'v \<Rightarrow> pystr \<Rightarrow> ('v, 'm) continuity_scheme \<Rightarrow>
   'v planning_input result \<times> ('v, 'm) continuity_scheme" where
  "freeze_destination_projection sc new anchor pn = freeze_planning sc new anchor True [] pn"

definition installed_view :: "'v slot \<Rightarrow> 'v epoch_view option" where
  "installed_view sl = map_option coh_view (slt_installed sl)"

definition freeze_planning_sibling ::
  "'v planning_input \<Rightarrow> frontier \<Rightarrow> 'v \<Rightarrow> pystr \<Rightarrow> ('v, 'm) continuity_scheme \<Rightarrow>
   'v planning_input result \<times> ('v, 'm) continuity_scheme" where
  "freeze_planning_sibling base new anchor planning_nonce = in_scope (pln_scope base) (\<lambda>s.
     if own_closed s then (Inl (conflict ''continuity owner is closed''), s)
     else
       (case slot_of s (pln_scope base) of
          None \<Rightarrow>
            (Inl (conflict ''provider-input planning predecessor changed during variants''), s)
        | Some sl \<Rightarrow>
            if slt_state sl \<notin> {INSTALLED, PREPARING_EMPTY} \<or> slt_replay sl \<noteq> None \<or>
               installed_view sl \<noteq> pln_predecessor_view base \<or>
               slt_reservation sl \<noteq> pln_reservation base
            then (Inl (conflict ''provider-input planning predecessor changed during variants''), s)
            else
              (planning_from_predecessor (pln_scope base) (pln_predecessor_view base) new anchor
                 (pln_reservation base) planning_nonce, s)))"

section \<open>Transitions\<close>

text \<open>
  \<open>seed._consume_for(...)\<close>: the one-shot authority of an adopted seed. The read of the
  preparation must be the read of the seed, the predecessor the very cohort the authority was
  issued for, the destination equal to its destination.
\<close>

definition consume_authority ::
  "'v adopted_seed \<Rightarrow> 'v cohort \<Rightarrow> 'v call_target \<Rightarrow> 'v preparation_basis \<Rightarrow>
   ('v, 'm) continuity_scheme \<Rightarrow> unit result \<times> ('v, 'm) continuity_scheme" where
  "consume_authority sd pred dest basis s =
     (let i = asd_authority sd; a = own_authorities s ! i in
      if bas_canonical_read basis \<noteq> asd_dispatch_read sd
      then (Inl (RuntimeError ''adopted compaction seed subject drifted''), s)
      else if aut_consumed a
      then (Inl (RuntimeError ''adopted compaction authority is already consumed''), s)
      else if pred \<noteq> aut_predecessor a \<or> \<not> same_target dest (aut_destination a)
      then (Inl (RuntimeError ''adopted compaction authority subject drifted''), s)
      else (Inr (), s\<lparr>own_authorities := (own_authorities s)[i := a\<lparr>aut_consumed := True\<rparr>]\<rparr>))"

definition issue_from_empty ::
  "'v planning_input \<Rightarrow> 'v preparation_basis \<Rightarrow> 'v call_target \<Rightarrow> 'v cold_seed option \<Rightarrow>
   'v switch_admission option \<Rightarrow> 'v slot \<Rightarrow> 'v empty_reservation \<Rightarrow> ('v, 'm) continuity_scheme \<Rightarrow>
   'v epoch_transition result \<times> ('v, 'm) continuity_scheme" where
  "issue_from_empty pl basis dest seed adm sl r s =
     (case seed of
        Some (Canonical_Seed read) \<Rightarrow>
          if slt_state sl \<noteq> PREPARING_EMPTY \<or> slt_reservation sl \<noteq> Some r \<or> adm \<noteq> None
          then (Inl (conflict ''empty bootstrap preparation is stale''), s)
          else
            (case cold_start_issue (pln_scope pl) dest read basis of
               Inl e \<Rightarrow> (Inl e, s)
             | Inr tr \<Rightarrow> (Inr tr, put_slot (pln_scope pl) (sl\<lparr>slt_state := BOUND_EMPTY\<rparr>) s))
      | _ \<Rightarrow> (Inl (conflict ''empty bootstrap preparation is stale''), s))"

definition issue_from_installed ::
  "'v cohort \<Rightarrow> 'v preparation_basis \<Rightarrow> 'v call_target \<Rightarrow> 'v cold_seed option \<Rightarrow>
   'v semantic_projection \<Rightarrow> 'v wire_plan \<Rightarrow> 'v switch_admission option \<Rightarrow> 'v slot \<Rightarrow>
   ('v, 'm) continuity_scheme \<Rightarrow> 'v epoch_transition result \<times> ('v, 'm) continuity_scheme" where
  "issue_from_installed c basis dest seed sem plan adm sl s =
     (case seed of
        Some (Adopted_Seed sd) \<Rightarrow>
          if adm \<noteq> None
          then (Inl (conflict ''adopted successor cannot reuse direct-switch admission''), s)
          else if slt_fence sl \<noteq> None
          then (Inl (conflict ''adopted successor is fenced from further admission''), s)
          else and_then (consume_authority sd c dest basis s)
                 (\<lambda>_ t. (Inr (Adopted_Successor c dest sd), t))
      | _ \<Rightarrow>
          if coh_bundle c = ctg_bundle dest then
            (if seed \<noteq> None \<or> adm \<noteq> None
             then (Inl (conflict ''same-target append cannot rebuild its root''), s)
             else (Inr (Epoch_Append c), s))
          else
            (case (seed, adm) of
               (Some (Canonical_Seed _), Some a) \<Rightarrow>
                 if \<not> same_target (swa_destination a) dest \<or> swa_semantic_projection a \<noteq> sem \<or>
                    swa_materialization a \<noteq> wpl_materialization plan \<or> swa_quote a \<noteq> wpl_quote plan
                 then (Inl (conflict ''model switch admission does not exact-join its destination''), s)
                 else (switch_issue c a, s)
             | (Some (Canonical_Seed _), None) \<Rightarrow>
                 (Inl (conflict ''model switch admission does not exact-join its destination''), s)
             | _ \<Rightarrow>
                 (Inl (conflict ''model switch lacks an admitted destination projection''), s)))"

definition issue_transition ::
  "'v planning_input \<Rightarrow> 'v preparation_basis option \<Rightarrow> 'v call_target \<Rightarrow> 'v cold_seed option \<Rightarrow>
   'v semantic_projection \<Rightarrow> 'v wire_plan \<Rightarrow> 'v switch_admission option \<Rightarrow>
   ('v, 'm) continuity_scheme \<Rightarrow> 'v epoch_transition result \<times> ('v, 'm) continuity_scheme" where
  "issue_transition pl basis dest seed sem plan adm = in_scope (pln_scope pl) (\<lambda>s.
     case basis of
       None \<Rightarrow> (Inl (conflict ''provider-input transition destination drifted''), s)
     | Some b \<Rightarrow>
         if bas_call_target b \<noteq> dest \<or> ctg_session_id dest \<noteq> csc_session_id (pln_scope pl) \<or>
            wqt_wire_api (wpl_quote plan) \<noteq> ctb_wire_api (ctg_bundle dest)
         then (Inl (conflict ''provider-input transition destination drifted''), s)
         else if own_closed s then (Inl (conflict ''continuity owner is closed''), s)
         else
           (case slot_of s (pln_scope pl) of
              None \<Rightarrow> (Inl (conflict ''continuity scope is unavailable''), s)
            | Some sl \<Rightarrow>
                (case (pln_predecessor_view pl, pln_reservation pl) of
                   (None, Some r) \<Rightarrow> issue_from_empty pl b dest seed adm sl r s
                 | (view, reservation) \<Rightarrow>
                     (case slt_installed sl of
                        None \<Rightarrow> (Inl (conflict ''installed transition predecessor is stale''), s)
                      | Some c \<Rightarrow>
                          if slt_state sl \<noteq> INSTALLED \<or> view \<noteq> Some (coh_view c) \<or>
                             reservation \<noteq> None
                          then (Inl (conflict ''installed transition predecessor is stale''), s)
                          else issue_from_installed c b dest seed sem plan adm sl s))))"

section \<open>Registration and installation\<close>

text \<open>The wire plan of a candidate belongs to its compiled input.\<close>

definition wire_joined :: "'v value_codec \<Rightarrow> 'v append_candidate \<Rightarrow> bool" where
  "wire_joined codec c \<longleftrightarrow>
     wpl_semantic_fingerprint (apc_wire_plan c) = cmp_semantic_fingerprint (apc_compiled c) \<and>
     wpl_placements_fingerprint (apc_wire_plan c) =
       cod_placements_fingerprint codec (cmp_placements (apc_compiled c)) \<and>
     wpl_context_id (apc_wire_plan c) = cmp_context_id (apc_compiled c) \<and>
     wmt_tool_items (wpl_materialization (apc_wire_plan c)) =
       wire_tools (xpl_projection_set (apc_exposure_plan c))"

text \<open>An append keeps the installed prefix: system root, tools, messages and wire items.\<close>

definition append_checks :: "'v epoch_view \<Rightarrow> 'v append_candidate \<Rightarrow> unit result" where
  "append_checks v c =
     (let cmp = apc_compiled c;
          old = wpl_materialization (epv_wire_plan v);
          new = wpl_materialization (apc_wire_plan c) in
      if apc_epoch_nonce c \<noteq> epv_epoch_nonce v
      then Inl (conflict ''installed append changed epoch identity'')
      else
        (case require_prefix_of (epv_frontier v) (apc_frontier c) of
           Inl e \<Rightarrow> Inl e
         | Inr _ \<Rightarrow>
             if cmp_system_prompt cmp \<noteq> epv_system_prompt v
             then Inl (conflict ''successor rewrote the installed system root'')
             else if cmp_tools cmp \<noteq> epv_tools v
             then Inl (conflict ''successor rewrote the installed tool surface'')
             else if xpl_projection_set (apc_exposure_plan c) \<noteq> xpl_projection_set (epv_exposure_plan v)
             then Inl (conflict ''successor rewrote the installed native tool projection'')
             else if take (length (epv_messages v)) (cmp_messages cmp) \<noteq> epv_messages v
             then Inl (conflict ''successor rewrote the installed message prefix'')
             else if wmt_root_policy old \<noteq> wmt_root_policy new \<or>
                wmt_tool_items old \<noteq> wmt_tool_items new \<or>
                take (length (wmt_input_items old)) (wmt_input_items new) \<noteq> wmt_input_items old
             then Inl (conflict ''successor rewrote the installed provider wire prefix'')
             else Inr ()))"

text \<open>
  A model switch must be the admitted one; a switch or an adopted successor opens an epoch of
  its own, and keeps the frontier when the context base has not changed.
\<close>

definition switch_checks :: "'v append_candidate \<Rightarrow> unit result" where
  "switch_checks c =
     (case apc_transition c of
        Switch_Cold_Start _ a \<Rightarrow>
          if \<not> same_target (swa_destination a) (apc_call_target c) \<or>
             swa_semantic_projection a \<noteq> projection_of (apc_compiled c) \<or>
             swa_materialization a \<noteq> wpl_materialization (apc_wire_plan c) \<or>
             swa_quote a \<noteq> wpl_quote (apc_wire_plan c)
          then Inl (conflict ''direct-switch candidate changed its frozen admission'') else Inr ()
      | _ \<Rightarrow> Inr ())"

definition new_epoch_checks :: "'v epoch_view \<Rightarrow> 'v append_candidate \<Rightarrow> unit result" where
  "new_epoch_checks v c =
     (case switch_checks c of
        Inl e \<Rightarrow> Inl e
      | Inr _ \<Rightarrow>
          if apc_epoch_nonce c = epv_epoch_nonce v
          then Inl (conflict ''new epoch successor reused the installed epoch identity'')
          else if cfr_base_identity (epv_frontier v) = cfr_base_identity (apc_frontier c)
          then require_prefix_of (epv_frontier v) (apc_frontier c)
          else Inr ())"

text \<open>The transition of a candidate against the slot it wants to enter.\<close>

definition transition_checks :: "'v slot \<Rightarrow> 'v append_candidate \<Rightarrow> unit result" where
  "transition_checks sl c =
     (case apc_transition c of
        Empty_Cold_Start sc dest read b \<Rightarrow>
          if slt_state sl \<noteq> BOUND_EMPTY \<or>
             slt_reservation sl \<noteq> pln_reservation (apc_planning c) \<or>
             apc_expected_revision c \<noteq> 0 \<or> pln_predecessor_view (apc_planning c) \<noteq> None \<or>
             \<not> same_scope sc (apc_scope c) \<or> apc_basis c \<noteq> Some b
          then Inl (conflict ''empty cold candidate lacks its bound authority'') else Inr ()
      | tr \<Rightarrow>
          (case slt_installed sl of
             None \<Rightarrow> Inl (conflict ''successor append candidate is stale'')
           | Some h \<Rightarrow>
               if slt_state sl \<noteq> INSTALLED \<or> transition_predecessor tr \<noteq> Some h \<or>
                  apc_expected_revision c \<noteq> epv_epoch_revision (coh_view h) \<or>
                  pln_predecessor_view (apc_planning c) \<noteq> Some (coh_view h)
               then Inl (conflict ''successor append candidate is stale'')
               else
                 (case tr of
                    Epoch_Append _ \<Rightarrow> append_checks (coh_view h) c
                  | _ \<Rightarrow> new_epoch_checks (coh_view h) c)))"

definition register_candidate ::
  "'v value_codec \<Rightarrow> 'v append_candidate \<Rightarrow> ('v, 'm) continuity_scheme \<Rightarrow>
   unit result \<times> ('v, 'm) continuity_scheme" where
  "register_candidate codec c = in_scope (apc_scope c) (\<lambda>s.
     if own_closed s then (Inl (conflict ''continuity owner is closed''), s)
     else
       (case slot_of s (apc_scope c) of
          None \<Rightarrow> (Inl (conflict ''continuity scope is unavailable''), s)
        | Some sl \<Rightarrow>
            if slt_state sl = SLOT_CLOSED
            then (Inl (conflict ''continuity scope is unavailable''), s)
            else if slt_state sl = PREPARED
            then (Inl (conflict ''continuity scope already owns a prepared candidate''), s)
            else if slt_replay sl \<noteq> None
            then (Inl (conflict ''continuity scope is settling an assistant replay fragment''), s)
            else if \<not> wire_joined codec c
            then (Inl (conflict ''provider wire plan does not exact-join compiled input''), s)
            else if apc_basis c = None
            then (Inl (conflict ''provider-input candidate lacks its sealed preparation basis''), s)
            else
              (case transition_checks sl c of
                 Inl e \<Rightarrow> (Inl e, s)
               | Inr _ \<Rightarrow>
                   (Inr (), put_slot (apc_scope c)
                      (sl\<lparr>slt_prepared := Some c, slt_state := PREPARED\<rparr>) s))))"

text \<open>The view that an installation of the candidate shows, and its fragments.\<close>

definition kept_fragments :: "'v slot \<Rightarrow> 'v append_candidate \<Rightarrow> 'v replay_fragment list" where
  "kept_fragments sl c =
     (case slt_installed sl of
        None \<Rightarrow> []
      | Some h \<Rightarrow> if apc_epoch_nonce c \<noteq> epv_epoch_nonce (coh_view h) then []
                  else epv_fragments (coh_view h))"

definition view_of_candidate ::
  "'v value_codec \<Rightarrow> nat \<Rightarrow> 'v slot \<Rightarrow> 'v append_candidate \<Rightarrow> 'v epoch_view" where
  "view_of_candidate codec i sl c =
     (let cmp = apc_compiled c in
      \<lparr>epv_oid = i, epv_scope = apc_scope c, epv_epoch_nonce = apc_epoch_nonce c,
       epv_epoch_revision = apc_expected_revision c + 1,
       epv_system_prompt = cmp_system_prompt cmp, epv_tools = cmp_tools cmp,
       epv_messages = cmp_messages cmp, epv_placements = cmp_placements cmp,
       epv_wire_plan = apc_wire_plan c, epv_exposure_plan = apc_exposure_plan c,
       epv_frontier = apc_frontier c, epv_source_heads = apc_source_heads c,
       epv_logical_bytes = cod_logical_bytes codec (cmp_system_prompt cmp) (cmp_tools cmp)
         (cmp_messages cmp),
       epv_prefix_fingerprint = cod_prefix_fingerprint codec (cmp_system_prompt cmp)
         (cmp_tools cmp) (cmp_messages cmp),
       epv_fragments = kept_fragments sl c,
       epv_tool_result_decisions = cmp_tool_result_decisions cmp\<rparr>)"

text \<open>
  \<open>install\<close>: the prepared candidate becomes the installed cohort, and one permit is issued for
  the execution that asked. \<open>draws\<close> are the drawn permit nonces; \<open>None\<close> stands for a drawing
  loop that has not found a free one yet.
\<close>

definition install_slot :: "'v value_codec \<Rightarrow> nat \<Rightarrow> 'v append_candidate \<Rightarrow> 'v slot \<Rightarrow> 'v slot" where
  "install_slot codec i c sl =
     (let v = view_of_candidate codec i sl c;
          keeps = (case slt_installed sl of
                     None \<Rightarrow> False
                   | Some h \<Rightarrow> epv_epoch_nonce (coh_view h) = epv_epoch_nonce v) in
      sl\<lparr>slt_usage_anchor := (if keeps then slt_usage_anchor sl else None),
         slt_installed := Some \<lparr>coh_oid = Suc i, coh_view = v,
                                coh_bundle = ctg_bundle (apc_call_target c)\<rparr>,
         slt_lease := None, slt_reservation := None, slt_prepared := None,
         slt_state := INSTALLED\<rparr>)"

definition install_candidate ::
  "'v value_codec \<Rightarrow> 'v append_candidate \<Rightarrow> nat \<Rightarrow> pystr list \<Rightarrow> ('v, 'm) continuity_scheme \<Rightarrow>
   (install_permit result \<times> ('v, 'm) continuity_scheme) option" where
  "install_candidate codec c execution draws s =
     (case require_scope (apc_scope c) s of
        Inl e \<Rightarrow> Some (Inl e, s)
      | Inr _ \<Rightarrow>
          (case slot_of s (apc_scope c) of
             None \<Rightarrow>
               Some (Inl (conflict ''prepared append candidate does not exact-join its scope''), s)
           | Some sl \<Rightarrow>
               if slt_prepared sl \<noteq> Some c
               then Some (Inl (conflict ''prepared append candidate does not exact-join its scope''), s)
               else
                 (let i = own_next s; v = view_of_candidate codec i sl c in
                  case view_post_init codec v of
                    Inl e \<Rightarrow> Some (Inl e, s)
                  | Inr _ \<Rightarrow>
                      (case draw_fresh (map fst (own_permits s)) draws of
                         None \<Rightarrow> None
                       | Some nonce \<Rightarrow>
                           (let p = \<lparr>pmt_oid = Suc (Suc i), pmt_scope = apc_scope c,
                                     pmt_epoch_nonce = epv_epoch_nonce v,
                                     pmt_epoch_revision = epv_epoch_revision v,
                                     pmt_nonce = nonce\<rparr>;
                                t = (put_slot (apc_scope c) (install_slot codec i c sl) s)
                                      \<lparr>own_next := Suc (Suc (Suc i))\<rparr> in
                            case permit_post_init p of
                              Inl e \<Rightarrow> Some (Inl e, t)
                            | Inr _ \<Rightarrow>
                                Some (Inr p, t\<lparr>own_permits := AList.update nonce
                                   \<lparr>isp_permit = p, isp_candidate = c, isp_execution = execution\<rparr>
                                   (own_permits t)\<rparr>))))))"

text \<open>\<open>ProcessLocalProviderInputInstallAuthority.consume\<close>: the exact permit, once.\<close>

definition consume_install_permit ::
  "install_permit \<Rightarrow> 'v append_candidate \<Rightarrow> nat \<Rightarrow> ('v, 'm) continuity_scheme \<Rightarrow>
   unit result \<times> ('v, 'm) continuity_scheme" where
  "consume_install_permit p c execution s =
     (if own_closed s then (Inl (conflict ''continuity owner is closed''), s)
      else if map_of (own_permits s) (pmt_nonce p) =
         Some \<lparr>isp_permit = p, isp_candidate = c, isp_execution = execution\<rparr>
      then (Inr (), s\<lparr>own_permits := AList.delete (pmt_nonce p) (own_permits s)\<rparr>)
      else (Inl (conflict ''provider-input install permit was not issued for this execution''), s))"

definition require_registered_plan ::
  "'v append_candidate \<Rightarrow> 'v wire_plan \<Rightarrow> 'v exposure_plan \<Rightarrow> ('v, 'm) continuity_scheme \<Rightarrow>
   unit result" where
  "require_registered_plan c wire exposure s =
     (case require_scope (apc_scope c) s of
        Inl e \<Rightarrow> Inl e
      | Inr _ \<Rightarrow>
          if own_closed s then Inl (conflict ''continuity owner is closed'')
          else
            (case slot_of s (apc_scope c) of
               None \<Rightarrow> Inl (conflict ''provider wire plan was not registered for this candidate'')
             | Some sl \<Rightarrow>
                 if slt_prepared sl \<noteq> Some c \<or> apc_wire_plan c \<noteq> wire \<or>
                    apc_exposure_plan c \<noteq> exposure
                 then Inl (conflict ''provider wire plan was not registered for this candidate'')
                 else Inr ()))"

definition is_cold_start :: "'v epoch_transition \<Rightarrow> bool" where
  "is_cold_start tr = (case tr of Empty_Cold_Start _ _ _ _ \<Rightarrow> True | _ \<Rightarrow> False)"

text \<open>\<open>discard\<close>: the prepared candidate is gone before its reservation is looked at.\<close>

definition discard_candidate ::
  "'v append_candidate \<Rightarrow> ('v, 'm) continuity_scheme \<Rightarrow> unit result \<times> ('v, 'm) continuity_scheme" where
  "discard_candidate c = in_scope (apc_scope c) (\<lambda>s.
     case slot_of s (apc_scope c) of
       None \<Rightarrow> (Inl (conflict ''prepared append discard does not exact-join''), s)
     | Some sl \<Rightarrow>
         if slt_prepared sl \<noteq> Some c
         then (Inl (conflict ''prepared append discard does not exact-join''), s)
         else if is_cold_start (apc_transition c) then
           (case slt_reservation sl of
              None \<Rightarrow>
                (Inl (conflict ''empty candidate lost its preparation reservation''),
                 put_slot (apc_scope c) (sl\<lparr>slt_prepared := None\<rparr>) s)
            | Some r \<Rightarrow>
                (Inr (), put_slot (apc_scope c)
                   (sl\<lparr>slt_prepared := None, slt_reservation := None,
                       slt_lease := Some (rsv_lease r), slt_state := AUTHORIZED_EMPTY\<rparr>) s))
         else
           (Inr (), put_slot (apc_scope c)
              (sl\<lparr>slt_prepared := None, slt_state := INSTALLED\<rparr>) s))"

section \<open>Replay fragments\<close>

definition fragments_of :: "pystr \<Rightarrow> 'v epoch_view \<Rightarrow> 'v replay_fragment list" where
  "fragments_of entry v = filter (\<lambda>f. frg_entry_id f = entry) (epv_fragments v)"

definition reserve_replay ::
  "continuity_scope \<Rightarrow> pystr \<Rightarrow> int \<Rightarrow> 'v replay_fragment \<Rightarrow> pystr \<Rightarrow> ('v, 'm) continuity_scheme \<Rightarrow>
   'v replay_reservation result \<times> ('v, 'm) continuity_scheme" where
  "reserve_replay sc nonce revision fragment reservation_nonce = in_scope sc (\<lambda>s.
     let stale = (Inl (conflict ''assistant replay fragment targets a stale epoch''), s) in
     if own_closed s then (Inl (conflict ''continuity owner is closed''), s)
     else
       (case slot_of s sc of
          None \<Rightarrow> stale
        | Some sl \<Rightarrow>
            (case installed_view sl of
               None \<Rightarrow> stale
             | Some v \<Rightarrow>
                 if slt_state sl \<noteq> INSTALLED \<or> epv_epoch_nonce v \<noteq> nonce \<or>
                    epv_epoch_revision v \<noteq> revision
                 then stale
                 else if slt_replay sl \<noteq> None
                 then (Inl (conflict ''assistant replay fragment reservation is already active''), s)
                 else
                   (let existing = fragments_of (frg_entry_id fragment) v;
                        r = \<lparr>rrs_oid = own_next s, rrs_scope = sc, rrs_epoch_nonce = nonce,
                             rrs_epoch_revision = revision, rrs_fragment = fragment,
                             rrs_nonce = reservation_nonce,
                             rrs_already_bound = (existing \<noteq> [])\<rparr> in
                    if existing \<noteq> [] \<and> existing \<noteq> [fragment]
                    then (Inl (conflict ''assistant replay fragment identity conflicts''), s)
                    else
                      (case replay_reservation_init r of
                         Inl e \<Rightarrow> (Inl e, s)
                       | Inr _ \<Rightarrow>
                           (Inr r, put_slot sc (sl\<lparr>slt_replay := Some r\<rparr>) (take_oid s)))))))"

text \<open>
  Promotion replaces the installed cohort by a new object with the fragment appended.
\<close>

definition with_fragment :: "nat \<Rightarrow> 'v replay_fragment \<Rightarrow> 'v cohort \<Rightarrow> 'v cohort" where
  "with_fragment i f h =
     h\<lparr>coh_oid := Suc i,
       coh_view := (coh_view h)\<lparr>epv_oid := i,
                                epv_fragments := epv_fragments (coh_view h) @ [f]\<rparr>\<rparr>"

definition promote_replay ::
  "'v value_codec \<Rightarrow> 'v replay_reservation \<Rightarrow> ('v, 'm) continuity_scheme \<Rightarrow>
   unit result \<times> ('v, 'm) continuity_scheme" where
  "promote_replay codec r = in_scope (rrs_scope r) (\<lambda>s.
     let stale = (Inl (conflict ''assistant replay reservation targets a stale epoch''), s) in
     if own_closed s then (Inl (conflict ''continuity owner is closed''), s)
     else
       (case slot_of s (rrs_scope r) of
          None \<Rightarrow> stale
        | Some sl \<Rightarrow>
            (case slt_installed sl of
               None \<Rightarrow> stale
             | Some h \<Rightarrow>
                 if slt_replay sl \<noteq> Some r \<or> slt_state sl \<noteq> INSTALLED \<or>
                    epv_epoch_nonce (coh_view h) \<noteq> rrs_epoch_nonce r \<or>
                    epv_epoch_revision (coh_view h) \<noteq> rrs_epoch_revision r
                 then stale
                 else
                   (let f = rrs_fragment r;
                        existing = fragments_of (frg_entry_id f) (coh_view h);
                        h' = with_fragment (own_next s) f h in
                    if rrs_already_bound r then
                      (if existing \<noteq> [f]
                       then (Inl (conflict ''bound assistant replay fragment identity drifted''), s)
                       else (Inr (), put_slot (rrs_scope r) (sl\<lparr>slt_replay := None\<rparr>) s))
                    else if existing \<noteq> []
                    then (Inl (conflict ''assistant replay fragment appeared after reservation''), s)
                    else
                      (case view_post_init codec (coh_view h') of
                         Inl e \<Rightarrow> (Inl e, s)
                       | Inr _ \<Rightarrow>
                           (Inr (), put_slot (rrs_scope r)
                              (sl\<lparr>slt_installed := Some h', slt_replay := None\<rparr>)
                              (take_oid (take_oid s))))))))"

definition release_replay ::
  "'v replay_reservation \<Rightarrow> ('v, 'm) continuity_scheme \<Rightarrow> unit result \<times> ('v, 'm) continuity_scheme" where
  "release_replay r = in_scope (rrs_scope r) (\<lambda>s.
     case slot_of s (rrs_scope r) of
       None \<Rightarrow> (Inr (), s)
     | Some sl \<Rightarrow>
         if slt_state sl = SLOT_CLOSED then (Inr (), s)
         else if slt_replay sl = Some r
         then (Inr (), put_slot (rrs_scope r) (sl\<lparr>slt_replay := None\<rparr>) s)
         else if slt_replay sl \<noteq> None
         then (Inl (conflict ''assistant replay reservation identity conflicts''), s)
         else (Inr (), s))"

section \<open>Usage\<close>

definition current_usage_anchor ::
  "continuity_scope \<Rightarrow> ('v, 'm) continuity_scheme \<Rightarrow> 'v usage_anchor option result" where
  "current_usage_anchor sc s =
     (case require_scope sc s of
        Inl e \<Rightarrow> Inl e
      | Inr _ \<Rightarrow> Inr
          (case slot_of s sc of
             None \<Rightarrow> None
           | Some sl \<Rightarrow>
               (case (installed_view sl, slt_usage_anchor sl) of
                  (Some v, Some a) \<Rightarrow>
                    if anc_epoch_nonce a = epv_epoch_nonce v then Some a else None
                | _ \<Rightarrow> None)))"

definition anchor_items :: "'v usage_anchor \<Rightarrow> 'v list" where
  "anchor_items a = wmt_input_items (anc_materialization a)"

definition observe_anchor_slot ::
  "int \<Rightarrow> pystr option \<Rightarrow> 'v usage_anchor option \<Rightarrow> 'v slot \<Rightarrow> 'v slot" where
  "observe_anchor_slot revision reported anchor sl =
     (let cleared =
        (case slt_usage_anchor sl of
           None \<Rightarrow> sl
         | Some p \<Rightarrow>
             if reported \<noteq> None \<and> anc_reported_model_id p \<noteq> None \<and> reported \<noteq> anc_reported_model_id p
             then sl\<lparr>slt_usage_anchor := None\<rparr> else sl) in
      case anchor of None \<Rightarrow> cleared | Some a \<Rightarrow> cleared\<lparr>slt_usage_anchor := Some a\<rparr>)"

text \<open>A report is older when its revision is lower or its input shorter than the kept one.\<close>

definition older_report :: "int \<Rightarrow> 'v usage_anchor option \<Rightarrow> 'v usage_anchor option \<Rightarrow> bool" where
  "older_report revision anchor previous \<longleftrightarrow>
     (case previous of
        None \<Rightarrow> False
      | Some p \<Rightarrow> revision < anc_epoch_revision p \<or>
          (case anchor of None \<Rightarrow> False | Some a \<Rightarrow> length (anchor_items a) < length (anchor_items p)))"

definition observe_usage_anchor ::
  "continuity_scope \<Rightarrow> pystr \<Rightarrow> int \<Rightarrow> pystr option \<Rightarrow> 'v usage_anchor option \<Rightarrow>
   ('v, 'm) continuity_scheme \<Rightarrow> unit result \<times> ('v, 'm) continuity_scheme" where
  "observe_usage_anchor sc nonce revision reported anchor = in_scope sc (\<lambda>s.
     case slot_of s sc of
       None \<Rightarrow> (Inr (), s)
     | Some sl \<Rightarrow>
         (case installed_view sl of
            None \<Rightarrow> (Inr (), s)
          | Some v \<Rightarrow>
              if epv_epoch_nonce v \<noteq> nonce then (Inr (), s)
              else if epv_epoch_revision v < revision
              then (Inl (conflict ''usage belongs to an uninstalled revision''), s)
              else if older_report revision anchor (slt_usage_anchor sl) then (Inr (), s)
              else (Inr (), put_slot sc (observe_anchor_slot revision reported anchor sl) s)))"

definition current_view ::
  "continuity_scope \<Rightarrow> ('v, 'm) continuity_scheme \<Rightarrow> 'v epoch_view option result" where
  "current_view sc s =
     map_sum id (\<lambda>_. Option.bind (slot_of s sc) installed_view) (require_scope sc s)"

definition current_cohort ::
  "continuity_scope \<Rightarrow> ('v, 'm) continuity_scheme \<Rightarrow> 'v cohort option result" where
  "current_cohort sc s =
     map_sum id (\<lambda>_. Option.bind (slot_of s sc) slt_installed) (require_scope sc s)"

section \<open>The fence against successors\<close>

definition install_fence ::
  "'v admission_fence \<Rightarrow> ('v, 'm) continuity_scheme \<Rightarrow>
   'v admission_fence result \<times> ('v, 'm) continuity_scheme" where
  "install_fence f0 = in_scope (fnc_scope f0) (\<lambda>s.
     let f = f0\<lparr>fnc_oid := own_next s\<rparr>;
         refused = (Inl (conflict ''no-continuation fence does not exact-join installed predecessor''), s) in
     if own_closed s then refused
     else
       (case slot_of s (fnc_scope f) of
          None \<Rightarrow> refused
        | Some sl \<Rightarrow>
            if slt_state sl \<noteq> INSTALLED \<or> slt_installed sl \<noteq> Some (fnc_predecessor f) \<or>
               slt_fence sl \<noteq> None \<or> slt_prepared sl \<noteq> None \<or> slt_replay sl \<noteq> None
            then refused
            else
              (case fence_init f of
                 Inl e \<Rightarrow> (Inl e, s)
               | Inr _ \<Rightarrow>
                   (Inr f, put_slot (fnc_scope f) (sl\<lparr>slt_fence := Some f\<rparr>) (take_oid s)))))"

section \<open>Adoption over an empty preparation\<close>

definition adoption_joined ::
  "continuity_scope \<Rightarrow> 'v empty_reservation \<Rightarrow> 'v preparation_basis \<Rightarrow> attempt_token \<Rightarrow>
   'v adoption \<Rightarrow> 'v dry_result \<Rightarrow> bool" where
  "adoption_joined sc r basis token cand dry \<longleftrightarrow>
     (let b = drr_basis dry; read = drb_canonical_read b in
      dry_source_reservation (drb_source b) = Some r \<and>
      bas_call_target basis = drb_destination b \<and>
      atk_session_id token = csc_session_id sc \<and> atk_turn_id token = adp_turn_id cand \<and>
      atk_scope_kind token = csc_kind sc \<and>
      adp_session_id cand = csc_session_id sc \<and> adp_scope_kind cand = csc_kind sc \<and>
      adp_turn_id cand = cid_turn_id (cdr_identity read) \<and>
      Some (adp_snapshot_id cand) = cbd_context_snapshot_id (cdr_binding read) \<and>
      adp_binding_revision_id cand = cbd_binding_revision_id (cdr_binding read) \<and>
      ctg_session_id (drb_destination b) = csc_session_id sc \<and>
      ctg_turn_id (drb_destination b) = adp_turn_id cand)"

definition begin_empty_adoption ::
  "continuity_scope \<Rightarrow> 'v empty_reservation \<Rightarrow> 'v preparation_basis \<Rightarrow> attempt_token \<Rightarrow>
   'v adoption \<Rightarrow> 'v dry_result \<Rightarrow> ('v, 'm) continuity_scheme \<Rightarrow>
   'v pending_adoption result \<times> ('v, 'm) continuity_scheme" where
  "begin_empty_adoption sc r basis token cand dry = in_scope sc (\<lambda>s.
     let refused = (Inl (conflict ''empty adoption does not exact-join current preparation''), s) in
     if own_closed s then refused
     else
       (case slot_of s sc of
          None \<Rightarrow> refused
        | Some sl \<Rightarrow>
            if slt_state sl \<noteq> PREPARING_EMPTY \<or> slt_reservation sl \<noteq> Some r \<or>
               \<not> adoption_joined sc r basis token cand dry \<or>
               slt_prepared sl \<noteq> None \<or> slt_replay sl \<noteq> None
            then refused
            else
              (let p = \<lparr>pnd_oid = own_next s, pnd_reservation = r, pnd_basis = basis,
                        pnd_attempt_token = token, pnd_candidate = cand, pnd_dry_result = dry\<rparr> in
               (Inr p, put_slot sc
                  (sl\<lparr>slt_pending := Some p, slt_state := EMPTY_ADOPTION_PENDING\<rparr>) (take_oid s)))))"

definition pending_scope :: "'v pending_adoption \<Rightarrow> continuity_scope" where
  "pending_scope p = lse_scope (rsv_lease (pnd_reservation p))"

text \<open>What all three settlements of a pending adoption check first.\<close>

definition pending_current :: "'v pending_adoption \<Rightarrow> 'v adoption_confirmation \<Rightarrow> 'v slot \<Rightarrow> bool" where
  "pending_current p conf sl \<longleftrightarrow>
     slt_state sl = EMPTY_ADOPTION_PENDING \<and> slt_pending sl = Some p \<and>
     slt_reservation sl = Some (pnd_reservation p) \<and> slt_settling_progress sl = None \<and>
     cnf_candidate conf = pnd_candidate p"

definition begin_settlement ::
  "confirmation_kind \<Rightarrow> slot_state \<Rightarrow> string \<Rightarrow> 'v pending_adoption \<Rightarrow> 'v adoption_confirmation \<Rightarrow>
   ('v, 'm) continuity_scheme \<Rightarrow> 'v adoption_settling result \<times> ('v, 'm) continuity_scheme" where
  "begin_settlement kind target stale p conf = in_scope (pending_scope p) (\<lambda>s.
     case slot_of s (pending_scope p) of
       None \<Rightarrow> (Inl (conflict stale), s)
     | Some sl \<Rightarrow>
         if \<not> pending_current p conf sl then (Inl (conflict stale), s)
         else
           (let st = \<lparr>stl_oid = own_next s, stl_kind = kind, stl_pending = p,
                      stl_confirmation = conf\<rparr> in
            case settling_init st of
              Inl e \<Rightarrow> (Inl e, s)
            | Inr _ \<Rightarrow>
                (Inr st, put_slot (pending_scope p)
                   (sl\<lparr>slt_settling := Some st,
                       slt_settling_progress := Some (Settling_Not_Revoked st),
                       slt_state := target\<rparr>) (take_oid s))))"

definition begin_full_settlement ::
  "'v pending_adoption \<Rightarrow> 'v adoption_confirmation \<Rightarrow> ('v, 'm) continuity_scheme \<Rightarrow>
   'v adoption_settling result \<times> ('v, 'm) continuity_scheme" where
  "begin_full_settlement =
     begin_settlement Adoption_Full EMPTY_ADOPTION_FULL_SETTLING
       ''empty adoption FULL confirmation is stale''"

definition begin_conflict_settlement ::
  "'v pending_adoption \<Rightarrow> 'v adoption_confirmation \<Rightarrow> ('v, 'm) continuity_scheme \<Rightarrow>
   'v adoption_settling result \<times> ('v, 'm) continuity_scheme" where
  "begin_conflict_settlement =
     begin_settlement Adoption_Conflict EMPTY_ADOPTION_CONFLICT_SETTLING
       ''empty adoption CONFLICT confirmation is stale''"

definition restore_empty_adoption_none ::
  "'v pending_adoption \<Rightarrow> 'v adoption_confirmation \<Rightarrow> ('v, 'm) continuity_scheme \<Rightarrow>
   unit result \<times> ('v, 'm) continuity_scheme" where
  "restore_empty_adoption_none p conf = in_scope (pending_scope p) (\<lambda>s.
     case slot_of s (pending_scope p) of
       None \<Rightarrow> (Inl (conflict ''empty adoption NONE settlement is stale''), s)
     | Some sl \<Rightarrow>
         if \<not> pending_current p conf sl \<or> cnf_kind conf \<noteq> Adoption_None
         then (Inl (conflict ''empty adoption NONE settlement is stale''), s)
         else (Inr (), put_slot (pending_scope p)
                 (sl\<lparr>slt_pending := None, slt_state := PREPARING_EMPTY\<rparr>) s))"

definition settling_scope :: "'v adoption_settling \<Rightarrow> continuity_scope" where
  "settling_scope st = pending_scope (stl_pending st)"

definition revoke_empty_adoption ::
  "'v adoption_settling \<Rightarrow> ('v, 'm) continuity_scheme \<Rightarrow>
   'v settling_revocation result \<times> ('v, 'm) continuity_scheme" where
  "revoke_empty_adoption st = in_scope (settling_scope st) (\<lambda>s.
     case slot_of s (settling_scope st) of
       None \<Rightarrow> (Inl (conflict ''empty adoption resource revocation is stale''), s)
     | Some sl \<Rightarrow>
         if slt_state sl \<notin> {EMPTY_ADOPTION_FULL_SETTLING, EMPTY_ADOPTION_CONFLICT_SETTLING} \<or>
            slt_settling sl \<noteq> Some st \<or>
            slt_settling_progress sl \<noteq> Some (Settling_Not_Revoked st)
         then (Inl (conflict ''empty adoption resource revocation is stale''), s)
         else
           (let r = \<lparr>srv_oid = own_next s, srv_settling = st\<rparr> in
            (Inr r, put_slot (settling_scope st)
               (sl\<lparr>slt_settling_progress := Some (Settling_Revoked r), slt_reservation := None,
                   slt_prepared := None\<rparr>) (take_oid s))))"

text \<open>\<open>release_full._consume(exact_subject, owner)\<close>: the release proof is used up at once.\<close>

definition consume_release ::
  "nat \<Rightarrow> 'v release_subject \<Rightarrow> nat \<Rightarrow> ('v, 'm) continuity_scheme \<Rightarrow>
   unit result \<times> ('v, 'm) continuity_scheme" where
  "consume_release i subject owner s =
     (let r = own_releases s ! i in
      if rel_owner r \<noteq> owner \<or> rel_subject r \<noteq> subject \<or> rel_consumed r
      then (Inl (RuntimeError ''provider preparation release proof is stale''), s)
      else (Inr (), s\<lparr>own_releases := (own_releases s)[i := r\<lparr>rel_consumed := True\<rparr>]\<rparr>))"

definition publish_after_adoption ::
  "'v adoption_settling \<Rightarrow> 'v settling_revocation \<Rightarrow> nat \<Rightarrow> nat \<Rightarrow> pystr \<Rightarrow>
   ('v, 'm) continuity_scheme \<Rightarrow> unit result \<times> ('v, 'm) continuity_scheme" where
  "publish_after_adoption st revoked release owner lease_nonce = in_scope (settling_scope st) (\<lambda>s0.
     and_then (consume_release release (Settling_Release st) owner s0) (\<lambda>_ s.
       let cand = pnd_candidate (stl_pending st);
           stale = (Inl (conflict ''empty adoption lease publication is stale''), s) in
       case slot_of s (settling_scope st) of
         None \<Rightarrow> stale
       | Some sl \<Rightarrow>
           if slt_state sl \<noteq> EMPTY_ADOPTION_FULL_SETTLING \<or> slt_settling sl \<noteq> Some st \<or>
              slt_settling_progress sl \<noteq> Some (Settling_Revoked revoked) \<or>
              srv_settling revoked \<noteq> st \<or> adp_snapshot_id cand = [] \<or>
              adp_binding_revision_id cand = []
           then stale
           else
             (case adopted_base_lease (own_writer_guard s) (stl_confirmation st)
                     (adp_snapshot_id cand) (adp_binding_revision_id cand) of
                Inl e \<Rightarrow> (Inl e, s)
              | Inr src \<Rightarrow>
                  (case bootstrap_lease_init (settling_scope st) lease_nonce src of
                     Inl e \<Rightarrow> (Inl e, s)
                   | Inr lease \<Rightarrow>
                       (Inr (), put_slot (settling_scope st)
                          (sl\<lparr>slt_lease := Some lease, slt_pending := None, slt_settling := None,
                              slt_settling_progress := None, slt_state := AUTHORIZED_EMPTY\<rparr>)
                          s)))))"

definition settling_revoked :: "'v slot \<Rightarrow> bool" where
  "settling_revoked sl \<longleftrightarrow>
     (case slt_settling_progress sl of Some (Settling_Revoked _) \<Rightarrow> True | _ \<Rightarrow> False)"

definition quarantine_adoption ::
  "'v adoption_settling \<Rightarrow> ('v, 'm) continuity_scheme \<Rightarrow> unit result \<times> ('v, 'm) continuity_scheme" where
  "quarantine_adoption st = in_scope (settling_scope st) (\<lambda>s.
     case slot_of s (settling_scope st) of
       None \<Rightarrow> (Inl (conflict ''empty adoption quarantine is stale''), s)
     | Some sl \<Rightarrow>
         if slt_settling sl \<noteq> Some st \<or> \<not> settling_revoked sl
         then (Inl (conflict ''empty adoption quarantine is stale''), s)
         else (Inr (), put_slot (settling_scope st)
                 (sl\<lparr>slt_state := EMPTY_ADOPTION_RESOURCE_RELEASE_QUARANTINE\<rparr>) s))"

section \<open>Settlement without continuation\<close>

definition begin_no_continuation ::
  "'v admission_fence \<Rightarrow> 'v continuation_closure \<Rightarrow> ('v, 'm) continuity_scheme \<Rightarrow>
   unit result \<times> ('v, 'm) continuity_scheme" where
  "begin_no_continuation f c = in_scope (fnc_scope f) (\<lambda>s.
     let refused = (Inl (conflict ''no-continuation closure is not quiescent/current''), s) in
     if own_closed s then refused
     else
       (case slot_of s (fnc_scope f) of
          None \<Rightarrow> refused
        | Some sl \<Rightarrow>
            if slt_state sl \<noteq> INSTALLED \<or> slt_installed sl \<noteq> Some (fnc_predecessor f) \<or>
               slt_fence sl \<noteq> Some f \<or> clo_fence c \<noteq> f \<or> slt_prepared sl \<noteq> None \<or>
               slt_replay sl \<noteq> None \<or> slt_closure_progress sl \<noteq> None \<or>
               list_ex (\<lambda>(_, i). same_scope (pmt_scope (isp_permit i)) (fnc_scope f)) (own_permits s)
            then refused
            else
              (Inr (), put_slot (fnc_scope f)
                 (sl\<lparr>slt_closure := Some c, slt_closure_progress := Some (Closure_Not_Revoked c),
                     slt_state := INSTALLED_NO_CONTINUATION_SETTLING\<rparr>) s)))"

definition revoke_no_continuation ::
  "'v admission_fence \<Rightarrow> 'v continuation_closure \<Rightarrow> ('v, 'm) continuity_scheme \<Rightarrow>
   'v fence_revocation result \<times> ('v, 'm) continuity_scheme" where
  "revoke_no_continuation f c = in_scope (fnc_scope f) (\<lambda>s.
     case slot_of s (fnc_scope f) of
       None \<Rightarrow> (Inl (conflict ''no-continuation revocation is stale''), s)
     | Some sl \<Rightarrow>
         if slt_state sl \<noteq> INSTALLED_NO_CONTINUATION_SETTLING \<or> slt_fence sl \<noteq> Some f \<or>
            slt_closure sl \<noteq> Some c \<or> slt_closure_progress sl \<noteq> Some (Closure_Not_Revoked c)
         then (Inl (conflict ''no-continuation revocation is stale''), s)
         else
           (let r = \<lparr>frv_oid = own_next s, frv_fence = f\<rparr> in
            (Inr r, put_slot (fnc_scope f)
               (sl\<lparr>slt_closure_progress := Some (Closure_Revoked r)\<rparr>) (take_oid s))))"

text \<open>
  The publication clears the installed epoch before it makes the new lease, so a refused
  lease would leave the slot without either.
\<close>

definition publish_after_no_continuation ::
  "'v admission_fence \<Rightarrow> 'v continuation_closure \<Rightarrow> 'v fence_revocation \<Rightarrow> nat \<Rightarrow> nat \<Rightarrow> pystr \<Rightarrow>
   ('v, 'm) continuity_scheme \<Rightarrow> unit result \<times> ('v, 'm) continuity_scheme" where
  "publish_after_no_continuation f c revoked release owner lease_nonce = in_scope (fnc_scope f) (\<lambda>s0.
     and_then (consume_release release (Closure_Release c) owner s0) (\<lambda>_ s.
       let stale = (Inl (conflict ''no-continuation final publication is stale''), s) in
       case slot_of s (fnc_scope f) of
         None \<Rightarrow> stale
       | Some sl \<Rightarrow>
           if slt_state sl \<noteq> INSTALLED_NO_CONTINUATION_SETTLING \<or>
              slt_installed sl \<noteq> Some (fnc_predecessor f) \<or> slt_fence sl \<noteq> Some f \<or>
              slt_closure sl \<noteq> Some c \<or> slt_closure_progress sl \<noteq> Some (Closure_Revoked revoked) \<or>
              frv_fence revoked \<noteq> f
           then stale
           else
             (let cleared = sl\<lparr>slt_usage_anchor := None, slt_installed := None,
                               slt_reservation := None\<rparr>;
                  s1 = put_slot (fnc_scope f) cleared s in
              case adopted_base_lease (own_writer_guard s) (fnc_confirmation f)
                     (fnc_snapshot_id f) (fnc_binding_revision_id f) of
                Inl e \<Rightarrow> (Inl e, s1)
              | Inr src \<Rightarrow>
                  (case bootstrap_lease_init (fnc_scope f) lease_nonce src of
                     Inl e \<Rightarrow> (Inl e, s1)
                   | Inr lease \<Rightarrow>
                       (Inr (), put_slot (fnc_scope f)
                          (cleared\<lparr>slt_lease := Some lease, slt_fence := None,
                                   slt_closure := None, slt_closure_progress := None,
                                   slt_state := AUTHORIZED_EMPTY\<rparr>) s)))))"

section \<open>Close\<close>

text \<open>\<open>close\<close>: every slot is emptied and dropped, and no permit survives.\<close>

definition continuity_close :: "('v, 'm) continuity_scheme \<Rightarrow> ('v, 'm) continuity_scheme" where
  "continuity_close s = s\<lparr>own_closed := True, own_slots := (\<lambda>_. None), own_permits := []\<rparr>"

end
