(* ===== verification/Continuity_Safety.thy ===== *)
theory Continuity_Safety
  imports Input_Continuity
begin

text \<open>
  The states a provider-input owner can reach, whatever the order of the calls. Each call
  changes the slot of the session by at most one step of \<open>slot_step\<close>, an abstract machine over
  the slot alone; the invariants are proved once for that machine.
\<close>

section \<open>Calls\<close>

datatype 'v owner_op =
    Op_Abort_Planning "'v planning_input"
  | Op_Freeze continuity_scope frontier 'v bool pystr pystr
  | Op_Sibling "'v planning_input" frontier 'v pystr
  | Op_Issue "'v planning_input" "'v preparation_basis option" "'v call_target"
      "'v cold_seed option" "'v semantic_projection" "'v wire_plan" "'v switch_admission option"
  | Op_Register "'v append_candidate"
  | Op_Install "'v append_candidate" nat "pystr list"
  | Op_Consume install_permit "'v append_candidate" nat
  | Op_Discard "'v append_candidate"
  | Op_Reserve continuity_scope pystr int "'v replay_fragment" pystr
  | Op_Promote "'v replay_reservation"
  | Op_Release "'v replay_reservation"
  | Op_Observe continuity_scope pystr int "pystr option" "'v usage_anchor option"
  | Op_Fence "'v admission_fence"
  | Op_Begin_Adoption continuity_scope "'v empty_reservation" "'v preparation_basis"
      attempt_token "'v adoption" "'v dry_result"
  | Op_Begin_Full "'v pending_adoption" "'v adoption_confirmation"
  | Op_Begin_Conflict "'v pending_adoption" "'v adoption_confirmation"
  | Op_Restore_None "'v pending_adoption" "'v adoption_confirmation"
  | Op_Revoke_Adoption "'v adoption_settling"
  | Op_Publish_Adoption "'v adoption_settling" "'v settling_revocation" nat nat pystr
  | Op_Quarantine "'v adoption_settling"
  | Op_Begin_Closure "'v admission_fence" "'v continuation_closure"
  | Op_Revoke_Closure "'v admission_fence" "'v continuation_closure"
  | Op_Publish_Closure "'v admission_fence" "'v continuation_closure" "'v fence_revocation" nat nat pystr
  | Op_Close

text \<open>Only whether a call raised is kept of its outcome.\<close>

definition outcome :: "'r result \<times> 's \<Rightarrow> bool \<times> 's" where
  "outcome r = (is_ok (fst r), snd r)"

fun owner_perform ::
  "'v value_codec \<Rightarrow> 'v owner_op \<Rightarrow> ('v, 'm) continuity_scheme \<Rightarrow>
   (bool \<times> ('v, 'm) continuity_scheme) option" where
  "owner_perform codec (Op_Abort_Planning pl) s = Some (outcome (abort_planning pl s))"
| "owner_perform codec (Op_Freeze sc new anchor detached rn pn) s =
     Some (outcome (freeze_planning sc new anchor detached rn pn s))"
| "owner_perform codec (Op_Sibling base new anchor pn) s =
     Some (outcome (freeze_planning_sibling base new anchor pn s))"
| "owner_perform codec (Op_Issue pl basis dest seed sem plan adm) s =
     Some (outcome (issue_transition pl basis dest seed sem plan adm s))"
| "owner_perform codec (Op_Register c) s = Some (outcome (register_candidate codec c s))"
| "owner_perform codec (Op_Install c x draws) s =
     map_option outcome (install_candidate codec c x draws s)"
| "owner_perform codec (Op_Consume p c x) s = Some (outcome (consume_install_permit p c x s))"
| "owner_perform codec (Op_Discard c) s = Some (outcome (discard_candidate c s))"
| "owner_perform codec (Op_Reserve sc n i f rn) s = Some (outcome (reserve_replay sc n i f rn s))"
| "owner_perform codec (Op_Promote r) s = Some (outcome (promote_replay codec r s))"
| "owner_perform codec (Op_Release r) s = Some (outcome (release_replay r s))"
| "owner_perform codec (Op_Observe sc n i m a) s = Some (outcome (observe_usage_anchor sc n i m a s))"
| "owner_perform codec (Op_Fence f) s = Some (outcome (install_fence f s))"
| "owner_perform codec (Op_Begin_Adoption sc r b k c d) s =
     Some (outcome (begin_empty_adoption sc r b k c d s))"
| "owner_perform codec (Op_Begin_Full p f) s = Some (outcome (begin_full_settlement p f s))"
| "owner_perform codec (Op_Begin_Conflict p f) s = Some (outcome (begin_conflict_settlement p f s))"
| "owner_perform codec (Op_Restore_None p f) s = Some (outcome (restore_empty_adoption_none p f s))"
| "owner_perform codec (Op_Revoke_Adoption st) s = Some (outcome (revoke_empty_adoption st s))"
| "owner_perform codec (Op_Publish_Adoption st r i o' n) s =
     Some (outcome (publish_after_adoption st r i o' n s))"
| "owner_perform codec (Op_Quarantine st) s = Some (outcome (quarantine_adoption st s))"
| "owner_perform codec (Op_Begin_Closure f c) s = Some (outcome (begin_no_continuation f c s))"
| "owner_perform codec (Op_Revoke_Closure f c) s = Some (outcome (revoke_no_continuation f c s))"
| "owner_perform codec (Op_Publish_Closure f c r i o' n) s =
     Some (outcome (publish_after_no_continuation f c r i o' n s))"
| "owner_perform codec Op_Close s = Some (True, continuity_close s)"

section \<open>The slot machine\<close>

text \<open>
  A call belongs to the kind that may end a pending replay, that works on permits, or that
  may use up an adopted authority; the others are plain.
\<close>

datatype call_kind = Plain | Replay | Permits | Issues

inductive slot_step ::
  "call_kind \<Rightarrow> 'v value_codec \<Rightarrow> ('v, 'm) continuity_scheme \<Rightarrow> 'v slot \<Rightarrow> 'v slot \<Rightarrow> bool"
  for rel :: call_kind and codec :: "'v value_codec" and s :: "('v, 'm) continuity_scheme" where
  step_return_lease:
    "slt_state sl \<in> {PREPARING_EMPTY, BOUND_EMPTY} \<Longrightarrow> slt_reservation sl = Some r \<Longrightarrow>
     slot_step rel codec s sl (sl\<lparr>slt_reservation := None, slt_lease := Some (rsv_lease r),
                              slt_state := AUTHORIZED_EMPTY\<rparr>)"
| step_take_lease:
    "slt_state sl = AUTHORIZED_EMPTY \<Longrightarrow> slt_lease sl = Some l \<Longrightarrow> rsv_lease r = l \<Longrightarrow>
     rsv_oid r = own_next s \<Longrightarrow>
     slot_step rel codec s sl (sl\<lparr>slt_lease := None, slt_reservation := Some r,
                              slt_state := PREPARING_EMPTY\<rparr>)"
| step_bind:
    "slt_state sl = PREPARING_EMPTY \<Longrightarrow> slot_step rel codec s sl (sl\<lparr>slt_state := BOUND_EMPTY\<rparr>)"
| step_register:
    "slt_state sl \<noteq> PREPARED \<Longrightarrow> slt_replay sl = None \<Longrightarrow> wire_joined codec c \<Longrightarrow>
     apc_basis c = Some b \<Longrightarrow> transition_checks sl c = Inr () \<Longrightarrow>
     csc_session_id (apc_scope c) = own_session_id s \<Longrightarrow>
     slot_step rel codec s sl (sl\<lparr>slt_prepared := Some c, slt_state := PREPARED\<rparr>)"
| step_install:
    "slt_prepared sl = Some c \<Longrightarrow>
     view_post_init codec (view_of_candidate codec (own_next s) sl c) = Inr () \<Longrightarrow>
     slot_step rel codec s sl (install_slot codec (own_next s) c sl)"
| step_discard_lost:
    "slt_prepared sl = Some c \<Longrightarrow> is_cold_start (apc_transition c) \<Longrightarrow> slt_reservation sl = None \<Longrightarrow>
     slot_step rel codec s sl (sl\<lparr>slt_prepared := None\<rparr>)"
| step_discard_cold:
    "slt_prepared sl = Some c \<Longrightarrow> is_cold_start (apc_transition c) \<Longrightarrow> slt_reservation sl = Some r \<Longrightarrow>
     slot_step rel codec s sl (sl\<lparr>slt_prepared := None, slt_reservation := None,
                              slt_lease := Some (rsv_lease r), slt_state := AUTHORIZED_EMPTY\<rparr>)"
| step_discard_successor:
    "slt_prepared sl = Some c \<Longrightarrow> \<not> is_cold_start (apc_transition c) \<Longrightarrow>
     slot_step rel codec s sl (sl\<lparr>slt_prepared := None, slt_state := INSTALLED\<rparr>)"
| step_reserve:
    "slt_state sl = INSTALLED \<Longrightarrow> slt_installed sl = Some h \<Longrightarrow> slt_replay sl = None \<Longrightarrow>
     csc_session_id (rrs_scope r) = own_session_id s \<Longrightarrow>
     rrs_epoch_nonce r = epv_epoch_nonce (coh_view h) \<Longrightarrow>
     rrs_epoch_revision r = epv_epoch_revision (coh_view h) \<Longrightarrow>
     rrs_oid r = own_next s \<Longrightarrow>
     (if rrs_already_bound r then fragments_of (frg_entry_id (rrs_fragment r)) (coh_view h) = [rrs_fragment r]
      else fragments_of (frg_entry_id (rrs_fragment r)) (coh_view h) = []) \<Longrightarrow>
     slot_step rel codec s sl (sl\<lparr>slt_replay := Some r\<rparr>)"
| step_promote:
    "rel = Replay \<Longrightarrow> slt_state sl = INSTALLED \<Longrightarrow> slt_installed sl = Some h \<Longrightarrow> slt_replay sl = Some r \<Longrightarrow>
     fragments_of (frg_entry_id (rrs_fragment r)) (coh_view h) = [] \<Longrightarrow>
     view_post_init codec (coh_view (with_fragment (own_next s) (rrs_fragment r) h)) = Inr () \<Longrightarrow>
     slot_step rel codec s sl (sl\<lparr>slt_installed := Some (with_fragment (own_next s) (rrs_fragment r) h),
                              slt_replay := None\<rparr>)"
| step_release:
    "rel = Replay \<Longrightarrow> slot_step rel codec s sl (sl\<lparr>slt_replay := None\<rparr>)"
| step_observe:
    "slt_installed sl = Some h \<Longrightarrow> revision \<le> epv_epoch_revision (coh_view h) \<Longrightarrow>
     \<not> older_report revision a (slt_usage_anchor sl) \<Longrightarrow>
     slot_step rel codec s sl (observe_anchor_slot revision m a sl)"
| step_fence:
    "slt_state sl = INSTALLED \<Longrightarrow> slt_installed sl = Some (fnc_predecessor f) \<Longrightarrow>
     slt_fence sl = None \<Longrightarrow> slt_prepared sl = None \<Longrightarrow> slt_replay sl = None \<Longrightarrow>
     fence_init f = Inr () \<Longrightarrow> fnc_oid f = own_next s \<Longrightarrow>
     csc_session_id (fnc_scope f) = own_session_id s \<Longrightarrow>
     slot_step rel codec s sl (sl\<lparr>slt_fence := Some f\<rparr>)"
| step_begin_adoption:
    "slt_state sl = PREPARING_EMPTY \<Longrightarrow> slt_reservation sl = Some (pnd_reservation p) \<Longrightarrow>
     slt_prepared sl = None \<Longrightarrow> slt_replay sl = None \<Longrightarrow> pnd_oid p = own_next s \<Longrightarrow>
     slot_step rel codec s sl (sl\<lparr>slt_pending := Some p, slt_state := EMPTY_ADOPTION_PENDING\<rparr>)"
| step_settle:
    "slt_state sl = EMPTY_ADOPTION_PENDING \<Longrightarrow> slt_pending sl = Some (stl_pending st) \<Longrightarrow>
     slt_reservation sl = Some (pnd_reservation (stl_pending st)) \<Longrightarrow>
     slt_settling_progress sl = None \<Longrightarrow> settling_init st = Inr () \<Longrightarrow> stl_oid st = own_next s \<Longrightarrow>
     (stl_kind st, target) \<in> {(Adoption_Full, EMPTY_ADOPTION_FULL_SETTLING),
                             (Adoption_Conflict, EMPTY_ADOPTION_CONFLICT_SETTLING)} \<Longrightarrow>
     slot_step rel codec s sl (sl\<lparr>slt_settling := Some st,
                              slt_settling_progress := Some (Settling_Not_Revoked st),
                              slt_state := target\<rparr>)"
| step_restore:
    "slt_state sl = EMPTY_ADOPTION_PENDING \<Longrightarrow> slt_settling_progress sl = None \<Longrightarrow>
     slot_step rel codec s sl (sl\<lparr>slt_pending := None, slt_state := PREPARING_EMPTY\<rparr>)"
| step_revoke_adoption:
    "slt_state sl \<in> {EMPTY_ADOPTION_FULL_SETTLING, EMPTY_ADOPTION_CONFLICT_SETTLING} \<Longrightarrow>
     slt_settling sl = Some st \<Longrightarrow> slt_settling_progress sl = Some (Settling_Not_Revoked st) \<Longrightarrow>
     srv_settling r = st \<Longrightarrow> srv_oid r = own_next s \<Longrightarrow>
     slot_step rel codec s sl (sl\<lparr>slt_settling_progress := Some (Settling_Revoked r),
                              slt_reservation := None, slt_prepared := None\<rparr>)"
| step_publish_adoption:
    "slt_state sl = EMPTY_ADOPTION_FULL_SETTLING \<Longrightarrow> slt_settling sl = Some st \<Longrightarrow>
     slt_settling_progress sl = Some (Settling_Revoked r) \<Longrightarrow> srv_settling r = st \<Longrightarrow>
     lse_source lease = Adopted_Base_Lease (own_writer_guard s) (stl_confirmation st)
       (adp_snapshot_id (pnd_candidate (stl_pending st)))
       (adp_binding_revision_id (pnd_candidate (stl_pending st))) \<Longrightarrow>
     slot_step rel codec s sl (sl\<lparr>slt_lease := Some lease, slt_pending := None, slt_settling := None,
                              slt_settling_progress := None, slt_state := AUTHORIZED_EMPTY\<rparr>)"
| step_quarantine:
    "settling_revoked sl \<Longrightarrow>
     slot_step rel codec s sl (sl\<lparr>slt_state := EMPTY_ADOPTION_RESOURCE_RELEASE_QUARANTINE\<rparr>)"
| step_begin_closure:
    "slt_state sl = INSTALLED \<Longrightarrow> slt_installed sl = Some (fnc_predecessor f) \<Longrightarrow>
     slt_fence sl = Some f \<Longrightarrow> clo_fence c = f \<Longrightarrow> slt_prepared sl = None \<Longrightarrow>
     slt_replay sl = None \<Longrightarrow> slt_closure_progress sl = None \<Longrightarrow>
     slot_step rel codec s sl (sl\<lparr>slt_closure := Some c,
                              slt_closure_progress := Some (Closure_Not_Revoked c),
                              slt_state := INSTALLED_NO_CONTINUATION_SETTLING\<rparr>)"
| step_revoke_closure:
    "slt_state sl = INSTALLED_NO_CONTINUATION_SETTLING \<Longrightarrow> slt_fence sl = Some f \<Longrightarrow>
     slt_closure sl = Some c \<Longrightarrow> slt_closure_progress sl = Some (Closure_Not_Revoked c) \<Longrightarrow>
     frv_fence r = f \<Longrightarrow> frv_oid r = own_next s \<Longrightarrow>
     slot_step rel codec s sl (sl\<lparr>slt_closure_progress := Some (Closure_Revoked r)\<rparr>)"
| step_publish_closure:
    "slt_state sl = INSTALLED_NO_CONTINUATION_SETTLING \<Longrightarrow> slt_fence sl = Some f \<Longrightarrow>
     slt_installed sl = Some (fnc_predecessor f) \<Longrightarrow> slt_closure sl = Some c \<Longrightarrow>
     slt_closure_progress sl = Some (Closure_Revoked r) \<Longrightarrow> frv_fence r = f \<Longrightarrow>
     lse_source lease = Adopted_Base_Lease (own_writer_guard s) (fnc_confirmation f)
       (fnc_snapshot_id f) (fnc_binding_revision_id f) \<Longrightarrow>
     slot_step rel codec s sl (sl\<lparr>slt_usage_anchor := None, slt_installed := None,
                              slt_reservation := None, slt_lease := Some lease, slt_fence := None,
                              slt_closure := None, slt_closure_progress := None,
                              slt_state := AUTHORIZED_EMPTY\<rparr>)"

text \<open>How a call moves the owner, the shared authorities, proofs and permits apart.\<close>

definition moves ::
  "call_kind \<Rightarrow> 'v value_codec \<Rightarrow> ('v, 'm) continuity_scheme \<Rightarrow> ('v, 'm) continuity_scheme \<Rightarrow> bool" where
  "moves rel codec s t \<longleftrightarrow>
     own_session_id t = own_session_id s \<and> own_writer_guard t = own_writer_guard s \<and>
     own_closed t = own_closed s \<and> own_next s \<le> own_next t \<and>
     continuity.more t = continuity.more s \<and>
     (rel = Permits \<or> own_permits t = own_permits s) \<and>
     (rel = Issues \<or> own_authorities t = own_authorities s) \<and>
     (own_slots t = own_slots s \<or>
      (\<exists>sl sl'. own_slots s (own_session_id s) = Some sl \<and> slot_step rel codec s sl sl' \<and>
         own_slots t = (own_slots s)(own_session_id s \<mapsto> sl')))"

text \<open>The lease nonces that a publication draws are identities, so they are not empty.\<close>

fun drawn_ok :: "'v owner_op \<Rightarrow> bool" where
  "drawn_ok (Op_Publish_Adoption _ _ _ _ n) \<longleftrightarrow> n \<noteq> []"
| "drawn_ok (Op_Publish_Closure _ _ _ _ _ n) \<longleftrightarrow> n \<noteq> []"
| "drawn_ok _ \<longleftrightarrow> True"

named_theorems owner_ops "the operations of the owner, unfolded"

lemmas [owner_ops] =
  in_scope_def require_scope_def slot_of_def put_slot_def take_oid_def outcome_def Let_def

lemma moves_refl [simp]: "moves rel codec s s"
  by (simp add: moves_def)

lemma moves_put [intro]:
  "slot_step rel codec s sl sl' \<Longrightarrow> own_slots s (own_session_id s) = Some sl \<Longrightarrow>
   moves rel codec s (s\<lparr>own_slots := (own_slots s)(own_session_id s \<mapsto> sl')\<rparr>)"
  by (auto simp: moves_def)

lemma moves_put_next [intro]:
  "slot_step rel codec s sl sl' \<Longrightarrow> own_slots s (own_session_id s) = Some sl \<Longrightarrow> own_next s \<le> n \<Longrightarrow>
   moves rel codec s (s\<lparr>own_slots := (own_slots s)(own_session_id s \<mapsto> sl'), own_next := n\<rparr>)"
  by (auto simp: moves_def)

lemma moves_next_put [intro]:
  "slot_step rel codec s sl sl' \<Longrightarrow> own_slots s (own_session_id s) = Some sl \<Longrightarrow> own_next s \<le> n \<Longrightarrow>
   moves rel codec s (s\<lparr>own_next := n, own_slots := (own_slots s)(own_session_id s \<mapsto> sl')\<rparr>)"
  by (auto simp: moves_def)

lemma moves_put_permits [intro]:
  "slot_step rel codec s sl sl' \<Longrightarrow> own_slots s (own_session_id s) = Some sl \<Longrightarrow> own_next s \<le> n \<Longrightarrow>
   rel = Permits \<Longrightarrow>
   moves rel codec s (s\<lparr>own_slots := (own_slots s)(own_session_id s \<mapsto> sl'), own_next := n,
                    own_permits := ps\<rparr>)"
  by (auto simp: moves_def)

lemma checked_commute [owner_ops]:
  "(Inr () = transition_checks sl c) = (transition_checks sl c = Inr ())"
  "(Inr () = view_post_init codec v) = (view_post_init codec v = Inr ())"
  "(Inr () = fence_init f) = (fence_init f = Inr ())"
  "(Inr () = settling_init st) = (settling_init st = Inr ())"
  by auto

lemma abort_planning_moves: "abort_planning pl s = (r, t) \<Longrightarrow> moves rel codec s t"
  unfolding abort_planning_def
  by (auto simp: owner_ops intro: slot_step.intros split: if_splits option.splits)

lemma freeze_planning_moves:
  "freeze_planning sc new anchor d rn pn s = (r, t) \<Longrightarrow> moves rel codec s t"
  unfolding freeze_planning_def
  by (auto simp: owner_ops intro!: moves_next_put [OF step_take_lease]
      split: if_splits option.splits slot_state.splits)

lemma sibling_moves: "freeze_planning_sibling b new anchor pn s = (r, t) \<Longrightarrow> moves rel codec s t"
  unfolding freeze_planning_sibling_def
  by (auto simp: owner_ops split: if_splits option.splits)

lemma consume_authority_frame:
  "consume_authority sd h d b s = (r, t) \<Longrightarrow>
     own_slots t = own_slots s \<and> own_session_id t = own_session_id s \<and>
     own_writer_guard t = own_writer_guard s \<and> own_closed t = own_closed s \<and>
     own_next t = own_next s \<and> own_permits t = own_permits s \<and> own_releases t = own_releases s \<and>
     continuity.more t = continuity.more s"
  by (auto simp: consume_authority_def Let_def split: if_splits)

lemma issue_installed_moves:
  assumes "issue_from_installed h b d seed sem plan adm sl s = (r, t)"
  shows "moves Issues codec s t"
proof -
  have frame: "own_slots t = own_slots s \<and> own_session_id t = own_session_id s \<and>
      own_writer_guard t = own_writer_guard s \<and> own_closed t = own_closed s \<and> own_permits t = own_permits s \<and>
      own_next t = own_next s \<and> continuity.more t = continuity.more s"
    if "and_then (consume_authority sd h d b s) (\<lambda>_ t. (Inr (Adopted_Successor h d sd), t)) = (r, t)"
    for sd
    using that consume_authority_frame [of sd h d b s]
    by (auto simp: and_then_def split: prod.splits sum.splits)
  show ?thesis
    using assms frame unfolding issue_from_installed_def moves_def
    by (auto split: if_splits option.splits cold_seed.splits prod.splits)
qed

lemma issue_transition_moves:
  "issue_transition pl b d seed sem plan adm s = (r, t) \<Longrightarrow> moves Issues codec s t"
  unfolding issue_transition_def issue_from_empty_def
  by (auto simp: owner_ops intro: slot_step.intros
      dest!: issue_installed_moves [where codec = codec]
      split: if_splits option.splits cold_seed.splits sum.splits)

lemma register_moves: "register_candidate codec c s = (r, t) \<Longrightarrow> moves rel codec s t"
  unfolding register_candidate_def
  by (auto simp: owner_ops intro!: moves_put [OF step_register]
      split: if_splits option.splits sum.splits)

lemma install_moves: "install_candidate codec c x draws s = Some (r, t) \<Longrightarrow> moves Permits codec s t"
  unfolding install_candidate_def
  by (auto simp: owner_ops intro: slot_step.intros
      split: if_splits option.splits sum.splits)

lemma consume_moves: "consume_install_permit p c x s = (r, t) \<Longrightarrow> moves Permits codec s t"
  by (auto simp: consume_install_permit_def moves_def split: if_splits)

lemma discard_moves: "discard_candidate c s = (r, t) \<Longrightarrow> moves rel codec s t"
  unfolding discard_candidate_def
  by (auto simp: owner_ops intro: slot_step.intros split: if_splits option.splits)

lemma reserve_moves: "reserve_replay sc n i f rn s = (r, t) \<Longrightarrow> moves rel codec s t"
  unfolding reserve_replay_def installed_view_def
  by (auto simp: owner_ops intro!: moves_put moves_put_next moves_next_put slot_step.intros
      split: if_splits option.splits sum.splits)

lemma promote_moves: "promote_replay codec q s = (r, t) \<Longrightarrow> moves Replay codec s t"
  unfolding promote_replay_def
  by (auto simp: owner_ops intro: moves_put [OF step_release] intro!: moves_next_put [OF step_promote]
      split: if_splits option.splits sum.splits)

lemma release_moves: "release_replay q s = (r, t) \<Longrightarrow> moves Replay codec s t"
  unfolding release_replay_def
  by (auto simp: owner_ops intro: slot_step.intros split: if_splits option.splits)

lemma observe_moves: "observe_usage_anchor sc n i m a s = (r, t) \<Longrightarrow> moves rel codec s t"
  unfolding observe_usage_anchor_def installed_view_def
  by (auto simp: owner_ops intro!: moves_put moves_put_next moves_next_put slot_step.intros split: if_splits option.splits)

lemma fence_moves: "install_fence f s = (r, t) \<Longrightarrow> moves rel codec s t"
  unfolding install_fence_def
  by (auto simp: owner_ops intro!: moves_put moves_put_next moves_next_put slot_step.intros
      split: if_splits option.splits sum.splits)

lemma begin_adoption_moves: "begin_empty_adoption sc q b k c d s = (r, t) \<Longrightarrow> moves rel codec s t"
  unfolding begin_empty_adoption_def
  by (auto simp: owner_ops intro!: moves_put moves_put_next moves_next_put slot_step.intros split: if_splits option.splits)

lemma settlement_moves:
  "begin_settlement kind target m p f s = (r, t) \<Longrightarrow>
   (kind, target) \<in> {(Adoption_Full, EMPTY_ADOPTION_FULL_SETTLING),
                     (Adoption_Conflict, EMPTY_ADOPTION_CONFLICT_SETTLING)} \<Longrightarrow> moves rel codec s t"
  unfolding begin_settlement_def pending_current_def
  by (auto simp: owner_ops intro!: moves_put moves_put_next moves_next_put step_settle split: if_splits option.splits sum.splits)

lemma restore_moves: "restore_empty_adoption_none p f s = (r, t) \<Longrightarrow> moves rel codec s t"
  unfolding restore_empty_adoption_none_def pending_current_def
  by (auto simp: owner_ops intro: slot_step.intros split: if_splits option.splits)

lemma revoke_adoption_moves: "revoke_empty_adoption st s = (r, t) \<Longrightarrow> moves rel codec s t"
  unfolding revoke_empty_adoption_def
  by (auto simp: owner_ops intro!: moves_put moves_put_next moves_next_put step_revoke_adoption split: if_splits option.splits)

lemma quarantine_moves: "quarantine_adoption st s = (r, t) \<Longrightarrow> moves rel codec s t"
  unfolding quarantine_adoption_def
  by (auto simp: owner_ops intro: slot_step.intros split: if_splits option.splits)

lemma begin_closure_moves: "begin_no_continuation f c s = (r, t) \<Longrightarrow> moves rel codec s t"
  unfolding begin_no_continuation_def
  by (auto simp: owner_ops intro!: moves_put moves_put_next moves_next_put step_begin_closure split: if_splits option.splits)

lemma revoke_closure_moves: "revoke_no_continuation f c s = (r, t) \<Longrightarrow> moves rel codec s t"
  unfolding revoke_no_continuation_def
  by (auto simp: owner_ops intro!: moves_put moves_put_next moves_next_put step_revoke_closure split: if_splits option.splits)


section \<open>The invariant\<close>

text \<open>Which authority a slot holds in each of its states.\<close>

definition no_epoch :: "'v slot \<Rightarrow> bool" where
  "no_epoch sl \<longleftrightarrow> slt_installed sl = None \<and> slt_usage_anchor sl = None \<and> slt_replay sl = None \<and>
     slt_fence sl = None"

definition no_closure :: "'v slot \<Rightarrow> bool" where
  "no_closure sl \<longleftrightarrow> slt_closure sl = None \<and> slt_closure_progress sl = None"

definition no_adoption :: "'v slot \<Rightarrow> bool" where
  "no_adoption sl \<longleftrightarrow> slt_pending sl = None \<and> slt_settling sl = None \<and> slt_settling_progress sl = None"

definition settling_of :: "confirmation_kind \<Rightarrow> 'v slot \<Rightarrow> bool" where
  "settling_of kind sl \<longleftrightarrow>
     (\<exists>st. slt_settling sl = Some st \<and> stl_kind st = kind \<and> slt_pending sl = Some (stl_pending st) \<and>
        settling_init st = Inr () \<and>
        ((slt_settling_progress sl = Some (Settling_Not_Revoked st) \<and>
          slt_reservation sl = Some (pnd_reservation (stl_pending st))) \<or>
         (\<exists>r. slt_settling_progress sl = Some (Settling_Revoked r) \<and> srv_settling r = st \<and>
          slt_reservation sl = None)))"

definition slot_shape :: "'v slot \<Rightarrow> bool" where
  "slot_shape sl \<longleftrightarrow>
     (case slt_state sl of
        AUTHORIZED_EMPTY \<Rightarrow>
          slt_lease sl \<noteq> None \<and> slt_reservation sl = None \<and> slt_prepared sl = None \<and>
          no_epoch sl \<and> no_closure sl \<and> no_adoption sl
      | PREPARING_EMPTY \<Rightarrow>
          slt_lease sl = None \<and> slt_reservation sl \<noteq> None \<and> slt_prepared sl = None \<and>
          no_epoch sl \<and> no_closure sl \<and> no_adoption sl
      | BOUND_EMPTY \<Rightarrow>
          slt_lease sl = None \<and> slt_reservation sl \<noteq> None \<and> slt_prepared sl = None \<and>
          no_epoch sl \<and> no_closure sl \<and> no_adoption sl
      | PREPARED \<Rightarrow>
          slt_lease sl = None \<and> slt_prepared sl \<noteq> None \<and> slt_replay sl = None \<and>
          (slt_reservation sl \<noteq> None \<longleftrightarrow> slt_installed sl = None) \<and>
          (slt_installed sl = None \<longrightarrow> no_epoch sl) \<and> no_closure sl \<and> no_adoption sl
      | INSTALLED \<Rightarrow>
          slt_lease sl = None \<and> slt_reservation sl = None \<and> slt_prepared sl = None \<and>
          slt_installed sl \<noteq> None \<and> no_closure sl \<and> no_adoption sl
      | INSTALLED_NO_CONTINUATION_SETTLING \<Rightarrow>
          slt_lease sl = None \<and> slt_reservation sl = None \<and> slt_prepared sl = None \<and>
          slt_replay sl = None \<and> no_adoption sl \<and>
          (\<exists>f c. slt_fence sl = Some f \<and> slt_installed sl = Some (fnc_predecessor f) \<and>
             slt_closure sl = Some c \<and> clo_fence c = f \<and>
             (slt_closure_progress sl = Some (Closure_Not_Revoked c) \<or>
              (\<exists>r. slt_closure_progress sl = Some (Closure_Revoked r) \<and> frv_fence r = f)))
      | EMPTY_ADOPTION_PENDING \<Rightarrow>
          slt_lease sl = None \<and> slt_prepared sl = None \<and> no_epoch sl \<and> no_closure sl \<and>
          slt_settling sl = None \<and> slt_settling_progress sl = None \<and>
          (\<exists>p. slt_pending sl = Some p \<and> slt_reservation sl = Some (pnd_reservation p))
      | EMPTY_ADOPTION_FULL_SETTLING \<Rightarrow>
          slt_lease sl = None \<and> slt_prepared sl = None \<and> no_epoch sl \<and> no_closure sl \<and>
          settling_of Adoption_Full sl
      | EMPTY_ADOPTION_CONFLICT_SETTLING \<Rightarrow>
          slt_lease sl = None \<and> slt_prepared sl = None \<and> no_epoch sl \<and> no_closure sl \<and>
          settling_of Adoption_Conflict sl
      | EMPTY_ADOPTION_RESOURCE_RELEASE_QUARANTINE \<Rightarrow>
          slt_lease sl = None \<and> slt_prepared sl = None \<and> no_epoch sl \<and> no_closure sl \<and>
          slt_reservation sl = None \<and> settling_revoked sl
      | SLOT_CLOSED \<Rightarrow> False)"

text \<open>
  A prepared candidate would still pass the checks of its registration: nothing it was checked
  against changes while it is prepared.
\<close>

definition before_registration :: "'v append_candidate \<Rightarrow> 'v slot \<Rightarrow> 'v slot" where
  "before_registration c sl =
     sl\<lparr>slt_state := (if is_cold_start (apc_transition c) then BOUND_EMPTY else INSTALLED)\<rparr>"

definition prepared_joined :: "'v value_codec \<Rightarrow> 'v slot \<Rightarrow> bool" where
  "prepared_joined codec sl \<longleftrightarrow>
     (case slt_prepared sl of
        None \<Rightarrow> True
      | Some c \<Rightarrow> wire_joined codec c \<and> apc_basis c \<noteq> None \<and>
          is_cold_start (apc_transition c) = (slt_installed sl = None) \<and>
          transition_checks (before_registration c sl) c = Inr ())"

text \<open>What holds of the installed view, a pending replay, a fence and a prepared candidate.\<close>

definition epoch_inv :: "'v value_codec \<Rightarrow> ('v, 'm) continuity_scheme \<Rightarrow> 'v slot \<Rightarrow> bool" where
  "epoch_inv codec s sl \<longleftrightarrow>
     (case slt_installed sl of
        None \<Rightarrow> True
      | Some h \<Rightarrow> view_post_init codec (coh_view h) = Inr () \<and>
          (case slt_replay sl of
             None \<Rightarrow> True
           | Some r \<Rightarrow> csc_session_id (rrs_scope r) = own_session_id s \<and>
               rrs_epoch_nonce r = epv_epoch_nonce (coh_view h) \<and>
               rrs_epoch_revision r = epv_epoch_revision (coh_view h) \<and>
               fragments_of (frg_entry_id (rrs_fragment r)) (coh_view h) =
                 (if rrs_already_bound r then [rrs_fragment r] else []))) \<and>
     (case slt_fence sl of
        None \<Rightarrow> True
      | Some f \<Rightarrow> fence_init f = Inr () \<and> csc_session_id (fnc_scope f) = own_session_id s) \<and>
     (case slt_prepared sl of
        None \<Rightarrow> True
      | Some c \<Rightarrow> csc_session_id (apc_scope c) = own_session_id s)"

definition slot_inv :: "'v value_codec \<Rightarrow> ('v, 'm) continuity_scheme \<Rightarrow> 'v slot \<Rightarrow> bool" where
  "slot_inv codec s sl \<longleftrightarrow> slot_shape sl \<and> prepared_joined codec sl \<and> epoch_inv codec s sl"

definition owner_inv :: "'v value_codec \<Rightarrow> ('v, 'm) continuity_scheme \<Rightarrow> bool" where
  "owner_inv codec s \<longleftrightarrow>
     wgd_session_id (own_writer_guard s) = own_session_id s \<and>
     (\<forall>k. own_slots s k \<noteq> None \<longleftrightarrow> k = own_session_id s \<and> \<not> own_closed s) \<and>
     (case own_slots s (own_session_id s) of None \<Rightarrow> True | Some sl \<Rightarrow> slot_inv codec s sl)"

lemmas shape_defs =
  slot_shape_def no_epoch_def no_closure_def no_adoption_def settling_of_def settling_revoked_def

lemma shape_step:
  assumes "slot_step rel codec s sl sl'" and "slot_shape sl" and "prepared_joined codec sl"
  shows "slot_shape sl'"
  using assms
proof (cases rule: slot_step.cases)
  case (step_register c b)
  then show ?thesis using assms(2)
    by (cases "apc_transition c")
      (auto simp: shape_defs transition_checks_def split: slot_state.splits if_splits option.splits)
next
  case (step_install c)
  then show ?thesis using assms(2)
    by (auto simp: shape_defs install_slot_def Let_def split: slot_state.splits)
next
  case (step_discard_successor c)
  then show ?thesis using assms(2,3)
    by (auto simp: shape_defs prepared_joined_def split: slot_state.splits)
next
  case (step_discard_lost c)
  then show ?thesis using assms(2,3)
    by (auto simp: shape_defs prepared_joined_def split: slot_state.splits)
next
  case (step_discard_cold c r)
  then show ?thesis using assms(2,3)
    by (auto simp: shape_defs prepared_joined_def split: slot_state.splits)
next
  case (step_observe h revision a m)
  then show ?thesis using assms(2)
    by (auto simp: shape_defs observe_anchor_slot_def Let_def split: slot_state.splits option.splits)
qed (use assms(2) in \<open>auto simp: shape_defs split: slot_state.splits\<close>)

text \<open>The checks of a candidate read the installed cohort, the reservation and the state only.\<close>

lemma transition_checks_cong:
  assumes "slt_state a = slt_state b" and "slt_installed a = slt_installed b"
    and "slt_reservation a = slt_reservation b"
  shows "transition_checks a c = transition_checks b c"
  unfolding transition_checks_def assms ..

lemma transition_checks_state:
  assumes "transition_checks sl c = Inr ()"
  shows "slt_state sl = (if is_cold_start (apc_transition c) then BOUND_EMPTY else INSTALLED)"
  using assms by (auto simp: transition_checks_def is_cold_start_def
      split: epoch_transition.splits option.splits if_splits)

lemma prepared_joined_same:
  assumes "prepared_joined codec sl" and "slt_prepared sl' = slt_prepared sl"
    and "slt_installed sl' = slt_installed sl" and "slt_reservation sl' = slt_reservation sl"
  shows "prepared_joined codec sl'"
proof -
  have "transition_checks (before_registration c sl') c = transition_checks (before_registration c sl) c"
    for c
    using assms(3,4) by (intro transition_checks_cong) (simp_all add: before_registration_def)
  with assms show ?thesis by (auto simp: prepared_joined_def split: option.splits)
qed

lemma prepared_joined_none: "slt_prepared sl = None \<Longrightarrow> prepared_joined codec sl"
  by (simp add: prepared_joined_def)

lemma joined_step:
  assumes "slot_step rel codec s sl sl'" and "slot_shape sl" and "prepared_joined codec sl"
  shows "prepared_joined codec sl'"
proof -
  note same = prepared_joined_same [OF assms(3)]
  from assms(1) show ?thesis
  proof (cases rule: slot_step.cases)
    case (step_register c b)
    note st = transition_checks_state [OF step_register(6)]
    then have "is_cold_start (apc_transition c) = (slt_installed sl = None)"
      using assms(2) by (auto simp: shape_defs split: if_splits)
    moreover have "transition_checks (before_registration c sl') c = transition_checks sl c"
      using step_register(1) st by (intro transition_checks_cong) (simp_all add: before_registration_def)
    ultimately show ?thesis using step_register by (simp add: prepared_joined_def)
  next
    case (step_install c)
    then show ?thesis by (simp add: install_slot_def Let_def prepared_joined_def)
  next
    case (step_observe h revision a m)
    then show ?thesis
      by (intro same) (auto simp: observe_anchor_slot_def Let_def split: option.splits)
  next
    case (step_promote h r)
    then show ?thesis using assms(2) by (intro prepared_joined_none) (simp add: shape_defs)
  next
    case (step_return_lease r)
    then show ?thesis using assms(2) by (intro prepared_joined_none) (auto simp: shape_defs)
  next
    case (step_take_lease l r)
    then show ?thesis using assms(2) by (intro prepared_joined_none) (auto simp: shape_defs)
  next
    case (step_publish_closure f c r lease)
    then show ?thesis using assms(2) by (intro prepared_joined_none) (auto simp: shape_defs)
  qed (intro same, auto simp: prepared_joined_def; fail | intro prepared_joined_none; simp)+
qed

lemma fragments_of_append:
  "fragments_of e (v\<lparr>epv_oid := i, epv_fragments := epv_fragments v @ [f]\<rparr>) =
     fragments_of e v @ (if frg_entry_id f = e then [f] else [])"
  by (simp add: fragments_of_def)

lemma epoch_step:
  assumes "slot_step rel codec s sl sl'" and "slot_shape sl" and "prepared_joined codec sl"
    and "epoch_inv codec s sl" and "own_session_id t = own_session_id s"
  shows "epoch_inv codec t sl'"
  using assms(1)
proof (cases rule: slot_step.cases)
  case (step_install c)
  then show ?thesis using assms(2,4,5)
    by (auto simp: epoch_inv_def install_slot_def Let_def shape_defs split: option.splits slot_state.splits)
next
  case (step_observe h revision a m)
  then show ?thesis using assms(4,5)
    by (auto simp: epoch_inv_def observe_anchor_slot_def Let_def split: option.splits)
qed (use assms(2,4,5) in \<open>auto simp: epoch_inv_def shape_defs split: option.splits if_splits\<close>)

lemma slot_inv_step:
  "slot_step rel codec s sl sl' \<Longrightarrow> slot_inv codec s sl \<Longrightarrow> own_session_id t = own_session_id s \<Longrightarrow>
   slot_inv codec t sl'"
  using shape_step joined_step epoch_step unfolding slot_inv_def by blast

lemma slot_inv_cong:
  assumes "own_session_id t = own_session_id s"
  shows "slot_inv codec t sl = slot_inv codec s sl"
  unfolding slot_inv_def epoch_inv_def assms ..

lemma moves_inv: "moves rel codec s t \<Longrightarrow> owner_inv codec s \<Longrightarrow> owner_inv codec t"
  unfolding moves_def owner_inv_def
  by (auto split: option.splits simp: slot_inv_cong [of t s] dest: slot_inv_step [of _ codec s _ _ t])

text \<open>A release proof or an authority that is used up on the way does not concern the slot.\<close>

definition same_owner :: "('v, 'm) continuity_scheme \<Rightarrow> ('v, 'm) continuity_scheme \<Rightarrow> bool" where
  "same_owner s u \<longleftrightarrow> own_slots u = own_slots s \<and> own_session_id u = own_session_id s \<and>
     own_writer_guard u = own_writer_guard s \<and> own_closed u = own_closed s \<and> own_next u = own_next s \<and>
     own_permits u = own_permits s \<and> own_authorities u = own_authorities s \<and>
     continuity.more u = continuity.more s"

lemma slot_step_frame:
  assumes "slot_step rel codec u sl sl'" and "same_owner s u"
  shows "slot_step rel codec s sl sl'"
proof -
  have e: "own_next u = own_next s" "own_session_id u = own_session_id s"
    "own_writer_guard u = own_writer_guard s" using assms(2) by (simp_all add: same_owner_def)
  from assms(1) show ?thesis
    by (cases rule: slot_step.cases) (auto simp: e intro: slot_step.intros)
qed

lemma moves_frame: "moves rel codec u t \<Longrightarrow> same_owner s u \<Longrightarrow> moves rel codec s t"
  using slot_step_frame [of rel codec u _ _ s] unfolding moves_def same_owner_def by fastforce

lemma same_owner_moves: "same_owner s u \<Longrightarrow> moves rel codec s u"
  by (simp add: moves_def same_owner_def)

lemma consume_release_frame: "consume_release i x w s = (r, u) \<Longrightarrow> same_owner s u"
  by (auto simp: consume_release_def same_owner_def Let_def split: if_splits)

lemma owner_inv_guard: "owner_inv codec s \<Longrightarrow> wgd_session_id (own_writer_guard s) = own_session_id s"
  by (simp add: owner_inv_def)

lemma owner_inv_slot:
  "owner_inv codec s \<Longrightarrow> own_slots s (own_session_id s) = Some sl \<Longrightarrow> slot_inv codec s sl"
  by (auto simp: owner_inv_def)

lemma fence_lease:
  assumes "fence_init f = Inr ()" and "wgd_session_id g = csc_session_id (fnc_scope f)" and "n \<noteq> []"
  shows "\<exists>lease. bootstrap_lease_init (fnc_scope f) n
            (Adopted_Base_Lease g (fnc_confirmation f) (fnc_snapshot_id f) (fnc_binding_revision_id f))
              = Inr lease"
    and "adopted_base_lease g (fnc_confirmation f) (fnc_snapshot_id f) (fnc_binding_revision_id f) =
      Inr (Adopted_Base_Lease g (fnc_confirmation f) (fnc_snapshot_id f) (fnc_binding_revision_id f))"
  using assms by (auto simp: fence_init_def bootstrap_lease_init_def adopted_base_lease_def Let_def
      split: if_splits)

lemma lease_source: "bootstrap_lease_init sc n src = Inr lease \<Longrightarrow> lse_source lease = src"
  by (auto simp: bootstrap_lease_init_def split: if_splits)

lemma publish_closure_moves:
  assumes "publish_after_no_continuation f c q i w n s = (r, t)" and "owner_inv codec s" and "n \<noteq> []"
  shows "moves rel codec s t"
proof (cases "consume_release i (Closure_Release c) w s")
  case (Pair r' u)
  note fr = consume_release_frame [OF Pair]
  have inv: "owner_inv codec u" by (rule moves_inv [OF same_owner_moves [OF fr] assms(2)])
  note g = owner_inv_guard [OF inv]
  have f: "fence_init f = Inr ()"
    if "own_slots u (own_session_id u) = Some sl" "slt_fence sl = Some f" for sl
    using owner_inv_slot [OF inv that(1)] that(2) by (auto simp: slot_inv_def epoch_inv_def split: option.splits)
  have "moves rel codec u t"
  proof (cases "csc_session_id (fnc_scope f) = own_session_id s \<and> r' = Inr ()")
    case True
    then have sid: "csc_session_id (fnc_scope f) = own_session_id u" using fr by (simp add: same_owner_def)
    obtain lease where l: "fence_init f = Inr () \<Longrightarrow> bootstrap_lease_init (fnc_scope f) n
        (Adopted_Base_Lease (own_writer_guard u) (fnc_confirmation f) (fnc_snapshot_id f)
          (fnc_binding_revision_id f)) = Inr lease"
      using fence_lease(1) [OF _ _ assms(3), of f "own_writer_guard u"] g sid by metis
    note a = fence_lease(2) [OF _ _ assms(3), of f "own_writer_guard u"]
    have slot: "slot_of u (fnc_scope f) = own_slots u (own_session_id u)"
      using sid by (simp add: slot_of_def)
    show ?thesis
    proof (cases "\<exists>sl. own_slots u (own_session_id u) = Some sl \<and>
        slt_state sl = INSTALLED_NO_CONTINUATION_SETTLING \<and>
        slt_installed sl = Some (fnc_predecessor f) \<and> slt_fence sl = Some f \<and> slt_closure sl = Some c \<and>
        slt_closure_progress sl = Some (Closure_Revoked q) \<and> frv_fence q = f")
      case True
      then obtain sl where sl: "own_slots u (own_session_id u) = Some sl"
        "slt_state sl = INSTALLED_NO_CONTINUATION_SETTLING"
        "slt_installed sl = Some (fnc_predecessor f)" "slt_fence sl = Some f" "slt_closure sl = Some c"
        "slt_closure_progress sl = Some (Closure_Revoked q)" "frv_fence q = f" by blast
      note fi = f [OF sl(1,4)]
      have gs: "wgd_session_id (own_writer_guard u) = csc_session_id (fnc_scope f)" using g sid by simp
      have "t = put_slot (fnc_scope f) (sl\<lparr>slt_usage_anchor := None, slt_installed := None,
          slt_reservation := None, slt_lease := Some lease, slt_fence := None, slt_closure := None,
          slt_closure_progress := None, slt_state := AUTHORIZED_EMPTY\<rparr>) u"
        using assms(1) Pair \<open>csc_session_id (fnc_scope f) = own_session_id s \<and> r' = Inr ()\<close>
        by (simp add: publish_after_no_continuation_def in_scope_def require_scope_def Let_def slot sl
            l [OF fi] a [OF fi gs])
      then show ?thesis
        using moves_put [OF step_publish_closure [OF sl(2,4,3,5,6,7) lease_source [OF l [OF fi]]] sl(1)]
        by (simp add: put_slot_def sid)
    next
      case False
      then have "t = u"
        using assms(1) Pair \<open>csc_session_id (fnc_scope f) = own_session_id s \<and> r' = Inr ()\<close>
        unfolding publish_after_no_continuation_def in_scope_def require_scope_def Let_def
        by (auto simp: slot split: option.splits if_splits)
      then show ?thesis by simp
    qed
  next
    case False
    with assms(1) Pair fr show ?thesis
      unfolding publish_after_no_continuation_def
      by (cases r') (auto simp: owner_ops moves_def same_owner_def split: if_splits)
  qed
  with fr show ?thesis by (rule moves_frame [rotated])
qed

lemma adopted_lease_eq:
  "adopted_base_lease g f a b = Inr src \<Longrightarrow>
   src = Adopted_Base_Lease g f a b"
  by (auto simp: adopted_base_lease_def split: if_splits)

lemma publish_adoption_moves:
  assumes "publish_after_adoption st q i w n s = (r, t)"
  shows "moves rel codec s t"
proof (cases "consume_release i (Settling_Release st) w s")
  case (Pair r' u)
  note fr = consume_release_frame [OF Pair]
  let ?cand = "pnd_candidate (stl_pending st)"
  have "moves rel codec u t"
  proof (cases "csc_session_id (settling_scope st) = own_session_id s \<and> r' = Inr ()")
    case True
    then have sid: "csc_session_id (settling_scope st) = own_session_id u"
      using fr by (simp add: same_owner_def)
    have slot: "slot_of u (settling_scope st) = own_slots u (own_session_id u)"
      using sid by (simp add: slot_of_def)
    show ?thesis
    proof (cases "\<exists>sl src lease. own_slots u (own_session_id u) = Some sl \<and>
        slt_state sl = EMPTY_ADOPTION_FULL_SETTLING \<and> slt_settling sl = Some st \<and>
        slt_settling_progress sl = Some (Settling_Revoked q) \<and> srv_settling q = st \<and>
        adp_snapshot_id ?cand \<noteq> [] \<and> adp_binding_revision_id ?cand \<noteq> [] \<and>
        adopted_base_lease (own_writer_guard u) (stl_confirmation st) (adp_snapshot_id ?cand)
          (adp_binding_revision_id ?cand) = Inr src \<and>
        bootstrap_lease_init (settling_scope st) n src = Inr lease")
      case yes: True
      then obtain sl src lease where sl: "own_slots u (own_session_id u) = Some sl"
        "slt_state sl = EMPTY_ADOPTION_FULL_SETTLING" "slt_settling sl = Some st"
        "slt_settling_progress sl = Some (Settling_Revoked q)" "srv_settling q = st"
        "adp_snapshot_id ?cand \<noteq> []" "adp_binding_revision_id ?cand \<noteq> []"
        "adopted_base_lease (own_writer_guard u) (stl_confirmation st) (adp_snapshot_id ?cand)
          (adp_binding_revision_id ?cand) = Inr src"
        "bootstrap_lease_init (settling_scope st) n src = Inr lease" by blast
      note src = adopted_lease_eq [OF sl(8)]
      have "t = put_slot (settling_scope st) (sl\<lparr>slt_lease := Some lease, slt_pending := None,
          slt_settling := None, slt_settling_progress := None, slt_state := AUTHORIZED_EMPTY\<rparr>) u"
        using assms Pair True
        by (simp add: publish_after_adoption_def in_scope_def require_scope_def Let_def slot sl)
      then show ?thesis
        using moves_put [OF step_publish_adoption [OF sl(2-5) lease_source [OF sl(9), unfolded src]] sl(1)]
        by (simp add: put_slot_def sid)
    next
      case no: False
      with no have "t = u" using assms Pair True
        unfolding publish_after_adoption_def in_scope_def require_scope_def Let_def
        by (auto simp: slot split: option.splits if_splits sum.splits)
      then show ?thesis by simp
    qed
  next
    case False
    with assms Pair fr show ?thesis
      unfolding publish_after_adoption_def
      by (cases r') (auto simp: owner_ops moves_def same_owner_def split: if_splits)
  qed
  with fr show ?thesis by (rule moves_frame [rotated])
qed

lemmas operation_moves =
  abort_planning_moves freeze_planning_moves sibling_moves issue_transition_moves register_moves
  install_moves consume_moves discard_moves reserve_moves promote_moves release_moves observe_moves
  fence_moves begin_adoption_moves restore_moves revoke_adoption_moves quarantine_moves
  begin_closure_moves revoke_closure_moves publish_adoption_moves

lemma full_conflict_moves:
  "begin_full_settlement p f s = (r, t) \<Longrightarrow> moves rel codec s t"
  "begin_conflict_settlement p f s = (r, t) \<Longrightarrow> moves rel codec s t"
  unfolding begin_full_settlement_def begin_conflict_settlement_def
  by (erule settlement_moves, simp)+

lemma outcome_eq: "outcome r = (b, t) \<longleftrightarrow> (\<exists>x. r = (x, t) \<and> b = is_ok x)"
  by (cases r) (auto simp: outcome_def)

fun kind_of :: "'v owner_op \<Rightarrow> call_kind" where
  "kind_of (Op_Promote _) = Replay"
| "kind_of (Op_Release _) = Replay"
| "kind_of (Op_Install _ _ _) = Permits"
| "kind_of (Op_Consume _ _ _) = Permits"
| "kind_of (Op_Issue _ _ _ _ _ _ _) = Issues"
| "kind_of _ = Plain"

text \<open>Every call but the close moves the owner by the slot machine.\<close>

lemma perform_moves:
  assumes "owner_perform codec op s = Some (b, t)" and "owner_inv codec s" and "drawn_ok op"
    and "op \<noteq> Op_Close"
  shows "moves (kind_of op) codec s t"
  using assms
  by (cases op)
    (auto simp: outcome_eq intro: operation_moves full_conflict_moves publish_closure_moves)

lemma close_inv: "owner_inv codec s \<Longrightarrow> owner_inv codec (continuity_close s)"
  by (simp add: owner_inv_def continuity_close_def)

lemma owner_perform_inv:
  assumes "owner_perform codec op s = Some (b, t)" and "owner_inv codec s" and "drawn_ok op"
  shows "owner_inv codec t"
proof (cases "op = Op_Close")
  case True
  with assms(1,2) close_inv show ?thesis by auto
next
  case False
  from moves_inv [OF perform_moves [OF assms False] assms(2)] show ?thesis .
qed

lemma continuity_init_inv:
  assumes "continuity_init src kind n = Inr s"
  shows "owner_inv codec s" and "own_permits s = []" and "own_next s = 0"
  using assms
  by (auto simp: continuity_init_def Let_def owner_inv_def slot_inv_def shape_defs empty_slot_def
      prepared_joined_def epoch_inv_def map_sum_Inr split: lease_source.splits if_splits sum.splits)

section \<open>Histories\<close>

text \<open>The shared objects that a call names have been made before.\<close>

fun known_objects :: "'v owner_op \<Rightarrow> ('v, 'm) continuity_scheme \<Rightarrow> bool" where
  "known_objects (Op_Issue _ _ _ (Some (Adopted_Seed sd)) _ _ _) s \<longleftrightarrow>
     asd_authority sd < length (own_authorities s)"
| "known_objects (Op_Publish_Adoption _ _ i _ _) s \<longleftrightarrow> i < length (own_releases s)"
| "known_objects (Op_Publish_Closure _ _ _ i _ _) s \<longleftrightarrow> i < length (own_releases s)"
| "known_objects _ s \<longleftrightarrow> True"

text \<open>
  The history of an owner lists the calls with whether they returned or raised. Adopted
  authorities and release proofs are made by the safe point and appear between calls.
\<close>

inductive owner_run ::
  "'v value_codec \<Rightarrow> 'v continuity \<Rightarrow> ('v owner_op \<times> bool) list \<Rightarrow> bool"
  for codec :: "'v value_codec" where
  run_init: "continuity_init src kind n = Inr s \<Longrightarrow> owner_run codec s []"
| run_call: "owner_run codec s h \<Longrightarrow> owner_perform codec op s = Some (b, t) \<Longrightarrow> drawn_ok op \<Longrightarrow>
    known_objects op s \<Longrightarrow> owner_run codec t (h @ [(op, b)])"
| run_authority: "owner_run codec s h \<Longrightarrow> \<not> aut_consumed a \<Longrightarrow>
    owner_run codec (s\<lparr>own_authorities := own_authorities s @ [a]\<rparr>) h"
| run_release: "owner_run codec s h \<Longrightarrow> \<not> rel_consumed r \<Longrightarrow>
    owner_run codec (s\<lparr>own_releases := own_releases s @ [r]\<rparr>) h"

lemma owner_inv_cong:
  assumes "owner_inv codec s" and "own_session_id t = own_session_id s"
    and "own_writer_guard t = own_writer_guard s" and "own_slots t = own_slots s"
    and "own_closed t = own_closed s"
  shows "owner_inv codec t"
  using assms(1) unfolding owner_inv_def assms(2-5) slot_inv_cong [OF assms(2)] .

lemma owner_run_inv: "owner_run codec s h \<Longrightarrow> owner_inv codec s"
proof (induction rule: owner_run.induct)
  case (run_init src kind n s)
  then show ?case by (rule continuity_init_inv)
next
  case (run_call s h op b t)
  from owner_perform_inv [OF run_call.hyps(2) run_call.IH run_call.hyps(3)] show ?case .
next
  case (run_authority s h a)
  then show ?case by (auto elim: owner_inv_cong)
next
  case (run_release s h r)
  then show ?case by (auto elim: owner_inv_cong)
qed

end
