(* ===== verification/Continuity_Paths.thy ===== *)
theory Continuity_Paths
  imports Continuity_Safety
begin

text \<open>
  Paths of the provider-input owner: how an installed prefix changes from call to call, the
  table of permits and the consumption of adopted authorities against the history of calls.
\<close>

section \<open>Reading a reachable owner\<close>

definition the_slot :: "('v, 'm) continuity_scheme \<Rightarrow> 'v slot option" where
  "the_slot s = own_slots s (own_session_id s)"

lemma run_slot: "owner_run codec s h \<Longrightarrow> the_slot s = Some sl \<Longrightarrow> slot_inv codec s sl"
  using owner_inv_slot [OF owner_run_inv] by (simp add: the_slot_def)

lemma current_view_slot:
  "current_view sc s = Inr (Some v) \<Longrightarrow> \<exists>sl h. the_slot s = Some sl \<and> slt_installed sl = Some h \<and> coh_view h = v"
  by (auto simp: current_view_def require_scope_def the_slot_def slot_of_def installed_view_def
      map_sum_Inr eq_commute [of "Some v"] bind_eq_Some_conv split: if_splits)

section \<open>The installed prefix\<close>

definition prefix_kept :: "'a list \<Rightarrow> 'a list \<Rightarrow> bool" where
  "prefix_kept old new \<longleftrightarrow> take (length old) new = old"

lemma prefix_kept_refl [simp]: "prefix_kept xs xs" "prefix_kept xs (xs @ ys)"
  by (simp_all add: prefix_kept_def)

lemma prefix_kept_trans: "prefix_kept a b \<Longrightarrow> prefix_kept b c \<Longrightarrow> prefix_kept a c"
  unfolding prefix_kept_def by (metis append_take_drop_id append_eq_conv_conj append.assoc)

text \<open>
  \<open>w\<close> extends \<open>v\<close>: the same system root and tools, and messages, wire items, canonical items and
  replay fragments that start with the old ones. An unchanged revision means the same input.
\<close>

definition extends :: "'v epoch_view \<Rightarrow> 'v epoch_view \<Rightarrow> bool" where
  "extends v w \<longleftrightarrow>
     (let old = wpl_materialization (epv_wire_plan v); new = wpl_materialization (epv_wire_plan w) in
      epv_epoch_nonce w = epv_epoch_nonce v \<and> epv_epoch_revision v \<le> epv_epoch_revision w \<and>
      epv_system_prompt w = epv_system_prompt v \<and> epv_tools w = epv_tools v \<and>
      xpl_projection_set (epv_exposure_plan w) = xpl_projection_set (epv_exposure_plan v) \<and>
      prefix_kept (epv_messages v) (epv_messages w) \<and>
      wmt_root_policy new = wmt_root_policy old \<and> wmt_tool_items new = wmt_tool_items old \<and>
      prefix_kept (wmt_input_items old) (wmt_input_items new) \<and>
      cfr_base_identity (epv_frontier w) = cfr_base_identity (epv_frontier v) \<and>
      cfr_through_sequence (epv_frontier v) \<le> cfr_through_sequence (epv_frontier w) \<and>
      prefix_kept (cfr_items (epv_frontier v)) (cfr_items (epv_frontier w)) \<and>
      prefix_kept (epv_fragments v) (epv_fragments w) \<and>
      (epv_epoch_revision w = epv_epoch_revision v \<longrightarrow>
         epv_messages w = epv_messages v \<and> epv_wire_plan w = epv_wire_plan v \<and>
         epv_frontier w = epv_frontier v))"

lemma extends_refl [simp]: "extends v v"
  by (simp add: extends_def)

lemma extends_trans: "extends u v \<Longrightarrow> extends v w \<Longrightarrow> extends u w"
  unfolding extends_def Let_def by (auto intro: prefix_kept_trans)

lemma require_prefix_of_ok:
  "require_prefix_of old new = Inr () \<Longrightarrow>
     cfr_base_identity new = cfr_base_identity old \<and>
     cfr_through_sequence old \<le> cfr_through_sequence new \<and>
     prefix_kept (cfr_items old) (cfr_items new)"
  by (auto simp: require_prefix_of_def prefix_kept_def split: if_splits)

lemma append_checks_extends:
  assumes "append_checks (coh_view h) c = Inr ()" and "slt_installed sl = Some h"
    and "apc_expected_revision c = epv_epoch_revision (coh_view h)"
  shows "extends (coh_view h) (view_of_candidate codec i sl c)"
  using assms
  by (auto simp: append_checks_def extends_def view_of_candidate_def kept_fragments_def Let_def
      prefix_kept_def checked_commute dest!: require_prefix_of_ok split: sum.splits if_splits)

text \<open>How a step changes the installed epoch.\<close>

definition epoch_moves :: "'v cohort option \<Rightarrow> 'v cohort option \<Rightarrow> bool" where
  "epoch_moves a b \<longleftrightarrow>
     a = b \<or> b = None \<or>
     (case (a, b) of
        (None, Some k) \<Rightarrow> epv_epoch_revision (coh_view k) = 1
      | (Some h, Some k) \<Rightarrow> extends (coh_view h) (coh_view k) \<or>
          epv_epoch_nonce (coh_view k) \<noteq> epv_epoch_nonce (coh_view h) \<and>
          epv_epoch_revision (coh_view k) = epv_epoch_revision (coh_view h) + 1
      | _ \<Rightarrow> False)"

lemma install_epoch:
  assumes "slt_prepared sl = Some c" and "prepared_joined codec sl"
  shows "epoch_moves (slt_installed sl) (slt_installed (install_slot codec i c sl))"
proof (cases "slt_installed sl")
  case None
  with assms have "is_cold_start (apc_transition c)"
    and "transition_checks (before_registration c sl) c = Inr ()" by (auto simp: prepared_joined_def)
  then have "apc_expected_revision c = 0"
    by (auto simp: transition_checks_def is_cold_start_def split: epoch_transition.splits if_splits)
  with None show ?thesis
    by (simp add: epoch_moves_def install_slot_def view_of_candidate_def Let_def)
next
  case (Some h)
  with assms have nc: "\<not> is_cold_start (apc_transition c)"
    and tc: "transition_checks (before_registration c sl) c = Inr ()"
    by (auto simp: prepared_joined_def)
  have inst: "slt_installed (before_registration c sl) = Some h"
    using Some by (simp add: before_registration_def)
  have rev: "apc_expected_revision c = epv_epoch_revision (coh_view h)"
    using tc nc inst by (auto simp: transition_checks_def is_cold_start_def
        split: epoch_transition.splits if_splits)
  let ?v = "view_of_candidate codec i sl c"
  have "extends (coh_view h) ?v \<or> epv_epoch_nonce ?v \<noteq> epv_epoch_nonce (coh_view h)"
  proof (cases "\<exists>p. apc_transition c = Epoch_Append p")
    case True
    with tc inst have "append_checks (coh_view h) c = Inr ()"
      by (auto simp: transition_checks_def split: if_splits)
    from append_checks_extends [OF this Some rev] show ?thesis ..
  next
    case False
    with tc nc inst have "new_epoch_checks (coh_view h) c = Inr ()"
      by (auto simp: transition_checks_def is_cold_start_def split: epoch_transition.splits if_splits)
    then have "apc_epoch_nonce c \<noteq> epv_epoch_nonce (coh_view h)"
      by (auto simp: new_epoch_checks_def split: sum.splits if_splits)
    then show ?thesis by (simp add: view_of_candidate_def Let_def)
  qed
  moreover have "epv_epoch_revision ?v = epv_epoch_revision (coh_view h) + 1"
    by (simp add: view_of_candidate_def Let_def rev)
  ultimately show ?thesis using Some
    by (auto simp: epoch_moves_def install_slot_def Let_def)
qed

lemma epoch_moves_refl [simp]: "epoch_moves a a" "epoch_moves a None"
  by (simp_all add: epoch_moves_def)

lemma epoch_slot_step:
  assumes "slot_step rel codec s sl sl'" and "slot_inv codec s sl"
  shows "epoch_moves (slt_installed sl) (slt_installed sl')"
  using assms(1)
proof (cases rule: slot_step.cases)
  case (step_install c)
  then show ?thesis using install_epoch assms(2) by (auto simp: slot_inv_def)
next
  case (step_observe h revision a m)
  then show ?thesis by (auto simp: observe_anchor_slot_def Let_def split: option.splits)
next
  case (step_promote h r)
  then show ?thesis by (auto simp: epoch_moves_def extends_def with_fragment_def)
qed simp_all

definition the_epoch :: "('v, 'm) continuity_scheme \<Rightarrow> 'v cohort option" where
  "the_epoch s = Option.bind (the_slot s) slt_installed"

lemma epoch_perform:
  assumes "owner_perform codec op s = Some (b, t)" and "owner_inv codec s" and "drawn_ok op"
  shows "epoch_moves (the_epoch s) (the_epoch t)"
proof (cases "op = Op_Close")
  case True
  with assms(1) show ?thesis
    by (auto simp: continuity_close_def the_epoch_def the_slot_def)
next
  case False
  from perform_moves [OF assms False] show ?thesis
    using owner_inv_slot [OF assms(2)] epoch_slot_step
    by (fastforce simp: moves_def the_epoch_def the_slot_def)
qed

text \<open>
  A path of the owner during which the epoch named \<open>n\<close> stays installed: calls, whether they
  return or raise, and objects made by the safe point.
\<close>

inductive within_epoch ::
  "'v value_codec \<Rightarrow> pystr \<Rightarrow> 'v continuity \<Rightarrow> 'v continuity \<Rightarrow> bool"
  for codec :: "'v value_codec" and n :: pystr and s :: "'v continuity" where
  within_stay: "within_epoch codec n s s"
| within_call: "within_epoch codec n s t \<Longrightarrow> owner_perform codec op t = Some (b, u) \<Longrightarrow> drawn_ok op \<Longrightarrow>
    known_objects op t \<Longrightarrow> the_epoch u = Some k \<Longrightarrow> epv_epoch_nonce (coh_view k) = n \<Longrightarrow>
    within_epoch codec n s u"
| within_authority: "within_epoch codec n s t \<Longrightarrow> \<not> aut_consumed a \<Longrightarrow>
    within_epoch codec n s (t\<lparr>own_authorities := own_authorities t @ [a]\<rparr>)"
| within_release: "within_epoch codec n s t \<Longrightarrow> \<not> rel_consumed r \<Longrightarrow>
    within_epoch codec n s (t\<lparr>own_releases := own_releases t @ [r]\<rparr>)"

lemma the_epoch_more [simp]:
  "the_epoch (s\<lparr>own_authorities := as\<rparr>) = the_epoch s" "the_epoch (s\<lparr>own_releases := rs\<rparr>) = the_epoch s"
  by (simp_all add: the_epoch_def the_slot_def)

lemma owner_inv_more:
  "owner_inv codec s \<Longrightarrow> owner_inv codec (s\<lparr>own_authorities := as\<rparr>)"
  "owner_inv codec s \<Longrightarrow> owner_inv codec (s\<lparr>own_releases := rs\<rparr>)"
  by (auto elim: owner_inv_cong)

lemma within_extends:
  assumes "within_epoch codec n s t" and "owner_inv codec s"
    and "the_epoch s = Some h" and "epv_epoch_nonce (coh_view h) = n"
  shows "owner_inv codec t \<and> (\<exists>k. the_epoch t = Some k \<and> extends (coh_view h) (coh_view k))"
  using assms(1)
proof (induction rule: within_epoch.induct)
  case within_stay
  with assms show ?case by auto
next
  case (within_call t op b u k)
  then obtain k' where k': "the_epoch t = Some k'" "extends (coh_view h) (coh_view k')" by blast
  have inv: "owner_inv codec t" using within_call.IH by blast
  have "epv_epoch_nonce (coh_view k') = n" using k'(2) assms(4) by (simp add: extends_def Let_def)
  with epoch_perform [OF within_call.hyps(2) inv within_call.hyps(3)] within_call.hyps(5,6) k'(1)
  have "extends (coh_view k') (coh_view k)" by (auto simp: epoch_moves_def)
  with k'(2) within_call.hyps(5) owner_perform_inv [OF within_call.hyps(2) inv within_call.hyps(3)]
  show ?case using extends_trans by blast
next
  case (within_authority t a)
  then show ?case by (simp add: owner_inv_more)
next
  case (within_release t r)
  then show ?case by (simp add: owner_inv_more)
qed

section \<open>Permits\<close>

definition consumed :: "('v owner_op \<times> bool) list \<Rightarrow> install_permit \<Rightarrow> bool" where
  "consumed h p \<longleftrightarrow> (\<exists>c x. (Op_Consume p c x, True) \<in> set h)"

definition installed_by :: "('v owner_op \<times> bool) list \<Rightarrow> 'v append_candidate \<Rightarrow> nat \<Rightarrow> bool" where
  "installed_by h c x \<longleftrightarrow> (\<exists>draws. (Op_Install c x draws, True) \<in> set h)"

text \<open>The table of issued permits against the history.\<close>

definition permits_inv :: "'v continuity \<Rightarrow> ('v owner_op \<times> bool) list \<Rightarrow> bool" where
  "permits_inv s h \<longleftrightarrow>
     distinct (map fst (own_permits s)) \<and>
     (\<forall>(n, i) \<in> set (own_permits s).
        pmt_nonce (isp_permit i) = n \<and> pmt_oid (isp_permit i) < own_next s \<and>
        installed_by h (isp_candidate i) (isp_execution i) \<and> \<not> consumed h (isp_permit i)) \<and>
     (\<forall>p. consumed h p \<longrightarrow> pmt_oid p < own_next s)"

definition permits_once :: "('v owner_op \<times> bool) list \<Rightarrow> bool" where
  "permits_once h \<longleftrightarrow>
     (\<forall>a p c x b. h = a @ (Op_Consume p c x, True) # b \<longrightarrow>
        installed_by a c x \<and> \<not> consumed a p \<and> \<not> consumed b p)"

lemma consumed_append [simp]: "consumed (h @ k) p \<longleftrightarrow> consumed h p \<or> consumed k p"
  by (auto simp: consumed_def)

lemma installed_by_append: "installed_by h c x \<Longrightarrow> installed_by (h @ k) c x"
  by (auto simp: installed_by_def)

lemma permits_once_snoc:
  assumes "permits_once h"
    and "\<And>p c x. e = (Op_Consume p c x, True) \<Longrightarrow> installed_by h c x \<and> \<not> consumed h p"
  shows "permits_once (h @ [e])"
  unfolding permits_once_def
proof (intro allI impI)
  fix a p c x b
  assume e: "h @ [e] = a @ (Op_Consume p c x, True) # b"
  show "installed_by a c x \<and> \<not> consumed a p \<and> \<not> consumed b p"
  proof (cases b rule: rev_cases)
    case Nil
    with e assms(2) show ?thesis by (auto simp: consumed_def)
  next
    case (snoc b' e')
    with e have h: "h = a @ (Op_Consume p c x, True) # b'" and [simp]: "e' = e" by auto
    from assms(1) h have "installed_by a c x \<and> \<not> consumed a p \<and> \<not> consumed b' p"
      by (simp add: permits_once_def)
    moreover have "\<not> consumed [e] p"
    proof
      assume "consumed [e] p"
      then obtain c' x' where "e = (Op_Consume p c' x', True)" by (auto simp: consumed_def)
      with assms(2) h show False by (auto simp: consumed_def)
    qed
    ultimately show ?thesis using snoc by simp
  qed
qed

lemma install_result:
  assumes "install_candidate codec c x draws s = Some (r, t)"
  shows "own_permits t = own_permits s \<and> own_next s \<le> own_next t \<or>
    (\<exists>p n. r = Inr p \<and> own_next t = own_next s + 3 \<and> pmt_oid p = own_next s + 2 \<and>
       draw_fresh (map fst (own_permits s)) draws = Some n \<and> pmt_nonce p = n \<and>
       own_permits t =
         AList.update n \<lparr>isp_permit = p, isp_candidate = c, isp_execution = x\<rparr> (own_permits s))"
  using assms unfolding install_candidate_def Let_def
  by (clarsimp simp: put_slot_def split: sum.splits option.splits if_splits)

lemma install_permits:
  assumes "install_candidate codec c x draws s = Some (r, t)" and "permits_inv s h"
  shows "permits_inv t (h @ [(Op_Install c x draws, is_ok r)])"
proof -
  let ?h = "h @ [(Op_Install c x draws, is_ok r)]"
  have mono: "installed_by h c' x' \<Longrightarrow> installed_by ?h c' x'" for c' x' by (rule installed_by_append)
  have cons: "consumed ?h p = consumed h p" for p by (simp add: consumed_def)
  show ?thesis
  proof (cases "own_permits t = own_permits s \<and> own_next s \<le> own_next t")
    case True
    with assms(2) mono cons show ?thesis by (fastforce simp: permits_inv_def)
  next
    case False
    then obtain p n where p: "r = Inr p" "own_next t = own_next s + 3" "pmt_oid p = own_next s + 2"
      "draw_fresh (map fst (own_permits s)) draws = Some n" "pmt_nonce p = n"
      "own_permits t = AList.update n \<lparr>isp_permit = p, isp_candidate = c, isp_execution = x\<rparr> (own_permits s)"
      using install_result [OF assms(1)] by blast
    have "n \<notin> set (map fst (own_permits s))" using draw_fresh_new [OF p(4)] by blast
    then have upd: "own_permits t = own_permits s @ [(n, \<lparr>isp_permit = p, isp_candidate = c, isp_execution = x\<rparr>)]"
      using p(6) by (simp add: dict_set_new)
    have "installed_by ?h c x" using p(1) by (auto simp: installed_by_def)
    moreover have "\<not> consumed h p" using assms(2) p(3) by (fastforce simp: permits_inv_def)
    ultimately show ?thesis
      using assms(2) mono \<open>n \<notin> _\<close> p(2,3,5) unfolding permits_inv_def upd cons
      by (fastforce simp: less_Suc_eq)
  qed
qed

lemma consume_permits:
  assumes "consume_install_permit p c x s = (r, t)" and "permits_inv s h"
  shows "permits_inv t (h @ [(Op_Consume p c x, is_ok r)]) \<and>
    (is_ok r \<longrightarrow> installed_by h c x \<and> \<not> consumed h p)"
proof (cases "is_ok r")
  case False
  then have "t = s" using assms(1) by (auto simp: consume_install_permit_def split: if_splits)
  moreover have "consumed (h @ [(Op_Consume p c x, is_ok r)]) q = consumed h q" for q
    using False by (auto simp: consumed_def)
  ultimately show ?thesis using assms(2) False installed_by_append
    by (fastforce simp: permits_inv_def)
next
  case True
  let ?i = "\<lparr>isp_permit = p, isp_candidate = c, isp_execution = x\<rparr>"
  from True assms(1) have m: "map_of (own_permits s) (pmt_nonce p) = Some ?i"
    and t: "t = s\<lparr>own_permits := AList.delete (pmt_nonce p) (own_permits s)\<rparr>"
    by (auto simp: consume_install_permit_def split: if_splits)
  then have "(pmt_nonce p, ?i) \<in> set (own_permits s)" by (simp add: map_of_SomeD)
  with assms(2) have p: "pmt_oid p < own_next s" "installed_by h c x" "\<not> consumed h p"
    by (auto simp: permits_inv_def)
  have con: "consumed (h @ [(Op_Consume p c x, is_ok r)]) q \<longleftrightarrow> consumed h q \<or> q = p" for q
    using True by (auto simp: consumed_def)
  have keep: "(n, i) \<in> set (own_permits s) \<and> n \<noteq> pmt_nonce p"
    if "(n, i) \<in> set (AList.delete (pmt_nonce p) (own_permits s))" for n i
    using that by (auto simp: AList.delete_eq)
  show ?thesis
    using assms(2) p keep installed_by_append unfolding permits_inv_def t con
    by (fastforce simp: distinct_delete)
qed

lemma other_permits:
  assumes "owner_perform codec op s = Some (b, t)" and "owner_inv codec s" and "drawn_ok op"
    and "kind_of op \<noteq> Permits" and "permits_inv s h"
  shows "permits_inv t (h @ [(op, b)])"
proof -
  have con: "consumed (h @ [(op, b)]) p = consumed h p" for p
    using assms(4) by (auto simp: consumed_def)
  have "own_permits t = [] \<or> own_permits t = own_permits s" and "own_next s \<le> own_next t"
    using assms(1,4) perform_moves [OF assms(1-3)]
    by (cases "op = Op_Close"; auto simp: moves_def continuity_close_def)+
  then show ?thesis using assms(5) installed_by_append unfolding permits_inv_def con
    by (fastforce)
qed

lemma run_permits: "owner_run codec s h \<Longrightarrow> permits_inv s h \<and> permits_once h"
proof (induction rule: owner_run.induct)
  case (run_init src kind n s)
  then show ?case using continuity_init_inv [OF run_init]
    by (simp add: permits_inv_def permits_once_def consumed_def)
next
  case (run_call s h op b t)
  have inv: "permits_inv s h" "permits_once h" using run_call.IH by blast+
  show ?case
  proof (cases "kind_of op = Permits")
    case False
    have "permits_inv t (h @ [(op, b)])"
      using other_permits [OF run_call.hyps(2) owner_run_inv [OF run_call.hyps(1)] run_call.hyps(3) False inv(1)] .
    moreover have "permits_once (h @ [(op, b)])" using inv(2) False by (intro permits_once_snoc) auto
    ultimately show ?thesis ..
  next
    case True
    then consider (i) c x draws where "op = Op_Install c x draws" | (c) p c x where "op = Op_Consume p c x"
      by (cases op) auto
    then show ?thesis
    proof cases
      case i
      with run_call.hyps(2) obtain r where "install_candidate codec c x draws s = Some (r, t)" "b = is_ok r"
        by (auto simp: outcome_def)
      with install_permits [OF _ inv(1)] i show ?thesis
        using permits_once_snoc [OF inv(2)] by fastforce
    next
      case c
      with run_call.hyps(2) obtain r where "consume_install_permit p c x s = (r, t)" "b = is_ok r"
        by (auto simp: outcome_eq)
      with consume_permits [OF _ inv(1)] c show ?thesis
        using permits_once_snoc [OF inv(2)] by fastforce
    qed
  qed
next
  case (run_authority s h a)
  then show ?case by (simp add: permits_inv_def)
next
  case (run_release s h r)
  then show ?case by (simp add: permits_inv_def)
qed

end
