(* ===== verification/Safe_Point.thy ===== *)
theory Safe_Point
  imports Continuity_Paths
begin

text \<open>
  The safe point of one host activation (\<open>conversation_kernel/safe_point.py\<close>) and the owners of
  the resources of one preparation (\<open>conversation_kernel/provider_dispatch.py\<close>). The safe point
  gives out one handle at a time, seals a preparation basis over it, and is the only caller of
  the provider-input owner that may issue, register, install and settle; its state extends the
  state of that owner. Handles, bases, observations and borrows are mutable objects that several
  parties hold, so they live in lists and are named by their place. What the repository answers
  is an argument of the operation that asks it.
\<close>

section \<open>State\<close>

record prepared_handle =
  hdl_cut :: input_cut
  hdl_generation :: nat
  hdl_model_active :: bool
  hdl_closed :: bool

datatype basis_state = Basis_Prepared | Basis_Installed | Basis_Revoked

record 'v canonical_observation =
  cob_canonical_read :: "'v dispatch_read"
  cob_consumed :: bool

record 'v capability_observation =
  kob_dispatch_cut :: 'v
  kob_surface_borrow :: 'v
  kob_consumed :: bool

record 'v safe_point = "'v continuity" +
  spc_id :: nat
  spc_generation :: nat
  spc_active_handle :: "nat option"
  spc_active_basis :: "nat option"
  spc_handles :: "prepared_handle list"
  spc_bases :: "('v preparation_basis \<times> basis_state) list"
  spc_canonical :: "'v canonical_observation list"
  spc_capability :: "'v capability_observation list"
  spc_borrows :: "bool list"

definition safe_point_init :: "nat \<Rightarrow> 'v continuity \<Rightarrow> 'v safe_point" where
  "safe_point_init i s = continuity.extend s
     (safe_point.fields i 0 None None [] [] [] [] [])"

definition handle_of :: "'v safe_point \<Rightarrow> nat \<Rightarrow> prepared_handle" where
  "handle_of s h = spc_handles s ! h"

definition basis_of :: "'v safe_point \<Rightarrow> nat \<Rightarrow> 'v preparation_basis" where
  "basis_of s j = fst (spc_bases s ! j)"

definition state_of_basis :: "'v safe_point \<Rightarrow> nat \<Rightarrow> basis_state" where
  "state_of_basis s j = snd (spc_bases s ! j)"

definition update_handle :: "nat \<Rightarrow> (prepared_handle \<Rightarrow> prepared_handle) \<Rightarrow> 'v safe_point \<Rightarrow> 'v safe_point" where
  "update_handle h f s = s\<lparr>spc_handles := (spc_handles s)[h := f (handle_of s h)]\<rparr>"

definition set_basis_state :: "nat \<Rightarrow> basis_state \<Rightarrow> 'v safe_point \<Rightarrow> 'v safe_point" where
  "set_basis_state j st s = s\<lparr>spc_bases := (spc_bases s)[j := (basis_of s j, st)]\<rparr>"

definition set_model_active :: "nat \<Rightarrow> bool \<Rightarrow> 'v safe_point \<Rightarrow> 'v safe_point" where
  "set_model_active h a = update_handle h (\<lambda>x. x\<lparr>hdl_model_active := a\<rparr>)"

section \<open>Currency\<close>

definition require_current :: "nat \<Rightarrow> 'v safe_point \<Rightarrow> unit result" where
  "require_current h s =
     (if hdl_closed (handle_of s h) \<or> spc_active_handle s \<noteq> Some h \<or>
         hdl_generation (handle_of s h) \<noteq> spc_generation s
      then Inl (RuntimeError ''provider input handle is stale'') else Inr ())"

definition require_basis_current :: "nat \<Rightarrow> 'v safe_point \<Rightarrow> unit result" where
  "require_basis_current j s =
     (if bas_owner (basis_of s j) \<noteq> spc_id s
      then Inl (RuntimeError ''provider-input basis belongs to another safe-point'')
      else if state_of_basis s j = Basis_Revoked
      then Inl (RuntimeError ''provider-input basis is revoked'')
      else require_current (bas_handle (basis_of s j)) s)"

text \<open>A guard in front of a step: what it raises leaves the state alone.\<close>

definition guarded_by :: "unit result \<Rightarrow> ('s \<Rightarrow> 'r result \<times> 's) \<Rightarrow> 's \<Rightarrow> 'r result \<times> 's" where
  "guarded_by g f s = (case g of Inl e \<Rightarrow> (Inl e, s) | Inr _ \<Rightarrow> f s)"

lemma guarded_by_simps [simp]:
  "guarded_by (Inl e) f s = (Inl e, s)" "guarded_by (Inr u) f s = f s"
  by (simp_all add: guarded_by_def)

definition is_idle :: "'v safe_point \<Rightarrow> bool" where
  "is_idle s \<longleftrightarrow> spc_active_handle s = None"

section \<open>Handles\<close>

text \<open>The common end of the four freezes.\<close>

definition open_handle :: "input_cut \<Rightarrow> 'v safe_point \<Rightarrow> nat result \<times> 'v safe_point" where
  "open_handle icut s =
     (let h = length (spc_handles s) in
      (Inr h, s\<lparr>spc_generation := Suc (spc_generation s), spc_active_handle := Some h,
                spc_handles := spc_handles s @
                  [\<lparr>hdl_cut = icut, hdl_generation = Suc (spc_generation s),
                    hdl_model_active = False, hdl_closed = False\<rparr>]\<rparr>))"

definition require_no_handle :: "'v safe_point \<Rightarrow> unit result" where
  "require_no_handle s =
     (if spc_active_handle s \<noteq> None
      then Inl (RuntimeError ''provider input handle is already active'') else Inr ())"

definition freeze_provider_input ::
  "unit result \<Rightarrow> input_cut result \<Rightarrow> 'v safe_point \<Rightarrow> nat result \<times> 'v safe_point" where
  "freeze_provider_input safe icut s = guarded_by (require_no_handle s) (guarded_by safe
     (\<lambda>s. case icut of Inl e \<Rightarrow> (Inl e, s) | Inr c \<Rightarrow> open_handle c s)) s"

definition freeze_prospective_input ::
  "input_cut \<Rightarrow> unit result \<Rightarrow> 'v safe_point \<Rightarrow> nat result \<times> 'v safe_point" where
  "freeze_prospective_input expected safe s =
     guarded_by (require_no_handle s) (guarded_by safe (open_handle expected)) s"

definition freeze_compaction_input ::
  "bool \<Rightarrow> unit result \<Rightarrow> input_cut result \<Rightarrow> 'v safe_point \<Rightarrow> nat result \<times> 'v safe_point" where
  "freeze_compaction_input allow_terminal safe icut s = guarded_by (require_no_handle s)
     (guarded_by (if allow_terminal then Inr () else safe)
       (\<lambda>s. case icut of Inl e \<Rightarrow> (Inl e, s) | Inr c \<Rightarrow> open_handle c s)) s"

definition freeze_pending_batch ::
  "input_cut \<Rightarrow> unit result \<Rightarrow> 'v safe_point \<Rightarrow> nat result \<times> 'v safe_point" where
  "freeze_pending_batch closed_cut safe s =
     guarded_by (require_no_handle s) (guarded_by safe (open_handle closed_cut)) s"

text \<open>The successor handle takes the place of the old one without a gap.\<close>

definition retire_handle :: "nat \<Rightarrow> 'v safe_point \<Rightarrow> 'v safe_point" where
  "retire_handle h = update_handle h (\<lambda>x. x\<lparr>hdl_closed := True, hdl_model_active := False\<rparr>)"

definition rotate_provider_input ::
  "nat \<Rightarrow> unit result \<Rightarrow> input_cut result \<Rightarrow> 'v safe_point \<Rightarrow> nat result \<times> 'v safe_point" where
  "rotate_provider_input h safe icut s = guarded_by (require_current h s)
     (\<lambda>s. if hdl_model_active (handle_of s h)
          then (Inl (RuntimeError ''cannot rotate an active model operation''), s)
          else guarded_by safe (\<lambda>s. case icut of Inl e \<Rightarrow> (Inl e, s)
            | Inr c \<Rightarrow> open_handle c (retire_handle h s)) s) s"

definition begin_model :: "nat \<Rightarrow> 'v safe_point \<Rightarrow> unit result \<times> 'v safe_point" where
  "begin_model h s = guarded_by (require_current h s)
     (\<lambda>s. if hdl_model_active (handle_of s h)
          then (Inl (RuntimeError ''model operation already started''), s)
          else (Inr (), set_model_active h True s)) s"

text \<open>\<open>handle.close()\<close>\<close>

definition close_handle :: "nat \<Rightarrow> 'v safe_point \<Rightarrow> unit result \<times> 'v safe_point" where
  "close_handle h s =
     (if hdl_closed (handle_of s h) then (Inr (), s)
      else guarded_by (require_current h s)
        (\<lambda>s. (Inr (), (retire_handle h s)\<lparr>spc_active_handle := None\<rparr>)) s)"

text \<open>\<open>exclusive_safe_mutation\<close> and \<open>run_exclusive\<close>: a mutation from outside, with no handle open.\<close>

definition run_exclusive ::
  "('v safe_point \<Rightarrow> 'r result \<times> 'v safe_point) \<Rightarrow> 'v safe_point \<Rightarrow> 'r result \<times> 'v safe_point" where
  "run_exclusive operation s =
     (if spc_active_handle s \<noteq> None
      then (Inl (RuntimeError ''provider input/model operation is active''), s)
      else operation s)"

text \<open>
  A feedback of the user is installed under the handle whose cut it was admitted for. An
  acceptance that fails without a conflict is looked up again before it is reported.
\<close>

definition is_conflict :: "py_error \<Rightarrow> bool" where
  "is_conflict e \<longleftrightarrow> (case e of ConversationKernelConflict _ \<Rightarrow> True | _ \<Rightarrow> False)"

definition install_user_feedback ::
  "nat \<Rightarrow> input_cut \<Rightarrow> 'e option result \<Rightarrow> 'e result \<Rightarrow> 'e option result \<Rightarrow> 'v safe_point \<Rightarrow> 'e result" where
  "install_user_feedback h expected winner accepted winner_after s =
     (case require_current h s of
        Inl e \<Rightarrow> Inl e
      | Inr _ \<Rightarrow>
          if hdl_model_active (handle_of s h)
          then Inl (ExternalSourceNotAtSafePoint ''provider model operation is active'')
          else if expected \<noteq> hdl_cut (handle_of s h)
          then Inl (ConversationKernelConflict ''user control feedback admission lost its exact input cut'')
          else
            (case winner of
               Inl e \<Rightarrow> Inl e
             | Inr (Some entry) \<Rightarrow> Inr entry
             | Inr None \<Rightarrow>
                 (case accepted of
                    Inr entry \<Rightarrow> Inr entry
                  | Inl e \<Rightarrow>
                      if is_conflict e then Inl e
                      else (case winner_after of
                              Inl e' \<Rightarrow> Inl e'
                            | Inr None \<Rightarrow> Inl e
                            | Inr (Some entry) \<Rightarrow> Inr entry))))"

section \<open>Bases\<close>

definition consume_canonical :: "nat \<Rightarrow> 'v safe_point \<Rightarrow> unit result \<times> 'v safe_point" where
  "consume_canonical i s =
     (if cob_consumed (spc_canonical s ! i)
      then (Inl (RuntimeError ''canonical dispatch observation is already consumed''), s)
      else (Inr (), s\<lparr>spc_canonical := (spc_canonical s)
              [i := (spc_canonical s ! i)\<lparr>cob_consumed := True\<rparr>]\<rparr>))"

definition consume_capability :: "nat \<Rightarrow> 'v safe_point \<Rightarrow> unit result \<times> 'v safe_point" where
  "consume_capability i s =
     (if kob_consumed (spc_capability s ! i)
      then (Inl (RuntimeError ''capability dispatch observation is already consumed''), s)
      else (Inr (), s\<lparr>spc_capability := (spc_capability s)
              [i := (spc_capability s ! i)\<lparr>kob_consumed := True\<rparr>]\<rparr>))"

definition cut_joined :: "'v input_identity \<Rightarrow> input_cut \<Rightarrow> bool" where
  "cut_joined ident icut \<longleftrightarrow>
     cid_session_id ident = cut_session_id icut \<and> cid_turn_id ident = cut_turn_id icut \<and>
     cid_binding_revision_id ident = cut_binding_revision_id icut \<and>
     cid_through_sequence ident = cut_through_sequence icut"

definition seal_basis ::
  "nat \<Rightarrow> nat \<Rightarrow> nat \<Rightarrow> 'v call_target \<Rightarrow> 'v safe_point \<Rightarrow> nat result \<times> 'v safe_point" where
  "seal_basis h co ka target s0 = guarded_by (require_current h s0)
     (\<lambda>s. if spc_active_basis s \<noteq> None
          then (Inl (RuntimeError ''provider-input preparation basis is already active''), s)
          else
            (let read = cob_canonical_read (spc_canonical s ! co);
                 icut = hdl_cut (handle_of s h); j = length (spc_bases s);
                 b = \<lparr>bas_oid = j, bas_owner = spc_id s, bas_handle = h, bas_canonical_read = read,
                      bas_capability_cut = kob_dispatch_cut (spc_capability s ! ka),
                      bas_call_target = target,
                      bas_surface_borrow = kob_surface_borrow (spc_capability s ! ka)\<rparr> in
             if \<not> cut_joined (cdr_identity read) icut \<or> ctg_session_id target \<noteq> cut_session_id icut \<or>
                ctg_turn_id target \<noteq> cut_turn_id icut
             then (Inl (RuntimeError ''provider-input preparation basis does not exact-join''), s)
             else and_then (consume_canonical co s) (\<lambda>_ s.
               and_then (consume_capability ka s) (\<lambda>_ s.
                 (Inr j, s\<lparr>spc_bases := spc_bases s @ [(b, Basis_Prepared)],
                           spc_active_basis := Some j\<rparr>))))) s0"

definition revoke_basis :: "nat \<Rightarrow> 'v safe_point \<Rightarrow> unit result \<times> 'v safe_point" where
  "revoke_basis j s =
     (if bas_owner (basis_of s j) \<noteq> spc_id s
      then (Inl (RuntimeError ''provider-input basis belongs to another safe-point''), s)
      else if state_of_basis s j = Basis_Revoked
      then (Inl (RuntimeError ''provider-input basis is already revoked''), s)
      else (Inr (), (set_basis_state j Basis_Revoked s)
              \<lparr>spc_active_basis := (if spc_active_basis s = Some j then None else spc_active_basis s)\<rparr>))"

definition mark_installed :: "nat \<Rightarrow> 'v safe_point \<Rightarrow> unit result \<times> 'v safe_point" where
  "mark_installed j s =
     (if bas_owner (basis_of s j) \<noteq> spc_id s \<or> state_of_basis s j \<noteq> Basis_Prepared
      then (Inl (RuntimeError ''provider-input basis cannot be installed''), s)
      else (Inr (), set_basis_state j Basis_Installed s))"

section \<open>Transitions, registration and installation under a basis\<close>

definition issue_provider_transition ::
  "nat \<Rightarrow> 'v planning_input \<Rightarrow> 'v cold_seed option \<Rightarrow> 'v semantic_projection \<Rightarrow> 'v wire_plan \<Rightarrow>
   'v switch_admission option \<Rightarrow> 'v safe_point \<Rightarrow> 'v epoch_transition result \<times> 'v safe_point" where
  "issue_provider_transition j pl seed sem plan adm s = guarded_by (require_basis_current j s)
     (issue_transition pl (Some (basis_of s j)) (bas_call_target (basis_of s j)) seed sem plan adm) s"

definition register_provider_candidate ::
  "'v value_codec \<Rightarrow> nat \<Rightarrow> 'v append_candidate \<Rightarrow> 'v safe_point \<Rightarrow> unit result \<times> 'v safe_point" where
  "register_provider_candidate codec j c s = guarded_by (require_basis_current j s)
     (\<lambda>s. if apc_basis c \<noteq> Some (basis_of s j)
          then (Inl (RuntimeError ''provider-input candidate belongs to another basis''), s)
          else register_candidate codec c s) s"

text \<open>The model operation is marked before the installation and unmarked when it raises.\<close>

definition install_provider_candidate ::
  "'v value_codec \<Rightarrow> nat \<Rightarrow> 'v append_candidate \<Rightarrow> nat \<Rightarrow> pystr list \<Rightarrow> 'v safe_point \<Rightarrow>
   (install_permit result \<times> 'v safe_point) option" where
  "install_provider_candidate codec j c execution draws s =
     (let h = bas_handle (basis_of s j) in
      case require_basis_current j s of
        Inl e \<Rightarrow> Some (Inl e, s)
      | Inr _ \<Rightarrow>
          if apc_basis c \<noteq> Some (basis_of s j)
          then Some (Inl (RuntimeError ''provider-input candidate belongs to another basis''), s)
          else if hdl_model_active (handle_of s h)
          then Some (Inl (RuntimeError ''model operation already started''), s)
          else
            (case install_candidate codec c execution draws (set_model_active h True s) of
               None \<Rightarrow> None
             | Some (Inl e, t) \<Rightarrow> Some (Inl e, set_model_active h False t)
             | Some (Inr p, t) \<Rightarrow>
                 (case mark_installed j t of
                    (Inl e, u) \<Rightarrow> Some (Inl e, set_model_active h False u)
                  | (Inr _, u) \<Rightarrow> Some (Inr p, u))))"

text \<open>\<open>successor_turn_id or identity.turn_id\<close>\<close>

definition successor_turn :: "pystr option \<Rightarrow> pystr \<Rightarrow> pystr" where
  "successor_turn t own = (case t of None \<Rightarrow> own | Some [] \<Rightarrow> own | Some x \<Rightarrow> x)"

definition adopted_seed_joined ::
  "input_cut \<Rightarrow> 'v adoption_confirmation \<Rightarrow> 'v adoption \<Rightarrow> attempt_token \<Rightarrow> 'v dispatch_read \<Rightarrow>
   'v call_target \<Rightarrow> pystr option \<Rightarrow> bool" where
  "adopted_seed_joined icut conf cand token read dest successor \<longleftrightarrow>
     (let ident = cdr_identity read; bind = cdr_binding read in
      cnf_candidate conf = cand \<and> cut_joined ident icut \<and>
      atk_session_id token = cid_session_id ident \<and> atk_turn_id token = cid_turn_id ident \<and>
      atk_scope_kind token = cid_scope_kind ident \<and>
      Some (adp_snapshot_id cand) = cbd_context_snapshot_id bind \<and>
      adp_binding_revision_id cand = cbd_binding_revision_id bind \<and>
      ctg_session_id dest = cid_session_id ident \<and>
      ctg_turn_id dest = successor_turn successor (cid_turn_id ident))"

definition issue_adopted_seed ::
  "nat \<Rightarrow> 'v adoption_confirmation \<Rightarrow> 'v adoption \<Rightarrow> attempt_token \<Rightarrow> 'v dispatch_read \<Rightarrow>
   'v call_target \<Rightarrow> pystr \<Rightarrow> pystr option \<Rightarrow> 'v safe_point \<Rightarrow> 'v adopted_seed result \<times> 'v safe_point" where
  "issue_adopted_seed h conf cand token read dest tail successor s = guarded_by (require_current h s)
     (\<lambda>s. if cnf_kind conf \<noteq> Adoption_Full
          then (Inl (RuntimeError ''adopted successor requires FULL confirmation''), s)
          else
            (let sc = \<lparr>csc_session_id = cid_session_id (cdr_identity read),
                       csc_kind = cid_scope_kind (cdr_identity read)\<rparr>;
                 refused = (Inl (RuntimeError ''adopted successor authority does not exact-join''), s) in
             guarded_by (scope_post_init sc) (\<lambda>s.
               case current_cohort sc s of
                 Inl e \<Rightarrow> (Inl e, s)
               | Inr None \<Rightarrow> refused
               | Inr (Some predecessor) \<Rightarrow>
                   if \<not> adopted_seed_joined (hdl_cut (handle_of s h)) conf cand token read dest successor
                   then refused
                   else
                     (let a = \<lparr>aut_predecessor = predecessor, aut_destination = dest,
                               aut_confirmation = conf, aut_attempt_token = token,
                               aut_candidate = cand, aut_consumed = False\<rparr>;
                          sd = \<lparr>asd_dispatch_read = read,
                                asd_binding_rewrite_identity = cbd_binding_revision_id (cdr_binding read),
                                asd_tail_fingerprint = tail,
                                asd_authority = length (own_authorities s)\<rparr> in
                      case adopted_seed_init a sd of
                        Inl e \<Rightarrow> (Inl e, s)
                      | Inr _ \<Rightarrow> (Inr sd, s\<lparr>own_authorities := own_authorities s @ [a]\<rparr>))) s)) s"

end
