(* ===== verification/Preparation_Owners.thy ===== *)
theory Preparation_Owners
  imports Safe_Point
begin

text \<open>
  Who owns the resources of one preparation (\<open>conversation_kernel/provider_dispatch.py\<close>): the
  authority of a dispatch, the authority behind a dry projection of a compaction, and the
  settlements of the safe point that close them. An owner is one mutable object with one holder,
  so its operations return it beside the safe point. How the release of a borrow ends, what a
  hook's retirement or an abandonment callback raises and what the verification of the physical
  release says are arguments.
\<close>

section \<open>Steps over an owner and the safe point\<close>

text \<open>\<open>try: ... finally: ...\<close>: the last step always runs, and its exception wins.\<close>

definition finally_do :: "'r result \<times> 's \<Rightarrow> ('s \<Rightarrow> unit result \<times> 's) \<Rightarrow> 'r result \<times> 's" where
  "finally_do r f =
     (case f (snd r) of (Inl e, s) \<Rightarrow> (Inl e, s) | (Inr _, s) \<Rightarrow> (fst r, s))"

text \<open>\<open>try: ... except: cleanup; raise\<close>\<close>

definition except_do :: "'r result \<times> 's \<Rightarrow> ('s \<Rightarrow> unit result \<times> 's) \<Rightarrow> 'r result \<times> 's" where
  "except_do r f =
     (case fst r of
        Inr _ \<Rightarrow> r
      | Inl e \<Rightarrow> (case f (snd r) of (Inl e', s) \<Rightarrow> (Inl e', s) | (Inr _, s) \<Rightarrow> (Inl e, s)))"

text \<open>\<open>borrow.close()\<close>, where \<open>released\<close> is how the release by its owner ends.\<close>

definition close_borrow :: "unit result \<Rightarrow> nat \<Rightarrow> 'v safe_point \<Rightarrow> unit result \<times> 'v safe_point" where
  "close_borrow released i s =
     (if spc_borrows s ! i then (Inr (), s)
      else (case released of
              Inl e \<Rightarrow> (Inl e, s)
            | Inr _ \<Rightarrow> (Inr (), s\<lparr>spc_borrows := (spc_borrows s)[i := True]\<rparr>)))"

text \<open>The owner's own part is done first; the rest runs on the safe point alone.\<close>

definition with_owner :: "'o \<Rightarrow> 'r result \<times> 's \<Rightarrow> 'r result \<times> 'o \<times> 's" where
  "with_owner a r = (fst r, a, snd r)"

section \<open>The authority of a dispatch\<close>

record execution_authority =
  exa_basis :: nat
  exa_handle :: "nat option"
  exa_borrow :: "nat option"
  exa_installable :: bool

definition authority_consumed :: py_error where
  "authority_consumed = RuntimeError ''provider execution authority is already consumed''"

definition execution_authority_init ::
  "nat \<Rightarrow> nat \<Rightarrow> nat \<Rightarrow> nat \<Rightarrow> 'v call_target \<Rightarrow> bool \<Rightarrow> 'v safe_point \<Rightarrow>
   execution_authority result \<times> 'v safe_point" where
  "execution_authority_init h borrow co ka target installable s =
     and_then (seal_basis h co ka target s)
       (\<lambda>j t. (Inr \<lparr>exa_basis = j, exa_handle = Some h, exa_borrow = Some borrow,
                    exa_installable = installable\<rparr>, t))"

definition execution_cut :: "execution_authority \<Rightarrow> 'v safe_point \<Rightarrow> input_cut result" where
  "execution_cut a s =
     (case exa_handle a of None \<Rightarrow> Inl authority_consumed | Some h \<Rightarrow> Inr (hdl_cut (handle_of s h)))"

definition require_for_install :: "execution_authority \<Rightarrow> (nat \<times> nat \<times> nat) result" where
  "require_for_install a =
     (case (exa_handle a, exa_borrow a) of
        (Some h, Some b) \<Rightarrow> if exa_installable a then Inr (exa_basis a, h, b) else Inl authority_consumed
      | _ \<Rightarrow> Inl authority_consumed)"

text \<open>Every way out takes both resources first, so the second one raises.\<close>

definition take_resources ::
  "execution_authority \<Rightarrow> (nat \<Rightarrow> nat \<Rightarrow> 'v safe_point \<Rightarrow> 'r result \<times> 'v safe_point) \<Rightarrow> 'v safe_point \<Rightarrow>
   'r result \<times> execution_authority \<times> 'v safe_point" where
  "take_resources a f s = with_owner (a\<lparr>exa_handle := None, exa_borrow := None\<rparr>)
     (case (exa_handle a, exa_borrow a) of
        (Some h, Some b) \<Rightarrow> f h b s
      | _ \<Rightarrow> (Inl authority_consumed, s))"

definition execution_close ::
  "unit result \<Rightarrow> execution_authority \<Rightarrow> 'v safe_point \<Rightarrow> unit result \<times> execution_authority \<times> 'v safe_point" where
  "execution_close released a = take_resources a (\<lambda>h b s.
     finally_do (and_then (revoke_basis (exa_basis a) s) (\<lambda>_. close_handle h)) (close_borrow released b))"

definition execution_take_for_rotation ::
  "unit result \<Rightarrow> execution_authority \<Rightarrow> 'v safe_point \<Rightarrow> nat result \<times> execution_authority \<times> 'v safe_point" where
  "execution_take_for_rotation released a = take_resources a (\<lambda>h b s.
     and_then (except_do (finally_do (revoke_basis (exa_basis a) s) (close_borrow released b)) (close_handle h))
       (\<lambda>_ t. (Inr h, t)))"

definition execution_take_for_suffix ::
  "execution_authority \<Rightarrow> 'v safe_point \<Rightarrow> (nat \<times> nat) result \<times> execution_authority \<times> 'v safe_point" where
  "execution_take_for_suffix a = take_resources a (\<lambda>h b s.
     and_then (revoke_basis (exa_basis a) s) (\<lambda>_ t. (Inr (h, b), t)))"

definition execution_finish_model ::
  "unit result \<Rightarrow> execution_authority \<Rightarrow> 'v safe_point \<Rightarrow> nat result \<times> execution_authority \<times> 'v safe_point" where
  "execution_finish_model released a = take_resources a (\<lambda>h b s.
     and_then (except_do (and_then (revoke_basis (exa_basis a) s) (\<lambda>_. close_handle h)) (close_borrow released b))
       (\<lambda>_ t. (Inr b, t)))"

text \<open>The part of a prepared dispatch that decides when its authority goes.\<close>

record 'v prepared_dispatch =
  dsp_authority :: "execution_authority option"
  dsp_planning :: "'v planning_input"
  dsp_install_started :: bool
  dsp_installed_sealed :: bool
  dsp_wire_bound :: bool
  dsp_hook_reserved :: bool
  dsp_abandonment :: bool

definition dispatch_consumed :: py_error where
  "dispatch_consumed = RuntimeError ''provider dispatch execution authority is consumed''"

definition take_execution_authority :: "'v prepared_dispatch \<Rightarrow> (execution_authority \<times> 'v prepared_dispatch) result" where
  "take_execution_authority d =
     (case dsp_authority d of
        None \<Rightarrow> Inl dispatch_consumed
      | Some a \<Rightarrow> Inr (a, d\<lparr>dsp_authority := None\<rparr>))"

definition claim_install_authority ::
  "'v prepared_dispatch \<Rightarrow> (nat \<times> nat \<times> nat) result \<times> 'v prepared_dispatch" where
  "claim_install_authority d =
     (case dsp_authority d of
        None \<Rightarrow> (Inl dispatch_consumed, d)
      | Some a \<Rightarrow>
          if dsp_install_started d
          then (Inl (RuntimeError ''provider dispatch install is already consumed''), d)
          else (require_for_install a, d\<lparr>dsp_install_started := True\<rparr>))"

definition require_unbound :: "'v prepared_dispatch \<Rightarrow> unit result" where
  "require_unbound d =
     (if dsp_wire_bound d \<or> dsp_install_started d \<or> dsp_authority d = None
      then Inl (ConversationKernelConflict ''provider input is already bound or consumed'') else Inr ())"

definition claim_wire_binding :: "'v prepared_dispatch \<Rightarrow> unit result \<times> 'v prepared_dispatch" where
  "claim_wire_binding d = (case require_unbound d of
     Inl e \<Rightarrow> (Inl e, d) | Inr _ \<Rightarrow> (Inr (), d\<lparr>dsp_wire_bound := True\<rparr>))"

definition install_continuation_abandonment :: "'v prepared_dispatch \<Rightarrow> unit result \<times> 'v prepared_dispatch" where
  "install_continuation_abandonment d =
     (if dsp_abandonment d \<or> dsp_installed_sealed d
      then (Inl (RuntimeError ''continuation abandonment owner is already bound''), d)
      else (Inr (), d\<lparr>dsp_abandonment := True\<rparr>))"

text \<open>
  \<open>close\<close>: the authority, the planning unless an installed request was sealed, the hook context
  and the abandonment, each in the \<open>finally\<close> of the one before.
\<close>

definition dispatch_close ::
  "unit result \<Rightarrow> unit result \<Rightarrow> unit result \<Rightarrow> 'v prepared_dispatch \<Rightarrow> 'v safe_point \<Rightarrow>
   unit result \<times> 'v prepared_dispatch \<times> 'v safe_point" where
  "dispatch_close released hook abandoned d s =
     (case take_execution_authority d of
        Inl e \<Rightarrow> (Inl e, d, s)
      | Inr (a, d') \<Rightarrow>
          with_owner (d'\<lparr>dsp_hook_reserved := False, dsp_abandonment := False\<rparr>)
            (finally_do (finally_do (finally_do
              (let r = execution_close released a s in (fst r, snd (snd r)))
              (\<lambda>s. if dsp_installed_sealed d' then (Inr (), s) else abort_planning (dsp_planning d') s))
              (\<lambda>s. (if dsp_hook_reserved d' then hook else Inr (), s)))
              (\<lambda>s. (if dsp_abandonment d' then abandoned else Inr (), s))))"

section \<open>The authority of a dry projection\<close>

record 'v dry_authority =
  dra_basis :: nat
  dra_handle :: "nat option"
  dra_borrow :: "nat option"
  dra_planning :: "'v planning_input"
  dra_abort_planning :: bool

definition dry_consumed :: py_error where
  "dry_consumed = RuntimeError ''compaction dry resources are already consumed''"

definition dry_authority_init ::
  "nat \<Rightarrow> nat \<Rightarrow> nat \<Rightarrow> nat \<Rightarrow> 'v call_target \<Rightarrow> 'v planning_input \<Rightarrow> 'v safe_point \<Rightarrow>
   'v dry_authority result \<times> 'v safe_point" where
  "dry_authority_init h borrow co ka target planning s =
     and_then (seal_basis h co ka target s)
       (\<lambda>j t. (Inr \<lparr>dra_basis = j, dra_handle = Some h, dra_borrow = Some borrow,
                    dra_planning = planning, dra_abort_planning = True\<rparr>, t))"

definition dry_begin_empty_adoption :: "'v dry_authority \<Rightarrow> unit result \<times> 'v dry_authority" where
  "dry_begin_empty_adoption a =
     (if dra_handle a = None \<or> \<not> dra_abort_planning a then (Inl dry_consumed, a)
      else (Inr (), a\<lparr>dra_abort_planning := False\<rparr>))"

definition dry_restore_abort :: "'v dry_authority \<Rightarrow> unit result \<times> 'v dry_authority" where
  "dry_restore_abort a =
     (if dra_handle a = None \<or> dra_abort_planning a
      then (Inl (RuntimeError ''compaction dry resources cannot be restored''), a)
      else (Inr (), a\<lparr>dra_abort_planning := True\<rparr>))"

definition dry_require :: "'v dry_authority \<Rightarrow> (nat \<times> nat) result" where
  "dry_require a =
     (case (dra_handle a, dra_borrow a) of
        (Some h, Some _) \<Rightarrow> Inr (dra_basis a, h) | _ \<Rightarrow> Inl dry_consumed)"

definition dry_abort_if_owned :: "'v dry_authority \<Rightarrow> 'v safe_point \<Rightarrow> unit result \<times> 'v safe_point" where
  "dry_abort_if_owned a s = (if dra_abort_planning a then abort_planning (dra_planning a) s else (Inr (), s))"

text \<open>
  The resources are taken, then the step runs. A step that ends in \<open>dry_abort_if_owned\<close> also takes
  the duty to abort; \<open>aborts\<close> says whether it was reached.
\<close>

definition dry_taken :: "'v dry_authority \<Rightarrow> bool \<Rightarrow> 'v dry_authority" where
  "dry_taken a aborts = a\<lparr>dra_handle := None, dra_borrow := None,
     dra_abort_planning := (dra_abort_planning a \<and> \<not> aborts)\<rparr>"

definition dry_close ::
  "unit result \<Rightarrow> 'v dry_authority \<Rightarrow> 'v safe_point \<Rightarrow> unit result \<times> 'v dry_authority \<times> 'v safe_point" where
  "dry_close released a s =
     (case (dra_handle a, dra_borrow a) of
        (Some h, Some b) \<Rightarrow> with_owner (dry_taken a True)
          (finally_do (finally_do
             (and_then (revoke_basis (dra_basis a) s) (\<lambda>_. close_handle h))
             (close_borrow released b)) (dry_abort_if_owned a))
      | _ \<Rightarrow> (Inl dry_consumed, dry_taken a False, s))"

definition dry_take_for_rotation ::
  "unit result \<Rightarrow> 'v dry_authority \<Rightarrow> 'v safe_point \<Rightarrow> nat result \<times> 'v dry_authority \<times> 'v safe_point" where
  "dry_take_for_rotation released a s =
     (case (dra_handle a, dra_borrow a) of
        (Some h, Some b) \<Rightarrow>
          (case revoke_basis (dra_basis a) s of
             (Inl e, t) \<Rightarrow> (Inl e, dry_taken a False, t)
           | (Inr _, t) \<Rightarrow> with_owner (dry_taken a True)
               (and_then (finally_do (close_borrow released b t) (dry_abort_if_owned a)) (\<lambda>_ u. (Inr h, u))))
      | _ \<Rightarrow> (Inl dry_consumed, dry_taken a False, s))"

record 'v dry_projection =
  dpj_result :: "'v dry_result"
  dpj_authority :: "'v dry_authority option"
  dpj_started :: bool

definition projection_consumed :: py_error where
  "projection_consumed = RuntimeError ''compaction dry projection authority is consumed''"

definition require_for_empty_adoption :: "'v dry_projection \<Rightarrow> (nat \<times> nat) result \<times> 'v dry_projection" where
  "require_for_empty_adoption d =
     (let d' = d\<lparr>dpj_started := True\<rparr> in
      case dpj_authority d of
        None \<Rightarrow> (Inl projection_consumed, d')
      | Some a \<Rightarrow>
          (case (if dpj_started d then (Inr (), a) else dry_begin_empty_adoption a) of
             (Inl e, a') \<Rightarrow> (Inl e, d'\<lparr>dpj_authority := Some a'\<rparr>)
           | (Inr _, a') \<Rightarrow> (dry_require a', d'\<lparr>dpj_authority := Some a'\<rparr>)))"

definition projection_close ::
  "unit result \<Rightarrow> 'v dry_projection \<Rightarrow> 'v safe_point \<Rightarrow> unit result \<times> 'v dry_projection \<times> 'v safe_point" where
  "projection_close released d s =
     (let d' = d\<lparr>dpj_authority := None\<rparr> in
      case dpj_authority d of
        None \<Rightarrow> (Inl projection_consumed, d', s)
      | Some a \<Rightarrow> (let r = dry_close released a s in (fst r, d', snd (snd r))))"

definition projection_take_for_rotation ::
  "unit result \<Rightarrow> 'v dry_projection \<Rightarrow> 'v safe_point \<Rightarrow> nat result \<times> 'v dry_projection \<times> 'v safe_point" where
  "projection_take_for_rotation released d s =
     (let d' = d\<lparr>dpj_authority := None\<rparr> in
      case dpj_authority d of
        None \<Rightarrow> (Inl projection_consumed, d', s)
      | Some a \<Rightarrow> (let r = dry_take_for_rotation released a s in (fst r, d', snd (snd r))))"

definition close_after_adoption_none ::
  "unit result \<Rightarrow> 'v dry_projection \<Rightarrow> 'v safe_point \<Rightarrow> unit result \<times> 'v dry_projection \<times> 'v safe_point" where
  "close_after_adoption_none released d s =
     (case dpj_authority d of
        None \<Rightarrow> (Inl projection_consumed, d, s)
      | Some a \<Rightarrow>
          (case dry_restore_abort a of
             (Inl e, a') \<Rightarrow> (Inl e, d\<lparr>dpj_authority := Some a'\<rparr>, s)
           | (Inr _, a') \<Rightarrow> projection_close released (d\<lparr>dpj_authority := Some a'\<rparr>) s))"

section \<open>Settlements by the safe point\<close>

text \<open>The safe point's step over a dry projection, after the projection gave its resources.\<close>

definition with_projection ::
  "'v dry_projection \<Rightarrow> (nat \<Rightarrow> nat \<Rightarrow> 'v dry_projection \<Rightarrow> 'v safe_point \<Rightarrow> 'r result \<times> 'v dry_projection \<times> 'v safe_point) \<Rightarrow>
   'v safe_point \<Rightarrow> 'r result \<times> 'v dry_projection \<times> 'v safe_point" where
  "with_projection d f s =
     (case require_for_empty_adoption d of
        (Inl e, d') \<Rightarrow> (Inl e, d', s)
      | (Inr (j, h), d') \<Rightarrow> f j h d' s)"

definition safe_begin_empty_adoption ::
  "'v dry_projection \<Rightarrow> attempt_token \<Rightarrow> 'v adoption \<Rightarrow> 'v safe_point \<Rightarrow>
   'v pending_adoption result \<times> 'v dry_projection \<times> 'v safe_point" where
  "safe_begin_empty_adoption d token cand = with_projection d (\<lambda>j h d s.
     with_owner d
       (case dry_source_reservation (drb_source (drr_basis (dpj_result d))) of
          None \<Rightarrow> (Inl (RuntimeError ''installed compaction dry source is not Empty''), s)
        | Some r \<Rightarrow> guarded_by (require_basis_current j s)
            (\<lambda>s. if h \<noteq> bas_handle (basis_of s j)
                 then (Inl (RuntimeError ''empty adoption handle/basis drifted''), s)
                 else begin_empty_adoption (lse_scope (rsv_lease r)) r (basis_of s j) token cand
                        (dpj_result d) s) s))"

definition settlement_joined ::
  "nat \<Rightarrow> nat \<Rightarrow> 'v dry_projection \<Rightarrow> 'v pending_adoption \<Rightarrow> 'v safe_point \<Rightarrow> bool" where
  "settlement_joined j h d p s \<longleftrightarrow>
     h = bas_handle (basis_of s j) \<and> pnd_basis p = basis_of s j \<and> pnd_dry_result p = dpj_result d"

definition joined_settlement ::
  "string \<Rightarrow> 'v dry_projection \<Rightarrow> 'v pending_adoption \<Rightarrow>
   ('v dry_projection \<Rightarrow> 'v safe_point \<Rightarrow> unit result \<times> 'v dry_projection \<times> 'v safe_point) \<Rightarrow>
   'v safe_point \<Rightarrow> unit result \<times> 'v dry_projection \<times> 'v safe_point" where
  "joined_settlement m d p f = with_projection d (\<lambda>j h d s.
     case require_basis_current j s of
       Inl e \<Rightarrow> (Inl e, d, s)
     | Inr _ \<Rightarrow>
         if \<not> settlement_joined j h d p s then (Inl (RuntimeError m), d, s) else f d s)"

text \<open>\<open>ProviderPreparationReleaseFull(exact_subject, owner)\<close>\<close>

definition issue_release :: "'v release_subject \<Rightarrow> 'v safe_point \<Rightarrow> nat \<times> 'v safe_point" where
  "issue_release x s = (length (own_releases s), s\<lparr>own_releases := own_releases s @
     [\<lparr>rel_subject = x, rel_owner = spc_id s, rel_consumed = False\<rparr>]\<rparr>)"

text \<open>What the FULL settlement does between the revocation and the quarantine.\<close>

definition release_and_publish ::
  "unit result \<Rightarrow> pystr \<Rightarrow> 'v adoption_settling \<Rightarrow> 'v settling_revocation \<Rightarrow> 'v dry_projection \<Rightarrow>
   'v safe_point \<Rightarrow> unit result \<times> 'v dry_projection \<times> 'v safe_point" where
  "release_and_publish released nonce st revoked d s =
     (case projection_close released d s of
        (Inl e, d', t) \<Rightarrow> (Inl e, d', t)
      | (Inr _, d', t) \<Rightarrow>
          if spc_active_handle t \<noteq> None
          then (Inl (RuntimeError ''empty adoption release left a provider-input handle active''), d', t)
          else
            (let (i, u) = issue_release (Settling_Release st) t in
             with_owner d' (publish_after_adoption st revoked i (spc_id u) nonce u)))"

definition settle_empty_full ::
  "unit result \<Rightarrow> pystr \<Rightarrow> 'v dry_projection \<Rightarrow> 'v pending_adoption \<Rightarrow> 'v adoption_confirmation \<Rightarrow>
   'v safe_point \<Rightarrow> unit result \<times> 'v dry_projection \<times> 'v safe_point" where
  "settle_empty_full released nonce d p conf =
     joined_settlement ''empty adoption settlement does not exact-join'' d p (\<lambda>d s.
       case begin_full_settlement p conf s of
         (Inl e, t) \<Rightarrow> (Inl e, d, t)
       | (Inr st, t) \<Rightarrow>
           (case revoke_empty_adoption st t of
              (Inl e, u) \<Rightarrow> (Inl e, d, u)
            | (Inr revoked, u) \<Rightarrow>
                (case release_and_publish released nonce st revoked d u of
                   (r, d', v) \<Rightarrow> with_owner d' (except_do (r, v) (quarantine_adoption st)))))"

definition settle_empty_none ::
  "unit result \<Rightarrow> 'v dry_projection \<Rightarrow> 'v pending_adoption \<Rightarrow> 'v adoption_confirmation \<Rightarrow>
   'v safe_point \<Rightarrow> unit result \<times> 'v dry_projection \<times> 'v safe_point" where
  "settle_empty_none released d p conf =
     joined_settlement ''empty adoption NONE does not exact-join'' d p (\<lambda>d s.
       case restore_empty_adoption_none p conf s of
         (Inl e, t) \<Rightarrow> (Inl e, d, t)
       | (Inr _, t) \<Rightarrow> close_after_adoption_none released d t)"

definition settle_empty_conflict ::
  "unit result \<Rightarrow> 'v dry_projection \<Rightarrow> 'v pending_adoption \<Rightarrow> 'v adoption_confirmation \<Rightarrow>
   'v safe_point \<Rightarrow> unit result \<times> 'v dry_projection \<times> 'v safe_point" where
  "settle_empty_conflict released d p conf =
     joined_settlement ''empty adoption CONFLICT does not exact-join'' d p (\<lambda>d s.
       case begin_conflict_settlement p conf s of
         (Inl e, t) \<Rightarrow> (Inl e, d, t)
       | (Inr st, t) \<Rightarrow>
           (case revoke_empty_adoption st t of
              (Inl e, u) \<Rightarrow> (Inl e, d, u)
            | (Inr _, u) \<Rightarrow>
                (case projection_close released d u of
                   (r, d', v) \<Rightarrow> with_owner d' (finally_do (r, v) (quarantine_adoption st)))))"

text \<open>
  The end of \<open>retire_full_adoption_without_continuation_and_arm_empty\<close>: the dispatch of the
  abandoned continuation, when there is one, is closed, and the empty scope is published.
\<close>

definition retire_rest ::
  "(unit result \<times> unit result \<times> unit result) \<Rightarrow> unit result \<Rightarrow> pystr \<Rightarrow> 'v admission_fence \<Rightarrow>
   'v continuation_closure \<Rightarrow> 'v fence_revocation \<Rightarrow> 'v prepared_dispatch option \<Rightarrow> 'v safe_point \<Rightarrow>
   unit result \<times> 'v prepared_dispatch option \<times> 'v safe_point" where
  "retire_rest outcomes verified n f c revoked dispatch t =
     (case (case dispatch of
              None \<Rightarrow> (Inr (), None, t)
            | Some d \<Rightarrow>
                (case outcomes of (released, hook, abandoned) \<Rightarrow>
                   (case dispatch_close released hook abandoned d t of (r, d', u) \<Rightarrow> (r, Some d', u)))) of
        (Inl e, d', u) \<Rightarrow> (Inl e, d', u)
      | (Inr _, d', u) \<Rightarrow>
          with_owner d'
            (if spc_active_handle u \<noteq> None \<or> spc_active_basis u \<noteq> None
             then (Inl (RuntimeError ''no-continuation release left a provider-input basis active''), u)
             else
               (case verified of
                  Inl e \<Rightarrow> (Inl e, u)
                | Inr _ \<Rightarrow>
                    (let (i, v) = issue_release (Closure_Release c) u in
                     publish_after_no_continuation f c revoked i (spc_id v) n v))))"

definition retire_without_continuation ::
  "(unit result \<times> unit result \<times> unit result) \<Rightarrow> unit result \<Rightarrow> pystr \<Rightarrow> 'v admission_fence \<Rightarrow>
   no_continuation_evidence \<Rightarrow> 'v prepared_dispatch option \<Rightarrow> 'v safe_point \<Rightarrow>
   unit result \<times> 'v prepared_dispatch option \<times> 'v safe_point" where
  "retire_without_continuation outcomes verified n f ev dispatch s0 =
     (let c = \<lparr>clo_oid = own_next s0, clo_fence = f, clo_evidence = ev\<rparr> in
      case begin_no_continuation f c (take_oid s0) of
        (Inl e, s) \<Rightarrow> (Inl e, dispatch, s)
      | (Inr _, s) \<Rightarrow>
          (case revoke_no_continuation f c s of
             (Inl e, t) \<Rightarrow> (Inl e, dispatch, t)
           | (Inr revoked, t) \<Rightarrow> retire_rest outcomes verified n f c revoked dispatch t))"

end
