(* ===== verification/Safe_Point_Safety.thy ===== *)
theory Safe_Point_Safety
  imports Preparation_Owners
begin

text \<open>
  The states a safe point can reach, its invariant, and that every operation keeps it: those of
  the safe point itself, those of the owner of the provider input that it shares its state with,
  and the composed ones of the resource owners.
\<close>

section \<open>The fields of the safe point\<close>

lemma more_fields:
  assumes "continuity.more t = continuity.more (s :: 'v safe_point)"
  shows "spc_id t = spc_id s \<and> spc_generation t = spc_generation s \<and>
    spc_active_handle t = spc_active_handle s \<and> spc_active_basis t = spc_active_basis s \<and>
    spc_handles t = spc_handles s \<and> spc_bases t = spc_bases s \<and> spc_canonical t = spc_canonical s \<and>
    spc_capability t = spc_capability s \<and> spc_borrows t = spc_borrows s"
  using assms by (cases s; cases t) simp

definition same_points :: "'v safe_point \<Rightarrow> 'v safe_point \<Rightarrow> bool" where
  "same_points s t \<longleftrightarrow> spc_id t = spc_id s \<and> spc_generation t = spc_generation s \<and>
    spc_active_handle t = spc_active_handle s \<and> spc_active_basis t = spc_active_basis s \<and>
    spc_handles t = spc_handles s \<and> spc_bases t = spc_bases s"

section \<open>The invariant\<close>

text \<open>
  Handles are numbered by generation, only the last one may be open, and it is open exactly when
  it is the active one; the only basis that is not revoked is the active one; an installed basis
  holds the model operation of its handle for as long as the handle is open.
\<close>

definition handles_inv :: "'v safe_point \<Rightarrow> bool" where
  "handles_inv s \<longleftrightarrow>
     length (spc_handles s) = spc_generation s \<and>
     (\<forall>h < length (spc_handles s). hdl_generation (handle_of s h) = Suc h \<and>
        (hdl_closed (handle_of s h) \<longleftrightarrow> spc_active_handle s \<noteq> Some h)) \<and>
     (\<forall>h. spc_active_handle s = Some h \<longrightarrow> Suc h = length (spc_handles s))"

definition bases_inv :: "'v safe_point \<Rightarrow> bool" where
  "bases_inv s \<longleftrightarrow>
     (\<forall>j. spc_active_basis s = Some j \<longrightarrow> j < length (spc_bases s)) \<and>
     (\<forall>j < length (spc_bases s). bas_oid (basis_of s j) = j \<and> bas_owner (basis_of s j) = spc_id s \<and>
        bas_handle (basis_of s j) < length (spc_handles s) \<and>
        (state_of_basis s j = Basis_Revoked \<longleftrightarrow> spc_active_basis s \<noteq> Some j) \<and>
        (state_of_basis s j = Basis_Installed \<longrightarrow>
           hdl_closed (handle_of s (bas_handle (basis_of s j))) \<or>
           hdl_model_active (handle_of s (bas_handle (basis_of s j)))))"

definition points_inv :: "'v safe_point \<Rightarrow> bool" where
  "points_inv s \<longleftrightarrow> handles_inv s \<and> bases_inv s"

definition safe_inv :: "'v value_codec \<Rightarrow> 'v safe_point \<Rightarrow> bool" where
  "safe_inv codec s \<longleftrightarrow> owner_inv codec s \<and> points_inv s"

named_theorems point_defs "the state of the safe point, unfolded"

lemmas [point_defs] =
  handle_of_def basis_of_def state_of_basis_def update_handle_def set_basis_state_def
  set_model_active_def retire_handle_def

lemma nth_updated:
  "xs[i := f (xs ! i)] ! k = (if k = i \<and> i < length xs then f (xs ! i) else xs ! k)"
  by (cases "i < length xs") (auto simp: nth_list_update list_update_beyond)

lemmas [point_defs] = nth_updated [of _ _ "\<lambda>x. x\<lparr>hdl_model_active := a\<rparr>" for a]
  nth_updated [of _ _ "\<lambda>x. x\<lparr>hdl_closed := True, hdl_model_active := False\<rparr>"]
  nth_updated [of _ _ "\<lambda>x. (fst x, st)" for st]

lemma points_inv_same: "points_inv s \<Longrightarrow> same_points s t \<Longrightarrow> points_inv t"
  unfolding points_inv_def handles_inv_def bases_inv_def same_points_def point_defs by auto

lemma owner_inv_points:
  "owner_inv codec s \<Longrightarrow> owner_inv codec (s\<lparr>spc_handles := a\<rparr>)"
  "owner_inv codec s \<Longrightarrow> owner_inv codec (s\<lparr>spc_bases := b\<rparr>)"
  "owner_inv codec s \<Longrightarrow> owner_inv codec (s\<lparr>spc_active_handle := c\<rparr>)"
  "owner_inv codec s \<Longrightarrow> owner_inv codec (s\<lparr>spc_active_basis := d\<rparr>)"
  "owner_inv codec s \<Longrightarrow> owner_inv codec (s\<lparr>spc_generation := g\<rparr>)"
  "owner_inv codec s \<Longrightarrow> owner_inv codec (s\<lparr>spc_canonical := x\<rparr>)"
  "owner_inv codec s \<Longrightarrow> owner_inv codec (s\<lparr>spc_capability := y\<rparr>)"
  "owner_inv codec s \<Longrightarrow> owner_inv codec (s\<lparr>spc_borrows := z\<rparr>)"
  by (auto elim!: owner_inv_cong)

lemma require_current_open:
  "require_current h s = Inr u \<Longrightarrow> handles_inv s \<Longrightarrow>
   spc_active_handle s = Some h \<and> Suc h = length (spc_handles s) \<and> \<not> hdl_closed (handle_of s h)"
  by (auto simp: require_current_def handles_inv_def split: if_splits)

lemma require_current_iff:
  "handles_inv s \<Longrightarrow> require_current h s = Inr () \<longleftrightarrow> spc_active_handle s = Some h"
  by (auto simp: require_current_def handles_inv_def)

section \<open>Steps of the safe point\<close>

lemma open_handle_inv:
  assumes "points_inv s" and "spc_active_handle s = None"
  shows "points_inv (snd (open_handle c s))"
  using assms
  by (auto simp: points_inv_def handles_inv_def bases_inv_def open_handle_def point_defs nth_append less_Suc_eq Let_def)

lemma retire_handle_inv:
  assumes "points_inv s" and "spc_active_handle s = Some h"
  shows "points_inv ((retire_handle h s)\<lparr>spc_active_handle := None\<rparr>)"
proof -
  have h: "Suc h = length (spc_handles s)" using assms by (simp add: points_inv_def handles_inv_def)
  have "handles_inv ((retire_handle h s)\<lparr>spc_active_handle := None\<rparr>)"
    using assms h by (auto simp: points_inv_def handles_inv_def point_defs)
  moreover have "bases_inv ((retire_handle h s)\<lparr>spc_active_handle := None\<rparr>)"
    using assms(1) h by (auto simp: points_inv_def bases_inv_def point_defs)
  ultimately show ?thesis by (simp add: points_inv_def)
qed

lemma set_model_inv:
  assumes "points_inv s" and "a \<or> (\<forall>j < length (spc_bases s). bas_handle (basis_of s j) = h \<longrightarrow>
     state_of_basis s j \<noteq> Basis_Installed)"
  shows "points_inv (set_model_active h a s)"
proof -
  have "handles_inv (set_model_active h a s)"
    using assms(1) by (auto simp: points_inv_def handles_inv_def point_defs)
  moreover have "bases_inv (set_model_active h a s)"
    using assms by (auto simp: points_inv_def bases_inv_def point_defs)
  ultimately show ?thesis by (simp add: points_inv_def)
qed

section \<open>Every operation keeps the invariant\<close>

definition kept :: "('v safe_point \<Rightarrow> bool) \<Rightarrow> 'r result \<times> 'v safe_point \<Rightarrow> bool" where
  "kept P r \<longleftrightarrow> P (snd r)"

lemma kept_simps [simp]: "kept P (x, s) \<longleftrightarrow> P s"
  by (simp add: kept_def)

lemma kept_guarded: "P s \<Longrightarrow> (g = Inr () \<Longrightarrow> kept P (f s)) \<Longrightarrow> kept P (guarded_by g f s)"
  by (cases g) auto

lemma kept_and_then: "kept P r \<Longrightarrow> (\<And>x s. P s \<Longrightarrow> kept P (f x s)) \<Longrightarrow> kept P (and_then r f)"
  by (auto simp: and_then_def kept_def split: prod.splits sum.splits)

lemma kept_finally: "kept P r \<Longrightarrow> (\<And>s. P s \<Longrightarrow> kept P (f s)) \<Longrightarrow> kept P (finally_do r f)"
  by (fastforce simp: finally_do_def kept_def split: prod.splits sum.splits)

lemma kept_except: "kept P r \<Longrightarrow> (\<And>s. P s \<Longrightarrow> kept P (f s)) \<Longrightarrow> kept P (except_do r f)"
  by (fastforce simp: except_do_def kept_def split: prod.splits sum.splits)

text \<open>
  Nothing comes back: a closed handle stays closed, a revoked basis stays revoked, and an
  installed one is never prepared again.
\<close>

definition grows :: "'v safe_point \<Rightarrow> 'v safe_point \<Rightarrow> bool" where
  "grows s t \<longleftrightarrow>
     length (spc_handles s) \<le> length (spc_handles t) \<and>
     (\<forall>h < length (spc_handles s). hdl_cut (handle_of t h) = hdl_cut (handle_of s h) \<and>
        (hdl_closed (handle_of s h) \<longrightarrow> hdl_closed (handle_of t h))) \<and>
     length (spc_bases s) \<le> length (spc_bases t) \<and>
     (\<forall>j < length (spc_bases s). basis_of t j = basis_of s j \<and>
        (state_of_basis s j = Basis_Revoked \<longrightarrow> state_of_basis t j = Basis_Revoked) \<and>
        (state_of_basis s j \<noteq> Basis_Prepared \<longrightarrow> state_of_basis t j \<noteq> Basis_Prepared))"

definition safe_ok :: "'v value_codec \<Rightarrow> 'v safe_point \<Rightarrow> 'v safe_point \<Rightarrow> bool" where
  "safe_ok codec s0 s \<longleftrightarrow> safe_inv codec s \<and> grows s0 s"

lemma grows_same: "grows s0 s \<Longrightarrow> same_points s t \<Longrightarrow> grows s0 t"
  by (auto simp: grows_def same_points_def point_defs)

lemma grows_fields [simp]:
  "grows s0 (s\<lparr>spc_active_handle := c\<rparr>) = grows s0 s" "grows s0 (s\<lparr>spc_active_basis := d\<rparr>) = grows s0 s"
  "grows s0 (s\<lparr>spc_canonical := x\<rparr>) = grows s0 s" "grows s0 (s\<lparr>spc_capability := y\<rparr>) = grows s0 s"
  "grows s0 (s\<lparr>spc_borrows := z\<rparr>) = grows s0 s" "grows s0 (s\<lparr>own_authorities := a\<rparr>) = grows s0 s"
  "grows s0 (s\<lparr>own_releases := r\<rparr>) = grows s0 s" "grows s0 (s\<lparr>own_next := n\<rparr>) = grows s0 s"
  by (simp_all add: grows_def point_defs)

lemma grows_handles:
  assumes "grows s0 s"
  shows "grows s0 (snd (open_handle c s))" and "grows s0 (retire_handle h s)"
    and "grows s0 (set_model_active h a s)"
  using assms by (auto simp: grows_def open_handle_def Let_def point_defs nth_append)

lemma grows_bases:
  assumes "grows s0 s"
  shows "grows s0 (set_basis_state j Basis_Revoked s)"
    and "state_of_basis s j \<noteq> Basis_Revoked \<Longrightarrow> grows s0 (set_basis_state j Basis_Installed s)"
    and "grows s0 (s\<lparr>spc_bases := spc_bases s @ [b]\<rparr>)"
  using assms by (auto simp: grows_def point_defs nth_append)

lemma safe_okD: "safe_ok codec s0 s \<Longrightarrow> handles_inv s" "safe_ok codec s0 s \<Longrightarrow> bases_inv s"
  "safe_ok codec s0 s \<Longrightarrow> owner_inv codec s" "safe_ok codec s0 s \<Longrightarrow> points_inv s" "safe_ok codec s0 s \<Longrightarrow> grows s0 s"
  by (auto simp: safe_ok_def safe_inv_def points_inv_def)

lemma require_current_active: "require_current h s = Inr () \<Longrightarrow> spc_active_handle s = Some h"
  by (auto simp: require_current_def split: if_splits)

lemma open_handle_kept:
  assumes "safe_ok codec s0 s" and "spc_active_handle s = None"
  shows "kept (safe_ok codec s0) (open_handle c s)"
  using open_handle_inv [OF safe_okD(4) [OF assms(1)] assms(2)] safe_okD(3) [OF assms(1)]
    grows_handles(1) [OF safe_okD(5) [OF assms(1)], of c]
  by (auto simp: safe_ok_def safe_inv_def open_handle_def Let_def elim!: owner_inv_cong)

lemma retire_kept:
  assumes "safe_ok codec s0 s" and "spc_active_handle s = Some h"
  shows "safe_ok codec s0 ((retire_handle h s)\<lparr>spc_active_handle := None\<rparr>)"
  using retire_handle_inv [OF safe_okD(4) [OF assms(1)] assms(2)] safe_okD(3) [OF assms(1)]
    grows_handles(2) [OF safe_okD(5) [OF assms(1)], of h]
  by (auto simp: safe_ok_def safe_inv_def retire_handle_def update_handle_def elim!: owner_inv_cong)

lemma model_kept:
  assumes "safe_ok codec s0 s" and "a \<or> (\<forall>j < length (spc_bases s). bas_handle (basis_of s j) = h \<longrightarrow>
     state_of_basis s j \<noteq> Basis_Installed)"
  shows "safe_ok codec s0 (set_model_active h a s)"
  using set_model_inv [OF safe_okD(4) [OF assms(1)] assms(2)] safe_okD(3) [OF assms(1)]
    grows_handles(3) [OF safe_okD(5) [OF assms(1)], of h a]
  by (auto simp: safe_ok_def safe_inv_def set_model_active_def update_handle_def elim!: owner_inv_cong)

lemma freezes_kept:
  assumes "safe_ok codec s0 s"
  shows "kept (safe_ok codec s0) (freeze_provider_input safe c s)"
    and "kept (safe_ok codec s0) (freeze_prospective_input d safe s)"
    and "kept (safe_ok codec s0) (freeze_compaction_input b safe c s)"
    and "kept (safe_ok codec s0) (freeze_pending_batch d safe s)"
  using assms open_handle_kept
  unfolding freeze_provider_input_def freeze_prospective_input_def freeze_compaction_input_def
    freeze_pending_batch_def
  by (auto intro!: kept_guarded simp: require_no_handle_def split: if_splits sum.splits)

text \<open>A rotation is a close followed by an opening.\<close>

lemma rotate_opens:
  "open_handle c (retire_handle h s) = open_handle c ((retire_handle h s)\<lparr>spc_active_handle := None\<rparr>)"
  by (simp add: open_handle_def Let_def)

lemma rotate_kept: "safe_ok codec s0 s \<Longrightarrow> kept (safe_ok codec s0) (rotate_provider_input h safe c s)"
  unfolding rotate_provider_input_def rotate_opens
  by (auto simp: guarded_by_def intro!: open_handle_kept retire_kept dest!: require_current_active split: sum.splits)

lemma begin_model_kept: "safe_ok codec s0 s \<Longrightarrow> kept (safe_ok codec s0) (begin_model h s)"
  unfolding begin_model_def by (auto intro!: kept_guarded model_kept)

lemma close_handle_kept: "safe_ok codec s0 s \<Longrightarrow> kept (safe_ok codec s0) (close_handle h s)"
  unfolding close_handle_def
  by (auto simp: guarded_by_def intro!: retire_kept dest!: require_current_active split: sum.splits)

lemma close_borrow_kept: "safe_ok codec s0 s \<Longrightarrow> kept (safe_ok codec s0) (close_borrow released i s)"
  unfolding close_borrow_def
  by (auto simp: safe_ok_def safe_inv_def owner_inv_points intro: points_inv_same simp: same_points_def split: sum.splits)

lemma consume_kept:
  "safe_ok codec s0 s \<Longrightarrow> kept (safe_ok codec s0) (consume_canonical i s)"
  "safe_ok codec s0 s \<Longrightarrow> kept (safe_ok codec s0) (consume_capability i s)"
  unfolding consume_canonical_def consume_capability_def
  by (auto simp: safe_ok_def safe_inv_def owner_inv_points intro: points_inv_same simp: same_points_def)

lemma revoke_basis_kept: "safe_ok codec s0 s \<Longrightarrow> kept (safe_ok codec s0) (revoke_basis j s)"
proof -
  assume inv: "safe_ok codec s0 s"
  have "points_inv ((set_basis_state j Basis_Revoked s)
      \<lparr>spc_active_basis := if spc_active_basis s = Some j then None else spc_active_basis s\<rparr>)"
    using safe_okD(4) [OF inv]
    by (auto simp: points_inv_def handles_inv_def bases_inv_def point_defs)
  with inv grows_bases(1) [OF safe_okD(5) [OF inv], of j] show ?thesis
    by (auto simp: revoke_basis_def safe_ok_def safe_inv_def set_basis_state_def elim!: owner_inv_cong)
qed

lemma seal_basis_kept:
  assumes "safe_ok codec s0 s"
  shows "kept (safe_ok codec s0) (seal_basis h co ka target s)"
proof -
  have append: "safe_ok codec s0 (u\<lparr>spc_bases := bs @ [(b, Basis_Prepared)],
      spc_active_basis := Some (length bs)\<rparr>)"
    if "safe_ok codec s0 u" "spc_active_basis u = None" "bas_oid b = length (spc_bases u)"
      "bas_owner b = spc_id u" "bas_handle b < length (spc_handles u)" "spc_bases u = bs" for u b bs
    using that safe_okD [OF that(1)] grows_bases(3) [of s0 u "(b, Basis_Prepared)"]
    by (auto simp: safe_ok_def safe_inv_def points_inv_def handles_inv_def bases_inv_def point_defs nth_append less_Suc_eq
        elim!: owner_inv_cong)
  have frames: "spc_bases (snd (consume_canonical co u)) = spc_bases u \<and>
      spc_active_basis (snd (consume_canonical co u)) = spc_active_basis u \<and>
      spc_id (snd (consume_canonical co u)) = spc_id u \<and>
      spc_handles (snd (consume_canonical co u)) = spc_handles u"
    "spc_bases (snd (consume_capability ka u)) = spc_bases u \<and>
      spc_active_basis (snd (consume_capability ka u)) = spc_active_basis u \<and>
      spc_id (snd (consume_capability ka u)) = spc_id u \<and>
      spc_handles (snd (consume_capability ka u)) = spc_handles u" for u
    by (simp_all add: consume_canonical_def consume_capability_def)
  note con = consume_kept(1) [OF assms, of co]
  note con2 = consume_kept(2) [of codec s0 "snd (consume_canonical co s)" ka]
  from assms con con2 frames(1) [of s] frames(2) [of "snd (consume_canonical co s)"] require_current_open [of h s]
    safe_okD(1) [OF assms] show ?thesis
    unfolding seal_basis_def
    by (auto simp: guarded_by_def kept_def Let_def and_then_def intro!: append split: sum.splits prod.splits)
qed

lemma mark_installed_kept:
  assumes "safe_ok codec s0 s" and "j < length (spc_bases s)"
    and "hdl_model_active (handle_of s (bas_handle (basis_of s j)))"
  shows "kept (safe_ok codec s0) (mark_installed j s)"
proof -
  have "points_inv (set_basis_state j Basis_Installed s)" if "state_of_basis s j = Basis_Prepared"
    using safe_okD(4) [OF assms(1)] that assms(2,3)
    by (auto simp: points_inv_def handles_inv_def bases_inv_def point_defs)
  with assms(1) grows_bases(2) [OF safe_okD(5) [OF assms(1)], of j] show ?thesis
    by (auto simp: mark_installed_def safe_ok_def safe_inv_def set_basis_state_def elim!: owner_inv_cong)
qed

text \<open>A call of the owner of the provider input leaves the safe point's own fields alone.\<close>

lemma owner_call_points:
  assumes "owner_perform codec op s = Some (b, t)" and "safe_ok codec s0 s" and "drawn_ok op"
  shows "same_points s t" and "spc_borrows t = spc_borrows s"
proof -
  have "continuity.more t = continuity.more s"
  proof (cases "op = Op_Close")
    case True
    with assms(1) show ?thesis by (auto simp: continuity_close_def)
  next
    case False
    from perform_moves [OF assms(1) safe_okD(3) [OF assms(2)] assms(3) False] show ?thesis by (simp add: moves_def)
  qed
  from more_fields [OF this] show "same_points s t" "spc_borrows t = spc_borrows s"
    by (simp_all add: same_points_def)
qed

lemma owner_call_kept:
  assumes "owner_perform codec op s = Some (b, t)" and "safe_ok codec s0 s" and "drawn_ok op"
  shows "safe_ok codec s0 t"
  using owner_perform_inv [OF assms(1) safe_okD(3) [OF assms(2)] assms(3)]
    points_inv_same [OF safe_okD(4) [OF assms(2)] owner_call_points(1) [OF assms]]
    grows_same [OF safe_okD(5) [OF assms(2)] owner_call_points(1) [OF assms]]
  by (simp add: safe_ok_def safe_inv_def)

lemma called:
  assumes "owner_perform codec op s = Some (outcome r)" and "safe_ok codec s0 s" and "drawn_ok op"
  shows "kept (safe_ok codec s0) r" and "same_points s (snd r)"
  using owner_call_kept [OF assms(1) [unfolded outcome_def] assms(2,3)]
    owner_call_points [OF assms(1) [unfolded outcome_def] assms(2,3)] by (simp_all add: kept_def)

lemmas calls_kept =
  called(1) [OF owner_perform.simps(4), simplified]
  called(1) [OF owner_perform.simps(5), simplified]
  called(1) [OF owner_perform.simps(1), simplified]
  called(1) [OF owner_perform.simps(14), simplified]
  called(1) [OF owner_perform.simps(15), simplified]
  called(1) [OF owner_perform.simps(16), simplified]
  called(1) [OF owner_perform.simps(17), simplified]
  called(1) [OF owner_perform.simps(18), simplified]
  called(1) [OF owner_perform.simps(20), simplified]
  called(1) [OF owner_perform.simps(21), simplified]
  called(1) [OF owner_perform.simps(22), simplified]
  called(1) [OF owner_perform.simps(19), simplified]
  called(1) [OF owner_perform.simps(23), simplified]

lemma current_basis:
  assumes "safe_ok codec s0 s" and "require_basis_current j s = Inr ()" and "j < length (spc_bases s)"
  shows "spc_active_basis s = Some j" and "spc_active_handle s = Some (bas_handle (basis_of s j))"
  using assms safe_okD(1,2) [OF assms(1)] require_current_active
  by (auto simp: require_basis_current_def bases_inv_def split: if_splits)

text \<open>
  No other basis of the handle is installed, so marking and unmarking its model operation is
  within the invariant.
\<close>

lemma install_provider_kept:
  assumes "safe_ok codec s0 s" and "j < length (spc_bases s)"
    and "install_provider_candidate codec j c x draws s = Some r"
  shows "kept (safe_ok codec s0) r"
proof (cases "require_basis_current j s = Inr () \<and> apc_basis c = Some (basis_of s j) \<and>
    \<not> hdl_model_active (handle_of s (bas_handle (basis_of s j)))")
  case False
  with assms show ?thesis
    by (auto simp: install_provider_candidate_def Let_def split: sum.splits if_splits)
next
  case True
  let ?h = "bas_handle (basis_of s j)" and ?s = "set_model_active (bas_handle (basis_of s j)) True s"
  note cur = current_basis [OF assms(1) _ assms(2)]
  have open_h: "\<not> hdl_closed (handle_of s ?h)"
    using True cur(2) safe_okD(1,2) [OF assms(1)] assms(2) by (auto simp: handles_inv_def bases_inv_def)
  have s1: "safe_ok codec s0 ?s" by (rule model_kept [OF assms(1)]) simp
  from assms(3) True obtain q where q: "install_candidate codec c x draws ?s = Some q"
    by (auto simp: install_provider_candidate_def Let_def split: option.splits)
  have p: "owner_perform codec (Op_Install c x draws) ?s = Some (outcome q)" using q by simp
  note inv = called(1) [OF p s1] and same = called(2) [OF p s1]
  have prepared: "state_of_basis s k \<noteq> Basis_Installed" if "k < length (spc_bases s)" "bas_handle (basis_of s k) = ?h" for k
    using safe_okD(2) [OF assms(1)] that True open_h by (auto simp: bases_inv_def)
  obtain e t where et: "q = (e, t)" by (cases q)
  have t: "spc_bases t = spc_bases s" "spc_id t = spc_id s" "handle_of t = handle_of ?s"
    "length (spc_handles t) = length (spc_handles s)"
    using same et by (auto simp: same_points_def set_model_active_def update_handle_def handle_of_def fun_eq_iff)
  have b: "basis_of t = basis_of s" "state_of_basis t = state_of_basis s"
    using t(1) by (simp_all add: basis_of_def state_of_basis_def fun_eq_iff)
  have act: "hdl_model_active (handle_of t ?h)"
    using t safe_okD(2) [OF assms(1)] assms(2) by (auto simp: bases_inv_def point_defs)
  have st: "state_of_basis t j = Basis_Prepared" "bas_owner (basis_of t j) = spc_id t"
    using b t(2) True prepared [OF assms(2)] by (cases "state_of_basis s j"; auto simp: require_basis_current_def split: if_splits)+
  have "kept (safe_ok codec s0) (mark_installed j t)"
    using mark_installed_kept [of codec s0 t j] inv et assms(2) t(1) act b by simp
  moreover have "safe_ok codec s0 (set_model_active ?h False t)"
    using model_kept [of codec s0 t False ?h] inv et prepared t(1) b by simp
  moreover obtain u where "mark_installed j t = (Inr (), u)" using st by (simp add: mark_installed_def)
  ultimately show ?thesis using assms(3) True q et
    by (auto simp: install_provider_candidate_def Let_def split: sum.splits)
qed

lemma issue_provider_kept: "safe_ok codec s0 s \<Longrightarrow> kept (safe_ok codec s0) (issue_provider_transition j pl seed sem plan adm s)"
  unfolding issue_provider_transition_def by (intro kept_guarded calls_kept)

lemma register_provider_kept: "safe_ok codec s0 s \<Longrightarrow> kept (safe_ok codec s0) (register_provider_candidate codec j c s)"
  unfolding register_provider_candidate_def by (auto intro!: kept_guarded calls_kept)

lemma other_objects_kept:
  "safe_ok codec s0 s \<Longrightarrow> safe_ok codec s0 (s\<lparr>own_authorities := a\<rparr>)"
  "safe_ok codec s0 s \<Longrightarrow> safe_ok codec s0 (s\<lparr>own_releases := r\<rparr>)"
  "safe_ok codec s0 s \<Longrightarrow> safe_ok codec s0 (s\<lparr>own_next := n\<rparr>)"
  "safe_ok codec s0 s \<Longrightarrow> safe_ok codec s0 (s\<lparr>spc_canonical := x\<rparr>)"
  "safe_ok codec s0 s \<Longrightarrow> safe_ok codec s0 (s\<lparr>spc_capability := y\<rparr>)"
  "safe_ok codec s0 s \<Longrightarrow> safe_ok codec s0 (s\<lparr>spc_borrows := z\<rparr>)"
  by (auto simp: safe_ok_def safe_inv_def elim!: owner_inv_cong intro: points_inv_same simp: same_points_def)

lemma issue_adopted_kept: "safe_ok codec s0 s \<Longrightarrow> kept (safe_ok codec s0) (issue_adopted_seed h conf cand token read dest tail successor s)"
  unfolding issue_adopted_seed_def
  by (auto intro!: kept_guarded simp: Let_def other_objects_kept split: sum.splits option.splits)

section \<open>The resource owners\<close>

definition owner_kept :: "('v safe_point \<Rightarrow> bool) \<Rightarrow> 'r result \<times> 'o \<times> 'v safe_point \<Rightarrow> bool" where
  "owner_kept P r \<longleftrightarrow> P (snd (snd r))"

lemma owner_kept_simps [simp]: "owner_kept P (x, a, s) \<longleftrightarrow> P s" "owner_kept P (with_owner a r) \<longleftrightarrow> kept P r"
  by (simp_all add: owner_kept_def with_owner_def kept_def)

lemma owner_kept_case:
  "kept P r \<Longrightarrow> (\<And>e t. P t \<Longrightarrow> owner_kept P (f e t)) \<Longrightarrow> (\<And>x t. P t \<Longrightarrow> owner_kept P (g x t)) \<Longrightarrow>
   owner_kept P (case r of (Inl e, t) \<Rightarrow> f e t | (Inr x, t) \<Rightarrow> g x t)"
  by (auto split: prod.splits sum.splits)

lemma owner_kept_bind:
  "owner_kept P r \<Longrightarrow> (\<And>x d t. P t \<Longrightarrow> owner_kept P (f x d t)) \<Longrightarrow>
   owner_kept P (case r of (x, d, t) \<Rightarrow> f x d t)"
  by (auto split: prod.splits)

lemma owner_kept_case3:
  "owner_kept P r \<Longrightarrow> (\<And>e d t. P t \<Longrightarrow> owner_kept P (f e d t)) \<Longrightarrow> (\<And>x d t. P t \<Longrightarrow> owner_kept P (g x d t)) \<Longrightarrow>
   owner_kept P (case r of (Inl e, d, t) \<Rightarrow> f e d t | (Inr x, d, t) \<Rightarrow> g x d t)"
  by (auto split: prod.splits sum.splits)

lemmas steps_kept = kept_and_then kept_finally kept_except revoke_basis_kept close_handle_kept
  close_borrow_kept calls_kept

lemma take_resources_kept:
  "safe_ok codec s0 s \<Longrightarrow> (\<And>h b. kept (safe_ok codec s0) (f h b s)) \<Longrightarrow>
   owner_kept (safe_ok codec s0) (take_resources a f s)"
  by (auto simp: take_resources_def split: option.splits)

lemma execution_kept:
  assumes "safe_ok codec s0 s"
  shows "owner_kept (safe_ok codec s0) (execution_close released a s)"
    and "owner_kept (safe_ok codec s0) (execution_take_for_rotation released a s)"
    and "owner_kept (safe_ok codec s0) (execution_take_for_suffix a s)"
    and "owner_kept (safe_ok codec s0) (execution_finish_model released a s)"
  unfolding execution_close_def execution_take_for_rotation_def execution_take_for_suffix_def
    execution_finish_model_def
  by (rule take_resources_kept [OF assms], intro steps_kept assms, simp_all add: assms)+

lemma dispatch_close_kept:
  "safe_ok codec s0 s \<Longrightarrow> owner_kept (safe_ok codec s0) (dispatch_close released hook abandoned d s)"
  unfolding dispatch_close_def
  using execution_kept(1) [of codec s0 s released, unfolded owner_kept_def]
  by (auto simp: Let_def intro!: kept_finally calls_kept split: sum.splits)

lemma dry_abort_kept: "safe_ok codec s0 s \<Longrightarrow> kept (safe_ok codec s0) (dry_abort_if_owned a s)"
  unfolding dry_abort_if_owned_def by (auto intro: calls_kept)

lemma dry_kept:
  assumes "safe_ok codec s0 s"
  shows "owner_kept (safe_ok codec s0) (dry_close released a s)"
    and "owner_kept (safe_ok codec s0) (dry_take_for_rotation released a s)"
proof -
  show "owner_kept (safe_ok codec s0) (dry_close released a s)"
    unfolding dry_close_def using assms
    by (auto split: option.splits intro!: steps_kept dry_abort_kept)
  show "owner_kept (safe_ok codec s0) (dry_take_for_rotation released a s)"
    unfolding dry_take_for_rotation_def using assms
    by (auto split: option.splits intro!: owner_kept_case steps_kept dry_abort_kept)
qed

lemma projection_kept:
  assumes "safe_ok codec s0 s"
  shows "owner_kept (safe_ok codec s0) (projection_close released d s)"
    and "owner_kept (safe_ok codec s0) (projection_take_for_rotation released d s)"
    and "owner_kept (safe_ok codec s0) (close_after_adoption_none released d s)"
proof -
  show close: "owner_kept (safe_ok codec s0) (projection_close released d s)" for d
    using dry_kept(1) [OF assms, unfolded owner_kept_def] assms
    by (auto simp: projection_close_def Let_def split: option.splits)
  show "owner_kept (safe_ok codec s0) (projection_take_for_rotation released d s)"
    using dry_kept(2) [OF assms, unfolded owner_kept_def] assms
    by (auto simp: projection_take_for_rotation_def Let_def split: option.splits)
  show "owner_kept (safe_ok codec s0) (close_after_adoption_none released d s)"
    using close assms
    by (auto simp: close_after_adoption_none_def split: option.splits prod.splits sum.splits)
qed

lemma with_projection_kept:
  assumes "safe_ok codec s0 s" and "\<And>j h d. owner_kept (safe_ok codec s0) (f j h d s)"
  shows "owner_kept (safe_ok codec s0) (with_projection d f s)"
  using assms by (auto simp: with_projection_def split: prod.splits sum.splits)

lemma joined_settlement_kept:
  assumes "safe_ok codec s0 s" and "\<And>d. owner_kept (safe_ok codec s0) (f d s)"
  shows "owner_kept (safe_ok codec s0) (joined_settlement m d p f s)"
  unfolding joined_settlement_def using assms
  by (intro with_projection_kept) (auto split: sum.splits)

lemma issue_release_kept: "safe_ok codec s0 s \<Longrightarrow> issue_release x s = (i, t) \<Longrightarrow> safe_ok codec s0 t"
  by (auto simp: issue_release_def other_objects_kept)

lemma kept_result: "kept P r \<Longrightarrow> r = (x, t) \<Longrightarrow> P t"
  by simp

lemma owner_kept_result: "owner_kept P r \<Longrightarrow> r = (x, d, t) \<Longrightarrow> P t"
  by simp

lemma release_and_publish_kept:
  assumes "safe_ok codec s0 s" and "n \<noteq> []"
  shows "owner_kept (safe_ok codec s0) (release_and_publish released n st rv d s)"
  using projection_kept(1) [OF assms(1), of released d] assms(2)
  unfolding release_and_publish_def
  by (auto simp: Let_def split: prod.splits sum.splits dest: issue_release_kept intro!: calls_kept)

lemma settlements_kept:
  assumes "safe_ok codec s0 s"
  shows "n \<noteq> [] \<Longrightarrow> owner_kept (safe_ok codec s0) (settle_empty_full released n d p conf s)"
    and "owner_kept (safe_ok codec s0) (settle_empty_none released d p conf s)"
    and "owner_kept (safe_ok codec s0) (settle_empty_conflict released d p conf s)"
    and "owner_kept (safe_ok codec s0) (safe_begin_empty_adoption d token cand s)"
proof -
  show "owner_kept (safe_ok codec s0) (settle_empty_full released n d p conf s)" if "n \<noteq> []"
    unfolding settle_empty_full_def using assms that
    by (intro joined_settlement_kept owner_kept_case owner_kept_bind)
      (auto intro!: kept_except calls_kept release_and_publish_kept)
  show "owner_kept (safe_ok codec s0) (settle_empty_none released d p conf s)"
    unfolding settle_empty_none_def using assms
    by (intro joined_settlement_kept owner_kept_case) (auto intro!: calls_kept projection_kept)
  show "owner_kept (safe_ok codec s0) (settle_empty_conflict released d p conf s)"
    unfolding settle_empty_conflict_def using assms
    by (intro joined_settlement_kept owner_kept_case owner_kept_bind)
      (auto intro!: kept_finally calls_kept projection_kept)
  show "owner_kept (safe_ok codec s0) (safe_begin_empty_adoption d token cand s)"
    unfolding safe_begin_empty_adoption_def
    by (intro with_projection_kept [OF assms])
      (auto simp: assms split: option.splits intro!: kept_guarded calls_kept)
qed

lemma retire_without_kept:
  assumes "safe_ok codec s0 s" and "n \<noteq> []"
  shows "owner_kept (safe_ok codec s0) (retire_without_continuation outcomes verified n f ev dispatch s)"
proof -
  have closed: "owner_kept (safe_ok codec s0)
      (case dispatch of None \<Rightarrow> (Inr (), None, t)
       | Some d \<Rightarrow> (case outcomes of (released, hook, abandoned) \<Rightarrow>
           (case dispatch_close released hook abandoned d t of (r, d', u) \<Rightarrow> (r, Some d', u))))"
    if "safe_ok codec s0 t" for t
    using that by (cases dispatch; cases outcomes) (auto intro!: owner_kept_bind dispatch_close_kept)
  have publish: "kept (safe_ok codec s0)
      (let (i, v) = issue_release x u in publish_after_no_continuation f c revoked i (spc_id v) n v)"
    if "safe_ok codec s0 u" for x u c revoked
    using that by (auto simp: issue_release_def intro!: calls_kept other_objects_kept assms(2))
  have last: "kept (safe_ok codec s0)
      (if b then (Inl m, u)
       else (case verified of Inl e \<Rightarrow> (Inl e, u)
             | Inr _ \<Rightarrow> (let (i, v) = issue_release x u in
                 publish_after_no_continuation f c revoked i (spc_id v) n v)))"
    if "safe_ok codec s0 u" for u b m x c revoked
    using that publish [OF that] by (cases verified) simp_all
  have "safe_ok codec s0 (take_oid s)" using assms(1) by (simp add: take_oid_def other_objects_kept)
  then show ?thesis
    unfolding retire_without_continuation_def retire_rest_def
      Let_def [of "\<lparr>clo_oid = _, clo_fence = _, clo_evidence = _\<rparr>"]
    by (intro owner_kept_case owner_kept_case3 closed calls_kept) (simp_all add: last)
qed

section \<open>Reachable states\<close>

text \<open>
  Whatever the callers do and in whatever order: the calls of the safe point, of the resource
  owners and of the owner of the provider input, and the objects that others make.
\<close>

inductive safe_step :: "'v value_codec \<Rightarrow> 'v safe_point \<Rightarrow> 'v safe_point \<Rightarrow> bool"
  for codec :: "'v value_codec" and s :: "'v safe_point" where
  st_owner: "owner_perform codec op s = Some (b, t) \<Longrightarrow> drawn_ok op \<Longrightarrow> safe_step codec s t"
| st_freeze: "freeze_provider_input safe c s = (r, t) \<Longrightarrow> safe_step codec s t"
| st_prospective: "freeze_prospective_input k safe s = (r, t) \<Longrightarrow> safe_step codec s t"
| st_compaction: "freeze_compaction_input allow safe c s = (r, t) \<Longrightarrow> safe_step codec s t"
| st_batch: "freeze_pending_batch k safe s = (r, t) \<Longrightarrow> safe_step codec s t"
| st_rotate: "rotate_provider_input h safe c s = (r, t) \<Longrightarrow> safe_step codec s t"
| st_begin: "begin_model h s = (u, t) \<Longrightarrow> safe_step codec s t"
| st_close: "close_handle h s = (u, t) \<Longrightarrow> safe_step codec s t"
| st_seal: "seal_basis h co ka target s = (r, t) \<Longrightarrow> safe_step codec s t"
| st_revoke: "revoke_basis j s = (u, t) \<Longrightarrow> safe_step codec s t"
| st_issue: "issue_provider_transition j pl seed sem plan adm s = (x, t) \<Longrightarrow> safe_step codec s t"
| st_register: "register_provider_candidate codec j cand s = (u, t) \<Longrightarrow> safe_step codec s t"
| st_install: "install_provider_candidate codec j cand execution draws s = Some (p, t) \<Longrightarrow>
    j < length (spc_bases s) \<Longrightarrow> safe_step codec s t"
| st_seed: "issue_adopted_seed h conf adp token read dest tail successor s = (y, t) \<Longrightarrow> safe_step codec s t"
| st_execution_close: "execution_close rel a s = (u, a', t) \<Longrightarrow> safe_step codec s t"
| st_execution_rotate: "execution_take_for_rotation rel a s = (r, a', t) \<Longrightarrow> safe_step codec s t"
| st_execution_suffix: "execution_take_for_suffix a s = (q, a', t) \<Longrightarrow> safe_step codec s t"
| st_execution_finish: "execution_finish_model rel a s = (r, a', t) \<Longrightarrow> safe_step codec s t"
| st_dispatch_close: "dispatch_close rel hook abandoned d s = (u, d', t) \<Longrightarrow> safe_step codec s t"
| st_projection_close: "projection_close rel dry s = (u, dry', t) \<Longrightarrow> safe_step codec s t"
| st_projection_rotate: "projection_take_for_rotation rel dry s = (r, dry', t) \<Longrightarrow> safe_step codec s t"
| st_begin_adoption: "safe_begin_empty_adoption dry token adp s = (z, dry', t) \<Longrightarrow> safe_step codec s t"
| st_settle_full: "settle_empty_full rel n dry pending conf s = (u, dry', t) \<Longrightarrow> n \<noteq> [] \<Longrightarrow> safe_step codec s t"
| st_settle_none: "settle_empty_none rel dry pending conf s = (u, dry', t) \<Longrightarrow> safe_step codec s t"
| st_settle_conflict: "settle_empty_conflict rel dry pending conf s = (u, dry', t) \<Longrightarrow> safe_step codec s t"
| st_retire: "retire_without_continuation outcomes verified n f ev disp s = (u, disp', t) \<Longrightarrow> n \<noteq> [] \<Longrightarrow>
    safe_step codec s t"
| st_borrow_closed: "close_borrow rel i s = (u, t) \<Longrightarrow> safe_step codec s t"
| st_canonical_read: "safe_step codec s (s\<lparr>spc_canonical := spc_canonical s @
    [\<lparr>cob_canonical_read = read, cob_consumed = False\<rparr>]\<rparr>)"
| st_capability_cut: "safe_step codec s (s\<lparr>spc_capability := spc_capability s @
    [\<lparr>kob_dispatch_cut = kc, kob_surface_borrow = kb, kob_consumed = False\<rparr>]\<rparr>)"
| st_borrow: "safe_step codec s (s\<lparr>spc_borrows := spc_borrows s @ [False]\<rparr>)"

inductive safe_run :: "'v value_codec \<Rightarrow> 'v safe_point \<Rightarrow> bool" for codec :: "'v value_codec" where
  safe_start: "continuity_init src kind n = Inr c \<Longrightarrow> safe_run codec (safe_point_init i c)"
| safe_next: "safe_run codec s \<Longrightarrow> safe_step codec s t \<Longrightarrow> safe_run codec t"

lemma safe_step_ok:
  assumes "safe_step codec s t" and "safe_ok codec s0 s"
  shows "safe_ok codec s0 t"
  using assms(1)
proof (cases rule: safe_step.cases)
  case (st_install j cand execution draws p)
  from install_provider_kept [OF assms(2) st_install(2,1)] show ?thesis by simp
next
  case (st_owner op b)
  from owner_call_kept [OF st_owner(1) assms(2) st_owner(2)] show ?thesis .
qed (use assms(2) in \<open>auto simp: other_objects_kept
  dest: kept_result [OF freezes_kept(1)] kept_result [OF freezes_kept(2)] kept_result [OF freezes_kept(3)]
    kept_result [OF freezes_kept(4)] kept_result [OF rotate_kept] kept_result [OF begin_model_kept]
    kept_result [OF close_handle_kept] kept_result [OF seal_basis_kept] kept_result [OF revoke_basis_kept]
    kept_result [OF issue_provider_kept] kept_result [OF register_provider_kept]
    kept_result [OF issue_adopted_kept] kept_result [OF close_borrow_kept]
    owner_kept_result [OF execution_kept(1)] owner_kept_result [OF execution_kept(2)]
    owner_kept_result [OF execution_kept(3)] owner_kept_result [OF execution_kept(4)]
    owner_kept_result [OF dispatch_close_kept] owner_kept_result [OF projection_kept(1)]
    owner_kept_result [OF projection_kept(2)] owner_kept_result [OF settlements_kept(1)]
    owner_kept_result [OF settlements_kept(2)] owner_kept_result [OF settlements_kept(3)]
    owner_kept_result [OF settlements_kept(4)] owner_kept_result [OF retire_without_kept]\<close>)

lemma safe_start_inv:
  assumes "continuity_init src kind n = Inr c"
  shows "safe_inv codec (safe_point_init i c)"
proof -
  have "owner_inv codec (safe_point_init i c)"
  proof -
    have same: "own_session_id (safe_point_init i c) = own_session_id c"
      "own_writer_guard (safe_point_init i c) = own_writer_guard c"
      "own_slots (safe_point_init i c) = own_slots c" "own_closed (safe_point_init i c) = own_closed c"
      by (simp_all add: safe_point_init_def continuity.defs safe_point.defs)
    from continuity_init_inv(1) [OF assms, of codec] show ?thesis
      unfolding owner_inv_def slot_inv_def epoch_inv_def same .
  qed
  moreover have "points_inv (safe_point_init i c)"
    by (simp add: safe_point_init_def continuity.defs safe_point.defs points_inv_def handles_inv_def bases_inv_def)
  ultimately show ?thesis by (simp add: safe_inv_def)
qed

lemma safe_inv_ok: "safe_inv codec s \<Longrightarrow> safe_ok codec s s"
  by (simp add: safe_ok_def grows_def)

lemma safe_run_inv: "safe_run codec s \<Longrightarrow> safe_inv codec s"
proof (induction rule: safe_run.induct)
  case (safe_next s t)
  from safe_step_ok [OF safe_next.hyps(2) safe_inv_ok [OF safe_next.IH]] show ?case
    by (simp add: safe_ok_def)
qed (rule safe_start_inv)

text \<open>A later state of the same safe point.\<close>

definition later :: "'v value_codec \<Rightarrow> 'v safe_point \<Rightarrow> 'v safe_point \<Rightarrow> bool" where
  "later codec s t \<longleftrightarrow> (safe_step codec)\<^sup>*\<^sup>* s t"

lemma later_ok:
  assumes "later codec s t" and "safe_inv codec s"
  shows "safe_ok codec s t"
  using assms(1) unfolding later_def
  by (induction rule: rtranclp_induct) (auto intro: safe_step_ok safe_inv_ok [OF assms(2)])

end
