(* ===== verification/Continuity_Claims.thy ===== *)
theory Continuity_Claims
  imports Continuity_Paths
begin

text \<open>
  What the users of the provider-input owner rely on: one authority at a time, an installed
  prefix that is only ever extended, permits and adopted authorities that act once, a pending
  replay that cannot be lost, and a state machine whose quarantine lasts until the close.
\<close>

section \<open>A concrete run\<close>

text \<open>
  A first epoch over an empty scope and one append to it, with numbers for the values that the
  owner only compares.
\<close>

fun owner_steps ::
  "'v value_codec \<Rightarrow> 'v owner_op list \<Rightarrow> ('v, 'm) continuity_scheme \<Rightarrow>
   (('v owner_op \<times> bool) list \<times> ('v, 'm) continuity_scheme) option" where
  "owner_steps codec [] s = Some ([], s)"
| "owner_steps codec (op # ops) s =
     (if drawn_ok op \<and> known_objects op s then
        (case owner_perform codec op s of
           None \<Rightarrow> None
         | Some (b, t) \<Rightarrow>
             (case owner_steps codec ops t of None \<Rightarrow> None | Some (h, u) \<Rightarrow> Some ((op, b) # h, u)))
      else None)"

lemma owner_steps_run:
  "owner_steps codec ops s = Some (k, t) \<Longrightarrow> owner_run codec s h \<Longrightarrow> owner_run codec t (h @ k)"
proof (induction codec ops s arbitrary: h k t rule: owner_steps.induct)
  case (2 codec op ops s)
  then obtain b u k' where "owner_perform codec op s = Some (b, u)" "drawn_ok op" "known_objects op s"
    "owner_steps codec ops u = Some (k', t)" "k = (op, b) # k'"
    by (auto split: if_splits option.splits)
  with 2(1) [of "(b, u)" b u k' t "h @ [(op, b)]"] 2(3) run_call show ?case by fastforce
qed simp

definition demo_codec :: "nat value_codec" where
  "demo_codec =
     \<lparr>cod_tool_name = (\<lambda>_. lit ''t''), cod_tool_fingerprint = (\<lambda>_. lit ''f''),
      cod_logical_bytes = (\<lambda>_ _ ms. int (length ms)), cod_prefix_fingerprint = (\<lambda>p _ _. p),
      cod_placements_fingerprint = (\<lambda>_. lit ''p''), cod_head_kind = (\<lambda>h. [h])\<rparr>"

definition demo_scope :: continuity_scope where
  "demo_scope = \<lparr>csc_session_id = lit ''s'', csc_kind = Root_Scope\<rparr>"

definition demo_guard :: writer_guard where
  "demo_guard = \<lparr>wgd_session_id = lit ''s'', wgd_writer_generation = 1, wgd_writer_owner_id = lit ''w''\<rparr>"

definition demo_source :: "nat lease_source" where
  "demo_source = New_Session_Root_Lease \<lparr>wls_guard = demo_guard, wls_acquisition_kind = New_Session\<rparr>"

definition demo_print :: "nat \<Rightarrow> pystr" where
  "demo_print n = lit ''sha256:'' @ replicate 64 n"

definition demo_frontier :: "nat list \<Rightarrow> frontier" where
  "demo_frontier xs =
     \<lparr>cfr_binding_revision_id = lit ''b'', cfr_base_identity = demo_print 48,
      cfr_through_sequence = int (length xs), cfr_items = map demo_print xs\<rparr>"

definition demo_identity :: "nat input_identity" where
  "demo_identity =
     \<lparr>cid_session_id = lit ''s'', cid_turn_id = lit ''u'', cid_binding_revision_id = lit ''b'',
      cid_through_sequence = 1, cid_scope_kind = Root_Scope, cid_rest = 0\<rparr>"

definition demo_read :: "nat dispatch_read" where
  "demo_read =
     \<lparr>cdr_identity = demo_identity,
      cdr_binding = \<lparr>cbd_context_snapshot_id = None, cbd_binding_revision_id = lit ''b'',
                     cbd_source_through_sequence = 1, cbd_rest = 0\<rparr>,
      cdr_rest = 0\<rparr>"

definition demo_target :: "nat call_target" where
  "demo_target =
     \<lparr>ctg_oid = 0, ctg_session_id = lit ''s'', ctg_turn_id = lit ''u'', ctg_purpose = Agent_Model_Loop,
      ctg_bundle = \<lparr>ctb_wire_api = lit ''api'', ctb_rest = 0\<rparr>, ctg_input_budget = 100,
      ctg_rest = 0\<rparr>"

definition demo_basis :: "nat preparation_basis" where
  "demo_basis =
     \<lparr>bas_oid = 0, bas_owner = 0, bas_handle = 0, bas_canonical_read = demo_read,
      bas_capability_cut = 0, bas_call_target = demo_target, bas_surface_borrow = 0\<rparr>"

definition demo_compiled :: "nat list \<Rightarrow> nat compiled_input" where
  "demo_compiled ms =
     \<lparr>cmp_context_id = lit ''c'', cmp_identity = demo_identity, cmp_system_prompt = lit ''root'',
      cmp_messages = ms, cmp_placements = ms, cmp_tools = [7], cmp_source_decisions = [],
      cmp_tool_result_decisions = [], cmp_diagnostic_codes = [],
      cmp_source_collection_fingerprint = [], cmp_semantic_fingerprint = demo_print 49,
      cmp_binding_fingerprint = [], cmp_report = 0\<rparr>"

definition demo_wire :: "nat list \<Rightarrow> nat wire_plan" where
  "demo_wire ms =
     \<lparr>wpl_oid = 0, wpl_context_id = lit ''c'', wpl_semantic_fingerprint = demo_print 49,
      wpl_placements_fingerprint = lit ''p'',
      wpl_materialization = \<lparr>wmt_root_policy = 0, wmt_tool_items = [9], wmt_input_items = ms,
                             wmt_projection = 0\<rparr>,
      wpl_quote = \<lparr>wqt_wire_api = lit ''api'', wqt_budget_tokens = 100, wqt_rest = 0\<rparr>,
      wpl_rest = 0\<rparr>"

definition demo_exposure :: "nat exposure_plan" where
  "demo_exposure =
     \<lparr>xpl_oid = 0,
      xpl_projection_set =
        \<lparr>nps_provider_names = [lit ''t''],
         nps_projections = [\<lparr>npj_spec_fingerprint = lit ''f'', npj_wire_tool = 9, npj_rest = 0\<rparr>],
         nps_rest = 0\<rparr>,
      xpl_tool_specs = [7], xpl_rest = 0\<rparr>"

definition demo_lease :: "nat bootstrap_lease" where
  "demo_lease = \<lparr>lse_scope = demo_scope, lse_nonce = lit ''l'', lse_source = demo_source\<rparr>"

definition demo_reservation :: "nat empty_reservation" where
  "demo_reservation = \<lparr>rsv_oid = 0, rsv_lease = demo_lease, rsv_nonce = lit ''r''\<rparr>"

definition demo_planning :: "nat planning_input" where
  "demo_planning =
     \<lparr>pln_nonce = lit ''n'', pln_scope = demo_scope, pln_predecessor = Empty_Predecessor,
      pln_predecessor_view = None, pln_dispatch_anchor = 0, pln_delta = [demo_print 50],
      pln_reservation = Some demo_reservation\<rparr>"

definition demo_first :: "nat append_candidate" where
  "demo_first =
     \<lparr>apc_oid = 0, apc_planning = demo_planning,
      apc_transition = Empty_Cold_Start demo_scope demo_target demo_read demo_basis,
      apc_call_target = demo_target, apc_epoch_nonce = lit ''e'', apc_expected_revision = 0,
      apc_compiled = demo_compiled [1], apc_wire_plan = demo_wire [1],
      apc_exposure_plan = demo_exposure, apc_frontier = demo_frontier [50],
      apc_source_heads = [], apc_appended_count = 1, apc_basis = Some demo_basis\<rparr>"

definition demo_start :: "nat continuity" where
  "demo_start = (case continuity_init demo_source Root_Scope (lit ''l'') of Inr s \<Rightarrow> s)"

definition demo_opening :: "nat owner_op list" where
  "demo_opening =
     [Op_Freeze demo_scope (demo_frontier [50]) 0 False (lit ''r'') (lit ''n''),
      Op_Issue demo_planning (Some demo_basis) demo_target (Some (Canonical_Seed demo_read))
        (projection_of (demo_compiled [1])) (demo_wire [1]) None,
      Op_Register demo_first, Op_Install demo_first 5 [lit ''x'']]"

definition demo_view :: "nat epoch_view" where
  "demo_view = view_of_candidate demo_codec 1 (empty_slot demo_lease) demo_first"

definition demo_cohort :: "nat cohort" where
  "demo_cohort = \<lparr>coh_oid = 2, coh_view = demo_view, coh_bundle = ctg_bundle demo_target\<rparr>"

definition demo_permit :: install_permit where
  "demo_permit = \<lparr>pmt_oid = 3, pmt_scope = demo_scope, pmt_epoch_nonce = lit ''e'',
     pmt_epoch_revision = 1, pmt_nonce = lit ''x''\<rparr>"

definition demo_slot :: "nat slot" where
  "demo_slot = (empty_slot demo_lease)
     \<lparr>slt_state := INSTALLED, slt_lease := None, slt_installed := Some demo_cohort\<rparr>"

definition demo_open :: "nat continuity" where
  "demo_open =
     \<lparr>own_session_id = lit ''s'', own_writer_guard = demo_guard, own_slots = [lit ''s'' \<mapsto> demo_slot],
      own_permits =
        [(lit ''x'', \<lparr>isp_permit = demo_permit, isp_candidate = demo_first, isp_execution = 5\<rparr>)],
      own_closed = False, own_next = 4, own_authorities = [], own_releases = []\<rparr>"

text \<open>The fingerprints of the run are told apart without looking into them.\<close>

lemma demo_print_ok [simp]: "is_fingerprint (demo_print n)" "demo_print m = demo_print n \<longleftrightarrow> m = n"
  by (simp_all add: is_fingerprint_def demo_print_def lit_def)

lemmas demo_values =
  demo_codec_def demo_scope_def demo_guard_def demo_source_def demo_frontier_def demo_identity_def
  demo_read_def demo_target_def demo_basis_def demo_compiled_def demo_wire_def demo_exposure_def
  demo_lease_def demo_reservation_def demo_planning_def demo_first_def demo_start_def
  demo_opening_def demo_view_def demo_cohort_def demo_permit_def demo_slot_def demo_open_def

lemmas demo_steps =
  owner_ops continuity_init_def scope_post_init_def bootstrap_lease_init_def empty_slot_def
  freeze_planning_def planning_from_predecessor_def canonical_delta_def planning_post_init_def
  issue_transition_def issue_from_empty_def cold_start_issue_def register_candidate_def
  wire_joined_def wire_tools_def transition_checks_def same_scope_def apc_scope_def
  install_candidate_def view_of_candidate_def kept_fragments_def view_post_init_def
  install_slot_def permit_post_init_def the_epoch_def the_slot_def

lemma demo_opening_ok:
  "owner_steps demo_codec demo_opening demo_start = Some (map (\<lambda>op. (op, True)) demo_opening, demo_open)"
  by (simp add: demo_steps demo_values is_ok_def lit_def) (rule ext, simp)

lemma demo_start_ok: "continuity_init demo_source Root_Scope (lit ''l'') = Inr demo_start"
  by (simp add: demo_steps demo_values lit_def)

lemma demo_open_run: "owner_run demo_codec demo_open (map (\<lambda>op. (op, True)) demo_opening)"
  using owner_steps_run [OF demo_opening_ok run_init [OF demo_start_ok]] by simp

lemma demo_open_slot: "the_slot demo_open = Some demo_slot" "demo_scope = \<lparr>csc_session_id = own_session_id demo_open, csc_kind = Root_Scope\<rparr>"
  by (simp_all add: the_slot_def demo_open_def demo_scope_def)

text \<open>An append to the installed epoch.\<close>

definition demo_next_planning :: "nat planning_input" where
  "demo_next_planning =
     \<lparr>pln_nonce = lit ''m'', pln_scope = demo_scope, pln_predecessor = Installed_Predecessor,
      pln_predecessor_view = Some demo_view, pln_dispatch_anchor = 0, pln_delta = [demo_print 51],
      pln_reservation = None\<rparr>"

definition demo_second :: "nat append_candidate" where
  "demo_second =
     \<lparr>apc_oid = 1, apc_planning = demo_next_planning, apc_transition = Epoch_Append demo_cohort,
      apc_call_target = demo_target, apc_epoch_nonce = lit ''e'', apc_expected_revision = 1,
      apc_compiled = demo_compiled [1, 2], apc_wire_plan = demo_wire [1, 2],
      apc_exposure_plan = demo_exposure, apc_frontier = demo_frontier [50, 51],
      apc_source_heads = [], apc_appended_count = 1, apc_basis = Some demo_basis\<rparr>"

definition demo_prepared :: "nat continuity" where
  "demo_prepared = demo_open\<lparr>own_slots :=
     [lit ''s'' \<mapsto> demo_slot\<lparr>slt_state := PREPARED, slt_prepared := Some demo_second\<rparr>]\<rparr>"

lemma demo_register_ok:
  "owner_perform demo_codec (Op_Register demo_second) demo_open = Some (True, demo_prepared)"
  by (simp add: demo_steps append_checks_def require_prefix_of_def demo_values demo_next_planning_def
      demo_second_def demo_prepared_def is_ok_def lit_def)

definition demo_second_view :: "nat epoch_view" where
  "demo_second_view = view_of_candidate demo_codec 4 demo_slot demo_second"

definition demo_second_cohort :: "nat cohort" where
  "demo_second_cohort = \<lparr>coh_oid = 5, coh_view = demo_second_view, coh_bundle = ctg_bundle demo_target\<rparr>"

definition demo_extended :: "nat continuity" where
  "demo_extended = demo_open
     \<lparr>own_slots := [lit ''s'' \<mapsto> demo_slot\<lparr>slt_installed := Some demo_second_cohort\<rparr>],
      own_permits := own_permits demo_open @
        [(lit ''y'', \<lparr>isp_permit = \<lparr>pmt_oid = 6, pmt_scope = demo_scope, pmt_epoch_nonce = lit ''e'',
                                   pmt_epoch_revision = 2, pmt_nonce = lit ''y''\<rparr>,
                     isp_candidate = demo_second, isp_execution = 6\<rparr>)],
      own_next := 7\<rparr>"

lemma demo_extended_ok:
  "owner_perform demo_codec (Op_Install demo_second 6 [lit ''y'']) demo_prepared = Some (True, demo_extended)"
  by (simp add: demo_steps demo_values demo_next_planning_def demo_second_def demo_prepared_def
      demo_second_view_def demo_second_cohort_def demo_extended_def is_ok_def lit_def)

section \<open>One authority at a time\<close>

text \<open>
  Whatever calls have been made, the slot of a session holds exactly one of its bootstrap
  lease, the reservation of an empty preparation and an installed epoch (none only while an
  adoption that has lost its resources is settled or quarantined); it holds a prepared candidate
  exactly in the state \<open>PREPARED\<close>, and a pending replay only on an installed epoch.
\<close>

theorem continuity_one_authority:
  assumes "owner_run codec s h" and "the_slot s = Some sl"
  shows "(if settling_revoked sl then slt_lease sl = None \<and> slt_reservation sl = None \<and> slt_installed sl = None
      else length (filter id [slt_lease sl \<noteq> None, slt_reservation sl \<noteq> None, slt_installed sl \<noteq> None]) = 1) \<and>
    (slt_prepared sl \<noteq> None \<longleftrightarrow> slt_state sl = PREPARED) \<and>
    (slt_replay sl \<noteq> None \<longrightarrow> slt_state sl = INSTALLED) \<and> slt_state sl \<noteq> SLOT_CLOSED"
  using run_slot [OF assms]
  by (cases "slt_state sl") (auto simp: slot_inv_def shape_defs)

theorem continuity_one_authority_witness:
  "slt_installed demo_slot \<noteq> None \<and> slt_lease demo_slot = None \<and> slt_prepared demo_slot = None"
  using continuity_one_authority [OF demo_open_run demo_open_slot(1)]
  by (simp add: demo_slot_def empty_slot_def settling_revoked_def)

section \<open>The installed prefix\<close>

text \<open>
  C6. While an epoch stays installed, whatever calls are made and however they end, its
  provider input is only ever extended: the system root, the tools and the native tool
  projection stay, and the messages, the wire items, the canonical items and the replay fragments
  at a later time start with those seen earlier; at the same revision they are the same.
\<close>

theorem continuity_prefix_extends:
  assumes "owner_run codec s h" and "current_view sc s = Inr (Some v)"
    and "within_epoch codec (epv_epoch_nonce v) s t" and "current_view sc t = Inr (Some w)"
  shows "extends v w"
proof -
  from current_view_slot [OF assms(2)] current_view_slot [OF assms(4)] obtain a b where
    ab: "the_epoch s = Some a" "coh_view a = v" "the_epoch t = Some b" "coh_view b = w"
    by (auto simp: the_epoch_def)
  from within_extends [OF assms(3) owner_run_inv [OF assms(1)] ab(1)] ab show ?thesis by auto
qed

theorem continuity_prefix_extends_witness:
  "\<exists>s :: nat continuity. current_view demo_scope s = Inr (Some demo_second_view) \<and> extends demo_view demo_second_view \<and>
     epv_messages demo_second_view = [1, 2]"
proof -
  have n: "epv_epoch_nonce demo_view = lit ''e''" "epv_epoch_nonce demo_second_view = lit ''e''"
    by (simp_all add: demo_view_def demo_second_view_def view_of_candidate_def demo_first_def demo_second_def Let_def)
  have p: "the_epoch demo_prepared = Some demo_cohort" "coh_view demo_cohort = demo_view"
    by (simp_all add: the_epoch_def the_slot_def demo_prepared_def demo_open_def demo_slot_def demo_cohort_def)
  have "within_epoch demo_codec (epv_epoch_nonce demo_view) demo_open demo_prepared"
    by (rule within_call [OF within_stay demo_register_ok _ _ p(1)]) (simp_all add: p(2))
  then have w0: "within_epoch demo_codec (epv_epoch_nonce demo_view) demo_open demo_prepared" .
  have e: "the_epoch demo_extended = Some demo_second_cohort" "coh_view demo_second_cohort = demo_second_view"
    by (simp_all add: the_epoch_def the_slot_def demo_extended_def demo_open_def demo_slot_def demo_second_cohort_def)
  have w: "within_epoch demo_codec (epv_epoch_nonce demo_view) demo_open demo_extended"
    by (rule within_call [OF w0 demo_extended_ok _ _ e(1)]) (simp_all add: e(2) n)
  have c: "current_view demo_scope demo_open = Inr (Some demo_view)"
    "current_view demo_scope demo_extended = Inr (Some demo_second_view)"
    by (simp_all add: current_view_def require_scope_def slot_of_def installed_view_def demo_scope_def
        demo_open_def demo_extended_def demo_slot_def demo_cohort_def demo_second_cohort_def)
  have "epv_messages demo_second_view = [1, 2]"
    by (simp add: demo_second_view_def view_of_candidate_def demo_second_def demo_compiled_def Let_def)
  with continuity_prefix_extends [OF demo_open_run c(1) w c(2)] c(2) show ?thesis by blast
qed

section \<open>Permits\<close>

text \<open>
  C7. An install permit lets exactly one provider request out: when its consumption succeeds,
  its candidate has been installed before for the same execution, and no other call of the
  history has consumed or will consume the same permit.
\<close>

theorem continuity_permit_once:
  assumes "owner_run codec s (a @ (Op_Consume p c x, True) # b)"
  shows "(\<exists>draws. (Op_Install c x draws, True) \<in> set a) \<and>
    (Op_Consume p c' x', True) \<notin> set a \<union> set b"
  using run_permits [OF assms] by (auto simp: permits_once_def installed_by_def consumed_def)

theorem continuity_permit_once_witness:
  "\<exists>s t. owner_perform demo_codec (Op_Consume demo_permit demo_first 5) demo_open = Some (True, s) \<and>
     owner_perform demo_codec (Op_Consume demo_permit demo_first 5) s = Some (False, t) \<and>
     (\<exists>draws. (Op_Install demo_first 5 draws, True) \<in> set (map (\<lambda>op. (op, True)) demo_opening))"
proof -
  define s where "s = demo_open\<lparr>own_permits := []\<rparr>"
  have s: "owner_perform demo_codec (Op_Consume demo_permit demo_first 5) demo_open = Some (True, s)"
    "owner_perform demo_codec (Op_Consume demo_permit demo_first 5) s = Some (False, s)"
    by (simp_all add: s_def outcome_def consume_install_permit_def demo_open_def demo_permit_def is_ok_def)
  from run_call [OF demo_open_run s(1)] have
    "owner_run demo_codec s (map (\<lambda>op. (op, True)) demo_opening @ (Op_Consume demo_permit demo_first 5, True) # [])"
    by simp
  from continuity_permit_once [OF this] s show ?thesis by blast
qed

section \<open>Adopted authorities\<close>

fun spends :: "'v owner_op \<times> bool \<Rightarrow> nat \<Rightarrow> bool" where
  "spends (Op_Issue _ _ _ (Some (Adopted_Seed sd)) _ _ _, True) i \<longleftrightarrow> asd_authority sd = i"
| "spends _ i \<longleftrightarrow> False"

lemma spends_adopted: "spends e i \<Longrightarrow>
    \<exists>pl b d sd sem plan adm. e = (Op_Issue pl b d (Some (Adopted_Seed sd)) sem plan adm, True) \<and> asd_authority sd = i"
  by (cases "(e, i)" rule: spends.cases) auto

lemma spends_kind: "spends (op, b) i \<Longrightarrow> kind_of op = Issues"
  by (cases "((op, b), i)" rule: spends.cases) auto

definition used_authority :: "('v owner_op \<times> bool) list \<Rightarrow> nat \<Rightarrow> bool" where
  "used_authority h i \<longleftrightarrow> (\<exists>e \<in> set h. spends e i)"

definition authorities_inv :: "'v continuity \<Rightarrow> ('v owner_op \<times> bool) list \<Rightarrow> bool" where
  "authorities_inv s h \<longleftrightarrow>
     (\<forall>i. used_authority h i \<longrightarrow> i < length (own_authorities s) \<and> aut_consumed (own_authorities s ! i))"

definition authority_spent ::
  "'v adopted_seed \<Rightarrow> 'v cohort \<Rightarrow> 'v call_target \<Rightarrow> 'v continuity \<Rightarrow> 'v continuity \<Rightarrow> bool" where
  "authority_spent sd c d s t \<longleftrightarrow>
     (let i = asd_authority sd; a = own_authorities s ! i in
      \<not> aut_consumed a \<and> c = aut_predecessor a \<and> same_target d (aut_destination a) \<and>
      own_authorities t = (own_authorities s)[i := a\<lparr>aut_consumed := True\<rparr>])"

lemma consume_authority_result:
  assumes "consume_authority sd c d b s = (r, t)"
  shows "if is_ok r then authority_spent sd c d s t else t = s"
  using assms by (auto simp: consume_authority_def authority_spent_def Let_def split: if_splits)

lemma issue_authorities:
  assumes "issue_transition pl basis d seed sem plan adm s = (r, t)"
  shows "(\<exists>sd sl c. seed = Some (Adopted_Seed sd) \<and> is_ok r \<and> the_slot s = Some sl \<and>
            slt_installed sl = Some c \<and> slt_fence sl = None \<and> authority_spent sd c d s t) \<or>
    own_authorities t = own_authorities s \<and> \<not> (is_ok r \<and> (\<exists>sd. seed = Some (Adopted_Seed sd)))"
proof (cases "\<exists>sd sl c b. seed = Some (Adopted_Seed sd) \<and> the_slot s = Some sl \<and> slt_installed sl = Some c \<and>
    slt_fence sl = None \<and> basis = Some b \<and>
    (r, t) = and_then (consume_authority sd c d b s) (\<lambda>_ t. (Inr (Adopted_Successor c d sd), t))")
  case True
  then obtain sd sl c b where x: "seed = Some (Adopted_Seed sd)" "the_slot s = Some sl" "slt_installed sl = Some c"
    "slt_fence sl = None"
    "(r, t) = and_then (consume_authority sd c d b s) (\<lambda>_ t. (Inr (Adopted_Successor c d sd), t))" by blast
  obtain q u where qu: "consume_authority sd c d b s = (q, u)" by fastforce
  have "is_ok q = is_ok r \<and> u = t" using x(5) by (cases q) (auto simp: qu)
  with consume_authority_result [OF qu] x(1-4) show ?thesis by (auto split: if_splits)
next
  case False
  with assms show ?thesis
    unfolding issue_transition_def issue_from_empty_def issue_from_installed_def the_slot_def
    by (auto simp: owner_ops split: if_splits option.splits cold_seed.splits sum.splits)
qed

lemma used_authority_append [simp]: "used_authority (h @ k) i \<longleftrightarrow> used_authority h i \<or> used_authority k i"
  by (auto simp: used_authority_def)

definition authorities_once :: "('v owner_op \<times> bool) list \<Rightarrow> bool" where
  "authorities_once h \<longleftrightarrow>
     (\<forall>a e b i. h = a @ e # b \<longrightarrow> used_authority [e] i \<longrightarrow> \<not> used_authority (a @ b) i)"

lemma authorities_once_snoc:
  assumes "authorities_once h" and "\<And>i. used_authority [e] i \<Longrightarrow> \<not> used_authority h i"
  shows "authorities_once (h @ [e])"
  unfolding authorities_once_def
proof (intro allI impI)
  fix a f b i
  assume e: "h @ [e] = a @ f # b" and u: "used_authority [f] i"
  show "\<not> used_authority (a @ b) i"
  proof (cases b rule: rev_cases)
    case Nil
    with e assms(2) u show ?thesis by auto
  next
    case (snoc b' e')
    with e have h: "h = a @ [f] @ b'" and [simp]: "e' = e" by auto
    then have "\<not> used_authority (a @ b') i" using assms(1) [unfolded authorities_once_def, rule_format, of a f b' i] u by simp
    moreover have "\<not> used_authority [e] i" using assms(2) [of i] u h by (auto simp: used_authority_def)
    ultimately show ?thesis using snoc by simp
  qed
qed

lemma perform_authorities:
  assumes "owner_perform codec op s = Some (b, t)" and "owner_inv codec s" and "drawn_ok op"
    and "known_objects op s" and "authorities_inv s h"
  shows "authorities_inv t (h @ [(op, b)]) \<and> (\<forall>i. used_authority [(op, b)] i \<longrightarrow> \<not> used_authority h i)"
proof (cases "kind_of op = Issues")
  case False
  then have "own_authorities t = own_authorities s"
    using assms(1) perform_moves [OF assms(1-3)]
    by (cases "op = Op_Close") (auto simp: moves_def continuity_close_def)
  moreover have "\<not> used_authority [(op, b)] i" for i
    using False spends_kind [of op b i] by (auto simp: used_authority_def)
  ultimately show ?thesis using assms(5) by (simp add: authorities_inv_def)
next
  case True
  then obtain pl basis d seed sem plan adm where op: "op = Op_Issue pl basis d seed sem plan adm" by (cases op) auto
  with assms(1) obtain r where r: "issue_transition pl basis d seed sem plan adm s = (r, t)" "b = is_ok r"
    by (auto simp: outcome_eq)
  from issue_authorities [OF r(1)] show ?thesis
  proof (elim disjE exE conjE)
    fix sd sl c assume x: "seed = Some (Adopted_Seed sd)" "is_ok r" "authority_spent sd c d s t"
    have "asd_authority sd < length (own_authorities s)" using assms(4) op x(1) by simp
    moreover have "used_authority [(op, b)] i \<longleftrightarrow> i = asd_authority sd" for i
      using op x(1,2) r(2) by (auto simp: used_authority_def)
    ultimately show ?thesis using assms(5) x(3)
      by (auto simp: authorities_inv_def authority_spent_def Let_def nth_list_update)
  next
    assume "own_authorities t = own_authorities s" "\<not> (is_ok r \<and> (\<exists>sd. seed = Some (Adopted_Seed sd)))"
    moreover from this(2) have "\<not> used_authority [(op, b)] i" for i
      using op r(2) spends_adopted [of "(op, b)" i] by (auto simp: used_authority_def)
    ultimately show ?thesis using assms(5) by (simp add: authorities_inv_def)
  qed
qed

lemma run_authorities: "owner_run codec s h \<Longrightarrow> authorities_inv s h \<and> authorities_once h"
proof (induction rule: owner_run.induct)
  case (run_call s h op b t)
  from perform_authorities [OF run_call.hyps(2) owner_run_inv [OF run_call.hyps(1)] run_call.hyps(3,4)]
    run_call.IH authorities_once_snoc [of h "(op, b)"] show ?case by blast
next
  case (run_authority s h a)
  then show ?case by (auto simp: authorities_inv_def nth_append)
qed (auto simp: authorities_inv_def authorities_once_def used_authority_def)

text \<open>
  C10. An adopted authority opens at most one successor: when a transition is issued under an
  adopted seed, no earlier call of the history has used the authority of that seed (whichever of
  its variants it named), the installed epoch is the very cohort the authority was issued for, the
  destination is its destination, and no fence closes the scope to successors.
\<close>

theorem continuity_authority_once:
  assumes "owner_run codec s h" and "asd_authority sd < length (own_authorities s)"
    and "owner_perform codec (Op_Issue pl b d (Some (Adopted_Seed sd)) sem plan adm) s = Some (True, t)"
  shows "\<not> used_authority h (asd_authority sd) \<and>
    (\<exists>sl. the_slot s = Some sl \<and> slt_fence sl = None \<and>
       slt_installed sl = Some (aut_predecessor (own_authorities s ! asd_authority sd))) \<and>
    same_target d (aut_destination (own_authorities s ! asd_authority sd))"
proof -
  from assms(3) obtain r where r: "issue_transition pl b d (Some (Adopted_Seed sd)) sem plan adm s = (r, t)" "is_ok r"
    by (auto simp: outcome_eq)
  have "used_authority [(Op_Issue pl b d (Some (Adopted_Seed sd)) sem plan adm, True)] (asd_authority sd)"
    by (simp add: used_authority_def)
  with perform_authorities [OF assms(3) owner_run_inv [OF assms(1)]] assms(2) run_authorities [OF assms(1)]
  have "\<not> used_authority h (asd_authority sd)" by auto
  with issue_authorities [OF r(1)] r(2) show ?thesis by (auto simp: authority_spent_def Let_def)
qed

definition demo_adoption :: "nat adoption" where
  "demo_adoption =
     \<lparr>adp_oid = 0, adp_session_id = lit ''s'', adp_turn_id = lit ''u'', adp_scope_kind = Root_Scope,
      adp_snapshot_id = lit ''k'', adp_snapshot_through_sequence = 1, adp_binding_revision_id = lit ''b'',
      adp_predecessor_revision_id = lit ''b'', adp_rest = 0\<rparr>"

definition demo_authority :: "nat adopted_authority" where
  "demo_authority =
     \<lparr>aut_predecessor = demo_cohort, aut_destination = demo_target,
      aut_confirmation = \<lparr>cnf_oid = 0, cnf_kind = Adoption_Full, cnf_candidate = demo_adoption\<rparr>,
      aut_attempt_token = \<lparr>atk_oid = 0, atk_session_id = lit ''s'', atk_turn_id = lit ''u'',
                           atk_scope_kind = Root_Scope\<rparr>,
      aut_candidate = demo_adoption, aut_consumed = False\<rparr>"

definition demo_seed :: "nat adopted_seed" where
  "demo_seed = \<lparr>asd_dispatch_read = demo_read, asd_binding_rewrite_identity = lit ''i'',
                asd_tail_fingerprint = demo_print 52, asd_authority = 0\<rparr>"

definition demo_adopting :: "nat continuity" where
  "demo_adopting = demo_open\<lparr>own_authorities := [demo_authority]\<rparr>"

lemma demo_adopting_run: "owner_run demo_codec demo_adopting (map (\<lambda>op. (op, True)) demo_opening)"
  using run_authority [OF demo_open_run, of demo_authority]
  by (simp add: demo_adopting_def demo_authority_def demo_open_def)

lemma demo_adopted_issue:
  "owner_perform demo_codec (Op_Issue demo_next_planning (Some demo_basis) demo_target
       (Some (Adopted_Seed demo_seed)) (projection_of (demo_compiled [1])) (demo_wire [1]) None) demo_adopting
     = Some (True, demo_adopting\<lparr>own_authorities := [demo_authority\<lparr>aut_consumed := True\<rparr>]\<rparr>)"
  by (simp add: demo_steps demo_values demo_next_planning_def demo_adopting_def demo_authority_def
      demo_seed_def issue_from_installed_def consume_authority_def same_target_def is_ok_def lit_def)

theorem continuity_authority_once_witness:
  "\<not> used_authority (map (\<lambda>op. (op, True)) demo_opening) 0 \<and> the_slot demo_adopting = Some demo_slot \<and>
     slt_installed demo_slot = Some demo_cohort"
proof -
  have a: "asd_authority demo_seed = 0" "own_authorities demo_adopting = [demo_authority]"
    "the_slot demo_adopting = Some demo_slot"
    by (simp_all add: demo_seed_def demo_adopting_def the_slot_def demo_open_def)
  from continuity_authority_once [OF demo_adopting_run _ demo_adopted_issue] show ?thesis
    by (auto simp: a demo_authority_def)
qed

section \<open>The states of a slot\<close>

definition slot_edges :: "(slot_state \<times> slot_state) set" where
  "slot_edges =
     {(AUTHORIZED_EMPTY, PREPARING_EMPTY), (PREPARING_EMPTY, AUTHORIZED_EMPTY),
      (PREPARING_EMPTY, BOUND_EMPTY), (BOUND_EMPTY, AUTHORIZED_EMPTY), (BOUND_EMPTY, PREPARED),
      (INSTALLED, PREPARED), (PREPARED, INSTALLED), (PREPARED, AUTHORIZED_EMPTY),
      (INSTALLED, INSTALLED_NO_CONTINUATION_SETTLING),
      (INSTALLED_NO_CONTINUATION_SETTLING, AUTHORIZED_EMPTY),
      (PREPARING_EMPTY, EMPTY_ADOPTION_PENDING), (EMPTY_ADOPTION_PENDING, PREPARING_EMPTY),
      (EMPTY_ADOPTION_PENDING, EMPTY_ADOPTION_FULL_SETTLING),
      (EMPTY_ADOPTION_PENDING, EMPTY_ADOPTION_CONFLICT_SETTLING),
      (EMPTY_ADOPTION_FULL_SETTLING, AUTHORIZED_EMPTY),
      (EMPTY_ADOPTION_FULL_SETTLING, EMPTY_ADOPTION_RESOURCE_RELEASE_QUARANTINE),
      (EMPTY_ADOPTION_CONFLICT_SETTLING, EMPTY_ADOPTION_RESOURCE_RELEASE_QUARANTINE)}"

lemma edge_step:
  assumes "slot_step rel codec s sl sl'" and "slot_inv codec s sl"
  shows "slt_state sl' = slt_state sl \<or> (slt_state sl, slt_state sl') \<in> slot_edges"
  using assms(1)
proof (cases rule: slot_step.cases)
  case (step_register c b)
  from transition_checks_state [OF this(6)] this(1) show ?thesis
    by (auto simp: slot_edges_def split: if_splits)
next
  case (step_install c)
  then show ?thesis using assms(2)
    by (cases "slt_state sl") (auto simp: slot_inv_def shape_defs slot_edges_def install_slot_def Let_def)
next
  case (step_observe h revision a m)
  then show ?thesis by (auto simp: observe_anchor_slot_def Let_def split: option.splits)
next
  case (step_quarantine)
  then show ?thesis using assms(2)
    by (cases "slt_state sl") (auto simp: slot_inv_def shape_defs slot_edges_def)
next
  case (step_discard_cold c r)
  then show ?thesis using assms(2)
    by (cases "slt_state sl") (auto simp: slot_inv_def shape_defs slot_edges_def)
next
  case (step_discard_successor c)
  then show ?thesis using assms(2)
    by (cases "slt_state sl") (auto simp: slot_inv_def shape_defs slot_edges_def)
qed (auto simp: slot_edges_def)

lemma perform_slot:
  assumes "owner_perform codec op s = Some (b, t)" and "owner_inv codec s" and "drawn_ok op"
    and "op \<noteq> Op_Close" and "the_slot s = Some sl"
  shows "\<exists>sl'. the_slot t = Some sl' \<and> (sl' = sl \<or> slot_step (kind_of op) codec s sl sl')"
  using perform_moves [OF assms(1-4)] assms(5) by (auto simp: moves_def the_slot_def)

text \<open>
  C11. Every call except the close of the owner leaves the slot in its state or moves it along an
  edge of the state machine. So a registered candidate can only come from a bound empty
  preparation or from an installed epoch. An adoption in conflict settles in quarantine only, and a
  quarantined slot stays quarantined, until the owner is closed. The close, which is no edge of the
  machine, drops the slot from any state and leaves the owner closed.
\<close>

theorem continuity_state_machine:
  assumes "owner_run codec s h" and "owner_perform codec op s = Some (b, t)" and "drawn_ok op"
    and "the_slot s = Some sl"
  shows "if op = Op_Close then the_slot t = None \<and> own_closed t
    else \<exists>sl'. the_slot t = Some sl' \<and>
      (slt_state sl' = slt_state sl \<or> (slt_state sl, slt_state sl') \<in> slot_edges) \<and>
      (slt_state sl = EMPTY_ADOPTION_CONFLICT_SETTLING \<longrightarrow> slt_state sl' \<in>
         {EMPTY_ADOPTION_CONFLICT_SETTLING, EMPTY_ADOPTION_RESOURCE_RELEASE_QUARANTINE}) \<and>
      (slt_state sl = EMPTY_ADOPTION_RESOURCE_RELEASE_QUARANTINE \<longrightarrow>
         slt_state sl' = EMPTY_ADOPTION_RESOURCE_RELEASE_QUARANTINE)"
proof (cases "op = Op_Close")
  case True
  then show ?thesis using assms(2) by (auto simp: continuity_close_def the_slot_def)
next
  case False
  from perform_slot [OF assms(2) owner_run_inv [OF assms(1)] assms(3) False assms(4)]
    edge_step run_slot [OF assms(1,4)]
  obtain sl' where "the_slot t = Some sl'"
    "slt_state sl' = slt_state sl \<or> (slt_state sl, slt_state sl') \<in> slot_edges" by blast
  then show ?thesis using False by (auto simp: slot_edges_def)
qed

theorem continuity_state_machine_witness:
  "\<exists>sl'. the_slot demo_prepared = Some sl' \<and> (INSTALLED, slt_state sl') \<in> slot_edges"
  using continuity_state_machine [OF demo_open_run demo_register_ok _ demo_open_slot(1)]
  by (simp add: the_slot_def demo_prepared_def demo_open_def demo_slot_def)

section \<open>Pending replays\<close>

lemma installed_open:
  "owner_run codec s h \<Longrightarrow> the_slot s = Some sl \<Longrightarrow> \<not> own_closed s"
  using owner_run_inv by (force simp: owner_inv_def the_slot_def)

lemma view_with_fragment:
  assumes "view_post_init codec v = Inr ()" and "fragments_of (frg_entry_id f) v = []"
  shows "view_post_init codec (v\<lparr>epv_oid := i, epv_fragments := epv_fragments v @ [f]\<rparr>) = Inr ()"
  using assms
  by (auto simp: view_post_init_def Let_def fragments_of_def filter_empty_conv split: if_splits sum.splits)

lemma replay_slot:
  assumes "owner_run codec s h" and "the_slot s = Some sl" and "slt_replay sl = Some r"
  obtains e where "slt_state sl = INSTALLED" "slt_installed sl = Some e" "slt_prepared sl = None"
    "csc_session_id (rrs_scope r) = own_session_id s" "view_post_init codec (coh_view e) = Inr ()"
    "rrs_epoch_nonce r = epv_epoch_nonce (coh_view e)" "rrs_epoch_revision r = epv_epoch_revision (coh_view e)"
    "fragments_of (frg_entry_id (rrs_fragment r)) (coh_view e) = (if rrs_already_bound r then [rrs_fragment r] else [])"
  using run_slot [OF assms(1,2)] assms(3)
  by (cases "slt_state sl") (auto simp: slot_inv_def shape_defs epoch_inv_def split: option.splits)

lemma replay_step:
  assumes "slot_step rel codec s sl sl'" and "rel \<noteq> Replay" and "slot_inv codec s sl"
    and "slt_replay sl = Some r"
  shows "slt_replay sl' = Some r"
  using assms(1)
proof (cases rule: slot_step.cases)
  case (step_observe h revision a m)
  then show ?thesis using assms(4) by (auto simp: observe_anchor_slot_def Let_def split: option.splits)
next
  case (step_install c)
  then show ?thesis using assms(4) by (simp add: install_slot_def Let_def)
qed (use assms(2-4) in \<open>auto simp: slot_inv_def shape_defs\<close>)

lemma other_replay:
  assumes "the_slot s = Some sl" and "slt_replay sl = Some r" and "q \<noteq> r"
  shows "promote_replay codec q s = (x, t) \<Longrightarrow> t = s" and "release_replay q s = (y, u) \<Longrightarrow> u = s"
  using assms unfolding promote_replay_def release_replay_def
  by (auto simp: owner_ops the_slot_def split: if_splits option.splits)

lemma fragments_of_member: "fragments_of x v = [f] \<Longrightarrow> f \<in> set (epv_fragments v)"
  by (auto simp: fragments_of_def filter_eq_Cons_iff)

text \<open>
  C9. A reserved replay fragment is not lost and its promotion cannot be refused: every call
  but its own promotion, its release and the close of the owner leaves the reservation pending;
  and whenever it is pending its promotion returns, after which the installed epoch holds the
  fragment (appended, unless the epoch held it already) and the reservation is settled.
\<close>

theorem continuity_replay_kept:
  assumes "owner_run codec s h" and "the_slot s = Some sl" and "slt_replay sl = Some r"
  shows "(\<forall>op b t. op \<notin> {Op_Promote r, Op_Release r, Op_Close} \<and> drawn_ok op \<and>
            owner_perform codec op s = Some (b, t) \<longrightarrow>
            (\<exists>sl'. the_slot t = Some sl' \<and> slt_replay sl' = Some r)) \<and>
    (\<exists>t sl' e e'. promote_replay codec r s = (Inr (), t) \<and> the_slot t = Some sl' \<and> slt_replay sl' = None \<and>
       slt_installed sl = Some e \<and> slt_installed sl' = Some e' \<and>
       epv_fragments (coh_view e') = epv_fragments (coh_view e) @
         (if rrs_already_bound r then [] else [rrs_fragment r]) \<and>
       rrs_fragment r \<in> set (epv_fragments (coh_view e')))"
proof (rule conjI, intro allI impI, elim conjE)
  fix op b t
  assume op: "op \<notin> {Op_Promote r, Op_Release r, Op_Close}" "drawn_ok op" "owner_perform codec op s = Some (b, t)"
  show "\<exists>sl'. the_slot t = Some sl' \<and> slt_replay sl' = Some r"
  proof (cases "kind_of op = Replay")
    case True
    then obtain q where "op = Op_Promote q \<or> op = Op_Release q" "q \<noteq> r" using op(1) by (cases op) auto
    with op(3) other_replay [OF assms(2,3)] have "t = s" by (auto simp: outcome_eq)
    with assms show ?thesis by blast
  next
    case False
    with perform_slot [OF op(3) owner_run_inv [OF assms(1)] op(2) _ assms(2)] op(1)
      replay_step [OF _ False run_slot [OF assms(1,2)] assms(3)] assms(3) show ?thesis by blast
  qed
next
  from replay_slot [OF assms] obtain e where e: "slt_state sl = INSTALLED" "slt_installed sl = Some e"
    "csc_session_id (rrs_scope r) = own_session_id s" "view_post_init codec (coh_view e) = Inr ()"
    "rrs_epoch_nonce r = epv_epoch_nonce (coh_view e)" "rrs_epoch_revision r = epv_epoch_revision (coh_view e)"
    "fragments_of (frg_entry_id (rrs_fragment r)) (coh_view e) = (if rrs_already_bound r then [rrs_fragment r] else [])" .
  have slot: "own_slots s (own_session_id s) = Some sl" using assms(2) by (simp add: the_slot_def)
  note run = promote_replay_def owner_ops the_slot_def installed_open [OF assms(1,2)] assms(3) e(1,2,3,5,6) slot
  show "\<exists>t sl' e e'. promote_replay codec r s = (Inr (), t) \<and> the_slot t = Some sl' \<and> slt_replay sl' = None \<and>
       slt_installed sl = Some e \<and> slt_installed sl' = Some e' \<and>
       epv_fragments (coh_view e') = epv_fragments (coh_view e) @
         (if rrs_already_bound r then [] else [rrs_fragment r]) \<and>
       rrs_fragment r \<in> set (epv_fragments (coh_view e'))"
  proof (cases "rrs_already_bound r")
    case True
    with e(7) have "fragments_of (frg_entry_id (rrs_fragment r)) (coh_view e) = [rrs_fragment r]" by simp
    moreover note fragments_of_member [OF this]
    ultimately show ?thesis using True by (simp add: run)
  next
    case False
    with e(7) have none: "fragments_of (frg_entry_id (rrs_fragment r)) (coh_view e) = []" by simp
    with view_with_fragment [OF e(4)] have
      "view_post_init codec (coh_view (with_fragment (own_next s) (rrs_fragment r) e)) = Inr ()"
      by (simp add: with_fragment_def)
    with False none show ?thesis by (simp add: run with_fragment_def)
  qed
qed

definition demo_fragment :: "nat replay_fragment" where
  "demo_fragment = \<lparr>frg_entry_id = lit ''g'', frg_rest = 0\<rparr>"

definition demo_replay :: "nat replay_reservation" where
  "demo_replay =
     \<lparr>rrs_oid = 4, rrs_scope = demo_scope, rrs_epoch_nonce = lit ''e'', rrs_epoch_revision = 1,
      rrs_fragment = demo_fragment, rrs_nonce = lit ''q'', rrs_already_bound = False\<rparr>"

definition demo_settling :: "nat continuity" where
  "demo_settling = demo_open
     \<lparr>own_slots := [lit ''s'' \<mapsto> demo_slot\<lparr>slt_replay := Some demo_replay\<rparr>], own_next := 5\<rparr>"

lemma demo_reserve_ok:
  "owner_perform demo_codec (Op_Reserve demo_scope (lit ''e'') 1 demo_fragment (lit ''q'')) demo_open
     = Some (True, demo_settling)"
  by (simp add: demo_steps demo_values reserve_replay_def installed_view_def fragments_of_def
      replay_reservation_init_def demo_fragment_def demo_replay_def demo_settling_def is_ok_def lit_def)

theorem continuity_replay_kept_witness:
  "\<exists>t. promote_replay demo_codec demo_replay demo_settling = (Inr (), t) \<and>
     map_option (epv_fragments \<circ> coh_view) (the_epoch t) = Some [demo_fragment]"
proof -
  have run: "owner_run demo_codec demo_settling
      (map (\<lambda>op. (op, True)) demo_opening @ [(Op_Reserve demo_scope (lit ''e'') 1 demo_fragment (lit ''q''), True)])"
    by (rule run_call [OF demo_open_run demo_reserve_ok]) simp_all
  have slot: "the_slot demo_settling = Some (demo_slot\<lparr>slt_replay := Some demo_replay\<rparr>)"
    by (simp add: the_slot_def demo_settling_def demo_open_def)
  have "epv_fragments demo_view = []"
    by (simp add: demo_view_def view_of_candidate_def kept_fragments_def empty_slot_def Let_def)
  with continuity_replay_kept [OF run slot, of demo_replay] show ?thesis
    by (fastforce simp: the_epoch_def demo_slot_def demo_cohort_def demo_replay_def)
qed

section \<open>Discarding a candidate\<close>

text \<open>
  A prepared candidate can always be given back: its discard returns (the error of a lost
  reservation cannot occur), leaves no candidate, and restores what the candidate was prepared
  on: the installed epoch unchanged, or the bootstrap lease that its preparation had taken.
\<close>

theorem continuity_discard_restores:
  assumes "owner_run codec s h" and "the_slot s = Some sl" and "slt_prepared sl = Some c"
  shows "\<exists>t sl'. discard_candidate c s = (Inr (), t) \<and> the_slot t = Some sl' \<and> slt_prepared sl' = None \<and>
    slt_installed sl' = slt_installed sl \<and>
    (if slt_installed sl = None
     then slt_state sl' = AUTHORIZED_EMPTY \<and> slt_lease sl' \<noteq> None \<and>
          slt_lease sl' = map_option rsv_lease (slt_reservation sl)
     else slt_state sl' = INSTALLED)"
proof -
  note inv = run_slot [OF assms(1,2)]
  then have "slt_state sl = PREPARED" using assms(3)
    by (cases "slt_state sl") (auto simp: slot_inv_def shape_defs)
  with inv assms(3) have x: "slt_reservation sl \<noteq> None \<longleftrightarrow> slt_installed sl = None"
    "is_cold_start (apc_transition c) = (slt_installed sl = None)"
    "csc_session_id (apc_scope c) = own_session_id s"
    by (auto simp: slot_inv_def shape_defs prepared_joined_def epoch_inv_def)
  have "own_slots s (own_session_id s) = Some sl" using assms(2) by (simp add: the_slot_def)
  with x assms(3) show ?thesis
    by (cases "slt_installed sl") (auto simp: discard_candidate_def owner_ops the_slot_def)
qed

theorem continuity_discard_restores_witness:
  "\<exists>t sl'. discard_candidate demo_second demo_prepared = (Inr (), t) \<and> the_slot t = Some sl' \<and>
     slt_state sl' = INSTALLED \<and> slt_installed sl' = Some demo_cohort"
proof -
  have run: "owner_run demo_codec demo_prepared
      (map (\<lambda>op. (op, True)) demo_opening @ [(Op_Register demo_second, True)])"
    by (rule run_call [OF demo_open_run demo_register_ok]) simp_all
  have slot: "the_slot demo_prepared = Some (demo_slot\<lparr>slt_state := PREPARED, slt_prepared := Some demo_second\<rparr>)"
    by (simp add: the_slot_def demo_prepared_def demo_open_def)
  from continuity_discard_restores [OF run slot, of demo_second] show ?thesis
    by (auto simp: demo_slot_def)
qed

section \<open>Where a lease comes from\<close>

text \<open>
  A lease was issued at the start of the session, or for the adoption of a context base that has
  been confirmed in full, by the writer of the session and for exactly its snapshot and binding.
\<close>

definition lease_issued :: "writer_guard \<Rightarrow> 'v bootstrap_lease \<Rightarrow> bool" where
  "lease_issued g l \<longleftrightarrow>
     (case lse_source l of
        Adopted_Base_Lease g' conf snapshot binding \<Rightarrow>
          g' = g \<and> cnf_kind conf = Adoption_Full \<and> snapshot = adp_snapshot_id (cnf_candidate conf) \<and>
          binding = adp_binding_revision_id (cnf_candidate conf)
      | src \<Rightarrow> source_guard src = g)"

definition leases_issued :: "writer_guard \<Rightarrow> 'v slot \<Rightarrow> bool" where
  "leases_issued g sl \<longleftrightarrow>
     (\<forall>l. slt_lease sl = Some l \<or> map_option rsv_lease (slt_reservation sl) = Some l \<longrightarrow> lease_issued g l)"

lemma leases_step:
  assumes "slot_step rel codec s sl sl'" and "slot_inv codec s sl" and "leases_issued (own_writer_guard s) sl"
  shows "leases_issued (own_writer_guard s) sl'"
  using assms(1)
proof (cases rule: slot_step.cases)
  case (step_install c)
  then show ?thesis by (simp add: leases_issued_def install_slot_def Let_def)
next
  case (step_observe h revision a m)
  then show ?thesis using assms(3)
    by (auto simp: leases_issued_def observe_anchor_slot_def Let_def split: option.splits)
next
  case (step_publish_adoption st r lease)
  then have "stl_kind st = Adoption_Full" "settling_init st = Inr ()" "slt_reservation sl = None"
    using assms(2) by (auto simp: slot_inv_def shape_defs)
  with step_publish_adoption show ?thesis
    by (auto simp: leases_issued_def lease_issued_def settling_init_def split: if_splits)
next
  case (step_publish_closure f c r lease)
  then have "fence_init f = Inr ()" using assms(2) by (auto simp: slot_inv_def epoch_inv_def)
  then have "cnf_kind (fnc_confirmation f) = Adoption_Full" "cnf_candidate (fnc_confirmation f) = fnc_candidate f"
    "adp_snapshot_id (fnc_candidate f) = fnc_snapshot_id f"
    "adp_binding_revision_id (fnc_candidate f) = fnc_binding_revision_id f"
    by (auto simp: fence_init_def Let_def split: if_splits)
  with step_publish_closure show ?thesis by (auto simp: leases_issued_def lease_issued_def)
qed (use assms(3) in \<open>auto simp: leases_issued_def\<close>)

lemma run_leases:
  "owner_run codec s h \<Longrightarrow> case the_slot s of None \<Rightarrow> True | Some sl \<Rightarrow> leases_issued (own_writer_guard s) sl"
proof (induction rule: owner_run.induct)
  case (run_init src kind n s)
  then show ?case
    by (auto simp: continuity_init_def Let_def map_sum_Inr the_slot_def leases_issued_def lease_issued_def
        empty_slot_def bootstrap_lease_init_def split: lease_source.splits if_splits sum.splits)
next
  case (run_call s h op b t)
  note inv = owner_run_inv [OF run_call.hyps(1)]
  show ?case
  proof (cases "op = Op_Close \<or> the_slot s = None")
    case True
    then show ?thesis using run_call.hyps(2) perform_moves [OF run_call.hyps(2) inv run_call.hyps(3)]
      by (cases "op = Op_Close") (auto simp: continuity_close_def the_slot_def moves_def)
  next
    case False
    then obtain sl where sl: "the_slot s = Some sl" by blast
    have m: "moves (kind_of op) codec s t" using perform_moves [OF run_call.hyps(2) inv run_call.hyps(3)] False by blast
    with perform_slot [OF run_call.hyps(2) inv run_call.hyps(3) _ sl] False obtain sl' where
      "the_slot t = Some sl'" "sl' = sl \<or> slot_step (kind_of op) codec s sl sl'" by blast
    with leases_step [OF _ run_slot [OF run_call.hyps(1) sl]] run_call.IH sl m show ?thesis
      by (auto simp: moves_def)
  qed
qed (auto simp: the_slot_def split: option.splits)

text \<open>
  C8. No call sequence forges a beginning: a bootstrap lease that a slot holds, or that a
  pending preparation has taken, was issued at the start of the session or for an adoption that
  was confirmed in full, for exactly the snapshot and the binding revision of that adoption and
  for the writer of the session.
\<close>

theorem continuity_lease_issued:
  assumes "owner_run codec s h" and "the_slot s = Some sl"
    and "slt_lease sl = Some l \<or> map_option rsv_lease (slt_reservation sl) = Some l"
  shows "lease_issued (own_writer_guard s) l"
  using run_leases [OF assms(1)] assms(2,3) by (auto simp: leases_issued_def)

theorem continuity_lease_issued_witness:
  "the_slot demo_start = Some (empty_slot demo_lease) \<and> lease_issued demo_guard demo_lease"
proof -
  have s: "the_slot demo_start = Some (empty_slot demo_lease)" "own_writer_guard demo_start = demo_guard"
    by (simp_all add: demo_steps demo_values lit_def)
  from continuity_lease_issued [OF run_init [OF demo_start_ok] s(1), of demo_lease] s show ?thesis
    by (simp add: empty_slot_def)
qed

end
