(* ===== verification/Safe_Point_Claims.thy ===== *)
theory Safe_Point_Claims
  imports Safe_Point_Safety Continuity_Claims
begin

text \<open>
  What the users of the safe point rely on: one preparation at a time, capabilities that stay
  revoked, one installation per basis, and settlements of an adoption that end in a fresh lease
  or leave no way to use the old input.
\<close>

section \<open>A concrete run\<close>

text \<open>
  The run of Continuity_Claims under a safe point: a handle, the observations of a read and of the
  tools, and a basis sealed over them, after the planning of an empty scope.
\<close>

lemma owner_steps_safe:
  "owner_steps codec ops s = Some (k, t) \<Longrightarrow> safe_run codec s \<Longrightarrow> safe_run codec t"
proof (induction codec ops s arbitrary: k t rule: owner_steps.induct)
  case (2 codec op ops s)
  then obtain b u k' where "owner_perform codec op s = Some (b, u)" "drawn_ok op" "known_objects op s"
    "owner_steps codec ops u = Some (k', t)"
    by (auto split: if_splits option.splits)
  with 2(1) [of "(b, u)" b u k' t] 2(3) safe_next st_owner show ?case by blast
qed simp

definition demo_cut :: input_cut where
  "demo_cut = \<lparr>cut_session_id = lit ''s'', cut_turn_id = lit ''u'', cut_binding_revision_id = lit ''b'',
     cut_through_sequence = 1\<rparr>"

definition demo_idle :: "nat safe_point" where
  "demo_idle = safe_point_init 0 demo_start"

definition demo_planned :: "nat safe_point" where
  "demo_planned = demo_idle
     \<lparr>own_slots := [lit ''s'' \<mapsto> (empty_slot demo_lease)\<lparr>slt_lease := None,
        slt_reservation := Some demo_reservation, slt_state := PREPARING_EMPTY\<rparr>], own_next := 1\<rparr>"

definition demo_sealing :: "nat safe_point" where
  "demo_sealing = demo_planned
     \<lparr>spc_generation := 1, spc_active_handle := Some 0,
      spc_handles := [\<lparr>hdl_cut = demo_cut, hdl_generation = 1, hdl_model_active = False, hdl_closed = False\<rparr>],
      spc_canonical := [\<lparr>cob_canonical_read = demo_read, cob_consumed = False\<rparr>],
      spc_capability := [\<lparr>kob_dispatch_cut = 0, kob_surface_borrow = 0, kob_consumed = False\<rparr>],
      spc_borrows := [False]\<rparr>"

definition demo_point :: "nat safe_point" where
  "demo_point = demo_sealing
     \<lparr>spc_canonical := [\<lparr>cob_canonical_read = demo_read, cob_consumed = True\<rparr>],
      spc_capability := [\<lparr>kob_dispatch_cut = 0, kob_surface_borrow = 0, kob_consumed = True\<rparr>],
      spc_bases := [(demo_basis, Basis_Prepared)], spc_active_basis := Some 0\<rparr>"

lemmas demo_points = demo_cut_def demo_idle_def demo_planned_def demo_sealing_def demo_point_def
  safe_point_init_def continuity.defs safe_point.defs

lemma demo_idle_run: "safe_run demo_codec demo_idle"
  unfolding demo_idle_def by (rule safe_start [OF demo_start_ok])

lemma demo_sealing_run: "safe_run demo_codec demo_sealing"
proof -
  have a: "owner_perform demo_codec (Op_Freeze demo_scope (demo_frontier [50]) 0 False (lit ''r'') (lit ''n'')) demo_idle
      = Some (True, demo_planned)"
    by (simp add: demo_points demo_steps demo_values is_ok_def lit_def)
  define b where "b = demo_planned\<lparr>spc_generation := 1, spc_active_handle := Some 0,
      spc_handles := [\<lparr>hdl_cut = demo_cut, hdl_generation = 1, hdl_model_active = False, hdl_closed = False\<rparr>]\<rparr>"
  have b: "freeze_provider_input (Inr ()) (Inr demo_cut) demo_planned = (Inr 0, b)"
    by (simp add: b_def freeze_provider_input_def require_no_handle_def open_handle_def demo_points)
  note r = safe_next [OF safe_next [OF demo_idle_run st_owner [OF a]] st_freeze [OF b]]
  note r = safe_next [OF safe_next [OF safe_next [OF r st_canonical_read [of _ _ demo_read]]
    st_capability_cut [of _ _ 0 0]] st_borrow]
  have "demo_sealing = b\<lparr>spc_canonical := [\<lparr>cob_canonical_read = demo_read, cob_consumed = False\<rparr>],
      spc_capability := [\<lparr>kob_dispatch_cut = 0, kob_surface_borrow = 0, kob_consumed = False\<rparr>],
      spc_borrows := [False]\<rparr>" by (simp add: demo_sealing_def b_def)
  with r show ?thesis by (simp add: b_def demo_planned_def demo_idle_def safe_point_init_def continuity.defs safe_point.defs)
qed

lemma demo_seal_ok: "seal_basis 0 0 0 demo_target demo_sealing = (Inr 0, demo_point)"
  by (simp add: seal_basis_def require_current_def handle_of_def cut_joined_def consume_canonical_def
      consume_capability_def Let_def demo_points demo_values lit_def)

lemma demo_point_run: "safe_run demo_codec demo_point"
  by (rule safe_next [OF demo_sealing_run st_seal [OF demo_seal_ok]])

section \<open>One preparation at a time\<close>

lemma safe_run_points:
  assumes "safe_run codec s"
  shows "handles_inv s" and "bases_inv s" and "owner_inv codec s"
  using safe_run_inv [OF assms] by (auto simp: safe_inv_def points_inv_def)

text \<open>
  C12. Whatever calls are made in whatever order, at most one handle is open, and it is the
  newest; at most one preparation basis is not revoked; and an installed basis holds the model
  operation of its handle for as long as that handle is open.
\<close>

theorem safe_point_one_preparation:
  assumes "safe_run codec s"
  shows "(\<forall>h. h < length (spc_handles s) \<and> \<not> hdl_closed (handle_of s h) \<longleftrightarrow> spc_active_handle s = Some h) \<and>
    (\<forall>h. spc_active_handle s = Some h \<longrightarrow> Suc h = length (spc_handles s) \<and>
       hdl_generation (handle_of s h) = spc_generation s) \<and>
    (\<forall>j. j < length (spc_bases s) \<and> state_of_basis s j \<noteq> Basis_Revoked \<longleftrightarrow> spc_active_basis s = Some j) \<and>
    (\<forall>j h. spc_active_basis s = Some j \<and> state_of_basis s j = Basis_Installed \<and>
       spc_active_handle s = Some h \<and> bas_handle (basis_of s j) = h \<longrightarrow> hdl_model_active (handle_of s h))"
  using safe_run_points(1,2) [OF assms] by (auto simp: handles_inv_def bases_inv_def)

theorem safe_point_one_preparation_witness:
  "spc_active_handle demo_point = Some 0 \<and> \<not> hdl_closed (handle_of demo_point 0) \<and>
    state_of_basis demo_point 0 \<noteq> Basis_Revoked"
proof -
  have a: "spc_active_handle demo_point = Some 0" "spc_active_basis demo_point = Some 0"
    by (simp_all add: demo_point_def demo_sealing_def)
  from safe_point_one_preparation [OF demo_point_run] a show ?thesis by blast
qed

section \<open>Revoked for good\<close>

text \<open>
  C13. A preparation basis that has been revoked, or whose handle has been closed or rotated
  away, acts never again: at every later time issuing a transition, registering a candidate and
  installing one under it raise and leave the state as it is.
\<close>

theorem safe_point_revoked_for_good:
  assumes "safe_run codec s" and "j < length (spc_bases s)"
    and "state_of_basis s j = Basis_Revoked \<or> hdl_closed (handle_of s (bas_handle (basis_of s j)))"
    and "later codec s t"
  shows "\<exists>e. issue_provider_transition j pl seed sem plan adm t = (Inl e, t) \<and>
    register_provider_candidate codec j c t = (Inl e, t) \<and>
    install_provider_candidate codec j c x draws t = Some (Inl e, t)"
proof -
  have ok: "grows s t" using later_ok [OF assms(4) safe_run_inv [OF assms(1)]] by (simp add: safe_ok_def)
  have "bas_handle (basis_of s j) < length (spc_handles s)"
    using safe_run_points(2) [OF assms(1)] assms(2) by (simp add: bases_inv_def)
  with ok assms(2,3) have "state_of_basis t j = Basis_Revoked \<or> hdl_closed (handle_of t (bas_handle (basis_of t j)))"
    by (auto simp: grows_def)
  then obtain e where "require_basis_current j t = Inl e"
    by (cases "require_basis_current j t") (auto simp: require_basis_current_def require_current_def split: if_splits)
  then show ?thesis
    by (simp add: issue_provider_transition_def register_provider_candidate_def
        install_provider_candidate_def guarded_by_def Let_def)
qed

definition demo_revoked :: "nat safe_point" where
  "demo_revoked = demo_point\<lparr>spc_bases := [(demo_basis, Basis_Revoked)], spc_active_basis := None\<rparr>"

lemma demo_revoke_ok: "revoke_basis 0 demo_point = (Inr (), demo_revoked)"
  by (simp add: revoke_basis_def basis_of_def state_of_basis_def set_basis_state_def demo_revoked_def
      demo_points demo_values)

theorem safe_point_revoked_for_good_witness:
  "\<exists>e. issue_provider_transition 0 demo_planning (Some (Canonical_Seed demo_read))
     (projection_of (demo_compiled [1])) (demo_wire [1]) None demo_revoked = (Inl e, demo_revoked)"
proof -
  have r: "safe_run demo_codec demo_revoked" by (rule safe_next [OF demo_point_run st_revoke [OF demo_revoke_ok]])
  have l: "0 < length (spc_bases demo_revoked)" "state_of_basis demo_revoked 0 = Basis_Revoked"
    by (simp_all add: demo_revoked_def state_of_basis_def)
  have "later demo_codec demo_revoked demo_revoked" by (simp add: later_def)
  from safe_point_revoked_for_good [OF r l(1) disjI1 [OF l(2)] this] show ?thesis by blast
qed

section \<open>One installation per basis\<close>

lemma installed_basis:
  assumes "safe_run codec s" and "j < length (spc_bases s)"
    and "install_provider_candidate codec j c x draws s = Some (Inr p, t)"
  shows "state_of_basis t j \<noteq> Basis_Prepared" and "safe_run codec t" and "j < length (spc_bases t)"
proof -
  have step: "safe_step codec s t" by (rule st_install [OF assms(3,2)])
  show run: "safe_run codec t" by (rule safe_next [OF assms(1) step])
  have "grows s t" using safe_step_ok [OF step safe_inv_ok [OF safe_run_inv [OF assms(1)]]]
    by (simp add: safe_ok_def)
  with assms(2) show j: "j < length (spc_bases t)" by (simp add: grows_def)
  from assms(3) obtain u where u: "mark_installed j u = (Inr (), t)"
    by (auto simp: install_provider_candidate_def Let_def split: sum.splits if_splits option.splits prod.splits)
  then have t: "t = set_basis_state j Basis_Installed u" by (simp add: mark_installed_def split: if_splits)
  have "j < length (spc_bases u)" using j unfolding t by (simp add: set_basis_state_def)
  then show "state_of_basis t j \<noteq> Basis_Prepared"
    unfolding t by (simp add: set_basis_state_def state_of_basis_def)
qed

text \<open>
  C14. One basis opens at most one provider request: once a candidate has been installed under
  it, every later installation under the same basis raises and leaves the state as it is.
\<close>

theorem safe_point_installs_once:
  assumes "safe_run codec s" and "j < length (spc_bases s)"
    and "install_provider_candidate codec j c x draws s = Some (Inr p, t)" and "later codec t u"
  shows "\<exists>e. install_provider_candidate codec j c' x' draws' u = Some (Inl e, u)"
proof -
  note t = installed_basis [OF assms(1-3)]
  have ok: "safe_ok codec t u" by (rule later_ok [OF assms(4) safe_run_inv [OF t(2)]])
  have u: "state_of_basis u j \<noteq> Basis_Prepared" "j < length (spc_bases u)"
    using ok t(1,3) by (auto simp: safe_ok_def grows_def)
  show ?thesis
  proof (cases "require_basis_current j u")
    case (Inl e)
    then show ?thesis by (simp add: install_provider_candidate_def Let_def)
  next
    case (Inr v)
    then have "state_of_basis u j = Basis_Installed" "\<not> hdl_closed (handle_of u (bas_handle (basis_of u j)))"
      using u(1) by (cases "state_of_basis u j"; auto simp: require_basis_current_def require_current_def split: if_splits)+
    then have "hdl_model_active (handle_of u (bas_handle (basis_of u j)))"
      using safe_okD(2) [OF ok] u(2) by (auto simp: bases_inv_def)
    with Inr show ?thesis by (simp add: install_provider_candidate_def Let_def)
  qed
qed

definition demo_issued :: "nat safe_point" where
  "demo_issued = demo_point
     \<lparr>own_slots := [lit ''s'' \<mapsto> (empty_slot demo_lease)\<lparr>slt_lease := None,
        slt_reservation := Some demo_reservation, slt_state := BOUND_EMPTY\<rparr>]\<rparr>"

definition demo_registered :: "nat safe_point" where
  "demo_registered = demo_point
     \<lparr>own_slots := [lit ''s'' \<mapsto> (empty_slot demo_lease)\<lparr>slt_lease := None,
        slt_reservation := Some demo_reservation, slt_state := PREPARED, slt_prepared := Some demo_first\<rparr>]\<rparr>"

lemma demo_issue_ok:
  "issue_provider_transition 0 demo_planning (Some (Canonical_Seed demo_read)) (projection_of (demo_compiled [1]))
     (demo_wire [1]) None demo_point = (Inr (Empty_Cold_Start demo_scope demo_target demo_read demo_basis), demo_issued)"
  by (simp add: issue_provider_transition_def require_basis_current_def require_current_def basis_of_def
      state_of_basis_def handle_of_def demo_issued_def demo_points demo_steps demo_values lit_def)

lemma demo_registered_ok:
  "register_provider_candidate demo_codec 0 demo_first demo_issued = (Inr (), demo_registered)"
  by (simp add: register_provider_candidate_def require_basis_current_def require_current_def basis_of_def
      state_of_basis_def handle_of_def demo_issued_def demo_registered_def demo_points demo_steps demo_values
      lit_def is_ok_def)

lemma demo_installed_ok:
  "map_option fst (install_provider_candidate demo_codec 0 demo_first 5 [lit ''x''] demo_registered) =
     Some (Inr demo_permit)"
  by (simp add: install_provider_candidate_def require_basis_current_def require_current_def basis_of_def
      state_of_basis_def handle_of_def set_model_active_def update_handle_def mark_installed_def
      demo_registered_def demo_points demo_steps demo_values lit_def is_ok_def)

theorem safe_point_installs_once_witness:
  "\<exists>t e. install_provider_candidate demo_codec 0 demo_first 5 [lit ''x''] demo_registered = Some (Inr demo_permit, t) \<and>
     install_provider_candidate demo_codec 0 demo_first 6 [lit ''y''] t = Some (Inl e, t)"
proof -
  have r: "safe_run demo_codec demo_registered"
    by (rule safe_next [OF safe_next [OF demo_point_run st_issue [OF demo_issue_ok]] st_register [OF demo_registered_ok]])
  obtain t where t: "install_provider_candidate demo_codec 0 demo_first 5 [lit ''x''] demo_registered = Some (Inr demo_permit, t)"
    using demo_installed_ok by auto
  have "0 < length (spc_bases demo_registered)" by (simp add: demo_registered_def demo_point_def)
  from safe_point_installs_once [OF r this t, of t demo_first 6 "[lit ''y'']"] t show ?thesis
    by (auto simp: later_def)
qed

section \<open>Where a settlement ends\<close>

text \<open>Closing the resources of a preparation does not touch a slot that holds no reservation.\<close>

definition slot_at :: "'v slot \<Rightarrow> 'v safe_point \<Rightarrow> 'v safe_point \<Rightarrow> bool" where
  "slot_at sl s t \<longleftrightarrow> the_slot t = Some sl \<and> own_session_id t = own_session_id s \<and>
     own_writer_guard t = own_writer_guard s"

lemma slot_at_fields:
  "slot_at sl s t \<Longrightarrow> slot_at sl s (t\<lparr>spc_handles := a\<rparr>)" "slot_at sl s t \<Longrightarrow> slot_at sl s (t\<lparr>spc_bases := b\<rparr>)"
  "slot_at sl s t \<Longrightarrow> slot_at sl s (t\<lparr>spc_active_handle := c\<rparr>)"
  "slot_at sl s t \<Longrightarrow> slot_at sl s (t\<lparr>spc_active_basis := d\<rparr>)"
  "slot_at sl s t \<Longrightarrow> slot_at sl s (t\<lparr>spc_borrows := e\<rparr>)"
  "slot_at sl s t \<Longrightarrow> slot_at sl s (t\<lparr>own_releases := r\<rparr>)"
  by (auto simp: slot_at_def the_slot_def)

lemma slot_at_revoke: "slot_at sl s t \<Longrightarrow> kept (slot_at sl s) (revoke_basis j t)"
  by (auto simp: revoke_basis_def set_basis_state_def slot_at_fields)

lemma slot_at_close: "slot_at sl s t \<Longrightarrow> kept (slot_at sl s) (close_handle h t)"
  by (auto simp: close_handle_def guarded_by_def retire_handle_def update_handle_def slot_at_fields split: sum.splits)

lemma slot_at_borrow: "slot_at sl s t \<Longrightarrow> kept (slot_at sl s) (close_borrow released i t)"
  by (auto simp: close_borrow_def slot_at_fields split: sum.splits)

lemma slot_at_abort:
  "slot_at sl s t \<Longrightarrow> slt_reservation sl = None \<Longrightarrow> kept (slot_at sl s) (abort_planning pl t)"
  by (auto simp: abort_planning_def owner_ops slot_at_def the_slot_def split: option.splits)

lemma slot_at_projection:
  assumes "slot_at sl s t" and "slt_reservation sl = None"
  shows "owner_kept (slot_at sl s) (projection_close released d t)"
  using assms unfolding projection_close_def dry_close_def
  by (auto simp: Let_def dry_abort_if_owned_def owner_kept_def with_owner_def kept_def [symmetric]
      split: option.splits
      intro!: kept_finally kept_and_then slot_at_revoke slot_at_close slot_at_borrow slot_at_abort)

lemma slot_at_dispatch:
  assumes "slot_at sl s t" and "slt_reservation sl = None"
  shows "owner_kept (slot_at sl s) (dispatch_close released hook abandoned d t)"
  using assms unfolding dispatch_close_def execution_close_def take_resources_def
  by (auto simp: Let_def owner_kept_def with_owner_def kept_def [symmetric] split: sum.splits option.splits
      intro!: kept_finally kept_and_then slot_at_revoke slot_at_close slot_at_borrow slot_at_abort)

lemma begin_settlement_result:
  assumes "begin_settlement kind target m p conf s = (r, t)"
  shows "(\<exists>e. r = Inl e) \<and> t = s \<or>
    (\<exists>st sl. r = Inr st \<and> the_slot s = Some sl \<and> csc_session_id (settling_scope st) = own_session_id s \<and>
       stl_pending st = p \<and> stl_kind st = kind \<and> stl_confirmation st = conf \<and> settling_init st = Inr () \<and>
       slot_at (sl\<lparr>slt_settling := Some st, slt_settling_progress := Some (Settling_Not_Revoked st),
                  slt_state := target\<rparr>) s t)"
  using assms unfolding begin_settlement_def
  by (auto simp: owner_ops slot_at_def the_slot_def settling_scope_def split: if_splits option.splits sum.splits)

lemma revoke_adoption_result:
  assumes "slot_at sl s t" and "csc_session_id (settling_scope st) = own_session_id s"
    and "slt_state sl \<in> {EMPTY_ADOPTION_FULL_SETTLING, EMPTY_ADOPTION_CONFLICT_SETTLING}"
    and "slt_settling sl = Some st" and "slt_settling_progress sl = Some (Settling_Not_Revoked st)"
  shows "\<exists>rv u. revoke_empty_adoption st t = (Inr rv, u) \<and> srv_settling rv = st \<and>
    slot_at (sl\<lparr>slt_settling_progress := Some (Settling_Revoked rv), slt_reservation := None,
               slt_prepared := None\<rparr>) s u"
  using assms unfolding revoke_empty_adoption_def
  by (auto simp: owner_ops slot_at_def the_slot_def)

lemma quarantine_result:
  assumes "slot_at sl s t" and "csc_session_id (settling_scope st) = own_session_id s"
    and "slt_settling sl = Some st" and "settling_revoked sl"
  shows "\<exists>u. quarantine_adoption st t = (Inr (), u) \<and>
    slot_at (sl\<lparr>slt_state := EMPTY_ADOPTION_RESOURCE_RELEASE_QUARANTINE\<rparr>) s u"
  using assms unfolding quarantine_adoption_def
  by (auto simp: owner_ops slot_at_def the_slot_def)

lemma publish_adoption_result:
  assumes "slot_at sl s t" and "publish_after_adoption st rv i w n t = (r, u)"
  shows "(\<exists>e. r = Inl e) \<and> slot_at sl s u \<or>
    r = Inr () \<and> (\<exists>lease. lse_source lease = Adopted_Base_Lease (own_writer_guard s) (stl_confirmation st)
         (adp_snapshot_id (pnd_candidate (stl_pending st))) (adp_binding_revision_id (pnd_candidate (stl_pending st))) \<and>
       slot_at (sl\<lparr>slt_lease := Some lease, slt_pending := None, slt_settling := None,
                  slt_settling_progress := None, slt_state := AUTHORIZED_EMPTY\<rparr>) s u)"
  using assms unfolding publish_after_adoption_def consume_release_def
  by (auto simp: owner_ops slot_at_def the_slot_def dest!: adopted_lease_eq lease_source
      split: if_splits option.splits sum.splits)

lemma publish_points:
  "publish_after_adoption st rv i w n t = (r, u) \<Longrightarrow> spc_active_handle u = spc_active_handle (t :: 'v safe_point)"
  using publish_adoption_moves [of st rv i w n t r u Plain undefined] more_fields [of u t]
  by (simp add: moves_def)

lemma release_and_publish_result:
  assumes "slot_at sl s u" and "slt_reservation sl = None"
    and "release_and_publish released n st rv d u = (r, d', v)"
  shows "(\<exists>e. r = Inl e) \<and> slot_at sl s v \<or>
    r = Inr () \<and> spc_active_handle v = None \<and>
      (\<exists>lease. lse_source lease = Adopted_Base_Lease (own_writer_guard s) (stl_confirmation st)
         (adp_snapshot_id (pnd_candidate (stl_pending st))) (adp_binding_revision_id (pnd_candidate (stl_pending st))) \<and>
       slot_at (sl\<lparr>slt_lease := Some lease, slt_pending := None, slt_settling := None,
                  slt_settling_progress := None, slt_state := AUTHORIZED_EMPTY\<rparr>) s v)"
proof -
  obtain q d1 t where c: "projection_close released d u = (q, d1, t)" by (cases "projection_close released d u") auto
  with slot_at_projection [OF assms(1,2), of released d] have t: "slot_at sl s t" by simp
  show ?thesis
  proof (cases "(\<exists>e. q = Inl e) \<or> spc_active_handle t \<noteq> None")
    case True
    with assms(3) c t show ?thesis by (auto simp: release_and_publish_def split: sum.splits if_splits)
  next
    case False
    then obtain x where x: "q = Inr x" "spc_active_handle t = None" by (cases q) auto
    let ?w = "t\<lparr>own_releases := own_releases t @ [\<lparr>rel_subject = Settling_Release st, rel_owner = spc_id t, rel_consumed = False\<rparr>]\<rparr>"
    from assms(3) c x have p: "publish_after_adoption st rv (length (own_releases t)) (spc_id ?w) n ?w = (r, v)"
      by (simp add: release_and_publish_def issue_release_def with_owner_def prod_eq_iff)
    have "slot_at sl s ?w" by (rule slot_at_fields(6) [OF t])
    from publish_adoption_result [OF this p] publish_points [OF p] x(2) show ?thesis by auto
  qed
qed

lemma joined_settlement_result:
  assumes "joined_settlement m d p f s = (r, d', t)"
  shows "(\<exists>e. r = Inl e) \<and> t = s \<or> (\<exists>d1. f d1 s = (r, d', t))"
  using assms unfolding joined_settlement_def with_projection_def
  by (auto split: prod.splits sum.splits if_splits) (metis)

lemma begin_and_revoke:
  assumes "begin_settlement kind target m p conf s = (b, s1)"
    and "target \<in> {EMPTY_ADOPTION_FULL_SETTLING, EMPTY_ADOPTION_CONFLICT_SETTLING}"
  shows "(\<exists>e. b = Inl e) \<and> s1 = s \<or>
    (\<exists>st rv s2 sl. b = Inr st \<and> revoke_empty_adoption st s1 = (Inr rv, s2) \<and> slot_at sl s s2 \<and>
       csc_session_id (settling_scope st) = own_session_id s \<and> stl_pending st = p \<and>
       stl_confirmation st = conf \<and> cnf_kind conf = kind \<and> slt_settling sl = Some st \<and>
       settling_revoked sl \<and> slt_reservation sl = None)"
  using begin_settlement_result [OF assms(1)]
proof (elim disjE exE conjE)
  fix st sl assume st: "b = Inr st" "csc_session_id (settling_scope st) = own_session_id s"
    "stl_pending st = p" "stl_kind st = kind" "stl_confirmation st = conf" "settling_init st = Inr ()"
    "slot_at (sl\<lparr>slt_settling := Some st, slt_settling_progress := Some (Settling_Not_Revoked st),
       slt_state := target\<rparr>) s s1"
  from revoke_adoption_result [OF st(7,2)] assms(2) st show ?thesis
    by (fastforce simp: settling_revoked_def settling_init_def split: if_splits)
qed auto

text \<open>An adoption over the empty preparation of the run, pending on its confirmation.\<close>

definition demo_adoption :: "nat adoption" where
  "demo_adoption =
     \<lparr>adp_oid = 0, adp_session_id = lit ''s'', adp_turn_id = lit ''u'', adp_scope_kind = Root_Scope,
      adp_snapshot_id = lit ''k'', adp_snapshot_through_sequence = 1, adp_binding_revision_id = lit ''b2'',
      adp_predecessor_revision_id = lit ''b'', adp_rest = 0\<rparr>"

definition demo_token :: attempt_token where
  "demo_token = \<lparr>atk_oid = 0, atk_session_id = lit ''s'', atk_turn_id = lit ''u'', atk_scope_kind = Root_Scope\<rparr>"

definition demo_dry :: "nat dry_result" where
  "demo_dry = \<lparr>drr_oid = 0,
     drr_basis = \<lparr>drb_source = Pending_Empty_Dry_Source demo_reservation, drb_destination = demo_target,
       drb_canonical_read = demo_read\<lparr>cdr_binding :=
         \<lparr>cbd_context_snapshot_id = Some (lit ''k''), cbd_binding_revision_id = lit ''b2'',
          cbd_source_through_sequence = 1, cbd_rest = 0\<rparr>\<rparr>,
       drb_capability_cut = 0\<rparr>,
     drr_rest = 0\<rparr>"

definition demo_projection :: "nat dry_projection" where
  "demo_projection = \<lparr>dpj_result = demo_dry,
     dpj_authority = Some \<lparr>dra_basis = 0, dra_handle = Some 0, dra_borrow = Some 0,
       dra_planning = demo_planning, dra_abort_planning = True\<rparr>,
     dpj_started = False\<rparr>"

definition demo_pending :: "nat pending_adoption" where
  "demo_pending = \<lparr>pnd_oid = 1, pnd_reservation = demo_reservation, pnd_basis = demo_basis,
     pnd_attempt_token = demo_token, pnd_candidate = demo_adoption, pnd_dry_result = demo_dry\<rparr>"

definition demo_started :: "nat dry_projection" where
  "demo_started = demo_projection\<lparr>dpj_started := True,
     dpj_authority := Some \<lparr>dra_basis = 0, dra_handle = Some 0, dra_borrow = Some 0,
       dra_planning = demo_planning, dra_abort_planning = False\<rparr>\<rparr>"

definition demo_adopting :: "nat safe_point" where
  "demo_adopting = demo_point
     \<lparr>own_slots := [lit ''s'' \<mapsto> (empty_slot demo_lease)\<lparr>slt_lease := None,
        slt_reservation := Some demo_reservation, slt_state := EMPTY_ADOPTION_PENDING,
        slt_pending := Some demo_pending\<rparr>], own_next := 2\<rparr>"

definition demo_confirmation :: "confirmation_kind \<Rightarrow> nat adoption_confirmation" where
  "demo_confirmation k = \<lparr>cnf_oid = 0, cnf_kind = k, cnf_candidate = demo_adoption\<rparr>"

lemmas demo_adoptions = demo_adoption_def demo_token_def demo_dry_def demo_projection_def demo_pending_def
  demo_started_def demo_adopting_def demo_confirmation_def

lemmas settlement_steps = with_projection_def require_for_empty_adoption_def dry_begin_empty_adoption_def
  dry_require_def require_basis_current_def require_current_def handle_of_def basis_of_def state_of_basis_def
  guarded_by_def with_owner_def joined_settlement_def settlement_joined_def begin_settlement_def
  pending_scope_def pending_current_def settling_init_def revoke_empty_adoption_def projection_close_def
  dry_close_def finally_do_def except_do_def revoke_basis_def set_basis_state_def close_handle_def
  retire_handle_def update_handle_def close_borrow_def dry_abort_if_owned_def dry_taken_def
  quarantine_adoption_def issue_release_def release_and_publish_def publish_after_adoption_def
  consume_release_def adopted_base_lease_def

lemma demo_begin_adoption:
  "safe_begin_empty_adoption demo_projection demo_token demo_adoption demo_point =
     (Inr demo_pending, demo_started, demo_adopting)"
  by (simp add: safe_begin_empty_adoption_def begin_empty_adoption_def adoption_joined_def settlement_steps
      demo_adoptions demo_points demo_steps demo_values lit_def)

text \<open>The settlements look only at these parts of the values.\<close>

lemma demo_parts:
  "pnd_reservation demo_pending = demo_reservation" "pnd_basis demo_pending = demo_basis"
  "pnd_candidate demo_pending = demo_adoption" "pnd_dry_result demo_pending = demo_dry"
  "rsv_lease demo_reservation = demo_lease" "lse_scope demo_lease = demo_scope"
  "csc_session_id demo_scope = lit ''s''" "cnf_kind (demo_confirmation k) = k"
  "cnf_candidate (demo_confirmation k) = demo_adoption" "wgd_session_id demo_guard = lit ''s''"
  "adp_snapshot_id demo_adoption = lit ''k''" "adp_binding_revision_id demo_adoption = lit ''b2''"
  "bas_owner demo_basis = 0" "bas_handle demo_basis = 0" "dpj_result demo_started = demo_dry"
  "dpj_started demo_started" "lit ''k'' \<noteq> []" "lit ''b2'' \<noteq> []" "lit ''z'' \<noteq> []"
  by (simp_all add: demo_adoptions demo_values lit_def)

lemma demo_adopting_parts:
  "own_slots demo_adopting = [lit ''s'' \<mapsto> (empty_slot demo_lease)\<lparr>slt_lease := None,
     slt_reservation := Some demo_reservation, slt_state := EMPTY_ADOPTION_PENDING, slt_pending := Some demo_pending\<rparr>]"
  "own_session_id demo_adopting = lit ''s''" "own_writer_guard demo_adopting = demo_guard"
  "own_releases demo_adopting = []" "spc_id demo_adopting = 0" "spc_active_handle demo_adopting = Some 0"
  "spc_generation demo_adopting = 1" "spc_active_basis demo_adopting = Some 0"
  "spc_handles demo_adopting = [\<lparr>hdl_cut = demo_cut, hdl_generation = 1, hdl_model_active = False, hdl_closed = False\<rparr>]"
  "spc_bases demo_adopting = [(demo_basis, Basis_Prepared)]" "spc_borrows demo_adopting = [False]"
  by (simp_all add: demo_adopting_def demo_points demo_start_def demo_source_def demo_scope_def demo_guard_def
      demo_steps lit_def)

lemma demo_started_authority:
  "dpj_authority demo_started = Some \<lparr>dra_basis = 0, dra_handle = Some 0, dra_borrow = Some 0,
     dra_planning = demo_planning, dra_abort_planning = False\<rparr>"
  by (simp add: demo_started_def)

lemma demo_full_ok:
  "fst (settle_empty_full (Inr ()) (lit ''z'') demo_started demo_pending (demo_confirmation Adoption_Full) demo_adopting) = Inr ()"
  by (simp add: settle_empty_full_def begin_full_settlement_def settlement_steps settling_scope_def Let_def
      demo_parts demo_adopting_parts demo_started_authority owner_ops empty_slot_def bootstrap_lease_init_def)

lemma demo_conflict_ok:
  "fst (settle_empty_conflict (Inr ()) demo_started demo_pending (demo_confirmation Adoption_Conflict) demo_adopting) = Inr ()"
  by (simp add: settle_empty_conflict_def begin_conflict_settlement_def settlement_steps settling_scope_def Let_def
      settling_revoked_def demo_parts demo_adopting_parts demo_started_authority owner_ops empty_slot_def)

text \<open>
  C15. The settlement of an adoption that was confirmed in full either refuses before it has
  changed the slot, or ends with a new bootstrap lease, issued for exactly the snapshot and the
  binding of the adoption, after every handle has been closed, or (when the release of a resource
  raises) leaves the slot in quarantine; it never leaves the old preparation usable.
\<close>

theorem safe_point_full_settles:
  assumes "settle_empty_full released n d p conf s = (r, d', t)"
  shows "(\<exists>e. r = Inl e) \<and> the_slot t = the_slot s \<or>
    (\<exists>e sl. r = Inl e \<and> the_slot t = Some sl \<and> slt_state sl = EMPTY_ADOPTION_RESOURCE_RELEASE_QUARANTINE \<and>
       slt_reservation sl = None) \<or>
    r = Inr () \<and> spc_active_handle t = None \<and> cnf_kind conf = Adoption_Full \<and>
      (\<exists>sl lease. the_slot t = Some sl \<and> slt_state sl = AUTHORIZED_EMPTY \<and> slt_reservation sl = None \<and>
         slt_lease sl = Some lease \<and>
         lse_source lease = Adopted_Base_Lease (own_writer_guard s) conf (adp_snapshot_id (pnd_candidate p))
           (adp_binding_revision_id (pnd_candidate p)))"
proof -
  from joined_settlement_result [OF assms [unfolded settle_empty_full_def]] show ?thesis
  proof (elim disjE exE conjE)
    fix d1
    assume r: "(case begin_full_settlement p conf s of (Inl e, t) \<Rightarrow> (Inl e, d1, t)
       | (Inr st, t) \<Rightarrow> (case revoke_empty_adoption st t of (Inl e, u) \<Rightarrow> (Inl e, d1, u)
         | (Inr revoked, u) \<Rightarrow> (case release_and_publish released n st revoked d1 u of
             (r, d', v) \<Rightarrow> with_owner d' (except_do (r, v) (quarantine_adoption st))))) = (r, d', t)"
    obtain b s1 where b: "begin_full_settlement p conf s = (b, s1)" by fastforce
    from begin_and_revoke [OF b [unfolded begin_full_settlement_def], simplified] show ?thesis
    proof (elim disjE exE conjE)
      fix st rv s2 sl
      assume st: "b = Inr st" "revoke_empty_adoption st s1 = (Inr rv, s2)" "slot_at sl s s2"
        "csc_session_id (settling_scope st) = own_session_id s" "stl_pending st = p" "stl_confirmation st = conf"
        "cnf_kind conf = Adoption_Full" "slt_settling sl = Some st" "settling_revoked sl" "slt_reservation sl = None"
      obtain q d2 s3 where q: "release_and_publish released n st rv d1 s2 = (q, d2, s3)"
        by (cases "release_and_publish released n st rv d1 s2") auto
      from release_and_publish_result [OF st(3,10) q] show ?thesis
        using r b st q quarantine_result [OF _ st(4,8,9), of s3]
        by (fastforce simp: except_do_def with_owner_def slot_at_def)
    qed (use r b in auto)
  qed auto
qed

theorem safe_point_full_settles_witness:
  "\<exists>d t sl. settle_empty_full (Inr ()) (lit ''z'') demo_started demo_pending (demo_confirmation Adoption_Full) demo_adopting =
       (Inr (), d, t) \<and> spc_active_handle t = None \<and> the_slot t = Some sl \<and> slt_state sl = AUTHORIZED_EMPTY"
proof -
  obtain d t where r: "settle_empty_full (Inr ()) (lit ''z'') demo_started demo_pending
      (demo_confirmation Adoption_Full) demo_adopting = (Inr (), d, t)"
    using demo_full_ok by (metis prod.collapse)
  from safe_point_full_settles [OF r] r show ?thesis by auto
qed

text \<open>
  The settlement of an adoption in conflict either refuses before it has changed the slot
  or leaves the slot in quarantine without its reservation, whatever the release of the
  resources raises.
\<close>

theorem safe_point_conflict_quarantines:
  assumes "settle_empty_conflict released d p conf s = (r, d', t)"
  shows "(\<exists>e. r = Inl e) \<and> the_slot t = the_slot s \<or>
    cnf_kind conf = Adoption_Conflict \<and>
    (\<exists>sl. the_slot t = Some sl \<and> slt_state sl = EMPTY_ADOPTION_RESOURCE_RELEASE_QUARANTINE \<and>
       slt_reservation sl = None)"
proof -
  from joined_settlement_result [OF assms [unfolded settle_empty_conflict_def]] show ?thesis
  proof (elim disjE exE conjE)
    fix d1
    assume r: "(case begin_conflict_settlement p conf s of (Inl e, t) \<Rightarrow> (Inl e, d1, t)
       | (Inr st, t) \<Rightarrow> (case revoke_empty_adoption st t of (Inl e, u) \<Rightarrow> (Inl e, d1, u)
         | (Inr _, u) \<Rightarrow> (case projection_close released d1 u of
             (r, d', v) \<Rightarrow> with_owner d' (finally_do (r, v) (quarantine_adoption st))))) = (r, d', t)"
    obtain b s1 where b: "begin_conflict_settlement p conf s = (b, s1)" by fastforce
    from begin_and_revoke [OF b [unfolded begin_conflict_settlement_def], simplified] show ?thesis
    proof (elim disjE exE conjE)
      fix st rv s2 sl
      assume st: "b = Inr st" "revoke_empty_adoption st s1 = (Inr rv, s2)" "slot_at sl s s2"
        "csc_session_id (settling_scope st) = own_session_id s" "cnf_kind conf = Adoption_Conflict"
        "slt_settling sl = Some st" "settling_revoked sl" "slt_reservation sl = None"
      obtain q d2 s3 where q: "projection_close released d1 s2 = (q, d2, s3)"
        by (cases "projection_close released d1 s2") auto
      with slot_at_projection [OF st(3,8), of released d1] have "slot_at sl s s3" by simp
      from quarantine_result [OF this st(4,6,7)] r b st q show ?thesis
        by (auto simp: finally_do_def with_owner_def slot_at_def split: sum.splits)
    qed (use r b in auto)
  qed auto
qed

theorem safe_point_conflict_quarantines_witness:
  "\<exists>d t sl. settle_empty_conflict (Inr ()) demo_started demo_pending (demo_confirmation Adoption_Conflict) demo_adopting =
       (Inr (), d, t) \<and> the_slot t = Some sl \<and> slt_state sl = EMPTY_ADOPTION_RESOURCE_RELEASE_QUARANTINE"
proof -
  obtain d t where r: "settle_empty_conflict (Inr ()) demo_started demo_pending
      (demo_confirmation Adoption_Conflict) demo_adopting = (Inr (), d, t)"
    using demo_conflict_ok by (metis prod.collapse)
  from safe_point_conflict_quarantines [OF r] r show ?thesis by auto
qed

lemma begin_closure_result:
  assumes "begin_no_continuation f c s = (r, t)"
  shows "(\<exists>e. r = Inl e) \<and> t = s \<or>
    r = Inr () \<and> clo_fence c = f \<and> csc_session_id (fnc_scope f) = own_session_id s \<and>
      (\<exists>sl. the_slot s = Some sl \<and> slt_state sl = INSTALLED \<and> slt_fence sl = Some f \<and>
         slot_at (sl\<lparr>slt_closure := Some c, slt_closure_progress := Some (Closure_Not_Revoked c),
                    slt_state := INSTALLED_NO_CONTINUATION_SETTLING\<rparr>) s t)"
  using assms unfolding begin_no_continuation_def
  by (auto simp: owner_ops slot_at_def the_slot_def split: if_splits option.splits)

lemma revoke_closure_result:
  assumes "slot_at sl s t" and "revoke_no_continuation f c t = (r, u)"
    and "slt_state sl = INSTALLED_NO_CONTINUATION_SETTLING" and "slt_reservation sl = None"
  shows "\<exists>sl'. slot_at sl' s u \<and> slt_state sl' = INSTALLED_NO_CONTINUATION_SETTLING \<and> slt_reservation sl' = None"
  using assms unfolding revoke_no_continuation_def
  by (auto simp: owner_ops slot_at_def the_slot_def split: if_splits option.splits)

lemma publish_closure_result:
  assumes "slot_at sl s t" and "slt_state sl = INSTALLED_NO_CONTINUATION_SETTLING"
    and "publish_after_no_continuation f c rv i w n t = (r, u)"
  shows "(\<exists>e sl'. r = Inl e \<and> slot_at sl' s u \<and> slt_state sl' = INSTALLED_NO_CONTINUATION_SETTLING) \<or>
    r = Inr () \<and> (\<exists>sl' lease. slot_at sl' s u \<and> slt_state sl' = AUTHORIZED_EMPTY \<and> slt_installed sl' = None \<and>
       slt_lease sl' = Some lease \<and>
       lse_source lease = Adopted_Base_Lease (own_writer_guard s) (fnc_confirmation f) (fnc_snapshot_id f)
         (fnc_binding_revision_id f))"
  using assms unfolding publish_after_no_continuation_def consume_release_def
  by (auto simp: owner_ops slot_at_def the_slot_def dest!: adopted_lease_eq lease_source
      split: if_splits option.splits sum.splits)

lemma closure_points:
  assumes "publish_after_no_continuation f c rv i w n t = (r, u)"
  shows "spc_active_handle u = spc_active_handle (t :: 'v safe_point) \<and> spc_active_basis u = spc_active_basis t"
  using assms unfolding publish_after_no_continuation_def consume_release_def
  by (auto simp: owner_ops split: if_splits option.splits sum.splits)

lemma retire_rest_result:
  assumes "slot_at sl s t" and "slt_state sl = INSTALLED_NO_CONTINUATION_SETTLING" and "slt_reservation sl = None"
    and "retire_rest outcomes verified n f c revoked dispatch t = (r, d', v)"
  shows "(\<exists>e sl'. r = Inl e \<and> slot_at sl' s v \<and> slt_state sl' = INSTALLED_NO_CONTINUATION_SETTLING) \<or>
    r = Inr () \<and> spc_active_handle v = None \<and> spc_active_basis v = None \<and>
      (\<exists>sl' lease. slot_at sl' s v \<and> slt_state sl' = AUTHORIZED_EMPTY \<and> slt_installed sl' = None \<and>
       slt_lease sl' = Some lease \<and>
       lse_source lease = Adopted_Base_Lease (own_writer_guard s) (fnc_confirmation f) (fnc_snapshot_id f)
         (fnc_binding_revision_id f))"
proof -
  obtain q d1 u where q: "(case dispatch of
      None \<Rightarrow> (Inr (), None, t)
    | Some d \<Rightarrow> (case outcomes of (released, hook, abandoned) \<Rightarrow>
         (case dispatch_close released hook abandoned d t of (r, d', u) \<Rightarrow> (r, Some d', u)))) = (q, d1, u)"
    by (metis prod_cases3)
  have u: "slot_at sl s u"
    using q assms(1)
    by (cases dispatch; cases outcomes)
      (auto dest!: owner_kept_result [OF slot_at_dispatch [OF assms(1,3)]] split: prod.splits)
  show ?thesis
  proof (cases "(\<exists>e. q = Inl e) \<or> spc_active_handle u \<noteq> None \<or> spc_active_basis u \<noteq> None \<or> (\<exists>e. verified = Inl e)")
    case True
    with assms(2,4) q u show ?thesis
      by (auto simp: retire_rest_def with_owner_def split: sum.splits if_splits)
  next
    case False
    then obtain x y where x: "q = Inr x" "verified = Inr y" "spc_active_handle u = None" "spc_active_basis u = None"
      by (cases q; cases verified) auto
    let ?w = "u\<lparr>own_releases := own_releases u @ [\<lparr>rel_subject = Closure_Release c, rel_owner = spc_id u, rel_consumed = False\<rparr>]\<rparr>"
    from assms(4) q x have p: "publish_after_no_continuation f c revoked (length (own_releases u)) (spc_id ?w) n ?w = (r, v)"
      by (simp add: retire_rest_def issue_release_def with_owner_def prod_eq_iff)
    have "slot_at sl s ?w" by (rule slot_at_fields(6) [OF u])
    from publish_closure_result [OF this assms(2) p] closure_points [OF p] x(3,4) show ?thesis by auto
  qed
qed

text \<open>
  C16. The retirement of a full adoption without continuation either refuses before it has
  changed the slot, or leaves the scope behind its fence (when the close of the dispatch, the
  verification of the physical release or the publication fails), or ends with an empty scope
  whose lease was issued for exactly the snapshot and the binding of the fence, with no handle
  and no basis left.
\<close>

theorem safe_point_retires:
  assumes "safe_run codec s"
    and "retire_without_continuation outcomes verified n f ev dispatch s = (r, d', t)"
  shows "(\<exists>e. r = Inl e) \<and> the_slot t = the_slot s \<or>
    (\<exists>e sl. r = Inl e \<and> the_slot t = Some sl \<and> slt_state sl = INSTALLED_NO_CONTINUATION_SETTLING) \<or>
    r = Inr () \<and> spc_active_handle t = None \<and> spc_active_basis t = None \<and>
      (\<exists>sl lease. the_slot t = Some sl \<and> slt_state sl = AUTHORIZED_EMPTY \<and> slt_installed sl = None \<and>
       slt_lease sl = Some lease \<and>
       lse_source lease = Adopted_Base_Lease (own_writer_guard s) (fnc_confirmation f) (fnc_snapshot_id f)
         (fnc_binding_revision_id f))"
proof -
  let ?c = "\<lparr>clo_oid = own_next s, clo_fence = f, clo_evidence = ev\<rparr>"
  have start: "the_slot (take_oid s) = the_slot s" "slot_at sl (take_oid s) u = slot_at sl s u" for sl u
    by (simp_all add: take_oid_def the_slot_def slot_at_def)
  obtain b s1 where b: "begin_no_continuation f ?c (take_oid s) = (b, s1)" by fastforce
  obtain k s2 where k: "revoke_no_continuation f ?c s1 = (k, s2)" by fastforce
  from begin_closure_result [OF b] show ?thesis
  proof (elim disjE exE conjE)
    fix sl
    assume sl: "b = Inr ()" "the_slot (take_oid s) = Some sl" "slt_state sl = INSTALLED"
      "slot_at (sl\<lparr>slt_closure := Some ?c, slt_closure_progress := Some (Closure_Not_Revoked ?c),
         slt_state := INSTALLED_NO_CONTINUATION_SETTLING\<rparr>) (take_oid s) s1"
    have "slot_inv codec s sl"
      using owner_inv_slot [OF safe_run_points(3) [OF assms(1)]] sl(2) start(1) by (simp add: the_slot_def)
    with sl(3) have "slt_reservation sl = None" by (simp add: slot_inv_def slot_shape_def)
    from revoke_closure_result [OF sl(4) k] this obtain sl' where
      sl': "slot_at sl' s s2" "slt_state sl' = INSTALLED_NO_CONTINUATION_SETTLING" "slt_reservation sl' = None"
      by (auto simp: start)
    show ?thesis
    proof (cases k)
      case (Inl e)
      with assms(2) b sl(1) k sl' show ?thesis by (auto simp: retire_without_continuation_def slot_at_def)
    next
      case (Inr revoked)
      with assms(2) b sl(1) k have "retire_rest outcomes verified n f ?c revoked dispatch s2 = (r, d', t)"
        by (simp add: retire_without_continuation_def)
      from retire_rest_result [OF sl' this] show ?thesis by (auto simp: slot_at_def)
    qed
  qed (use assms(2) b start(1) in \<open>auto simp: retire_without_continuation_def\<close>)
qed

text \<open>The first epoch of the run, sent, and then fenced by an adoption in full.\<close>

definition demo_fence :: "nat admission_fence" where
  "demo_fence =
     \<lparr>fnc_oid = 4, fnc_scope = demo_scope, fnc_predecessor = demo_cohort, fnc_turn_id = lit ''u'',
      fnc_attempt_token = demo_token, fnc_confirmation = demo_confirmation Adoption_Full,
      fnc_candidate = demo_adoption, fnc_cut = demo_cut, fnc_destination = demo_target,
      fnc_snapshot_id = lit ''k'', fnc_binding_revision_id = lit ''b2'', fnc_nonce = lit ''f''\<rparr>"

definition demo_fenced :: "nat safe_point" where
  "demo_fenced = safe_point_init 0 (demo_open\<lparr>own_permits := [],
     own_slots := [lit ''s'' \<mapsto> demo_slot\<lparr>slt_fence := Some demo_fence\<rparr>], own_next := 5\<rparr>)"

lemma demo_fenced_ok:
  "owner_steps demo_codec (demo_opening @ [Op_Consume demo_permit demo_first 5, Op_Fence demo_fence]) demo_idle =
     Some (map (\<lambda>op. (op, True)) (demo_opening @ [Op_Consume demo_permit demo_first 5, Op_Fence demo_fence]), demo_fenced)"
  by (simp add: demo_fenced_def demo_fence_def install_fence_def fence_init_def consume_install_permit_def
      demo_adoptions demo_points demo_steps demo_values is_ok_def lit_def) (rule ext, simp)

theorem safe_point_retires_witness:
  "\<exists>d t sl. retire_without_continuation (Inr (), Inr (), Inr ()) (Inr ()) (lit ''z'') demo_fence
       (Turn_Not_Running Turn_Completed) None demo_fenced = (Inr (), d, t) \<and>
     the_slot t = Some sl \<and> slt_state sl = AUTHORIZED_EMPTY \<and> slt_installed sl = None"
proof -
  have run: "safe_run demo_codec demo_fenced" by (rule owner_steps_safe [OF demo_fenced_ok demo_idle_run])
  have "fst (retire_without_continuation (Inr (), Inr (), Inr ()) (Inr ()) (lit ''z'') demo_fence
       (Turn_Not_Running Turn_Completed) None demo_fenced) = Inr ()"
    by (simp add: retire_without_continuation_def retire_rest_def begin_no_continuation_def
        revoke_no_continuation_def publish_after_no_continuation_def demo_fenced_def demo_fence_def
        settlement_steps demo_adoptions demo_points demo_steps demo_values lit_def)
  then obtain d t where r: "retire_without_continuation (Inr (), Inr (), Inr ()) (Inr ()) (lit ''z'') demo_fence
       (Turn_Not_Running Turn_Completed) None demo_fenced = (Inr (), d, t)"
    by (metis prod.collapse)
  from safe_point_retires [OF run r] r show ?thesis by auto
qed

end
