(* ===== verification/Bounded_Json.thy ===== *)
theory Bounded_Json
  imports Json_Scalar
begin

text \<open>
  The JSON reader for data from outside (\<open>primitives/bounded_json.py\<close>): a scanner that checks the
  syntax and the bounds of the bytes before anything is allocated, \<open>json.loads\<close> on what it lets
  through, and an exact check of the value. The data are read as numbers, as indexing a \<open>bytes\<close>
  value gives them; the position of the scanner is the part of the data it has not read yet.
\<close>

section \<open>The scanner\<close>

record json_bounds =
  jbd_maximum_nodes :: int
  jbd_maximum_depth :: int
  jbd_maximum_string :: "int option"

definition scanner_init :: "json_bounds \<Rightarrow> unit result" where
  "scanner_init b =
     (if jbd_maximum_nodes b < 1 \<or> jbd_maximum_depth b < 1
      then Inl (ValueError ''JSON structural bounds must be positive'') else Inr ())"

definition json_invalid :: py_error where
  "json_invalid = ValueError ''JSON body is invalid''"

definition add_node :: "json_bounds \<Rightarrow> int \<Rightarrow> int \<Rightarrow> int result" where
  "add_node b depth nodes =
     (if depth > jbd_maximum_depth b then Inl (JsonBoundExceeded ''JSON depth bound exceeded'')
      else if nodes + 1 > jbd_maximum_nodes b
      then Inl (JsonBoundExceeded ''JSON node bound exceeded'')
      else Inr (nodes + 1))"

definition json_ws :: "nat \<Rightarrow> bool" where
  "json_ws c \<longleftrightarrow> c \<in> {32, 9, 13, 10}"

definition skip_ws :: "nat list \<Rightarrow> nat list" where
  "skip_ws = dropWhile json_ws"

definition consume :: "nat \<Rightarrow> nat list \<Rightarrow> nat list option" where
  "consume c cs = (case cs of [] \<Rightarrow> None | d # ds \<Rightarrow> if d = c then Some ds else None)"

definition is_hex :: "nat \<Rightarrow> bool" where
  "is_hex c \<longleftrightarrow> (48 \<le> c \<and> c \<le> 57) \<or> (97 \<le> c \<and> c \<le> 102) \<or> (65 \<le> c \<and> c \<le> 70)"

text \<open>
  The part of a string literal after its opening quote; \<open>k\<close> bytes of it have been read. The
  bound on the source bytes is checked at the closing quote.
\<close>

definition simple_escapes :: "nat list" where
  "simple_escapes = [34, 92, 47, 98, 102, 110, 114, 116]"

function scan_chars :: "int option \<Rightarrow> int \<Rightarrow> nat list \<Rightarrow> nat list result" where
  "scan_chars m k [] = Inl json_invalid"
| "scan_chars m k (c # cs) =
     (if c = 34 then
        (if (case m of None \<Rightarrow> False | Some x \<Rightarrow> k > x * 6)
         then Inl (JsonBoundExceeded ''JSON string exceeds the byte bound'') else Inr cs)
      else if c < 32 then Inl json_invalid
      else if c \<noteq> 92 then scan_chars m (k + 1) cs
      else
        (case cs of
           [] \<Rightarrow> Inl json_invalid
         | e # ds \<Rightarrow>
             if e \<in> set simple_escapes then scan_chars m (k + 2) ds
             else if e \<noteq> 117 \<or> length ds < 4 \<or> list_ex (\<lambda>h. \<not> is_hex h) (take 4 ds)
             then Inl json_invalid
             else scan_chars m (k + 6) (drop 4 ds)))"
  by pat_completeness auto
termination by (relation "measure (\<lambda>(_, _, cs). length cs)") auto

definition scan_string :: "int option \<Rightarrow> nat list \<Rightarrow> nat list result" where
  "scan_string m cs =
     (case consume 34 cs of None \<Rightarrow> Inl json_invalid | Some ds \<Rightarrow> scan_chars m 0 ds)"

definition scan_literal :: "string \<Rightarrow> nat list \<Rightarrow> nat list result" where
  "scan_literal l cs =
     (if take (length l) cs \<noteq> lit l then Inl json_invalid else Inr (drop (length l) cs))"

definition is_digit :: "nat \<Rightarrow> bool" where
  "is_digit c \<longleftrightarrow> 48 \<le> c \<and> c \<le> 57"

definition starts :: "(nat \<Rightarrow> bool) \<Rightarrow> nat list \<Rightarrow> bool" where
  "starts p cs \<longleftrightarrow> (case cs of [] \<Rightarrow> False | c # _ \<Rightarrow> p c)"

text \<open>The three parts of a number.\<close>

definition scan_integer :: "nat list \<Rightarrow> nat list result" where
  "scan_integer cs =
     (case consume 48 cs of
        Some ds \<Rightarrow> if starts is_digit ds then Inl json_invalid else Inr ds
      | None \<Rightarrow> if \<not> starts is_digit cs then Inl json_invalid else Inr (dropWhile is_digit cs))"

definition scan_fraction :: "nat list \<Rightarrow> nat list result" where
  "scan_fraction cs =
     (case consume 46 cs of
        None \<Rightarrow> Inr cs
      | Some ds \<Rightarrow> if \<not> starts is_digit ds then Inl json_invalid else Inr (dropWhile is_digit ds))"

definition skip_sign :: "nat list \<Rightarrow> nat list" where
  "skip_sign cs = (if starts (\<lambda>c. c = 43 \<or> c = 45) cs then tl cs else cs)"

definition scan_exponent :: "nat list \<Rightarrow> nat list result" where
  "scan_exponent cs =
     (if starts (\<lambda>c. c = 101 \<or> c = 69) cs
      then (let ds = skip_sign (tl cs) in
            if \<not> starts is_digit ds then Inl json_invalid else Inr (dropWhile is_digit ds))
      else Inr cs)"

definition scan_number :: "nat list \<Rightarrow> nat list result" where
  "scan_number cs =
     (let a = (case consume 45 cs of None \<Rightarrow> cs | Some ds \<Rightarrow> ds) in
      if a = [] then Inl json_invalid
      else bind_result (bind_result (scan_integer a) scan_fraction) scan_exponent)"

text \<open>
  Values, members and elements. The recursion carries fuel; \<open>scan_document\<close> starts with two units
  per byte and one more. Python's own recursion limit, which the code reports as the depth
  bound, is not modelled.
\<close>

type_synonym scan_state = "nat list \<times> int"

definition and_scan ::
  "'a result option \<Rightarrow> ('a \<Rightarrow> 'b result option) \<Rightarrow> 'b result option" where
  "and_scan r f = (case r of None \<Rightarrow> None | Some (Inl e) \<Rightarrow> Some (Inl e) | Some (Inr x) \<Rightarrow> f x)"

definition with_nodes :: "int \<Rightarrow> nat list result \<Rightarrow> scan_state result option" where
  "with_nodes n r = Some (map_sum id (\<lambda>cs. (cs, n)) r)"

definition expect :: "nat \<Rightarrow> nat list \<Rightarrow> nat list result option" where
  "expect c cs = Some (case consume c cs of None \<Rightarrow> Inl json_invalid | Some ds \<Rightarrow> Inr ds)"

fun scan_value :: "nat \<Rightarrow> json_bounds \<Rightarrow> int \<Rightarrow> scan_state \<Rightarrow> scan_state result option"
and scan_members :: "nat \<Rightarrow> json_bounds \<Rightarrow> int \<Rightarrow> scan_state \<Rightarrow> scan_state result option"
and scan_elements :: "nat \<Rightarrow> json_bounds \<Rightarrow> int \<Rightarrow> scan_state \<Rightarrow> scan_state result option" where
  "scan_value 0 b depth s = None"
| "scan_value (Suc f) b depth (cs, n0) =
     and_scan (Some (add_node b depth n0)) (\<lambda>n.
       if starts (\<lambda>c. c = 123) cs then
         (let ds = skip_ws (tl cs) in
          case consume 125 ds of
            Some r \<Rightarrow> Some (Inr (r, n)) | None \<Rightarrow> scan_members f b depth (ds, n))
       else if starts (\<lambda>c. c = 91) cs then
         (let ds = skip_ws (tl cs) in
          case consume 93 ds of
            Some r \<Rightarrow> Some (Inr (r, n)) | None \<Rightarrow> scan_elements f b depth (ds, n))
       else if starts (\<lambda>c. c = 34) cs then with_nodes n (scan_string (jbd_maximum_string b) cs)
       else if starts (\<lambda>c. c = 116) cs then with_nodes n (scan_literal ''true'' cs)
       else if starts (\<lambda>c. c = 102) cs then with_nodes n (scan_literal ''false'' cs)
       else if starts (\<lambda>c. c = 110) cs then with_nodes n (scan_literal ''null'' cs)
       else if starts (\<lambda>c. c = 45 \<or> is_digit c) cs then with_nodes n (scan_number cs)
       else Some (Inl json_invalid))"
| "scan_members 0 b depth s = None"
| "scan_members (Suc f) b depth (cs, n0) =
     (if \<not> starts (\<lambda>c. c = 34) cs then Some (Inl json_invalid)
      else
        and_scan (Some (add_node b (depth + 1) n0)) (\<lambda>n.
        and_scan (Some (scan_string (jbd_maximum_string b) cs)) (\<lambda>ds.
        and_scan (expect 58 (skip_ws ds)) (\<lambda>es.
        and_scan (scan_value f b (depth + 1) (skip_ws es, n)) (\<lambda>(gs, k).
          let hs = skip_ws gs in
          case consume 125 hs of
            Some r \<Rightarrow> Some (Inr (r, k))
          | None \<Rightarrow> and_scan (expect 44 hs) (\<lambda>is. scan_members f b depth (skip_ws is, k)))))))"
| "scan_elements 0 b depth s = None"
| "scan_elements (Suc f) b depth (cs, n0) =
     and_scan (scan_value f b (depth + 1) (cs, n0)) (\<lambda>(gs, k).
       let hs = skip_ws gs in
       case consume 93 hs of
         Some r \<Rightarrow> Some (Inr (r, k))
       | None \<Rightarrow> and_scan (expect 44 hs) (\<lambda>is. scan_elements f b depth (skip_ws is, k)))"

text \<open>\<open>_BoundedJsonScanner(...).scan()\<close>; the model returns the nodes it has counted.\<close>

definition scan_document :: "json_bounds \<Rightarrow> nat list \<Rightarrow> int result option" where
  "scan_document b cs0 =
     and_scan (Some (scanner_init b)) (\<lambda>_.
       let cs = skip_ws cs0 in
       if cs = [] then Some (Inl json_invalid)
       else and_scan (scan_value (Suc (2 * length cs)) b 1 (cs, 0)) (\<lambda>(ds, n).
         Some (if skip_ws ds \<noteq> [] then Inl json_invalid else Inr n)))"

section \<open>\<open>json.loads\<close>\<close>

text \<open>
  \<open>json.loads\<close> reads bytes without a NUL that begin with an ASCII character as UTF-8 with the
  \<open>surrogatepass\<close> handler; \<open>scanned_no_nul\<close> below shows that the scanner lets no others through.
\<close>

definition second_pass :: "nat \<Rightarrow> nat \<Rightarrow> bool" where
  "second_pass a b \<longleftrightarrow> (if a = 0xED then is_cont b else second_ok a b)"

definition cons_text :: "nat \<Rightarrow> pystr result \<Rightarrow> pystr result" where
  "cons_text c = map_sum id (\<lambda>t. c # t)"

fun decode_pass :: "nat list \<Rightarrow> pystr result" where
  "decode_pass [] = Inr []"
| "decode_pass (a # bs) =
     (if a < 0x80 then cons_text a (decode_pass bs)
      else
        (case bs of
           [] \<Rightarrow> Inl UnicodeDecodeError
         | b # cs \<Rightarrow>
             if 0xC2 \<le> a \<and> a < 0xE0 \<and> is_cont b
             then cons_text ((a - 0xC0) * 64 + (b - 0x80)) (decode_pass cs)
             else
               (case cs of
                  [] \<Rightarrow> Inl UnicodeDecodeError
                | c # ds \<Rightarrow>
                    if 0xE0 \<le> a \<and> a < 0xF0 \<and> second_pass a b \<and> is_cont c
                    then cons_text ((a - 0xE0) * 4096 + (b - 0x80) * 64 + (c - 0x80)) (decode_pass ds)
                    else
                      (case ds of
                         [] \<Rightarrow> Inl UnicodeDecodeError
                       | d # es \<Rightarrow>
                           if 0xF0 \<le> a \<and> a < 0xF5 \<and> second_pass a b \<and> is_cont c \<and> is_cont d
                           then cons_text ((a - 0xF0) * 262144 + (b - 0x80) * 4096 + (c - 0x80) * 64 + (d - 0x80))
                                  (decode_pass es)
                           else Inl UnicodeDecodeError))))"

text \<open>String literals after the opening quote, with the joining of surrogate pairs.\<close>

definition hex_value :: "nat \<Rightarrow> nat" where
  "hex_value c = (if c \<le> 57 then c - 48 else if c \<le> 70 then c - 55 else c - 87)"

definition hex4 :: "nat list \<Rightarrow> (nat \<times> nat list) option" where
  "hex4 cs =
     (if length cs < 4 \<or> list_ex (\<lambda>h. \<not> is_hex h) (take 4 cs) then None
      else Some (foldl (\<lambda>v h. v * 16 + hex_value h) 0 (take 4 cs), drop 4 cs))"

definition escape_value :: "nat \<Rightarrow> nat" where
  "escape_value e =
     (if e = 98 then 8 else if e = 102 then 12 else if e = 110 then 10
      else if e = 114 then 13 else if e = 116 then 9 else e)"

definition join_surrogate :: "nat \<Rightarrow> nat list \<Rightarrow> nat \<times> nat list" where
  "join_surrogate c cs =
     (if 0xD800 \<le> c \<and> c < 0xDC00 \<and> take 2 cs = [92, 117]
      then (case hex4 (drop 2 cs) of
              Some (d, ds) \<Rightarrow>
                if 0xDC00 \<le> d \<and> d < 0xE000
                then (0x10000 + (c - 0xD800) * 1024 + (d - 0xDC00), ds) else (c, cs)
            | None \<Rightarrow> (c, cs))
      else (c, cs))"

lemma hex4_length: "hex4 cs = Some (v, ds) \<Longrightarrow> length ds < length cs"
  by (auto simp: hex4_def split: if_splits)

lemma join_surrogate_length: "join_surrogate c cs = (d, ds) \<Longrightarrow> length ds \<le> length cs"
  by (auto simp: join_surrogate_def dest: hex4_length split: if_splits option.splits prod.splits)

function parse_chars :: "nat list \<Rightarrow> (pystr \<times> nat list) result" where
  "parse_chars [] = Inl JSONDecodeError"
| "parse_chars (c # cs) =
     (if c = 34 then Inr ([], cs)
      else if c < 32 then Inl JSONDecodeError
      else if c \<noteq> 92 then map_sum id (map_prod ((#) c) id) (parse_chars cs)
      else
        (case cs of
           [] \<Rightarrow> Inl JSONDecodeError
         | e # ds \<Rightarrow>
             if e \<in> set simple_escapes
             then map_sum id (map_prod ((#) (escape_value e)) id) (parse_chars ds)
             else if e \<noteq> 117 then Inl JSONDecodeError
             else
               (case hex4 ds of
                  None \<Rightarrow> Inl JSONDecodeError
                | Some (v, es) \<Rightarrow>
                    (case join_surrogate v es of
                       (w, gs) \<Rightarrow> map_sum id (map_prod ((#) w) id) (parse_chars gs)))))"
  by pat_completeness auto
termination
  by (relation "measure length") (auto dest!: hex4_length join_surrogate_length [OF sym])

definition parse_string :: "nat list \<Rightarrow> (pystr \<times> nat list) result" where
  "parse_string cs =
     (case consume 34 cs of None \<Rightarrow> Inl JSONDecodeError | Some ds \<Rightarrow> parse_chars ds)"

text \<open>
  Numbers. \<open>float_repr\<close> gives the text Python prints for the float a literal denotes (\<open>None\<close> when it
  overflows); an integer of more digits than the interpreter converts raises.
\<close>

definition python_int_max_str_digits :: nat where
  "python_int_max_str_digits = 4300"

fun digits_value :: "nat \<Rightarrow> nat list \<Rightarrow> nat" where
  "digits_value v [] = v"
| "digits_value v (c # cs) = digits_value (v * 10 + (c - 48)) cs"

definition integer_rest :: "nat list \<Rightarrow> nat list" where
  "integer_rest a = (if starts (\<lambda>c. c = 48) a then tl a else dropWhile is_digit a)"

definition fraction_rest :: "nat list \<Rightarrow> nat list" where
  "fraction_rest r =
     (if starts (\<lambda>c. c = 46) r \<and> starts is_digit (tl r) then dropWhile is_digit (tl r) else r)"

definition exponent_rest :: "nat list \<Rightarrow> nat list" where
  "exponent_rest f =
     (if starts (\<lambda>c. c = 101 \<or> c = 69) f \<and> starts is_digit (skip_sign (tl f))
      then dropWhile is_digit (skip_sign (tl f)) else f)"

definition number_parts :: "nat list \<Rightarrow> (nat list \<times> nat list \<times> nat list) option" where
  "number_parts cs =
     (let a = (if starts (\<lambda>c. c = 45) cs then tl cs else cs);
          r = integer_rest a; e = exponent_rest (fraction_rest r) in
      if \<not> starts is_digit a then None
      else Some (take (length a - length r) a, take (length cs - length e) cs, e))"

definition parse_number :: "(pystr \<Rightarrow> pystr option) \<Rightarrow> nat list \<Rightarrow> (json \<times> nat list) result" where
  "parse_number float_repr cs =
     (case number_parts cs of
        None \<Rightarrow> Inl JSONDecodeError
      | Some (digits, text_read, rest) \<Rightarrow>
          if length text_read = length digits + (if starts (\<lambda>c. c = 45) cs then 1 else 0)
          then
            (if length digits > python_int_max_str_digits
             then Inl (ValueError ''Exceeds the limit for integer string conversion'')
             else Inr (JInt (if starts (\<lambda>c. c = 45) cs then - int (digits_value 0 digits)
                             else int (digits_value 0 digits)), rest))
          else Inr (JFloat (float_repr text_read), rest))"

text \<open>\<open>_unique_object_pairs\<close>, and the dictionary that \<open>json.loads\<close> builds without a hook.\<close>

fun unique_object_pairs :: "(pystr \<times> json) list \<Rightarrow> (pystr \<times> json) list \<Rightarrow> json result" where
  "unique_object_pairs d [] = Inr (JObj d)"
| "unique_object_pairs d ((k, v) # kvs) =
     (if k \<in> set (map fst d) then Inl DuplicateJsonKey
      else unique_object_pairs (AList.update k v d) kvs)"

definition build_object :: "bool \<Rightarrow> (pystr \<times> json) list \<Rightarrow> json result" where
  "build_object reject_duplicates kvs =
     (if reject_duplicates then unique_object_pairs [] kvs
      else Inr (JObj (fold (\<lambda>(k, v). AList.update k v) kvs [])))"

definition parse_literal :: "string \<Rightarrow> json \<Rightarrow> nat list \<Rightarrow> (json \<times> nat list) result" where
  "parse_literal l v cs =
     (if take (length l) cs = lit l then Inr (v, drop (length l) cs) else Inl JSONDecodeError)"

definition require :: "nat \<Rightarrow> nat list \<Rightarrow> nat list result option" where
  "require c cs = Some (case consume c cs of None \<Rightarrow> Inl JSONDecodeError | Some ds \<Rightarrow> Inr ds)"

record json_reader =
  jrd_reject_duplicates :: bool
  jrd_float_repr :: "pystr \<Rightarrow> pystr option"

fun parse_value :: "nat \<Rightarrow> json_reader \<Rightarrow> nat list \<Rightarrow> (json \<times> nat list) result option"
and parse_members :: "nat \<Rightarrow> json_reader \<Rightarrow> nat list \<Rightarrow> ((pystr \<times> json) list \<times> nat list) result option"
and parse_elements :: "nat \<Rightarrow> json_reader \<Rightarrow> nat list \<Rightarrow> (json list \<times> nat list) result option" where
  "parse_value 0 p cs = None"
| "parse_value (Suc f) p cs =
     (if starts (\<lambda>c. c = 34) cs
      then Some (map_sum id (map_prod JStr id) (parse_string cs))
      else if starts (\<lambda>c. c = 123) cs then
        (let ds = skip_ws (tl cs) in
         and_scan (case consume 125 ds of
             Some r \<Rightarrow> Some (Inr ([], r)) | None \<Rightarrow> parse_members f p ds)
           (\<lambda>(kvs, r). Some (map_sum id (\<lambda>v. (v, r)) (build_object (jrd_reject_duplicates p) kvs))))
      else if starts (\<lambda>c. c = 91) cs then
        (let ds = skip_ws (tl cs) in
         and_scan (case consume 93 ds of
             Some r \<Rightarrow> Some (Inr ([], r)) | None \<Rightarrow> parse_elements f p ds)
           (\<lambda>(vs, r). Some (Inr (JList vs, r))))
      else if starts (\<lambda>c. c = 110) cs then Some (parse_literal ''null'' JNull cs)
      else if starts (\<lambda>c. c = 116) cs then Some (parse_literal ''true'' (JBool True) cs)
      else if starts (\<lambda>c. c = 102) cs then Some (parse_literal ''false'' (JBool False) cs)
      else if starts (\<lambda>c. c = 78) cs then Some (parse_literal ''NaN'' (JFloat None) cs)
      else if starts (\<lambda>c. c = 73) cs then Some (parse_literal ''Infinity'' (JFloat None) cs)
      else if take 9 cs = lit ''-Infinity'' then Some (parse_literal ''-Infinity'' (JFloat None) cs)
      else Some (parse_number (jrd_float_repr p) cs))"
| "parse_members 0 p cs = None"
| "parse_members (Suc f) p cs =
     and_scan (Some (parse_string cs)) (\<lambda>(k, ds).
     and_scan (require 58 (skip_ws ds)) (\<lambda>es.
     and_scan (parse_value f p (skip_ws es)) (\<lambda>(v, gs).
       let hs = skip_ws gs in
       case consume 125 hs of
         Some r \<Rightarrow> Some (Inr ([(k, v)], r))
       | None \<Rightarrow> and_scan (require 44 hs) (\<lambda>is.
           and_scan (parse_members f p (skip_ws is)) (\<lambda>(kvs, r). Some (Inr ((k, v) # kvs, r)))))))"
| "parse_elements 0 p cs = None"
| "parse_elements (Suc f) p cs =
     and_scan (parse_value f p cs) (\<lambda>(v, gs).
       let hs = skip_ws gs in
       case consume 93 hs of
         Some r \<Rightarrow> Some (Inr ([v], r))
       | None \<Rightarrow> and_scan (require 44 hs) (\<lambda>is.
           and_scan (parse_elements f p (skip_ws is)) (\<lambda>(vs, r). Some (Inr (v # vs, r)))))"

definition json_loads :: "json_reader \<Rightarrow> nat list \<Rightarrow> json result option" where
  "json_loads p data =
     and_scan (Some (decode_pass data)) (\<lambda>t.
     and_scan (parse_value (Suc (2 * length t)) p (skip_ws t)) (\<lambda>(v, r).
       Some (if skip_ws r \<noteq> [] then Inl JSONDecodeError else Inr v)))"

section \<open>The exact check\<close>

fun json_nodes :: "json \<Rightarrow> int" where
  "json_nodes (JList xs) = 1 + sum_list (map json_nodes xs)"
| "json_nodes (JObj kvs) = 1 + sum_list (map (\<lambda>p. 1 + json_nodes (snd p)) kvs)"
| "json_nodes _ = 1"

lemma sum_list_nonneg_map: "(\<And>x. x \<in> set xs \<Longrightarrow> 0 \<le> f x) \<Longrightarrow> (0::int) \<le> sum_list (map f xs)"
  by (induction xs) (auto simp: add_nonneg_nonneg)

lemma json_nodes_pos: "1 \<le> json_nodes v"
proof (induction v rule: json_nodes.induct)
  case (1 xs)
  then have "0 \<le> sum_list (map json_nodes xs)" by (intro sum_list_nonneg_map) fastforce
  then show ?case by simp
next
  case (2 kvs)
  then have "0 \<le> sum_list (map (\<lambda>p. 1 + json_nodes (snd p)) kvs)" by (intro sum_list_nonneg_map) fastforce
  then show ?case by simp
qed simp_all

text \<open>
  \<open>validate_json_shape\<close>: the stack is popped and extended at its end, so its end is the head of
  the list here.
\<close>

definition string_within :: "json_bounds \<Rightarrow> pystr \<Rightarrow> unit result" where
  "string_within b t =
     (case jbd_maximum_string b of
        None \<Rightarrow> Inr ()
      | Some m \<Rightarrow>
          (case utf8_size t of
             Inl e \<Rightarrow> Inl e
           | Inr k \<Rightarrow> if k > m then Inl (JsonBoundExceeded ''JSON string exceeds the byte bound'')
                      else Inr ()))"

fun shape_children :: "json \<Rightarrow> json list" where
  "shape_children (JObj kvs) = map (JStr \<circ> fst) kvs @ map snd kvs"
| "shape_children (JList xs) = xs"
| "shape_children _ = []"

definition stack_nodes :: "(json \<times> int) list \<Rightarrow> int" where
  "stack_nodes st = sum_list (map (json_nodes \<circ> fst) st)"

lemma sum_list_member: "x \<in> set xs \<Longrightarrow> (\<And>y. 0 \<le> f y) \<Longrightarrow> f x \<le> sum_list (map f xs)" for f :: "'a \<Rightarrow> int"
proof (induction xs)
  case (Cons a xs)
  have "0 \<le> sum_list (map f xs)" using Cons.prems(2) by (intro sum_list_nonneg_map) auto
  with Cons show ?case using Cons.prems(2) [of a] by fastforce
qed simp

lemma children_nodes: "1 + sum_list (map json_nodes (shape_children v)) = json_nodes v"
proof (cases v)
  case (JObj kvs)
  have "sum_list (map (json_nodes \<circ> (JStr \<circ> fst)) kvs) + sum_list (map (json_nodes \<circ> snd) kvs)
      = sum_list (map (\<lambda>p. 1 + json_nodes (snd p)) kvs)"
    by (induction kvs) auto
  with JObj show ?thesis by (simp add: comp_def)
qed auto

lemma stack_nodes_simps [simp]:
  "stack_nodes [] = 0" "stack_nodes ((v, d) # st) = json_nodes v + stack_nodes st"
  "stack_nodes (s @ t) = stack_nodes s + stack_nodes t"
  by (simp_all add: stack_nodes_def)

lemma stack_nodes_children:
  "stack_nodes (map (\<lambda>x. (x, d)) (rev (shape_children v))) = json_nodes v - 1"
proof -
  have "sum_list (map json_nodes (rev (shape_children v))) = sum_list (map json_nodes (shape_children v))"
    by (simp add: rev_map [symmetric])
  with children_nodes [of v] show ?thesis by (simp add: stack_nodes_def comp_def)
qed

lemma stack_nodes_nonneg: "0 \<le> stack_nodes st"
proof (induction st)
  case (Cons a st)
  then show ?case using json_nodes_pos [of "fst a"] by (cases a) simp
qed simp

function validate_stack :: "json_bounds \<Rightarrow> int \<Rightarrow> (json \<times> int) list \<Rightarrow> int result" where
  "validate_stack b nodes [] = Inr nodes"
| "validate_stack b nodes ((v, depth) # st) =
     (if nodes + 1 > jbd_maximum_nodes b then Inl (JsonBoundExceeded ''JSON node bound exceeded'')
      else if depth > jbd_maximum_depth b then Inl (JsonBoundExceeded ''JSON depth bound exceeded'')
      else
        (case (case v of JStr t \<Rightarrow> string_within b t | _ \<Rightarrow> Inr ()) of
           Inl e \<Rightarrow> Inl e
         | Inr _ \<Rightarrow> validate_stack b (nodes + 1)
             (map (\<lambda>x. (x, depth + 1)) (rev (shape_children v)) @ st)))"
  by pat_completeness auto
termination
proof (relation "measure (\<lambda>(_, _, st). nat (stack_nodes st))")
  fix b :: json_bounds and nodes depth :: int and v :: json and st :: "(json \<times> int) list"
  show "((b, nodes + 1, map (\<lambda>x. (x, depth + 1)) (rev (shape_children v)) @ st), b, nodes, (v, depth) # st)
      \<in> measure (\<lambda>(_, _, st). nat (stack_nodes st))"
    using json_nodes_pos [of v] stack_nodes_nonneg [of st] by (simp add: stack_nodes_children)
qed simp

definition validate_json_shape :: "json_bounds \<Rightarrow> json \<Rightarrow> int result" where
  "validate_json_shape b v = validate_stack b 0 [(v, 1)]"

text \<open>The whole reader; syntax and decoding errors of \<open>json.loads\<close> are reported as one.\<close>

definition body_error :: "py_error \<Rightarrow> py_error" where
  "body_error e = (if e \<in> {UnicodeDecodeError, JSONDecodeError} then json_invalid else e)"

definition bounded_json_loads ::
  "int \<Rightarrow> json_bounds \<Rightarrow> json_reader \<Rightarrow> bytes \<Rightarrow> json result option" where
  "bounded_json_loads maximum_bytes b p data =
     (if int (length data) > maximum_bytes
      then Some (Inl (JsonBoundExceeded ''JSON body exceeds the byte bound''))
      else
        and_scan (scan_document b (map unat data)) (\<lambda>_.
        and_scan (map_option (map_sum body_error id) (json_loads p (map unat data))) (\<lambda>v.
          Some (map_sum id (\<lambda>_. v) (validate_json_shape b v)))))"

end
