(* ===== verification/Bounded_Json_Safety.thy ===== *)
theory Bounded_Json_Safety
  imports Bounded_Json
begin

text \<open>
  Facts about the bounded JSON reader: the exact check as a predicate on the value, the fuel of the
  scanner and of the parser, and how the two read the same text.
\<close>

section \<open>The exact check\<close>

fun nested :: "int \<Rightarrow> int \<Rightarrow> json \<Rightarrow> bool" where
  "nested D d (JList xs) \<longleftrightarrow> d \<le> D \<and> (\<forall>x \<in> set xs. nested D (d + 1) x)"
| "nested D d (JObj kvs) \<longleftrightarrow> d \<le> D \<and> (\<forall>p \<in> set kvs. d + 1 \<le> D \<and> nested D (d + 1) (snd p))"
| "nested D d _ \<longleftrightarrow> d \<le> D"

fun strings_within :: "json_bounds \<Rightarrow> json \<Rightarrow> bool" where
  "strings_within b (JStr t) \<longleftrightarrow> string_within b t = Inr ()"
| "strings_within b (JList xs) \<longleftrightarrow> (\<forall>x \<in> set xs. strings_within b x)"
| "strings_within b (JObj kvs) \<longleftrightarrow>
     (\<forall>p \<in> set kvs. string_within b (fst p) = Inr () \<and> strings_within b (snd p))"
| "strings_within b _ \<longleftrightarrow> True"

lemma nested_unfold:
  "nested D d v \<longleftrightarrow> d \<le> D \<and> (\<forall>x \<in> set (shape_children v). nested D (d + 1) x)"
  by (cases v) (auto simp: ball_Un)

lemma strings_within_unfold:
  "strings_within b v \<longleftrightarrow> (case v of JStr t \<Rightarrow> string_within b t | _ \<Rightarrow> Inr ()) = Inr () \<and>
     (\<forall>x \<in> set (shape_children v). strings_within b x)"
  by (cases v) (auto simp: ball_Un)

lemma validate_stack_iff:
  "validate_stack b n st = Inr m \<longleftrightarrow>
     m = n + stack_nodes st \<and> (st \<noteq> [] \<longrightarrow> m \<le> jbd_maximum_nodes b) \<and>
     (\<forall>(v, d) \<in> set st. nested (jbd_maximum_depth b) d v \<and> strings_within b v)"
proof (induction b n st rule: validate_stack.induct)
  case (2 b n v d st)
  let ?c = "map (\<lambda>x. (x, d + 1)) (rev (shape_children v)) @ st"
  have nodes: "n + 1 + stack_nodes ?c = n + stack_nodes ((v, d) # st)"
    by (simp add: stack_nodes_children)
  have le: "n + 1 \<le> n + stack_nodes ((v, d) # st)"
    using json_nodes_pos [of v] stack_nodes_nonneg [of st] by simp
  show ?case
  proof (cases "n + 1 \<le> jbd_maximum_nodes b \<and> d \<le> jbd_maximum_depth b \<and>
      (case v of JStr t \<Rightarrow> string_within b t | _ \<Rightarrow> Inr ()) = Inr ()")
    case True
    then have "validate_stack b n ((v, d) # st) = validate_stack b (n + 1) ?c" by simp
    moreover have "validate_stack b (n + 1) ?c = Inr m \<longleftrightarrow>
        m = n + 1 + stack_nodes ?c \<and> (?c \<noteq> [] \<longrightarrow> m \<le> jbd_maximum_nodes b) \<and>
        (\<forall>(v, d) \<in> set ?c. nested (jbd_maximum_depth b) d v \<and> strings_within b v)"
      by (rule "2.IH") (use True in auto)
    moreover have "(\<forall>(v, d) \<in> set ?c. nested (jbd_maximum_depth b) d v \<and> strings_within b v) \<longleftrightarrow>
        (\<forall>(v, d) \<in> set ((v, d) # st). nested (jbd_maximum_depth b) d v \<and> strings_within b v)"
      using True by (auto simp: nested_unfold [of _ d v] strings_within_unfold [of b v])
    moreover have "?c = [] \<Longrightarrow> stack_nodes ?c = 0" by simp
    ultimately show ?thesis using nodes True by force
  next
    case False
    obtain e where e: "validate_stack b n ((v, d) # st) = Inl e"
    proof (cases "case v of JStr t \<Rightarrow> string_within b t | _ \<Rightarrow> Inr ()")
      case (Inl e)
      have "\<exists>e'. validate_stack b n ((v, d) # st) = Inl e'"
        unfolding validate_stack.simps Inl by simp
      with that show thesis by blast
    next
      case (Inr u)
      with False have "jbd_maximum_nodes b < n + 1 \<or> jbd_maximum_depth b < d" by auto
      then have "\<exists>e'. validate_stack b n ((v, d) # st) = Inl e'"
        unfolding validate_stack.simps by (elim disjE) simp_all
      with that show thesis by blast
    qed
    have "\<not> (nested (jbd_maximum_depth b) d v \<and> strings_within b v \<and>
        n + stack_nodes ((v, d) # st) \<le> jbd_maximum_nodes b)"
      using False le by (auto simp: nested_unfold [of _ d v] strings_within_unfold [of b v])
    with e show ?thesis by auto
  qed
qed auto

lemma validate_json_shape_iff:
  "validate_json_shape b v = Inr m \<longleftrightarrow>
     m = json_nodes v \<and> m \<le> jbd_maximum_nodes b \<and> nested (jbd_maximum_depth b) 1 v \<and> strings_within b v"
  unfolding validate_json_shape_def validate_stack_iff by auto

section \<open>Fuel\<close>

lemma consume_Some [simp]: "consume c cs = Some ds \<longleftrightarrow> cs = c # ds"
  by (cases cs) (auto simp: consume_def)

lemma consume_None: "consume c cs = None \<longleftrightarrow> \<not> starts (\<lambda>d. d = c) cs"
  by (cases cs) (auto simp: consume_def starts_def)

lemma skip_ws_length: "length (skip_ws cs) \<le> length cs"
  by (simp add: skip_ws_def length_dropWhile_le)

lemma starts_Cons [simp]: "starts p (c # cs) = p c" "\<not> starts p []"
  by (simp_all add: starts_def)

lemma starts_tl: "starts p cs \<Longrightarrow> length cs = Suc (length (tl cs))"
  by (cases cs) auto

lemma and_scan_Inr: "and_scan r f = Some (Inr y) \<longleftrightarrow> (\<exists>x. r = Some (Inr x) \<and> f x = Some (Inr y))"
  by (auto simp: and_scan_def split: option.splits sum.splits)

lemma and_scan_total:
  "r \<noteq> None \<Longrightarrow> (\<And>x. r = Some (Inr x) \<Longrightarrow> f x \<noteq> None) \<Longrightarrow> and_scan r f \<noteq> None"
  by (auto simp: and_scan_def split: option.splits sum.splits)

lemma scan_chars_shorter: "scan_chars m k cs = Inr ds \<Longrightarrow> length ds < length cs"
proof (induction m k cs rule: scan_chars.induct)
  case (2 m k c cs)
  from "2.prems" show ?case
    by (auto split: if_splits list.splits dest: "2.IH") (use "2.IH" in fastforce)+
qed simp

lemma scan_string_shorter: "scan_string m cs = Inr ds \<Longrightarrow> length ds < length cs"
  by (auto simp: scan_string_def dest!: scan_chars_shorter split: option.splits)

lemma scan_literal_shorter: "scan_literal l cs = Inr ds \<Longrightarrow> length ds \<le> length cs"
  by (auto simp: scan_literal_def split: if_splits)

lemma dropWhile_shorter: "length (dropWhile p cs) \<le> length cs"
  by (rule length_dropWhile_le)

lemma scan_number_shorter: "scan_number cs = Inr ds \<Longrightarrow> length ds \<le> length cs"
proof -
  have i: "scan_integer a = Inr r \<Longrightarrow> length r \<le> length a" for a r
    by (auto simp: scan_integer_def split: option.splits if_splits intro: dropWhile_shorter)
  have f: "scan_fraction a = Inr r \<Longrightarrow> length r \<le> length a" for a r
    using dropWhile_shorter [of is_digit "tl a"]
    by (auto simp: scan_fraction_def split: option.splits if_splits)
  have x: "length (skip_sign (tl a)) \<le> length a" for a
    by (auto simp: skip_sign_def)
  have e: "scan_exponent a = Inr r \<Longrightarrow> length r \<le> length a" for a r
    using dropWhile_shorter [of is_digit "skip_sign (tl a)"] x [of a]
    by (auto simp: scan_exponent_def Let_def split: if_splits)
  show "scan_number cs = Inr ds \<Longrightarrow> length ds \<le> length cs"
    using i f e by (fastforce simp: scan_number_def Let_def bind_result_Inr split: option.splits if_splits)
qed

text \<open>Two units of fuel per byte and one more are enough, and every step shortens the rest.\<close>

lemma add_node_Inr: "add_node b d n = Inr m \<longleftrightarrow> m = n + 1 \<and> d \<le> jbd_maximum_depth b \<and> n + 1 \<le> jbd_maximum_nodes b"
  by (auto simp: add_node_def)

lemma consume_self [simp]: "consume c (c # cs) = Some cs"
  by simp

lemma expect_Inr: "expect c cs = Some (Inr ds) \<longleftrightarrow> cs = c # ds"
  by (auto simp: expect_def split: option.splits)

lemma require_Inr: "require c cs = Some (Inr ds) \<longleftrightarrow> cs = c # ds"
  by (auto simp: require_def split: option.splits)

lemma with_nodes_Inr: "with_nodes n r = Some (Inr t) \<longleftrightarrow> (\<exists>cs. r = Inr cs \<and> t = (cs, n))"
  by (cases r) (auto simp: with_nodes_def)

lemma tl_skip: "length (skip_ws (tl cs)) \<le> length cs - 1"
  using skip_ws_length [of "tl cs"] by simp

lemma starts_eq: "starts (\<lambda>c. c = x) cs \<longleftrightarrow> (\<exists>ds. cs = x # ds)"
  by (cases cs) auto

lemma scan_value_depth:
  "scan_value (Suc f) b d (cs, n0) = Some (Inr s) \<Longrightarrow> d \<le> jbd_maximum_depth b"
  by (auto simp: and_scan_Inr add_node_Inr)

lemma scan_value_elim:
  assumes "scan_value (Suc f) b d (cs, n0) = Some (Inr (r, k))"
  obtains (empty_object) ds where "cs = 123 # ds" "skip_ws ds = 125 # r" "k = n0 + 1"
  | (object) ds where "cs = 123 # ds" "\<not> starts (\<lambda>c. c = 125) (skip_ws ds)"
      "scan_members f b d (skip_ws ds, n0 + 1) = Some (Inr (r, k))"
  | (empty_array) ds where "cs = 91 # ds" "skip_ws ds = 93 # r" "k = n0 + 1"
  | (array) ds where "cs = 91 # ds" "\<not> starts (\<lambda>c. c = 93) (skip_ws ds)"
      "scan_elements f b d (skip_ws ds, n0 + 1) = Some (Inr (r, k))"
  | (string) ds where "cs = 34 # ds" "scan_string (jbd_maximum_string b) cs = Inr r" "k = n0 + 1"
  | (literal) l where "(l, hd cs) \<in> {(''true'', 116), (''false'', 102), (''null'', 110)}"
      "scan_literal l cs = Inr r" "k = n0 + 1"
  | (number) c ds where "cs = c # ds" "c = 45 \<or> is_digit c" "scan_number cs = Inr r" "k = n0 + 1"
proof (cases cs)
  case Nil
  with assms show thesis by (auto simp: and_scan_Inr)
next
  case (Cons c ds)
  note scan = assms [simplified Cons scan_value.simps and_scan_Inr add_node_Inr option.inject sum.inject]
  consider "c = 123" | "c = 91" | "c = 34" | "c = 116" | "c = 102" | "c = 110" | "c = 45 \<or> is_digit c"
    | "c \<notin> {123, 91, 34, 116, 102, 110, 45}" "\<not> is_digit c" by blast
  then show thesis
  proof cases
    case 1
    show thesis
    proof (cases "consume 125 (skip_ws ds)")
      case None
      with scan 1 show thesis by (intro that(2) [of ds]) (auto simp: Cons consume_None)
    next
      case (Some e)
      with scan 1 show thesis by (intro that(1) [of ds]) (auto simp: Cons)
    qed
  next
    case 2
    show thesis
    proof (cases "consume 93 (skip_ws ds)")
      case None
      with scan 2 show thesis by (intro that(4) [of ds]) (auto simp: Cons consume_None)
    next
      case (Some e)
      with scan 2 show thesis by (intro that(3) [of ds]) (auto simp: Cons)
    qed
  next
    case 3
    with scan have "scan_string (jbd_maximum_string b) cs = Inr r" "k = n0 + 1"
      by (simp_all add: Cons with_nodes_Inr)
    with 3 show thesis by (intro that(5) [of ds]) (simp_all add: Cons)
  next
    case 4
    with scan have "scan_literal ''true'' cs = Inr r" "k = n0 + 1" by (simp_all add: Cons with_nodes_Inr)
    with 4 show thesis by (intro that(6) [of "''true''"]) (simp_all add: Cons)
  next
    case 5
    with scan have "scan_literal ''false'' cs = Inr r" "k = n0 + 1" by (simp_all add: Cons with_nodes_Inr)
    with 5 show thesis by (intro that(6) [of "''false''"]) (simp_all add: Cons)
  next
    case 6
    with scan have "scan_literal ''null'' cs = Inr r" "k = n0 + 1" by (simp_all add: Cons with_nodes_Inr)
    with 6 show thesis by (intro that(6) [of "''null''"]) (simp_all add: Cons)
  next
    case 7
    then have "c \<notin> {123, 91, 34, 116, 102, 110}" by (auto simp: is_digit_def)
    with 7 scan have "scan_number cs = Inr r" "k = n0 + 1" by (simp_all add: Cons with_nodes_Inr)
    with 7 show thesis by (intro that(7) [of c ds]) (simp_all add: Cons)
  next
    case 8
    with scan show thesis by simp
  qed
qed

text \<open>The end of a list of members or elements: the closing character, or a comma and the rest.\<close>

lemma closing_cases:
  assumes "(case consume c hs of Some r \<Rightarrow> Some (Inr (g r)) | None \<Rightarrow> and_scan (expect 44 hs) rest) = Some (Inr x)"
  shows "(\<exists>r. hs = c # r \<and> x = g r) \<or> (\<exists>is. hs = 44 # is \<and> rest is = Some (Inr x))"
proof (cases "consume c hs")
  case None
  with assms show ?thesis by (auto simp: and_scan_Inr expect_Inr)
next
  case (Some r)
  with assms show ?thesis by auto
qed

lemma scan_members_elim:
  assumes "scan_members (Suc f) b d (cs, n0) = Some (Inr (r, k))"
  obtains ds es gs j where "d + 1 \<le> jbd_maximum_depth b" "starts (\<lambda>c. c = 34) cs"
    "scan_string (jbd_maximum_string b) cs = Inr ds" "skip_ws ds = 58 # es"
    "scan_value f b (d + 1) (skip_ws es, n0 + 1) = Some (Inr (gs, j))"
    "skip_ws gs = 125 # r \<and> k = j \<or>
     (\<exists>is. skip_ws gs = 44 # is \<and> scan_members f b d (skip_ws is, j) = Some (Inr (r, k)))"
proof -
  have q: "starts (\<lambda>c. c = 34) cs" using assms by (rule contrapos_pp) simp
  from assms q obtain ds es gs j where *: "d + 1 \<le> jbd_maximum_depth b"
    "scan_string (jbd_maximum_string b) cs = Inr ds" "skip_ws ds = 58 # es"
    "scan_value f b (d + 1) (skip_ws es, n0 + 1) = Some (Inr (gs, j))"
    "(case consume 125 (skip_ws gs) of Some r \<Rightarrow> Some (Inr (r, j))
      | None \<Rightarrow> and_scan (expect 44 (skip_ws gs)) (\<lambda>is. scan_members f b d (skip_ws is, j))) = Some (Inr (r, k))"
    unfolding scan_members.simps Let_def by (simp add: and_scan_Inr add_node_Inr expect_Inr) blast
  from closing_cases [where g = "\<lambda>r. (r, j)", OF *(5)] show thesis
    by (intro that [OF *(1) q *(2) *(3) *(4)]) auto
qed

lemma scan_elements_elim:
  assumes "scan_elements (Suc f) b d (cs, n0) = Some (Inr (r, k))"
  obtains gs j where "scan_value f b (d + 1) (cs, n0) = Some (Inr (gs, j))"
    "skip_ws gs = 93 # r \<and> k = j \<or>
     (\<exists>is. skip_ws gs = 44 # is \<and> scan_elements f b d (skip_ws is, j) = Some (Inr (r, k)))"
proof -
  from assms obtain gs j where *: "scan_value f b (d + 1) (cs, n0) = Some (Inr (gs, j))"
    "(case consume 93 (skip_ws gs) of Some r \<Rightarrow> Some (Inr (r, j))
      | None \<Rightarrow> and_scan (expect 44 (skip_ws gs)) (\<lambda>is. scan_elements f b d (skip_ws is, j))) = Some (Inr (r, k))"
    unfolding scan_elements.simps Let_def by (auto simp: and_scan_Inr)
  from closing_cases [where g = "\<lambda>r. (r, j)", OF *(2)] show thesis by (intro that [OF *(1)]) auto
qed

lemma scan_shorter:
  "(scan_value f b d (cs, n) = Some (Inr (r, k)) \<longrightarrow> length r \<le> length cs) \<and>
   (scan_members f b d (cs, n) = Some (Inr (r, k)) \<longrightarrow> length r < length cs) \<and>
   (scan_elements f b d (cs, n) = Some (Inr (r, k)) \<longrightarrow> length r \<le> length cs)"
proof (induction f arbitrary: d cs n r k)
  case (Suc f)
  have "length r \<le> length cs" if "scan_value (Suc f) b d (cs, n) = Some (Inr (r, k))"
    using that
  proof (cases rule: scan_value_elim)
    case (empty_object ds)
    then show ?thesis using skip_ws_length [of ds] by simp
  next
    case (object ds)
    then show ?thesis using Suc.IH [of d "skip_ws ds" "n + 1" r k] skip_ws_length [of ds] by simp
  next
    case (empty_array ds)
    then show ?thesis using skip_ws_length [of ds] by simp
  next
    case (array ds)
    then show ?thesis using Suc.IH [of d "skip_ws ds" "n + 1" r k] skip_ws_length [of ds] by simp
  next
    case (string ds)
    then show ?thesis using scan_string_shorter [OF string(2)] by simp
  next
    case (literal l)
    then show ?thesis using scan_literal_shorter [OF literal(2)] by simp
  next
    case (number c ds)
    then show ?thesis using scan_number_shorter [OF number(3)] by simp
  qed
  moreover have "length r < length cs" if "scan_members (Suc f) b d (cs, n) = Some (Inr (r, k))"
    using that
  proof (cases rule: scan_members_elim)
    case (1 ds es gs j)
    have gs: "length gs < length cs"
      using scan_string_shorter [OF 1(3)] skip_ws_length [of ds] skip_ws_length [of es] 1(4)
        Suc.IH [of "d + 1" "skip_ws es" "n + 1" gs j] 1(5) by simp
    from 1(6) show ?thesis
    proof (elim disjE exE conjE)
      assume "skip_ws gs = 125 # r"
      then show ?thesis using gs skip_ws_length [of gs] by simp
    next
      fix a assume "skip_ws gs = 44 # a" "scan_members f b d (skip_ws a, j) = Some (Inr (r, k))"
      then show ?thesis
        using gs skip_ws_length [of gs] skip_ws_length [of a] Suc.IH [of d "skip_ws a" j r k] by simp
    qed
  qed
  moreover have "length r \<le> length cs" if "scan_elements (Suc f) b d (cs, n) = Some (Inr (r, k))"
    using that
  proof (cases rule: scan_elements_elim)
    case (1 gs j)
    have gs: "length gs \<le> length cs" using Suc.IH [of "d + 1" cs n gs j] 1(1) by simp
    from 1(2) show ?thesis
    proof (elim disjE exE conjE)
      assume "skip_ws gs = 93 # r"
      then show ?thesis using gs skip_ws_length [of gs] by simp
    next
      fix a assume "skip_ws gs = 44 # a" "scan_elements f b d (skip_ws a, j) = Some (Inr (r, k))"
      then show ?thesis
        using gs skip_ws_length [of gs] skip_ws_length [of a] Suc.IH [of d "skip_ws a" j r k] by simp
    qed
  qed
  ultimately show ?case by blast
qed simp

lemma closing_total:
  assumes "\<And>a. hs = 44 # a \<Longrightarrow> rest a \<noteq> None"
  shows "(case consume c hs of Some r \<Rightarrow> Some (Inr (g r)) | None \<Rightarrow> and_scan (expect 44 hs) rest) \<noteq> None"
proof (cases "consume c hs")
  case None
  have "and_scan (expect 44 hs) rest \<noteq> None"
    by (rule and_scan_total) (auto simp: expect_Inr assms, simp add: expect_def)
  with None show ?thesis by simp
qed simp

lemma scan_total:
  "(2 * length cs < f \<longrightarrow> scan_value f b d (cs, n) \<noteq> None) \<and>
   (2 * length cs < f \<longrightarrow> scan_members f b d (cs, n) \<noteq> None) \<and>
   (2 * length cs + 1 < f \<longrightarrow> scan_elements f b d (cs, n) \<noteq> None)"
proof (induction f arbitrary: d cs n)
  case (Suc f)
  have "scan_value (Suc f) b d (cs, n) \<noteq> None" if "2 * length cs < Suc f"
  proof -
    have inner: "scan_members f b d (skip_ws (tl cs), m) \<noteq> None \<and> scan_elements f b d (skip_ws (tl cs), m) \<noteq> None"
      if "starts p cs" for p m
    proof -
      have "2 * length (skip_ws (tl cs)) + 1 < f"
        using tl_skip [of cs] starts_tl [OF that] \<open>2 * length cs < Suc f\<close> by linarith
      then show ?thesis using Suc.IH [of "skip_ws (tl cs)" d m] by simp
    qed
    show ?thesis
      unfolding scan_value.simps
    proof (rule and_scan_total)
      fix m
      show "(if starts (\<lambda>c. c = 123) cs then
         (let ds = skip_ws (tl cs) in
          case consume 125 ds of
            Some r \<Rightarrow> Some (Inr (r, m)) | None \<Rightarrow> scan_members f b d (ds, m))
       else if starts (\<lambda>c. c = 91) cs then
         (let ds = skip_ws (tl cs) in
          case consume 93 ds of
            Some r \<Rightarrow> Some (Inr (r, m)) | None \<Rightarrow> scan_elements f b d (ds, m))
       else if starts (\<lambda>c. c = 34) cs then with_nodes m (scan_string (jbd_maximum_string b) cs)
       else if starts (\<lambda>c. c = 116) cs then with_nodes m (scan_literal ''true'' cs)
       else if starts (\<lambda>c. c = 102) cs then with_nodes m (scan_literal ''false'' cs)
       else if starts (\<lambda>c. c = 110) cs then with_nodes m (scan_literal ''null'' cs)
       else if starts (\<lambda>c. c = 45 \<or> is_digit c) cs then with_nodes m (scan_number cs)
       else Some (Inl json_invalid)) \<noteq> None"
        using inner [of _ m] by (auto simp: Let_def with_nodes_def split: option.split)
    qed simp
  qed
  moreover have "scan_members (Suc f) b d (cs, n) \<noteq> None" if *: "2 * length cs < Suc f"
  proof -
    have v: "scan_value f b (d + 1) (skip_ws es, m) \<noteq> None"
      if "scan_string (jbd_maximum_string b) cs = Inr ds" "skip_ws ds = 58 # es" for ds es m
      using scan_string_shorter [OF that(1)] skip_ws_length [of ds] skip_ws_length [of es] that(2)
        Suc.IH [of "skip_ws es" "d + 1" m] * by simp
    have r: "scan_members f b d (skip_ws a, k) \<noteq> None"
      if "scan_string (jbd_maximum_string b) cs = Inr ds" "skip_ws ds = 58 # es"
        "scan_value f b (d + 1) (skip_ws es, m) = Some (Inr (gs, k))" "skip_ws gs = 44 # a" for ds es gs m k a
      using scan_string_shorter [OF that(1)] skip_ws_length [of ds] skip_ws_length [of es] that(2-4)
        scan_shorter [of f b "d + 1" "skip_ws es" m gs k] skip_ws_length [of gs] skip_ws_length [of a]
        Suc.IH [of "skip_ws a" d k] * by simp
    show ?thesis
      unfolding scan_members.simps Let_def
      apply (simp only: if_distrib [of "\<lambda>x. x \<noteq> None"] split: if_split)
      apply (intro conjI impI and_scan_total)
          apply (simp_all add: expect_Inr v del: not_None_eq)
       apply (simp add: expect_def)
      apply (clarsimp simp only: prod.case split: prod.split)
      apply (fold not_None_eq)
      apply (rule closing_total)
      apply (rule r)
         apply assumption+
      done
  qed
  moreover have "scan_elements (Suc f) b d (cs, n) \<noteq> None" if *: "2 * length cs + 1 < Suc f"
  proof -
    have r: "scan_elements f b d (skip_ws a, k) \<noteq> None"
      if "scan_value f b (d + 1) (cs, n) = Some (Inr (gs, k))" "skip_ws gs = 44 # a" for a gs k
      using that(2) skip_ws_length [of gs] skip_ws_length [of a] Suc.IH [of "skip_ws a" d k] *
        scan_shorter [of f b "d + 1" cs n gs k] that(1) by simp
    have v: "scan_value f b (d + 1) (cs, n) \<noteq> None" using * Suc.IH [of cs "d + 1" n] by simp
    show ?thesis
      unfolding scan_elements.simps Let_def
      apply (rule and_scan_total [OF v])
      apply (clarsimp simp only: prod.case split: prod.split)
      apply (fold not_None_eq)
      apply (rule closing_total)
      apply (rule r)
       apply assumption+
      done
  qed
  ultimately show ?case by blast
qed simp

lemma scan_document_total: "scan_document b cs \<noteq> None"
proof -
  have "scan_value (Suc (2 * length (skip_ws cs))) b 1 (skip_ws cs, 0) \<noteq> None"
    using scan_total [of "skip_ws cs" "Suc (2 * length (skip_ws cs))" b 1 0] by simp
  then have "and_scan (scan_value (Suc (2 * length (skip_ws cs))) b 1 (skip_ws cs, 0))
      (\<lambda>(ds, n). Some (if skip_ws ds \<noteq> [] then Inl json_invalid else Inr n)) \<noteq> None"
    by (rule and_scan_total) auto
  then show ?thesis
    unfolding scan_document_def Let_def by (intro and_scan_total) (auto simp del: scan_value.simps)
qed

section \<open>The parser\<close>

lemma parse_chars_shorter: "parse_chars cs = Inr (t, ds) \<Longrightarrow> length ds < length cs"
proof (induction cs arbitrary: t ds rule: parse_chars.induct)
  case (2 c cs)
  have map_Inr: "map_sum id (map_prod h id) r = Inr (t, ds) \<Longrightarrow> \<exists>u. r = Inr (u, ds)" for h r
    by (cases r) auto
  show ?case
  proof (cases "c = 34 \<or> c < 32")
    case False
    then have c: "c \<noteq> 34" "\<not> c < 32" by auto
    show ?thesis
    proof (cases "c = 92")
      case False
      with 2 c show ?thesis by (auto dest!: map_Inr)
    next
      case True
      with "2.prems" c obtain e es where cs: "cs = e # es" by (cases cs) auto
      show ?thesis
      proof (cases "e \<in> set simple_escapes")
        case True
        with 2 c cs \<open>c = 92\<close> show ?thesis by (fastforce dest!: map_Inr)
      next
        case False
        with "2.prems" c cs \<open>c = 92\<close> obtain v gs where h: "hex4 es = Some (v, gs)" "e = 117"
          by (auto split: if_splits option.splits)
        obtain w hs where j: "join_surrogate v gs = (w, hs)" by (cases "join_surrogate v gs")
        have "\<exists>u. parse_chars hs = Inr (u, ds)"
          using "2.prems" c cs \<open>c = 92\<close> False h j by (auto dest!: map_Inr)
        then obtain u where "parse_chars hs = Inr (u, ds)" by blast
        then have "length ds < length hs"
          by (rule "2.IH"(3) [rotated -1]) (use c cs \<open>c = 92\<close> False h j in auto)
        with hex4_length [OF h(1)] join_surrogate_length [OF j] cs show ?thesis by simp
      qed
    qed
  qed (use "2.prems" in auto)
qed simp

lemma parse_string_shorter: "parse_string cs = Inr (t, ds) \<Longrightarrow> length ds < length cs"
  by (auto simp: parse_string_def dest!: parse_chars_shorter split: option.splits)

lemma skip_sign_length: "length (skip_sign cs) \<le> length cs"
  by (simp add: skip_sign_def)

lemma integer_rest_length: "length (integer_rest a) \<le> length a"
  using length_dropWhile_le [of is_digit a] by (simp add: integer_rest_def)

lemma fraction_rest_length: "length (fraction_rest a) \<le> length a"
  using length_dropWhile_le [of is_digit "tl a"] by (cases a) (simp_all add: fraction_rest_def)

lemma exponent_rest_length: "length (exponent_rest a) \<le> length a"
  using length_dropWhile_le [of is_digit "skip_sign (tl a)"] skip_sign_length [of "tl a"]
  by (cases a) (simp_all add: exponent_rest_def)

lemma number_parts_shorter: "number_parts cs = Some (d, l, r) \<Longrightarrow> length r \<le> length cs"
  using integer_rest_length [of "if starts (\<lambda>c. c = 45) cs then tl cs else cs"]
    fraction_rest_length [of "integer_rest (if starts (\<lambda>c. c = 45) cs then tl cs else cs)"]
    exponent_rest_length [of "fraction_rest (integer_rest (if starts (\<lambda>c. c = 45) cs then tl cs else cs))"]
  by (simp add: number_parts_def Let_def split: if_splits)

lemma parse_number_shorter: "parse_number g cs = Inr (v, r) \<Longrightarrow> length r \<le> length cs"
  by (auto simp: parse_number_def dest!: number_parts_shorter split: option.splits if_splits)

lemma parse_literal_shorter: "parse_literal l v cs = Inr (w, r) \<Longrightarrow> w = v \<and> length r \<le> length cs"
  by (auto simp: parse_literal_def split: if_splits)

lemma closing_require:
  assumes "(case consume c hs of Some r \<Rightarrow> Some (Inr (g r)) | None \<Rightarrow> and_scan (require 44 hs) rest) = Some (Inr x)"
  shows "(\<exists>r. hs = c # r \<and> x = g r) \<or> (\<exists>is. hs = 44 # is \<and> rest is = Some (Inr x))"
proof (cases "consume c hs")
  case None
  with assms show ?thesis by (auto simp: and_scan_Inr require_Inr)
next
  case (Some r)
  with assms show ?thesis by auto
qed

lemma closing_require_total:
  assumes "\<And>a. hs = 44 # a \<Longrightarrow> rest a \<noteq> None"
  shows "(case consume c hs of Some r \<Rightarrow> Some (Inr (g r)) | None \<Rightarrow> and_scan (require 44 hs) rest) \<noteq> None"
proof (cases "consume c hs")
  case None
  have "and_scan (require 44 hs) rest \<noteq> None"
    by (rule and_scan_total) (auto simp: require_Inr assms, simp add: require_def)
  with None show ?thesis by simp
qed simp

lemma parse_members_elim:
  assumes "parse_members (Suc f) p cs = Some (Inr (m, r))"
  obtains k ds es v gs where "parse_string cs = Inr (k, ds)" "skip_ws ds = 58 # es"
    "parse_value f p (skip_ws es) = Some (Inr (v, gs))"
    "skip_ws gs = 125 # r \<and> m = [(k, v)] \<or>
     (\<exists>is kvs. skip_ws gs = 44 # is \<and> m = (k, v) # kvs \<and> parse_members f p (skip_ws is) = Some (Inr (kvs, r)))"
proof -
  from assms obtain k ds es v gs where *: "parse_string cs = Inr (k, ds)" "skip_ws ds = 58 # es"
    "parse_value f p (skip_ws es) = Some (Inr (v, gs))"
    "(case consume 125 (skip_ws gs) of Some r \<Rightarrow> Some (Inr ([(k, v)], r))
      | None \<Rightarrow> and_scan (require 44 (skip_ws gs)) (\<lambda>is.
          and_scan (parse_members f p (skip_ws is)) (\<lambda>(kvs, r). Some (Inr ((k, v) # kvs, r))))) = Some (Inr (m, r))"
    unfolding parse_members.simps Let_def by (simp add: and_scan_Inr require_Inr) blast
  from closing_require [where g = "\<lambda>r. ([(k, v)], r)", OF *(4)] show thesis
    by (intro that [OF *(1-3)]) (auto simp: and_scan_Inr)
qed

lemma parse_elements_elim:
  assumes "parse_elements (Suc f) p cs = Some (Inr (m, r))"
  obtains v gs where "parse_value f p cs = Some (Inr (v, gs))"
    "skip_ws gs = 93 # r \<and> m = [v] \<or>
     (\<exists>is vs. skip_ws gs = 44 # is \<and> m = v # vs \<and> parse_elements f p (skip_ws is) = Some (Inr (vs, r)))"
proof -
  from assms obtain v gs where *: "parse_value f p cs = Some (Inr (v, gs))"
    "(case consume 93 (skip_ws gs) of Some r \<Rightarrow> Some (Inr ([v], r))
      | None \<Rightarrow> and_scan (require 44 (skip_ws gs)) (\<lambda>is.
          and_scan (parse_elements f p (skip_ws is)) (\<lambda>(vs, r). Some (Inr (v # vs, r))))) = Some (Inr (m, r))"
    unfolding parse_elements.simps Let_def by (auto simp: and_scan_Inr)
  from closing_require [where g = "\<lambda>r. ([v], r)", OF *(2)] show thesis
    by (intro that [OF *(1)]) (auto simp: and_scan_Inr)
qed

text \<open>The values that are read without recursion.\<close>

definition parse_scalar :: "json_reader \<Rightarrow> nat list \<Rightarrow> (json \<times> nat list) result" where
  "parse_scalar p cs =
     (if starts (\<lambda>c. c = 34) cs then map_sum id (map_prod JStr id) (parse_string cs)
      else if starts (\<lambda>c. c = 110) cs then parse_literal ''null'' JNull cs
      else if starts (\<lambda>c. c = 116) cs then parse_literal ''true'' (JBool True) cs
      else if starts (\<lambda>c. c = 102) cs then parse_literal ''false'' (JBool False) cs
      else if starts (\<lambda>c. c = 78) cs then parse_literal ''NaN'' (JFloat None) cs
      else if starts (\<lambda>c. c = 73) cs then parse_literal ''Infinity'' (JFloat None) cs
      else if take 9 cs = lit ''-Infinity'' then parse_literal ''-Infinity'' (JFloat None) cs
      else parse_number (jrd_float_repr p) cs)"

lemma parse_value_scalar:
  "\<not> starts (\<lambda>c. c = 123 \<or> c = 91) cs \<Longrightarrow> parse_value (Suc f) p cs = Some (parse_scalar p cs)"
  unfolding parse_value.simps parse_scalar_def by (cases cs) auto

lemma parse_scalar_shorter: "parse_scalar p cs = Inr (v, r) \<Longrightarrow> length r \<le> length cs"
  unfolding parse_scalar_def
  by (auto split: if_splits simp: map_sum_Inr dest!: parse_literal_shorter parse_number_shorter parse_string_shorter)

lemma parse_value_elim:
  assumes "parse_value (Suc f) p cs = Some (Inr (v, r))"
  obtains (empty_object) ds where "cs = 123 # ds" "skip_ws ds = 125 # r" "v = JObj []"
  | (object) ds kvs where "cs = 123 # ds" "\<not> starts (\<lambda>c. c = 125) (skip_ws ds)"
      "parse_members f p (skip_ws ds) = Some (Inr (kvs, r))"
      "build_object (jrd_reject_duplicates p) kvs = Inr v"
  | (empty_array) ds where "cs = 91 # ds" "skip_ws ds = 93 # r" "v = JList []"
  | (array) ds vs where "cs = 91 # ds" "\<not> starts (\<lambda>c. c = 93) (skip_ws ds)"
      "parse_elements f p (skip_ws ds) = Some (Inr (vs, r))" "v = JList vs"
  | (scalar) "\<not> starts (\<lambda>c. c = 123 \<or> c = 91) cs" "parse_scalar p cs = Inr (v, r)"
proof -
  consider "starts (\<lambda>c. c = 123) cs" | "starts (\<lambda>c. c = 91) cs" | "\<not> starts (\<lambda>c. c = 123 \<or> c = 91) cs"
    by (cases cs) auto
  then show thesis
  proof cases
    case 1
    then obtain ds where cs: "cs = 123 # ds" by (auto simp: starts_eq)
    have e: "build_object b [] = Inr (JObj [])" for b by (simp add: build_object_def)
    show thesis
    proof (cases "consume 125 (skip_ws ds)")
      case None
      with assms obtain kvs where "parse_members f p (skip_ws ds) = Some (Inr (kvs, r))"
        "build_object (jrd_reject_duplicates p) kvs = Inr v"
        by (auto simp: cs Let_def and_scan_Inr map_sum_Inr)
      with None show thesis by (intro that(2) [OF cs]) (simp_all add: consume_None)
    next
      case (Some q)
      with assms have "skip_ws ds = 125 # r" "v = JObj []"
        by (auto simp: cs Let_def and_scan_Inr map_sum_Inr e)
      then show thesis by (rule that(1) [OF cs])
    qed
  next
    case 2
    then obtain ds where cs: "cs = 91 # ds" by (auto simp: starts_eq)
    show thesis
    proof (cases "consume 93 (skip_ws ds)")
      case None
      with assms obtain vs where "parse_elements f p (skip_ws ds) = Some (Inr (vs, r))" "v = JList vs"
        by (auto simp: cs Let_def and_scan_Inr)
      with None show thesis by (intro that(4) [OF cs]) (simp_all add: consume_None)
    next
      case (Some q)
      with assms have "skip_ws ds = 93 # r" "v = JList []"
        by (auto simp: cs Let_def and_scan_Inr)
      then show thesis by (rule that(3) [OF cs])
    qed
  next
    case 3
    with assms show thesis by (intro that(5)) (simp_all add: parse_value_scalar del: parse_value.simps)
  qed
qed

lemma parse_shorter:
  "(parse_value f p cs = Some (Inr (v, r)) \<longrightarrow> length r \<le> length cs) \<and>
   (parse_members f p cs = Some (Inr (kvs, r)) \<longrightarrow> length r < length cs) \<and>
   (parse_elements f p cs = Some (Inr (vs, r)) \<longrightarrow> length r \<le> length cs)"
proof (induction f arbitrary: cs v kvs vs r)
  case (Suc f)
  have "length r \<le> length cs" if "parse_value (Suc f) p cs = Some (Inr (v, r))"
    using that
  proof (cases rule: parse_value_elim)
    case (empty_object ds)
    then show ?thesis using skip_ws_length [of ds] by simp
  next
    case (object ds kvs)
    then show ?thesis using Suc.IH [where cs = "skip_ws ds"] skip_ws_length [of ds] by fastforce
  next
    case (empty_array ds)
    then show ?thesis using skip_ws_length [of ds] by simp
  next
    case (array ds vs)
    then show ?thesis using Suc.IH [where cs = "skip_ws ds"] skip_ws_length [of ds] by fastforce
  next
    case scalar
    then show ?thesis by (auto dest: parse_scalar_shorter)
  qed
  moreover have "length r < length cs" if "parse_members (Suc f) p cs = Some (Inr (kvs, r))"
    using that
  proof (cases rule: parse_members_elim)
    case (1 k ds es w gs)
    have gs: "length gs < length cs"
      using parse_string_shorter [OF 1(1)] skip_ws_length [of ds] skip_ws_length [of es] 1(2)
        Suc.IH [THEN conjunct1, rule_format, OF 1(3)] by simp
    from 1(4) show ?thesis
    proof (elim disjE exE conjE)
      assume "skip_ws gs = 125 # r"
      then show ?thesis using gs skip_ws_length [of gs] by simp
    next
      fix a kvs' assume a: "skip_ws gs = 44 # a" "parse_members f p (skip_ws a) = Some (Inr (kvs', r))"
      then show ?thesis
        using gs skip_ws_length [of gs] skip_ws_length [of a]
          Suc.IH [THEN conjunct2, THEN conjunct1, rule_format, OF a(2)] by simp
    qed
  qed
  moreover have "length r \<le> length cs" if "parse_elements (Suc f) p cs = Some (Inr (vs, r))"
    using that
  proof (cases rule: parse_elements_elim)
    case (1 w gs)
    have gs: "length gs \<le> length cs" using Suc.IH [THEN conjunct1, rule_format, OF 1(1)] by simp
    from 1(2) show ?thesis
    proof (elim disjE exE conjE)
      assume "skip_ws gs = 93 # r"
      then show ?thesis using gs skip_ws_length [of gs] by simp
    next
      fix a vs' assume a: "skip_ws gs = 44 # a" "parse_elements f p (skip_ws a) = Some (Inr (vs', r))"
      then show ?thesis
        using gs skip_ws_length [of gs] skip_ws_length [of a]
          Suc.IH [THEN conjunct2, THEN conjunct2, rule_format, OF a(2)] by simp
    qed
  qed
  ultimately show ?case by blast
qed simp

lemma parse_total:
  "(2 * length cs < f \<longrightarrow> parse_value f p cs \<noteq> None) \<and>
   (2 * length cs < f \<longrightarrow> parse_members f p cs \<noteq> None) \<and>
   (2 * length cs + 1 < f \<longrightarrow> parse_elements f p cs \<noteq> None)"
proof (induction f arbitrary: cs)
  case (Suc f)
  have "parse_value (Suc f) p cs \<noteq> None" if "2 * length cs < Suc f"
  proof -
    have inner: "parse_members f p (skip_ws (tl cs)) \<noteq> None \<and> parse_elements f p (skip_ws (tl cs)) \<noteq> None"
      if "starts q cs" for q
    proof -
      have "2 * length (skip_ws (tl cs)) + 1 < f"
        using tl_skip [of cs] starts_tl [OF that] \<open>2 * length cs < Suc f\<close> by linarith
      then show ?thesis using Suc.IH [of "skip_ws (tl cs)"] by simp
    qed
    consider "starts (\<lambda>c. c = 123) cs" | "starts (\<lambda>c. c = 91) cs" | "\<not> starts (\<lambda>c. c = 123 \<or> c = 91) cs"
      by (cases cs) auto
    then show ?thesis
    proof cases
      case 1
      then show ?thesis using inner [OF 1]
        by (auto simp: starts_eq Let_def and_scan_def split: option.split sum.split prod.split)
    next
      case 2
      then show ?thesis using inner [OF 2]
        by (auto simp: starts_eq Let_def and_scan_def split: option.split sum.split prod.split)
    next
      case 3
      then show ?thesis by (simp add: parse_value_scalar del: parse_value.simps)
    qed
  qed
  moreover have "parse_members (Suc f) p cs \<noteq> None" if *: "2 * length cs < Suc f"
  proof -
    have v: "parse_value f p (skip_ws es) \<noteq> None"
      if "parse_string cs = Inr (k, ds)" "skip_ws ds = 58 # es" for k ds es
      using parse_string_shorter [OF that(1)] skip_ws_length [of ds] skip_ws_length [of es] that(2)
        Suc.IH [of "skip_ws es"] * by simp
    have r: "parse_members f p (skip_ws a) \<noteq> None"
      if "parse_string cs = Inr (k, ds)" "skip_ws ds = 58 # es"
        "parse_value f p (skip_ws es) = Some (Inr (w, gs))" "skip_ws gs = 44 # a" for k ds es gs w a
      using parse_string_shorter [OF that(1)] skip_ws_length [of ds] skip_ws_length [of es] that(2-4)
        parse_shorter [THEN conjunct1, rule_format, OF that(3)] skip_ws_length [of gs] skip_ws_length [of a]
        Suc.IH [of "skip_ws a"] * by simp
    show ?thesis
      unfolding parse_members.simps Let_def
      apply (rule and_scan_total, simp, clarify, fold not_None_eq)
      apply (rule and_scan_total, simp add: require_def, clarify, fold not_None_eq)
      apply (rule and_scan_total)
       apply (rule v, simp, simp add: require_Inr)
      apply (clarify, fold not_None_eq, rule closing_require_total, rule and_scan_total)
       apply (rule r, simp, simp add: require_Inr, simp, simp)
      apply auto
      done
  qed
  moreover have "parse_elements (Suc f) p cs \<noteq> None" if *: "2 * length cs + 1 < Suc f"
  proof -
    have r: "parse_elements f p (skip_ws a) \<noteq> None"
      if "parse_value f p cs = Some (Inr (w, gs))" "skip_ws gs = 44 # a" for a gs w
      using that(2) skip_ws_length [of gs] skip_ws_length [of a] Suc.IH [of "skip_ws a"] *
        parse_shorter [THEN conjunct1, rule_format, OF that(1)] by simp
    have v: "parse_value f p cs \<noteq> None" using * Suc.IH [of cs] by simp
    show ?thesis
      unfolding parse_elements.simps Let_def
      apply (rule and_scan_total [OF v])
      apply (clarify, fold not_None_eq, rule closing_require_total, rule and_scan_total)
       apply (rule r, simp, simp)
      apply auto
      done
  qed
  ultimately show ?case by blast
qed simp

lemma json_loads_total: "json_loads p data \<noteq> None"
proof -
  have "parse_value (Suc (2 * length t)) p (skip_ws t) \<noteq> None" for t
    using parse_total [of "skip_ws t" "Suc (2 * length t)" p] skip_ws_length [of t] by simp
  then show ?thesis
    unfolding json_loads_def by (intro and_scan_total) auto
qed

end
