(* ===== verification/Bounded_Json_Guard.thy ===== *)
theory Bounded_Json_Guard
  imports Bounded_Json_Safety
begin

text \<open>
  The scanner reads the bytes and \<open>json.loads\<close> the text they decode to; here the two are compared:
  what both accept leaves the same rest, and the scanner has counted at least the nodes of the value.
\<close>

section \<open>Text and bytes\<close>

definition enc :: "pystr \<Rightarrow> nat list" where
  "enc t = concat (map utf8_values t)"

lemma enc_simps [simp]: "enc [] = []" "enc (c # t) = utf8_values c @ enc t" "enc (s @ t) = enc s @ enc t"
  by (simp_all add: enc_def)

lemma utf8_values_ascii [simp]: "c < 128 \<Longrightarrow> utf8_values c = [c]"
  by (simp add: utf8_values_def)

lemma utf8_values_wide: "\<not> c < 128 \<Longrightarrow> v \<in> set (utf8_values c) \<Longrightarrow> 128 \<le> v"
  by (auto simp: utf8_values_def split: if_splits)

lemma utf8_values_hd: "\<exists>v vs. utf8_values c = v # vs \<and> (v = c \<or> 128 \<le> v \<and> 128 \<le> c)"
  by (cases "c < 128") (auto simp: utf8_values_def)

lemma enc_ascii: "list_all (\<lambda>c. c < 128) t \<Longrightarrow> enc t = t"
  by (induction t) auto

lemma digit64: "l < 64 \<Longrightarrow> (y * 64 + l) div 64 = y \<and> (y * 64 + l) mod 64 = (l::nat)"
  by simp

lemma digits3:
  assumes "m < 64" "l < 64" and "x = h * 4096 + m * 64 + (l::nat)"
  shows "x div 4096 = h" "x div 64 mod 64 = m" "x mod 64 = l" "x div 64 = h * 64 + m"
proof -
  have x: "x = (h * 64 + m) * 64 + l" using assms(3) by simp
  have d: "x div 64 = h * 64 + m" and l: "x mod 64 = l"
    unfolding x using digit64 [OF assms(2), of "h * 64 + m"] by simp_all
  have q: "x div 4096 = x div 64 div 64" using div_mult2_eq [of x 64 64] by simp
  show "x div 4096 = h" "x div 64 mod 64 = m" "x mod 64 = l" "x div 64 = h * 64 + m"
    using digit64 [OF assms(1), of h] d q l by simp_all
qed

lemma wide2:
  assumes "0xC2 \<le> a" "a < 0xE0" "is_cont b"
  shows "utf8_values ((a - 0xC0) * 64 + (b - 0x80)) = [a, b]"
proof -
  have ab: "b - 0x80 < 64" "2 \<le> a - 0xC0" "a - 0xC0 < 32" "a = 0xC0 + (a - 0xC0)" "b = 0x80 + (b - 0x80)"
    using assms by (auto simp: is_cont_def)
  define x where "x = (a - 0xC0) * 64 + (b - 0x80)"
  have "x div 64 = a - 0xC0" "x mod 64 = b - 0x80"
    unfolding x_def using digit64 [OF ab(1)] by simp_all
  moreover have "\<not> x < 0x80" "x < 0x800" unfolding x_def using ab by linarith+
  ultimately show ?thesis unfolding x_def [symmetric] using ab by (simp add: utf8_values_def)
qed

lemma wide3:
  assumes "0xE0 \<le> a" "a < 0xF0" "second_pass a b" "is_cont c"
  shows "utf8_values ((a - 0xE0) * 4096 + (b - 0x80) * 64 + (c - 0x80)) = [a, b, c]"
proof -
  have abc: "a = 0xE0 + (a - 0xE0)" "b = 0x80 + (b - 0x80)" "c = 0x80 + (c - 0x80)" "a - 0xE0 < 16"
      "b - 0x80 < 64" "c - 0x80 < 64" "a - 0xE0 = 0 \<Longrightarrow> 32 \<le> b - 0x80"
    using assms by (auto simp: second_pass_def second_ok_def is_cont_def split: if_splits)
  define x where "x = (a - 0xE0) * 4096 + (b - 0x80) * 64 + (c - 0x80)"
  note d = digits3 [OF abc(5,6) x_def]
  have "\<not> x < 0x80" "\<not> x < 0x800" "x < 0x10000"
    unfolding x_def using abc(4-7) by (cases "a - 0xE0 = 0"; linarith)+
  then show ?thesis unfolding x_def [symmetric] using d abc(1-3) by (simp add: utf8_values_def)
qed

lemma wide4:
  assumes "0xF0 \<le> a" "a < 0xF5" "second_pass a b" "is_cont c" "is_cont d"
  shows "utf8_values ((a - 0xF0) * 262144 + (b - 0x80) * 4096 + (c - 0x80) * 64 + (d - 0x80)) = [a, b, c, d]"
proof -
  have abc: "a = 0xF0 + (a - 0xF0)" "b = 0x80 + (b - 0x80)" "c = 0x80 + (c - 0x80)" "d = 0x80 + (d - 0x80)"
      "b - 0x80 < 64" "c - 0x80 < 64" "d - 0x80 < 64" "a - 0xF0 = 0 \<Longrightarrow> 16 \<le> b - 0x80"
    using assms by (auto simp: second_pass_def second_ok_def is_cont_def split: if_splits)
  define y where "y = (a - 0xF0) * 4096 + (b - 0x80) * 64 + (c - 0x80)"
  define x where "x = (a - 0xF0) * 262144 + (b - 0x80) * 4096 + (c - 0x80) * 64 + (d - 0x80)"
  note dy = digits3 [OF abc(5,6) y_def]
  have x: "x = y * 64 + (d - 0x80)" unfolding x_def y_def by simp
  have m: "x div 64 = y" "x mod 64 = d - 0x80" unfolding x using digit64 [OF abc(7)] by simp_all
  have "x div 262144 = x div 64 div 4096" "x div 4096 = x div 64 div 64"
    using div_mult2_eq [of x 64 4096] div_mult2_eq [of x 64 64] by simp_all
  then have d: "x div 262144 = a - 0xF0" "x div 4096 mod 64 = b - 0x80" "x div 64 mod 64 = c - 0x80"
    using dy m by simp_all
  have "\<not> x < 0x80" "\<not> x < 0x800" "\<not> x < 0x10000"
    unfolding x_def using abc(5-8) by (cases "a - 0xF0 = 0"; linarith)+
  then show ?thesis unfolding x_def [symmetric] using d m abc(1-4) by (simp add: utf8_values_def)
qed

lemma decode_pass_enc: "decode_pass bs = Inr t \<Longrightarrow> enc t = bs"
proof (induction bs arbitrary: t rule: decode_pass.induct)
  case (2 a bs)
  have cons: "cons_text c r = Inr t \<Longrightarrow> \<exists>u. r = Inr u \<and> t = c # u" for c r
    by (cases r) (auto simp: cons_text_def)
  show ?case
  proof (cases "a < 0x80")
    case True
    with 2 show ?thesis by (auto dest!: cons)
  next
    case False
    with "2.prems" obtain b cs where bs: "bs = b # cs" by (cases bs) auto
    show ?thesis
    proof (cases "0xC2 \<le> a \<and> a < 0xE0 \<and> is_cont b")
      case True
      with 2 False bs show ?thesis by (auto dest!: cons simp: wide2 [simplified])
    next
      case n2: False
      with "2.prems" False bs obtain c ds where cs: "cs = c # ds" by (cases cs) auto
      show ?thesis
      proof (cases "0xE0 \<le> a \<and> a < 0xF0 \<and> second_pass a b \<and> is_cont c")
        case True
        with 2 False bs n2 cs show ?thesis by (auto dest!: cons simp: wide3 [simplified])
      next
        case n3: False
        with "2.prems" False bs n2 cs obtain d es where ds: "ds = d # es" by (cases ds) auto
        with "2.prems" False bs n2 n3 cs obtain u where u: "decode_pass es = Inr u" "0xF0 \<le> a" "a < 0xF5"
          "second_pass a b" "is_cont c" "is_cont d"
          "t = ((a - 0xF0) * 262144 + (b - 0x80) * 4096 + (c - 0x80) * 64 + (d - 0x80)) # u"
          by (auto split: if_splits dest!: cons)
        have "enc u = es"
          by (rule "2.IH"(4) [OF _ bs _ cs _ ds _ u(1)]) (use False n2 n3 u in auto)
        then show ?thesis unfolding u(7) enc_simps wide4 [OF u(2-6)] bs cs ds by simp
      qed
    qed
  qed
qed simp

section \<open>Tokens\<close>

lemma starts_enc:
  assumes "\<And>x. q x \<Longrightarrow> x < 128"
  shows "starts q (enc t) = starts q t"
proof (cases t)
  case (Cons c u)
  obtain v vs where "utf8_values c = v # vs" "v = c \<or> 128 \<le> v \<and> 128 \<le> c" using utf8_values_hd by blast
  then show ?thesis using assms [of v] assms [of c] by (auto simp: Cons)
qed simp

lemma digit_ascii: "is_digit c \<Longrightarrow> c < 128"
  by (simp add: is_digit_def)

lemma starts_digit_enc [simp]: "starts is_digit (enc t) = starts is_digit t"
  by (rule starts_enc) (rule digit_ascii)

lemma starts_char_enc [simp]: "x < 128 \<Longrightarrow> starts (\<lambda>c. c = x) (enc t) = starts (\<lambda>c. c = x) t"
  by (rule starts_enc) simp

lemma starts_char2_enc [simp]:
  "x < 128 \<Longrightarrow> y < 128 \<Longrightarrow> starts (\<lambda>c. c = x \<or> c = y) (enc t) = starts (\<lambda>c. c = x \<or> c = y) t"
  by (rule starts_enc) auto

lemma tl_enc: "starts q t \<Longrightarrow> (\<And>x. q x \<Longrightarrow> x < 128) \<Longrightarrow> tl (enc t) = enc (tl t)"
  by (cases t) auto

lemma dropWhile_enc:
  assumes "\<And>x. q x \<Longrightarrow> x < 128"
  shows "dropWhile q (enc t) = enc (dropWhile q t)"
proof (induction t)
  case (Cons c t)
  obtain v vs where v: "utf8_values c = v # vs" "v = c \<or> 128 \<le> v \<and> 128 \<le> c" using utf8_values_hd by blast
  show ?case
  proof (cases "q c")
    case True
    with Cons assms [OF True] show ?thesis by simp
  next
    case False
    with v assms [of v] have "\<not> q v" by auto
    with False v show ?thesis by simp
  qed
qed simp

lemma skip_ws_enc [simp]: "skip_ws (enc t) = enc (skip_ws t)"
  unfolding skip_ws_def by (rule dropWhile_enc) (auto simp: json_ws_def)

lemma consume_enc: "x < 128 \<Longrightarrow> consume x (enc t) = map_option enc (consume x t)"
proof (cases t)
  case (Cons c u)
  assume x: "x < 128"
  obtain v vs where "utf8_values c = v # vs" "v = c \<or> 128 \<le> v \<and> 128 \<le> c" using utf8_values_hd by blast
  then show ?thesis using x by (cases "c < 128") (auto simp: consume_def Cons)
qed (simp add: consume_def)

lemma enc_head: "x < 128 \<Longrightarrow> enc t = x # cs \<longleftrightarrow> (\<exists>u. t = x # u \<and> cs = enc u)"
  using consume_enc [of x t] by (metis consume_Some map_option_eq_Some)

text \<open>Strings.\<close>

lemma hex_ascii: "is_hex c \<Longrightarrow> c < 128"
  by (auto simp: is_hex_def)

lemma scan_wide:
  assumes "\<And>v. v \<in> set vs \<Longrightarrow> 128 \<le> v"
  shows "scan_chars m k (vs @ cs) = scan_chars m (k + int (length vs)) cs"
  using assms
proof (induction vs arbitrary: k)
  case (Cons v vs)
  then have v: "\<not> v < 32" "v \<noteq> 34" "v \<noteq> 92" by fastforce+
  have "scan_chars m (k + 1) (vs @ cs) = scan_chars m (k + 1 + int (length vs)) cs"
    by (rule Cons.IH) (simp add: Cons.prems)
  then show ?case using v by (simp add: add.assoc)
qed simp

lemma hex4_enc:
  assumes "hex4 t = Some (v, u)"
  obtains hs where "length hs = 4" "list_all is_hex hs" "t = hs @ u" "enc t = hs @ enc u"
proof -
  from assms have l: "length (take 4 t) = 4" "list_all is_hex (take 4 t)" "u = drop 4 t"
    by (auto simp: hex4_def list_all_iff list_ex_iff split: if_splits)
  then have "t = take 4 t @ u" by simp
  moreover have "enc (take 4 t) = take 4 t"
    using l(2) by (intro enc_ascii) (auto simp: list_all_iff dest: hex_ascii)
  ultimately show thesis using l that by (metis enc_simps(3))
qed

lemma scan_u:
  assumes "hex4 t = Some (v, u)"
  shows "scan_chars m k (92 # 117 # enc t) = scan_chars m (k + 6) (enc u)"
proof -
  from assms obtain hs where "length hs = 4" "list_all is_hex hs" "enc t = hs @ enc u" by (rule hex4_enc)
  then show ?thesis by (simp add: simple_escapes_def list_ex_iff list_all_iff)
qed

lemma scan_parse_chars:
  "parse_chars t = Inr (s, u) \<Longrightarrow> scan_chars m k (enc t) = Inr cs \<Longrightarrow> cs = enc u"
proof (induction t arbitrary: s u k rule: parse_chars.induct)
  case (2 c t)
  have map_Inr: "map_sum id (map_prod h id) r = Inr (s, u) \<Longrightarrow> \<exists>w. r = Inr (w, u)" for h r
    by (cases r) auto
  consider "c = 34" | "c < 32" | "c \<ge> 32" "c \<noteq> 34" "c \<noteq> 92" | "c = 92" by linarith
  then show ?case
  proof cases
    case 3
    then obtain w where w: "parse_chars t = Inr (w, u)" using "2.prems"(1) by (auto dest!: map_Inr)
    have "\<exists>k'. scan_chars m k (enc (c # t)) = scan_chars m k' (enc t)"
    proof (cases "c < 128")
      case True
      with 3 show ?thesis by auto
    next
      case False
      with scan_wide [of "utf8_values c" m k "enc t"] show ?thesis by (auto dest: utf8_values_wide)
    qed
    then obtain k' where "scan_chars m k' (enc t) = Inr cs" using "2.prems"(2) by auto
    then show ?thesis by (rule "2.IH"(1) [rotated 3, OF w]) (use 3 in auto)
  next
    case 4
    with "2.prems"(1) obtain e ds where t: "t = e # ds" by (cases t) auto
    show ?thesis
    proof (cases "e \<in> set simple_escapes")
      case True
      then have e: "e < 128" by (auto simp: simple_escapes_def)
      from True 4 t "2.prems"(1) obtain w where w: "parse_chars ds = Inr (w, u)" by (auto dest!: map_Inr)
      have "scan_chars m (k + 2) (enc ds) = Inr cs" using "2.prems"(2) True 4 t e by simp
      then show ?thesis by (rule "2.IH"(2) [rotated 5, OF w]) (use 4 t True in auto)
    next
      case False
      with 4 t "2.prems"(1) obtain v es where h: "e = 117" "hex4 ds = Some (v, es)"
        by (auto split: if_splits option.splits)
      obtain x gs where j: "join_surrogate v es = (x, gs)" by (cases "join_surrogate v es")
      with 4 t h "2.prems"(1) obtain w where w: "parse_chars gs = Inr (w, u)"
        by (auto dest!: map_Inr simp: simple_escapes_def)
      have s: "scan_chars m (k + 6) (enc es) = Inr cs"
        using "2.prems"(2) 4 t h scan_u [OF h(2), of m k] by simp
      have "\<exists>k'. scan_chars m k' (enc gs) = Inr cs"
      proof (cases "gs = es")
        case True
        with s show ?thesis by blast
      next
        case False
        with j obtain d where e2: "take 2 es = [92, 117]" "hex4 (drop 2 es) = Some (d, gs)"
          by (auto simp: join_surrogate_def split: if_splits option.splits prod.splits)
        then have "es = 92 # 117 # drop 2 es" by (metis append_Cons append_Nil append_take_drop_id)
        then have "enc es = enc (92 # 117 # drop 2 es)" by (rule arg_cong)
        with s have "scan_chars m (k + 6) (92 # 117 # enc (drop 2 es)) = Inr cs" by simp
        then show ?thesis unfolding scan_u [OF e2(2)] by blast
      qed
      then obtain k' where "scan_chars m k' (enc gs) = Inr cs" by blast
      then show ?thesis by (rule "2.IH"(3) [rotated 9, OF w]) (use 4 t h j False in auto)
    qed
  qed (use "2.prems" in \<open>auto split: if_splits\<close>)
qed simp

lemma scan_parse_string:
  assumes "parse_string t = Inr (s, u)" and "scan_string m (enc t) = Inr cs"
  shows "cs = enc u"
  using assms scan_parse_chars
  by (auto simp: parse_string_def scan_string_def consume_enc split: option.splits)

text \<open>Literals and numbers.\<close>

lemma scan_parse_literal:
  assumes "parse_literal l v t = Inr (w, u)" and "list_all (\<lambda>c. c < 128) (lit l)"
  shows "scan_literal l (enc t) = Inr (enc u)"
proof -
  from assms(1) have t: "take (length l) t = lit l" "u = drop (length l) t"
    by (auto simp: parse_literal_def split: if_splits)
  then have "t = lit l @ u" by (metis append_take_drop_id)
  then have "enc t = lit l @ enc u" using enc_ascii [OF assms(2)] by simp
  then show ?thesis by (simp add: scan_literal_def lit_def)
qed

lemma scan_integer_rest:
  assumes "scan_integer (enc t) = Inr cs"
  shows "starts is_digit t \<and> cs = enc (integer_rest t)"
proof (cases "consume 48 t")
  case None
  then have "\<not> starts (\<lambda>c. c = 48) t" by (simp add: consume_None)
  with assms None show ?thesis
    by (auto simp: scan_integer_def consume_enc integer_rest_def dropWhile_enc [OF digit_ascii] split: if_splits)
next
  case (Some u)
  with assms show ?thesis
    by (auto simp: scan_integer_def consume_enc integer_rest_def is_digit_def split: if_splits)
qed

lemma scan_fraction_rest:
  assumes "scan_fraction (enc t) = Inr cs"
  shows "cs = enc (fraction_rest t)"
proof (cases "consume 46 t")
  case None
  then have "\<not> starts (\<lambda>c. c = 46) t" by (simp add: consume_None)
  with assms None show ?thesis by (auto simp: scan_fraction_def consume_enc fraction_rest_def)
next
  case (Some u)
  with assms show ?thesis
    by (auto simp: scan_fraction_def consume_enc fraction_rest_def dropWhile_enc [OF digit_ascii] split: if_splits)
qed

lemma skip_sign_enc: "skip_sign (enc t) = enc (skip_sign t)"
proof -
  have "tl (enc t) = enc (tl t)" if "starts (\<lambda>c. c = 43 \<or> c = 45) t" by (rule tl_enc [OF that]) auto
  then show ?thesis by (auto simp: skip_sign_def)
qed

lemma scan_exponent_rest:
  assumes "scan_exponent (enc t) = Inr cs"
  shows "cs = enc (exponent_rest t)"
proof (cases "starts (\<lambda>c. c = 101 \<or> c = 69) t")
  case True
  then have "tl (enc t) = enc (tl t)" by (rule tl_enc) auto
  with assms True show ?thesis
    by (auto simp: scan_exponent_def exponent_rest_def Let_def skip_sign_enc dropWhile_enc [OF digit_ascii]
        split: if_splits)
next
  case False
  with assms show ?thesis by (auto simp: scan_exponent_def exponent_rest_def)
qed

lemma scan_parse_number:
  assumes "scan_number (enc t) = Inr cs" and "parse_number g t = Inr (v, u)"
  shows "cs = enc u \<and> json_nodes v = 1 \<and> shape_children v = []"
proof -
  define a where "a = (if starts (\<lambda>c. c = 45) t then tl t else t)"
  have a: "(case consume 45 (enc t) of None \<Rightarrow> enc t | Some ds \<Rightarrow> ds) = enc a"
  proof (cases "consume 45 t")
    case None
    then have "\<not> starts (\<lambda>c. c = 45) t" by (simp add: consume_None)
    with None show ?thesis by (simp add: a_def consume_enc)
  next
    case (Some u)
    then show ?thesis by (simp add: a_def consume_enc)
  qed
  from assms(1) obtain i f where
    s: "scan_integer (enc a) = Inr i" "scan_fraction i = Inr f" "scan_exponent f = Inr cs"
    unfolding scan_number_def a Let_def by (auto simp: bind_result_Inr split: if_splits)
  have i: "starts is_digit a" "i = enc (integer_rest a)" using scan_integer_rest [OF s(1)] by auto
  have f: "f = enc (fraction_rest (integer_rest a))" by (rule scan_fraction_rest) (use s(2) i in simp)
  have e: "cs = enc (exponent_rest (fraction_rest (integer_rest a)))"
    by (rule scan_exponent_rest) (use s(3) f in simp)
  from assms(2) obtain d l where p: "number_parts t = Some (d, l, u)" and v: "json_nodes v = 1 \<and> shape_children v = []"
    by (auto simp: parse_number_def split: option.splits if_splits)
  have "u = exponent_rest (fraction_rest (integer_rest a))"
    using p by (simp add: number_parts_def Let_def a_def split: if_splits)
  with e v show ?thesis by simp
qed

section \<open>Values\<close>

lemma scan_nodes:
  "(scan_value f b d (cs, n) = Some (Inr (r, k)) \<longrightarrow> k \<le> jbd_maximum_nodes b) \<and>
   (scan_members f b d (cs, n) = Some (Inr (r, k)) \<longrightarrow> k \<le> jbd_maximum_nodes b) \<and>
   (scan_elements f b d (cs, n) = Some (Inr (r, k)) \<longrightarrow> k \<le> jbd_maximum_nodes b)"
proof (induction f arbitrary: d cs n r k)
  case (Suc f)
  have add: "n + 1 \<le> jbd_maximum_nodes b" if "scan_value (Suc f) b d (cs, n) = Some (Inr (r, k))"
    using that unfolding scan_value.simps and_scan_Inr by (auto simp: add_node_Inr)
  have "k \<le> jbd_maximum_nodes b" if "scan_value (Suc f) b d (cs, n) = Some (Inr (r, k))"
    using that add [OF that] Suc.IH by (cases rule: scan_value_elim) blast+
  moreover have "k \<le> jbd_maximum_nodes b" if "scan_members (Suc f) b d (cs, n) = Some (Inr (r, k))"
    using that Suc.IH by (cases rule: scan_members_elim) blast
  moreover have "k \<le> jbd_maximum_nodes b" if "scan_elements (Suc f) b d (cs, n) = Some (Inr (r, k))"
    using that Suc.IH by (cases rule: scan_elements_elim) blast
  ultimately show ?case by blast
qed simp

definition member_nodes :: "(pystr \<times> json) list \<Rightarrow> int" where
  "member_nodes kvs = sum_list (map (\<lambda>p. 1 + json_nodes (snd p)) kvs)"

lemma member_nodes_simps [simp]:
  "member_nodes [] = 0" "member_nodes (p # kvs) = 1 + json_nodes (snd p) + member_nodes kvs"
  "member_nodes (kvs @ lvs) = member_nodes kvs + member_nodes lvs"
  by (simp_all add: member_nodes_def)

lemma member_nodes_update: "member_nodes (AList.update k v d) \<le> 1 + json_nodes v + member_nodes d"
proof (induction d)
  case (Cons p d)
  then show ?case using json_nodes_pos [of "snd p"] by (cases p) auto
qed simp

lemma update_values: "snd ` set (AList.update k v d) \<subseteq> insert v (snd ` set d)"
  by (induction d) auto

lemma unique_object_pairs_inv:
  "unique_object_pairs d kvs = Inr w \<Longrightarrow>
   \<exists>m. w = JObj m \<and> member_nodes m \<le> member_nodes d + member_nodes kvs \<and>
     snd ` set m \<subseteq> snd ` set d \<union> snd ` set kvs"
proof (induction d kvs rule: unique_object_pairs.induct)
  case (2 d k v kvs)
  then have "k \<notin> set (map fst d)" by (auto split: if_splits)
  with 2 obtain m where m: "w = JObj m" "member_nodes m \<le> member_nodes (AList.update k v d) + member_nodes kvs"
     "snd ` set m \<subseteq> snd ` set (AList.update k v d) \<union> snd ` set kvs" by auto
  have "member_nodes m \<le> member_nodes d + member_nodes ((k, v) # kvs)"
    using m(2) member_nodes_update [of k v d] by simp
  moreover have "snd ` set m \<subseteq> snd ` set d \<union> snd ` set ((k, v) # kvs)"
    using m(3) update_values [of k v d] by (simp, blast)
  ultimately show ?case using m(1) by blast
qed auto

lemma build_object_inv:
  assumes "build_object q kvs = Inr w"
  shows "\<exists>m. w = JObj m \<and> member_nodes m \<le> member_nodes kvs \<and> snd ` set m \<subseteq> snd ` set kvs"
proof (cases q)
  case True
  with assms unique_object_pairs_inv [of "[]" kvs w] show ?thesis by (simp add: build_object_def)
next
  case False
  have "member_nodes (fold (\<lambda>(k, v). AList.update k v) kvs d) \<le> member_nodes d + member_nodes kvs \<and>
      snd ` set (fold (\<lambda>(k, v). AList.update k v) kvs d) \<subseteq> snd ` set d \<union> snd ` set kvs" for d
  proof (induction kvs arbitrary: d)
    case (Cons p kvs)
    obtain k v where p: "p = (k, v)" by (cases p)
    note IH = Cons [of "AList.update k v d"]
    have "member_nodes (fold (\<lambda>(k, v). AList.update k v) (p # kvs) d) \<le> member_nodes d + member_nodes (p # kvs)"
      using IH member_nodes_update [of k v d] by (simp add: p)
    moreover have "snd ` set (fold (\<lambda>(k, v). AList.update k v) (p # kvs) d) \<subseteq> snd ` set d \<union> snd ` set (p # kvs)"
      using IH update_values [of k v d] by (simp add: p, blast)
    ultimately show ?case by blast
  qed simp
  from this [of "[]"] False assms show ?thesis by (auto simp: build_object_def)
qed

lemma nested_leaf: "shape_children v = [] \<Longrightarrow> nested D d v = (d \<le> D)"
  by (subst nested_unfold) simp

lemma scan_parse_scalar:
  assumes "parse_scalar p t = Inr (v, u)" and "scan_value g b d (enc t, n) = Some (Inr (cs, k))"
    and "\<not> starts (\<lambda>c. c = 123 \<or> c = 91) t"
  shows "cs = enc u \<and> k = n + 1 \<and> json_nodes v = 1 \<and> shape_children v = []"
proof -
  from assms(2) obtain g' where g: "g = Suc g'" by (cases g) auto
  have head: "enc t = x # ds \<Longrightarrow> x < 128 \<Longrightarrow> starts (\<lambda>c. c = x) t" for x ds
    using starts_char_enc [of x t] by simp
  from assms(2) [unfolded g] show ?thesis
  proof (cases rule: scan_value_elim)
    case (string ds)
    then have "starts (\<lambda>c. c = 34) t" using head by auto
    with assms(1) obtain s where "parse_string t = Inr (s, u)" "v = JStr s"
      by (auto simp: parse_scalar_def map_sum_Inr)
    with string scan_parse_string show ?thesis by auto
  next
    case (literal l)
    have ascii: "list_all (\<lambda>c. c < 128) (lit l)" using literal(1) by (auto simp: lit_def)
    have "take (length l) (enc t) = lit l" using literal(2) by (simp add: scan_literal_def split: if_splits)
    then have "starts (\<lambda>c. c = hd (lit l)) (enc t)" using literal(1) by (cases "enc t") (auto simp: lit_def)
    then have st: "starts (\<lambda>c. c = hd (lit l)) t" using literal(1) by (auto simp: lit_def)
    obtain w where "parse_literal l w t = Inr (v, u)" "json_nodes w = 1" "shape_children w = []"
      using assms(1) st literal(1) unfolding parse_scalar_def starts_eq by (auto simp: lit_def)
    with scan_parse_literal [OF _ ascii] literal show ?thesis by (auto dest: parse_literal_shorter)
  next
    case (number c ds)
    then have st: "starts (\<lambda>c. c = 45 \<or> is_digit c) t"
      using starts_enc [of "\<lambda>c. c = 45 \<or> is_digit c" t] digit_ascii by fastforce
    have "take 9 t \<noteq> lit ''-Infinity''"
    proof
      assume "take 9 t = lit ''-Infinity''"
      then have "t = lit ''-Infinity'' @ drop 9 t" by (metis append_take_drop_id)
      then have "enc t = enc (lit ''-Infinity'' @ drop 9 t)" by (rule arg_cong)
      also have "\<dots> = 45 # 73 # enc (lit ''nfinity'') @ enc (drop 9 t)" by (simp add: lit_def)
      finally have "enc t = 45 # 73 # enc (lit ''nfinity'') @ enc (drop 9 t)" .
      with number(3) show False
        by (simp add: lit_def scan_number_def consume_def scan_integer_def is_digit_def)
    qed
    with assms(1) st have "parse_number (jrd_float_repr p) t = Inr (v, u)"
      by (cases t) (auto simp: parse_scalar_def is_digit_def)
    with scan_parse_number number show ?thesis by blast
  qed (use assms(3) head in \<open>auto simp: starts_eq\<close>)
qed

lemma scan_parse:
  "(parse_value f p t = Some (Inr (v, u)) \<longrightarrow> scan_value g b d (enc t, n) = Some (Inr (cs, k)) \<longrightarrow>
      cs = enc u \<and> n + json_nodes v \<le> k \<and> nested (jbd_maximum_depth b) d v) \<and>
   (parse_members f p t = Some (Inr (kvs, u)) \<longrightarrow> scan_members g b d (enc t, n) = Some (Inr (cs, k)) \<longrightarrow>
      cs = enc u \<and> n + member_nodes kvs \<le> k \<and>
      (\<forall>w \<in> snd ` set kvs. d + 1 \<le> jbd_maximum_depth b \<and> nested (jbd_maximum_depth b) (d + 1) w)) \<and>
   (parse_elements f p t = Some (Inr (vs, u)) \<longrightarrow> scan_elements g b d (enc t, n) = Some (Inr (cs, k)) \<longrightarrow>
      cs = enc u \<and> n + sum_list (map json_nodes vs) \<le> k \<and>
      (\<forall>w \<in> set vs. nested (jbd_maximum_depth b) (d + 1) w))"
proof (induction f arbitrary: t v u kvs vs g d n cs k)
  case (Suc f)
  let ?D = "jbd_maximum_depth b"
  note value_IH = Suc.IH [THEN conjunct1, rule_format]
  note members = Suc.IH [THEN conjunct2, THEN conjunct1, rule_format]
  note elements = Suc.IH [THEN conjunct2, THEN conjunct2, rule_format]
  have "cs = enc u \<and> n + json_nodes v \<le> k \<and> nested ?D d v"
    if parse: "parse_value (Suc f) p t = Some (Inr (v, u))"
      and scan: "scan_value g b d (enc t, n) = Some (Inr (cs, k))"
  proof -
    from scan obtain g' where g: "g = Suc g'" by (cases g) auto
    note scan = scan [unfolded g]
    have depth: "d \<le> ?D" using scan by (rule scan_value_depth)
    from parse show ?thesis
    proof (cases rule: parse_value_elim)
      case (empty_object ds)
      then have e: "enc t = 123 # enc ds" by simp
      from scan have "cs = enc u \<and> k = n + 1"
        by (cases rule: scan_value_elim) (auto simp: e empty_object(2) is_digit_def)
      with empty_object(3) depth show ?thesis by simp
    next
      case (object ds m)
      then have e: "enc t = 123 # enc ds" by simp
      have "scan_members g' b d (enc (skip_ws ds), n + 1) = Some (Inr (cs, k))"
        using scan
      proof (cases rule: scan_value_elim)
        case (empty_object ds')
        with e object(2) have "starts (\<lambda>c. c = 125) (enc (skip_ws ds))" by simp
        with object(2) show ?thesis by simp
      qed (auto simp: e is_digit_def)
      note IH = members [OF object(3) this]
      from build_object_inv [OF object(4)] obtain kvs' where o: "v = JObj kvs'"
        "member_nodes kvs' \<le> member_nodes m" "snd ` set kvs' \<subseteq> snd ` set m" by blast
      have "\<forall>w \<in> snd ` set kvs'. d + 1 \<le> ?D \<and> nested ?D (d + 1) w" using IH o(3) by blast
      with IH o(1,2) depth show ?thesis by (simp add: member_nodes_def)
    next
      case (empty_array ds)
      then have e: "enc t = 91 # enc ds" by simp
      from scan have "cs = enc u \<and> k = n + 1"
        by (cases rule: scan_value_elim) (auto simp: e empty_array(2) is_digit_def)
      with empty_array(3) depth show ?thesis by simp
    next
      case (array ds ws)
      then have e: "enc t = 91 # enc ds" by simp
      have "scan_elements g' b d (enc (skip_ws ds), n + 1) = Some (Inr (cs, k))"
        using scan
      proof (cases rule: scan_value_elim)
        case (empty_array ds')
        with e array(2) have "starts (\<lambda>c. c = 93) (enc (skip_ws ds))" by simp
        with array(2) show ?thesis by simp
      qed (auto simp: e is_digit_def)
      from elements [OF array(3) this] array(4) depth show ?thesis by simp
    next
      case scalar
      from scan_parse_scalar [OF scalar(2) scan scalar(1)] depth show ?thesis by (simp add: nested_leaf)
    qed
  qed
  moreover have "cs = enc u \<and> n + member_nodes kvs \<le> k \<and> (\<forall>w \<in> snd ` set kvs. d + 1 \<le> ?D \<and> nested ?D (d + 1) w)"
    if parse: "parse_members (Suc f) p t = Some (Inr (kvs, u))"
      and scan: "scan_members g b d (enc t, n) = Some (Inr (cs, k))"
  proof -
    from scan obtain g' where g: "g = Suc g'" by (cases g) auto
    from parse obtain key ds es w gs where p: "parse_string t = Inr (key, ds)" "skip_ws ds = 58 # es"
      "parse_value f p (skip_ws es) = Some (Inr (w, gs))"
      "skip_ws gs = 125 # u \<and> kvs = [(key, w)] \<or>
       (\<exists>is kvs'. skip_ws gs = 44 # is \<and> kvs = (key, w) # kvs' \<and> parse_members f p (skip_ws is) = Some (Inr (kvs', u)))"
      by (rule parse_members_elim)
    from scan [unfolded g] obtain ds' es' gs' j where s: "d + 1 \<le> ?D"
      "scan_string (jbd_maximum_string b) (enc t) = Inr ds'" "skip_ws ds' = 58 # es'"
      "scan_value g' b (d + 1) (skip_ws es', n + 1) = Some (Inr (gs', j))"
      "skip_ws gs' = 125 # cs \<and> k = j \<or>
       (\<exists>is. skip_ws gs' = 44 # is \<and> scan_members g' b d (skip_ws is, j) = Some (Inr (cs, k)))"
      by (rule scan_members_elim)
    have "es' = enc es" using s(3) p(2) scan_parse_string [OF p(1) s(2)] by simp
    then have w: "gs' = enc gs" "n + 1 + json_nodes w \<le> j" "nested ?D (d + 1) w"
      using value_IH [OF p(3)] s(4) by (metis skip_ws_enc)+
    from p(4) show ?thesis
    proof (elim disjE exE conjE)
      assume "skip_ws gs = 125 # u" "kvs = [(key, w)]"
      with s(1,5) w show ?thesis by auto
    next
      fix a kvs' assume a: "skip_ws gs = 44 # a" "kvs = (key, w) # kvs'"
        "parse_members f p (skip_ws a) = Some (Inr (kvs', u))"
      with s(5) w have "scan_members g' b d (enc (skip_ws a), j) = Some (Inr (cs, k))" by auto
      from members [OF a(3) this] w s(1) show ?thesis unfolding a(2) by auto
    qed
  qed
  moreover have "cs = enc u \<and> n + sum_list (map json_nodes vs) \<le> k \<and> (\<forall>w \<in> set vs. nested ?D (d + 1) w)"
    if parse: "parse_elements (Suc f) p t = Some (Inr (vs, u))"
      and scan: "scan_elements g b d (enc t, n) = Some (Inr (cs, k))"
  proof -
    from scan obtain g' where g: "g = Suc g'" by (cases g) auto
    from parse obtain w gs where p: "parse_value f p t = Some (Inr (w, gs))"
      "skip_ws gs = 93 # u \<and> vs = [w] \<or>
       (\<exists>is vs'. skip_ws gs = 44 # is \<and> vs = w # vs' \<and> parse_elements f p (skip_ws is) = Some (Inr (vs', u)))"
      by (rule parse_elements_elim)
    from scan [unfolded g] obtain gs' j where s: "scan_value g' b (d + 1) (enc t, n) = Some (Inr (gs', j))"
      "skip_ws gs' = 93 # cs \<and> k = j \<or>
       (\<exists>is. skip_ws gs' = 44 # is \<and> scan_elements g' b d (skip_ws is, j) = Some (Inr (cs, k)))"
      by (rule scan_elements_elim)
    have w: "gs' = enc gs" "n + json_nodes w \<le> j" "nested ?D (d + 1) w"
      using value_IH [OF p(1) s(1)] by auto
    from p(2) show ?thesis
    proof (elim disjE exE conjE)
      assume "skip_ws gs = 93 # u" "vs = [w]"
      with s(2) w show ?thesis by auto
    next
      fix a vs' assume a: "skip_ws gs = 44 # a" "vs = w # vs'"
        "parse_elements f p (skip_ws a) = Some (Inr (vs', u))"
      with s(2) w have "scan_elements g' b d (enc (skip_ws a), j) = Some (Inr (cs, k))" by auto
      from elements [OF a(3) this] w show ?thesis unfolding a(2) by auto
    qed
  qed
  ultimately show ?case by blast
qed simp

lemma scan_document_loads:
  assumes "scan_document b data = Some (Inr k)" and "json_loads p data = Some (Inr v)"
  shows "json_nodes v \<le> k \<and> k \<le> jbd_maximum_nodes b \<and> nested (jbd_maximum_depth b) 1 v"
proof -
  from assms(2) obtain t r where t: "decode_pass data = Inr t"
    "parse_value (Suc (2 * length t)) p (skip_ws t) = Some (Inr (v, r))"
    unfolding json_loads_def and_scan_Inr by (auto simp del: parse_value.simps split: if_splits)
  then have data: "data = enc t" by (simp add: decode_pass_enc)
  from assms(1) obtain cs where s: "scan_value (Suc (2 * length (skip_ws data))) b 1 (enc (skip_ws t), 0) = Some (Inr (cs, k))"
    unfolding scan_document_def Let_def and_scan_Inr data by (auto simp: and_scan_Inr split: if_splits simp del: scan_value.simps)
  show ?thesis
    using scan_parse [THEN conjunct1, rule_format, OF t(2) s]
      scan_nodes [THEN conjunct1, rule_format, OF s] by simp
qed

end
