(* ===== verification/Bounded_Json_Claims.thy ===== *)
theory Bounded_Json_Claims
  imports Bounded_Json_Guard
begin

text \<open>
  Properties of the bounded JSON reader: it always ends, what it returns is within the bounds, the
  scanner guards the parser, and repeated members are refused or resolved.
\<close>

definition small_bounds :: json_bounds where
  "small_bounds = \<lparr>jbd_maximum_nodes = 8, jbd_maximum_depth = 3, jbd_maximum_string = Some 4\<rparr>"

definition plain_reader :: json_reader where
  "plain_reader = \<lparr>jrd_reject_duplicates = True, jrd_float_repr = (\<lambda>_. None)\<rparr>"

definition sample_body :: "nat list" where
  "sample_body = lit ''{'' @ [34, 97, 34] @ lit '': [1, true]}''"

definition sample_value :: json where
  "sample_value = JObj [(lit ''a'', JList [JInt 1, JBool True])]"

lemma sample_scan: "scan_document small_bounds sample_body = Some (Inr 5)"
  by code_simp

lemma sample_loads: "json_loads plain_reader sample_body = Some (Inr sample_value)"
  by code_simp

lemma sample_bytes: "map unat (map of_nat sample_body :: bytes) = sample_body"
  by (simp add: sample_body_def lit_def)

lemma sample_shape: "validate_json_shape small_bounds sample_value = Inr 5"
  by (simp add: validate_json_shape_iff sample_value_def small_bounds_def string_within_def utf8_size_def
      utf8_encode_def is_scalar_def utf8_char_def utf8_values_def lit_def)

lemma sample_bounded:
  "bounded_json_loads 64 small_bounds plain_reader (map of_nat sample_body) = Some (Inr sample_value)"
proof -
  have "int (length sample_body) \<le> 64" by (simp add: sample_body_def lit_def)
  then show ?thesis
    unfolding bounded_json_loads_def sample_bytes sample_scan sample_loads
    by (simp add: and_scan_def sample_shape)
qed

text \<open>
  C19. The reader ends on every input, with a value or an error: two units of fuel per byte are enough for
  the scanner and for the parser.
\<close>

theorem bounded_loads_ends: "\<exists>r. bounded_json_loads maximum_bytes b p data = Some r"
proof -
  have "and_scan (map_option (map_sum body_error id) (json_loads p (map unat data)))
      (\<lambda>v. Some (map_sum id (\<lambda>_. v) (validate_json_shape b v))) \<noteq> None"
    using json_loads_total by (intro and_scan_total) auto
  then have "and_scan (scan_document b (map unat data)) (\<lambda>_.
      and_scan (map_option (map_sum body_error id) (json_loads p (map unat data)))
        (\<lambda>v. Some (map_sum id (\<lambda>_. v) (validate_json_shape b v)))) \<noteq> None"
    using scan_document_total [of b "map unat data"] by (rule and_scan_total [rotated])
  then show ?thesis by (simp add: bounded_json_loads_def)
qed

text \<open>
  C18. A body that is read is no longer than the byte bound, and its value is within the node, depth and
  string bounds.
\<close>

theorem bounded_loads_bounds:
  assumes "bounded_json_loads maximum_bytes b p data = Some (Inr v)"
  shows "int (length data) \<le> maximum_bytes \<and> json_nodes v \<le> jbd_maximum_nodes b \<and>
    nested (jbd_maximum_depth b) 1 v \<and> strings_within b v"
proof -
  have "int (length data) \<le> maximum_bytes"
    using assms by (simp add: bounded_json_loads_def split: if_splits)
  moreover from assms this obtain m where "validate_json_shape b v = Inr m"
    by (auto simp: bounded_json_loads_def and_scan_Inr map_sum_Inr)
  ultimately show ?thesis by (auto simp: validate_json_shape_iff)
qed

lemma bounded_loads_bounds_witness:
  "int (length sample_body) \<le> 64 \<and> json_nodes sample_value \<le> 8 \<and> nested 3 1 sample_value \<and>
    strings_within small_bounds sample_value"
  using bounded_loads_bounds [OF sample_bounded] by (simp add: small_bounds_def)

text \<open>
  C17. The scanner is a guard of the parser: what \<open>json.loads\<close> builds from bytes that passed the scan has no
  more nodes than were counted and is no deeper than the bound, so the exact check afterwards can
  only refuse a string.
\<close>

theorem scan_guards_loads:
  assumes "scan_document b data = Some (Inr n)" and "json_loads p data = Some (Inr v)"
  shows "json_nodes v \<le> n \<and> n \<le> jbd_maximum_nodes b \<and> nested (jbd_maximum_depth b) 1 v \<and>
    (validate_json_shape b v = Inr (json_nodes v) \<longleftrightarrow> strings_within b v)"
  using scan_document_loads [OF assms] by (auto simp: validate_json_shape_iff)

lemma scan_guards_loads_witness:
  "json_nodes sample_value \<le> 5 \<and> 5 \<le> jbd_maximum_nodes small_bounds \<and>
    nested (jbd_maximum_depth small_bounds) 1 sample_value \<and>
    (validate_json_shape small_bounds sample_value = Inr (json_nodes sample_value) \<longleftrightarrow>
     strings_within small_bounds sample_value)"
  by (rule scan_guards_loads [OF sample_scan sample_loads])

text \<open>
  With the rejecting hook a repeated member is an error and otherwise the members are kept as they
  are; without it a later member replaces an earlier one, and the keys are distinct.
\<close>

lemma unique_object_pairs_eq:
  "unique_object_pairs d kvs =
     (if distinct (map fst kvs) \<and> set (map fst d) \<inter> set (map fst kvs) = {} then Inr (JObj (d @ kvs))
      else Inl DuplicateJsonKey)"
proof (induction d kvs rule: unique_object_pairs.induct)
  case (2 d k v kvs)
  have "AList.update k v d = d @ [(k, v)]" if "k \<notin> set (map fst d)"
    using that by (induction d) auto
  with 2 show ?case by auto
qed simp

lemma fold_update_map: "map_of (fold (\<lambda>(k, v). AList.update k v) kvs d) = map_of d ++ map_of (rev kvs)"
proof (induction kvs arbitrary: d)
  case (Cons p kvs)
  obtain k v where p: "p = (k, v)" by (cases p)
  have "map_of (AList.update k v d) = map_of d ++ map_of [(k, v)]" by (simp add: update_conv')
  then show ?case by (simp add: p Cons del: map_of.simps)
qed simp

lemma fold_update_distinct:
  "distinct (map fst d) \<Longrightarrow> distinct (map fst (fold (\<lambda>(k, v). AList.update k v) kvs d))"
  by (induction kvs arbitrary: d) (auto simp: distinct_update)

theorem repeated_members:
  "build_object True kvs =
     (if distinct (map fst kvs) then Inr (JObj kvs) else Inl DuplicateJsonKey) \<and>
   (\<exists>m. build_object False kvs = Inr (JObj m) \<and> distinct (map fst m) \<and> map_of m = map_of (rev kvs))"
  using fold_update_map [of kvs "[]"] fold_update_distinct [of "[]" kvs]
  by (simp add: build_object_def unique_object_pairs_eq)

end
