(* ===== verification/Prompt_Content.thy ===== *)
theory Prompt_Content
  imports Canonical_Json Identity Limits
begin

text \<open>
  The provider-neutral vocabulary of \<open>llm/input.py\<close>: text, images and annotations, the contract of a
  prompt, what of it a provider sees, and messages. A part that the code constructs is checked by the
  function named after it with \<open>_init\<close>. Messages of errors that the code writes in Chinese are given in
  English. \<open>sha\<close> is the hexadecimal digest, \<open>loads\<close> is \<open>json.loads\<close> on text.
\<close>

section \<open>Parts\<close>

datatype message_role = Role_System | Role_User | Role_Assistant | Role_Tool_Call | Role_Tool_Result

definition allowed_image_media_types :: "pystr list" where
  "allowed_image_media_types = map lit [''image/jpeg'', ''image/png'', ''image/webp'']"

definition maximum_prompt_image_pixels :: int where
  "maximum_prompt_image_pixels = 16777216"

definition text_part_init :: "pystr \<Rightarrow> unit result" where
  "text_part_init t = map_sum id (\<lambda>_. ()) (utf8_encode t)"

record upload_image =
  upl_bytes :: bytes
  upl_mime :: pystr

definition upload_image_init :: "upload_image \<Rightarrow> unit result" where
  "upload_image_init u =
     (if upl_bytes u = [] then Inl (ValueError ''prompt image bytes cannot be empty'')
      else if upl_mime u \<notin> set allowed_image_media_types
      then Inl (ValueError ''prompt image MIME is outside the supported input set'')
      else Inr ())"

record image_part =
  img_media_type :: pystr
  img_bytes :: bytes
  img_width :: int
  img_height :: int
  img_ref :: "pystr option"

definition image_part_init :: "image_part \<Rightarrow> unit result" where
  "image_part_init i =
     (if img_media_type i \<notin> set allowed_image_media_types
      then Inl (ValueError ''model image MIME is outside the validated input set'')
      else if img_bytes i = [] then Inl (ValueError ''model image payload cannot be empty'')
      else if img_width i < 1 \<or> img_height i < 1 \<or>
        img_width i * img_height i > maximum_prompt_image_pixels
      then Inl (ValueError ''model image dimensions are outside the validated range'')
      else
        (case img_ref i of
           None \<Rightarrow> Inr ()
         | Some r \<Rightarrow> map_sum id (\<lambda>_. ()) (require_id r [lit ''image''])))"

definition content_digest :: "(bytes \<Rightarrow> pystr) \<Rightarrow> image_part \<Rightarrow> pystr" where
  "content_digest sha i = lit ''sha256:'' @ sha (img_bytes i)"

record annotation_source =
  ans_entry_id :: pystr
  ans_start :: int
  ans_end :: int

definition annotation_source_init :: "annotation_source \<Rightarrow> unit result" where
  "annotation_source_init s =
     (if ans_entry_id s = [] then Inl (ValueError ''annotation lacks its source message'')
      else
        bind_result (utf8_encode (ans_entry_id s)) (\<lambda>_.
          if \<not> (0 \<le> ans_start s \<and> ans_start s < ans_end s)
          then Inl (ValueError ''annotation range is invalid'') else Inr ()))"

record annotation =
  ann_quote :: pystr
  ann_source :: "annotation_source option"
  ann_comment :: "pystr option"

definition annotation_init :: "annotation \<Rightarrow> unit result" where
  "annotation_init a =
     (if ann_quote a = [] then Inl (ValueError ''annotation quote cannot be empty'')
      else
        bind_result (utf8_encode (ann_quote a)) (\<lambda>_.
          case ann_comment a of None \<Rightarrow> Inr () | Some c \<Rightarrow> map_sum id (\<lambda>_. ()) (utf8_encode c)))"

text \<open>The mapping an annotation is stored as, and its reading.\<close>

definition annotation_value :: "annotation \<Rightarrow> json" where
  "annotation_value a =
     JObj ([(lit ''type'', JStr (lit ''annotation'')), (lit ''quote'', JStr (ann_quote a)),
        (lit ''source'',
           case ann_source a of
             None \<Rightarrow> JNull
           | Some s \<Rightarrow> JObj [(lit ''entry_id'', JStr (ans_entry_id s)), (lit ''start'', JInt (ans_start s)),
               (lit ''end'', JInt (ans_end s))])] @
       (case ann_comment a of None \<Rightarrow> [] | Some c \<Rightarrow> [(lit ''comment'', JStr c)]))"

definition source_from_value :: "json \<Rightarrow> annotation_source option result" where
  "source_from_value raw =
     (case raw of
        JNull \<Rightarrow> Inr None
      | JObj kvs \<Rightarrow>
          if fst ` set kvs \<noteq> {lit ''entry_id'', lit ''start'', lit ''end''}
          then Inl (ValueError ''annotation source structure is invalid'')
          else
            (case the (map_of kvs (lit ''entry_id'')) of
               JStr e \<Rightarrow>
                 (if e = [] then Inl (ValueError ''annotation lacks its source message'')
                  else
                    bind_result (utf8_encode e) (\<lambda>_.
                      case (the (map_of kvs (lit ''start'')), the (map_of kvs (lit ''end''))) of
                        (JInt a, JInt b) \<Rightarrow>
                          (let s = \<lparr>ans_entry_id = e, ans_start = a, ans_end = b\<rparr> in
                           map_sum id (\<lambda>_. Some s) (annotation_source_init s))
                      | _ \<Rightarrow> Inl (ValueError ''annotation range is invalid'')))
             | _ \<Rightarrow> Inl (ValueError ''annotation lacks its source message''))
      | _ \<Rightarrow> Inl (ValueError ''annotation source structure is invalid''))"

definition annotation_from_value :: "(pystr \<times> json) list \<Rightarrow> annotation result" where
  "annotation_from_value kvs =
     (let keys = fst ` set kvs; base = {lit ''type'', lit ''quote'', lit ''source''} in
      if keys \<noteq> base \<and> keys \<noteq> insert (lit ''comment'') base \<or>
         map_of kvs (lit ''type'') \<noteq> Some (JStr (lit ''annotation''))
      then Inl (ValueError ''annotation structure is invalid'')
      else if \<not> (case map_of kvs (lit ''comment'') of None \<Rightarrow> True | Some (JStr _) \<Rightarrow> True | _ \<Rightarrow> False)
      then Inl (ValueError ''annotation comment must be text'')
      else
        bind_result (source_from_value (the (map_of kvs (lit ''source'')))) (\<lambda>src.
          case the (map_of kvs (lit ''quote'')) of
            JStr q \<Rightarrow>
              (let a = \<lparr>ann_quote = q, ann_source = src,
                        ann_comment = (case map_of kvs (lit ''comment'') of
                          Some (JStr c) \<Rightarrow> Some c | _ \<Rightarrow> None)\<rparr> in
               map_sum id (\<lambda>_. a) (annotation_init a))
          | _ \<Rightarrow> Inl (ValueError ''annotation quote cannot be empty'')))"

datatype 'i prompt_part = Text_Part pystr | Image_Part 'i | Annotation_Part annotation

type_synonym frozen_part = "image_part prompt_part"

fun part_init :: "('i \<Rightarrow> unit result) \<Rightarrow> 'i prompt_part \<Rightarrow> unit result" where
  "part_init image_init (Text_Part t) = text_part_init t"
| "part_init image_init (Image_Part i) = image_init i"
| "part_init image_init (Annotation_Part a) =
     bind_result (case ann_source a of None \<Rightarrow> Inr () | Some s \<Rightarrow> annotation_source_init s)
       (\<lambda>_. annotation_init a)"

section \<open>Prompt contents\<close>

definition forbidden_control :: "pystr \<Rightarrow> bool" where
  "forbidden_control t \<longleftrightarrow> list_ex (\<lambda>c. c \<notin> {10, 9} \<and> c < 0x20) t"

definition prompt_text_utf8_bytes :: "pystr list \<Rightarrow> int result" where
  "prompt_text_utf8_bytes ts =
     bind_result
       (for_each (\<lambda>total t.
          if forbidden_control t then Inl (ValueError ''prompt contains a forbidden control character'')
          else map_sum id (\<lambda>k. total + k) (utf8_size t)) 0 ts)
       (\<lambda>total. if total > maximum_prompt_text_utf8_bytes
                then Inl (ValueError ''prompt text exceeds its UTF-8 byte bound'') else Inr total)"

fun content_charge :: "pystr list \<times> int \<Rightarrow> 'i prompt_part \<Rightarrow> (pystr list \<times> int) result" where
  "content_charge (active, quoted) (Text_Part t) = Inr (active @ [t], quoted)"
| "content_charge (active, quoted) (Image_Part i) = Inr (active, quoted)"
| "content_charge (active, quoted) (Annotation_Part a) =
     bind_result (utf8_size (ann_quote a)) (\<lambda>k.
       case ann_comment a of
         None \<Rightarrow> Inr (active, quoted + k)
       | Some c \<Rightarrow> map_sum id (\<lambda>_. (active @ [c], quoted + k)) (text_part_init c))"

definition prompt_content_text_utf8_bytes :: "'i prompt_part list \<Rightarrow> int result" where
  "prompt_content_text_utf8_bytes parts =
     bind_result (for_each content_charge ([], 0) parts) (\<lambda>(active, quoted).
       bind_result (prompt_text_utf8_bytes active) (\<lambda>n.
         if n + quoted > maximum_prompt_text_utf8_bytes
         then Inl (ValueError ''prompt text exceeds its UTF-8 byte bound'') else Inr (n + quoted)))"

definition validate_prompt_parts :: "'i prompt_part list \<Rightarrow> unit result" where
  "validate_prompt_parts parts =
     (if parts = [] then Inl (ValueError ''prompt content cannot be empty'')
      else if \<forall>p \<in> set parts. p = Text_Part []
      then Inl (ValueError ''prompt content must contain text or an image'')
      else map_sum id (\<lambda>_. ()) (prompt_content_text_utf8_bytes parts))"

definition prompt_content_init :: "upload_image prompt_part list \<Rightarrow> unit result" where
  "prompt_content_init parts =
     bind_result (validate_prompt_parts parts) (\<lambda>_.
       if \<exists>p \<in> set parts. case p of Annotation_Part a \<Rightarrow> ann_source a = None | _ \<Rightarrow> False
       then Inl (ValueError ''a new annotation must name its source message'') else Inr ())"

definition frozen_content_init :: "frozen_part list \<Rightarrow> unit result" where
  "frozen_content_init parts = validate_prompt_parts parts"

fun is_image :: "'i prompt_part \<Rightarrow> bool" where
  "is_image (Image_Part i) = True"
| "is_image _ = False"

fun is_annotation :: "'i prompt_part \<Rightarrow> bool" where
  "is_annotation (Annotation_Part a) = True"
| "is_annotation _ = False"

definition content_has_image :: "'i prompt_part list \<Rightarrow> bool" where
  "content_has_image parts = list_ex is_image parts"

definition has_annotation :: "'i prompt_part list \<Rightarrow> bool" where
  "has_annotation parts = list_ex is_annotation parts"

text \<open>The text values of a content that is text only.\<close>

fun text_part_value :: "'i prompt_part \<Rightarrow> pystr result" where
  "text_part_value (Text_Part t) = Inr t"
| "text_part_value _ = Inl (ValueError ''text-only consumer cannot consume image content'')"

definition text_part_values :: "'i prompt_part list \<Rightarrow> pystr list result" where
  "text_part_values parts = map_result text_part_value parts"

definition join_text_content :: "pystr \<Rightarrow> 'i prompt_part list \<Rightarrow> pystr result" where
  "join_text_content separator parts = map_sum id (join_with separator) (text_part_values parts)"

fun active_text :: "'i prompt_part \<Rightarrow> pystr list" where
  "active_text (Text_Part t) = [t]"
| "active_text (Image_Part i) = []"
| "active_text (Annotation_Part a) =
     (case ann_comment a of None \<Rightarrow> [] | Some c \<Rightarrow> if c = [] then [] else [c])"

definition prompt_text_projection :: "'i prompt_part list \<Rightarrow> pystr" where
  "prompt_text_projection parts = join_with [10] (concat (map active_text parts))"

section \<open>What a provider sees\<close>

definition annotation_lead :: pystr where
  "annotation_lead =
     [20197, 19979, 26159, 29992, 25143, 24341, 29992, 30340, 21382, 21490, 22238, 22797,
      29255, 27573, 12290, 113, 117, 111, 116, 101, 32, 26159, 24341, 29992, 26448, 26009,
      65292, 99, 111, 109, 109, 101, 110, 116, 32, 26159, 29992, 25143, 38024, 23545, 35813,
      29255, 27573, 30340, 35201, 27714, 65307, 35831, 32467, 21512, 26412, 27425, 35831,
      27714, 22238, 24212, 12290, 10]"

definition historical_image_marker :: pystr where
  "historical_image_marker =
     [91, 21382, 21490, 22270, 29255, 65307, 27492, 22788, 26410, 21253, 21547, 22270, 20687,
      20869, 23481, 93]"

definition image_reference_lead :: pystr where
  "image_reference_lead =
     [91, 21382, 21490, 22270, 29255, 24341, 29992, 65307, 27492, 22788, 26410, 21253, 21547,
      22270, 20687, 20869, 23481, 93, 10]"

definition image_reference_text :: "pystr \<Rightarrow> pystr \<Rightarrow> int \<Rightarrow> int \<Rightarrow> pystr result" where
  "image_reference_text image_ref media_type width height =
     map_sum id
       (\<lambda>r. image_reference_lead @ lit ''target={'' @ json_string (lit ''kind'') @ lit '':'' @
          json_string (lit ''IMAGE_REF'') @ lit '','' @ json_string (lit ''image_ref'') @ lit '':'' @
          [34] @ r @ [34] @ lit ''}'' @ [10] @ lit ''media_type: '' @ media_type @ lit ''; width: '' @
          int_text width @ lit ''; height: '' @ int_text height)
       (require_id image_ref [lit ''image''])"

definition annotation_item :: "int \<Rightarrow> annotation \<Rightarrow> json" where
  "annotation_item index a =
     JObj ([(lit ''index'', JInt index), (lit ''quote'', JStr (ann_quote a))] @
       (case ann_comment a of None \<Rightarrow> [] | Some c \<Rightarrow> [(lit ''comment'', JStr c)]))"

fun provider_parts_from :: "int \<Rightarrow> 'i prompt_part list \<Rightarrow> 'i prompt_part list result" where
  "provider_parts_from index [] = Inr []"
| "provider_parts_from index (Annotation_Part a # ps) =
     bind_result (canonical_text (JObj [(lit ''annotations'', JList [annotation_item (index + 1) a])])) (\<lambda>t.
     bind_result (text_part_init (annotation_lead @ t)) (\<lambda>_.
       map_sum id (\<lambda>rs. Text_Part (annotation_lead @ t) # rs) (provider_parts_from (index + 1) ps)))"
| "provider_parts_from index (p # ps) = map_sum id (\<lambda>rs. p # rs) (provider_parts_from index ps)"

definition prompt_provider_parts :: "'i prompt_part list \<Rightarrow> 'i prompt_part list result" where
  "prompt_provider_parts parts = provider_parts_from 0 parts"

text \<open>The text a tool result with images shows to hooks.\<close>

definition image_loaded_text :: "image_part \<Rightarrow> pystr" where
  "image_loaded_text i =
     lit ''Image loaded ('' @ img_media_type i @ lit '', '' @ int_text (img_width i) @ lit ''x'' @
     int_text (img_height i) @ lit '', '' @ int_text (int (length (img_bytes i))) @ lit '' bytes).''"

definition images_of :: "'i prompt_part list \<Rightarrow> 'i list" where
  "images_of parts = concat (map (\<lambda>p. case p of Image_Part i \<Rightarrow> [i] | _ \<Rightarrow> []) parts)"

definition texts_of :: "'i prompt_part list \<Rightarrow> pystr list" where
  "texts_of parts = concat (map (\<lambda>p. case p of Text_Part t \<Rightarrow> [t] | _ \<Rightarrow> []) parts)"

definition tool_result_public_text ::
  "(pystr \<Rightarrow> json result) \<Rightarrow> frozen_part list \<Rightarrow> pystr option \<Rightarrow> pystr result" where
  "tool_result_public_text loads parts tool_name =
     (if has_annotation parts then Inl (ValueError ''ToolResult cannot contain annotations'')
      else if images_of parts = []
      then Inl (ValueError ''ToolResult public projection requires images'')
      else if tool_name = Some (lit ''read_video_frames'') then
        (let t = join_with [10] (texts_of parts) in
         bind_result (loads t) (\<lambda>v.
           case v of
             JObj kvs \<Rightarrow>
               if map_of kvs (lit ''video_frames'') = Some (JBool True) then Inr t
               else Inl (ValueError ''Video images require their complete time index'')
           | _ \<Rightarrow> Inl (ValueError ''Video images require their complete time index'')))
      else if tool_name \<noteq> Some (lit ''view_image'') \<or> length (images_of parts) \<noteq> 1
      then Inl (ValueError ''view_image requires exactly one validated image'')
      else Inr (image_loaded_text (hd (images_of parts))))"

section \<open>Identity and size\<close>

definition image_value :: "(bytes \<Rightarrow> pystr) \<Rightarrow> image_part \<Rightarrow> json" where
  "image_value sha i =
     JObj [(lit ''type'', JStr (lit ''image'')), (lit ''digest'', JStr (content_digest sha i)),
       (lit ''image_ref'', case img_ref i of None \<Rightarrow> JNull | Some r \<Rightarrow> JStr r),
       (lit ''encoded_bytes'', JInt (int (length (img_bytes i)))),
       (lit ''media_type'', JStr (img_media_type i)), (lit ''width'', JInt (img_width i)),
       (lit ''height'', JInt (img_height i))]"

fun content_identity_item :: "(bytes \<Rightarrow> pystr) \<Rightarrow> frozen_part \<Rightarrow> json result" where
  "content_identity_item sha (Text_Part t) = Inr (JStr t)"
| "content_identity_item sha (Image_Part i) = Inr (image_value sha i)"
| "content_identity_item sha (Annotation_Part a) = Inl (TypeError ''model content identity requires typed parts'')"

definition llm_content_identity_value :: "(bytes \<Rightarrow> pystr) \<Rightarrow> frozen_part list \<Rightarrow> json result" where
  "llm_content_identity_value sha parts = map_sum id JList (map_result (content_identity_item sha) parts)"

fun canonical_part :: "(bytes \<Rightarrow> pystr) \<Rightarrow> frozen_part \<Rightarrow> json" where
  "canonical_part sha (Text_Part t) = JObj [(lit ''type'', JStr (lit ''text'')), (lit ''text'', JStr t)]"
| "canonical_part sha (Annotation_Part a) = annotation_value a"
| "canonical_part sha (Image_Part i) = image_value sha i"

definition prompt_canonical_value :: "(bytes \<Rightarrow> pystr) \<Rightarrow> frozen_part list \<Rightarrow> json" where
  "prompt_canonical_value sha parts =
     JObj [(lit ''schema'', JStr (lit ''pulsara.prompt/v2'')), (lit ''parts'', JList (map (canonical_part sha) parts))]"

fun logical_bytes_step :: "int \<Rightarrow> frozen_part \<Rightarrow> int result" where
  "logical_bytes_step n (Text_Part t) = map_sum id (\<lambda>k. n + k) (utf8_size t)"
| "logical_bytes_step n (Image_Part i) =
     map_sum id (\<lambda>k. n + int (length (img_bytes i)) + k) (utf8_size (img_media_type i))"
| "logical_bytes_step n (Annotation_Part a) = Inl (TypeError ''model logical size requires typed parts'')"

definition llm_content_logical_bytes :: "frozen_part list \<Rightarrow> int result" where
  "llm_content_logical_bytes parts = for_each logical_bytes_step 0 parts"

section \<open>Messages\<close>

record llm_tool_call =
  ltc_id :: pystr
  ltc_name :: pystr
  ltc_arguments :: pystr

record llm_message =
  msg_role :: message_role
  msg_content :: "frozen_part list"
  msg_tool_calls :: "llm_tool_call list"
  msg_tool_call_id :: "pystr option"
  msg_name :: "pystr option"
  msg_arguments :: "pystr option"

definition message_init :: "llm_message \<Rightarrow> unit result" where
  "message_init m =
     (if has_annotation (msg_content m)
      then Inl (TypeError ''model message content must be typed immutable parts'')
      else if msg_role m \<noteq> Role_User \<and> content_has_image (msg_content m)
      then Inl (ValueError ''image content is only valid in USER messages'')
      else if msg_role m \<in> {Role_System, Role_User} \<and>
        (msg_tool_calls m \<noteq> [] \<or> msg_tool_call_id m \<noteq> None \<or> msg_name m \<noteq> None \<or> msg_arguments m \<noteq> None)
      then Inl (ValueError ''textual provider message has tool-only fields'') else Inr ())"

definition plain_message :: "message_role \<Rightarrow> frozen_part list \<Rightarrow> llm_message" where
  "plain_message r parts =
     \<lparr>msg_role = r, msg_content = parts, msg_tool_calls = [], msg_tool_call_id = None, msg_name = None,
      msg_arguments = None\<rparr>"

definition built_message :: "llm_message \<Rightarrow> llm_message result" where
  "built_message m = map_sum id (\<lambda>_. m) (message_init m)"

definition text_message :: "message_role \<Rightarrow> pystr \<Rightarrow> llm_message result" where
  "text_message r t =
     bind_result (text_part_init t) (\<lambda>_. built_message (plain_message r [Text_Part t]))"

definition user_content_message :: "frozen_part list \<Rightarrow> llm_message result" where
  "user_content_message parts =
     bind_result (prompt_provider_parts parts) (\<lambda>ps. built_message (plain_message Role_User ps))"

definition assistant_turn_message :: "pystr option \<Rightarrow> llm_tool_call list \<Rightarrow> llm_message result" where
  "assistant_turn_message t calls =
     (case t of
        None \<Rightarrow> built_message ((plain_message Role_Assistant [])\<lparr>msg_tool_calls := calls\<rparr>)
      | Some x \<Rightarrow>
          if x = [] then built_message ((plain_message Role_Assistant [])\<lparr>msg_tool_calls := calls\<rparr>)
          else bind_result (text_part_init x) (\<lambda>_.
            built_message ((plain_message Role_Assistant [Text_Part x])\<lparr>msg_tool_calls := calls\<rparr>)))"

definition tool_call_message :: "pystr \<Rightarrow> pystr \<Rightarrow> pystr \<Rightarrow> llm_message result" where
  "tool_call_message call_id name arguments =
     built_message ((plain_message Role_Tool_Call [])\<lparr>msg_tool_call_id := Some call_id, msg_name := Some name,
       msg_arguments := Some arguments\<rparr>)"

definition tool_result_message :: "pystr \<Rightarrow> pystr option \<Rightarrow> llm_message result" where
  "tool_result_message t call_id =
     bind_result (text_part_init t) (\<lambda>_.
       built_message ((plain_message Role_Tool_Result [Text_Part t])\<lparr>msg_tool_call_id := call_id\<rparr>))"

end
