(* ===== verification/Prompt_Claims.thy ===== *)
theory Prompt_Claims
  imports Prompt_Content
begin

text \<open>
  Properties of prompt contents: annotations are read back, an accepted content is within the text
  bound, and what a provider sees of it does not depend on where a quotation came from.
\<close>

section \<open>Annotations\<close>

lemma utf8_encode_unit: "map_sum id (\<lambda>_. ()) (utf8_encode t) = Inr () \<longleftrightarrow> list_all is_scalar t"
  by (simp add: utf8_encode_def)

text \<open>
  C21. An annotation that can be constructed is read back from its stored form unchanged.
\<close>

theorem annotation_roundtrip:
  assumes "part_init f (Annotation_Part a) = Inr ()"
  shows "\<exists>kvs. annotation_value a = JObj kvs \<and> annotation_from_value kvs = Inr a"
proof -
  obtain q s c where a: "a = \<lparr>ann_quote = q, ann_source = s, ann_comment = c\<rparr>" by (cases a)
  have q: "q \<noteq> []" "list_all is_scalar q" and c: "\<And>t. c = Some t \<Longrightarrow> list_all is_scalar t"
    and s: "\<And>x. s = Some x \<Longrightarrow> annotation_source_init x = Inr ()"
    using assms by (auto simp: a annotation_init_def bind_result_Inr utf8_encode_def
        split: if_splits option.splits)
  have i: "annotation_init a = Inr ()"
    using q c by (auto simp: a annotation_init_def utf8_encode_def split: option.split)
  have src: "source_from_value (case s of None \<Rightarrow> JNull
      | Some s \<Rightarrow> JObj [(lit ''entry_id'', JStr (ans_entry_id s)), (lit ''start'', JInt (ans_start s)),
          (lit ''end'', JInt (ans_end s))]) = Inr s"
  proof (cases s)
    case (Some x)
    have "ans_entry_id x \<noteq> []" "list_all is_scalar (ans_entry_id x)"
      using s [OF Some] by (auto simp: annotation_source_init_def bind_result_Inr utf8_encode_def split: if_splits)
    with s [OF Some] Some show ?thesis
      by (cases x) (auto simp: source_from_value_def Let_def utf8_encode_def)
  qed (simp add: source_from_value_def)
  show ?thesis
    using src i unfolding a by (cases c) (auto simp: annotation_value_def annotation_from_value_def Let_def)
qed

definition sample_annotation :: annotation where
  "sample_annotation =
     \<lparr>ann_quote = lit ''old'', ann_source = Some \<lparr>ans_entry_id = lit ''e'', ans_start = 2, ans_end = 5\<rparr>,
      ann_comment = Some (lit ''why?'')\<rparr>"

lemma sample_annotation_ok: "part_init f (Annotation_Part sample_annotation) = Inr ()"
  by (simp add: sample_annotation_def annotation_source_init_def annotation_init_def utf8_encode_def is_scalar_def)

lemma annotation_roundtrip_witness:
  "\<exists>kvs. annotation_value sample_annotation = JObj kvs \<and> annotation_from_value kvs = Inr sample_annotation"
  by (rule annotation_roundtrip [OF sample_annotation_ok [of image_part_init]])

section \<open>Bounds\<close>

fun charged_texts :: "'i prompt_part \<Rightarrow> pystr list" where
  "charged_texts (Text_Part t) = [t]"
| "charged_texts (Image_Part i) = []"
| "charged_texts (Annotation_Part a) =
     ann_quote a # (case ann_comment a of None \<Rightarrow> [] | Some c \<Rightarrow> [c])"

definition text_size :: "pystr list \<Rightarrow> int" where
  "text_size ts = (\<Sum>t\<leftarrow>ts. int (length (utf8_bytes t)))"

lemma text_size_simps [simp]: "text_size [] = 0" "text_size (t # ts) = int (length (utf8_bytes t)) + text_size ts"
  "text_size (ts @ us) = text_size ts + text_size us"
  by (simp_all add: text_size_def)

definition active_texts :: "'i prompt_part list \<Rightarrow> pystr list" where
  "active_texts parts = concat (map (\<lambda>p. case p of Text_Part t \<Rightarrow> [t] | Image_Part _ \<Rightarrow> []
     | Annotation_Part a \<Rightarrow> (case ann_comment a of None \<Rightarrow> [] | Some c \<Rightarrow> [c])) parts)"

lemma active_texts_simps [simp]: "active_texts [] = []"
  "active_texts (p # ps) = (case p of Text_Part t \<Rightarrow> [t] | Image_Part _ \<Rightarrow> []
     | Annotation_Part a \<Rightarrow> (case ann_comment a of None \<Rightarrow> [] | Some c \<Rightarrow> [c])) @ active_texts ps"
  by (simp_all add: active_texts_def)

lemma utf8_size_Inr: "utf8_size t = Inr n \<longleftrightarrow> list_all is_scalar t \<and> n = int (length (utf8_bytes t))"
  by (auto simp: utf8_size_def utf8_encode_def)

lemma content_charge_loop:
  assumes "for_each content_charge (active, quoted) parts = Inr (active', quoted')"
  shows "active' = active @ active_texts parts \<and>
    text_size active' + quoted' = text_size active + quoted + text_size (concat (map charged_texts parts))"
  using assms
proof (induction parts arbitrary: active quoted)
  case (Cons p ps)
  show ?case
  proof (cases p)
    case (Annotation_Part a)
    then show ?thesis using Cons
      by (cases "ann_comment a")
        (auto simp: utf8_size_Inr map_sum_Inr bind_result_Inr split: sum.splits dest!: Cons.IH)
  qed (use Cons in \<open>auto dest!: Cons.IH\<close>)
qed simp

lemma prompt_text_loop:
  "for_each (\<lambda>total t.
     if forbidden_control t then Inl (ValueError ''prompt contains a forbidden control character'')
     else map_sum id (\<lambda>k. total + k) (utf8_size t)) m ts = Inr n \<Longrightarrow>
   n = m + text_size ts \<and> list_all (\<lambda>t. \<not> forbidden_control t) ts"
proof (induction ts arbitrary: m)
  case (Cons t ts)
  then show ?case by (auto split: if_splits sum.splits simp: map_sum_Inr utf8_size_Inr dest!: Cons.IH)
qed simp

text \<open>
  An accepted content, frozen or not, has at most the maximum of UTF-8 bytes in its texts, quotations
  and comments together, and no control character in what the user wrote.
\<close>

theorem accepted_content_bounds:
  assumes "validate_prompt_parts parts = Inr ()"
  shows "text_size (concat (map charged_texts parts)) \<le> maximum_prompt_text_utf8_bytes \<and>
    list_all (\<lambda>t. \<not> forbidden_control t) (active_texts parts)"
proof -
  from assms obtain n where "prompt_content_text_utf8_bytes parts = Inr n"
    by (auto simp: validate_prompt_parts_def map_sum_Inr split: if_splits)
  then obtain active quoted k where c: "for_each content_charge ([], 0) parts = Inr (active, quoted)"
    and k: "prompt_text_utf8_bytes active = Inr k" and n: "k + quoted \<le> maximum_prompt_text_utf8_bytes"
    by (auto simp: prompt_content_text_utf8_bytes_def bind_result_Inr split: if_splits)
  have "k = text_size active" "list_all (\<lambda>t. \<not> forbidden_control t) active"
    using k prompt_text_loop [of 0 active] by (auto simp: prompt_text_utf8_bytes_def bind_result_Inr split: if_splits)
  with content_charge_loop [OF c] n show ?thesis by auto
qed

definition sample_parts :: "frozen_part list" where
  "sample_parts = [Text_Part (lit ''see''), Annotation_Part sample_annotation]"

lemma sample_parts_ok: "validate_prompt_parts sample_parts = Inr ()"
  by (simp add: validate_prompt_parts_def sample_parts_def sample_annotation_def prompt_content_text_utf8_bytes_def
      prompt_text_utf8_bytes_def text_part_init_def utf8_size_def utf8_encode_def is_scalar_def forbidden_control_def
      maximum_prompt_text_utf8_bytes_def utf8_char_def utf8_values_def)

lemma accepted_content_bounds_witness:
  "text_size (concat (map charged_texts sample_parts)) \<le> maximum_prompt_text_utf8_bytes \<and>
    list_all (\<lambda>t. \<not> forbidden_control t) (active_texts sample_parts)"
  by (rule accepted_content_bounds [OF sample_parts_ok])

section \<open>Lowering\<close>

fun forget_source :: "'i prompt_part \<Rightarrow> 'i prompt_part" where
  "forget_source (Annotation_Part a) = Annotation_Part (a\<lparr>ann_source := None\<rparr>)"
| "forget_source p = p"

lemma annotation_item_source [simp]: "annotation_item i (a\<lparr>ann_source := s\<rparr>) = annotation_item i a"
  by (simp add: annotation_item_def)

lemma provider_parts_forget: "provider_parts_from i (map forget_source ps) = provider_parts_from i ps"
proof (induction ps arbitrary: i)
  case (Cons p ps)
  then show ?case by (cases p) simp_all
qed simp

definition lowered_annotation :: "int \<Rightarrow> annotation \<Rightarrow> pystr" where
  "lowered_annotation i a =
     annotation_lead @ json_text True (JObj [(lit ''annotations'', JList [annotation_item i a])])"

fun lowered_parts :: "int \<Rightarrow> 'i prompt_part list \<Rightarrow> 'i prompt_part list" where
  "lowered_parts i [] = []"
| "lowered_parts i (Annotation_Part a # ps) = Text_Part (lowered_annotation (i + 1) a) # lowered_parts (i + 1) ps"
| "lowered_parts i (p # ps) = p # lowered_parts i ps"

lemma lead_scalar: "list_all is_scalar annotation_lead"
  by (simp add: annotation_lead_def is_scalar_def)

lemma provider_parts_lowered:
  assumes "\<forall>p \<in> set ps. part_init f p = Inr ()"
  shows "provider_parts_from i ps = Inr (lowered_parts i ps)"
  using assms
proof (induction ps arbitrary: i)
  case (Cons p ps)
  show ?case
  proof (cases p)
    case (Annotation_Part a)
    have q: "list_all is_scalar (ann_quote a)" "\<And>c. ann_comment a = Some c \<Longrightarrow> list_all is_scalar c"
      using Cons.prems by (auto simp: Annotation_Part annotation_init_def bind_result_Inr utf8_encode_def
          split: if_splits option.splits)
    define v where "v = JObj [(lit ''annotations'', JList [annotation_item (i + 1) a])]"
    have "json_finite v" "json_scalar v"
      unfolding v_def annotation_item_def using q by (auto simp: scalar_text_iff scalar_lit simp del: lit_Cons split: option.split)
    then have t: "canonical_text v = Inr (json_text True v)" "list_all is_scalar (json_text True v)"
      using scalar_json_text [of v True] by (auto simp: canonical_text_ok scalar_text_iff)
    have "text_part_init (annotation_lead @ json_text True v) = Inr ()"
      using t(2) lead_scalar by (simp add: text_part_init_def utf8_encode_def)
    with t(1) Cons show ?thesis by (simp add: Annotation_Part v_def lowered_annotation_def del: lit_Cons)
  qed (use Cons in simp_all)
qed simp

lemma lowered_parts_images: "filter is_image (lowered_parts i ps) = filter is_image ps"
  by (induction i ps rule: lowered_parts.induct) auto

lemma lowered_parts_shape: "length (lowered_parts i ps) = length ps \<and> \<not> has_annotation (lowered_parts i ps)"
  by (induction i ps rule: lowered_parts.induct) (auto simp: has_annotation_def)

text \<open>
  C20. The lowering of a content whose parts could be constructed succeeds, keeps texts and images in their
  places, turns every annotation into one text, and never shows where a quotation came from.
\<close>

theorem lowering_hides_sources:
  assumes "\<forall>p \<in> set ps. part_init f p = Inr ()"
  shows "\<exists>rs. prompt_provider_parts ps = Inr rs \<and> prompt_provider_parts (map forget_source ps) = Inr rs \<and>
    length rs = length ps \<and> \<not> has_annotation rs \<and> filter is_image rs = filter is_image ps \<and>
    (\<forall>i < length ps. \<not> is_annotation (ps ! i) \<longrightarrow> rs ! i = ps ! i)"
proof -
  have "\<not> is_annotation (ps ! k) \<longrightarrow> lowered_parts i ps ! k = ps ! k" if "k < length ps" for i k
    using that by (induction i ps arbitrary: k rule: lowered_parts.induct) (auto simp: nth_Cons split: nat.splits)
  then show ?thesis
    using provider_parts_lowered [OF assms, of 0] lowered_parts_shape [of 0 ps] lowered_parts_images [of 0 ps]
    by (auto simp: prompt_provider_parts_def provider_parts_forget)
qed

lemma sample_parts_init: "\<forall>p \<in> set sample_parts. part_init image_part_init p = Inr ()"
  using sample_annotation_ok [of image_part_init]
  by (auto simp: sample_parts_def text_part_init_def utf8_encode_def is_scalar_def)

lemma lowering_hides_sources_witness:
  "\<exists>rs. prompt_provider_parts sample_parts = Inr rs \<and>
    prompt_provider_parts (map forget_source sample_parts) = Inr rs \<and> length rs = length sample_parts \<and>
    \<not> has_annotation rs \<and> filter is_image rs = filter is_image sample_parts \<and>
    (\<forall>i < length sample_parts. \<not> is_annotation (sample_parts ! i) \<longrightarrow> rs ! i = sample_parts ! i)"
  by (rule lowering_hides_sources [OF sample_parts_init])

end
