(* ===== verification/Provider_Items.thy ===== *)
theory Provider_Items
  imports Prompt_Content Continuity_Values
begin

text \<open>
  The canonical input of a model call (\<open>model_input/contracts.py\<close>): items with their attribution, the
  typed carrier of a context snapshot, closures and late outcomes, the identity of a cut, and where the
  compiler has placed each message. \<open>item_print\<close> is \<open>provider_input_item_fingerprint\<close>: nothing here
  depends on which fingerprint an item has. The timing of a tool result is kept as its fingerprint.
\<close>

section \<open>Vocabulary\<close>

datatype input_origin =
    Origin_Human_Message | Origin_Scheduled_Task | Origin_Human_Steer | Origin_Agent_Instruction
  | Origin_Agent_Material | Origin_Agent_Message | Origin_Cell_Output | Origin_Plan_Continuation
  | Origin_User_Control_Feedback

fun origin_value :: "input_origin \<Rightarrow> string" where
  "origin_value Origin_Human_Message = ''HUMAN_MESSAGE''"
| "origin_value Origin_Scheduled_Task = ''SCHEDULED_TASK''"
| "origin_value Origin_Human_Steer = ''HUMAN_STEER''"
| "origin_value Origin_Agent_Instruction = ''AGENT_INSTRUCTION''"
| "origin_value Origin_Agent_Material = ''AGENT_MATERIAL''"
| "origin_value Origin_Agent_Message = ''AGENT_MESSAGE''"
| "origin_value Origin_Cell_Output = ''CELL_OUTPUT''"
| "origin_value Origin_Plan_Continuation = ''PLAN_CONTINUATION''"
| "origin_value Origin_User_Control_Feedback = ''USER_CONTROL_FEEDBACK''"

datatype item_kind =
    Kind_Context_Snapshot | Kind_User | Kind_Terminal_Observation | Kind_Assistant
  | Kind_Assistant_Tool_Request | Kind_Tool_Result | Kind_Tool_Result_Closure
  | Kind_Late_Tool_Outcome | Kind_Plan_Continuation

fun kind_value :: "item_kind \<Rightarrow> string" where
  "kind_value Kind_Context_Snapshot = ''CONTEXT_SNAPSHOT''"
| "kind_value Kind_User = ''USER''"
| "kind_value Kind_Terminal_Observation = ''TERMINAL_OBSERVATION''"
| "kind_value Kind_Assistant = ''ASSISTANT''"
| "kind_value Kind_Assistant_Tool_Request = ''ASSISTANT_TOOL_REQUEST''"
| "kind_value Kind_Tool_Result = ''TOOL_RESULT''"
| "kind_value Kind_Tool_Result_Closure = ''TOOL_RESULT_CLOSURE''"
| "kind_value Kind_Late_Tool_Outcome = ''LATE_TOOL_OUTCOME''"
| "kind_value Kind_Plan_Continuation = ''PLAN_CONTINUATION''"

datatype continuation_mode = Resume_Active_Turn | Await_Next_User

fun mode_text :: "continuation_mode \<Rightarrow> string" where
  "mode_text Resume_Active_Turn = ''RESUME_ACTIVE_TURN''"
| "mode_text Await_Next_User = ''AWAIT_NEXT_USER''"

datatype request_location = Snapshot_Exact | Canonical_Suffix

fun location_value :: "request_location \<Rightarrow> string" where
  "location_value Snapshot_Exact = ''SNAPSHOT_EXACT''"
| "location_value Canonical_Suffix = ''CANONICAL_SUFFIX''"

definition human_origins :: "input_origin option set" where
  "human_origins = {Some Origin_Human_Message, Some Origin_Human_Steer}"

definition image_origins :: "input_origin option set" where
  "image_origins =
     {Some Origin_Human_Message, Some Origin_Human_Steer, Some Origin_Agent_Instruction,
      Some Origin_Agent_Material, Some Origin_Agent_Message}"

datatype trigger_source = Timer_Trigger | Run_Once_Trigger

fun trigger_value :: "trigger_source \<Rightarrow> string" where
  "trigger_value Timer_Trigger = ''TIMER''"
| "trigger_value Run_Once_Trigger = ''RUN_ONCE''"

record scheduled_provenance =
  sch_task_id :: pystr
  sch_task_revision :: int
  sch_due_at_utc :: pystr
  sch_trigger_source :: trigger_source

definition scheduled_value :: "scheduled_provenance \<Rightarrow> json" where
  "scheduled_value s =
     JObj [(lit ''task_id'', JStr (sch_task_id s)), (lit ''task_revision'', JInt (sch_task_revision s)),
       (lit ''due_at_utc'', JStr (sch_due_at_utc s)),
       (lit ''trigger_source'', JStr (lit (trigger_value (sch_trigger_source s))))]"

record provider_tool_call =
  ptc_id :: pystr
  ptc_name :: pystr
  ptc_arguments :: json

definition is_object :: "json \<Rightarrow> bool" where
  "is_object v = (case v of JObj _ \<Rightarrow> True | _ \<Rightarrow> False)"

definition provider_tool_call_init :: "provider_tool_call \<Rightarrow> unit result" where
  "provider_tool_call_init c =
     first_error
       [(ptc_id c = [] \<or> ptc_name c = [], ValueError ''provider tool call identity is incomplete''),
        (\<not> is_object (ptc_arguments c), TypeError ''provider tool arguments must be frozen JSON'')]"

section \<open>Requests kept by a compaction\<close>

definition request_origins :: "item_kind \<Rightarrow> input_origin set option" where
  "request_origins k =
     (case k of
        Kind_User \<Rightarrow>
          Some {Origin_Human_Message, Origin_Scheduled_Task, Origin_Human_Steer, Origin_Agent_Instruction,
            Origin_Agent_Material, Origin_Agent_Message, Origin_User_Control_Feedback}
      | Kind_Plan_Continuation \<Rightarrow> Some {Origin_Plan_Continuation}
      | Kind_Terminal_Observation \<Rightarrow> Some {Origin_Cell_Output}
      | _ \<Rightarrow> None)"

definition validate_request_shape ::
  "item_kind \<Rightarrow> input_origin option \<Rightarrow> bool \<Rightarrow> bool \<Rightarrow> unit result" where
  "validate_request_shape kind origin active has_image =
     first_error
       [(case request_origins kind of None \<Rightarrow> True | Some allowed \<Rightarrow> origin \<notin> Some ` allowed,
         ValueError ''compaction request kind/origin union is invalid''),
        (active \<and> origin \<in> {Some Origin_Human_Steer, Some Origin_User_Control_Feedback,
            Some Origin_Agent_Material, Some Origin_Agent_Message},
         ValueError ''compaction active request origin is invalid''),
        (has_image \<and> \<not> (kind = Kind_User \<and> origin \<in> image_origins),
         ValueError ''compaction request origin cannot carry image content'')]"

record active_request =
  acr_entry_id :: pystr
  acr_entry_sequence :: int
  acr_location :: request_location
  acr_item_kind :: item_kind
  acr_input_origin :: "input_origin option"
  acr_content :: "frozen_part list option"
  acr_scheduled_input :: "scheduled_provenance option"

definition active_request_init :: "active_request \<Rightarrow> unit result" where
  "active_request_init a =
     bind_result
       (first_error
         [((acr_input_origin a = Some Origin_Scheduled_Task) \<noteq> (acr_scheduled_input a \<noteq> None),
           ValueError ''scheduled request provenance is incomplete''),
          (acr_entry_id a = [] \<or> acr_entry_sequence a < 0,
           ValueError ''compaction active request identity is incomplete''),
          ((acr_location a = Snapshot_Exact) \<noteq> (acr_content a \<noteq> None),
           ValueError ''compaction active request location/content union is invalid''),
          ((case acr_content a of None \<Rightarrow> False | Some ps \<Rightarrow> has_annotation ps) \<and>
             (acr_item_kind a \<noteq> Kind_User \<or> acr_input_origin a \<notin> human_origins),
           ValueError ''only human requests can contain annotations'')])
       (\<lambda>_. validate_request_shape (acr_item_kind a) (acr_input_origin a) True
              (case acr_content a of None \<Rightarrow> False | Some ps \<Rightarrow> content_has_image ps))"

record retained_request =
  rtr_item_kind :: item_kind
  rtr_input_origin :: "input_origin option"
  rtr_content :: "frozen_part list"
  rtr_scheduled_input :: "scheduled_provenance option"

definition retained_request_init :: "retained_request \<Rightarrow> unit result" where
  "retained_request_init r =
     bind_result
       (first_error
         [((rtr_input_origin r = Some Origin_Scheduled_Task) \<noteq> (rtr_scheduled_input r \<noteq> None),
           ValueError ''scheduled request provenance is incomplete''),
          (has_annotation (rtr_content r) \<and>
             (rtr_item_kind r \<noteq> Kind_User \<or> rtr_input_origin r \<notin> human_origins),
           ValueError ''only human requests can contain annotations'')])
       (\<lambda>_. validate_request_shape (rtr_item_kind r) (rtr_input_origin r) False
              (content_has_image (rtr_content r)))"

text \<open>What is written into the body of a snapshot.\<close>

definition json_option :: "('a \<Rightarrow> json) \<Rightarrow> 'a option \<Rightarrow> json" where
  "json_option f x = (case x of None \<Rightarrow> JNull | Some y \<Rightarrow> f y)"

definition request_fields ::
  "item_kind \<Rightarrow> input_origin option \<Rightarrow> scheduled_provenance option \<Rightarrow> (pystr \<times> json) list" where
  "request_fields kind origin scheduled =
     [(lit ''item_kind'', JStr (lit (kind_value kind))),
      (lit ''input_origin'', json_option (\<lambda>x. JStr (lit (origin_value x))) origin),
      (lit ''scheduled_input'', json_option scheduled_value scheduled)]"

definition active_value :: "(bytes \<Rightarrow> pystr) \<Rightarrow> active_request \<Rightarrow> json" where
  "active_value sha a =
     JObj ([(lit ''entry_id'', JStr (acr_entry_id a)), (lit ''entry_sequence'', JInt (acr_entry_sequence a)),
        (lit ''location'', JStr (lit (location_value (acr_location a))))] @
       request_fields (acr_item_kind a) (acr_input_origin a) (acr_scheduled_input a) @
       [(lit ''content'', json_option (prompt_canonical_value sha) (acr_content a))])"

definition retained_value :: "(bytes \<Rightarrow> pystr) \<Rightarrow> retained_request \<Rightarrow> json" where
  "retained_value sha r =
     JObj (request_fields (rtr_item_kind r) (rtr_input_origin r) (rtr_scheduled_input r) @
       [(lit ''content'', prompt_canonical_value sha (rtr_content r))])"

record snapshot_carrier =
  car_mode :: continuation_mode
  car_instruction :: pystr
  car_active :: "active_request option"
  car_summary :: pystr
  car_recent :: "retained_request list"
  car_body :: bytes
  car_digest :: pystr
  car_historical :: "retained_request list"

definition carrier_value ::
  "(bytes \<Rightarrow> pystr) \<Rightarrow> continuation_mode \<Rightarrow> pystr \<Rightarrow> active_request option \<Rightarrow> pystr \<Rightarrow>
   retained_request list \<Rightarrow> retained_request list \<Rightarrow> json" where
  "carrier_value sha mode instruction active summary recent historical =
     JObj [(lit ''continuation'',
         JObj [(lit ''mode'', JStr (lit (mode_text mode))), (lit ''instruction'', JStr instruction),
           (lit ''active_request'', json_option (active_value sha) active)]),
       (lit ''earlier_context_summary'', JStr summary),
       (lit ''recent_human_requests'', JList (map (retained_value sha) recent)),
       (lit ''retained_historical_requests'', JList (map (retained_value sha) historical))]"

definition carrier_init :: "(bytes \<Rightarrow> pystr) \<Rightarrow> snapshot_carrier \<Rightarrow> unit result" where
  "carrier_init sha c =
     bind_result
       (first_error
         [(\<exists>r \<in> set (car_recent c). rtr_item_kind r \<noteq> Kind_User \<or> rtr_input_origin r \<notin> human_origins,
           ValueError ''recent human requests must be a typed human tuple''),
          ((car_mode c = Resume_Active_Turn) \<noteq> (car_active c \<noteq> None),
           ValueError ''snapshot continuation/active-request union is invalid'')])
       (\<lambda>_. bind_result (utf8_encode (car_instruction c)) (\<lambda>_.
         if car_instruction c = [] then Inl (ValueError ''snapshot handoff instruction is empty'')
         else
           bind_result
             (canonical_json_bytes
               (carrier_value sha (car_mode c) (car_instruction c) (car_active c) (car_summary c)
                 (car_recent c) (car_historical c)))
             (\<lambda>expected.
               first_error
                 [(car_body c \<noteq> expected, ValueError ''snapshot carrier is not canonical JSON''),
                  (car_digest c \<noteq> lit ''sha256:'' @ sha (car_body c),
                   ValueError ''snapshot carrier digest mismatch'')])))"

definition carrier_contents :: "snapshot_carrier \<Rightarrow> frozen_part list list" where
  "carrier_contents c =
     (case car_active c of
        None \<Rightarrow> [] | Some a \<Rightarrow> (case acr_content a of None \<Rightarrow> [] | Some ps \<Rightarrow> [ps])) @
     map rtr_content (car_recent c) @ map rtr_content (car_historical c)"

definition carrier_expanded_bytes :: "snapshot_carrier \<Rightarrow> int" where
  "carrier_expanded_bytes c =
     int (length (car_body c)) +
     (\<Sum>i\<leftarrow>images_of (concat (carrier_contents c)). int (length (img_bytes i)))"

section \<open>Items\<close>

record tool_result_context =
  trc_session_id :: pystr
  trc_result_id :: pystr
  trc_result_entry_id :: pystr
  trc_result_state :: pystr
  trc_output_omitted :: bool
  trc_output_available :: bool
  trc_timing_fingerprint :: pystr
  trc_memory_ids :: "pystr list"
  trc_required_facts :: json

datatype delivery_reason = Result_Projection | Image_Attachment
datatype delivery_requirement = Best_Available | Full_Required delivery_reason

datatype closure_kind =
    Interrupted_Before_Dispatch | Interrupted_May_Have_Partially_Executed | Plan_Interaction_Aborted

fun closure_kind_value :: "closure_kind \<Rightarrow> string" where
  "closure_kind_value Interrupted_Before_Dispatch = ''interrupted_before_dispatch''"
| "closure_kind_value Interrupted_May_Have_Partially_Executed = ''interrupted_may_have_partially_executed''"
| "closure_kind_value Plan_Interaction_Aborted = ''plan_interaction_aborted''"

record tool_closure =
  clo_entry_id :: pystr
  clo_call_id :: pystr
  clo_kind :: closure_kind
  clo_target_sequence :: int

record late_outcome =
  lat_entry_id :: pystr
  lat_call_id :: pystr
  lat_result_entry_id :: pystr
  lat_result_sequence :: int
  lat_result_state :: pystr

datatype item_content = Parts "frozen_part list" | Carrier snapshot_carrier

record provider_item =
  itm_kind :: item_kind
  itm_entry_id :: "pystr option"
  itm_sequence :: "int option"
  itm_turn_id :: "pystr option"
  itm_content :: item_content
  itm_origin :: "input_origin option"
  itm_scheduled :: "scheduled_provenance option"
  itm_calls :: "provider_tool_call list"
  itm_call_id :: "pystr option"
  itm_request_entry_id :: "pystr option"
  itm_result_context :: "tool_result_context option"
  itm_result_body :: "pystr option"
  itm_delivery :: delivery_requirement
  itm_call_ordinal :: "int option"
  itm_call_arguments :: "json option"
  itm_call_name :: "pystr option"

definition item_parts :: "provider_item \<Rightarrow> frozen_part list" where
  "item_parts i = (case itm_content i of Parts ps \<Rightarrow> ps | Carrier _ \<Rightarrow> [])"

definition is_carrier :: "provider_item \<Rightarrow> bool" where
  "is_carrier i = (case itm_content i of Parts _ \<Rightarrow> False | Carrier _ \<Rightarrow> True)"

definition result_kinds :: "item_kind set" where
  "result_kinds = {Kind_Tool_Result, Kind_Late_Tool_Outcome}"

definition origin_kinds :: "item_kind set" where
  "origin_kinds = {Kind_User, Kind_Plan_Continuation, Kind_Terminal_Observation}"

definition item_checks :: "provider_item \<Rightarrow> (bool \<times> py_error) list" where
  "item_checks i =
     (let kind = itm_kind i; parts = item_parts i;
          snapshot = (kind = Kind_Context_Snapshot);
          result_kind = (kind \<in> result_kinds);
          call_result = (result_kind \<or> kind = Kind_Tool_Result_Closure) in
      [(snapshot \<and> \<not> is_carrier i, TypeError ''context snapshot content must be its typed carrier''),
       (\<not> snapshot \<and> (is_carrier i \<or> (has_annotation parts \<and> kind \<noteq> Kind_User)),
        TypeError ''provider input content must be typed immutable parts''),
       (result_kind \<noteq> (itm_result_context i \<noteq> None \<and> itm_result_body i \<noteq> None),
        ValueError ''tool result context union is invalid''),
       (\<not> result_kind \<and> itm_delivery i \<noteq> Best_Available,
        ValueError ''non-result item cannot require FULL delivery''),
       ((kind \<notin> {Kind_Context_Snapshot, Kind_Tool_Result_Closure}) \<noteq>
          (itm_entry_id i \<noteq> None \<and> itm_sequence i \<noteq> None \<and> itm_turn_id i \<noteq> None),
        ValueError ''provider input entry attribution union is invalid''),
       (kind = Kind_Terminal_Observation \<and> itm_origin i \<noteq> Some Origin_Cell_Output,
        ValueError ''Cell runtime input requires its real origin''),
       ((itm_origin i = Some Origin_Scheduled_Task) \<noteq> (itm_scheduled i \<noteq> None),
        ValueError ''scheduled origin/provenance union is invalid''),
       ((kind \<in> origin_kinds) \<noteq> (itm_origin i \<noteq> None),
        ValueError ''provider input origin union is invalid''),
       (\<not> snapshot \<and> has_annotation parts \<and> itm_origin i \<notin> human_origins,
        ValueError ''only human USER input can contain annotations''),
       (\<not> snapshot \<and> content_has_image parts \<and>
          \<not> ((kind = Kind_User \<and> itm_origin i \<in> image_origins) \<or> result_kind),
        ValueError ''provider input origin cannot carry image content''),
       ((case itm_sequence i of None \<Rightarrow> False | Some n \<Rightarrow> n < 0),
        ValueError ''provider input entry sequence is invalid''),
       (snapshot \<and> (itm_entry_id i \<noteq> None \<or> itm_turn_id i \<noteq> None \<or> itm_sequence i = None),
        ValueError ''context snapshot attribution is invalid''),
       ((kind = Kind_Assistant_Tool_Request) \<noteq> (itm_calls i \<noteq> []),
        ValueError ''assistant tool-call union is invalid''),
       (\<not> distinct (map ptc_id (itm_calls i)),
        ValueError ''provider tool-call identities are duplicated''),
       (call_result \<noteq> (itm_call_id i \<noteq> None),
        ValueError ''provider tool-result call identity union is invalid''),
       (call_result \<noteq> (itm_request_entry_id i \<noteq> None),
        ValueError ''provider tool-result request identity union is invalid''),
       ((case itm_call_ordinal i of None \<Rightarrow> False | Some n \<Rightarrow> n < 0),
        ValueError ''provider tool-result call ordinal is invalid''),
       ((case itm_call_arguments i of None \<Rightarrow> False | Some v \<Rightarrow> \<not> is_object v),
        TypeError ''provider tool-result arguments must be frozen''),
       (\<not> snapshot \<and> content_has_image parts \<and> result_kind \<and>
          (itm_call_ordinal i = None \<or> itm_call_arguments i = None \<or>
           itm_call_name i \<notin> {Some (lit ''view_image''), Some (lit ''read_video_frames'')}),
        ValueError ''image ToolResult lacks its frozen call source'')])"

definition item_init :: "(pystr \<Rightarrow> json result) \<Rightarrow> provider_item \<Rightarrow> unit result" where
  "item_init loads i =
     bind_result (first_error (item_checks i)) (\<lambda>_.
       if itm_kind i \<noteq> Kind_Tool_Result then Inr ()
       else
         bind_result
           (if content_has_image (item_parts i)
            then bind_result (frozen_content_init (item_parts i)) (\<lambda>_.
              tool_result_public_text loads (item_parts i) (itm_call_name i))
            else join_text_content [10] (item_parts i))
           (\<lambda>expected. if itm_result_body i \<noteq> Some expected
              then Inl (ValueError ''ordinary tool result body differs from its public projection'')
              else Inr ()))"

definition provider_item_text :: "provider_item \<Rightarrow> pystr result" where
  "provider_item_text i =
     (case itm_content i of
        Carrier _ \<Rightarrow> Inl (ValueError ''text-only consumer cannot consume a context snapshot'')
      | Parts ps \<Rightarrow> join_text_content [10] ps)"

section \<open>The cut\<close>

fun scope_value :: "scope_kind \<Rightarrow> string" where
  "scope_value Root_Scope = ''ROOT''"
| "scope_value Subagent_Scope = ''SUBAGENT''"

record canonical_identity =
  cni_session_id :: pystr
  cni_turn_id :: pystr
  cni_initial_entry_id :: pystr
  cni_binding_revision_id :: pystr
  cni_through_sequence :: int
  cni_scope_kind :: scope_kind
  cni_fingerprint :: pystr

definition canonical_identity_fingerprint :: "(bytes \<Rightarrow> pystr) \<Rightarrow> canonical_identity \<Rightarrow> pystr result" where
  "canonical_identity_fingerprint sha i =
     sha_text sha ''canonical-model-input-identity:v1''
       (JObj [(lit ''session_id'', JStr (cni_session_id i)), (lit ''turn_id'', JStr (cni_turn_id i)),
         (lit ''initial_entry_id'', JStr (cni_initial_entry_id i)),
         (lit ''context_binding_revision_id'', JStr (cni_binding_revision_id i)),
         (lit ''provider_input_through_sequence'', JInt (cni_through_sequence i)),
         (lit ''conversation_scope_kind'', JStr (lit (scope_value (cni_scope_kind i))))])"

definition canonical_identity_init :: "(bytes \<Rightarrow> pystr) \<Rightarrow> canonical_identity \<Rightarrow> unit result" where
  "canonical_identity_init sha i =
     (if cni_session_id i = [] \<or> cni_turn_id i = [] \<or> cni_initial_entry_id i = [] \<or>
         cni_binding_revision_id i = [] \<or> cni_through_sequence i < 0
      then Inl (ValueError ''canonical model input identity is incomplete'')
      else
        bind_result (canonical_identity_fingerprint sha i) (\<lambda>expected.
          if cni_fingerprint i \<noteq> expected
          then Inl (ValueError ''canonical model input identity fingerprint mismatch'') else Inr ()))"

definition closure_leaf :: "tool_closure \<Rightarrow> json" where
  "closure_leaf c =
     JList [JStr (clo_entry_id c), JStr (clo_call_id c), JStr (lit (closure_kind_value (clo_kind c))),
       JInt (clo_target_sequence c)]"

definition late_outcome_leaf :: "late_outcome \<Rightarrow> json" where
  "late_outcome_leaf l =
     JList [JStr (lat_entry_id l), JStr (lat_call_id l), JStr (lat_result_entry_id l),
       JInt (lat_result_sequence l), JStr (lat_result_state l)]"

record canonical_snapshot =
  cns_identity :: canonical_identity
  cns_items :: "provider_item list"
  cns_expanded_bytes :: int
  cns_fingerprint :: pystr
  cns_closures :: "tool_closure list"
  cns_late_outcomes :: "late_outcome list"

definition canonical_snapshot_fingerprint ::
  "(bytes \<Rightarrow> pystr) \<Rightarrow> (provider_item \<Rightarrow> pystr) \<Rightarrow> canonical_snapshot \<Rightarrow> pystr result" where
  "canonical_snapshot_fingerprint sha item_print s =
     sha_text sha ''canonical-model-input-snapshot:v2-expanded-content''
       (JObj [(lit ''identity'', JStr (cni_fingerprint (cns_identity s))),
         (lit ''items'', JList (map (JStr \<circ> item_print) (cns_items s))),
         (lit ''canonical_expanded_bytes'', JInt (cns_expanded_bytes s)),
         (lit ''closures'', JList (map closure_leaf (cns_closures s))),
         (lit ''late_outcomes'', JList (map late_outcome_leaf (cns_late_outcomes s)))])"

definition canonical_snapshot_init ::
  "(bytes \<Rightarrow> pystr) \<Rightarrow> (provider_item \<Rightarrow> pystr) \<Rightarrow> canonical_snapshot \<Rightarrow> unit result" where
  "canonical_snapshot_init sha item_print s =
     (if cns_expanded_bytes s < 0
      then Inl (ValueError ''canonical model input byte count is invalid'')
      else
        bind_result (canonical_snapshot_fingerprint sha item_print s) (\<lambda>expected.
          if cns_fingerprint s \<noteq> expected
          then Inl (ValueError ''canonical model input snapshot fingerprint mismatch'') else Inr ()))"

section \<open>Placements\<close>

record attachment_member =
  atm_call_ordinal :: int
  atm_source :: provider_item

definition attachment_member_init :: "attachment_member \<Rightarrow> unit result" where
  "attachment_member_init m =
     first_error
       [(atm_call_ordinal m < 0, ValueError ''tool attachment call ordinal is invalid''),
        (itm_kind (atm_source m) \<notin> result_kinds,
         ValueError ''tool attachment member is not a ToolResult source''),
        (itm_call_ordinal (atm_source m) \<noteq> Some (atm_call_ordinal m),
         ValueError ''tool attachment member ordinal drifted''),
        (is_carrier (atm_source m) \<or> \<not> content_has_image (item_parts (atm_source m)),
         ValueError ''tool attachment member has no image'')]"

record tool_attachment =
  att_entry_id :: pystr
  att_members :: "attachment_member list"

definition tool_attachment_init :: "tool_attachment \<Rightarrow> unit result" where
  "tool_attachment_init a =
     first_error
       [(att_entry_id a = [] \<or> att_members a = [], ValueError ''tool attachment source is incomplete''),
        (\<not> (sorted (map atm_call_ordinal (att_members a)) \<and> distinct (map atm_call_ordinal (att_members a))),
         ValueError ''tool attachment members are not strictly ordered''),
        (\<exists>m \<in> set (att_members a). itm_request_entry_id (atm_source m) \<noteq> Some (att_entry_id a),
         ValueError ''tool attachment members belong to another request'')]"

record message_placement =
  plc_ordinal :: int
  plc_entry_id :: "pystr option"
  plc_item_print :: "pystr option"
  plc_within_ordinal :: "int option"
  plc_role :: message_role
  plc_attachment :: "tool_attachment option"

definition placement_init :: "message_placement \<Rightarrow> unit result" where
  "placement_init p =
     (if plc_ordinal p < 0 then Inl (ValueError ''compiled message placement ordinal is invalid'')
      else if plc_attachment p \<noteq> None
      then first_error
        [(plc_entry_id p \<noteq> None \<or> plc_item_print p \<noteq> None \<or> plc_within_ordinal p \<noteq> None \<or> plc_role p \<noteq> Role_User,
          ValueError ''tool attachment placement source union is invalid'')]
      else first_error
        [((case plc_item_print p of None \<Rightarrow> True | Some f \<Rightarrow> \<not> has_sha_prefix f) \<or>
            (case plc_within_ordinal p of None \<Rightarrow> True | Some n \<Rightarrow> n < 0),
          ValueError ''compiled message origin fingerprint is invalid'')])"

text \<open>\<open>'v\<close> stands for tool specifications, decisions and diagnostics, which are only compared.\<close>

record 'v planning_projection =
  prj_identity :: canonical_identity
  prj_system_prompt :: pystr
  prj_messages :: "llm_message list"
  prj_placements :: "message_placement list"
  prj_tools :: "'v list"
  prj_diagnostic_codes :: "'v list"
  prj_source_collection_fingerprint :: pystr
  prj_binding_fingerprint :: pystr

definition maximum_diagnostics :: int where
  "maximum_diagnostics = 64"

definition planning_projection_init :: "'v planning_projection \<Rightarrow> unit result" where
  "planning_projection_init p =
     first_error
       [(length (prj_placements p) \<noteq> length (prj_messages p),
         ValueError ''semantic projection placements are not parallel''),
        (map plc_ordinal (prj_placements p) \<noteq> map int [0..<length (prj_messages p)],
         ValueError ''semantic projection placement order is invalid''),
        (map plc_role (prj_placements p) \<noteq> map msg_role (prj_messages p),
         ValueError ''semantic projection placement role drifted''),
        (int (length (prj_diagnostic_codes p)) > maximum_diagnostics \<or> \<not> distinct (prj_diagnostic_codes p),
         ValueError ''semantic projection diagnostics exceed their bounds''),
        (\<not> has_sha_prefix (prj_source_collection_fingerprint p) \<or> \<not> has_sha_prefix (prj_binding_fingerprint p),
         ValueError ''semantic projection fingerprint is invalid'')]"

end
