(* ===== verification/Compaction_Values.thy ===== *)
theory Compaction_Values
  imports Provider_Items
begin

text \<open>
  The values a compaction is planned from and the facts it produces
  (\<open>conversation_kernel/compaction/contracts.py\<close>). What the planner only compares or measures, the
  fingerprint and the size of an item, the fingerprint and the logical size of provider input, comes
  from \<open>compaction_codec\<close>; \<open>'v\<close> stands for tool specifications and for parts that are never read.
\<close>

record 'v compaction_codec =
  cpc_sha :: "bytes \<Rightarrow> pystr"
  cpc_item_print :: "provider_item \<Rightarrow> pystr"
  cpc_item_size :: "provider_item \<Rightarrow> int"
  cpc_prefix_print :: "pystr \<Rightarrow> 'v list \<Rightarrow> llm_message list \<Rightarrow> pystr"
  cpc_logical_bytes :: "pystr \<Rightarrow> 'v list \<Rightarrow> llm_message list \<Rightarrow> int"

section \<open>Policy\<close>

text \<open>
  A ratio of the policy is a finite float: its exact value as a fraction with a positive denominator,
  and \<open>int(n * ratio)\<close> as the interpreter computes it.
\<close>

record float_ratio =
  frt_num :: int
  frt_den :: int
  frt_scale :: "int \<Rightarrow> int"

definition ratio_less :: "float_ratio \<Rightarrow> float_ratio \<Rightarrow> bool" where
  "ratio_less a b \<longleftrightarrow> frt_num a * frt_den b < frt_num b * frt_den a"

record compaction_policy =
  cpl_enabled :: bool
  cpl_automatic_enabled :: bool
  cpl_manual_enabled :: bool
  cpl_auto_trigger :: float_ratio
  cpl_post_target :: float_ratio
  cpl_minimum_reclaim :: int
  cpl_retained_tool_groups :: int
  cpl_retained_tail_bytes :: int
  cpl_recent_messages :: int
  cpl_recent_text_bytes :: int
  cpl_planning_seconds :: float_ratio
  cpl_auto_failures :: int

definition policy_init :: "compaction_policy \<Rightarrow> unit result" where
  "policy_init p =
     first_error
       [(\<not> (0 < frt_num (cpl_auto_trigger p) \<and> frt_num (cpl_auto_trigger p) < frt_den (cpl_auto_trigger p)),
         ValueError ''compaction trigger ratio must be between zero and one''),
        (\<not> (0 < frt_num (cpl_post_target p) \<and> ratio_less (cpl_post_target p) (cpl_auto_trigger p)),
         ValueError ''compaction target must be below its trigger''),
        (cpl_minimum_reclaim p < 1, ValueError ''compaction minimum reclaim must be positive''),
        (cpl_retained_tool_groups p < 1, ValueError ''retained tool-group policy must be positive''),
        (cpl_recent_messages p < 1, ValueError ''recent human-message policy must be positive''),
        (cpl_retained_tail_bytes p < 1, ValueError ''retained-tail byte bound is invalid''),
        (frt_num (cpl_planning_seconds p) \<le> 0, ValueError ''compaction planning watchdog must be positive''),
        (cpl_auto_failures p \<noteq> 3, ValueError ''automatic compaction failure circuit must be exact three'')]"

section \<open>Scope, lineage and range\<close>

record compaction_scope =
  cps_session_id :: pystr
  cps_workspace_id :: pystr
  cps_turn_id :: pystr
  cps_kind :: scope_kind

definition compaction_scope_init :: "compaction_scope \<Rightarrow> unit result" where
  "compaction_scope_init s =
     first_error
       [(cps_session_id s = [] \<or> cps_workspace_id s = [] \<or> cps_turn_id s = [],
         ValueError ''compaction scope identity is incomplete'')]"

datatype lineage_kind = Full_History_Genesis | Current_Snapshot

record compaction_lineage =
  cln_kind :: lineage_kind
  cln_scope :: compaction_scope
  cln_binding_revision_id :: pystr
  cln_binding_ordinal :: int
  cln_genesis_marker :: int
  cln_floor :: int
  cln_snapshot_id :: "pystr option"
  cln_prior_digest :: "pystr option"
  cln_persisted_snapshot_id :: "pystr option"

definition lineage_init :: "compaction_lineage \<Rightarrow> unit result" where
  "lineage_init l =
     (let genesis = (cln_kind l = Full_History_Genesis) in
      first_error
        [(cln_binding_revision_id l = [] \<or> cln_binding_ordinal l < 0 \<or> cln_genesis_marker l < 0 \<or> cln_floor l < 0,
          ValueError ''compaction lineage base is incomplete''),
         (genesis \<noteq> (cln_snapshot_id l = None \<and> cln_prior_digest l = None),
          ValueError ''compaction lineage base union is invalid''),
         (genesis \<and> cln_floor l \<noteq> 0, ValueError ''FULL_HISTORY lineage must start at zero''),
         (\<not> genesis \<and> ((case cln_snapshot_id l of None \<Rightarrow> True | Some s \<Rightarrow> s = []) \<or>
             (case cln_prior_digest l of None \<Rightarrow> True | Some d \<Rightarrow> \<not> has_sha_prefix d)),
          ValueError ''snapshot lineage identity is invalid'')])"

record canonical_range =
  crg_scope :: compaction_scope
  crg_floor :: int
  crg_through :: int
  crg_items :: "provider_item list"
  crg_closures :: "tool_closure list"
  crg_late_outcomes :: "late_outcome list"
  crg_utf8_bytes :: int

definition canonical_range_init :: "canonical_range \<Rightarrow> unit result" where
  "canonical_range_init r =
     first_error
       [(crg_floor r < 0 \<or> crg_through r < crg_floor r \<or> crg_utf8_bytes r < 0,
         ValueError ''compaction canonical range coordinate is invalid''),
        (\<exists>i \<in> set (crg_items r). case itm_sequence i of None \<Rightarrow> True
           | Some n \<Rightarrow> \<not> (crg_floor r < n \<and> n \<le> crg_through r),
         ValueError ''compaction range contains an out-of-cut item'')]"

definition item_within :: "int \<Rightarrow> int \<Rightarrow> provider_item \<Rightarrow> bool" where
  "item_within lo hi i = (case itm_sequence i of None \<Rightarrow> False | Some n \<Rightarrow> lo < n \<and> n \<le> hi)"

definition freeze_canonical_range ::
  "'v compaction_codec \<Rightarrow> compaction_scope \<Rightarrow> int \<Rightarrow> int \<Rightarrow> provider_item list \<Rightarrow> tool_closure list \<Rightarrow>
   late_outcome list \<Rightarrow> canonical_range result" where
  "freeze_canonical_range c scope lo through items closures late =
     (let selected = filter (item_within lo through) items;
          r = \<lparr>crg_scope = scope, crg_floor = lo, crg_through = through, crg_items = selected,
               crg_closures = filter (\<lambda>d. clo_target_sequence d \<le> through \<and>
                  (\<exists>i \<in> set selected. itm_kind i = Kind_Assistant_Tool_Request \<and>
                     itm_entry_id i = Some (clo_entry_id d))) closures,
               crg_late_outcomes = filter (\<lambda>l. lo < lat_result_sequence l \<and> lat_result_sequence l \<le> through) late,
               crg_utf8_bytes = (\<Sum>i\<leftarrow>selected. cpc_item_size c i)\<rparr> in
      map_sum id (\<lambda>_. r) (canonical_range_init r))"

datatype read_status = Turn_Running | Turn_Completed | Turn_Interrupted

record interruption_notice =
  itn_imported :: bool
  itn_owner_id :: pystr
  itn_after_sequence :: int

record 'v dispatch_cut =
  dpc_input :: canonical_snapshot
  dpc_fingerprint :: pystr
  dpc_rest :: 'v

record 'v compaction_read =
  crd_scope :: compaction_scope
  crd_status :: read_status
  crd_dispatch :: "'v dispatch_cut"
  crd_lineage :: compaction_lineage
  crd_range :: canonical_range
  crd_source_interruption :: "interruption_notice option"
  crd_imported_interruptions :: "interruption_notice list"
  crd_executed_interruptions :: "interruption_notice list"
  crd_consumed_through :: "int option"

definition read_input :: "'v compaction_read \<Rightarrow> canonical_snapshot" where
  "read_input r = dpc_input (crd_dispatch r)"

text \<open>\<open>_canonical_snapshot_carrier(items)\<close>\<close>

definition snapshot_carrier_of :: "provider_item list \<Rightarrow> snapshot_carrier option result" where
  "snapshot_carrier_of items =
     (case map itm_content (filter (\<lambda>i. itm_kind i = Kind_Context_Snapshot) items) of
        [] \<Rightarrow> Inr None
      | [Carrier c] \<Rightarrow> Inr (Some c)
      | [Parts _] \<Rightarrow> Inl (TypeError ''canonical snapshot item lacks its typed carrier'')
      | _ \<Rightarrow> Inl (ValueError ''canonical input contains multiple context snapshots''))"

definition notice_within :: "canonical_range \<Rightarrow> interruption_notice \<Rightarrow> bool" where
  "notice_within r n \<longleftrightarrow> crg_floor r < itn_after_sequence n \<and> itn_after_sequence n \<le> crg_through r"

definition compaction_read_init :: "'v compaction_read \<Rightarrow> unit result" where
  "compaction_read_init r =
     (let scope = crd_scope r; range = crd_range r; identity = cns_identity (read_input r) in
      bind_result
        (first_error
          [(case crd_source_interruption r of None \<Rightarrow> False
              | Some n \<Rightarrow> itn_imported n \<or> itn_owner_id n \<noteq> cps_turn_id scope \<or> crd_status r \<noteq> Turn_Interrupted,
            ValueError ''compaction source interruption does not exact-join''),
           (\<exists>n \<in> set (crd_imported_interruptions r). \<not> itn_imported n \<or> \<not> notice_within range n,
            ValueError ''compaction imported interruption lies outside source range''),
           (\<exists>n \<in> set (crd_executed_interruptions r). itn_imported n \<or> itn_owner_id n = cps_turn_id scope \<or>
              \<not> notice_within range n,
            ValueError ''compaction executed history interruption is out of cut''),
           (case crd_consumed_through r of None \<Rightarrow> False
              | Some k \<Rightarrow> \<not> (0 \<le> k \<and> k \<le> cni_through_sequence identity),
            ValueError ''accepted assistant input cut is outside the compaction read''),
           (cni_session_id identity \<noteq> cps_session_id scope \<or> cni_turn_id identity \<noteq> cps_turn_id scope \<or>
              cni_scope_kind identity \<noteq> cps_kind scope \<or> cln_scope (crd_lineage r) \<noteq> scope \<or>
              crg_scope range \<noteq> scope \<or> crg_through range \<noteq> cni_through_sequence identity \<or>
              crg_floor range \<noteq> cln_floor (crd_lineage r),
            ValueError ''compaction canonical read does not exact-join'')])
        (\<lambda>_. bind_result (snapshot_carrier_of (cns_items (read_input r))) (\<lambda>carrier.
           if (cln_kind (crd_lineage r) = Current_Snapshot) \<noteq> (carrier \<noteq> None)
           then Inl (ValueError ''compaction canonical read does not exact-join'') else Inr ())))"

text \<open>What the reader charges for an item that is already in memory.\<close>

fun charge_text :: "int \<Rightarrow> frozen_part \<Rightarrow> int result" where
  "charge_text n (Text_Part t) = map_sum id (\<lambda>k. n + k) (utf8_size t)"
| "charge_text n _ = Inl (ValueError ''non-prompt canonical item contains image content'')"

definition item_expanded_bytes :: "(bytes \<Rightarrow> pystr) \<Rightarrow> provider_item \<Rightarrow> int result" where
  "item_expanded_bytes sha i =
     (let parts = item_parts i in
      if itm_kind i = Kind_Context_Snapshot
      then Inl (ValueError ''snapshot C charge belongs to its typed carrier'')
      else if (itm_kind i = Kind_User \<and>
          itm_origin i \<in> insert (Some Origin_Scheduled_Task) image_origins) \<or>
        (itm_kind i \<in> result_kinds \<and> content_has_image parts)
      then
        bind_result (frozen_content_init parts) (\<lambda>_.
        bind_result (canonical_json_bytes (prompt_canonical_value sha parts)) (\<lambda>body.
          Inr (int (length body) + (\<Sum>p\<leftarrow>images_of parts. int (length (img_bytes p))))))
      else if \<exists>p \<in> set parts. is_image p \<or> is_annotation p
      then Inl (ValueError ''non-prompt canonical item contains image content'')
      else
        bind_result (for_each charge_text 0 parts) (\<lambda>n.
          for_each (\<lambda>m call. map_sum id (\<lambda>bs. m + int (length bs)) (canonical_json_bytes (ptc_arguments call)))
            n (itm_calls i)))"

section \<open>The source view\<close>

datatype source_compatibility = Empty_Cold | Compatible_Append

text \<open>The provider projection of a source: what is appended to the installed prefix, or everything.\<close>

datatype provider_projection =
    Append_Projection "llm_message list" int
  | Cold_Projection pystr "llm_message list" int

fun provider_projection_init :: "provider_projection \<Rightarrow> unit result" where
  "provider_projection_init (Append_Projection ms n) =
     first_error [(n < 0, ValueError ''compatible compaction projection is invalid'')]"
| "provider_projection_init (Cold_Projection prompt ms n) =
     first_error [(prompt = [] \<or> n < 0, ValueError ''cold compaction projection is invalid'')]"

record working_set =
  wks_item_count :: int
  wks_expanded_bytes :: int
  wks_epoch_bytes :: int

definition working_set_init :: "working_set \<Rightarrow> unit result" where
  "working_set_init w =
     first_error
       [(min (wks_item_count w) (min (wks_expanded_bytes w) (wks_epoch_bytes w)) < 0,
         ValueError ''compaction working-set report is invalid'')]"

record 'v planning_binding =
  plb_scope_kind :: scope_kind
  plb_tools :: "'v list"
  plb_fingerprint :: pystr
  plb_estimator_fingerprint :: pystr
  plb_input_budget :: int

record planning_quote =
  plq_wire_api :: pystr
  plq_estimator_fingerprint :: pystr
  plq_input_budget :: int
  plq_budget_tokens :: int

record 'v predecessor_view =
  prv_system_prompt :: pystr
  prv_tools :: "'v list"
  prv_messages :: "llm_message list"
  prv_prefix_fingerprint :: pystr

record 'v source_view =
  svw_compatibility :: source_compatibility
  svw_dispatch :: "'v dispatch_cut"
  svw_binding :: "'v planning_binding"
  svw_predecessor :: "'v predecessor_view option"
  svw_projection :: provider_projection
  svw_quote :: planning_quote
  svw_working_set :: working_set
  svw_fingerprint :: pystr
  svw_consumed_through :: "int option"

definition view_input :: "'v source_view \<Rightarrow> canonical_snapshot" where
  "view_input v = dpc_input (svw_dispatch v)"

definition projection_digest ::
  "'v compaction_codec \<Rightarrow> provider_projection \<Rightarrow> 'v planning_binding \<Rightarrow> 'v predecessor_view option \<Rightarrow> pystr result" where
  "projection_digest c p b pre =
     (case p of
        Append_Projection ms n \<Rightarrow>
          sha_text (cpc_sha c) ''pulsara.compatible-append-compaction-projection.v1''
            (JObj [(lit ''predecessor'', json_option (JStr \<circ> prv_prefix_fingerprint) pre),
              (lit ''append'', JStr (cpc_prefix_print c [] [] ms)), (lit ''logical_bytes'', JInt n)])
      | Cold_Projection prompt ms n \<Rightarrow>
          sha_text (cpc_sha c) ''pulsara.cold-rebuild-compaction-projection.v1''
            (JObj [(lit ''system'', JStr prompt),
              (lit ''input'', JStr (cpc_prefix_print c prompt (plb_tools b) ms)), (lit ''logical_bytes'', JInt n)]))"

definition working_set_digest :: "'v compaction_codec \<Rightarrow> working_set \<Rightarrow> pystr result" where
  "working_set_digest c w =
     sha_text (cpc_sha c) ''pulsara.compaction-working-set-report.v2-expanded-content''
       (JObj [(lit ''items'', JInt (wks_item_count w)),
         (lit ''canonical_expanded_bytes'', JInt (wks_expanded_bytes w)), (lit ''epoch_bytes'', JInt (wks_epoch_bytes w))])"

fun compatibility_value :: "source_compatibility \<Rightarrow> string" where
  "compatibility_value Empty_Cold = ''EMPTY_COLD''"
| "compatibility_value Compatible_Append = ''COMPATIBLE_APPEND''"

definition source_view_digest :: "'v compaction_codec \<Rightarrow> 'v source_view \<Rightarrow> pystr result" where
  "source_view_digest c v =
     bind_result (projection_digest c (svw_projection v) (svw_binding v) (svw_predecessor v)) (\<lambda>p.
     bind_result (working_set_digest c (svw_working_set v)) (\<lambda>w.
       sha_text (cpc_sha c) ''pulsara.frozen-compaction-source-view.v1''
         (JObj [(lit ''compatibility'', JStr (lit (compatibility_value (svw_compatibility v)))),
           (lit ''dispatch_read'', JStr (dpc_fingerprint (svw_dispatch v))),
           (lit ''compile_binding'', JStr (plb_fingerprint (svw_binding v))),
           (lit ''predecessor'', json_option (JStr \<circ> prv_prefix_fingerprint) (svw_predecessor v)),
           (lit ''projection'', JStr p), (lit ''working_set'', JStr w)])))"

definition is_append :: "provider_projection \<Rightarrow> bool" where
  "is_append p = (case p of Append_Projection _ _ \<Rightarrow> True | Cold_Projection _ _ _ \<Rightarrow> False)"

definition source_view_init :: "'v compaction_codec \<Rightarrow> 'v source_view \<Rightarrow> unit result" where
  "source_view_init c v =
     (let compatible = (svw_compatibility v = Compatible_Append) in
      bind_result
        (first_error
          [(compatible \<noteq> is_append (svw_projection v),
            ValueError ''compaction source compatibility/projection drifted''),
           (compatible \<and> svw_predecessor v = None,
            ValueError ''compatible compaction view lacks its predecessor''),
           (svw_compatibility v = Empty_Cold \<and> svw_predecessor v \<noteq> None,
            ValueError ''empty-cold compaction view has a predecessor''),
           (cni_scope_kind (cns_identity (view_input v)) \<noteq> plb_scope_kind (svw_binding v),
            ValueError ''compaction source tool surface belongs to another scope''),
           (plq_estimator_fingerprint (svw_quote v) \<noteq> plb_estimator_fingerprint (svw_binding v) \<or>
              plq_input_budget (svw_quote v) \<noteq> plb_input_budget (svw_binding v),
            ValueError ''compaction source wire quote does not exact-join'')])
        (\<lambda>_. bind_result (source_view_digest c v) (\<lambda>expected.
           if svw_fingerprint v \<noteq> expected
           then Inl (ValueError ''compaction source view fingerprint mismatch'') else Inr ())))"

text \<open>The asserted predecessor of an append projection is always there: \<open>source_view_init\<close> checks it.\<close>

definition materialized_system_prompt :: "'v source_view \<Rightarrow> pystr" where
  "materialized_system_prompt v =
     (case svw_projection v of
        Append_Projection _ _ \<Rightarrow> prv_system_prompt (the (svw_predecessor v))
      | Cold_Projection prompt _ _ \<Rightarrow> prompt)"

definition materialized_messages :: "'v source_view \<Rightarrow> llm_message list" where
  "materialized_messages v =
     (case svw_projection v of
        Append_Projection ms _ \<Rightarrow> prv_messages (the (svw_predecessor v)) @ ms
      | Cold_Projection _ ms _ \<Rightarrow> ms)"

definition safe_canonical_head :: "'v source_view \<Rightarrow> int" where
  "safe_canonical_head v = cni_through_sequence (cns_identity (view_input v))"

section \<open>Facts of a plan\<close>

record complete_tool_group =
  grp_entry_id :: pystr
  grp_entry_sequence :: int
  grp_call_ids :: "pystr list"
  grp_leaves :: "pystr list"

definition tool_group_init :: "complete_tool_group \<Rightarrow> unit result" where
  "tool_group_init g =
     first_error
       [(grp_entry_id g = [] \<or> grp_entry_sequence g < 1 \<or> grp_call_ids g = [] \<or>
          \<not> distinct (grp_call_ids g) \<or> length (grp_call_ids g) \<noteq> length (grp_leaves g),
         ValueError ''complete tool group is invalid'')]"

definition tool_group_fingerprint :: "(bytes \<Rightarrow> pystr) \<Rightarrow> complete_tool_group \<Rightarrow> pystr result" where
  "tool_group_fingerprint sha g =
     sha_text sha ''pulsara.complete-tool-group.v1''
       (JObj [(lit ''assistant_entry_id'', JStr (grp_entry_id g)),
         (lit ''assistant_entry_sequence'', JInt (grp_entry_sequence g)),
         (lit ''tool_call_ids'', JList (map JStr (grp_call_ids g))),
         (lit ''results'', JList (map JStr (grp_leaves g)))])"

record protected_tail =
  ptl_view_fingerprint :: pystr
  ptl_groups :: "complete_tool_group list"
  ptl_earliest_entry_id :: "pystr option"
  ptl_through :: int
  ptl_start_index :: int
  ptl_fingerprint :: pystr

definition protected_tail_digest :: "(bytes \<Rightarrow> pystr) \<Rightarrow> protected_tail \<Rightarrow> pystr result" where
  "protected_tail_digest sha t =
     bind_result (map_result (tool_group_fingerprint sha) (ptl_groups t)) (\<lambda>groups.
       sha_text sha ''pulsara.protected-tail-selection.v1''
         (JObj [(lit ''source_view'', JStr (ptl_view_fingerprint t)), (lit ''groups'', JList (map JStr groups)),
           (lit ''earliest'', json_option JStr (ptl_earliest_entry_id t)),
           (lit ''source_through_sequence'', JInt (ptl_through t)), (lit ''start'', JInt (ptl_start_index t))]))"

definition protected_tail_init :: "(bytes \<Rightarrow> pystr) \<Rightarrow> protected_tail \<Rightarrow> unit result" where
  "protected_tail_init sha t =
     bind_result
       (first_error
         [(\<not> has_sha_prefix (ptl_view_fingerprint t) \<or> ptl_through t < 0 \<or> ptl_start_index t < 0 \<or>
            (ptl_groups t = []) \<noteq> (ptl_earliest_entry_id t = None),
           ValueError ''protected tail selection is invalid''),
          (ptl_groups t \<noteq> [] \<and> ptl_earliest_entry_id t \<noteq> Some (grp_entry_id (hd (ptl_groups t))),
           ValueError ''protected tail earliest group differs'')])
       (\<lambda>_. bind_result (protected_tail_digest sha t) (\<lambda>expected.
          if ptl_fingerprint t \<noteq> expected
          then Inl (ValueError ''protected tail selection fingerprint mismatch'') else Inr ()))"

record prefix_cut_proof =
  pcp_view_fingerprint :: pystr
  pcp_message_count :: int
  pcp_messages_fingerprint :: pystr
  pcp_through :: int
  pcp_tail_fingerprint :: pystr
  pcp_fingerprint :: pystr

definition prefix_proof_digest :: "(bytes \<Rightarrow> pystr) \<Rightarrow> prefix_cut_proof \<Rightarrow> pystr result" where
  "prefix_proof_digest sha p =
     sha_text sha ''pulsara.provider-prefix-cut-proof.v1''
       (JObj [(lit ''source_view'', JStr (pcp_view_fingerprint p)), (lit ''message_count'', JInt (pcp_message_count p)),
         (lit ''messages'', JStr (pcp_messages_fingerprint p)), (lit ''through'', JInt (pcp_through p)),
         (lit ''tail'', JStr (pcp_tail_fingerprint p))])"

definition prefix_proof_init :: "(bytes \<Rightarrow> pystr) \<Rightarrow> prefix_cut_proof \<Rightarrow> unit result" where
  "prefix_proof_init sha p =
     bind_result
       (first_error
         [(pcp_message_count p < 1 \<or> pcp_through p < 0 \<or> \<not> has_sha_prefix (pcp_view_fingerprint p) \<or>
            \<not> has_sha_prefix (pcp_messages_fingerprint p) \<or> \<not> has_sha_prefix (pcp_tail_fingerprint p),
           ValueError ''provider prefix cut proof is incomplete'')])
       (\<lambda>_. bind_result (prefix_proof_digest sha p) (\<lambda>expected.
          if pcp_fingerprint p \<noteq> expected
          then Inl (ValueError ''provider prefix proof fingerprint mismatch'') else Inr ()))"

definition message_prefix_fingerprint :: "'v compaction_codec \<Rightarrow> llm_message list \<Rightarrow> pystr result" where
  "message_prefix_fingerprint c ms =
     sha_text (cpc_sha c) ''pulsara.compaction-summary-semantic-prefix.v1''
       (JObj [(lit ''count'', JInt (int (length ms))), (lit ''semantic'', JStr (cpc_prefix_print c [] [] ms))])"

record recent_message =
  rcm_entry_id :: pystr
  rcm_entry_sequence :: int
  rcm_origin :: "input_origin option"
  rcm_content :: "frozen_part list"

definition recent_message_init :: "recent_message \<Rightarrow> unit result" where
  "recent_message_init r =
     first_error
       [(rcm_entry_id r = [] \<or> rcm_entry_sequence r < 0,
         ValueError ''recent human request identity is invalid''),
        (rcm_origin r \<notin> human_origins, ValueError ''recent request origin is not human'')]"

end
