(* ===== verification/Compaction_Plan.thy ===== *)
theory Compaction_Plan
  imports Compaction_Values
begin

text \<open>
  The planner of a context compaction (\<open>conversation_kernel/compaction/planner.py\<close>): which prefix of
  the provider input may be summarised, which tool batches stay, which recent requests are quoted, how
  the turn continues, and whether the result reclaims enough. All of it computes on one frozen cut.
\<close>

section \<open>Tool groups\<close>

type_synonym call_key = "pystr option \<times> pystr option"

definition is_outcome :: "provider_item \<Rightarrow> bool" where
  "is_outcome i \<longleftrightarrow> itm_kind i \<in> result_kinds \<and> itm_call_id i \<noteq> None \<and> itm_request_entry_id i \<noteq> None"

definition outcome_key :: "provider_item \<Rightarrow> call_key" where
  "outcome_key i = (itm_request_entry_id i, itm_call_id i)"

definition tool_results :: "(provider_item \<Rightarrow> pystr) \<Rightarrow> provider_item list \<Rightarrow> (call_key \<times> pystr) list result" where
  "tool_results item_print items =
     for_each (\<lambda>d i.
       if \<not> is_outcome i then Inr d
       else if map_of d (outcome_key i) \<noteq> None
       then Inl (CompactionPlanningError ''tool result attribution is duplicated'')
       else Inr (AList.update (outcome_key i) (item_print i) d)) [] items"

definition closure_print :: "(bytes \<Rightarrow> pystr) \<Rightarrow> tool_closure \<Rightarrow> pystr result" where
  "closure_print sha c = sha_text sha ''pulsara.complete-tool-group-closure.v1'' (closure_leaf c)"

definition closure_prints :: "(bytes \<Rightarrow> pystr) \<Rightarrow> tool_closure list \<Rightarrow> (call_key \<times> pystr) list result" where
  "closure_prints sha closures =
     for_each (\<lambda>d c. map_sum id (\<lambda>f. AList.update (Some (clo_entry_id c), Some (clo_call_id c)) f d)
       (closure_print sha c)) [] closures"

text \<open>\<open>results.get(key) or closures.get(key) or ""\<close>\<close>

definition leaf_of :: "(call_key \<times> pystr) list \<Rightarrow> (call_key \<times> pystr) list \<Rightarrow> call_key \<Rightarrow> pystr" where
  "leaf_of results closures k =
     (case map_of results k of
        Some (c # cs) \<Rightarrow> c # cs
      | _ \<Rightarrow> (case map_of closures k of Some t \<Rightarrow> t | None \<Rightarrow> []))"

definition tool_group_step ::
  "(call_key \<times> pystr) list \<Rightarrow> (call_key \<times> pystr) list \<Rightarrow> complete_tool_group list \<Rightarrow> provider_item \<Rightarrow>
   complete_tool_group list result" where
  "tool_group_step results closures groups i =
     (if itm_kind i \<noteq> Kind_Assistant_Tool_Request then Inr groups
      else
        (case (itm_entry_id i, itm_sequence i) of
           (Some e, Some n) \<Rightarrow>
             (let ids = map ptc_id (itm_calls i);
                  leaves = map (\<lambda>c. leaf_of results closures (Some e, Some c)) ids;
                  g = \<lparr>grp_entry_id = e, grp_entry_sequence = n, grp_call_ids = ids, grp_leaves = leaves\<rparr> in
              if list_all (\<lambda>l. l \<noteq> []) leaves
              then map_sum id (\<lambda>_. groups @ [g]) (tool_group_init g)
              else Inr groups)
         | _ \<Rightarrow> Inl AssertionError))"

definition enumerate_tool_groups :: "'v compaction_codec \<Rightarrow> canonical_snapshot \<Rightarrow> complete_tool_group list result" where
  "enumerate_tool_groups c s =
     bind_result (closure_prints (cpc_sha c) (cns_closures s)) (\<lambda>closures.
     bind_result (tool_results (cpc_item_print c) (cns_items s)) (\<lambda>results.
       for_each (tool_group_step results closures) [] (cns_items s)))"

section \<open>Pending image evidence\<close>

definition imported_turn :: "pystr option \<Rightarrow> bool" where
  "imported_turn t = (case t of None \<Rightarrow> False | Some x \<Rightarrow> id_of_kind x (lit ''history''))"

definition unconsumed :: "int option \<Rightarrow> int option \<Rightarrow> bool" where
  "unconsumed consumed sequence =
     (case sequence of None \<Rightarrow> False
      | Some n \<Rightarrow> (case consumed of None \<Rightarrow> True | Some k \<Rightarrow> n > k))"

definition pending_image :: "item_kind \<Rightarrow> int option \<Rightarrow> provider_item \<Rightarrow> bool" where
  "pending_image kind consumed i \<longleftrightarrow>
     itm_kind i = kind \<and> \<not> imported_turn (itm_turn_id i) \<and> unconsumed consumed (itm_sequence i) \<and>
     content_has_image (item_parts i)"

definition pending_requests :: "canonical_snapshot \<Rightarrow> int option \<Rightarrow> pystr option list" where
  "pending_requests s consumed =
     map itm_request_entry_id (filter (pending_image Kind_Tool_Result consumed) (cns_items s))"

text \<open>The dictionary from the identities of the pending requests to their sequences.\<close>

definition request_sequences :: "provider_item list \<Rightarrow> pystr option list \<Rightarrow> (pystr option \<times> int) list" where
  "request_sequences items pending =
     fold (\<lambda>i d. case itm_sequence i of
         Some n \<Rightarrow> if itm_kind i = Kind_Assistant_Tool_Request \<and> itm_entry_id i \<in> set pending
                   then AList.update (itm_entry_id i) n d else d
       | None \<Rightarrow> d) items []"

definition pending_group_start :: "canonical_snapshot \<Rightarrow> int option \<Rightarrow> int option result" where
  "pending_group_start s consumed =
     (let pending = pending_requests s consumed; requests = request_sequences (cns_items s) pending in
      if pending = [] then Inr None
      else if set (map fst requests) \<noteq> set pending
      then Inl (CompactionPlanningError ''pending image evidence lacks its whole assistant tool batch'')
      else Inr (Some (Min (set (map snd requests)))))"

definition late_sequences :: "canonical_snapshot \<Rightarrow> int option \<Rightarrow> int list" where
  "late_sequences s consumed =
     map (\<lambda>i. the (itm_sequence i)) (filter (pending_image Kind_Late_Tool_Outcome consumed) (cns_items s))"

definition pending_evidence_start :: "canonical_snapshot \<Rightarrow> int option \<Rightarrow> int option result" where
  "pending_evidence_start s consumed =
     map_sum id
       (\<lambda>ordinary.
          let late = late_sequences s consumed;
              values = (case ordinary of None \<Rightarrow> [] | Some n \<Rightarrow> [n]) @
                (if late = [] then [] else [Min (set late)]) in
          if values = [] then None else Some (Min (set values)))
       (pending_group_start s consumed)"

fun groups_from :: "int \<Rightarrow> complete_tool_group list \<Rightarrow> int option" where
  "groups_from first [] = None"
| "groups_from first (g # gs) =
     (if grp_entry_sequence g = first then Some (int (length (g # gs))) else groups_from first gs)"

definition minimum_pending_groups :: "'v source_view \<Rightarrow> complete_tool_group list \<Rightarrow> int result" where
  "minimum_pending_groups v groups =
     bind_result (pending_group_start (view_input v) (svw_consumed_through v)) (\<lambda>first.
       case first of
         None \<Rightarrow> Inr 0
       | Some n \<Rightarrow>
           (case groups_from n groups of
              Some k \<Rightarrow> Inr k
            | None \<Rightarrow> Inl (CompactionPlanningError ''pending image tool batch is not complete'')))"

section \<open>The retained tail\<close>

definition matching_messages :: "llm_message list \<Rightarrow> pystr list \<Rightarrow> nat list" where
  "matching_messages ms ids = filter (\<lambda>k. map ltc_id (msg_tool_calls (ms ! k)) = ids) [0..<length ms]"

record tail_coordinates =
  tlc_retained :: "complete_tool_group list"
  tlc_earliest :: "pystr option"
  tlc_start :: nat
  tlc_boundary :: int

definition retained_tail :: "'v source_view \<Rightarrow> complete_tool_group list \<Rightarrow> int \<Rightarrow> tail_coordinates result" where
  "retained_tail v groups count =
     (if \<not> (0 \<le> count \<and> count \<le> int (length groups))
      then Inl (ValueError ''retained compaction group count is out of bounds'')
      else
        bind_result (minimum_pending_groups v groups) (\<lambda>least.
          let kept = drop (length groups - nat (max count least)) groups;
              ms = materialized_messages v in
          case kept of
            [] \<Rightarrow> Inr \<lparr>tlc_retained = [], tlc_earliest = None, tlc_start = length ms,
                   tlc_boundary = safe_canonical_head v\<rparr>
          | g # gs \<Rightarrow>
              (case matching_messages ms (grp_call_ids g) of
                 [k] \<Rightarrow> Inr \<lparr>tlc_retained = g # gs, tlc_earliest = Some (grp_entry_id g), tlc_start = k,
                   tlc_boundary = grp_entry_sequence g - 1\<rparr>
               | _ \<Rightarrow> Inl (CompactionPlanningError ''retained assistant request has no unique message placement''))))"

section \<open>Safe summary boundaries\<close>

text \<open>
  The canonical sequences a placed message stands for: the results of an attachment, the snapshot, or
  the entry the message was compiled from; a context message stands for none.
\<close>

definition entry_sequences :: "provider_item list \<Rightarrow> (pystr \<times> int) list" where
  "entry_sequences items =
     fold (\<lambda>i d. case (itm_entry_id i, itm_sequence i) of
         (Some e, Some n) \<Rightarrow> AList.update e n d | _ \<Rightarrow> d) items []"

definition snapshot_sequences :: "(provider_item \<Rightarrow> pystr) \<Rightarrow> provider_item list \<Rightarrow> (pystr \<times> int option) list" where
  "snapshot_sequences item_print items =
     fold (\<lambda>i d. if itm_kind i = Kind_Context_Snapshot then AList.update (item_print i) (itm_sequence i) d else d)
       items []"

definition placement_sequences ::
  "(pystr \<times> int) list \<Rightarrow> (pystr \<times> int option) list \<Rightarrow> message_placement \<Rightarrow> int list result" where
  "placement_sequences entries snapshots p =
     (case plc_attachment p of
        Some a \<Rightarrow>
          (let ns = map (\<lambda>m. itm_sequence (atm_source m)) (att_members a) in
           if None \<in> set ns
           then Inl (CompactionPlanningError ''tool attachment source lacks canonical sequence'')
           else Inr (map the ns))
      | None \<Rightarrow>
          (case plc_entry_id p of
             None \<Rightarrow>
               (case plc_item_print p of
                  None \<Rightarrow> Inr []
                | Some f \<Rightarrow>
                    (case map_of snapshots f of Some (Some n) \<Rightarrow> Inr [n] | _ \<Rightarrow> Inr []))
           | Some e \<Rightarrow> (case map_of entries e of None \<Rightarrow> Inr [] | Some n \<Rightarrow> Inr [n])))"

text \<open>The least sequence of each suffix and the greatest of each prefix, in one pass each.\<close>

definition merge_option :: "(int \<Rightarrow> int \<Rightarrow> int) \<Rightarrow> int option \<Rightarrow> int option \<Rightarrow> int option" where
  "merge_option f a b = (case a of None \<Rightarrow> b | Some x \<Rightarrow> (case b of None \<Rightarrow> Some x | Some y \<Rightarrow> Some (f x y)))"

definition list_min :: "int list \<Rightarrow> int option" where
  "list_min ns = (if ns = [] then None else Some (Min (set ns)))"

definition list_max :: "int list \<Rightarrow> int option" where
  "list_max ns = (if ns = [] then None else Some (Max (set ns)))"

fun suffix_minimum :: "int list list \<Rightarrow> int option list" where
  "suffix_minimum [] = [None]"
| "suffix_minimum (ns # nss) =
     (let later = suffix_minimum nss in merge_option min (list_min ns) (hd later) # later)"

fun prefix_maximum :: "int option \<Rightarrow> int list list \<Rightarrow> int option list" where
  "prefix_maximum previous [] = [previous]"
| "prefix_maximum previous (ns # nss) =
     previous # prefix_maximum (merge_option max previous (list_max ns)) nss"

definition attachment_owns :: "message_placement \<Rightarrow> pystr \<Rightarrow> bool" where
  "attachment_owns p e =
     (case plc_attachment p of None \<Rightarrow> False
      | Some a \<Rightarrow> list_ex (\<lambda>m. itm_entry_id (atm_source m) = Some e) (att_members a))"

text \<open>Whether the message after a cut belongs to what the cut would summarise.\<close>

definition splits_source :: "message_placement \<Rightarrow> llm_message \<Rightarrow> message_placement \<Rightarrow> bool" where
  "splits_source p next_message next_placement \<longleftrightarrow>
     msg_tool_call_id next_message \<noteq> None \<or>
     (plc_entry_id p \<noteq> None \<and> plc_entry_id next_placement = plc_entry_id p) \<or>
     (plc_entry_id p = None \<and> plc_item_print p \<noteq> None \<and> plc_item_print next_placement = plc_item_print p) \<or>
     (case plc_entry_id p of None \<Rightarrow> False | Some e \<Rightarrow> attachment_owns next_placement e)"

definition boundary_at ::
  "llm_message list \<Rightarrow> message_placement list \<Rightarrow> int option list \<Rightarrow> int option list \<Rightarrow> int option \<Rightarrow> int \<Rightarrow>
   nat \<Rightarrow> int option" where
  "boundary_at ms ps suffix_min prefix_max pending head count =
     (case (if count = length ms then Some head else prefix_max ! count) of
        None \<Rightarrow> None
      | Some sequence \<Rightarrow>
          if msg_tool_calls (ms ! (count - 1)) \<noteq> [] then None
          else if (case pending of None \<Rightarrow> False | Some n \<Rightarrow> sequence \<ge> n) then None
          else if count < length ms \<and> splits_source (ps ! (count - 1)) (ms ! count) (ps ! count) then None
          else
            (case suffix_min ! count of
               None \<Rightarrow> Some sequence
             | Some later \<Rightarrow> if later \<le> sequence then None else Some sequence))"

text \<open>
  \<open>late n\<close> tells whether the \<open>n\<close>th reading of the clock is past the deadline; without a deadline it is
  never.
\<close>

definition boundary_step ::
  "(nat \<Rightarrow> bool) \<Rightarrow> (nat \<Rightarrow> int option) \<Rightarrow> (nat \<times> int) list \<times> nat \<Rightarrow> nat \<Rightarrow> ((nat \<times> int) list \<times> nat) result" where
  "boundary_step late boundary st count =
     (if late (snd st) then Inl (TimeoutError ''compaction prefix planning deadline expired'')
      else
        Inr (case boundary count of
               None \<Rightarrow> (fst st, Suc (snd st))
             | Some b \<Rightarrow> (AList.update count b (fst st), Suc (snd st))))"

text \<open>The whole input is safe when nothing is pending and no tail is kept.\<close>

definition whole_input :: "llm_message list \<Rightarrow> nat \<Rightarrow> int option \<Rightarrow> int \<Rightarrow> (nat \<times> int) list" where
  "whole_input ms maximum pending head =
     (if maximum = length ms \<and> pending = None then [(maximum, head)] else [])"

definition minimum_message_count :: "'v source_view \<Rightarrow> nat \<Rightarrow> nat result" where
  "minimum_message_count v maximum =
     (case svw_predecessor v of
        None \<Rightarrow> Inr 1
      | Some pre \<Rightarrow>
          (let n = length (prv_messages pre) in
           if n < 1
           then Inl (CompactionPlanningError ''installed provider prefix has no materialized messages'')
           else if n > maximum
           then Inl (CompactionPlanningError ''retained tail would truncate the installed provider prefix'')
           else Inr n))"

definition safe_boundaries ::
  "'v compaction_codec \<Rightarrow> (nat \<Rightarrow> bool) \<Rightarrow> 'v source_view \<Rightarrow> 'v planning_projection \<Rightarrow> nat \<Rightarrow>
   (nat \<times> int) list result" where
  "safe_boundaries c late v p maximum =
     (if late 0 then Inl (TimeoutError ''compaction prefix planning deadline expired'')
      else
        (let ms = materialized_messages v; items = cns_items (view_input v); head = safe_canonical_head v in
         if prj_messages p \<noteq> ms \<or> prj_system_prompt p \<noteq> materialized_system_prompt v \<or>
            prj_tools p \<noteq> plb_tools (svw_binding v) \<or>
            prj_binding_fingerprint p \<noteq> plb_fingerprint (svw_binding v) \<or> maximum > length ms
         then Inl (CompactionPlanningError ''budgeted prefix projection differs from its source view'')
         else
           bind_result (pending_evidence_start (view_input v) (svw_consumed_through v)) (\<lambda>pending.
           bind_result (minimum_message_count v maximum) (\<lambda>least.
           bind_result
             (map_result (placement_sequences (entry_sequences items)
                (snapshot_sequences (cpc_item_print c) items)) (prj_placements p)) (\<lambda>nss.
           bind_result
             (for_each
               (boundary_step late
                 (boundary_at ms (prj_placements p) (suffix_minimum nss) (prefix_maximum None nss) pending head))
               (whole_input ms maximum pending head, 1)
               [least..<Suc maximum]) (\<lambda>(safe, _).
             if safe = []
             then Inl (NoSafeCompactionSummaryPrefix ''source view has no safe summary prefix'')
             else Inr (rev (sort_key fst safe))))))))"

section \<open>The frozen choice\<close>

definition freeze_facts ::
  "'v compaction_codec \<Rightarrow> 'v source_view \<Rightarrow> tail_coordinates \<Rightarrow> nat \<Rightarrow> int \<Rightarrow> (protected_tail \<times> prefix_cut_proof) result" where
  "freeze_facts c v t start boundary =
     (let tail0 = \<lparr>ptl_view_fingerprint = svw_fingerprint v, ptl_groups = tlc_retained t,
            ptl_earliest_entry_id = tlc_earliest t, ptl_through = boundary, ptl_start_index = int start,
            ptl_fingerprint = []\<rparr>;
          prefix = take start (materialized_messages v) in
      bind_result (protected_tail_digest (cpc_sha c) tail0) (\<lambda>f.
        let tail = tail0\<lparr>ptl_fingerprint := f\<rparr> in
        bind_result (protected_tail_init (cpc_sha c) tail) (\<lambda>_.
        bind_result (message_prefix_fingerprint c prefix) (\<lambda>m.
          let proof0 = \<lparr>pcp_view_fingerprint = svw_fingerprint v, pcp_message_count = int (length prefix),
                pcp_messages_fingerprint = m, pcp_through = boundary, pcp_tail_fingerprint = f,
                pcp_fingerprint = []\<rparr> in
          bind_result (prefix_proof_digest (cpc_sha c) proof0) (\<lambda>g.
            let proof = proof0\<lparr>pcp_fingerprint := g\<rparr> in
            map_sum id (\<lambda>_. (tail, proof)) (prefix_proof_init (cpc_sha c) proof))))))"

definition freeze_tail_and_prefix ::
  "'v compaction_codec \<Rightarrow> (nat \<Rightarrow> bool) \<Rightarrow> 'v source_view \<Rightarrow> complete_tool_group list \<Rightarrow> int \<Rightarrow>
   'v planning_projection \<Rightarrow> nat option \<Rightarrow> (protected_tail \<times> prefix_cut_proof) result" where
  "freeze_tail_and_prefix c late v groups count p requested =
     bind_result (retained_tail v groups count) (\<lambda>t.
     bind_result (safe_boundaries c late v p (tlc_start t)) (\<lambda>safe.
       let n = (case requested of Some n \<Rightarrow> n | None \<Rightarrow> Max (set (map fst safe))) in
       case map_of safe n of
         None \<Rightarrow> Inl (CompactionPlanningError ''requested summary boundary is not safe'')
       | Some b \<Rightarrow> freeze_facts c v t n b))"

definition enumerate_safe_prefixes ::
  "'v compaction_codec \<Rightarrow> (nat \<Rightarrow> bool) \<Rightarrow> 'v source_view \<Rightarrow> complete_tool_group list \<Rightarrow> int \<Rightarrow>
   'v planning_projection \<Rightarrow> int option \<Rightarrow> (protected_tail \<times> prefix_cut_proof) list result" where
  "enumerate_safe_prefixes c late v groups count p maximum_through =
     bind_result (retained_tail v groups count) (\<lambda>t.
     bind_result (safe_boundaries c late v p (tlc_start t)) (\<lambda>safe.
       map_result (\<lambda>(n, b). freeze_facts c v t n b)
         (filter (\<lambda>(n, b). case maximum_through of None \<Rightarrow> True | Some m \<Rightarrow> b \<le> m) safe)))"

section \<open>Recent requests\<close>

definition human_item :: "int \<Rightarrow> pystr option \<Rightarrow> provider_item \<Rightarrow> bool" where
  "human_item through excluded i \<longleftrightarrow>
     itm_kind i = Kind_User \<and> itm_origin i \<in> human_origins \<and> itm_entry_id i \<noteq> None \<and>
     itm_entry_id i \<noteq> excluded \<and> (case itm_sequence i of None \<Rightarrow> False | Some n \<Rightarrow> n \<le> through)"

definition provider_text_size :: "frozen_part list \<Rightarrow> int result" where
  "provider_text_size parts =
     bind_result (prompt_provider_parts parts) (\<lambda>ps.
       for_each (\<lambda>n t. map_sum id (\<lambda>k. n + k) (utf8_size t)) 0 (texts_of ps))"

definition recent_of :: "provider_item \<Rightarrow> recent_message" where
  "recent_of i =
     \<lparr>rcm_entry_id = the (itm_entry_id i), rcm_entry_sequence = the (itm_sequence i),
      rcm_origin = itm_origin i, rcm_content = item_parts i\<rparr>"

text \<open>
  The loop over the items from the newest on. The code appends each message and reverses the list at the
  end; here each older message is put in front, which is the same list.
\<close>

fun select_from ::
  "compaction_policy \<Rightarrow> recent_message list \<Rightarrow> int \<Rightarrow> provider_item list \<Rightarrow> recent_message list result" where
  "select_from policy selected aggregate [] = Inr selected"
| "select_from policy selected aggregate (i # is) =
     bind_result (provider_text_size (item_parts i)) (\<lambda>size.
       if aggregate + size > cpl_recent_text_bytes policy then Inr selected
       else
         bind_result (frozen_content_init (item_parts i)) (\<lambda>_.
         bind_result (recent_message_init (recent_of i)) (\<lambda>_.
           if int (length (recent_of i # selected)) = cpl_recent_messages policy then Inr (recent_of i # selected)
           else select_from policy (recent_of i # selected) (aggregate + size) is)))"

definition select_recent_messages ::
  "canonical_snapshot \<Rightarrow> int \<Rightarrow> compaction_policy \<Rightarrow> pystr option \<Rightarrow> recent_message list result" where
  "select_recent_messages s through policy excluded =
     select_from policy [] 0 (rev (filter (human_item through excluded) (cns_items s)))"

section \<open>Continuation\<close>

datatype target_branch = Active_Installation | Idle_Base_Only

definition request_like :: "provider_item \<Rightarrow> bool" where
  "request_like i \<longleftrightarrow>
     (itm_kind i = Kind_User \<and> itm_origin i \<in>
        {Some Origin_Human_Message, Some Origin_Scheduled_Task, Some Origin_Agent_Instruction}) \<or>
     itm_kind i \<in> {Kind_Plan_Continuation, Kind_Terminal_Observation}"

definition built_active :: "active_request \<Rightarrow> (continuation_mode \<times> active_request option) result" where
  "built_active a = map_sum id (\<lambda>_. (Resume_Active_Turn, Some a)) (active_request_init a)"

definition freeze_continuation ::
  "'v source_view \<Rightarrow> target_branch \<Rightarrow> int \<Rightarrow> (continuation_mode \<times> active_request option) result" where
  "freeze_continuation v branch through =
     (let s = view_input v; active_id = cni_initial_entry_id (cns_identity s) in
      if branch = Idle_Base_Only then Inr (Await_Next_User, None)
      else if \<not> (0 \<le> through \<and> through \<le> cni_through_sequence (cns_identity s))
      then Inl (ValueError ''compaction continuation boundary is out of range'')
      else
        (case filter (\<lambda>i. itm_entry_id i = Some active_id) (cns_items s) of
           [i] \<Rightarrow>
             (case itm_sequence i of
                Some n \<Rightarrow>
                  if \<not> request_like i
                  then Inl (CompactionPlanningError ''active request is not a canonical request'')
                  else
                    (let exact = (n \<le> through) in
                     bind_result (if exact then frozen_content_init (item_parts i) else Inr ()) (\<lambda>_.
                       built_active
                         \<lparr>acr_entry_id = active_id, acr_entry_sequence = n,
                          acr_location = (if exact then Snapshot_Exact else Canonical_Suffix),
                          acr_item_kind = itm_kind i, acr_input_origin = itm_origin i,
                          acr_content = (if exact then Some (item_parts i) else None),
                          acr_scheduled_input = itm_scheduled i\<rparr>))
              | None \<Rightarrow> Inl (CompactionPlanningError ''active request is not a canonical request''))
         | [] \<Rightarrow>
             bind_result (snapshot_carrier_of (cns_items s)) (\<lambda>carrier.
               case carrier of
                 None \<Rightarrow> Inl (CompactionPlanningError ''active request is absent without one snapshot'')
               | Some k \<Rightarrow>
                   (case car_active k of
                      Some a \<Rightarrow>
                        if car_mode k \<noteq> Resume_Active_Turn \<or> acr_entry_id a \<noteq> active_id \<or>
                           acr_location a \<noteq> Snapshot_Exact \<or> acr_content a = None
                        then Inl (CompactionPlanningError ''predecessor snapshot does not carry the active request'')
                        else built_active (a\<lparr>acr_location := Snapshot_Exact\<rparr>)
                    | None \<Rightarrow> Inl (CompactionPlanningError ''predecessor snapshot does not carry the active request'')))
         | _ \<Rightarrow> Inl (CompactionPlanningError ''active request attribution is duplicated'')))"

section \<open>Trigger and reclaim\<close>

definition should_trigger :: "'v source_view \<Rightarrow> compaction_policy \<Rightarrow> bool \<Rightarrow> bool" where
  "should_trigger v policy force \<longleftrightarrow>
     force \<or> plq_budget_tokens (svw_quote v) \<ge> frt_scale (cpl_auto_trigger policy) (plb_input_budget (svw_binding v))"

definition validate_reclaim ::
  "int \<Rightarrow> int \<Rightarrow> int \<Rightarrow> compaction_policy \<Rightarrow> bool \<Rightarrow> bool \<Rightarrow> int result" where
  "validate_reclaim source successor budget policy force enforce_soft_target =
     (let reclaim = source - successor in
      if min source (min successor budget) < 0 then Inl (ValueError ''compaction token quote is negative'')
      else if successor > budget
      then Inl (CompactionPlanningError ''compaction successor exceeds its hard model budget'')
      else if reclaim \<le> 0
      then Inl (CompactionReclaimUnavailable ''compaction successor does not reclaim context'')
      else if reclaim < cpl_minimum_reclaim policy \<and> source \<le> budget
      then Inl (CompactionReclaimUnavailable ''compaction successor does not reclaim enough context'')
      else if enforce_soft_target \<and> \<not> force \<and> successor > frt_scale (cpl_post_target policy) budget
      then Inl (CompactionPlanningError ''compaction successor exceeds its post target'')
      else Inr reclaim)"

end
