(* ===== verification/Compaction_Cuts.thy ===== *)
theory Compaction_Cuts
  imports Compaction_Plan
begin

text \<open>
  What the boundaries of the planner are: the one-pass tables are the extrema of the prefixes and
  suffixes, and the list of boundaries is exactly the list of cuts that satisfy the declarative \<open>safe_cut\<close>.
\<close>

section \<open>Extrema in one pass\<close>

lemma list_max_Some: "list_max ns = Some b \<longleftrightarrow> b \<in> set ns \<and> (\<forall>n \<in> set ns. n \<le> b)"
  unfolding list_max_def by (auto intro!: Max_eqI)

lemma list_min_Some: "list_min ns = Some b \<longleftrightarrow> b \<in> set ns \<and> (\<forall>n \<in> set ns. b \<le> n)"
  unfolding list_min_def by (auto intro!: Min_eqI)

lemma list_max_None [simp]: "list_max ns = None \<longleftrightarrow> ns = []"
  by (simp add: list_max_def)

lemma list_min_None [simp]: "list_min ns = None \<longleftrightarrow> ns = []"
  by (simp add: list_min_def)

lemma merge_max_append: "merge_option max (list_max ms) (list_max ns) = list_max (ms @ ns)"
  by (simp add: merge_option_def list_max_def Max_Un)

lemma merge_min_append: "merge_option min (list_min ms) (list_min ns) = list_min (ms @ ns)"
  by (simp add: merge_option_def list_min_def Min_Un)

lemma suffix_minimum_nth:
  "k \<le> length nss \<Longrightarrow> suffix_minimum nss ! k = list_min (concat (drop k nss))"
proof (induction nss arbitrary: k)
  case Nil
  then show ?case by (simp add: list_min_def)
next
  case (Cons ns nss)
  have "hd (suffix_minimum nss) = list_min (concat nss)"
    using Cons.IH [of 0] by (cases nss) (simp_all add: Let_def)
  then show ?case
    using Cons by (cases k) (simp_all add: Let_def merge_min_append)
qed

lemma prefix_maximum_nth:
  "k \<le> length nss \<Longrightarrow> prefix_maximum (list_max ms) nss ! k = list_max (ms @ concat (take k nss))"
proof (induction nss arbitrary: k ms)
  case (Cons ns nss)
  then show ?case
    using Cons.IH [of "k - 1" "ms @ ns"] by (cases k) (simp_all add: merge_max_append)
qed simp

lemma prefix_maximum_start: "k \<le> length nss \<Longrightarrow> prefix_maximum None nss ! k = list_max (concat (take k nss))"
  using prefix_maximum_nth [of k nss "[]"] by (simp add: list_max_def)

section \<open>Safe cuts\<close>

text \<open>
  A cut after \<open>n\<close> messages at sequence \<open>b\<close> is safe when \<open>b\<close> is the newest source of the messages before
  it (the head when everything is cut off), everything after it is newer, no call is left without its
  reply, no source is split, and no pending image evidence lies before \<open>b\<close>.
\<close>

definition safe_cut ::
  "llm_message list \<Rightarrow> message_placement list \<Rightarrow> int list list \<Rightarrow> int option \<Rightarrow> int \<Rightarrow> nat \<Rightarrow> int \<Rightarrow> bool" where
  "safe_cut ms ps nss pending head n b \<longleftrightarrow>
     (if n = length ms then b = head else b \<in> set (concat (take n nss)) \<and> (\<forall>s \<in> set (concat (take n nss)). s \<le> b)) \<and>
     (\<forall>s \<in> set (concat (drop n nss)). b < s) \<and>
     msg_tool_calls (ms ! (n - 1)) = [] \<and>
     (n < length ms \<longrightarrow> \<not> splits_source (ps ! (n - 1)) (ms ! n) (ps ! n)) \<and>
     (\<forall>k. pending = Some k \<longrightarrow> b < k)"

lemma guarded_boundary:
  "(case at of None \<Rightarrow> None
    | Some q \<Rightarrow> if A then None else if P q then None else if C then None
        else (case least of None \<Rightarrow> Some q | Some l \<Rightarrow> if l \<le> q then None else Some q)) = Some b \<longleftrightarrow>
   at = Some b \<and> (case least of None \<Rightarrow> True | Some l \<Rightarrow> b < l) \<and> \<not> A \<and> \<not> C \<and> \<not> P b"
  for b :: int
  by (cases at; cases least; auto)

lemma boundary_at_safe_cut:
  assumes "n \<le> length ms" and "length nss = length ms"
  shows "boundary_at ms ps (suffix_minimum nss) (prefix_maximum None nss) pending head n = Some b \<longleftrightarrow>
    safe_cut ms ps nss pending head n b"
proof -
  let ?cut = "if n = length ms then Some head else list_max (concat (take n nss))"
  have n: "n \<le> length nss" using assms by simp
  have cut: "?cut = Some b \<longleftrightarrow>
     (if n = length ms then b = head else b \<in> set (concat (take n nss)) \<and> (\<forall>s \<in> set (concat (take n nss)). s \<le> b))"
    by (auto simp: list_max_Some simp del: set_concat)
  have later: "(case list_min (concat (drop n nss)) of None \<Rightarrow> True | Some s \<Rightarrow> b < s) \<longleftrightarrow>
      (\<forall>s \<in> set (concat (drop n nss)). b < s)"
  proof (cases "list_min (concat (drop n nss))")
    case None
    then show ?thesis by (metis list_min_None list.set(1) empty_iff option.case(1))
  next
    case (Some s)
    then have "s \<in> set (concat (drop n nss))" "\<forall>t \<in> set (concat (drop n nss)). s \<le> t"
      by (simp_all add: list_min_Some del: set_concat)
    then show ?thesis unfolding Some by force
  qed
  have "\<not> (case pending of None \<Rightarrow> False | Some k \<Rightarrow> b \<ge> k) \<longleftrightarrow> (\<forall>k. pending = Some k \<longrightarrow> b < k)"
    by (cases pending) auto
  then show ?thesis
    unfolding boundary_at_def guarded_boundary suffix_minimum_nth [OF n] prefix_maximum_start [OF n] cut later safe_cut_def
    by blast
qed

section \<open>The loop\<close>

lemma boundary_loop:
  "for_each (boundary_step late bnd) (d, t) ns = Inr (d', t') \<Longrightarrow>
   map_of d' = map_of d ++ (\<lambda>n. if n \<in> set ns then bnd n else None) \<and>
   (distinct (map fst d) \<longrightarrow> distinct (map fst d'))"
proof (induction ns arbitrary: d t)
  case (Cons n ns)
  show ?case
  proof (cases "late t")
    case False
    then show ?thesis
      using Cons by (cases "bnd n")
        (auto simp: boundary_step_def update_conv' distinct_update fun_eq_iff map_add_def split: option.splits)
  qed (use Cons.prems in \<open>simp add: boundary_step_def\<close>)
qed (simp add: fun_eq_iff map_add_def)

lemma sort_key_descending:
  fixes d :: "(nat \<times> int) list"
  assumes "distinct (map fst d)"
  shows "sorted_wrt (>) (map fst (rev (sort_key fst d)))"
proof -
  have "distinct (map fst (sort_key fst d))"
    using assms by (simp add: distinct_map)
  then have "sorted_wrt (<) (map fst (sort_key fst d))"
    by (simp add: strict_sorted_iff)
  then show ?thesis by (simp add: rev_map [symmetric] sorted_wrt_rev)
qed

lemma projection_placements:
  "planning_projection_init p = Inr () \<Longrightarrow> length (prj_placements p) = length (prj_messages p)"
  by (simp add: planning_projection_init_def split: if_splits)

text \<open>The tables of the sources of a view.\<close>

definition placed_sequences ::
  "'v compaction_codec \<Rightarrow> 'v source_view \<Rightarrow> 'v planning_projection \<Rightarrow> int list list result" where
  "placed_sequences c v p =
     map_result
       (placement_sequences (entry_sequences (cns_items (view_input v)))
         (snapshot_sequences (cpc_item_print c) (cns_items (view_input v)))) (prj_placements p)"

lemma safe_boundaries_Inr:
  assumes "planning_projection_init p = Inr ()" and "safe_boundaries c late v p maximum = Inr safe"
  obtains pending least nss where
    "pending_evidence_start (view_input v) (svw_consumed_through v) = Inr pending"
    "minimum_message_count v maximum = Inr least" "placed_sequences c v p = Inr nss"
    "maximum \<le> length (materialized_messages v)" "safe \<noteq> []" "sorted_wrt (>) (map fst safe)"
    "\<And>n b. (n, b) \<in> set safe \<longleftrightarrow>
      (least \<le> n \<and> n \<le> maximum \<and>
        safe_cut (materialized_messages v) (prj_placements p) nss pending (safe_canonical_head v) n b) \<or>
      (n = maximum \<and> n = length (materialized_messages v) \<and> pending = None \<and> b = safe_canonical_head v)"
proof -
  let ?ms = "materialized_messages v" and ?head = "safe_canonical_head v"
  obtain pending least nss d t where p: "pending_evidence_start (view_input v) (svw_consumed_through v) = Inr pending"
    and l: "minimum_message_count v maximum = Inr least" and n: "placed_sequences c v p = Inr nss"
    and ms: "prj_messages p = ?ms" and m: "maximum \<le> length ?ms"
    and loop: "for_each (boundary_step late (boundary_at ?ms (prj_placements p) (suffix_minimum nss)
          (prefix_maximum None nss) pending ?head))
        (whole_input ?ms maximum pending ?head, 1) [least..<Suc maximum] = Inr (d, t)"
    and d: "d \<noteq> []" "safe = rev (sort_key fst d)"
    using assms(2) unfolding safe_boundaries_def placed_sequences_def
    by (auto simp: bind_result_Inr Let_def not_less simp del: upt_Suc split: if_splits prod.splits)
  have len: "length nss = length ?ms"
    using n projection_placements [OF assms(1)] ms
    by (auto simp: placed_sequences_def map_result_Inr dest: list_all2_lengthD)
  note d' = boundary_loop [OF loop]
  have dist: "distinct (map fst d)" using d' by (simp add: whole_input_def)
  have "(k, b) \<in> set safe \<longleftrightarrow> map_of d k = Some b" for k b
    using dist d(2) by simp
  also have "map_of d k = Some b \<longleftrightarrow>
      (least \<le> k \<and> k \<le> maximum \<and> safe_cut ?ms (prj_placements p) nss pending ?head k b) \<or>
      (k = maximum \<and> k = length ?ms \<and> pending = None \<and> b = ?head)" for k b
  proof -
    have at: "boundary_at ?ms (prj_placements p) (suffix_minimum nss) (prefix_maximum None nss) pending ?head k = Some x
        \<longleftrightarrow> safe_cut ?ms (prj_placements p) nss pending ?head k x" if "k \<le> maximum" for x
      using that m by (intro boundary_at_safe_cut [OF _ len]) simp
    have head: "safe_cut ?ms (prj_placements p) nss pending ?head (length ?ms) x \<Longrightarrow> x = ?head" for x
      by (simp add: safe_cut_def)
    show ?thesis
      using d' at head by (auto simp: whole_input_def map_add_def less_Suc_eq_le simp del: upt_Suc split: option.splits if_splits)
  qed
  finally have "(k, b) \<in> set safe \<longleftrightarrow>
      (least \<le> k \<and> k \<le> maximum \<and> safe_cut ?ms (prj_placements p) nss pending ?head k b) \<or>
      (k = maximum \<and> k = length ?ms \<and> pending = None \<and> b = ?head)" for k b .
  moreover have "sorted_wrt (>) (map fst safe)" using sort_key_descending [OF dist] d(2) by simp
  moreover have "safe \<noteq> []" using d by (metis Nil_is_rev_conv set_empty set_sort)
  ultimately show thesis using that [OF p l n m] by blast
qed

end
