(* ===== verification/Compaction_Safety.thy ===== *)
theory Compaction_Safety
  imports Compaction_Cuts
begin

text \<open>
  What a frozen choice keeps: pending image evidence and the first request of the protected tail stay
  after the cut, the groups are the answered batches, the recent requests are the newest that fit.
\<close>

section \<open>Pending image evidence\<close>

lemma set_update_subset: "set (AList.update k x d) \<subseteq> insert (k, x) (set d)"
  by (induction d) auto

lemma request_sequences_fold:
  "(e, n) \<in> set (fold (\<lambda>i d. case itm_sequence i of
         Some n \<Rightarrow> if itm_kind i = Kind_Assistant_Tool_Request \<and> itm_entry_id i \<in> set pending
                   then AList.update (itm_entry_id i) n d else d
       | None \<Rightarrow> d) items d) \<Longrightarrow>
   (e, n) \<in> set d \<or>
   (\<exists>r \<in> set items. itm_kind r = Kind_Assistant_Tool_Request \<and> itm_entry_id r = e \<and> itm_sequence r = Some n)"
proof (induction items arbitrary: d)
  case (Cons i items)
  then show ?case
    using set_update_subset [of "itm_entry_id i" "the (itm_sequence i)" d]
    by (fastforce split: option.splits if_splits)
qed simp

lemma request_sequences_item:
  assumes "(e, n) \<in> set (request_sequences items pending)"
  shows "\<exists>r \<in> set items. itm_kind r = Kind_Assistant_Tool_Request \<and> itm_entry_id r = e \<and> itm_sequence r = Some n"
  using request_sequences_fold [OF assms [unfolded request_sequences_def]] by simp

text \<open>The request of pending evidence of a result, and the sequence of a late outcome.\<close>

definition evidence_after :: "canonical_snapshot \<Rightarrow> int option \<Rightarrow> int \<Rightarrow> bool" where
  "evidence_after s consumed b \<longleftrightarrow>
     (\<forall>i \<in> set (cns_items s). pending_image Kind_Tool_Result consumed i \<longrightarrow>
        (\<exists>r \<in> set (cns_items s). itm_kind r = Kind_Assistant_Tool_Request \<and>
           itm_entry_id r = itm_request_entry_id i \<and> (\<exists>n. itm_sequence r = Some n \<and> b < n))) \<and>
     (\<forall>i \<in> set (cns_items s). pending_image Kind_Late_Tool_Outcome consumed i \<longrightarrow>
        (\<exists>n. itm_sequence i = Some n \<and> b < n))"

lemma pending_evidence_after:
  assumes "pending_evidence_start s consumed = Inr pending" and "\<forall>k. pending = Some k \<longrightarrow> b < k"
  shows "evidence_after s consumed b"
proof -
  obtain ordinary where o: "pending_group_start s consumed = Inr ordinary"
    and p: "pending = (let values = (case ordinary of None \<Rightarrow> [] | Some n \<Rightarrow> [n]) @
                (if late_sequences s consumed = [] then [] else [Min (set (late_sequences s consumed))]) in
          if values = [] then None else Some (Min (set values)))"
    using assms(1) by (auto simp: pending_evidence_start_def map_sum_Inr Let_def)
  have ordinary: "b < n" if "ordinary = Some n" for n
    using assms(2) that p by (auto simp: Let_def split: if_splits)
  have late: "b < n" if "n \<in> set (late_sequences s consumed)" for n
    using assms(2) that p Min_le [of "set (late_sequences s consumed)" n]
    by (cases ordinary) (force simp: Let_def split: if_splits)+
  show ?thesis unfolding evidence_after_def
  proof (intro conjI ballI impI)
    fix i assume i: "i \<in> set (cns_items s)" "pending_image Kind_Tool_Result consumed i"
    let ?pending = "pending_requests s consumed"
    let ?requests = "request_sequences (cns_items s) ?pending"
    have "itm_request_entry_id i \<in> set ?pending" using i by (simp add: pending_requests_def)
    from this o have keys: "set (map fst ?requests) = set ?pending" and least: "ordinary = Some (Min (set (map snd ?requests)))"
      by (auto simp: pending_group_start_def Let_def split: if_splits)
    have "itm_request_entry_id i \<in> fst ` set ?requests"
      using i keys by (simp add: pending_requests_def)
    then obtain n where n: "(itm_request_entry_id i, n) \<in> set ?requests" by auto
    have "b < Min (set (map snd ?requests))" by (rule ordinary [OF least])
    also have "\<dots> \<le> n" using n by (intro Min_le) force+
    finally have "b < n" .
    then show "\<exists>r \<in> set (cns_items s). itm_kind r = Kind_Assistant_Tool_Request \<and>
        itm_entry_id r = itm_request_entry_id i \<and> (\<exists>n. itm_sequence r = Some n \<and> b < n)"
      using request_sequences_item [OF n] by blast
  next
    fix i assume i: "i \<in> set (cns_items s)" "pending_image Kind_Late_Tool_Outcome consumed i"
    then obtain n where n: "itm_sequence i = Some n"
      by (auto simp: pending_image_def unconsumed_def split: option.splits)
    then have "n \<in> set (late_sequences s consumed)" using i by (force simp: late_sequences_def)
    then show "\<exists>n. itm_sequence i = Some n \<and> b < n" using n late by blast
  qed
qed

section \<open>The retained tail\<close>

lemma groups_from_bound: "groups_from first gs = Some k \<Longrightarrow> 0 < k \<and> k \<le> int (length gs)"
  by (induction gs) (auto split: if_splits)

lemma minimum_pending_bound:
  "minimum_pending_groups v groups = Inr k \<Longrightarrow> 0 \<le> k \<and> k \<le> int (length groups)"
  unfolding minimum_pending_groups_def bind_result_Inr
  by (elim exE conjE) (auto split: option.split_asm dest: groups_from_bound)

lemma matching_messages_unique:
  assumes "matching_messages ms ids = [k]"
  shows "k < length ms \<and> map ltc_id (msg_tool_calls (ms ! k)) = ids \<and>
    (\<forall>j < k. map ltc_id (msg_tool_calls (ms ! j)) \<noteq> ids)"
proof -
  have "set (matching_messages ms ids) = {k}" using assms by simp
  then have only: "{j. j < length ms \<and> map ltc_id (msg_tool_calls (ms ! j)) = ids} = {k}"
    by (simp add: matching_messages_def Collect_conj_eq [symmetric])
  then have "k < length ms \<and> map ltc_id (msg_tool_calls (ms ! k)) = ids" by blast
  then show ?thesis using only by force
qed

lemma retained_tail_Inr:
  assumes "retained_tail v groups count = Inr t"
  obtains k where "tlc_retained t = drop k groups" "count \<le> int (length (tlc_retained t))"
    "tlc_start t \<le> length (materialized_messages v)"
    "\<forall>g gs. tlc_retained t = g # gs \<longrightarrow>
      (\<forall>j < tlc_start t. map ltc_id (msg_tool_calls (materialized_messages v ! j)) \<noteq> grp_call_ids g)"
proof -
  obtain least where count: "0 \<le> count" "count \<le> int (length groups)"
    and least: "minimum_pending_groups v groups = Inr least"
    using assms by (auto simp: retained_tail_def bind_result_Inr split: if_splits)
  let ?kept = "drop (length groups - nat (max count least)) groups"
  have len: "count \<le> int (length ?kept)" using count minimum_pending_bound [OF least] by auto
  show thesis
  proof (cases ?kept)
    case Nil
    then have "tlc_retained t = ?kept" "tlc_start t = length (materialized_messages v)"
      using assms count least by (auto simp: retained_tail_def Let_def)
    then show thesis using Nil len by (intro that [of "length groups - nat (max count least)"]) simp_all
  next
    case (Cons g gs)
    then obtain k where k: "matching_messages (materialized_messages v) (grp_call_ids g) = [k]"
      and t: "tlc_retained t = ?kept" "tlc_start t = k"
      using assms count least by (auto simp: retained_tail_def Let_def split: list.splits)
    note u = matching_messages_unique [OF k]
    show thesis
    proof (rule that [of "length groups - nat (max count least)"])
      show "tlc_start t \<le> length (materialized_messages v)" using u t by simp
    next
      show "\<forall>h hs. tlc_retained t = h # hs \<longrightarrow>
          (\<forall>j < tlc_start t. map ltc_id (msg_tool_calls (materialized_messages v ! j)) \<noteq> grp_call_ids h)"
        using u t Cons by simp
    qed (use t len in simp_all)
  qed
qed

section \<open>Frozen choices\<close>

lemma list_all2_source: "list_all2 R xs ys \<Longrightarrow> y \<in> set ys \<Longrightarrow> \<exists>x \<in> set xs. R x y"
  by (induction rule: list_all2_induct) auto

lemma freeze_facts_Inr:
  assumes "freeze_facts c v t n b = Inr (tail, proof)"
  shows "ptl_groups tail = tlc_retained t \<and> ptl_through tail = b \<and> ptl_start_index tail = int n \<and>
    pcp_through proof = b \<and> pcp_message_count proof = int (min (length (materialized_messages v)) n) \<and>
    pcp_tail_fingerprint proof = ptl_fingerprint tail \<and>
    protected_tail_init (cpc_sha c) tail = Inr () \<and> prefix_proof_init (cpc_sha c) proof = Inr ()"
  using assms by (auto simp: freeze_facts_def Let_def bind_result_Inr map_sum_Inr)

text \<open>A choice the planner may freeze: the one it is asked for or one of those it enumerates.\<close>

definition frozen_choice ::
  "'v compaction_codec \<Rightarrow> (nat \<Rightarrow> bool) \<Rightarrow> 'v source_view \<Rightarrow> complete_tool_group list \<Rightarrow> int \<Rightarrow>
   'v planning_projection \<Rightarrow> protected_tail \<times> prefix_cut_proof \<Rightarrow> bool" where
  "frozen_choice c late v groups count p choice \<longleftrightarrow>
     (\<exists>requested. freeze_tail_and_prefix c late v groups count p requested = Inr choice) \<or>
     (\<exists>through choices. enumerate_safe_prefixes c late v groups count p through = Inr choices \<and>
        choice \<in> set choices)"

lemma frozen_choice_cases:
  assumes "frozen_choice c late v groups count p choice"
  obtains t safe n b where "retained_tail v groups count = Inr t"
    "safe_boundaries c late v p (tlc_start t) = Inr safe" "(n, b) \<in> set safe"
    "freeze_facts c v t n b = Inr choice"
  using assms unfolding frozen_choice_def
proof (elim disjE exE conjE)
  fix requested assume "freeze_tail_and_prefix c late v groups count p requested = Inr choice"
  then obtain t safe n b where "retained_tail v groups count = Inr t"
      "safe_boundaries c late v p (tlc_start t) = Inr safe" "map_of safe n = Some b"
      "freeze_facts c v t n b = Inr choice"
    unfolding freeze_tail_and_prefix_def bind_result_Inr Let_def
    by (elim exE conjE) (auto split: option.split_asm)
  then show thesis by (intro that map_of_SomeD)
next
  fix through choices
  assume "enumerate_safe_prefixes c late v groups count p through = Inr choices" and c: "choice \<in> set choices"
  then obtain t safe where t: "retained_tail v groups count = Inr t"
      "safe_boundaries c late v p (tlc_start t) = Inr safe"
    and l: "list_all2 (\<lambda>(n, b) y. freeze_facts c v t n b = Inr y)
      (filter (\<lambda>(n, b). case through of None \<Rightarrow> True | Some m \<Rightarrow> b \<le> m) safe) choices"
    by (auto simp: enumerate_safe_prefixes_def bind_result_Inr map_result_Inr case_prod_beta')
  obtain n b where "(n, b) \<in> set safe" "freeze_facts c v t n b = Inr choice"
    using list_all2_source [OF l c] by auto
  then show thesis by (rule that [OF t])
qed

section \<open>Complete groups\<close>

lemma tool_results_loop:
  "for_each (\<lambda>d i.
       if \<not> is_outcome i then Inr d
       else if map_of d (outcome_key i) \<noteq> None
       then Inl (CompactionPlanningError ''tool result attribution is duplicated'')
       else Inr (AList.update (outcome_key i) (item_print i) d)) d items = Inr d' \<Longrightarrow>
   map_of d' k = Some f \<longleftrightarrow>
     map_of d k = Some f \<or> (\<exists>i \<in> set items. is_outcome i \<and> outcome_key i = k \<and> item_print i = f)"
proof (induction items arbitrary: d)
  case (Cons i items)
  show ?case
  proof (cases "is_outcome i")
    case True
    then have "map_of d (outcome_key i) = None"
      and "for_each (\<lambda>d i.
         if \<not> is_outcome i then Inr d
         else if map_of d (outcome_key i) \<noteq> None
         then Inl (CompactionPlanningError ''tool result attribution is duplicated'')
         else Inr (AList.update (outcome_key i) (item_print i) d))
        (AList.update (outcome_key i) (item_print i) d) items = Inr d'"
      using Cons.prems by (auto split: if_splits)
    then show ?thesis using Cons.IH True by (auto simp: update_conv' split: if_splits)
  qed (use Cons in auto)
qed simp

definition closure_key :: "tool_closure \<Rightarrow> call_key" where
  "closure_key c = (Some (clo_entry_id c), Some (clo_call_id c))"

lemma closure_prints_loop:
  "for_each (\<lambda>d c. map_sum id (\<lambda>f. AList.update (closure_key c) f d) (closure_print sha c)) d closures = Inr d' \<Longrightarrow>
   dom (map_of d') = dom (map_of d) \<union> closure_key ` set closures \<and>
   ([] \<notin> ran (map_of d) \<longrightarrow> [] \<notin> ran (map_of d'))"
proof (induction closures arbitrary: d)
  case (Cons c closures)
  then obtain f where f: "closure_print sha c = Inr f"
    by (cases "closure_print sha c") auto
  then have full: "f \<noteq> []"
    by (auto simp: closure_print_def sha_text_def split: sum.splits)
  have "for_each (\<lambda>d c. map_sum id (\<lambda>f. AList.update (closure_key c) f d) (closure_print sha c))
      (AList.update (closure_key c) f d) closures = Inr d'"
    using Cons.prems f by (simp add: id_def)
  from Cons.IH [OF this] show ?case
    using full by (auto simp: update_conv' ran_def split: if_splits)
qed simp

text \<open>A call is answered by its result or late outcome, or by the closure of its request.\<close>

definition answered :: "canonical_snapshot \<Rightarrow> pystr \<Rightarrow> pystr \<Rightarrow> bool" where
  "answered s e k \<longleftrightarrow>
     (\<exists>i \<in> set (cns_items s). is_outcome i \<and> outcome_key i = (Some e, Some k)) \<or>
     (\<exists>c \<in> set (cns_closures s). clo_entry_id c = e \<and> clo_call_id c = k)"

definition answered_request :: "canonical_snapshot \<Rightarrow> provider_item \<Rightarrow> bool" where
  "answered_request s i \<longleftrightarrow>
     itm_kind i = Kind_Assistant_Tool_Request \<and>
     (\<forall>k \<in> set (itm_calls i). answered s (the (itm_entry_id i)) (ptc_id k))"

lemma leaf_answered:
  assumes "closure_prints sha (cns_closures s) = Inr closures"
    and "tool_results item_print (cns_items s) = Inr results" and "\<And>i. item_print i \<noteq> []"
  shows "leaf_of results closures (Some e, Some k) \<noteq> [] \<longleftrightarrow> answered s e k"
proof -
  have r: "map_of results x = Some f \<longleftrightarrow> (\<exists>i \<in> set (cns_items s). is_outcome i \<and> outcome_key i = x \<and> item_print i = f)"
    for x f using tool_results_loop [OF assms(2) [unfolded tool_results_def]] by simp
  have c: "dom (map_of closures) = closure_key ` set (cns_closures s)" "[] \<notin> ran (map_of closures)"
    using closure_prints_loop [OF assms(1) [unfolded closure_prints_def, folded closure_key_def]] by auto
  show ?thesis
  proof (cases "map_of results (Some e, Some k)")
    case None
    then have "\<not> (\<exists>i \<in> set (cns_items s). is_outcome i \<and> outcome_key i = (Some e, Some k))"
      using r [of "(Some e, Some k)"] by auto
    then have "answered s e k \<longleftrightarrow> (Some e, Some k) \<in> dom (map_of closures)"
      unfolding answered_def c by (auto simp: closure_key_def image_iff)
    then show ?thesis using None c(2) by (auto simp: leaf_of_def ran_def split: option.splits)
  next
    case (Some f)
    then have "f \<noteq> []" "answered s e k" using r assms(3) by (auto simp: answered_def)
    then show ?thesis using Some by (auto simp: leaf_of_def split: list.splits)
  qed
qed

definition group_coordinates :: "complete_tool_group \<Rightarrow> pystr option \<times> int option \<times> pystr list" where
  "group_coordinates g = (Some (grp_entry_id g), Some (grp_entry_sequence g), grp_call_ids g)"

definition request_coordinates :: "provider_item \<Rightarrow> pystr option \<times> int option \<times> pystr list" where
  "request_coordinates i = (itm_entry_id i, itm_sequence i, map ptc_id (itm_calls i))"

lemma tool_groups_loop:
  assumes "for_each (tool_group_step results closures) gs items = Inr gs'"
    and "\<And>e k. leaf_of results closures (Some e, Some k) \<noteq> [] \<longleftrightarrow> answered s e k"
  shows "map group_coordinates gs' =
    map group_coordinates gs @ map request_coordinates (filter (answered_request s) items)"
  using assms(1)
proof (induction items arbitrary: gs)
  case (Cons i items)
  obtain gs1 where step: "tool_group_step results closures gs i = Inr gs1"
    and rest: "for_each (tool_group_step results closures) gs1 items = Inr gs'"
    using Cons.prems by (auto split: sum.splits)
  have "map group_coordinates gs1 =
      map group_coordinates gs @ map request_coordinates (filter (answered_request s) [i])"
    using step
    by (auto simp: tool_group_step_def answered_request_def Let_def list_all_iff assms(2) map_sum_Inr
        group_coordinates_def request_coordinates_def split: if_splits option.splits)
  then show ?case using Cons.IH [OF rest] by simp
qed simp

section \<open>Recent requests\<close>

definition text_bytes :: "provider_item \<Rightarrow> int" where
  "text_bytes i = (case provider_text_size (item_parts i) of Inl _ \<Rightarrow> 0 | Inr n \<Rightarrow> n)"

lemma select_from_window:
  assumes "select_from policy selected aggregate items = Inr sel"
    and "int (length selected) < cpl_recent_messages policy"
  shows "\<exists>k \<le> length items. sel = map recent_of (rev (take k items)) @ selected \<and>
    int (length sel) \<le> cpl_recent_messages policy \<and>
    (0 < k \<longrightarrow> aggregate + (\<Sum>i\<leftarrow>take k items. text_bytes i) \<le> cpl_recent_text_bytes policy) \<and>
    (k = length items \<or> int (length sel) = cpl_recent_messages policy \<or>
     cpl_recent_text_bytes policy < aggregate + (\<Sum>i\<leftarrow>take (Suc k) items. text_bytes i))"
  using assms
proof (induction policy selected aggregate items rule: select_from.induct)
  case (2 policy selected aggregate i items)
  obtain size where size: "provider_text_size (item_parts i) = Inr size"
    using "2.prems"(1) by (cases "provider_text_size (item_parts i)") auto
  then have bytes: "text_bytes i = size" by (simp add: text_bytes_def)
  consider (over) "cpl_recent_text_bytes policy < aggregate + size"
    | (full) "aggregate + size \<le> cpl_recent_text_bytes policy" "int (Suc (length selected)) = cpl_recent_messages policy"
    | (more) "aggregate + size \<le> cpl_recent_text_bytes policy" "int (Suc (length selected)) \<noteq> cpl_recent_messages policy"
    by linarith
  then show ?case
  proof cases
    case over
    then have "sel = selected" using "2.prems"(1) size by simp
    then show ?thesis using over "2.prems"(2) bytes by (intro exI [of _ 0]) simp
  next
    case full
    then have "sel = recent_of i # selected" using "2.prems"(1) size by (auto simp: bind_result_Inr)
    then show ?thesis using full bytes by (intro exI [of _ 1]) simp
  next
    case more
    then have "select_from policy (recent_of i # selected) (aggregate + size) items = Inr sel"
      using "2.prems"(1) size by (auto simp: bind_result_Inr)
    moreover have "frozen_content_init (item_parts i) = Inr ()" "recent_message_init (recent_of i) = Inr ()"
      using "2.prems"(1) size more by (auto simp: bind_result_Inr)
    ultimately have "\<exists>k \<le> length items. sel = map recent_of (rev (take k items)) @ recent_of i # selected \<and>
        int (length sel) \<le> cpl_recent_messages policy \<and>
        (0 < k \<longrightarrow> aggregate + size + (\<Sum>i\<leftarrow>take k items. text_bytes i) \<le> cpl_recent_text_bytes policy) \<and>
        (k = length items \<or> int (length sel) = cpl_recent_messages policy \<or>
         cpl_recent_text_bytes policy < aggregate + size + (\<Sum>i\<leftarrow>take (Suc k) items. text_bytes i))"
      using "2.IH" [OF size] more "2.prems"(2) by simp
    then obtain k where "k \<le> length items" "sel = map recent_of (rev (take k items)) @ recent_of i # selected"
        "int (length sel) \<le> cpl_recent_messages policy"
        "0 < k \<longrightarrow> aggregate + size + (\<Sum>i\<leftarrow>take k items. text_bytes i) \<le> cpl_recent_text_bytes policy"
        "k = length items \<or> int (length sel) = cpl_recent_messages policy \<or>
         cpl_recent_text_bytes policy < aggregate + size + (\<Sum>i\<leftarrow>take (Suc k) items. text_bytes i)"
      by blast
    then show ?thesis using more bytes by (intro exI [of _ "Suc k"]) (auto simp: add.assoc)
  qed
qed simp

end
