(* ===== verification/Compaction_Claims.thy ===== *)
theory Compaction_Claims
  imports Compaction_Safety
begin

text \<open>
  The properties of the planner, each with a concrete cut on which it holds: a request, an answer, and
  a tool batch whose image the model has not seen yet.
\<close>

section \<open>A concrete cut\<close>

definition sample_item :: "item_kind \<Rightarrow> int \<Rightarrow> frozen_part list \<Rightarrow> provider_item" where
  "sample_item k n parts =
     \<lparr>itm_kind = k, itm_entry_id = Some [nat n], itm_sequence = Some n, itm_turn_id = Some [9], itm_content = Parts parts,
      itm_origin = None, itm_scheduled = None, itm_calls = [], itm_call_id = None, itm_request_entry_id = None,
      itm_result_context = None, itm_result_body = None, itm_delivery = Best_Available, itm_call_ordinal = None,
      itm_call_arguments = None, itm_call_name = None\<rparr>"

definition sample_image :: image_part where
  "sample_image = \<lparr>img_media_type = lit ''image/png'', img_bytes = [1], img_width = 1, img_height = 1, img_ref = None\<rparr>"

definition sample_items :: "provider_item list" where
  "sample_items =
     [(sample_item Kind_User 1 [Text_Part [104]])\<lparr>itm_origin := Some Origin_Human_Message\<rparr>,
      sample_item Kind_Assistant 2 [Text_Part [105]],
      (sample_item Kind_Assistant_Tool_Request 3 [])\<lparr>itm_calls := [\<lparr>ptc_id = [7], ptc_name = [8], ptc_arguments = JObj []\<rparr>]\<rparr>,
      (sample_item Kind_Tool_Result 4 [Image_Part sample_image])
        \<lparr>itm_call_id := Some [7], itm_request_entry_id := Some [3]\<rparr>]"

definition sample_messages :: "llm_message list" where
  "sample_messages =
     [plain_message Role_User [Text_Part [104]], plain_message Role_Assistant [Text_Part [105]],
      (plain_message Role_Assistant [])\<lparr>msg_tool_calls := [\<lparr>ltc_id = [7], ltc_name = [8], ltc_arguments = []\<rparr>]\<rparr>,
      (plain_message Role_Tool_Result [Text_Part [106]])\<lparr>msg_tool_call_id := Some [7]\<rparr>]"

definition sample_snapshot :: canonical_snapshot where
  "sample_snapshot =
     \<lparr>cns_identity = \<lparr>cni_session_id = [1], cni_turn_id = [9], cni_initial_entry_id = [1], cni_binding_revision_id = [1],
        cni_through_sequence = 4, cni_scope_kind = Root_Scope, cni_fingerprint = []\<rparr>,
      cns_items = sample_items, cns_expanded_bytes = 0, cns_fingerprint = [], cns_closures = [], cns_late_outcomes = []\<rparr>"

definition sample_placement :: "int \<Rightarrow> message_placement" where
  "sample_placement n =
     \<lparr>plc_ordinal = n, plc_entry_id = Some [nat n + 1], plc_item_print = Some (lit ''sha256:''), plc_within_ordinal = Some 0,
      plc_role = msg_role (sample_messages ! nat n), plc_attachment = None\<rparr>"

definition sample_codec :: "unit compaction_codec" where
  "sample_codec =
     \<lparr>cpc_sha = (\<lambda>_. []), cpc_item_print = (\<lambda>_. lit ''sha256:''), cpc_item_size = (\<lambda>_. 0),
      cpc_prefix_print = (\<lambda>_ _ _. []), cpc_logical_bytes = (\<lambda>_ _ _. 0)\<rparr>"

definition sample_view :: "unit source_view" where
  "sample_view =
     \<lparr>svw_compatibility = Empty_Cold, svw_dispatch = \<lparr>dpc_input = sample_snapshot, dpc_fingerprint = [], dpc_rest = ()\<rparr>,
      svw_binding = \<lparr>plb_scope_kind = Root_Scope, plb_tools = [], plb_fingerprint = lit ''sha256:'',
        plb_estimator_fingerprint = [], plb_input_budget = 100\<rparr>,
      svw_predecessor = None, svw_projection = Cold_Projection [1] sample_messages 0,
      svw_quote = \<lparr>plq_wire_api = [], plq_estimator_fingerprint = [], plq_input_budget = 100, plq_budget_tokens = 90\<rparr>,
      svw_working_set = \<lparr>wks_item_count = 4, wks_expanded_bytes = 0, wks_epoch_bytes = 0\<rparr>,
      svw_fingerprint = lit ''sha256:'', svw_consumed_through = Some 2\<rparr>"

definition sample_projection :: "unit planning_projection" where
  "sample_projection =
     \<lparr>prj_identity = cns_identity sample_snapshot, prj_system_prompt = [1], prj_messages = sample_messages,
      prj_placements = map sample_placement [0, 1, 2, 3], prj_tools = [], prj_diagnostic_codes = [],
      prj_source_collection_fingerprint = lit ''sha256:'', prj_binding_fingerprint = lit ''sha256:''\<rparr>"

definition sample_group :: complete_tool_group where
  "sample_group = \<lparr>grp_entry_id = [3], grp_entry_sequence = 3, grp_call_ids = [[7]], grp_leaves = [lit ''sha256:'']\<rparr>"

lemma sample_view_input: "view_input sample_view = sample_snapshot"
  by (simp add: view_input_def sample_view_def)

lemma sample_groups: "enumerate_tool_groups sample_codec sample_snapshot = Inr [sample_group]"
  by (simp add: enumerate_tool_groups_def closure_prints_def tool_results_def sample_snapshot_def sample_items_def
      sample_item_def sample_codec_def is_outcome_def result_kinds_def outcome_key_def tool_group_step_def leaf_of_def
      tool_group_init_def sample_group_def Let_def)

lemma sample_projection_ok: "planning_projection_init sample_projection = Inr ()"
  by code_simp

lemma sample_print: "svw_fingerprint sample_view = lit ''sha256:''"
  by (simp add: sample_view_def)

lemma sample_view_messages: "materialized_messages sample_view = sample_messages"
  by code_simp

lemma sample_tail:
  "retained_tail sample_view [sample_group] 0 =
     Inr \<lparr>tlc_retained = [sample_group], tlc_earliest = Some [3], tlc_start = 2, tlc_boundary = 2\<rparr>"
  by code_simp

lemma sample_boundaries:
  "safe_boundaries sample_codec (\<lambda>_. False) sample_view sample_projection 2 = Inr [(2, 2), (1, 1)]"
  by code_simp

definition sample_choice :: "protected_tail \<times> prefix_cut_proof" where
  "sample_choice =
     (\<lparr>ptl_view_fingerprint = lit ''sha256:'', ptl_groups = [sample_group], ptl_earliest_entry_id = Some [3],
        ptl_through = 2, ptl_start_index = 2, ptl_fingerprint = lit ''sha256:''\<rparr>,
      \<lparr>pcp_view_fingerprint = lit ''sha256:'', pcp_message_count = 2, pcp_messages_fingerprint = lit ''sha256:'',
        pcp_through = 2, pcp_tail_fingerprint = lit ''sha256:'', pcp_fingerprint = lit ''sha256:''\<rparr>)"

lemma sample_sha:
  "json_finite v \<Longrightarrow> json_scalar v \<Longrightarrow> sha_text (\<lambda>_. []) domain v = Inr (lit ''sha256:'')"
  by (simp add: sha_text_def canonical_json_bytes_ok)

lemma sample_freeze:
  "freeze_tail_and_prefix sample_codec (\<lambda>_. False) sample_view [sample_group] 0 sample_projection None =
     Inr sample_choice"
proof -
  have "freeze_facts sample_codec sample_view
     \<lparr>tlc_retained = [sample_group], tlc_earliest = Some [3], tlc_start = 2, tlc_boundary = 2\<rparr> 2 2 = Inr sample_choice"
    by (simp add: freeze_facts_def sample_view_messages sample_messages_def sample_choice_def protected_tail_digest_def
        tool_group_fingerprint_def protected_tail_init_def message_prefix_fingerprint_def prefix_proof_digest_def
        prefix_proof_init_def sample_codec_def sample_print sample_group_def sample_sha has_sha_prefix_def
        json_option_def is_scalar_def Let_def)
  then show ?thesis
    by (simp add: freeze_tail_and_prefix_def sample_tail sample_boundaries flip: numeral_2_eq_2)
qed

lemma sample_frozen:
  "frozen_choice sample_codec (\<lambda>_. False) sample_view [sample_group] 0 sample_projection sample_choice"
  unfolding frozen_choice_def using sample_freeze by blast


section \<open>Boundaries\<close>

text \<open>
  C23. The boundaries of a view, computed with two one-pass tables, are exactly the safe cuts between the
  installed prefix and the retained tail, from the largest to the smallest, and there is one. (The whole
  input counts as safe when nothing is pending, whatever its last message is.)
\<close>

theorem summary_boundaries_exact:
  assumes "planning_projection_init p = Inr ()" and "safe_boundaries c late v p maximum = Inr safe"
  shows "\<exists>pending least nss.
    pending_evidence_start (view_input v) (svw_consumed_through v) = Inr pending \<and>
    minimum_message_count v maximum = Inr least \<and> placed_sequences c v p = Inr nss \<and>
    safe \<noteq> [] \<and> sorted_wrt (>) (map fst safe) \<and>
    (\<forall>n b. (n, b) \<in> set safe \<longleftrightarrow>
      (least \<le> n \<and> n \<le> maximum \<and>
        safe_cut (materialized_messages v) (prj_placements p) nss pending (safe_canonical_head v) n b) \<or>
      (n = maximum \<and> n = length (materialized_messages v) \<and> pending = None \<and> b = safe_canonical_head v))"
  by (rule safe_boundaries_Inr [OF assms]) metis

lemma summary_boundaries_exact_witness:
  "\<exists>pending least nss.
    pending_evidence_start (view_input sample_view) (svw_consumed_through sample_view) = Inr pending \<and>
    minimum_message_count sample_view 2 = Inr least \<and> placed_sequences sample_codec sample_view sample_projection = Inr nss \<and>
    [(2, 2), (1, 1)] \<noteq> ([] :: (nat \<times> int) list) \<and> sorted_wrt (>) (map fst [(2 :: nat, 2 :: int), (1, 1)]) \<and>
    (\<forall>n b. (n, b) \<in> set [(2, 2), (1, 1)] \<longleftrightarrow>
      (least \<le> n \<and> n \<le> 2 \<and>
        safe_cut (materialized_messages sample_view) (prj_placements sample_projection) nss pending
          (safe_canonical_head sample_view) n b) \<or>
      (n = 2 \<and> n = length (materialized_messages sample_view) \<and> pending = None \<and> b = safe_canonical_head sample_view))"
  by (rule summary_boundaries_exact [OF sample_projection_ok sample_boundaries])

section \<open>What a choice keeps\<close>

text \<open>
  C22. No choice of the planner summarises image evidence the model has not consumed: the request whose result
  carries it, and a late outcome that carries it, lie after the cut.
\<close>

theorem pending_images_kept:
  assumes "planning_projection_init p = Inr ()"
    and "frozen_choice c late v groups count p choice"
  shows "evidence_after (view_input v) (svw_consumed_through v) (pcp_through (snd choice))"
proof -
  obtain t safe n b where safe: "safe_boundaries c late v p (tlc_start t) = Inr safe" "(n, b) \<in> set safe"
    and "freeze_facts c v t n b = Inr choice"
    using frozen_choice_cases [OF assms(2)] .
  then have b: "pcp_through (snd choice) = b"
    using freeze_facts_Inr [of c v t n b "fst choice" "snd choice"] by simp
  obtain pending where "pending_evidence_start (view_input v) (svw_consumed_through v) = Inr pending"
    and "\<forall>k. pending = Some k \<longrightarrow> b < k"
    by (rule safe_boundaries_Inr [OF assms(1) safe(1)]) (use safe(2) in \<open>auto simp: safe_cut_def\<close>)
  then show ?thesis unfolding b by (rule pending_evidence_after)
qed

lemma pending_images_kept_witness:
  "evidence_after (view_input sample_view) (svw_consumed_through sample_view) (pcp_through (snd sample_choice))"
  by (rule pending_images_kept [OF sample_projection_ok sample_frozen])



section \<open>Groups and requests\<close>

text \<open>
  C27. The enumerated groups are the requests of the cut, in order, all of whose calls are answered by a
  result, a late outcome or a closure; an unanswered batch is never one of them.
\<close>

theorem complete_groups_exact:
  assumes "enumerate_tool_groups c s = Inr groups" and "\<And>i. cpc_item_print c i \<noteq> []"
  shows "map group_coordinates groups = map request_coordinates (filter (answered_request s) (cns_items s))"
proof -
  obtain closures results where "closure_prints (cpc_sha c) (cns_closures s) = Inr closures"
      "tool_results (cpc_item_print c) (cns_items s) = Inr results"
    and loop: "for_each (tool_group_step results closures) [] (cns_items s) = Inr groups"
    using assms(1) by (auto simp: enumerate_tool_groups_def bind_result_Inr)
  then show ?thesis
    using tool_groups_loop [OF loop leaf_answered [OF _ _ assms(2)]] by simp
qed

lemma complete_groups_exact_witness:
  "map group_coordinates [sample_group] = map request_coordinates (filter (answered_request sample_snapshot) (cns_items sample_snapshot))"
  by (rule complete_groups_exact [OF sample_groups]) (simp add: sample_codec_def)

definition recent_window :: "provider_item list \<Rightarrow> nat \<Rightarrow> provider_item list" where
  "recent_window items k = drop (length items - k) items"

definition window_bytes :: "provider_item list \<Rightarrow> nat \<Rightarrow> int" where
  "window_bytes items k = (\<Sum>i\<leftarrow>recent_window items k. text_bytes i)"

lemma window_take_rev: "rev (take k (rev items)) = recent_window items k"
  by (simp add: recent_window_def take_rev)

lemma window_bytes_take: "(\<Sum>i\<leftarrow>take k (rev items). text_bytes i) = window_bytes items k"
  by (simp add: window_bytes_def window_take_rev [symmetric] sum_list_rev rev_map [symmetric])

text \<open>
  C26. The recent requests are the newest human requests before the boundary, in their order: a window within
  both bounds that no older request can be added to.
\<close>

theorem recent_requests_newest:
  assumes "select_recent_messages s through policy excluded = Inr selected" and "1 \<le> cpl_recent_messages policy"
  shows "\<exists>human k. human = filter (human_item through excluded) (cns_items s) \<and> k \<le> length human \<and>
    selected = map recent_of (recent_window human k) \<and> int (length selected) \<le> cpl_recent_messages policy \<and>
    (0 < k \<longrightarrow> window_bytes human k \<le> cpl_recent_text_bytes policy) \<and>
    (k = length human \<or> int (length selected) = cpl_recent_messages policy \<or>
     cpl_recent_text_bytes policy < window_bytes human (Suc k))"
  using select_from_window [OF assms(1) [unfolded select_recent_messages_def]] assms(2)
  by (auto simp: window_take_rev window_bytes_take)

definition sample_policy :: compaction_policy where
  "sample_policy =
     \<lparr>cpl_enabled = True, cpl_automatic_enabled = True, cpl_manual_enabled = True,
      cpl_auto_trigger = \<lparr>frt_num = 3, frt_den = 4, frt_scale = (\<lambda>n. 3 * n div 4)\<rparr>,
      cpl_post_target = \<lparr>frt_num = 1, frt_den = 2, frt_scale = (\<lambda>n. n div 2)\<rparr>,
      cpl_minimum_reclaim = 1, cpl_retained_tool_groups = 1, cpl_retained_tail_bytes = 100, cpl_recent_messages = 2,
      cpl_recent_text_bytes = 10, cpl_planning_seconds = \<lparr>frt_num = 1, frt_den = 1, frt_scale = (\<lambda>n. n)\<rparr>,
      cpl_auto_failures = 3\<rparr>"

lemma sample_recent:
  "select_recent_messages sample_snapshot 2 sample_policy None = Inr [recent_of (hd sample_items)]"
  by (simp add: select_recent_messages_def sample_snapshot_def sample_items_def sample_item_def human_item_def
      human_origins_def provider_text_size_def prompt_provider_parts_def texts_of_def item_parts_def sample_policy_def
      frozen_content_init_def validate_prompt_parts_def prompt_content_text_utf8_bytes_def prompt_text_utf8_bytes_def
      forbidden_control_def utf8_size_def utf8_encode_def is_scalar_def utf8_char_def utf8_values_def
      maximum_prompt_text_utf8_bytes_def recent_message_init_def recent_of_def)

lemma recent_requests_newest_witness:
  "\<exists>human k. human = filter (human_item 2 None) (cns_items sample_snapshot) \<and> k \<le> length human \<and>
    [recent_of (hd sample_items)] = map recent_of (recent_window human k) \<and>
    int (length [recent_of (hd sample_items)]) \<le> cpl_recent_messages sample_policy \<and>
    (0 < k \<longrightarrow> window_bytes human k \<le> cpl_recent_text_bytes sample_policy) \<and>
    (k = length human \<or> int (length [recent_of (hd sample_items)]) = cpl_recent_messages sample_policy \<or>
     cpl_recent_text_bytes sample_policy < window_bytes human (Suc k))"
  by (rule recent_requests_newest [OF sample_recent]) (simp add: sample_policy_def)

definition carries_request :: "provider_item list \<Rightarrow> pystr \<Rightarrow> frozen_part list \<Rightarrow> bool" where
  "carries_request items e parts \<longleftrightarrow>
     (\<exists>i \<in> set items. itm_entry_id i = Some e \<and> item_parts i = parts) \<or>
     (\<exists>k a. snapshot_carrier_of items = Inr (Some k) \<and> car_active k = Some a \<and> acr_entry_id a = e \<and>
        acr_content a = Some parts)"

text \<open>
  C24. The request of the running turn is never lost: the continuation names it, and either its item stays
  after the cut or its whole content is carried over, from the item or from the snapshot before.
\<close>

theorem active_request_kept:
  assumes "freeze_continuation v Active_Installation through = Inr (mode, request)"
  shows "\<exists>a. mode = Resume_Active_Turn \<and> request = Some a \<and> active_request_init a = Inr () \<and>
    acr_entry_id a = cni_initial_entry_id (cns_identity (view_input v)) \<and>
    (case acr_location a of
       Canonical_Suffix \<Rightarrow> \<exists>i \<in> set (cns_items (view_input v)). itm_entry_id i = Some (acr_entry_id a) \<and>
         (\<exists>n. itm_sequence i = Some n \<and> through < n)
     | Snapshot_Exact \<Rightarrow> \<exists>parts. acr_content a = Some parts \<and>
         carries_request (cns_items (view_input v)) (acr_entry_id a) parts)"
proof -
  let ?s = "view_input v" and ?e = "cni_initial_entry_id (cns_identity (view_input v))"
  define items where "items = filter (\<lambda>i. itm_entry_id i = Some ?e) (cns_items ?s)"
  have run: "0 \<le> through" "through \<le> cni_through_sequence (cns_identity ?s)"
    using assms by (auto simp: freeze_continuation_def Let_def split: if_splits)
  consider (absent) "items = []" | (item) i where "items = [i]" | (many) i j rest where "items = i # j # rest"
    by (metis neq_Nil_conv)
  then show ?thesis
  proof cases
    case absent
    obtain carrier where c: "snapshot_carrier_of (cns_items ?s) = Inr carrier"
      and r: "(case carrier of
                 None \<Rightarrow> Inl (CompactionPlanningError ''active request is absent without one snapshot'')
               | Some k \<Rightarrow>
                   (case car_active k of
                      Some a \<Rightarrow>
                        if car_mode k \<noteq> Resume_Active_Turn \<or> acr_entry_id a \<noteq> ?e \<or>
                           acr_location a \<noteq> Snapshot_Exact \<or> acr_content a = None
                        then Inl (CompactionPlanningError ''predecessor snapshot does not carry the active request'')
                        else built_active (a\<lparr>acr_location := Snapshot_Exact\<rparr>)
                    | None \<Rightarrow> Inl (CompactionPlanningError ''predecessor snapshot does not carry the active request'')))
          = Inr (mode, request)"
      using assms run absent
      unfolding freeze_continuation_def Let_def items_def [symmetric] by (auto simp: bind_result_Inr)
    show ?thesis
      using c r by (auto simp: built_active_def map_sum_Inr carries_request_def split: option.split_asm if_split_asm)
  next
    case (item i)
    then have "i \<in> set items" by simp
    then have "i \<in> set (cns_items ?s)" "itm_entry_id i = Some ?e" by (simp_all add: items_def)
    then show ?thesis
      using assms run item
      by (auto simp: freeze_continuation_def Let_def bind_result_Inr built_active_def map_sum_Inr carries_request_def
          items_def [symmetric] split: option.splits if_splits)
  next
    case (many i j rest)
    then show ?thesis
      using assms run by (auto simp: freeze_continuation_def Let_def items_def [symmetric])
  qed
qed

definition sample_request :: active_request where
  "sample_request =
     \<lparr>acr_entry_id = [1], acr_entry_sequence = 1, acr_location = Snapshot_Exact, acr_item_kind = Kind_User,
      acr_input_origin = Some Origin_Human_Message, acr_content = Some [Text_Part [104]], acr_scheduled_input = None\<rparr>"

lemma sample_continuation:
  "freeze_continuation sample_view Active_Installation 2 = Inr (Resume_Active_Turn, Some sample_request)"
  by (simp add: freeze_continuation_def sample_view_input sample_snapshot_def sample_items_def sample_item_def
      request_like_def frozen_content_init_def validate_prompt_parts_def prompt_content_text_utf8_bytes_def
      prompt_text_utf8_bytes_def forbidden_control_def utf8_size_def utf8_encode_def is_scalar_def utf8_char_def
      utf8_values_def maximum_prompt_text_utf8_bytes_def item_parts_def built_active_def active_request_init_def
      validate_request_shape_def request_origins_def has_annotation_def content_has_image_def sample_request_def Let_def)

lemma active_request_kept_witness:
  "\<exists>a. Resume_Active_Turn = Resume_Active_Turn \<and> Some sample_request = Some a \<and> active_request_init a = Inr () \<and>
    acr_entry_id a = cni_initial_entry_id (cns_identity (view_input sample_view)) \<and>
    (case acr_location a of
       Canonical_Suffix \<Rightarrow> \<exists>i \<in> set (cns_items (view_input sample_view)). itm_entry_id i = Some (acr_entry_id a) \<and>
         (\<exists>n. itm_sequence i = Some n \<and> 2 < n)
     | Snapshot_Exact \<Rightarrow> \<exists>parts. acr_content a = Some parts \<and>
         carries_request (cns_items (view_input sample_view)) (acr_entry_id a) parts)"
  by (rule active_request_kept [OF sample_continuation])

end
