(* ===== verification/Spec2Isabelle.thy ===== *)
theory Spec2Isabelle
  imports Live_Control Live_Bus Identity Limits Terminal_Output Text_Paging Provider_Stream
    Permission_Gate Plan_Workflow Interaction_Claims Safe_Point_Claims Bounded_Json_Claims
    Prompt_Claims Compaction_Claims
begin

text \<open>
  Pulsara is a personal agent: a host keeps sessions, a runner drives one turn of a session
  at a time, a model provider streams replies, tools act on the machine after a permission
  check, a terminal owner keeps what processes print, and clients follow a session over live
  channels. This development models the parts of that program whose behaviour is decided by
  its own Python code, under \<open>src/src/pulsara_agent\<close> (paths below are relative to it), and
  proves what a client of each part relies on.

  \<^bold>\<open>How Python is read.\<close> A \<open>str\<close> is a list of code points, \<open>bytes\<close> a list of 8-bit words, an
  \<open>int\<close> an \<open>int\<close>, a \<open>dict\<close> its list of items in insertion order, a class with fields a record,
  an enumeration or a union of payload classes a datatype. A call that can raise returns a
  sum whose left side is the exception (\<open>py_error\<close> in Prelude) and whose right side is the
  result with the new state, so every raise and every early return is a branch. Methods
  that mutate an owner take it and return it. Where tasks interleave at an \<open>await\<close> or share a
  lock, the code between two such points is one definition, and an inductive relation
  (\<open>lc_run\<close>, \<open>bus_run\<close>, \<open>to_run\<close>, \<open>ex_run\<close>, \<open>co_run\<close>, \<open>owner_run\<close>, \<open>safe_run\<close>) lets those blocks follow
  one another in any order; the invariants are proved by rule induction over it. Text that only describes
  an error to a person is kept where the code raises it and plays no further part.

  \<^bold>\<open>Parameters.\<close> The digest (SHA-256), random draws, the clock, the home directory and the
  resolution of links, full Unicode case folding and character classes outside ASCII are arguments of
  the definitions that use them. The hypotheses about them are the documented ones (a digest
  has 32 bytes, draws have the documented size, folding leaves ASCII to the ASCII rule).

  \<^bold>\<open>Library.\<close>
  Prelude: values, exceptions, loops that stop at the first exception, identities drawn until
  free, numbered histories, dictionaries.
  Cursor_Log: a bounded ring of published events, and the locale \<open>cursor_log\<close>, the contract
  between an event owner and an observer that keeps a cursor; interpreted by Live_Control
  and Live_Bus on their own reads.
  Chunked: the locale \<open>chunked\<close> of a stage that consumes its input piece by piece, with
  \<open>two_stages\<close> composing them; interpreted on the three stages of the terminal sanitizer.
  Utf8: encoding, strict decoding and the incremental decoder, and where they agree.
  Json, Json_Scalar: JSON values and their canonical text, and when that text has an encoding.
  Canonical_Json: canonical bytes, fingerprints and frozen values (\<open>primitives/_context_base.py\<close>).
  Py_Text: stripping and case folding.

  \<^bold>\<open>Live channels.\<close>
  Live_Payload and Live_Bus model \<open>ports/live_agent_event.py\<close> and \<open>conversation_kernel/live.py\<close>:
  validation of an offer, droppable and settlement offers, the byte and count bounded ring,
  generations, observers with cursors, snapshots that hand out a cursor. The properties: the
  ring is the end of the history of its generation within both bounds; a snapshot followed by reads shows
  every later offer once, in order; an observer that missed something is told.
  Live_Control models \<open>conversation_kernel/live_control.py\<close>, the revisioned slot for the one
  visible interaction and its event ring.

  \<^bold>\<open>Interactions.\<close>
  Interaction models \<open>conversation_kernel/interaction.py\<close> and \<open>interaction_arbiter.py\<close>: a request for a
  permission or a form becomes a candidate in a bounded queue, the promotion loop shows one
  candidate at a time through Live_Control and publishes it on the bus, a controller decides,
  the repository settles the decision, and expiry, loss of the controller, cancellation or
  close answer it otherwise. Candidates live in a store indexed by identity, because the
  code shares the object between the queue, the pending slot, the settlement and the waiter.
  Interaction_Safety proves the invariant \<open>co_inv\<close> (a queue without duplicates and within its
  capacity, waiters exactly the retained candidates, the live control showing exactly the visible one,
  hooks discarded once) and that each of the operations in \<open>perform\<close> keeps it.
  Interaction_Claims proves the properties over \<open>co_run\<close>. The promotion loop carries fuel; one unit
  per retained candidate and one more are enough, which \<open>interaction_promotion_ends\<close> states.
  The write to the repository, the parsing of a form and the hooks' own work are steps
  whose outcome is arbitrary. Timers and the wake-up of waiting tasks are not modelled:
  expiry is a step that may happen when the clock allows it.
  Plan_Workflow models \<open>primitives/plan_workflow.py\<close>: contracts, argument validation, drafts
  and their chunks; reading a draft carries fuel, one unit per character of the draft and one more.

  \<^bold>\<open>Permission.\<close>
  Permission models \<open>primitives/permission.py\<close> and \<open>primitives/run_permission.py\<close> with the policy types of
  \<open>tool_permission.py\<close>: modes, presets, custom policies, and the permission a turn is frozen with.
  Terminal_Risk models \<open>capability/terminal_risk.py\<close>: the regular expressions of the source as
  data, with a matcher that tries every way to match, so a search is decided as \<open>re.search\<close>
  decides it. Tool_Catalog models \<open>capability/builtin_catalog.py\<close> and the flags of
  \<open>capability/descriptor.py\<close>; Permission_Gate models \<open>capability/call_classifier.py\<close>,
  \<open>capability/management_effects.py\<close> and the evaluation of a batch in \<open>tool_permission.py\<close>. The
  properties: the verdict on a known call is the decision table, a removal \<open>rm -rf\<close> of a system root in
  the form the patterns are written for is never allowed in any mode, a looser mode never allows less,
  a read-only profile lets only observing calls through. \<open>separate_options_not_hardline\<close> shows that the
  patterns miss the same removal with its two options in separate words.

  \<^bold>\<open>Terminal.\<close>
  Terminal_Sanitizer and Terminal_Output model \<open>terminal_process/output.py\<close>: bytes are decoded, escape
  sequences are suppressed, tokens that look like secrets are replaced, and the public text
  is kept in a bounded tail with cursors, subscribers and snapshots. The properties: the
  public text does not depend on how the bytes arrive, what is published at any time is a beginning of
  the one-shot text and all of it at the end, it holds no control characters, a secret assignment that is
  one token is replaced, and a reader gets exactly what follows its cursor or is told that it was lost. \<open>terminal_cursor_inside_character\<close> shows the one place where a cursor that
  points inside a character makes a read fail.
  Text_Paging models \<open>primitives/text_paging.py\<close>; reading page after page carries fuel, and one
  unit per character of the text and one more are enough (\<open>pages_total\<close>).

  \<^bold>\<open>Provider.\<close>
  Provider_Stream models \<open>llm/normalized_transport.py\<close> with the types of
  \<open>ports/provider_stream.py\<close>, \<open>llm/result.py\<close> and \<open>primitives/model_call.py\<close>: the blocks of a reply, its
  terminal, its usage, and close. The reader's loop recurses over the items the transport
  still delivers.

  \<^bold>\<open>Provider input.\<close>
  Continuity_Values and Input_Continuity model \<open>model_input/continuity.py\<close>, the seeds of
  \<open>conversation_kernel/cold_epoch.py\<close> and all of \<open>conversation_kernel/input_continuity.py\<close>: one owner per session
  keeps the input prefix a provider has seen. A preparation takes the bootstrap lease of an
  empty scope or the installed epoch, is bound to a transition, registered as a candidate and
  installed as an epoch, with one permit for the request; an adopted compaction ends in a
  successor epoch, in a new lease after the resources are released, or in quarantine. Values
  that the owner only compares are a type parameter, objects that it compares by identity carry
  one, and the shared one-shot objects (authorities of seeds, release proofs) live in lists.
  Continuity_Safety shows that every method but the close moves the slot by one rule of an
  abstract machine (\<open>slot_step\<close>) and proves the invariant for that machine once; Continuity_Paths
  follows the epoch and the permits along histories; Continuity_Claims holds the properties.

  \<^bold>\<open>Safe point.\<close>
  Safe_Point models \<open>conversation_kernel/safe_point.py\<close>: one handle on the input at a time, a
  preparation basis sealed over it from two one-shot observations (of \<open>reader.py\<close> and
  \<open>tool_surface.py\<close>), and the calls that may issue, register and install under a basis. Its state
  extends that of the provider-input owner, handles, bases, observations and borrows live in
  lists. Preparation_Owners models who holds those resources in \<open>provider_dispatch.py\<close>
  (\<open>ProviderDispatchExecutionAuthority\<close>, \<open>CompactionDryResourceAuthority\<close>, the owning part of
  \<open>PreparedProviderDispatch\<close>, \<open>PreparedCompactionDryProjection\<close>) with every \<open>try\<close> and \<open>finally\<close>,
  and the settlements of the safe point that close them. What the repository answers and how the
  release of a borrow, a hook or an abandonment ends are arguments. Safe_Point_Safety proves the
  invariant over \<open>safe_run\<close>; Safe_Point_Claims shows that there is one preparation at a time, that a
  revoked basis never acts again, that a basis installs once, and where each settlement ends.

  \<^bold>\<open>Data from outside.\<close>
  Bounded_Json models \<open>primitives/bounded_json.py\<close>: the scanner that checks syntax, nodes, depth and
  strings before anything is allocated, \<open>json.loads\<close> on the bytes it lets through (decoding, strings
  with surrogate pairs, numbers, the hook for repeated members; the text of a float is an argument),
  and the exact check of the value. Scanner and parser carry fuel, two units per byte and one more,
  which Bounded_Json_Safety shows to be enough. Bounded_Json_Guard runs the parser on the text and the
  scanner on its bytes side by side; Bounded_Json_Claims concludes that the scan guards the parser and
  that what is returned is within every bound. The recursion limit of the interpreter is not modelled.

  \<^bold>\<open>Prompt contents.\<close>
  Prompt_Content models \<open>llm/input.py\<close>: text, image and annotation parts with the checks of their
  construction, the text bound and its charge, the lowering of annotations to provider text, the
  projections for hooks and tools, identity and size, and messages. Prompt_Claims shows that an
  annotation survives its stored form, that an accepted content is within the bound, and that lowering
  always succeeds and hides where a quotation came from.

  \<^bold>\<open>Compaction.\<close>
  Provider_Items models the canonical input of a model call from \<open>model_input/contracts.py\<close>: items with
  the checks of their construction, the requests and the snapshot a compaction carries, closures, cuts and
  message placements. Compaction_Values models the frozen values of \<open>conversation_kernel/compaction/contracts.py\<close>;
  what the planner only compares or measures (fingerprints of items and of provider input, their sizes)
  is the record \<open>compaction_codec\<close>. Compaction_Plan models \<open>conversation_kernel/compaction/planner.py\<close>:
  answered tool batches, pending image evidence, the retained tail, the safe boundaries with their one-pass
  tables and their deadline, the frozen choice, the recent requests, the continuation, trigger and
  reclaim. A ratio of the policy is its exact fraction with the scaling the interpreter computes.
  Compaction_Cuts shows that the boundaries are exactly the declarative safe cuts; Compaction_Safety and
  Compaction_Claims show what every choice keeps after its cut or carries over: unseen images, the request
  of the first of the groups it retains, the installed prefix and the request of the running turn. Not modelled: the dialogue plan of a destination model and
  the synthetic read of a successor.

  \<^bold>\<open>Identities and limits.\<close>
  Identity models \<open>identity.py\<close>, Limits the activation limits of \<open>conversation_kernel/limits.py\<close>.

  \<^bold>\<open>How the parts meet.\<close> An Interaction publishes through Live_Control and Live_Bus, whose
  payloads Live_Payload validates and whose identities Identity derives; the property
  \<open>interaction_live_mirror\<close> is about the three together. Permission_Gate takes its policies
  from Permission, its descriptors from Tool_Catalog and its hard limits from Terminal_Risk;
  a call that needs a decision becomes a request of Interaction. Terminal_Output runs the
  sanitizer on what a process prints. The safe point is the only caller of the provider-input
  owner that issues, installs and settles, and \<open>safe_run\<close> interleaves its calls with those that
  reach the owner directly.

  \<^bold>\<open>Not modelled.\<close> The SQL repository and migrations (their behaviour is the database's), the
  host, runner, the dispatch and compaction as a whole and the tool runtime (compositions of I/O
  around the owners modelled here), MCP, memory, retrieval, media, plugins, code mode, the desktop application
  and the command line (services, processes, external engines and user interface).
\<close>

end
